(* ===== verification/Prelude.thy ===== *)
theory Prelude
  imports Main "HOL-Library.Char_ord" "HOL-Library.List_Lexorder" "HOL-Library.Sublist"
    "HOL-Library.AList"
begin

text \<open>
  The vocabulary every component of the development shares.

  \<^item> Python exceptions as values (\<open>exn\<close>) and results (\<open>'a res\<close>, \<open>Inl\<close> for a raise), with
    the two combinators the models are written in: \<open>rbind\<close> (use a result, let a raise pass)
    and \<open>raise_if\<close> (an \<^verbatim>\<open>if ...: raise\<close> statement followed by the rest of the body).
    The simplification rules of both are collected in \<open>res_simps\<close>.
  \<^item> The string operations of Python that the code uses. A text is a \<open>string\<close>, that is the
    list of the bytes of its UTF-8 encoding, so the lexicographic order of the library is the
    byte order in which SQLite compares TEXT values; the ASCII range of the whitespace and
    case tables of Python is modelled.
  \<^item> The SQL statements of the persistence layer over a table, a list of rows: the first row
    that a WHERE clause selects, UPDATE with its row count, ORDER BY, COALESCE.
  \<^item> A locale for invariants of step relations.
\<close>

section \<open>Results\<close>

named_theorems res_simps "simplification rules for results and raising statements"
named_theorems sql_simps "simplification rules for SQL statements over tables"

text \<open>
  One constructor per exception class that the modelled code raises or tells apart; the
  message is kept where the code sets one.
\<close>

datatype exn =
    ValueError string
  | TypeError string
  | KeyError string
  | RuntimeError string
  | JSONDecodeError
  | IntegrityError string
  | RawRoundError string
  | RawRoundConflict string
  | RawRoundDigestMismatch string
  | RawRoundTooLarge string
  | SQLiteUnitOfWorkError string
  | SQLiteUnitOfWorkInactiveError string
  | MemorySpaceSourceClientChangedError string
  | MigrationError string
  | MigrationVersionError string
  | MigrationChecksumError string
  | UnknownMigrationError string
  | TransientCoreError string
  | DomainRejectedError string string
  | CoreCapabilityError string
  | FrameTooLargeError string
  | FrameTruncatedError string
  | IndexError
  | InputBudgetExceededError nat nat
  | OtherError string

text \<open>\<^verbatim>\<open>str(exc)\<close>, where the class keeps its message.\<close>

fun exn_str :: "exn \<Rightarrow> string" where
  "exn_str (ValueError m) = m"
| "exn_str (TypeError m) = m"
| "exn_str (KeyError m) = CHR 0x27 # m @ [CHR 0x27]"
| "exn_str (RuntimeError m) = m"
| "exn_str (IntegrityError m) = m"
| "exn_str (RawRoundError m) = m"
| "exn_str (RawRoundConflict m) = m"
| "exn_str (RawRoundDigestMismatch m) = m"
| "exn_str (RawRoundTooLarge m) = m"
| "exn_str (SQLiteUnitOfWorkError m) = m"
| "exn_str (SQLiteUnitOfWorkInactiveError m) = m"
| "exn_str (MemorySpaceSourceClientChangedError m) = m"
| "exn_str (MigrationError m) = m"
| "exn_str (MigrationVersionError m) = m"
| "exn_str (MigrationChecksumError m) = m"
| "exn_str (UnknownMigrationError m) = m"
| "exn_str (TransientCoreError m) = m"
| "exn_str (DomainRejectedError c d) = c @ '': '' @ d"
| "exn_str (CoreCapabilityError m) = m"
| "exn_str (FrameTooLargeError m) = m"
| "exn_str (FrameTruncatedError m) = m"
| "exn_str (OtherError m) = m"
| "exn_str _ = []"

text \<open>
  \<^verbatim>\<open>except ValueError\<close> also catches the subclasses, \<^verbatim>\<open>json.JSONDecodeError\<close> and the frame errors.
\<close>

definition is_value_error :: "exn \<Rightarrow> bool" where
  "is_value_error e = (case e of ValueError _ \<Rightarrow> True | JSONDecodeError \<Rightarrow> True
     | FrameTooLargeError _ \<Rightarrow> True | FrameTruncatedError _ \<Rightarrow> True | _ \<Rightarrow> False)"

type_synonym 'a res = "exn + 'a"

definition rbind :: "'e + 'a \<Rightarrow> ('a \<Rightarrow> 'e + 'b) \<Rightarrow> 'e + 'b" where
  "rbind r f = (case r of Inl e \<Rightarrow> Inl e | Inr x \<Rightarrow> f x)"

definition raise_if :: "bool \<Rightarrow> 'e \<Rightarrow> 'e + 'a \<Rightarrow> 'e + 'a" where
  "raise_if c e k = (if c then Inl e else k)"

lemma rbind_Inl [simp, res_simps]: "rbind (Inl e) f = Inl e"
  by (simp add: rbind_def)

lemma rbind_Inr [simp, res_simps]: "rbind (Inr x) f = f x"
  by (simp add: rbind_def)

lemma rbind_eq_Inr [res_simps]: "rbind r f = Inr y \<longleftrightarrow> (\<exists>x. r = Inr x \<and> f x = Inr y)"
  by (cases r) auto

lemma rbind_eq_Inl [res_simps]:
  "rbind r f = Inl e \<longleftrightarrow> r = Inl e \<or> (\<exists>x. r = Inr x \<and> f x = Inl e)"
  by (cases r) auto

lemma rbind_Inr_right [simp]: "rbind r Inr = r"
  by (cases r) auto

lemma raise_if_True [simp, res_simps]: "raise_if True e k = Inl e"
  by (simp add: raise_if_def)

lemma raise_if_False [simp, res_simps]: "raise_if False e k = k"
  by (simp add: raise_if_def)

lemma raise_if_eq_Inr [res_simps]: "raise_if c e k = Inr y \<longleftrightarrow> \<not> c \<and> k = Inr y"
  by (simp add: raise_if_def)

lemma raise_if_eq_Inl [res_simps]:
  "raise_if c e k = Inl x \<longleftrightarrow> (c \<and> x = e) \<or> (\<not> c \<and> k = Inl x)"
  by (auto simp: raise_if_def)

lemma rbind_cong [fundef_cong]:
  "r = r' \<Longrightarrow> (\<And>x. r' = Inr x \<Longrightarrow> f x = g x) \<Longrightarrow> rbind r f = rbind r' g"
  by (cases r') auto

text \<open>A comprehension whose body may raise: the first raise ends it.\<close>

fun rmap :: "('a \<Rightarrow> 'e + 'b) \<Rightarrow> 'a list \<Rightarrow> 'e + 'b list" where
  "rmap f [] = Inr []"
| "rmap f (x # xs) = rbind (f x) (\<lambda>y. rbind (rmap f xs) (\<lambda>ys. Inr (y # ys)))"

lemma rmap_cong [fundef_cong]:
  "xs = ys \<Longrightarrow> (\<And>x. x \<in> set ys \<Longrightarrow> f x = g x) \<Longrightarrow> rmap f xs = rmap g ys"
  by (induction ys arbitrary: xs) auto

lemma rmap_Inr_iff: "rmap f xs = Inr ys \<longleftrightarrow> list_all2 (\<lambda>x y. f x = Inr y) xs ys"
  by (induction xs arbitrary: ys) (auto simp: list_all2_Cons1 res_simps)

lemma rmap_length: "rmap f xs = Inr ys \<Longrightarrow> length ys = length xs"
  by (auto simp: rmap_Inr_iff dest: list_all2_lengthD)

section \<open>Python strings\<close>

definition ascii_space :: "char \<Rightarrow> bool" where
  "ascii_space c \<longleftrightarrow> (let n = of_char c :: nat in (9 \<le> n \<and> n \<le> 13) \<or> (28 \<le> n \<and> n \<le> 32))"

definition lstrip :: "string \<Rightarrow> string" where
  "lstrip s = dropWhile ascii_space s"

definition rstrip :: "string \<Rightarrow> string" where
  "rstrip s = rev (dropWhile ascii_space (rev s))"

definition strip :: "string \<Rightarrow> string" where
  "strip s = rstrip (lstrip s)"

text \<open>\<^verbatim>\<open>s.split(d)\<close> for one character.\<close>

fun split_on :: "char \<Rightarrow> string \<Rightarrow> string list" where
  "split_on d [] = [[]]"
| "split_on d (c # cs) =
     (if c = d then [] # split_on d cs
      else case split_on d cs of [] \<Rightarrow> [[c]] | w # ws \<Rightarrow> (c # w) # ws)"

text \<open>\<^verbatim>\<open>not value.strip()\<close>: the text has no visible character.\<close>

definition blank :: "string \<Rightarrow> bool" where
  "blank s \<longleftrightarrow> strip s = []"

lemma rstrip_Nil_iff: "rstrip s = [] \<longleftrightarrow> (\<forall>c\<in>set s. ascii_space c)"
  by (simp add: rstrip_def dropWhile_eq_Nil_conv)

lemma set_dropWhile_all: "(\<forall>c\<in>set (dropWhile P s). P c) \<longleftrightarrow> (\<forall>c\<in>set s. P c)"
  by (induction s) auto

lemma blank_iff: "blank s \<longleftrightarrow> (\<forall>c\<in>set s. ascii_space c)"
  by (simp add: blank_def strip_def rstrip_Nil_iff lstrip_def set_dropWhile_all)

lemma blank_Nil [simp]: "blank []"
  by (simp add: blank_iff)

definition ascii_lower :: "char \<Rightarrow> char" where
  "ascii_lower c = (let n = of_char c :: nat in if 65 \<le> n \<and> n \<le> 90 then char_of (n + 32) else c)"

definition ascii_upper :: "char \<Rightarrow> char" where
  "ascii_upper c = (let n = of_char c :: nat in if 97 \<le> n \<and> n \<le> 122 then char_of (n - 32) else c)"

definition lower :: "string \<Rightarrow> string" where
  "lower s = map ascii_lower s"

definition upper :: "string \<Rightarrow> string" where
  "upper s = map ascii_upper s"

text \<open>\<^verbatim>\<open>needle in text\<close>.\<close>

fun occurs_in :: "string \<Rightarrow> string \<Rightarrow> bool" where
  "occurs_in p [] = (p = [])"
| "occurs_in p (c # s) = (prefix p (c # s) \<or> occurs_in p s)"

lemma occurs_in_iff: "occurs_in p s \<longleftrightarrow> (\<exists>a b. s = a @ p @ b)"
proof (induction s)
  case Nil
  show ?case by simp
next
  case (Cons c s)
  show ?case
  proof
    assume "occurs_in p (c # s)"
    then consider "prefix p (c # s)" | "occurs_in p s" by auto
    then show "\<exists>a b. c # s = a @ p @ b"
    proof cases
      case 1
      then obtain b where "c # s = p @ b" by (auto elim: prefixE)
      then show ?thesis by (metis append_Nil)
    next
      case 2
      then show ?thesis using Cons.IH by (metis append_Cons)
    qed
  next
    assume "\<exists>a b. c # s = a @ p @ b"
    then obtain a b where ab: "c # s = a @ p @ b" by blast
    show "occurs_in p (c # s)"
    proof (cases a)
      case Nil
      with ab have "prefix p (c # s)" by simp
      then show ?thesis by simp
    next
      case (Cons x xs)
      with ab have "s = xs @ p @ b" by simp
      then show ?thesis using Cons.IH by auto
    qed
  qed
qed

fun join :: "string \<Rightarrow> string list \<Rightarrow> string" where
  "join sep [] = []"
| "join sep [x] = x"
| "join sep (x # y # zs) = x @ sep @ join sep (y # zs)"

text \<open>A value between apostrophes, as the messages print it.\<close>

definition quoted :: "string \<Rightarrow> string" where
  "quoted s = CHR 0x27 # s @ [CHR 0x27]"

text \<open>
  \<^verbatim>\<open>repr\<close> of a text and of a list of texts. A text with an apostrophe and no quotation mark is put
  between quotation marks; control characters are escaped, everything else is printed as it is.
\<close>

definition repr_char :: "char \<Rightarrow> char \<Rightarrow> string" where
  "repr_char q c =
     (let n = of_char c :: nat; hex = (\<lambda>k. ''0123456789abcdef'' ! k) in
      if c = q \<or> c = CHR 0x5C then [CHR 0x5C, c]
      else if c = CHR 0x0A then [CHR 0x5C, CHR ''n'']
      else if c = CHR 0x0D then [CHR 0x5C, CHR ''r'']
      else if c = CHR 0x09 then [CHR 0x5C, CHR ''t'']
      else if n < 32 \<or> n = 127 then [CHR 0x5C, CHR ''x'', hex (n div 16), hex (n mod 16)]
      else [c])"

definition repr_str :: "string \<Rightarrow> string" where
  "repr_str s =
     (let q = (if CHR 0x27 \<in> set s \<and> CHR 0x22 \<notin> set s then CHR 0x22 else CHR 0x27)
      in q # concat (map (repr_char q) s) @ [q])"

definition repr_list :: "string list \<Rightarrow> string" where
  "repr_list xs = ''['' @ join '', '' (map repr_str xs) @ '']''"

text \<open>
  \<^verbatim>\<open>len(text)\<close> counts characters. \<open>leading_bytes\<close> has one byte per character: those that do not continue
  one.
\<close>

definition leading_bytes :: "string \<Rightarrow> string" where
  "leading_bytes s = filter (\<lambda>c. (of_char c :: nat) div 64 \<noteq> 2) s"

definition char_count :: "string \<Rightarrow> nat" where
  "char_count s = length (leading_bytes s)"

section \<open>Bytes\<close>

type_synonym bytes = "char list"

text \<open>\<^verbatim>\<open>n.to_bytes(k, "big")\<close> and \<^verbatim>\<open>int.from_bytes(b, "big", signed=False)\<close>.\<close>

definition be_bytes :: "nat \<Rightarrow> nat \<Rightarrow> bytes" where
  "be_bytes k n = map (\<lambda>i. char_of (n div 256 ^ (k - 1 - i))) [0..<k]"

definition be_number :: "bytes \<Rightarrow> nat" where
  "be_number = foldl (\<lambda>a c. a * 256 + of_char c) 0"

lemma length_be_bytes [simp]: "length (be_bytes k n) = k"
  by (simp add: be_bytes_def)

lemma be_bytes_Suc: "be_bytes (Suc k) n = be_bytes k (n div 256) @ [char_of n]"
proof -
  have "n div 256 ^ (k - i) = n div 256 div 256 ^ (k - 1 - i)" if "i < k" for i
  proof -
    have "(256::nat) ^ (k - i) = 256 * 256 ^ (k - 1 - i)"
      using that by (metis One_nat_def Suc_diff_Suc diff_Suc_eq_diff_pred power_Suc)
    then show ?thesis by (simp add: div_mult2_eq)
  qed
  then show ?thesis by (simp add: be_bytes_def)
qed

lemma be_number_be_bytes: "n < 256 ^ k \<Longrightarrow> be_number (be_bytes k n) = n"
proof (induction k arbitrary: n)
  case 0
  then show ?case by (simp add: be_number_def be_bytes_def)
next
  case (Suc k)
  have "be_number (be_bytes k (n div 256)) = n div 256"
    using Suc.prems by (intro Suc.IH) (simp add: less_mult_imp_div_less mult.commute)
  then show ?case by (simp add: be_bytes_Suc be_number_def of_char_of)
qed

section \<open>SQL over tables\<close>

text \<open>
  A table is the list of its rows. \<open>sql_first\<close> is a SELECT that fetches one row,
  \<open>sql_update\<close> an UPDATE with its \<^verbatim>\<open>rowcount\<close>.
\<close>

definition sql_first :: "('r \<Rightarrow> bool) \<Rightarrow> 'r list \<Rightarrow> 'r option" where
  "sql_first p t = find p t"

definition sql_update :: "('r \<Rightarrow> bool) \<Rightarrow> ('r \<Rightarrow> 'r) \<Rightarrow> 'r list \<Rightarrow> 'r list \<times> nat" where
  "sql_update p f t = (map (\<lambda>r. if p r then f r else r) t, length (filter p t))"

definition sql_order_by :: "('r \<Rightarrow> 'k::linorder) \<Rightarrow> 'r list \<Rightarrow> 'r list" where
  "sql_order_by k t = sort_key k t"

definition coalesce :: "'a option \<Rightarrow> 'a option \<Rightarrow> 'a option" where
  "coalesce a b = (case a of Some x \<Rightarrow> Some x | None \<Rightarrow> b)"

lemma coalesce_simps [simp, sql_simps]: "coalesce (Some x) b = Some x" "coalesce None b = b"
  by (simp_all add: coalesce_def)

lemma sql_first_Some: "sql_first p t = Some r \<Longrightarrow> r \<in> set t \<and> p r"
  by (auto simp: sql_first_def find_Some_iff)

lemma sql_first_None [sql_simps]: "sql_first p t = None \<longleftrightarrow> (\<forall>r\<in>set t. \<not> p r)"
  by (auto simp: sql_first_def find_None_iff)

lemma sql_first_Nil [simp, sql_simps]: "sql_first p [] = None"
  by (simp add: sql_first_def)

lemma sql_first_Cons [simp, sql_simps]:
  "sql_first p (r # t) = (if p r then Some r else sql_first p t)"
  by (simp add: sql_first_def)

lemma sql_first_append [sql_simps]:
  "sql_first p (t @ u) = (case sql_first p t of None \<Rightarrow> sql_first p u | Some r \<Rightarrow> Some r)"
  by (induction t) auto

text \<open>On a primary key the row that a WHERE clause selects is the only one.\<close>

lemma sql_first_key:
  assumes "distinct (map k t)" and "r \<in> set t"
  shows "sql_first (\<lambda>x. k x = k r) t = Some r"
  using assms by (induction t) (auto simp: rev_image_eqI)

lemma sql_update_fst_set:
  "set (fst (sql_update p f t)) = f ` {r \<in> set t. p r} \<union> {r \<in> set t. \<not> p r}"
  by (auto simp: sql_update_def)

lemma sql_update_length [simp, sql_simps]: "length (fst (sql_update p f t)) = length t"
  by (simp add: sql_update_def)

lemma sql_update_key:
  "(\<And>r. p r \<Longrightarrow> k (f r) = k r) \<Longrightarrow> map k (fst (sql_update p f t)) = map k t"
  by (simp add: sql_update_def)

text \<open>An update that keeps the key is seen by a select on the key.\<close>

lemma sql_first_update_key:
  assumes "\<And>r. p r \<Longrightarrow> k (f r) = k r"
  shows "sql_first (\<lambda>x. k x = i) (fst (sql_update p f t))
     = map_option (\<lambda>r. if p r then f r else r) (sql_first (\<lambda>x. k x = i) t)"
  using assms by (induction t) (auto simp: sql_update_def)

lemma sql_update_count_0:
  "snd (sql_update p f t) = 0 \<Longrightarrow> fst (sql_update p f t) = t"
  by (auto simp: sql_update_def filter_empty_conv intro!: map_idI)

lemma sql_update_count_key:
  assumes "distinct (map k t)" and "r \<in> set t" and "\<And>x. p x \<Longrightarrow> k x = k r"
  shows "snd (sql_update p f t) = (if p r then 1 else 0)"
  using assms
proof (induction t)
  case Nil
  then show ?case by simp
next
  case (Cons x t)
  have rest: "filter p t = []" if "x = r"
    using Cons.prems that by (auto simp: filter_empty_conv rev_image_eqI)
  show ?case
  proof (cases "x = r")
    case True
    with rest show ?thesis by (simp add: sql_update_def)
  next
    case False
    with Cons.prems have r: "r \<in> set t" and "k x \<noteq> k r" by (auto simp: rev_image_eqI)
    with Cons.prems(3) have "\<not> p x" by blast
    moreover have "snd (sql_update p f t) = (if p r then 1 else 0)"
      using Cons.prems r by (intro Cons.IH) auto
    ultimately show ?thesis by (simp add: sql_update_def)
  qed
qed

lemma distinct_map_sort_key: "distinct (map f (sort_key k t)) = distinct (map f t)"
  by (simp add: distinct_map)

lemma sql_order_by_set [simp, sql_simps]: "set (sql_order_by k t) = set t"
  by (simp add: sql_order_by_def)

lemma sql_order_by_hd_le:
  "sql_order_by k t = r # rest \<Longrightarrow> x \<in> set t \<Longrightarrow> k r \<le> k x"
  by (metis list.simps(9) set_ConsD set_sort sorted_sort_key sql_order_by_def sorted_simps(2)
      image_eqI list.set_map order_refl)

section \<open>Invariants of step relations\<close>

locale step_invariant =
  fixes step :: "'s \<Rightarrow> 's \<Rightarrow> bool"
    and inv :: "'s \<Rightarrow> bool"
  assumes inv_step: "step s t \<Longrightarrow> inv s \<Longrightarrow> inv t"
begin

lemma inv_steps: "step\<^sup>*\<^sup>* s t \<Longrightarrow> inv s \<Longrightarrow> inv t"
  by (induction rule: rtranclp_induct) (auto intro: inv_step)

end

end
