(* ===== verification/Json.thy ===== *)
theory Json
  imports Prelude
begin

text \<open>
  JSON documents as the code handles them, after Python's \<^verbatim>\<open>json\<close> module.

  A decoded document is a value of \<open>json\<close>; an object keeps its members in insertion order, as
  a Python dict does. A float is kept as its literal (the shortest representation that
  \<^verbatim>\<open>repr\<close> prints), an int is unbounded. \<open>json_dumps\<close> is
  \<^verbatim>\<open>json.dumps(v, ensure_ascii=False, separators=(",", ":"))\<close>, \<open>sort_keys\<close> the effect of its
  \<^verbatim>\<open>sort_keys=True\<close> flag, and \<open>json_loads\<close> is \<^verbatim>\<open>json.loads\<close> with \<open>None\<close> for
  \<^verbatim>\<open>JSONDecodeError\<close>. The parser recurses on fuel, twice the length of the text, which
  \<open>json_loads_dumps\<close> shows to be enough for every text the writer produces.
\<close>

section \<open>Documents\<close>

datatype json =
    JNull
  | JBool bool
  | JInt int
  | JFloat string
  | JStr string
  | JArr "json list"
  | JObj "(string \<times> json) list"

text \<open>\<^verbatim>\<open>d.get(key)\<close> on the members of an object; a missing key reads as \<^verbatim>\<open>None\<close>, that is \<open>JNull\<close>.\<close>

definition jget :: "(string \<times> json) list \<Rightarrow> string \<Rightarrow> json" where
  "jget d k = (case map_of d k of Some v \<Rightarrow> v | None \<Rightarrow> JNull)"

definition jget_default :: "(string \<times> json) list \<Rightarrow> string \<Rightarrow> json \<Rightarrow> json" where
  "jget_default d k v = (case map_of d k of Some w \<Rightarrow> w | None \<Rightarrow> v)"

text \<open>\<^verbatim>\<open>d[key]\<close>.\<close>

definition jitem :: "(string \<times> json) list \<Rightarrow> string \<Rightarrow> json res" where
  "jitem d k = (case map_of d k of Some v \<Rightarrow> Inr v | None \<Rightarrow> Inl (KeyError k))"

definition jkeys :: "(string \<times> json) list \<Rightarrow> string list" where
  "jkeys d = map fst d"

definition is_obj :: "json \<Rightarrow> bool" where
  "is_obj v = (case v of JObj _ \<Rightarrow> True | _ \<Rightarrow> False)"

definition is_str :: "json \<Rightarrow> bool" where
  "is_str v = (case v of JStr _ \<Rightarrow> True | _ \<Rightarrow> False)"

definition is_arr :: "json \<Rightarrow> bool" where
  "is_arr v = (case v of JArr _ \<Rightarrow> True | _ \<Rightarrow> False)"

text \<open>\<^verbatim>\<open>bool(value)\<close>. A float is false exactly when it is a zero.\<close>

definition zero_literal :: "string \<Rightarrow> bool" where
  "zero_literal t = list_all (\<lambda>c. c \<in> set ''-0.'') (takeWhile (\<lambda>c. c \<notin> set ''eE'') t)"

definition truthy :: "json \<Rightarrow> bool" where
  "truthy v = (case v of JNull \<Rightarrow> False | JBool b \<Rightarrow> b | JInt i \<Rightarrow> i \<noteq> 0 | JFloat t \<Rightarrow> \<not> zero_literal t
     | JStr s \<Rightarrow> s \<noteq> [] | JArr xs \<Rightarrow> xs \<noteq> [] | JObj d \<Rightarrow> d \<noteq> [])"

lemma jget_simps [simp]:
  "jget [] k = JNull"
  "jget ((k', v) # d) k = (if k = k' then v else jget d k)"
  by (simp_all add: jget_def)

section \<open>Characters and numbers\<close>

definition is_digit :: "char \<Rightarrow> bool" where
  "is_digit c \<longleftrightarrow> (let n = of_char c :: nat in 48 \<le> n \<and> n \<le> 57)"

definition digit_char :: "nat \<Rightarrow> char" where
  "digit_char n = char_of (48 + n)"

definition digit_val :: "char \<Rightarrow> nat" where
  "digit_val c = of_char c - 48"

fun show_nat :: "nat \<Rightarrow> string" where
  "show_nat n = (if n < 10 then [digit_char n] else show_nat (n div 10) @ [digit_char (n mod 10)])"

declare show_nat.simps [simp del]

definition show_int :: "int \<Rightarrow> string" where
  "show_int i = (if i < 0 then CHR ''-'' # show_nat (nat (- i)) else show_nat (nat i))"

definition read_nat :: "string \<Rightarrow> nat" where
  "read_nat s = foldl (\<lambda>a c. 10 * a + digit_val c) 0 s"

lemma of_char_digit_char: "n < 10 \<Longrightarrow> (of_char (digit_char n) :: nat) = 48 + n"
  by (simp add: digit_char_def)

lemma is_digit_digit_char [simp]: "n < 10 \<Longrightarrow> is_digit (digit_char n)"
  by (simp add: is_digit_def of_char_digit_char)

lemma digit_val_digit_char [simp]: "n < 10 \<Longrightarrow> digit_val (digit_char n) = n"
  by (simp add: digit_val_def of_char_digit_char)

lemma show_nat_digits: "\<forall>c\<in>set (show_nat n). is_digit c"
proof (induction n rule: show_nat.induct)
  case (1 n)
  then show ?case by (subst show_nat.simps) auto
qed

lemma show_nat_nonempty [simp]: "show_nat n \<noteq> []"
  by (subst show_nat.simps) simp

lemma read_nat_show_nat [simp]: "read_nat (show_nat n) = n"
proof (induction n rule: show_nat.induct)
  case (1 n)
  show ?case
  proof (cases "n < 10")
    case True
    then show ?thesis by (subst show_nat.simps) (simp add: read_nat_def)
  next
    case False
    then have "read_nat (show_nat n) = 10 * read_nat (show_nat (n div 10)) + n mod 10"
      by (subst show_nat.simps) (simp add: read_nat_def)
    with 1 False show ?thesis by simp
  qed
qed

lemma digit_char_0 [simp]:
  assumes "n < 10"
  shows "digit_char n = CHR ''0'' \<longleftrightarrow> n = 0"
proof -
  have "digit_char n = CHR ''0'' \<longleftrightarrow> (of_char (digit_char n) :: nat) = of_char (CHR ''0'')"
    by (simp only: of_char_eq_iff)
  also have "\<dots> \<longleftrightarrow> n = 0"
    using assms by (simp add: of_char_digit_char del: of_char_eq_iff)
  finally show ?thesis .
qed

lemma hd_show_nat_0: "hd (show_nat n) = CHR ''0'' \<longleftrightarrow> n = 0"
proof (induction n rule: show_nat.induct)
  case (1 n)
  show ?case
  proof (cases "n < 10")
    case True
    then show ?thesis by (subst show_nat.simps) simp
  next
    case False
    then have "hd (show_nat n) = hd (show_nat (n div 10))"
      by (subst show_nat.simps) (simp add: hd_append)
    with 1 False show ?thesis by simp
  qed
qed

section \<open>Writing\<close>

definition hex_digit :: "nat \<Rightarrow> char" where
  "hex_digit n = (if n < 10 then char_of (48 + n) else char_of (87 + n))"

definition escape_char :: "char \<Rightarrow> string" where
  "escape_char c =
     (let n = of_char c :: nat in
      if c = CHR 0x22 then [CHR 0x5C, CHR 0x22]
      else if c = CHR 0x5C then [CHR 0x5C, CHR 0x5C]
      else if c = CHR 0x0A then [CHR 0x5C, CHR ''n'']
      else if c = CHR 0x0D then [CHR 0x5C, CHR ''r'']
      else if c = CHR 0x09 then [CHR 0x5C, CHR ''t'']
      else if c = CHR 0x08 then [CHR 0x5C, CHR ''b'']
      else if c = CHR 0x0C then [CHR 0x5C, CHR ''f'']
      else if n < 32 then [CHR 0x5C, CHR ''u'', CHR ''0'', CHR ''0'', hex_digit (n div 16), hex_digit (n mod 16)]
      else [c])"

definition dumps_str :: "string \<Rightarrow> string" where
  "dumps_str s = CHR 0x22 # concat (map escape_char s) @ [CHR 0x22]"

fun json_dumps :: "json \<Rightarrow> string" where
  "json_dumps JNull = ''null''"
| "json_dumps (JBool b) = (if b then ''true'' else ''false'')"
| "json_dumps (JInt i) = show_int i"
| "json_dumps (JFloat t) = t"
| "json_dumps (JStr s) = dumps_str s"
| "json_dumps (JArr xs) = CHR ''['' # join '','' (map json_dumps xs) @ '']''"
| "json_dumps (JObj d) =
     CHR ''{'' # join '','' (map (\<lambda>(k, v). dumps_str k @ CHR '':'' # json_dumps v) d) @ ''}''"

fun sort_keys :: "json \<Rightarrow> json" where
  "sort_keys (JArr xs) = JArr (map sort_keys xs)"
| "sort_keys (JObj d) = JObj (sort_key fst (map (\<lambda>(k, v). (k, sort_keys v)) d))"
| "sort_keys v = v"

text \<open>\<^verbatim>\<open>repr(value)\<close> and \<^verbatim>\<open>str(value)\<close> of a decoded value.\<close>

fun py_repr :: "json \<Rightarrow> string" where
  "py_repr JNull = ''None''"
| "py_repr (JBool b) = (if b then ''True'' else ''False'')"
| "py_repr (JInt i) = show_int i"
| "py_repr (JFloat t) =
     (if t = ''NaN'' then ''nan'' else if t = ''Infinity'' then ''inf'' else if t = ''-Infinity'' then ''-inf'' else t)"
| "py_repr (JStr s) = repr_str s"
| "py_repr (JArr xs) = ''['' @ join '', '' (map py_repr xs) @ '']''"
| "py_repr (JObj d) = ''{'' @ join '', '' (map (\<lambda>(k, v). repr_str k @ '': '' @ py_repr v) d) @ ''}''"

definition py_str :: "json \<Rightarrow> string" where
  "py_str v = (case v of JStr s \<Rightarrow> s | _ \<Rightarrow> py_repr v)"

section \<open>Reading\<close>

definition json_ws :: "char \<Rightarrow> bool" where
  "json_ws c \<longleftrightarrow> (let n = of_char c :: nat in n = 32 \<or> n = 9 \<or> n = 10 \<or> n = 13)"

definition skip_ws :: "string \<Rightarrow> string" where
  "skip_ws s = dropWhile json_ws s"

definition hex_val :: "char \<Rightarrow> nat option" where
  "hex_val c = (let n = of_char c :: nat in
     if 48 \<le> n \<and> n \<le> 57 then Some (n - 48)
     else if 97 \<le> n \<and> n \<le> 102 then Some (n - 87)
     else if 65 \<le> n \<and> n \<le> 70 then Some (n - 55) else None)"

definition hex4 :: "char \<Rightarrow> char \<Rightarrow> char \<Rightarrow> char \<Rightarrow> nat option" where
  "hex4 a b c d =
     (case (hex_val a, hex_val b, hex_val c, hex_val d) of
        (Some w, Some x, Some y, Some z) \<Rightarrow> Some (((w * 16 + x) * 16 + y) * 16 + z)
      | _ \<Rightarrow> None)"

definition utf8 :: "nat \<Rightarrow> string" where
  "utf8 n =
     (if n < 128 then [char_of n]
      else if n < 2048 then [char_of (192 + n div 64), char_of (128 + n mod 64)]
      else if n < 65536 then
        [char_of (224 + n div 4096), char_of (128 + n div 64 mod 64), char_of (128 + n mod 64)]
      else
        [char_of (240 + n div 262144), char_of (128 + n div 4096 mod 64),
         char_of (128 + n div 64 mod 64), char_of (128 + n mod 64)])"

definition simple_escape :: "char \<Rightarrow> char option" where
  "simple_escape e =
     (if e = CHR 0x22 then Some (CHR 0x22)
      else if e = CHR 0x5C then Some (CHR 0x5C)
      else if e = CHR ''/'' then Some (CHR ''/'')
      else if e = CHR ''b'' then Some (CHR 0x08)
      else if e = CHR ''f'' then Some (CHR 0x0C)
      else if e = CHR ''n'' then Some (CHR 0x0A)
      else if e = CHR ''r'' then Some (CHR 0x0D)
      else if e = CHR ''t'' then Some (CHR 0x09)
      else None)"

text \<open>
  The text of a \<^verbatim>\<open>\u\<close> escape: one code unit, or a surrogate pair written as two escapes.
  The result is the encoded character and the input that follows it.
\<close>

definition unicode_escape :: "string \<Rightarrow> (string \<times> string) option" where
  "unicode_escape es =
     (case es of
        a # b # c # d # rest \<Rightarrow>
          (case hex4 a b c d of
             None \<Rightarrow> None
           | Some u \<Rightarrow>
               (case (55296 \<le> u \<and> u < 56320, rest) of
                  (True, x # y # a2 # b2 # c2 # d2 # rest2) \<Rightarrow>
                    (case (x = CHR 0x5C \<and> y = CHR ''u'', hex4 a2 b2 c2 d2) of
                       (True, Some v) \<Rightarrow>
                         if 56320 \<le> v \<and> v < 57344
                         then Some (utf8 (65536 + (u - 55296) * 1024 + (v - 56320)), rest2)
                         else Some (utf8 u, rest)
                     | _ \<Rightarrow> Some (utf8 u, rest))
                | _ \<Rightarrow> Some (utf8 u, rest)))
      | _ \<Rightarrow> None)"

lemma unicode_escape_shorter: "unicode_escape es = Some (t, r) \<Longrightarrow> length r < length es"
  by (auto simp: unicode_escape_def split: list.splits option.splits prod.splits bool.splits if_splits)

function parse_string :: "string \<Rightarrow> (string \<times> string) option" where
  "parse_string [] = None"
| "parse_string (c # cs) =
     (if c = CHR 0x22 then Some ([], cs)
      else if c = CHR 0x5C then
        (case cs of
           [] \<Rightarrow> None
         | e # es \<Rightarrow>
             if e = CHR ''u'' then
               (case unicode_escape es of
                  None \<Rightarrow> None
                | Some (t, r) \<Rightarrow> map_option (map_prod (\<lambda>u. t @ u) id) (parse_string r))
             else
               (case simple_escape e of
                  None \<Rightarrow> None
                | Some x \<Rightarrow> map_option (map_prod (\<lambda>u. x # u) id) (parse_string es)))
      else if (of_char c :: nat) < 32 then None
      else map_option (map_prod (\<lambda>u. c # u) id) (parse_string cs))"
  by pat_completeness auto
termination
  by (relation "measure length") (auto dest: unicode_escape_shorter)

definition frac_part :: "string \<Rightarrow> string" where
  "frac_part s =
     (case s of c # cs \<Rightarrow>
        if c = CHR ''.'' \<and> takeWhile is_digit cs \<noteq> [] then c # takeWhile is_digit cs else []
      | [] \<Rightarrow> [])"

definition exp_part :: "string \<Rightarrow> string" where
  "exp_part s =
     (case s of c # cs \<Rightarrow>
        if c = CHR ''e'' \<or> c = CHR ''E'' then
          (case cs of d # ds \<Rightarrow>
             if d = CHR ''+'' \<or> d = CHR ''-''
             then (if takeWhile is_digit ds \<noteq> [] then c # d # takeWhile is_digit ds else [])
             else (if takeWhile is_digit cs \<noteq> [] then c # takeWhile is_digit cs else [])
           | [] \<Rightarrow> [])
        else []
      | [] \<Rightarrow> [])"

definition int_part :: "string \<Rightarrow> string" where
  "int_part s =
     (let ds = takeWhile is_digit s in
      case ds of [] \<Rightarrow> [] | d # _ \<Rightarrow> if d = CHR ''0'' then [d] else ds)"

definition sign_part :: "string \<Rightarrow> string" where
  "sign_part s = (case s of c # _ \<Rightarrow> if c = CHR ''-'' then [c] else [] | [] \<Rightarrow> [])"

definition parse_number :: "string \<Rightarrow> (json \<times> string) option" where
  "parse_number s =
     (let sg = sign_part s; s1 = drop (length sg) s; ip = int_part s1; s2 = drop (length ip) s1;
          fp = frac_part s2; s3 = drop (length fp) s2; ep = exp_part s3; s4 = drop (length ep) s3
      in if ip = [] then None
         else if fp = [] \<and> ep = []
         then Some (JInt (if sg = [] then int (read_nat ip) else - int (read_nat ip)), s2)
         else Some (JFloat (sg @ ip @ fp @ ep), s4))"

text \<open>A repeated key keeps its first position and takes the last value, as in a dict.\<close>

definition dict_of :: "(string \<times> json) list \<Rightarrow> (string \<times> json) list" where
  "dict_of ps = fold (\<lambda>(k, v) d. AList.update k v d) ps []"

definition parse_constant :: "string \<Rightarrow> (json \<times> string) option" where
  "parse_constant s =
     (if prefix ''null'' s then Some (JNull, drop 4 s)
      else if prefix ''true'' s then Some (JBool True, drop 4 s)
      else if prefix ''false'' s then Some (JBool False, drop 5 s)
      else case parse_number s of
        Some x \<Rightarrow> Some x
      | None \<Rightarrow>
          if prefix ''NaN'' s then Some (JFloat ''NaN'', drop 3 s)
          else if prefix ''Infinity'' s then Some (JFloat ''Infinity'', drop 8 s)
          else if prefix ''-Infinity'' s then Some (JFloat ''-Infinity'', drop 9 s)
          else None)"

fun parse_value :: "nat \<Rightarrow> string \<Rightarrow> (json \<times> string) option"
  and parse_elems :: "nat \<Rightarrow> string \<Rightarrow> (json list \<times> string) option"
  and parse_pairs :: "nat \<Rightarrow> string \<Rightarrow> ((string \<times> json) list \<times> string) option"
where
  "parse_value 0 s = None"
| "parse_value (Suc n) s =
     (case s of
        [] \<Rightarrow> None
      | c # cs \<Rightarrow>
          if c = CHR 0x22 then map_option (map_prod JStr id) (parse_string cs)
          else if c = CHR ''{'' then
            (case skip_ws cs of
               [] \<Rightarrow> None
             | d # ds \<Rightarrow>
                 if d = CHR ''}'' then Some (JObj [], ds)
                 else map_option (map_prod (\<lambda>ps. JObj (dict_of ps)) id) (parse_pairs n (d # ds)))
          else if c = CHR ''['' then
            (case skip_ws cs of
               [] \<Rightarrow> None
             | d # ds \<Rightarrow>
                 if d = CHR '']'' then Some (JArr [], ds)
                 else map_option (map_prod JArr id) (parse_elems n (d # ds)))
          else parse_constant s)"
| "parse_elems 0 s = None"
| "parse_elems (Suc n) s =
     (case parse_value n s of
        None \<Rightarrow> None
      | Some (v, r) \<Rightarrow>
          (case skip_ws r of
             [] \<Rightarrow> None
           | d # ds \<Rightarrow>
               if d = CHR '']'' then Some ([v], ds)
               else if d = CHR '','' then map_option (map_prod (\<lambda>vs. v # vs) id) (parse_elems n (skip_ws ds))
               else None))"
| "parse_pairs 0 s = None"
| "parse_pairs (Suc n) s =
     (case s of
        [] \<Rightarrow> None
      | q # qs \<Rightarrow>
          if q \<noteq> CHR 0x22 then None
          else
            (case parse_string qs of
               None \<Rightarrow> None
             | Some (k, r) \<Rightarrow>
                 (case skip_ws r of
                    [] \<Rightarrow> None
                  | c # cs \<Rightarrow>
                      if c \<noteq> CHR '':'' then None
                      else
                        (case parse_value n (skip_ws cs) of
                           None \<Rightarrow> None
                         | Some (v, r2) \<Rightarrow>
                             (case skip_ws r2 of
                                [] \<Rightarrow> None
                              | d # ds \<Rightarrow>
                                  if d = CHR ''}'' then Some ([(k, v)], ds)
                                  else if d = CHR '',''
                                  then map_option (map_prod (\<lambda>ps. (k, v) # ps) id) (parse_pairs n (skip_ws ds))
                                  else None)))))"

definition json_loads :: "string \<Rightarrow> json option" where
  "json_loads s =
     (case parse_value (2 * length s + 1) (skip_ws s) of
        Some (v, r) \<Rightarrow> if skip_ws r = [] then Some v else None
      | None \<Rightarrow> None)"

section \<open>Reading back what was written\<close>

lemma hex_val_hex_digit [simp]: "n < 16 \<Longrightarrow> hex_val (hex_digit n) = Some n"
  by (auto simp: hex_val_def hex_digit_def Let_def)

lemma unicode_escape_control:
  assumes "(of_char c :: nat) < 32"
  shows "unicode_escape (CHR ''0'' # CHR ''0'' # hex_digit (of_char c div 16) # hex_digit (of_char c mod 16) # t) = Some ([c], t)"
proof -
  have z: "hex_val (CHR ''0'') = Some 0" by (simp add: hex_val_def)
  have d: "(of_char c :: nat) div 16 < 16" "(of_char c :: nat) mod 16 < 16" using assms by auto
  have "hex4 (CHR ''0'') (CHR ''0'') (hex_digit (of_char c div 16)) (hex_digit (of_char c mod 16)) = Some (of_char c)"
    using d by (simp add: hex4_def z)
  then show ?thesis using assms by (auto simp: unicode_escape_def utf8_def split: list.splits)
qed

lemma append_single: "(@) [c] = (#) c"
  by auto

lemma parse_string_escape:
  "parse_string (escape_char c @ t) = map_option (map_prod (\<lambda>u. c # u) id) (parse_string t)"
  unfolding escape_char_def Let_def
  by (auto simp: simple_escape_def unicode_escape_control append_single)

lemma parse_string_dumps: "parse_string (concat (map escape_char s) @ CHR 0x22 # r) = Some (s, r)"
  by (induction s) (simp_all add: parse_string_escape)

text \<open>What may follow a number: nothing that a longer number could continue with.\<close>

definition number_end :: "string \<Rightarrow> bool" where
  "number_end r = (case r of [] \<Rightarrow> True | c # _ \<Rightarrow> \<not> is_digit c \<and> c \<notin> set ''.eE+-'')"

lemma takeWhile_digits_end:
  "number_end r \<Longrightarrow> takeWhile is_digit (s @ r) = takeWhile is_digit s"
  by (induction s) (auto simp: number_end_def split: list.splits)

lemma int_part_end: "number_end r \<Longrightarrow> int_part (s @ r) = int_part s"
  by (simp add: int_part_def takeWhile_digits_end)

lemma frac_part_end: "number_end r \<Longrightarrow> frac_part (s @ r) = frac_part s"
  by (cases s) (auto simp: frac_part_def takeWhile_digits_end number_end_def split: list.splits)

lemma takeWhile_number_end: "number_end r \<Longrightarrow> takeWhile is_digit r = []"
  using takeWhile_digits_end [of r "[]"] by simp

lemma exp_part_end:
  assumes "number_end r"
  shows "exp_part (s @ r) = exp_part s"
proof (cases s)
  case Nil
  with assms show ?thesis by (auto simp: exp_part_def number_end_def split: list.splits)
next
  case (Cons c cs)
  show ?thesis
  proof (cases cs)
    case Nil
    with Cons assms takeWhile_number_end [OF assms] show ?thesis
      by (auto simp: exp_part_def number_end_def split: list.splits)
  next
    case (Cons d ds)
    with \<open>s = c # cs\<close> show ?thesis
      using takeWhile_digits_end [OF assms, of ds] takeWhile_digits_end [OF assms, of cs]
      by (simp add: exp_part_def)
  qed
qed

lemma sign_part_end: "s \<noteq> [] \<Longrightarrow> sign_part (s @ r) = sign_part s"
  by (cases s) (auto simp: sign_part_def)

lemma prefix_int_part: "prefix (int_part s) s"
proof (cases "takeWhile is_digit s")
  case Nil
  then show ?thesis by (simp add: int_part_def)
next
  case (Cons d ds)
  have "prefix (takeWhile is_digit s) s" by (rule takeWhile_is_prefix)
  moreover from this Cons have "prefix [d] s" by (auto simp: prefix_def)
  ultimately show ?thesis using Cons by (auto simp: int_part_def)
qed

lemma prefix_parts:
  "prefix (sign_part s) s" "prefix (int_part s) s" "prefix (frac_part s) s" "prefix (exp_part s) s"
  by (auto simp: sign_part_def prefix_int_part frac_part_def exp_part_def takeWhile_is_prefix
      split: list.splits)

lemma parse_number_end:
  assumes "parse_number s = Some (v, t)" and "number_end r"
  shows "parse_number (s @ r) = Some (v, t @ r)"
proof -
  have "s \<noteq> []" using assms(1) by (auto simp: parse_number_def int_part_def sign_part_def)
  note sg = sign_part_end [OF this, of r]
  define s1 where "s1 = drop (length (sign_part s)) s"
  define s2 where "s2 = drop (length (int_part s1)) s1"
  define s3 where "s3 = drop (length (frac_part s2)) s2"
  have l: "length (sign_part s) \<le> length s" "length (int_part s1) \<le> length s1"
    "length (frac_part s2) \<le> length s2" "length (exp_part s3) \<le> length s3"
    using prefix_parts by (auto intro: prefix_length_le)
  show ?thesis
    using assms l
    by (auto simp: parse_number_def Let_def sg int_part_end frac_part_end exp_part_end
        s1_def [symmetric] s2_def [symmetric] s3_def [symmetric] split: if_splits)
qed

lemma is_digit_not: "\<not> is_digit (CHR ''-'')"
  by (simp add: is_digit_def)

lemma hd_show_nat_digit: "is_digit (hd (show_nat n))"
  using show_nat_digits [of n] hd_in_set [of "show_nat n"] by simp

lemma sign_part_show_nat: "sign_part (show_nat n) = []"
  using hd_show_nat_digit [of n] is_digit_not
  by (cases "show_nat n") (auto simp: sign_part_def)

lemma int_part_show_nat: "int_part (show_nat n) = show_nat n"
proof -
  have tw: "takeWhile is_digit (show_nat n) = show_nat n"
    using show_nat_digits by (simp add: takeWhile_eq_all_conv)
  show ?thesis
  proof (cases "n = 0")
    case True
    then show ?thesis by (simp add: int_part_def show_nat.simps [of 0] digit_char_def is_digit_def)
  next
    case False
    then have "hd (show_nat n) \<noteq> CHR ''0''" by (simp add: hd_show_nat_0)
    moreover have "int_part (show_nat n) = (case show_nat n of [] \<Rightarrow> []
        | d # _ \<Rightarrow> if d = CHR ''0'' then [d] else show_nat n)"
      by (simp only: int_part_def tw Let_def)
    ultimately show ?thesis by (cases "show_nat n") simp_all
  qed
qed

lemma parts_Nil [simp]: "frac_part [] = []" "exp_part [] = []"
  by (simp_all add: frac_part_def exp_part_def)

lemma parse_number_show_int: "parse_number (show_int i) = Some (JInt i, [])"
proof (cases "i < 0")
  case True
  then have "sign_part (show_int i) = ''-''" by (simp add: show_int_def sign_part_def)
  with True show ?thesis by (simp add: parse_number_def show_int_def int_part_show_nat)
next
  case False
  then show ?thesis
    by (simp add: parse_number_def show_int_def int_part_show_nat sign_part_show_nat)
qed

lemma parse_number_hd:
  assumes "parse_number s = Some x"
  shows "\<exists>c cs. s = c # cs \<and> (is_digit c \<or> c = CHR ''-'')"
proof (cases s)
  case Nil
  with assms show ?thesis by (simp add: parse_number_def int_part_def sign_part_def)
next
  case (Cons c cs)
  with assms show ?thesis
    by (auto simp: parse_number_def int_part_def sign_part_def Let_def split: if_splits)
qed

lemma parse_constant_number:
  assumes "parse_number s = Some x"
  shows "parse_constant s = Some x"
proof -
  obtain c cs where s: "s = c # cs" and c: "is_digit c \<or> c = CHR ''-''"
    using parse_number_hd [OF assms] by blast
  then have "c \<noteq> CHR ''n''" "c \<noteq> CHR ''t''" "c \<noteq> CHR ''f''" by (auto simp: is_digit_def)
  with s assms show ?thesis by (simp add: parse_constant_def)
qed

lemma parse_value_number:
  assumes "parse_number s = Some x"
  shows "parse_value (Suc n) s = Some x"
proof -
  obtain c cs where s: "s = c # cs" and c: "is_digit c \<or> c = CHR ''-''"
    using parse_number_hd [OF assms] by blast
  then have "c \<noteq> CHR 0x22" "c \<noteq> CHR ''{''" "c \<noteq> CHR ''[''" by (auto simp: is_digit_def)
  with s parse_constant_number [OF assms] show ?thesis by simp
qed

fun wf_json :: "json \<Rightarrow> bool" where
  "wf_json (JFloat t) = (parse_number t = Some (JFloat t, []))"
| "wf_json (JArr xs) = list_all wf_json xs"
| "wf_json (JObj d) = (distinct (map fst d) \<and> list_all (\<lambda>(k, v). wf_json v) d)"
| "wf_json v = True"

definition starts_value :: "string \<Rightarrow> bool" where
  "starts_value s = (case s of [] \<Rightarrow> False | c # _ \<Rightarrow> \<not> json_ws c \<and> c \<notin> set ''],}'')"

lemma starts_value_number: "parse_number s = Some x \<Longrightarrow> starts_value s"
  by (auto simp: starts_value_def is_digit_def json_ws_def Let_def dest!: parse_number_hd)

lemma starts_value_dumps: "wf_json v \<Longrightarrow> starts_value (json_dumps v)"
  using starts_value_number [OF parse_number_show_int]
  by (cases v) (auto simp: starts_value_def json_ws_def dumps_str_def dest: starts_value_number split: list.splits)

lemma skip_ws_value: "starts_value s \<Longrightarrow> skip_ws (s @ r) = s @ r"
  by (auto simp: starts_value_def skip_ws_def split: list.splits)

lemma update_new: "k \<notin> fst ` set d \<Longrightarrow> AList.update k v d = d @ [(k, v)]"
  by (induction d) auto

lemma dict_of_distinct: "distinct (map fst ps) \<Longrightarrow> dict_of ps = ps"
proof -
  have "fold (\<lambda>(k, v) d. AList.update k v d) ps acc = acc @ ps"
    if "distinct (map fst (acc @ ps))" for acc
    using that
  proof (induction ps arbitrary: acc)
    case Nil
    then show ?case by simp
  next
    case (Cons p ps)
    obtain k v where p: "p = (k, v)" by (cases p)
    have "AList.update k v acc = acc @ [(k, v)]"
      using Cons.prems p by (intro update_new) auto
    with Cons p show ?case by simp
  qed
  from this [of "[]"] show "distinct (map fst ps) \<Longrightarrow> dict_of ps = ps" by (simp add: dict_of_def)
qed

definition value_ok :: "json \<Rightarrow> bool" where
  "value_ok v \<longleftrightarrow> (\<forall>n r. 2 * length (json_dumps v @ r) \<le> n \<longrightarrow> number_end r \<longrightarrow>
     parse_value n (json_dumps v @ r) = Some (v, r))"

lemma number_end_sep [simp]:
  "number_end (CHR '','' # r)" "number_end (CHR '']'' # r)" "number_end (CHR ''}'' # r)"
  "number_end []"
  by (simp_all add: number_end_def is_digit_def)

lemma skip_ws_sep [simp]:
  "skip_ws (CHR '','' # r) = CHR '','' # r" "skip_ws (CHR '']'' # r) = CHR '']'' # r"
  "skip_ws (CHR ''}'' # r) = CHR ''}'' # r" "skip_ws (CHR '':'' # r) = CHR '':'' # r"
  "skip_ws (CHR 0x22 # r) = CHR 0x22 # r" "skip_ws [] = []"
  by (simp_all add: skip_ws_def json_ws_def)

lemma value_okD:
  "value_ok v \<Longrightarrow> 2 * length (json_dumps v @ r) \<le> n \<Longrightarrow> number_end r \<Longrightarrow>
     parse_value n (json_dumps v @ r) = Some (v, r)"
  by (simp add: value_ok_def)

lemma value_okI:
  assumes "starts_value (json_dumps v)"
    and "\<And>m r. 2 * length (json_dumps v @ r) \<le> Suc m \<Longrightarrow> number_end r \<Longrightarrow>
      parse_value (Suc m) (json_dumps v @ r) = Some (v, r)"
  shows "value_ok v"
  unfolding value_ok_def
proof (intro allI impI)
  fix n r
  assume n: "2 * length (json_dumps v @ r) \<le> n" and r: "number_end r"
  have "json_dumps v \<noteq> []" using assms(1) by (auto simp: starts_value_def)
  with n obtain m where "n = Suc m" by (cases n) auto
  with assms(2) n r show "parse_value n (json_dumps v @ r) = Some (v, r)" by blast
qed

lemma parse_elems_dumps:
  assumes "xs \<noteq> []" and "\<forall>x\<in>set xs. value_ok x \<and> wf_json x"
    and "2 * length (join '','' (map json_dumps xs) @ '']'' @ r) < n"
  shows "parse_elems n (join '','' (map json_dumps xs) @ '']'' @ r) = Some (xs, r)"
  using assms
proof (induction xs arbitrary: n rule: list_nonempty_induct)
  case (single x)
  then obtain m where n: "n = Suc m" by (cases n) auto
  have "parse_value m (json_dumps x @ CHR '']'' # r) = Some (x, CHR '']'' # r)"
    using single n by (intro value_okD) auto
  with n show ?case by simp
next
  case (cons x xs)
  then obtain m where n: "n = Suc m" by (cases n) auto
  obtain y ys where xs: "xs = y # ys" using cons.hyps by (cases xs) auto
  define tl where "tl = join '','' (map json_dumps xs) @ '']'' @ r"
  have j: "join '','' (map json_dumps (x # xs)) @ '']'' @ r = json_dumps x @ CHR '','' # tl"
    by (simp add: xs tl_def)
  have "starts_value (json_dumps y)" using cons.prems xs by (simp add: starts_value_dumps)
  then have ws: "skip_ws tl = tl"
    using skip_ws_value [of "json_dumps y"] by (cases ys) (simp_all add: xs tl_def)
  have len: "2 * length (json_dumps x @ CHR '','' # tl) \<le> m" using cons.prems(2) unfolding j n by simp
  have "parse_value m (json_dumps x @ CHR '','' # tl) = Some (x, CHR '','' # tl)"
    using cons.prems(1) len by (intro value_okD) auto
  moreover have "parse_elems m tl = Some (xs, r)"
    using cons.prems(1) len unfolding tl_def by (intro cons.IH) auto
  ultimately show ?case unfolding j n by (simp add: ws)
qed

lemma parse_pairs_step:
  "parse_pairs (Suc m) (dumps_str k @ CHR '':'' # s) =
     (case parse_value m (skip_ws s) of
        None \<Rightarrow> None
      | Some (v, r2) \<Rightarrow>
          (case skip_ws r2 of
             [] \<Rightarrow> None
           | d # ds \<Rightarrow>
               if d = CHR ''}'' then Some ([(k, v)], ds)
               else if d = CHR '',''
               then map_option (map_prod (\<lambda>ps. (k, v) # ps) id) (parse_pairs m (skip_ws ds))
               else None))"
  by (simp add: dumps_str_def parse_string_dumps)

definition dumps_pair :: "string \<times> json \<Rightarrow> string" where
  "dumps_pair p = dumps_str (fst p) @ CHR '':'' # json_dumps (snd p)"

lemma json_dumps_obj: "json_dumps (JObj d) = CHR ''{'' # join '','' (map dumps_pair d) @ ''}''"
proof -
  have "(\<lambda>(k, v). dumps_str k @ CHR '':'' # json_dumps v) = dumps_pair"
    by (auto simp: dumps_pair_def)
  then show ?thesis by (simp only: json_dumps.simps)
qed

lemma parse_pairs_dumps:
  assumes "d \<noteq> []" and "\<forall>(k, v)\<in>set d. value_ok v \<and> wf_json v"
    and "2 * length (join '','' (map dumps_pair d) @ ''}'' @ r) < n"
  shows "parse_pairs n (join '','' (map dumps_pair d) @ ''}'' @ r) = Some (d, r)"
  using assms
proof (induction d arbitrary: n rule: list_nonempty_induct)
  case (single p)
  obtain k v where p: "p = (k, v)" by (cases p)
  obtain m where n: "n = Suc m" using single by (cases n) auto
  have "parse_value m (json_dumps v @ CHR ''}'' # r) = Some (v, CHR ''}'' # r)"
    using single n p by (intro value_okD) (auto simp: dumps_pair_def)
  moreover have "starts_value (json_dumps v)" using single p by (simp add: starts_value_dumps)
  ultimately show ?case using n p
    by (simp add: dumps_pair_def parse_pairs_step skip_ws_value del: parse_pairs.simps)
next
  case (cons p d)
  obtain k v where p: "p = (k, v)" by (cases p)
  obtain m where n: "n = Suc m" using cons by (cases n) auto
  obtain q d' where d: "d = q # d'" using cons.hyps by (cases d) auto
  define tl where "tl = join '','' (map dumps_pair d) @ ''}'' @ r"
  have j: "join '','' (map dumps_pair (p # d)) @ ''}'' @ r
      = dumps_str k @ CHR '':'' # json_dumps v @ CHR '','' # tl"
    by (simp add: d p tl_def dumps_pair_def)
  have ws: "skip_ws tl = tl" by (cases d') (simp_all add: d tl_def dumps_pair_def dumps_str_def)
  have len: "2 * length (json_dumps v @ CHR '','' # tl) \<le> m" using cons.prems(2) unfolding j n by simp
  have "parse_value m (json_dumps v @ CHR '','' # tl) = Some (v, CHR '','' # tl)"
    using cons.prems(1) len p by (intro value_okD) auto
  moreover have "starts_value (json_dumps v)" using cons.prems p by (simp add: starts_value_dumps)
  moreover have "parse_pairs m tl = Some (d, r)"
    using cons.prems(1) len unfolding tl_def by (intro cons.IH) auto
  ultimately show ?case unfolding j n by (simp add: parse_pairs_step skip_ws_value ws p del: parse_pairs.simps)
qed

lemma value_ok_number:
  assumes "parse_number (json_dumps v) = Some (v, [])"
  shows "value_ok v"
proof (rule value_okI)
  show "starts_value (json_dumps v)" using assms by (rule starts_value_number)
  show "parse_value (Suc m) (json_dumps v @ r) = Some (v, r)" if "number_end r" for m r
    using parse_value_number [OF parse_number_end [OF assms that]] by simp
qed

lemma value_ok_wf: "wf_json v \<Longrightarrow> value_ok v"
proof (induction v)
  case (JInt i)
  show ?case by (rule value_ok_number) (simp add: parse_number_show_int)
next
  case (JFloat t)
  then show ?case by (intro value_ok_number) simp
next
  case (JStr s)
  show ?case
    by (rule value_okI) (simp_all add: starts_value_dumps dumps_str_def parse_string_dumps del: parse_string.simps, simp add: starts_value_def json_ws_def)
next
  case (JArr xs)
  show ?case
  proof (rule value_okI)
    show "starts_value (json_dumps (JArr xs))" using JArr.prems by (rule starts_value_dumps)
    fix m r
    assume len: "2 * length (json_dumps (JArr xs) @ r) \<le> Suc m"
    show "parse_value (Suc m) (json_dumps (JArr xs) @ r) = Some (JArr xs, r)"
    proof (cases "xs = []")
      case True
      then show ?thesis by simp
    next
      case False
      then obtain y ys where xs: "xs = y # ys" by (cases xs) auto
      define tl where "tl = join '','' (map json_dumps xs) @ '']'' @ r"
      have y: "starts_value (json_dumps y)" using JArr.prems xs by (simp add: starts_value_dumps)
      then have tl: "skip_ws tl = tl" "starts_value tl"
        using skip_ws_value [of "json_dumps y"]
        by (cases ys; simp add: xs tl_def; auto simp: starts_value_def split: list.splits)+
      have "parse_elems m tl = Some (xs, r)"
        using JArr False len unfolding tl_def
        by (intro parse_elems_dumps) (auto simp: list_all_iff)
      moreover obtain c cs where "tl = c # cs" "c \<noteq> CHR '']''"
        using tl(2) by (auto simp: starts_value_def split: list.splits)
      moreover have "json_dumps (JArr xs) @ r = CHR ''['' # tl" by (simp add: tl_def)
      ultimately show ?thesis using tl(1) by simp
    qed
  qed
next
  case (JObj d)
  show ?case
  proof (rule value_okI)
    show "starts_value (json_dumps (JObj d))" using JObj.prems by (rule starts_value_dumps)
    fix m r
    assume len: "2 * length (json_dumps (JObj d) @ r) \<le> Suc m"
    show "parse_value (Suc m) (json_dumps (JObj d) @ r) = Some (JObj d, r)"
    proof (cases "d = []")
      case True
      then show ?thesis by simp
    next
      case False
      then obtain q d' where d: "d = q # d'" by (cases d) auto
      define tl where "tl = join '','' (map dumps_pair d) @ ''}'' @ r"
      have q: "\<exists>cs. tl = CHR 0x22 # cs"
        by (cases d') (simp_all add: d tl_def dumps_pair_def dumps_str_def)
      have all: "\<forall>(k, v)\<in>set d. value_ok v \<and> wf_json v"
        using JObj.IH JObj.prems by (fastforce simp: list_all_iff)
      have "parse_pairs m tl = Some (d, r)"
        using False all len unfolding tl_def json_dumps_obj
        by (intro parse_pairs_dumps) simp_all
      moreover have "json_dumps (JObj d) @ r = CHR ''{'' # tl"
        by (simp add: tl_def json_dumps_obj del: json_dumps.simps)
      moreover have "dict_of d = d" using JObj.prems by (simp add: dict_of_distinct)
      ultimately show ?thesis using q by auto
    qed
  qed
qed (rule value_okI; simp add: starts_value_def json_ws_def parse_constant_def)+

lemma json_loads_dumps: "wf_json v \<Longrightarrow> json_loads (json_dumps v) = Some v"
proof -
  assume wf: "wf_json v"
  have "parse_value (2 * length (json_dumps v) + 1) (json_dumps v @ []) = Some (v, [])"
    using value_ok_wf [OF wf] by (rule value_okD) simp_all
  then show ?thesis
    using skip_ws_value [OF starts_value_dumps [OF wf], of "[]"] by (simp add: json_loads_def)
qed

lemma wf_sort_keys: "wf_json v \<Longrightarrow> wf_json (sort_keys v)"
proof (induction v rule: sort_keys.induct)
  case (1 xs)
  then show ?case by (simp add: list_all_iff)
next
  case (2 d)
  let ?d = "map (\<lambda>(k, v). (k, sort_keys v)) d"
  have "map fst ?d = map fst d" by auto
  moreover have "distinct (map fst d)" using 2 by simp
  ultimately have "distinct (map fst ?d)" by (simp only:)
  then have "distinct (map fst (sort_key fst ?d))" by (simp only: distinct_map_sort_key)
  moreover have "list_all (\<lambda>(k, v). wf_json v) (sort_key fst ?d)"
    using 2 by (auto simp: list_all_iff)
  ultimately show ?case by simp
qed simp_all

end
