(* ===== verification/Clock.thy ===== *)
theory Clock
  imports Json
begin

text \<open>
  UTC instants and the timestamps that Local stores.

  Every timestamp column of \<^verbatim>\<open>rounds.db\<close> holds
  \<^verbatim>\<open>datetime.now(timezone.utc).isoformat(timespec="seconds")\<close>, and the SQL of the
  repositories compares these texts (\<^verbatim>\<open>available_at <= ?\<close>, \<^verbatim>\<open>lease_expires_at <= ?\<close>). An
  instant is the number of microseconds since 0001-01-01T00:00:00Z, the epoch of Python's
  proleptic Gregorian calendar, and \<open>isoformat\<close> renders it. The lemma \<open>isoformat_le_iff\<close>
  is what makes the text comparison of the SQL a comparison of instants: up to the year
  9999 the order of the texts is the order of the instants, cut to seconds.
\<close>

type_synonym datetime = nat
type_synonym timedelta = nat
type_synonym timestamp = string

definition microseconds :: "nat \<Rightarrow> timedelta" where
  "microseconds s = s * 1000000"

section \<open>The calendar\<close>

definition days_before_year :: "nat \<Rightarrow> nat" where
  "days_before_year y = (let p = y - 1 in p * 365 + p div 4 + p div 400 - p div 100)"

definition is_leap :: "nat \<Rightarrow> bool" where
  "is_leap y \<longleftrightarrow> y mod 4 = 0 \<and> (y mod 100 \<noteq> 0 \<or> y mod 400 = 0)"

function year_from :: "nat \<Rightarrow> nat \<Rightarrow> nat" where
  "year_from y n = (if days_before_year (Suc y) \<le> n then year_from (Suc y) n else y)"
  by pat_completeness auto

text \<open>A year has at least 365 days, so the search for the year of a day ends.\<close>

lemma days_before_year_Suc: "days_before_year (Suc y) \<ge> y * 365"
proof -
  have "y div 100 \<le> y div 4" by (rule div_le_mono2) simp_all
  then show ?thesis by (simp add: days_before_year_def)
qed

termination year_from
proof (relation "measure (\<lambda>(y, n). Suc n - y)")
  fix y n
  assume "days_before_year (Suc y) \<le> n"
  with days_before_year_Suc [of y] have "y * 365 \<le> n" by linarith
  then show "((Suc y, n), y, n) \<in> measure (\<lambda>(y, n). Suc n - y)" by simp
qed simp

declare year_from.simps [simp del]

definition year_of :: "nat \<Rightarrow> nat" where
  "year_of n = year_from (Suc (n div 366)) n"

definition days_before_month :: "nat \<Rightarrow> nat \<Rightarrow> nat" where
  "days_before_month y m =
     [0, 0, 31, 59, 90, 120, 151, 181, 212, 243, 273, 304, 334] ! m
       + (if m > 2 \<and> is_leap y then 1 else 0)"

definition month_of :: "nat \<Rightarrow> nat \<Rightarrow> nat" where
  "month_of y n = (case find (\<lambda>m. days_before_month y m \<le> n) [12, 11, 10, 9, 8, 7, 6, 5, 4, 3, 2, 1]
     of Some m \<Rightarrow> m | None \<Rightarrow> 1)"

text \<open>The civil date of a day number, as \<^verbatim>\<open>date.fromordinal\<close> computes it.\<close>

definition civil :: "nat \<Rightarrow> nat \<times> nat \<times> nat" where
  "civil n =
     (let y = year_of n; doy = n - days_before_year y; m = month_of y doy
      in (y, m, doy - days_before_month y m + 1))"

section \<open>Rendering\<close>

fun pad :: "nat \<Rightarrow> nat \<Rightarrow> string" where
  "pad 0 n = []"
| "pad (Suc k) n = pad k (n div 10) @ [digit_char (n mod 10)]"

definition isoformat :: "datetime \<Rightarrow> timestamp" where
  "isoformat t =
     (let secs = t div 1000000; (y, m, d) = civil (secs div 86400); s = secs mod 86400
      in pad 4 y @ ''-'' @ pad 2 m @ ''-'' @ pad 2 d @ ''T'' @
         pad 2 (s div 3600) @ '':'' @ pad 2 (s div 60 mod 60) @ '':'' @ pad 2 (s mod 60) @ ''+00:00'')"

text \<open>The first instant that a four-digit year cannot express.\<close>

definition datetime_end :: datetime where
  "datetime_end = days_before_year 10000 * 86400 * 1000000"

section \<open>The order of timestamps is the order of instants\<close>

lemma year_from_bounds:
  "days_before_year y \<le> n \<Longrightarrow>
     days_before_year (year_from y n) \<le> n \<and> n < days_before_year (Suc (year_from y n))"
proof (induction y n rule: year_from.induct)
  case (1 y n)
  then show ?case by (subst (1 2) year_from.simps) auto
qed

lemma year_of_bounds: "days_before_year (year_of n) \<le> n \<and> n < days_before_year (Suc (year_of n))"
proof -
  have "days_before_year (Suc (n div 366)) \<le> n"
  proof -
    define p where "p = n div 366"
    have "p * 366 \<le> n" by (simp add: p_def)
    moreover have "p div 400 \<le> p div 4" by (rule div_le_mono2) simp_all
    moreover have "p div 4 * 4 \<le> p" by simp
    ultimately have "p * 365 + p div 4 + p div 400 \<le> n" by linarith
    then show ?thesis by (simp add: days_before_year_def flip: p_def)
  qed
  then show ?thesis unfolding year_of_def by (rule year_from_bounds)
qed

lemma leap_days_mono:
  fixes p a b c a' b' c' :: nat
  assumes "b' \<le> Suc b" "a \<le> a'" "c \<le> c'" "b \<le> a"
  shows "p * 365 + a + c - b \<le> Suc p * 365 + a' + c' - b'"
  using assms by simp

lemma days_before_year_mono: "y \<le> z \<Longrightarrow> days_before_year y \<le> days_before_year z"
proof (rule lift_Suc_mono_le [of days_before_year])
  show "days_before_year k \<le> days_before_year (Suc k)" for k
  proof (cases k)
    case (Suc p)
    have "Suc p div 100 \<le> Suc (p div 100)" by (simp add: div_Suc)
    moreover have "p div 4 \<le> Suc p div 4" "p div 400 \<le> Suc p div 400"
      by (simp_all add: div_le_mono)
    moreover have "p div 100 \<le> p div 4" by (rule div_le_mono2) simp_all
    ultimately show ?thesis unfolding Suc days_before_year_def Let_def diff_Suc_1
      by (rule leap_days_mono)
  qed (simp add: days_before_year_def)
qed

lemma year_of_less:
  assumes "a \<le> b"
  shows "year_of a \<le> year_of b"
proof (rule ccontr)
  assume "\<not> ?thesis"
  then have "days_before_year (Suc (year_of b)) \<le> days_before_year (year_of a)"
    by (intro days_before_year_mono) simp
  with year_of_bounds [of a] year_of_bounds [of b] assms show False by simp
qed

lemma year_of_bound: "n < days_before_year 10000 \<Longrightarrow> year_of n < 10000"
proof (rule ccontr)
  assume n: "n < days_before_year 10000" and "\<not> year_of n < 10000"
  then have "days_before_year 10000 \<le> days_before_year (year_of n)"
    by (intro days_before_year_mono) simp
  with year_of_bounds [of n] n show False by simp
qed

lemma year_length_aux:
  fixes p a b c a' b' c' :: nat
  assumes "a' \<le> Suc a" "c' + b \<le> c + b'" "b \<le> a" "b' \<le> a'"
  shows "Suc p * 365 + a' + c' - b' \<le> p * 365 + a + c - b + 366"
  using assms by simp

lemma year_length: "days_before_year (Suc y) \<le> days_before_year y + 366"
proof (cases y)
  case (Suc p)
  have "Suc p div 4 \<le> Suc (p div 4)" by (simp add: div_Suc)
  moreover have "Suc p div 400 + p div 100 \<le> p div 400 + Suc p div 100"
  proof (cases "400 dvd Suc p")
    case True
    then have "100 dvd Suc p" by (rule dvd_trans [rotated]) simp
    with True show ?thesis by (simp add: div_Suc dvd_eq_mod_eq_0)
  next
    case False
    then show ?thesis by (simp add: div_Suc dvd_eq_mod_eq_0 div_le_mono)
  qed
  moreover have "p div 100 \<le> p div 4" "Suc p div 100 \<le> Suc p div 4" by (simp_all add: div_le_mono2)
  ultimately show ?thesis unfolding Suc days_before_year_def Let_def diff_Suc_1
    by (rule year_length_aux)
qed (simp add: days_before_year_def)

lemma month_of_eq:
  "month_of y n =
     (let l = if is_leap y then 1 else 0 in
      if 334 + l \<le> n then 12 else if 304 + l \<le> n then 11 else if 273 + l \<le> n then 10
      else if 243 + l \<le> n then 9 else if 212 + l \<le> n then 8 else if 181 + l \<le> n then 7
      else if 151 + l \<le> n then 6 else if 120 + l \<le> n then 5 else if 90 + l \<le> n then 4
      else if 59 + l \<le> n then 3 else if 31 \<le> n then 2 else 1)"
  by (simp add: month_of_def days_before_month_def)

lemma if_mono:
  fixes x y k :: nat
  shows "(c \<Longrightarrow> d) \<Longrightarrow> x \<le> y \<Longrightarrow> x \<le> k \<Longrightarrow> (if c then k else x) \<le> (if d then k else y)"
  by simp

lemma month_of_mono: "a \<le> b \<Longrightarrow> month_of y a \<le> month_of y b"
  unfolding month_of_eq Let_def by (intro if_mono) auto

lemma month_of_bound: "month_of y n < 100"
  by (simp add: month_of_eq Let_def)

lemma days_before_month_of: "days_before_month y (month_of y n) \<le> n"
  by (auto simp: month_of_eq Let_def days_before_month_def)

lemma if_cases: "(c \<Longrightarrow> P k) \<Longrightarrow> (\<not> c \<Longrightarrow> P x) \<Longrightarrow> P (if c then k else x)"
  by simp

lemma day_of_month_bound:
  assumes "n < 366"
  shows "n - days_before_month y (month_of y n) + 1 < 100"
  using assms unfolding month_of_eq Let_def
  by (intro if_cases [where P = "\<lambda>m. n - days_before_month y m + 1 < 100"])
    (auto simp: days_before_month_def split: if_splits)

lemma less_append_iff:
  fixes s1 s2 t1 t2 :: "string"
  assumes "length s1 = length s2"
  shows "s1 @ t1 < s2 @ t2 \<longleftrightarrow> s1 < s2 \<or> (s1 = s2 \<and> t1 < t2)"
  using assms by (induction s1 s2 rule: list_induct2) (auto simp: Cons_less_Cons)

lemma length_pad [simp]: "length (pad k n) = k"
  by (induction k arbitrary: n) auto

lemma digit_char_less: "a < b \<Longrightarrow> b < 10 \<Longrightarrow> digit_char a < digit_char b"
  by (simp add: less_char_def of_char_digit_char)

lemma div_mod_less:
  fixes a b k :: nat
  assumes "a < b"
  shows "a div k < b div k \<or> (a div k = b div k \<and> a mod k < b mod k)"
proof (cases "a div k = b div k")
  case True
  then have "b div k * k + a mod k < b div k * k + b mod k"
    using assms by (metis div_mult_mod_eq)
  then have "a mod k < b mod k" by (simp only: nat_add_left_cancel_less)
  with True show ?thesis by blast
next
  case False
  with assms div_le_mono [of a b k] show ?thesis by simp
qed

lemma div_mod_less2:
  fixes a b k :: nat
  assumes "a < b"
  shows "a div k div k < b div k div k \<or>
    (a div k div k = b div k div k \<and>
      (a div k mod k < b div k mod k \<or> (a div k mod k = b div k mod k \<and> a mod k < b mod k)))"
  using div_mod_less [OF assms, of k] div_mod_less [of "a div k" "b div k" k] by auto

lemma pad_less: "a < b \<Longrightarrow> b < 10 ^ k \<Longrightarrow> pad k a < pad k b"
proof (induction k arbitrary: a b)
  case 0
  then show ?case by simp
next
  case (Suc k)
  show ?case
  proof (cases "a div 10 < b div 10")
    case True
    moreover have "b div 10 < 10 ^ k" using Suc.prems(2) by (simp add: less_mult_imp_div_less)
    ultimately show ?thesis using Suc.IH by (simp add: less_append_iff)
  next
    case False
    with div_mod_less [OF Suc.prems(1), of 10]
    have "a div 10 = b div 10" "a mod 10 < b mod 10" by auto
    then show ?thesis by (simp add: less_append_iff digit_char_less Cons_less_Cons)
  qed
qed

lemma pad_less_iff: "a < 10 ^ k \<Longrightarrow> b < 10 ^ k \<Longrightarrow> pad k a < pad k b \<longleftrightarrow> a < b"
  by (metis linorder_less_linear not_less_iff_gr_or_eq pad_less)

text \<open>The date of a day, a triple, in lexicographic order.\<close>

definition date_less :: "nat \<times> nat \<times> nat \<Rightarrow> nat \<times> nat \<times> nat \<Rightarrow> bool" where
  "date_less p q \<longleftrightarrow> (case p of (y, m, d) \<Rightarrow> case q of (y', m', d') \<Rightarrow>
     y < y' \<or> (y = y' \<and> (m < m' \<or> (m = m' \<and> d < d'))))"

lemma civil_less: 
  assumes "a < b"
  shows "date_less (civil a) (civil b)"
proof (cases "year_of a < year_of b")
  case True
  then show ?thesis by (simp add: date_less_def civil_def Let_def)
next
  case False
  with year_of_less [of a b] assms have y: "year_of a = year_of b" by simp
  define y where "y = year_of b"
  define da where "da = a - days_before_year y"
  define db where "db = b - days_before_year y"
  have d: "da < db"
    using year_of_bounds [of a] y assms unfolding da_def db_def y_def by (auto intro: diff_less_mono)
  have m: "month_of y da \<le> month_of y db" using d by (intro month_of_mono) simp
  have "da - days_before_month y (month_of y da) < db - days_before_month y (month_of y db)"
    if "month_of y da = month_of y db"
    using d that days_before_month_of [of y da] by simp
  with m show ?thesis
    unfolding date_less_def civil_def Let_def y y_def [symmetric] da_def [symmetric] db_def [symmetric]
    by auto
qed

lemma civil_bounds:
  assumes "n < days_before_year 10000" and "civil n = (y, m, d)"
  shows "y < 10000 \<and> m < 100 \<and> d < 100"
proof -
  let ?doy = "n - days_before_year (year_of n)"
  have "?doy < 366" using year_of_bounds [of n] year_length [of "year_of n"] by linarith
  then have "?doy - days_before_month (year_of n) (month_of (year_of n) ?doy) + 1 < 100"
    by (rule day_of_month_bound)
  with assms year_of_bound [of n] month_of_bound [of "year_of n" ?doy] show ?thesis
    by (auto simp: civil_def Let_def)
qed

definition date_text :: "nat \<times> nat \<times> nat \<Rightarrow> string" where
  "date_text p = (case p of (y, m, d) \<Rightarrow> pad 4 y @ ''-'' @ pad 2 m @ ''-'' @ pad 2 d)"

definition clock_text :: "nat \<Rightarrow> string" where
  "clock_text s = pad 2 (s div 3600) @ '':'' @ pad 2 (s div 60 mod 60) @ '':'' @ pad 2 (s mod 60)"

lemma isoformat_split:
  "isoformat t = date_text (civil (t div 1000000 div 86400)) @ ''T'' @
     clock_text (t div 1000000 mod 86400) @ ''+00:00''"
  by (cases "civil (t div 1000000 div 86400)")
    (simp add: isoformat_def date_text_def clock_text_def Let_def)

lemma length_texts [simp]: "length (date_text p) = 10" "length (clock_text s) = 8"
  by (cases p) (simp_all add: date_text_def clock_text_def)

lemma date_text_less:
  assumes "date_less p q" and "q = (y, m, d)" and "y < 10000" "m < 100" "d < 100"
  shows "date_text p < date_text q"
  using assms
  by (cases p) (auto simp: date_less_def date_text_def less_append_iff pad_less Cons_less_Cons)

lemma clock_text_less:
  assumes "a < b" and "b < 86400"
  shows "clock_text a < clock_text b"
proof -
  have h: "b div 3600 < 100" "b div 60 mod 60 < 100" "b mod 60 < 100" using assms(2) by auto
  have e: "a div 60 div 60 = a div 3600" "b div 60 div 60 = b div 3600"
    by (simp_all add: div_mult2_eq [symmetric])
  from div_mod_less2 [OF assms(1), of 60]
  consider "a div 3600 < b div 3600"
    | "a div 3600 = b div 3600" "a div 60 mod 60 < b div 60 mod 60"
    | "a div 3600 = b div 3600" "a div 60 mod 60 = b div 60 mod 60" "a mod 60 < b mod 60"
    unfolding e by blast
  then show ?thesis
    using h by cases (auto simp: clock_text_def less_append_iff pad_less Cons_less_Cons)
qed

lemma isoformat_less:
  assumes "a div 1000000 < b div 1000000" and "b < datetime_end"
  shows "isoformat a < isoformat b"
proof -
  let ?a = "a div 1000000" and ?b = "b div 1000000"
  obtain y m d where c: "civil (?b div 86400) = (y, m, d)" by (cases "civil (?b div 86400)") 
  have "?b div 86400 < days_before_year 10000"
    using assms(2) unfolding datetime_end_def by (simp add: less_mult_imp_div_less)
  with c have bounds: "y < 10000 \<and> m < 100 \<and> d < 100" by (intro civil_bounds)
  consider "?a div 86400 < ?b div 86400" | "?a div 86400 = ?b div 86400" "?a mod 86400 < ?b mod 86400"
    using div_mod_less [OF assms(1), of 86400] by blast
  then show ?thesis
  proof cases
    case 1
    then have "date_text (civil (?a div 86400)) < date_text (civil (?b div 86400))"
      using bounds c by (intro date_text_less [OF civil_less]) auto
    then show ?thesis by (simp add: isoformat_split less_append_iff)
  next
    case 2
    then have "clock_text (?a mod 86400) < clock_text (?b mod 86400)" by (intro clock_text_less) auto
    with 2 show ?thesis by (simp add: isoformat_split less_append_iff)
  qed
qed

lemma isoformat_le_iff:
  assumes "a < datetime_end" and "b < datetime_end"
  shows "isoformat a \<le> isoformat b \<longleftrightarrow> a div 1000000 \<le> b div 1000000"
proof
  assume "a div 1000000 \<le> b div 1000000"
  then show "isoformat a \<le> isoformat b"
    using isoformat_less [OF _ assms(2), of a] isoformat_split [of a] isoformat_split [of b]
    by (cases "a div 1000000 < b div 1000000") auto
next
  assume "isoformat a \<le> isoformat b"
  then show "a div 1000000 \<le> b div 1000000"
    using isoformat_less [OF _ assms(1), of b] by (meson leD leI)
qed

text \<open>Rules that evaluate a rendering.\<close>

lemma pad_numeral: "pad (numeral k) n = pad (pred_numeral k) (n div 10) @ [digit_char (n mod 10)]"
  by (simp only: numeral_eq_Suc pad.simps)

lemma digit_chars:
  "digit_char 0 = CHR ''0''" "digit_char (Suc 0) = CHR ''1''" "digit_char 1 = CHR ''1''"
  "digit_char 2 = CHR ''2''"
  "digit_char 3 = CHR ''3''" "digit_char 4 = CHR ''4''" "digit_char 5 = CHR ''5''"
  "digit_char 6 = CHR ''6''" "digit_char 7 = CHR ''7''" "digit_char 8 = CHR ''8''"
  "digit_char 9 = CHR ''9''"
  by code_simp+

lemma isoformat_example: "isoformat (microseconds 63907000000) = ''2026-02-18T08:26:40+00:00''"
proof -
  have y: "year_of 739664 = 2026"
    by (simp add: year_of_def year_from.simps days_before_year_def)
  have d: "days_before_year 2026 = 739616" by (simp add: days_before_year_def)
  have m: "month_of 2026 48 = 2" by (simp add: month_of_eq is_leap_def)
  have "days_before_month 2026 2 = 31" by (simp add: days_before_month_def)
  then have "civil 739664 = (2026, 2, 18)" by (simp add: civil_def y d m)
  then show ?thesis by (simp add: isoformat_def microseconds_def pad_numeral digit_chars)
qed

lemma before_datetime_end: "x < 10 ^ 15 \<Longrightarrow> x < datetime_end"
proof -
  have "10 ^ 15 < datetime_end" by (simp add: datetime_end_def days_before_year_def)
  then show "x < 10 ^ 15 \<Longrightarrow> x < datetime_end" by simp
qed

end
