(* ===== verification/Rounds_Db.thy ===== *)
theory Rounds_Db
  imports Clock "HOL-Library.Product_Lexorder"
begin

text \<open>
  The transport tables of \<^verbatim>\<open>rounds.db\<close> and the repositories over them
  (\<^verbatim>\<open>persistence/raw_round_repository.py\<close>, \<^verbatim>\<open>persistence/memory_space_repository.py\<close>; the
  schema is that of \<^verbatim>\<open>rounds_migrations/0001_initial.sql\<close> and \<^verbatim>\<open>0006\<close>).

  A table is a list of records, one per row, with every column of the schema. A repository
  method is a function from its arguments, the instant its \<^verbatim>\<open>_now()\<close> reads and the database
  to its result and the next database, or to the exception it raises. PRIMARY KEY, UNIQUE,
  FOREIGN KEY and CHECK constraints are conditions of the INSERT statements, whose violation
  raises \<open>IntegrityError\<close>; \<open>db_wf\<close> states that the tables satisfy them, and every method
  keeps it. On top of the schema, \<open>command_ok\<close> is the life cycle of a Core command.
\<close>

section \<open>Tables\<close>

record memory_space =
  ms_memory_space_id :: string
  ms_display_name :: "string option"
  ms_source_client :: string
  ms_created_at :: timestamp
  ms_updated_at :: timestamp

record raw_round =
  rr_raw_round_id :: string
  rr_memory_space_id :: string
  rr_source_system :: string
  rr_source_instance_id :: string
  rr_source_profile_id :: string
  rr_source_session_id :: string
  rr_source_round_id :: string
  rr_source_round_key :: string
  rr_capture_schema_version :: int
  rr_adapter_version :: string
  rr_payload_json :: string
  rr_payload_digest :: string
  rr_started_at :: timestamp
  rr_completed_at :: timestamp
  rr_received_at :: timestamp
  rr_retention_expires_at :: "timestamp option"

record raw_round_payload =
  pl_raw_round_id :: string
  pl_payload_json :: string
  pl_payload_bytes :: nat
  pl_retention_expires_at :: "timestamp option"
  pl_deleted_at :: "timestamp option"

record core_command =
  cc_command_id :: string
  cc_command_type :: string
  cc_memory_space_id :: string
  cc_idempotency_key :: string
  cc_payload_json :: string
  cc_payload_digest :: string
  cc_status :: string
  cc_attempts :: nat
  cc_available_at :: timestamp
  cc_lease_expires_at :: "timestamp option"
  cc_claimed_by :: "string option"
  cc_completed_at :: "timestamp option"
  cc_result_json :: "string option"
  cc_last_error_code :: "string option"
  cc_last_error_detail :: "string option"
  cc_created_at :: timestamp

record core_delivery =
  dl_raw_round_id :: string
  dl_memory_space_id :: string
  dl_command_id :: string
  dl_idempotency_key :: string
  dl_transport_status :: string
  dl_core_raw_round_id :: "string option"
  dl_core_job_id :: "string option"
  dl_last_error_code :: "string option"
  dl_created_at :: timestamp
  dl_updated_at :: timestamp

record rounds_db =
  memory_spaces :: "memory_space list"
  raw_rounds :: "raw_round list"
  raw_round_payloads :: "raw_round_payload list"
  core_commands :: "core_command list"
  raw_round_core_deliveries :: "core_delivery list"

definition empty_db :: rounds_db where
  "empty_db = \<lparr>memory_spaces = [], raw_rounds = [], raw_round_payloads = [],
     core_commands = [], raw_round_core_deliveries = []\<rparr>"

text \<open>SQL \<^verbatim>\<open>length\<close> of a TEXT counts characters: the bytes that do not continue one.\<close>

definition sql_length :: "string \<Rightarrow> nat" where
  "sql_length s = length (filter (\<lambda>c. (of_char c :: nat) div 64 \<noteq> 2) s)"

section \<open>Memory spaces\<close>

definition get_memory_space :: "string \<Rightarrow> rounds_db \<Rightarrow> memory_space option" where
  "get_memory_space i db = sql_first (\<lambda>r. ms_memory_space_id r = i) (memory_spaces db)"

text \<open>
  \<^verbatim>\<open>INSERT OR IGNORE INTO memory_spaces\<close>: a row that violates the key or the CHECK is skipped.
\<close>

definition insert_or_ignore_memory_space :: "memory_space \<Rightarrow> rounds_db \<Rightarrow> rounds_db" where
  "insert_or_ignore_memory_space r db =
     (if get_memory_space (ms_memory_space_id r) db \<noteq> None
         \<or> \<not> (1 \<le> sql_length (ms_memory_space_id r) \<and> sql_length (ms_memory_space_id r) \<le> 200)
      then db else db\<lparr>memory_spaces := memory_spaces db @ [r]\<rparr>)"

definition ensure_memory_space ::
  "string \<Rightarrow> string \<Rightarrow> string option \<Rightarrow> datetime \<Rightarrow> rounds_db \<Rightarrow> (memory_space \<times> rounds_db) res" where
  "ensure_memory_space i client name now db =
     (let t = isoformat now;
          db' = insert_or_ignore_memory_space
            \<lparr>ms_memory_space_id = i, ms_display_name = name, ms_source_client = client,
             ms_created_at = t, ms_updated_at = t\<rparr> db
      in case get_memory_space i db' of
           None \<Rightarrow> Inl (RuntimeError (''memory space '' @ quoted i @ '' could not be ensured''))
         | Some space \<Rightarrow>
             raise_if (ms_source_client space \<noteq> client)
               (MemorySpaceSourceClientChangedError
                 (''memory space '' @ quoted i @ '' has different source_client''))
               (Inr (space, db')))"

section \<open>Raw rounds\<close>

text \<open>
  The LEFT JOIN with \<^verbatim>\<open>raw_round_payloads\<close>: the payload row wins where there is one.
\<close>

definition join_payload :: "rounds_db \<Rightarrow> raw_round \<Rightarrow> raw_round" where
  "join_payload db r =
     (case sql_first (\<lambda>p. pl_raw_round_id p = rr_raw_round_id r) (raw_round_payloads db) of
        None \<Rightarrow> r
      | Some p \<Rightarrow> r\<lparr>rr_payload_json := pl_payload_json p,
          rr_retention_expires_at := coalesce (pl_retention_expires_at p) (rr_retention_expires_at r)\<rparr>)"

definition get_by_capture_identity ::
  "string \<Rightarrow> string \<Rightarrow> int \<Rightarrow> rounds_db \<Rightarrow> raw_round option" where
  "get_by_capture_identity space key version db =
     map_option (join_payload db)
       (sql_first (\<lambda>r. rr_memory_space_id r = space \<and> rr_source_round_key r = key
           \<and> rr_capture_schema_version r = version) (raw_rounds db))"

definition get_raw_round :: "string \<Rightarrow> rounds_db \<Rightarrow> raw_round option" where
  "get_raw_round i db =
     map_option (join_payload db) (sql_first (\<lambda>r. rr_raw_round_id r = i) (raw_rounds db))"

definition sql_insert_raw_round :: "raw_round \<Rightarrow> rounds_db \<Rightarrow> rounds_db res" where
  "sql_insert_raw_round r db =
     raise_if (\<exists>x\<in>set (raw_rounds db). rr_raw_round_id x = rr_raw_round_id r)
       (IntegrityError ''UNIQUE raw_rounds.raw_round_id'')
     (raise_if (\<exists>x\<in>set (raw_rounds db). rr_memory_space_id x = rr_memory_space_id r
          \<and> rr_source_round_key x = rr_source_round_key r
          \<and> rr_capture_schema_version x = rr_capture_schema_version r)
       (IntegrityError ''UNIQUE raw_rounds capture identity'')
     (raise_if (rr_capture_schema_version r < 1)
       (IntegrityError ''CHECK capture_schema_version'')
     (raise_if (\<not> prefix ''sha256:'' (rr_payload_digest r))
       (IntegrityError ''CHECK payload_digest'')
     (raise_if (get_memory_space (rr_memory_space_id r) db = None)
       (IntegrityError ''FOREIGN KEY memory_space_id'')
     (Inr (db\<lparr>raw_rounds := raw_rounds db @ [r]\<rparr>))))))"

definition sql_insert_payload :: "raw_round_payload \<Rightarrow> rounds_db \<Rightarrow> rounds_db res" where
  "sql_insert_payload p db =
     raise_if (\<exists>x\<in>set (raw_round_payloads db). pl_raw_round_id x = pl_raw_round_id p)
       (IntegrityError ''UNIQUE raw_round_payloads.raw_round_id'')
     (raise_if (\<not> (\<exists>x\<in>set (raw_rounds db). rr_raw_round_id x = pl_raw_round_id p))
       (IntegrityError ''FOREIGN KEY raw_round_id'')
     (Inr (db\<lparr>raw_round_payloads := raw_round_payloads db @ [p]\<rparr>)))"

text \<open>
  \<^verbatim>\<open>insert\<close> takes the row to store; the payload goes to its own table and the raw row keeps
  the empty object, as the two INSERT statements do. \<open>received_at\<close> is read from the clock.
\<close>

definition insert_raw_round :: "raw_round \<Rightarrow> datetime \<Rightarrow> rounds_db \<Rightarrow> (raw_round \<times> rounds_db) res" where
  "insert_raw_round r now db =
     rbind (sql_insert_raw_round (r\<lparr>rr_payload_json := ''{}'', rr_received_at := isoformat now\<rparr>) db) (\<lambda>db1.
     rbind (sql_insert_payload
        \<lparr>pl_raw_round_id = rr_raw_round_id r, pl_payload_json = rr_payload_json r,
         pl_payload_bytes = length (rr_payload_json r),
         pl_retention_expires_at = rr_retention_expires_at r, pl_deleted_at = None\<rparr> db1) (\<lambda>db2.
     (case get_raw_round (rr_raw_round_id r) db2 of
        None \<Rightarrow> Inl (RuntimeError ''raw round insert did not produce a row'')
      | Some x \<Rightarrow> Inr (x, db2))))"

section \<open>Core commands\<close>

definition sql_insert_core_command :: "core_command \<Rightarrow> rounds_db \<Rightarrow> rounds_db res" where
  "sql_insert_core_command c db =
     raise_if (\<exists>x\<in>set (core_commands db). cc_command_id x = cc_command_id c)
       (IntegrityError ''UNIQUE core_commands.command_id'')
     (raise_if (\<exists>x\<in>set (core_commands db). cc_memory_space_id x = cc_memory_space_id c
          \<and> cc_idempotency_key x = cc_idempotency_key c)
       (IntegrityError ''UNIQUE core_commands idempotency'')
     (raise_if (\<not> prefix ''sha256:'' (cc_payload_digest c))
       (IntegrityError ''CHECK payload_digest'')
     (Inr (db\<lparr>core_commands := core_commands db @ [c]\<rparr>))))"

definition get_core_command_by_idempotency ::
  "string \<Rightarrow> string \<Rightarrow> rounds_db \<Rightarrow> core_command option" where
  "get_core_command_by_idempotency space key db =
     sql_first (\<lambda>c. cc_memory_space_id c = space \<and> cc_idempotency_key c = key) (core_commands db)"

definition get_core_command :: "string \<Rightarrow> rounds_db \<Rightarrow> core_command option" where
  "get_core_command i db = sql_first (\<lambda>c. cc_command_id c = i) (core_commands db)"

definition create_core_command ::
  "string \<Rightarrow> string \<Rightarrow> string \<Rightarrow> string \<Rightarrow> string \<Rightarrow> string \<Rightarrow> timestamp option \<Rightarrow> datetime
     \<Rightarrow> rounds_db \<Rightarrow> (core_command \<times> rounds_db) res" where
  "create_core_command command_id command_type space key payload digest available_at now db =
     raise_if (blank command_type) (ValueError ''command_type must not be empty'')
     (raise_if (\<not> prefix ''sha256:'' digest) (ValueError ''payload_digest must use sha256 prefix'')
     (case get_core_command_by_idempotency space key db of
        Some existing \<Rightarrow>
          raise_if (cc_command_type existing \<noteq> command_type \<or> cc_payload_json existing \<noteq> payload
              \<or> cc_payload_digest existing \<noteq> digest)
            (ValueError ''core command payload conflict'')
            (Inr (existing, db))
      | None \<Rightarrow>
          (let created_at = isoformat now in
           rbind (sql_insert_core_command
             \<lparr>cc_command_id = command_id, cc_command_type = command_type, cc_memory_space_id = space,
              cc_idempotency_key = key, cc_payload_json = payload, cc_payload_digest = digest,
              cc_status = ''pending'', cc_attempts = 0,
              cc_available_at = (case available_at of Some a \<Rightarrow> if a = [] then created_at else a
                                 | None \<Rightarrow> created_at),
              cc_lease_expires_at = None, cc_claimed_by = None, cc_completed_at = None,
              cc_result_json = None, cc_last_error_code = None, cc_last_error_detail = None,
              cc_created_at = created_at\<rparr> db) (\<lambda>db1.
           (case get_core_command command_id db1 of
              None \<Rightarrow> Inl (RuntimeError ''core command insert did not produce a row'')
            | Some c \<Rightarrow> Inr (c, db1))))))"

text \<open>The WHERE clause of the claim, used by its SELECT and again by its UPDATE.\<close>

definition claimable :: "timestamp \<Rightarrow> core_command \<Rightarrow> bool" where
  "claimable now_value c \<longleftrightarrow>
     ((cc_status c = ''pending'' \<or> cc_status c = ''retry_wait'') \<and> cc_available_at c \<le> now_value)
     \<or> (cc_status c = ''delivering'' \<and>
        (case cc_lease_expires_at c of None \<Rightarrow> False | Some l \<Rightarrow> l \<le> now_value))"

text \<open>The SET clauses of the claim and of the completion.\<close>

definition claim_row :: "timestamp \<Rightarrow> string \<Rightarrow> core_command \<Rightarrow> core_command" where
  "claim_row lease_expires_at worker_id c =
     c\<lparr>cc_status := ''delivering'', cc_attempts := cc_attempts c + 1,
       cc_lease_expires_at := Some lease_expires_at, cc_claimed_by := Some worker_id,
       cc_completed_at := None\<rparr>"

definition finish_row ::
  "string \<Rightarrow> timestamp \<Rightarrow> timestamp \<Rightarrow> string option \<Rightarrow> string option \<Rightarrow> string option
     \<Rightarrow> core_command \<Rightarrow> core_command" where
  "finish_row status available_at now_value result_json error_code error_detail c =
     c\<lparr>cc_status := status,
       cc_available_at := (if status = ''retry_wait'' then available_at else cc_available_at c),
       cc_lease_expires_at := None,
       cc_claimed_by := None,
       cc_completed_at := (if status = ''retry_wait'' then None else Some now_value),
       cc_result_json := coalesce result_json (cc_result_json c),
       cc_last_error_code := error_code,
       cc_last_error_detail := error_detail\<rparr>"

definition claim_core_command ::
  "string \<Rightarrow> timedelta \<Rightarrow> datetime \<Rightarrow> rounds_db \<Rightarrow> core_command option \<times> rounds_db" where
  "claim_core_command worker_id lease now db =
     (let now_value = isoformat now;
          lease_expires_at = isoformat (now + max lease (microseconds 1))
      in case sql_order_by (\<lambda>c. (cc_available_at c, cc_command_id c))
                (filter (claimable now_value) (core_commands db)) of
           [] \<Rightarrow> (None, db)
         | row # _ \<Rightarrow>
             (let (t, n) = sql_update
                (\<lambda>c. cc_command_id c = cc_command_id row \<and> claimable now_value c)
                (claim_row lease_expires_at worker_id) (core_commands db);
                 db' = db\<lparr>core_commands := t\<rparr>
              in if n \<noteq> 1 then (None, db') else (get_core_command (cc_command_id row) db', db')))"

definition finish_statuses :: "string list" where
  "finish_statuses = [''completed'', ''retry_wait'', ''rejected'', ''failed'']"

definition finish_core_command ::
  "string \<Rightarrow> string \<Rightarrow> string \<Rightarrow> string option \<Rightarrow> string option \<Rightarrow> string option \<Rightarrow> timedelta
     \<Rightarrow> datetime \<Rightarrow> rounds_db \<Rightarrow> (bool \<times> rounds_db) res" where
  "finish_core_command command_id worker_id status result_json error_code error_detail delay now db =
     raise_if (status \<notin> set finish_statuses) (ValueError (''unsupported core command status: '' @ status))
     (let now_value = isoformat now;
          available_at = isoformat (now + delay);
          (t, n) = sql_update
            (\<lambda>c. cc_command_id c = command_id \<and> cc_status c = ''delivering''
               \<and> cc_claimed_by c = Some worker_id)
            (finish_row status available_at now_value result_json error_code error_detail)
            (core_commands db)
      in Inr (n = 1, db\<lparr>core_commands := t\<rparr>))"

section \<open>Deliveries\<close>

definition get_core_raw_round_delivery :: "string \<Rightarrow> rounds_db \<Rightarrow> core_delivery option" where
  "get_core_raw_round_delivery i db =
     sql_first (\<lambda>d. dl_raw_round_id d = i) (raw_round_core_deliveries db)"

text \<open>
  \<^verbatim>\<open>INSERT ... ON CONFLICT(raw_round_id) DO UPDATE SET updated_at\<close>: only a conflict on the
  round is an update; a second round for one command violates \<^verbatim>\<open>command_id UNIQUE\<close>.
\<close>

definition create_core_raw_round_delivery ::
  "string \<Rightarrow> string \<Rightarrow> string \<Rightarrow> string \<Rightarrow> datetime \<Rightarrow> rounds_db \<Rightarrow> (core_delivery \<times> rounds_db) res" where
  "create_core_raw_round_delivery i space command_id key now db =
     (let t = isoformat now;
          stored =
            (if get_core_raw_round_delivery i db \<noteq> None
             then Inr (db\<lparr>raw_round_core_deliveries :=
               fst (sql_update (\<lambda>d. dl_raw_round_id d = i) (\<lambda>d. d\<lparr>dl_updated_at := t\<rparr>)
                 (raw_round_core_deliveries db))\<rparr>)
             else
               raise_if (\<exists>d\<in>set (raw_round_core_deliveries db). dl_command_id d = command_id)
                 (IntegrityError ''UNIQUE raw_round_core_deliveries.command_id'')
               (raise_if (\<not> (\<exists>r\<in>set (raw_rounds db). rr_raw_round_id r = i))
                 (IntegrityError ''FOREIGN KEY raw_round_id'')
               (Inr (db\<lparr>raw_round_core_deliveries := raw_round_core_deliveries db @
                 [\<lparr>dl_raw_round_id = i, dl_memory_space_id = space, dl_command_id = command_id,
                   dl_idempotency_key = key, dl_transport_status = ''queued'',
                   dl_core_raw_round_id = None, dl_core_job_id = None, dl_last_error_code = None,
                   dl_created_at = t, dl_updated_at = t\<rparr>]\<rparr>))))
      in rbind stored (\<lambda>db1.
         (case get_core_raw_round_delivery i db1 of
            None \<Rightarrow> Inl (RuntimeError ''raw round delivery insert did not produce a row'')
          | Some d \<Rightarrow> Inr (d, db1))))"

definition delivery_statuses :: "string list" where
  "delivery_statuses = [''queued'', ''accepted'', ''rejected'', ''retry_wait'']"

definition update_core_raw_round_delivery ::
  "string \<Rightarrow> string \<Rightarrow> string option \<Rightarrow> string option \<Rightarrow> datetime \<Rightarrow> rounds_db \<Rightarrow> (bool \<times> rounds_db) res" where
  "update_core_raw_round_delivery i status core_id error_code now db =
     raise_if (status \<notin> set delivery_statuses)
       (ValueError (''unsupported raw round delivery status: '' @ status))
     (let (t, n) = sql_update (\<lambda>d. dl_raw_round_id d = i)
            (\<lambda>d. d\<lparr>dl_transport_status := status,
               dl_core_raw_round_id := coalesce core_id (dl_core_raw_round_id d),
               dl_last_error_code := error_code,
               dl_updated_at := isoformat now\<rparr>) (raw_round_core_deliveries db)
      in Inr (n = 1, db\<lparr>raw_round_core_deliveries := t\<rparr>))"

section \<open>Retention\<close>

text \<open>The UPDATE that empties one payload; it leaves an already emptied one alone.\<close>

definition empty_payload :: "timestamp \<Rightarrow> string \<Rightarrow> rounds_db \<Rightarrow> nat \<times> rounds_db" where
  "empty_payload stamp i db =
     (let (t, n) = sql_update (\<lambda>p. pl_raw_round_id p = i \<and> pl_deleted_at p = None)
            (\<lambda>p. p\<lparr>pl_payload_json := ''{}'', pl_payload_bytes := 0, pl_deleted_at := Some stamp\<rparr>)
            (raw_round_payloads db)
      in (n, db\<lparr>raw_round_payloads := t\<rparr>))"

definition clear_raw_round_payload :: "string \<Rightarrow> datetime \<Rightarrow> rounds_db \<Rightarrow> bool \<times> rounds_db" where
  "clear_raw_round_payload i now db =
     (let (n, db') = empty_payload (isoformat now) i db in (n = 1, db'))"

definition expired_payload :: "timestamp \<Rightarrow> raw_round_payload \<Rightarrow> bool" where
  "expired_payload cutoff p \<longleftrightarrow> pl_deleted_at p = None \<and>
     (case pl_retention_expires_at p of None \<Rightarrow> False | Some t \<Rightarrow> t \<le> cutoff)"

fun empty_payloads :: "timestamp \<Rightarrow> string list \<Rightarrow> rounds_db \<Rightarrow> nat \<times> rounds_db" where
  "empty_payloads cutoff [] db = (0, db)"
| "empty_payloads cutoff (i # is) db =
     (let (n, db1) = empty_payload cutoff i db; (m, db2) = empty_payloads cutoff is db1
      in (n + m, db2))"

definition purge_expired :: "timestamp option \<Rightarrow> int \<Rightarrow> datetime \<Rightarrow> rounds_db \<Rightarrow> nat \<times> rounds_db" where
  "purge_expired now limit clock db =
     (let cutoff = (case now of Some t \<Rightarrow> if t = [] then isoformat clock else t | None \<Rightarrow> isoformat clock);
          rows = take (nat (max limit 1))
            (sql_order_by (\<lambda>p. case pl_retention_expires_at p of Some t \<Rightarrow> t | None \<Rightarrow> [])
              (filter (expired_payload cutoff) (raw_round_payloads db)))
      in empty_payloads cutoff (map pl_raw_round_id rows) db)"


section \<open>Integrity\<close>

definition space_ids :: "rounds_db \<Rightarrow> string list" where
  "space_ids db = map ms_memory_space_id (memory_spaces db)"

definition round_ids :: "rounds_db \<Rightarrow> string list" where
  "round_ids db = map rr_raw_round_id (raw_rounds db)"

definition capture_identity :: "raw_round \<Rightarrow> string \<times> string \<times> int" where
  "capture_identity r = (rr_memory_space_id r, rr_source_round_key r, rr_capture_schema_version r)"

definition command_identity :: "core_command \<Rightarrow> string \<times> string" where
  "command_identity c = (cc_memory_space_id c, cc_idempotency_key c)"

definition wf_spaces :: "memory_space list \<Rightarrow> bool" where
  "wf_spaces t \<longleftrightarrow> distinct (map ms_memory_space_id t) \<and>
     list_all (\<lambda>r. 1 \<le> sql_length (ms_memory_space_id r) \<and> sql_length (ms_memory_space_id r) \<le> 200) t"

definition wf_rounds :: "string list \<Rightarrow> raw_round list \<Rightarrow> bool" where
  "wf_rounds spaces t \<longleftrightarrow> distinct (map rr_raw_round_id t) \<and> distinct (map capture_identity t) \<and>
     list_all (\<lambda>r. rr_memory_space_id r \<in> set spaces \<and> 1 \<le> rr_capture_schema_version r
       \<and> prefix ''sha256:'' (rr_payload_digest r)) t"

text \<open>Besides its keys, a payload row that was emptied holds the empty object.\<close>

definition payload_ok :: "raw_round_payload \<Rightarrow> bool" where
  "payload_ok p \<longleftrightarrow>
     (if pl_deleted_at p = None then pl_payload_bytes p = length (pl_payload_json p)
      else pl_payload_json p = ''{}'' \<and> pl_payload_bytes p = 0)"

definition wf_payloads :: "string list \<Rightarrow> raw_round_payload list \<Rightarrow> bool" where
  "wf_payloads rounds t \<longleftrightarrow> distinct (map pl_raw_round_id t) \<and>
     list_all (\<lambda>p. pl_raw_round_id p \<in> set rounds \<and> payload_ok p) t"

definition terminal_statuses :: "string list" where
  "terminal_statuses = [''completed'', ''rejected'', ''failed'']"

definition terminal :: "core_command \<Rightarrow> bool" where
  "terminal c \<longleftrightarrow> cc_status c \<in> set terminal_statuses"

text \<open>
  The life cycle of a command: it is claimed and leased exactly while it is being delivered,
  completed exactly when it is terminal, and it was attempted exactly when it left \<^verbatim>\<open>pending\<close>.
\<close>

definition command_ok :: "core_command \<Rightarrow> bool" where
  "command_ok c \<longleftrightarrow>
     cc_status c \<in> set ([''pending'', ''delivering'', ''retry_wait''] @ terminal_statuses) \<and>
     prefix ''sha256:'' (cc_payload_digest c) \<and>
     (cc_status c = ''delivering'' \<longleftrightarrow> cc_claimed_by c \<noteq> None) \<and>
     (cc_status c = ''delivering'' \<longleftrightarrow> cc_lease_expires_at c \<noteq> None) \<and>
     (terminal c \<longleftrightarrow> cc_completed_at c \<noteq> None) \<and>
     (cc_status c = ''pending'' \<longleftrightarrow> cc_attempts c = 0)"

definition wf_commands :: "core_command list \<Rightarrow> bool" where
  "wf_commands t \<longleftrightarrow> distinct (map cc_command_id t) \<and> distinct (map command_identity t) \<and>
     list_all command_ok t"

definition wf_deliveries :: "string list \<Rightarrow> core_delivery list \<Rightarrow> bool" where
  "wf_deliveries rounds t \<longleftrightarrow> distinct (map dl_raw_round_id t) \<and> distinct (map dl_command_id t) \<and>
     list_all (\<lambda>d. dl_raw_round_id d \<in> set rounds \<and> dl_transport_status d \<in> set delivery_statuses) t"

definition db_wf :: "rounds_db \<Rightarrow> bool" where
  "db_wf db \<longleftrightarrow> wf_spaces (memory_spaces db) \<and> wf_rounds (space_ids db) (raw_rounds db) \<and>
     wf_payloads (round_ids db) (raw_round_payloads db) \<and> wf_commands (core_commands db) \<and>
     wf_deliveries (round_ids db) (raw_round_core_deliveries db)"

definition command_content :: "core_command \<Rightarrow> string \<times> string \<times> string \<times> string \<times> string \<times> string" where
  "command_content c = (cc_command_id c, cc_command_type c, cc_memory_space_id c,
     cc_idempotency_key c, cc_payload_json c, cc_payload_digest c)"

definition emptied_row :: "timestamp \<Rightarrow> raw_round_payload \<Rightarrow> raw_round_payload" where
  "emptied_row t p = p\<lparr>pl_payload_json := ''{}'', pl_payload_bytes := 0, pl_deleted_at := Some t\<rparr>"

text \<open>A queue of two commands that are due, for concrete evaluations.\<close>

definition queued_command :: "string \<Rightarrow> core_command" where
  "queued_command i = \<lparr>cc_command_id = i, cc_command_type = ''control_maintenance'',
     cc_memory_space_id = ''m'', cc_idempotency_key = i, cc_payload_json = ''{}'',
     cc_payload_digest = ''sha256:0'', cc_status = ''pending'', cc_attempts = 0,
     cc_available_at = [], cc_lease_expires_at = None, cc_claimed_by = None,
     cc_completed_at = None, cc_result_json = None, cc_last_error_code = None,
     cc_last_error_detail = None, cc_created_at = []\<rparr>"

definition queue_db :: rounds_db where
  "queue_db = empty_db\<lparr>core_commands := [queued_command ''b'', queued_command ''a'']\<rparr>"

definition stored_round :: "string \<Rightarrow> raw_round" where
  "stored_round i = \<lparr>rr_raw_round_id = i, rr_memory_space_id = ''m'', rr_source_system = ''s'',
     rr_source_instance_id = ''i'', rr_source_profile_id = ''p'', rr_source_session_id = ''t'',
     rr_source_round_id = i, rr_source_round_key = i, rr_capture_schema_version = 1,
     rr_adapter_version = ''1'', rr_payload_json = ''{}'', rr_payload_digest = ''sha256:0'',
     rr_started_at = [], rr_completed_at = [], rr_received_at = [], rr_retention_expires_at = Some []\<rparr>"

definition stored_payload :: "string \<Rightarrow> raw_round_payload" where
  "stored_payload i = \<lparr>pl_raw_round_id = i, pl_payload_json = ''[]'', pl_payload_bytes = 2,
     pl_retention_expires_at = Some [], pl_deleted_at = None\<rparr>"

definition retention_db :: rounds_db where
  "retention_db = \<lparr>memory_spaces = [\<lparr>ms_memory_space_id = ''m'', ms_display_name = None,
       ms_source_client = ''c'', ms_created_at = [], ms_updated_at = []\<rparr>],
     raw_rounds = [stored_round ''x'', stored_round ''y''],
     raw_round_payloads = [stored_payload ''x'', stored_payload ''y''],
     core_commands = [], raw_round_core_deliveries = []\<rparr>"

text \<open>
  One step of the repositories: any method, with any arguments, at any instant. The event
  tells the methods that touch a lease apart: a claim with its worker and instant, and a
  completion with its worker.
\<close>

datatype repo_event = EvClaim string datetime | EvFinish string | EvOther

inductive repo_step :: "repo_event \<Rightarrow> rounds_db \<Rightarrow> rounds_db \<Rightarrow> bool" where
  step_ensure_space:
    "ensure_memory_space i client name now db = Inr (space, db') \<Longrightarrow> repo_step EvOther db db'"
| step_insert_round:
    "insert_raw_round r now db = Inr (r', db') \<Longrightarrow> repo_step EvOther db db'"
| step_create_command:
    "create_core_command i ty sp k p d a now db = Inr (c, db') \<Longrightarrow> repo_step EvOther db db'"
| step_claim:
    "claim_core_command w l now db = (c, db') \<Longrightarrow> repo_step (EvClaim w now) db db'"
| step_finish:
    "finish_core_command i w st res ec ed delay now db = Inr (b, db') \<Longrightarrow>
       repo_step (EvFinish w) db db'"
| step_create_delivery:
    "create_core_raw_round_delivery i sp ci k now db = Inr (d, db') \<Longrightarrow> repo_step EvOther db db'"
| step_update_delivery:
    "update_core_raw_round_delivery i st cr ec now db = Inr (b, db') \<Longrightarrow> repo_step EvOther db db'"
| step_clear_payload:
    "clear_raw_round_payload i now db = (b, db') \<Longrightarrow> repo_step EvOther db db'"
| step_purge:
    "purge_expired cutoff limit now db = (n, db') \<Longrightarrow> repo_step EvOther db db'"

inductive_cases repo_step_ClaimE: "repo_step (EvClaim w t) db db'"
inductive_cases repo_step_FinishE: "repo_step (EvFinish w) db db'"

definition repo_any_step :: "rounds_db \<Rightarrow> rounds_db \<Rightarrow> bool" where
  "repo_any_step db db' \<longleftrightarrow> (\<exists>ev. repo_step ev db db')"

inductive repo_run :: "repo_event list \<Rightarrow> rounds_db \<Rightarrow> rounds_db \<Rightarrow> bool" where
  run_nil: "repo_run [] db db"
| run_cons: "repo_step ev db db1 \<Longrightarrow> repo_run evs db1 db2 \<Longrightarrow> repo_run (ev # evs) db db2"

inductive_cases repo_run_ConsE: "repo_run (ev # evs) db db2"
inductive_cases repo_run_NilE: "repo_run [] db db2"

section \<open>Every method keeps the integrity of the tables\<close>

lemma wf_spaces_snoc:
  assumes "wf_spaces t" and "sql_first (\<lambda>x. ms_memory_space_id x = ms_memory_space_id r) t = None"
    and "1 \<le> sql_length (ms_memory_space_id r)" and "sql_length (ms_memory_space_id r) \<le> 200"
  shows "wf_spaces (t @ [r])"
  using assms by (auto simp: wf_spaces_def sql_first_None)

lemma wf_rounds_more_spaces: "wf_rounds s t \<Longrightarrow> set s \<subseteq> set s' \<Longrightarrow> wf_rounds s' t"
  by (auto simp: wf_rounds_def list_all_iff)

lemma wf_payloads_more_rounds: "wf_payloads s t \<Longrightarrow> set s \<subseteq> set s' \<Longrightarrow> wf_payloads s' t"
  by (auto simp: wf_payloads_def list_all_iff)

lemma wf_deliveries_more_rounds: "wf_deliveries s t \<Longrightarrow> set s \<subseteq> set s' \<Longrightarrow> wf_deliveries s' t"
  by (auto simp: wf_deliveries_def list_all_iff)

lemma db_wf_ignore_space: "db_wf db \<Longrightarrow> db_wf (insert_or_ignore_memory_space r db)"
  by (auto simp: insert_or_ignore_memory_space_def db_wf_def space_ids_def round_ids_def
      get_memory_space_def intro!: wf_spaces_snoc elim: wf_rounds_more_spaces)

lemma db_wf_ensure_space:
  "ensure_memory_space i client name now db = Inr (space, db') \<Longrightarrow> db_wf db \<Longrightarrow> db_wf db'"
  by (auto simp: ensure_memory_space_def Let_def res_simps split: option.splits
      intro: db_wf_ignore_space)

lemma get_memory_space_ids: "get_memory_space i db \<noteq> None \<longleftrightarrow> i \<in> set (space_ids db)"
  by (auto simp: get_memory_space_def sql_first_None space_ids_def)

lemma db_wf_sql_insert_round:
  assumes "sql_insert_raw_round r db = Inr db'" and "db_wf db"
  shows "db_wf db'"
proof -
  have new: "rr_raw_round_id r \<notin> rr_raw_round_id ` set (raw_rounds db)"
    "capture_identity r \<notin> capture_identity ` set (raw_rounds db)"
    and ok: "1 \<le> rr_capture_schema_version r" "prefix ''sha256:'' (rr_payload_digest r)"
    and fk: "rr_memory_space_id r \<in> set (space_ids db)"
    and db': "db' = db\<lparr>raw_rounds := raw_rounds db @ [r]\<rparr>"
    using assms(1) get_memory_space_ids [of "rr_memory_space_id r" db]
    by (force simp: sql_insert_raw_round_def res_simps capture_identity_def)+
  show ?thesis
    using assms(2) new ok fk
    by (auto simp: db' db_wf_def wf_rounds_def space_ids_def round_ids_def
        intro: wf_payloads_more_rounds wf_deliveries_more_rounds)
qed

lemma db_wf_sql_insert_payload:
  assumes "sql_insert_payload p db = Inr db'" and "db_wf db" and "payload_ok p"
  shows "db_wf db'"
proof -
  have new: "pl_raw_round_id p \<notin> pl_raw_round_id ` set (raw_round_payloads db)"
    and fk: "pl_raw_round_id p \<in> set (round_ids db)"
    and db': "db' = db\<lparr>raw_round_payloads := raw_round_payloads db @ [p]\<rparr>"
    using assms(1) by (auto simp: sql_insert_payload_def res_simps round_ids_def rev_image_eqI)
  show ?thesis
    using assms(2,3) new fk
    by (simp add: db' db_wf_def wf_payloads_def space_ids_def round_ids_def)
qed

lemma db_wf_insert_round:
  assumes "insert_raw_round r now db = Inr (r', db')" and "db_wf db"
  shows "db_wf db'"
  using assms
  by (auto simp: insert_raw_round_def res_simps split: option.splits
      elim!: db_wf_sql_insert_payload intro: db_wf_sql_insert_round simp: payload_ok_def)

lemma db_wf_create_command:
  assumes "create_core_command i ty sp k p d a now db = Inr (c, db')" and "db_wf db"
  shows "db_wf db'"
  using assms
  by (auto simp: create_core_command_def sql_insert_core_command_def res_simps Let_def db_wf_def
      wf_commands_def command_identity_def command_ok_def terminal_def terminal_statuses_def
      space_ids_def round_ids_def split: option.splits)

text \<open>An update of the commands table that keeps both keys and every row's life cycle.\<close>

lemma wf_commands_update:
  assumes "wf_commands t" and "\<And>c. p c \<Longrightarrow> cc_command_id (f c) = cc_command_id c"
    and "\<And>c. p c \<Longrightarrow> command_identity (f c) = command_identity c"
    and "\<And>c. p c \<Longrightarrow> command_ok c \<Longrightarrow> command_ok (f c)"
  shows "wf_commands (fst (sql_update p f t))"
proof -
  have "map cc_command_id (fst (sql_update p f t)) = map cc_command_id t"
    "map command_identity (fst (sql_update p f t)) = map command_identity t"
    using assms(2,3) by (simp_all add: sql_update_key)
  then show ?thesis
    using assms(1,4) by (auto simp: wf_commands_def list_all_iff sql_update_fst_set)
qed

lemma db_wf_commands:
  "db_wf db \<Longrightarrow> wf_commands t \<Longrightarrow> db_wf (db\<lparr>core_commands := t\<rparr>)"
  by (simp add: db_wf_def space_ids_def round_ids_def)

lemma claim_row_keys [simp]:
  "cc_command_id (claim_row e w c) = cc_command_id c"
  "command_identity (claim_row e w c) = command_identity c"
  by (simp_all add: claim_row_def command_identity_def)

lemma finish_row_keys [simp]:
  "cc_command_id (finish_row st a n r ec ed c) = cc_command_id c"
  "command_identity (finish_row st a n r ec ed c) = command_identity c"
  by (simp_all add: finish_row_def command_identity_def)

lemma command_ok_claim_row: "command_ok c \<Longrightarrow> command_ok (claim_row e w c)"
  by (auto simp: claim_row_def command_ok_def terminal_def terminal_statuses_def)

lemma command_ok_finish_row:
  "st \<in> set finish_statuses \<Longrightarrow> cc_status c = ''delivering'' \<Longrightarrow> command_ok c \<Longrightarrow>
     command_ok (finish_row st a n r ec ed c)"
  by (auto simp: finish_row_def finish_statuses_def command_ok_def terminal_def terminal_statuses_def)

lemma claim_core_command_db:
  assumes "claim_core_command w l now db = (c, db')"
  obtains "db' = db" | p e where "db' = db\<lparr>core_commands := fst (sql_update p (claim_row e w) (core_commands db))\<rparr>"
  using assms by (auto simp: claim_core_command_def Let_def split: list.splits prod.splits if_splits)
    (metis fst_conv)+

lemma db_wf_sql_update_commands:
  assumes "db_wf db" and "\<And>c. p c \<Longrightarrow> cc_command_id (f c) = cc_command_id c"
    and "\<And>c. p c \<Longrightarrow> command_identity (f c) = command_identity c"
    and "\<And>c. p c \<Longrightarrow> command_ok c \<Longrightarrow> command_ok (f c)"
  shows "db_wf (db\<lparr>core_commands := fst (sql_update p f (core_commands db))\<rparr>)"
proof -
  have "wf_commands (core_commands db)" using assms(1) by (simp add: db_wf_def)
  then have "wf_commands (fst (sql_update p f (core_commands db)))"
    using assms(2-4) by (rule wf_commands_update)
  with assms(1) show ?thesis by (rule db_wf_commands)
qed

lemma db_wf_claim:
  assumes "claim_core_command w l now db = (c, db')" and "db_wf db"
  shows "db_wf db'"
  using assms(1)
proof (cases rule: claim_core_command_db)
  case (2 p e)
  show ?thesis unfolding 2
    by (rule db_wf_sql_update_commands) (simp_all add: assms(2) command_ok_claim_row)
qed (simp add: assms(2))

lemma finish_core_command_db:
  assumes "finish_core_command i w st res ec ed delay now db = Inr (b, db')"
  shows "st \<in> set finish_statuses"
    and "db' = db\<lparr>core_commands := fst (sql_update
      (\<lambda>c. cc_command_id c = i \<and> cc_status c = ''delivering'' \<and> cc_claimed_by c = Some w)
      (finish_row st (isoformat (now + delay)) (isoformat now) res ec ed) (core_commands db))\<rparr>"
    and "b = (snd (sql_update
      (\<lambda>c. cc_command_id c = i \<and> cc_status c = ''delivering'' \<and> cc_claimed_by c = Some w)
      (finish_row st (isoformat (now + delay)) (isoformat now) res ec ed) (core_commands db)) = 1)"
  using assms by (auto simp: finish_core_command_def res_simps Let_def prod.case_eq_if)

lemma db_wf_finish:
  assumes "finish_core_command i w st res ec ed delay now db = Inr (b, db')" and "db_wf db"
  shows "db_wf db'"
  unfolding finish_core_command_db(2) [OF assms(1)]
  by (rule db_wf_sql_update_commands)
    (simp_all add: assms(2) command_ok_finish_row finish_core_command_db(1) [OF assms(1)])

lemma wf_deliveries_update:
  assumes "wf_deliveries rounds t" and "\<And>d. p d \<Longrightarrow> dl_raw_round_id (f d) = dl_raw_round_id d"
    and "\<And>d. p d \<Longrightarrow> dl_command_id (f d) = dl_command_id d"
    and "\<And>d. p d \<Longrightarrow> dl_transport_status d \<in> set delivery_statuses
       \<Longrightarrow> dl_transport_status (f d) \<in> set delivery_statuses"
  shows "wf_deliveries rounds (fst (sql_update p f t))"
proof -
  have "map dl_raw_round_id (fst (sql_update p f t)) = map dl_raw_round_id t"
    "map dl_command_id (fst (sql_update p f t)) = map dl_command_id t"
    using assms(2,3) by (simp_all add: sql_update_key)
  then show ?thesis
    using assms by (auto simp: wf_deliveries_def list_all_iff sql_update_fst_set)
qed

lemma db_wf_deliveries:
  "db_wf db \<Longrightarrow> wf_deliveries (round_ids db) t \<Longrightarrow> db_wf (db\<lparr>raw_round_core_deliveries := t\<rparr>)"
  by (simp add: db_wf_def space_ids_def round_ids_def)

lemma db_wf_update_delivery:
  assumes "update_core_raw_round_delivery i st cr ec now db = Inr (b, db')" and "db_wf db"
  shows "db_wf db'"
proof -
  have wf: "wf_deliveries (round_ids db) (raw_round_core_deliveries db)"
    using assms(2) by (simp add: db_wf_def)
  show ?thesis
    using assms(1)
    by (auto simp: update_core_raw_round_delivery_def res_simps prod.case_eq_if
        intro!: db_wf_deliveries [OF assms(2)] wf_deliveries_update [OF wf])
qed

lemma db_wf_create_delivery:
  assumes "create_core_raw_round_delivery i sp ci k now db = Inr (d, db')" and "db_wf db"
  shows "db_wf db'"
proof -
  have wf: "wf_deliveries (round_ids db) (raw_round_core_deliveries db)"
    using assms(2) by (simp add: db_wf_def)
  show ?thesis
  proof (cases "get_core_raw_round_delivery i db")
    case None
    then have new: "i \<notin> dl_raw_round_id ` set (raw_round_core_deliveries db)"
      by (auto simp: get_core_raw_round_delivery_def sql_first_None)
    have "i \<in> set (round_ids db)" "ci \<notin> dl_command_id ` set (raw_round_core_deliveries db)"
      and "\<exists>x. db' = db\<lparr>raw_round_core_deliveries := raw_round_core_deliveries db @ [x]\<rparr>
        \<and> dl_raw_round_id x = i \<and> dl_command_id x = ci \<and> dl_transport_status x = ''queued''"
      using assms(1) None
      by (auto simp: create_core_raw_round_delivery_def Let_def res_simps round_ids_def
          split: option.splits)
    then show ?thesis
      using wf new
      by (auto simp: wf_deliveries_def delivery_statuses_def intro!: db_wf_deliveries [OF assms(2)])
  next
    case (Some x)
    then show ?thesis
      using assms(1)
      by (auto simp: create_core_raw_round_delivery_def Let_def res_simps split: option.splits
          intro!: db_wf_deliveries [OF assms(2)] wf_deliveries_update [OF wf])
  qed
qed

lemma db_wf_empty_payload:
  assumes "empty_payload stamp i db = (n, db')" and "db_wf db"
  shows "db_wf db'"
proof -
  let ?p = "\<lambda>p. pl_raw_round_id p = i \<and> pl_deleted_at p = None"
  let ?f = "\<lambda>p. p\<lparr>pl_payload_json := ''{}'', pl_payload_bytes := 0, pl_deleted_at := Some stamp\<rparr>"
  have "map pl_raw_round_id (fst (sql_update ?p ?f (raw_round_payloads db)))
      = map pl_raw_round_id (raw_round_payloads db)"
    by (simp add: sql_update_key)
  moreover have "wf_payloads (round_ids db) (raw_round_payloads db)"
    using assms(2) by (simp add: db_wf_def)
  ultimately have "wf_payloads (round_ids db) (fst (sql_update ?p ?f (raw_round_payloads db)))"
    by (auto simp: wf_payloads_def list_all_iff sql_update_fst_set payload_ok_def)
  moreover have "db' = db\<lparr>raw_round_payloads := fst (sql_update ?p ?f (raw_round_payloads db))\<rparr>"
    using assms(1) by (simp add: empty_payload_def prod.case_eq_if)
  ultimately show ?thesis
    using assms(2) by (simp add: db_wf_def space_ids_def round_ids_def)
qed

lemma db_wf_empty_payloads:
  "empty_payloads cutoff is db = (n, db') \<Longrightarrow> db_wf db \<Longrightarrow> db_wf db'"
  by (induction "is" arbitrary: db n db')
    (auto simp: Let_def split: prod.splits dest: db_wf_empty_payload)

lemma db_wf_step: "repo_step ev db db' \<Longrightarrow> db_wf db \<Longrightarrow> db_wf db'"
  by (induction rule: repo_step.induct)
    (auto simp: clear_raw_round_payload_def purge_expired_def Let_def split: prod.splits
      dest: db_wf_ensure_space db_wf_insert_round db_wf_create_command db_wf_claim db_wf_finish
        db_wf_create_delivery db_wf_update_delivery db_wf_empty_payload db_wf_empty_payloads)

interpretation rounds_integrity: step_invariant repo_any_step db_wf
  by unfold_locales (auto simp: repo_any_step_def intro: db_wf_step)

lemma repo_run_any: "repo_run evs db db' \<Longrightarrow> repo_any_step\<^sup>*\<^sup>* db db'"
  by (induction rule: repo_run.induct)
    (auto simp: repo_any_step_def intro: converse_rtranclp_into_rtranclp)

lemma db_wf_empty: "db_wf empty_db"
  by (simp add: db_wf_def empty_db_def wf_spaces_def wf_rounds_def wf_payloads_def wf_commands_def
      wf_deliveries_def)

section \<open>How the methods change the queue\<close>

lemma command_by_id:
  assumes "db_wf db" and "c \<in> set (core_commands db)"
  shows "get_core_command (cc_command_id c) db = Some c"
  using assms by (auto simp: get_core_command_def db_wf_def wf_commands_def intro: sql_first_key)

lemma command_id_inj:
  assumes "db_wf db" and "c \<in> set (core_commands db)" and "x \<in> set (core_commands db)"
    and "cc_command_id x = cc_command_id c"
  shows "x = c"
  using command_by_id [OF assms(1,2)] command_by_id [OF assms(1,3)] assms(4) by simp

lemma get_core_command_Some:
  "get_core_command i db = Some c \<Longrightarrow> c \<in> set (core_commands db) \<and> cc_command_id c = i"
  by (auto simp: get_core_command_def dest: sql_first_Some)

lemma get_core_command_update:
  assumes "\<And>c. p c \<Longrightarrow> cc_command_id (f c) = cc_command_id c"
  shows "get_core_command i (db\<lparr>core_commands := fst (sql_update p f (core_commands db))\<rparr>)
     = map_option (\<lambda>c. if p c then f c else c) (get_core_command i db)"
  using assms by (simp add: get_core_command_def sql_first_update_key [where k = cc_command_id])

text \<open>What a claim does, in terms of the row it takes.\<close>

lemma claim_None:
  assumes "\<forall>c\<in>set (core_commands db). \<not> claimable (isoformat now) c"
  shows "claim_core_command w l now db = (None, db)"
proof -
  have "filter (claimable (isoformat now)) (core_commands db) = []"
    using assms by (simp add: filter_empty_conv)
  then show ?thesis by (simp add: claim_core_command_def sql_order_by_def)
qed

lemma claim_Some:
  assumes "db_wf db" and "\<exists>x\<in>set (core_commands db). claimable (isoformat now) x"
  obtains c where "c \<in> set (core_commands db)" and "claimable (isoformat now) c"
    and "\<And>x. x \<in> set (core_commands db) \<Longrightarrow> claimable (isoformat now) x \<Longrightarrow>
      (cc_available_at c, cc_command_id c) \<le> (cc_available_at x, cc_command_id x)"
    and "claim_core_command w l now db =
      (Some (claim_row (isoformat (now + max l (microseconds 1))) w c),
       db\<lparr>core_commands := map (\<lambda>x. if x = c
         then claim_row (isoformat (now + max l (microseconds 1))) w c else x) (core_commands db)\<rparr>)"
proof -
  let ?t = "core_commands db" and ?n = "isoformat now"
  let ?e = "isoformat (now + max l (microseconds 1))"
  let ?q = "sql_order_by (\<lambda>c. (cc_available_at c, cc_command_id c)) (filter (claimable ?n) ?t)"
  have "set ?q \<noteq> {}" using assms(2) by auto
  then obtain c rest where q: "?q = c # rest" by (cases ?q) auto
  then have "c \<in> set ?q" by simp
  then have c: "c \<in> set ?t" "claimable ?n c" by simp_all
  let ?p = "\<lambda>x. cc_command_id x = cc_command_id c \<and> claimable ?n x"
  have p: "?p x \<longleftrightarrow> x = c" if "x \<in> set ?t" for x
    using that c command_id_inj [OF assms(1) c(1)] by auto
  have upd: "fst (sql_update ?p (claim_row ?e w) ?t) = map (\<lambda>x. if x = c then claim_row ?e w c else x) ?t"
    using p by (auto simp: sql_update_def)
  have "distinct (map cc_command_id ?t)" using assms(1) by (simp add: db_wf_def wf_commands_def)
  then have cnt: "snd (sql_update ?p (claim_row ?e w) ?t) = 1"
    using sql_update_count_key [of cc_command_id ?t c ?p "claim_row ?e w"] c by simp
  have get: "get_core_command (cc_command_id c)
      (db\<lparr>core_commands := fst (sql_update ?p (claim_row ?e w) ?t)\<rparr>) = Some (claim_row ?e w c)"
    using get_core_command_update [of ?p "claim_row ?e w" "cc_command_id c" db]
      command_by_id [OF assms(1) c(1)] c by simp
  have "claim_core_command w l now db = (Some (claim_row ?e w c),
      db\<lparr>core_commands := map (\<lambda>x. if x = c then claim_row ?e w c else x) ?t\<rparr>)"
    using q cnt get by (simp add: claim_core_command_def Let_def prod.case_eq_if upd del: One_nat_def)
  moreover have "(cc_available_at c, cc_command_id c) \<le> (cc_available_at x, cc_command_id x)"
    if "x \<in> set ?t" "claimable ?n x" for x
    using sql_order_by_hd_le [OF q, of x] that by simp
  ultimately show ?thesis using that c by blast
qed

lemma claimable_instant:
  assumes "command_ok c"
  shows "claimable t c \<longleftrightarrow> \<not> terminal c \<and>
    (case cc_lease_expires_at c of None \<Rightarrow> cc_available_at c | Some e \<Rightarrow> e) \<le> t"
proof -
  consider "cc_status c = ''pending''" | "cc_status c = ''retry_wait''"
    | "cc_status c = ''delivering''" | "terminal c"
    using assms by (auto simp: command_ok_def terminal_def)
  then show ?thesis
    using assms by cases (auto simp: claimable_def command_ok_def terminal_def terminal_statuses_def)
qed

lemma claim_Some_row:
  assumes "db_wf db" and "claim_core_command w l now db = (Some r, db')"
  obtains c where "c \<in> set (core_commands db)" and "claimable (isoformat now) c"
    and "r = claim_row (isoformat (now + max l (microseconds 1))) w c"
    and "db' = db\<lparr>core_commands := map (\<lambda>x. if x = c then r else x) (core_commands db)\<rparr>"
proof (cases "\<exists>x\<in>set (core_commands db). claimable (isoformat now) x")
  case True
  obtain c where c: "c \<in> set (core_commands db)" "claimable (isoformat now) c"
    and eq: "claim_core_command w l now db =
      (Some (claim_row (isoformat (now + max l (microseconds 1))) w c),
       db\<lparr>core_commands := map (\<lambda>x. if x = c
         then claim_row (isoformat (now + max l (microseconds 1))) w c else x) (core_commands db)\<rparr>)"
    by (rule claim_Some [OF assms(1) True, of w l]) blast
  show ?thesis using eq assms(2) by (intro that [OF c]) simp_all
next
  case False
  then show ?thesis using claim_None [of db now w l] assms(2) by simp
qed

lemma get_core_command_claimed:
  assumes "db_wf db" and "claim_core_command w l now db = (Some r, db')"
  shows "get_core_command (cc_command_id r) db' = Some r"
proof -
  obtain c where c: "c \<in> set (core_commands db)"
    and db': "db' = db\<lparr>core_commands := map (\<lambda>x. if x = c then r else x) (core_commands db)\<rparr>"
    by (rule claim_Some_row [OF assms])
  have "db_wf db'" using db_wf_claim [OF assms(2,1)] .
  moreover have "r \<in> set (core_commands db')" using c by (auto simp: db')
  ultimately show ?thesis by (rule command_by_id)
qed

lemma claim_returns_None:
  assumes "db_wf db" and "claim_core_command w l now db = (None, db')"
  shows "\<forall>x\<in>set (core_commands db). \<not> claimable (isoformat now) x" and "db' = db"
proof -
  have none: "\<not> (\<exists>x\<in>set (core_commands db). claimable (isoformat now) x)"
  proof
    assume ex: "\<exists>x\<in>set (core_commands db). claimable (isoformat now) x"
    show False
      by (rule claim_Some [OF assms(1) ex, of w l]) (use assms(2) in simp)
  qed
  then show "\<forall>x\<in>set (core_commands db). \<not> claimable (isoformat now) x" by blast
  with claim_None [of db now w l] assms(2) show "db' = db" by simp
qed

text \<open>How a step changes the command with a given identifier.\<close>

lemma get_core_command_snoc:
  "get_core_command i db = Some c \<Longrightarrow>
     get_core_command i (db\<lparr>core_commands := core_commands db @ [x]\<rparr>) = Some c"
  by (simp add: get_core_command_def sql_first_append)

lemma get_core_command_same:
  "core_commands db' = core_commands db \<Longrightarrow> get_core_command i db' = get_core_command i db"
  by (simp add: get_core_command_def)

lemma core_commands_empty_payload: 
  "core_commands (snd (empty_payload s i db)) = core_commands db"
  by (simp add: empty_payload_def prod.case_eq_if)

lemma core_commands_empty_payloads:
  "core_commands (snd (empty_payloads s is db)) = core_commands db"
  by (induction "is" arbitrary: db)
    (simp_all add: prod.case_eq_if Let_def core_commands_empty_payload)

lemma create_core_command_keeps:
  assumes "create_core_command i ty sp k p d a now db = Inr (x, db')"
    and "get_core_command j db = Some c"
  shows "get_core_command j db' = Some c"
  using assms
  by (auto simp: create_core_command_def sql_insert_core_command_def res_simps Let_def
      get_core_command_snoc split: option.splits)

lemma step_other_keeps:
  assumes "repo_step EvOther db db'" and "get_core_command j db = Some c"
  shows "get_core_command j db' = Some c"
  using assms(1)
proof cases
  case (step_create_command i ty sp k p d a now x)
  then show ?thesis using assms(2) by (rule create_core_command_keeps)
next
  case (step_ensure_space i client name now space)
  then have "core_commands db' = core_commands db"
    by (auto simp: ensure_memory_space_def insert_or_ignore_memory_space_def Let_def res_simps
        split: option.splits if_splits)
  then show ?thesis using assms(2) by (simp cong: get_core_command_same)
next
  case (step_insert_round r now r')
  then have "core_commands db' = core_commands db"
    by (auto simp: insert_raw_round_def sql_insert_raw_round_def sql_insert_payload_def res_simps
        split: option.splits)
  then show ?thesis using assms(2) by (simp cong: get_core_command_same)
next
  case (step_create_delivery i sp ci k now d)
  then have "core_commands db' = core_commands db"
    by (auto simp: create_core_raw_round_delivery_def Let_def res_simps split: option.splits if_splits)
  then show ?thesis using assms(2) by (simp cong: get_core_command_same)
next
  case (step_update_delivery i st cr ec now b)
  then have "core_commands db' = core_commands db"
    by (auto simp: update_core_raw_round_delivery_def res_simps prod.case_eq_if)
  then show ?thesis using assms(2) by (simp cong: get_core_command_same)
next
  case (step_clear_payload i now b)
  then have "core_commands db' = core_commands db"
    by (auto simp: clear_raw_round_payload_def prod.case_eq_if core_commands_empty_payload)
  then show ?thesis using assms(2) by (simp cong: get_core_command_same)
next
  case (step_purge cutoff limit now n)
  then have "core_commands db' = core_commands db"
    using core_commands_empty_payloads by (auto simp: purge_expired_def Let_def prod_eq_iff)
  then show ?thesis using assms(2) by (simp cong: get_core_command_same)
qed

lemma step_claim_keeps:
  assumes "db_wf db" and "claim_core_command w l now db = (r, db')"
    and "get_core_command j db = Some c" and "\<not> claimable (isoformat now) c"
  shows "get_core_command j db' = Some c" 
proof (cases r)
  case None
  then have "db' = db" using assms(2) claim_returns_None(2) [OF assms(1)] by simp
  then show ?thesis using assms(3) by simp
next
  case (Some r')
  with assms obtain x where x: "claimable (isoformat now) x"
    and db': "db' = db\<lparr>core_commands := map (\<lambda>y. if y = x then r' else y) (core_commands db)\<rparr>"
    by (auto elim: claim_Some_row)
  have c: "c \<in> set (core_commands db)" "cc_command_id c = j"
    using get_core_command_Some [OF assms(3)] by auto
  have "db_wf db'" using db_wf_claim assms(1,2) by blast
  moreover have "c \<in> set (core_commands db')"
    using c x assms(4) by (auto simp: db' intro!: rev_image_eqI)
  ultimately show ?thesis using command_by_id [of db' c] c(2) by simp
qed

lemma step_finish_get:
  assumes "finish_core_command i w st res ec ed delay now db = Inr (b, db')"
    and "get_core_command j db = Some c"
  shows "get_core_command j db' = Some
    (if j = i \<and> cc_status c = ''delivering'' \<and> cc_claimed_by c = Some w
     then finish_row st (isoformat (now + delay)) (isoformat now) res ec ed c else c)"
  unfolding finish_core_command_db(2) [OF assms(1)]
  using get_core_command_Some [OF assms(2)]
  by (auto simp: get_core_command_update assms(2))


lemma command_ok_get: "db_wf db \<Longrightarrow> get_core_command i db = Some c \<Longrightarrow> command_ok c"
  by (auto simp: db_wf_def wf_commands_def list_all_iff dest: get_core_command_Some)

lemma terminal_not_delivering: "terminal c \<Longrightarrow> cc_status c \<noteq> ''delivering''"
  by (auto simp: terminal_def terminal_statuses_def)

lemma terminal_step:
  assumes "repo_step ev db db'" and "db_wf db" and "get_core_command i db = Some c" and "terminal c"
  shows "get_core_command i db' = Some c"
proof (cases ev)
  case (EvClaim w t)
  have "\<not> claimable (isoformat t) c"
    using claimable_instant [OF command_ok_get [OF assms(2,3)]] assms(4) by simp
  with EvClaim assms show ?thesis
    by (auto elim!: repo_step_ClaimE intro: step_claim_keeps)
next
  case (EvFinish w)
  with assms(1) show ?thesis
    by (auto elim!: repo_step_FinishE simp: step_finish_get [OF _ assms(3)]
        terminal_not_delivering [OF assms(4)])
next
  case EvOther
  with assms show ?thesis by (auto intro: step_other_keeps)
qed

lemma leased_step:
  assumes "repo_step ev db db'" and "db_wf db" and "get_core_command i db = Some c"
    and "cc_status c = ''delivering''" and "cc_claimed_by c = Some w"
    and "cc_lease_expires_at c = Some e"
    and "ev \<noteq> EvFinish w" and "\<And>w' t. ev = EvClaim w' t \<Longrightarrow> \<not> e \<le> isoformat t"
  shows "get_core_command i db' = Some c"
proof (cases ev)
  case (EvClaim w' t)
  have "\<not> claimable (isoformat t) c"
    using assms(8) [OF EvClaim] assms(4,6) by (simp add: claimable_def)
  with EvClaim assms show ?thesis
    by (auto elim!: repo_step_ClaimE intro: step_claim_keeps)
next
  case (EvFinish w')
  with assms(7) have "cc_claimed_by c \<noteq> Some w'" using assms(5) by simp
  with EvFinish assms(1) show ?thesis
    by (auto elim!: repo_step_FinishE simp: step_finish_get [OF _ assms(3)])
next
  case EvOther
  with assms show ?thesis by (auto intro: step_other_keeps)
qed


text \<open>
  The content of a command and the identity under which it was created never change.
\<close>

lemma content_claim_row [simp]: "command_content (claim_row e w c) = command_content c"
  by (simp add: command_content_def claim_row_def)

lemma content_finish_row [simp]: "command_content (finish_row st a n r ec ed c) = command_content c"
  by (simp add: command_content_def finish_row_def)

lemma content_step:
  assumes "repo_step ev db db'" and "get_core_command i db = Some c"
  shows "\<exists>c'. get_core_command i db' = Some c' \<and> command_content c' = command_content c"
proof (cases ev)
  case (EvClaim w t)
  with assms(1) obtain l r where "claim_core_command w l t db = (r, db')"
    by (auto elim: repo_step_ClaimE)
  then show ?thesis
    using assms(2)
    by (cases rule: claim_core_command_db) (auto simp: get_core_command_update)
next
  case (EvFinish w)
  with assms(1) show ?thesis
    by (auto elim!: repo_step_FinishE simp: step_finish_get [OF _ assms(2)])
next
  case EvOther
  with assms step_other_keeps show ?thesis by blast
qed

lemma content_run:
  assumes "repo_run evs db db'" and "get_core_command i db = Some c"
  shows "\<exists>c'. get_core_command i db' = Some c' \<and> command_content c' = command_content c"
  using assms
proof (induction arbitrary: c rule: repo_run.induct)
  case (run_cons ev db db1 evs db2)
  obtain c1 where c1: "get_core_command i db1 = Some c1" "command_content c1 = command_content c"
    using content_step [OF run_cons.hyps(1) run_cons.prems] by blast
  then show ?case using run_cons.IH [OF c1(1)] by simp
qed simp

lemma db_wf_run: "repo_run evs db db' \<Longrightarrow> db_wf db \<Longrightarrow> db_wf db'"
  using rounds_integrity.inv_steps repo_run_any by blast

lemma get_by_idempotency_iff:
  assumes "db_wf db"
  shows "get_core_command_by_idempotency sp k db = Some c \<longleftrightarrow>
    c \<in> set (core_commands db) \<and> cc_memory_space_id c = sp \<and> cc_idempotency_key c = k"
proof
  assume "get_core_command_by_idempotency sp k db = Some c"
  then show "c \<in> set (core_commands db) \<and> cc_memory_space_id c = sp \<and> cc_idempotency_key c = k"
    by (auto simp: get_core_command_by_idempotency_def dest: sql_first_Some)
next
  assume c: "c \<in> set (core_commands db) \<and> cc_memory_space_id c = sp \<and> cc_idempotency_key c = k"
  have "(\<lambda>x. cc_memory_space_id x = sp \<and> cc_idempotency_key x = k)
      = (\<lambda>x. command_identity x = command_identity c)"
    using c by (auto simp: command_identity_def)
  moreover have "distinct (map command_identity (core_commands db))"
    using assms by (simp add: db_wf_def wf_commands_def)
  ultimately show "get_core_command_by_idempotency sp k db = Some c"
    using c by (simp add: get_core_command_by_idempotency_def sql_first_key)
qed

lemma sql_insert_core_command_get:
  assumes "sql_insert_core_command c db = Inr db'"
  shows "get_core_command (cc_command_id c) db' = Some c"
proof -
  have "sql_first (\<lambda>x. cc_command_id x = cc_command_id c) (core_commands db) = None"
    using assms by (auto simp: sql_insert_core_command_def res_simps sql_first_None)
  then show ?thesis
    using assms by (auto simp: sql_insert_core_command_def res_simps get_core_command_def sql_first_append)
qed

lemma create_core_command_cases:
  assumes "create_core_command i ty sp k p d a now db = Inr (c, db')"
  obtains (existing) "get_core_command_by_idempotency sp k db = Some c" and "db' = db"
      and "cc_command_type c = ty" and "cc_payload_json c = p" and "cc_payload_digest c = d"
    | (new) "get_core_command_by_idempotency sp k db = None" and "sql_insert_core_command c db = Inr db'"
      and "command_content c = (i, ty, sp, k, p, d)" and "cc_status c = ''pending''"
      and "a = None \<longrightarrow> c = \<lparr>cc_command_id = i, cc_command_type = ty, cc_memory_space_id = sp,
        cc_idempotency_key = k, cc_payload_json = p, cc_payload_digest = d, cc_status = ''pending'',
        cc_attempts = 0, cc_available_at = isoformat now, cc_lease_expires_at = None, cc_claimed_by = None,
        cc_completed_at = None, cc_result_json = None, cc_last_error_code = None,
        cc_last_error_detail = None, cc_created_at = isoformat now\<rparr>"
proof (cases "get_core_command_by_idempotency sp k db")
  case None
  then obtain x where x: "sql_insert_core_command x db = Inr db'" "get_core_command i db' = Some c"
    "command_content x = (i, ty, sp, k, p, d)" "cc_status x = ''pending''"
    "a = None \<longrightarrow> x = \<lparr>cc_command_id = i, cc_command_type = ty, cc_memory_space_id = sp,
      cc_idempotency_key = k, cc_payload_json = p, cc_payload_digest = d, cc_status = ''pending'',
      cc_attempts = 0, cc_available_at = isoformat now, cc_lease_expires_at = None, cc_claimed_by = None,
      cc_completed_at = None, cc_result_json = None, cc_last_error_code = None,
      cc_last_error_detail = None, cc_created_at = isoformat now\<rparr>"
    using assms by (auto simp: create_core_command_def res_simps Let_def command_content_def
        split: option.splits)
  then have "x = c" using sql_insert_core_command_get [OF x(1)] by (simp add: command_content_def)
  then show ?thesis using x None new by blast
next
  case (Some x)
  then have "x = c" "db' = db" "cc_command_type c = ty" "cc_payload_json c = p" "cc_payload_digest c = d"
    using assms by (auto simp: create_core_command_def res_simps)
  then show ?thesis using Some by (intro existing) simp_all
qed

lemma create_core_command_result:
  assumes "db_wf db" and "create_core_command i ty sp k p d a now db = Inr (c, db')"
  shows "get_core_command (cc_command_id c) db' = Some c
    \<and> snd (command_content c) = (ty, sp, k, p, d)"
  using assms(2)
proof (cases rule: create_core_command_cases)
  case existing
  then show ?thesis
    using get_by_idempotency_iff [OF assms(1), of sp k c] command_by_id [OF assms(1), of c]
    by (simp add: command_content_def)
next
  case new
  then show ?thesis using sql_insert_core_command_get [OF new(2)] by simp
qed

text \<open>Emptying a list of payloads is one update of the rows whose identifier it names.\<close>

lemma emptied_row_simps [simp]:
  "pl_raw_round_id (emptied_row t p) = pl_raw_round_id p" "pl_deleted_at (emptied_row t p) = Some t"
  by (simp_all add: emptied_row_def)

lemma empty_payload_rows:
  "empty_payload t i db =
    (length (filter (\<lambda>p. pl_raw_round_id p = i \<and> pl_deleted_at p = None) (raw_round_payloads db)),
     db\<lparr>raw_round_payloads := map (\<lambda>p. if pl_raw_round_id p = i \<and> pl_deleted_at p = None
       then emptied_row t p else p) (raw_round_payloads db)\<rparr>)"
  by (simp add: empty_payload_def sql_update_def emptied_row_def)

lemma empty_payloads_rows:
  assumes "distinct is"
  shows "empty_payloads t is db =
    (length (filter (\<lambda>p. pl_raw_round_id p \<in> set is \<and> pl_deleted_at p = None) (raw_round_payloads db)),
     db\<lparr>raw_round_payloads := map (\<lambda>p. if pl_raw_round_id p \<in> set is \<and> pl_deleted_at p = None
       then emptied_row t p else p) (raw_round_payloads db)\<rparr>)"
  using assms
proof (induction "is" arbitrary: db)
  case Nil
  then show ?case by simp
next
  case (Cons i js)
  let ?p = "\<lambda>p. pl_raw_round_id p = i \<and> pl_deleted_at p = None"
  let ?q = "\<lambda>p. pl_raw_round_id p \<in> set js \<and> pl_deleted_at p = None"
  have split: "length (filter (\<lambda>p. ?p p \<or> ?q p) xs) = length (filter ?p xs) + length (filter ?q xs)"
    "length (filter ?q (map (\<lambda>p. if ?p p then emptied_row t p else p) xs)) = length (filter ?q xs)"
    for xs :: "raw_round_payload list"
    using Cons.prems by (induction xs) auto
  have both: "(pl_raw_round_id p \<in> set (i # js) \<and> pl_deleted_at p = None) = (?p p \<or> ?q p)" for p
    by auto
  show ?case
    using Cons.prems
    by (simp add: Cons.IH empty_payload_rows Let_def split both o_def del: list.set filter_map)
      (auto intro!: arg_cong [where f = length] filter_cong)
qed



lemma queue_db_wf: "db_wf queue_db"
  by (simp add: queue_db_def empty_db_def db_wf_def wf_spaces_def wf_rounds_def wf_payloads_def
      wf_commands_def wf_deliveries_def queued_command_def command_identity_def command_ok_def
      terminal_def terminal_statuses_def)

lemma retention_db_wf: "db_wf retention_db"
  by (simp add: db_wf_def retention_db_def wf_spaces_def wf_rounds_def wf_payloads_def wf_commands_def
      wf_deliveries_def sql_length_def stored_round_def stored_payload_def space_ids_def round_ids_def
      capture_identity_def payload_ok_def)


lemma leased_run:
  assumes "repo_run evs db db'" and "db_wf db" and "get_core_command i db = Some c"
    and "cc_status c = ''delivering''" and "cc_claimed_by c = Some w"
    and "cc_lease_expires_at c = Some e"
    and "EvFinish w \<notin> set evs" and "\<And>w' t. EvClaim w' t \<in> set evs \<Longrightarrow> \<not> e \<le> isoformat t"
  shows "get_core_command i db' = Some c"
  using assms(1,2,3,7,8)
proof (induction rule: repo_run.induct)
  case (run_cons ev db db1 evs db2)
  have "get_core_command i db1 = Some c"
    by (rule leased_step [OF run_cons.hyps(1) run_cons.prems(1,2) assms(4-6)])
      (use run_cons.prems(3,4) in auto)
  then show ?case
    using run_cons.IH db_wf_step [OF run_cons.hyps(1) run_cons.prems(1)] run_cons.prems(3,4)
    by auto
qed simp

lemma terminal_run:
  assumes "repo_run evs db db'" and "db_wf db" and "get_core_command i db = Some c" and "terminal c"
  shows "get_core_command i db' = Some c"
  using assms
proof (induction rule: repo_run.induct)
  case (run_cons ev db db1 evs db2)
  then show ?case using terminal_step db_wf_step by blast
qed simp

lemma finish_spec:
  assumes "db_wf db" and "finish_core_command i w st res ec ed delay now db = Inr (b, db')"
  shows "b \<longleftrightarrow> (\<exists>c. get_core_command i db = Some c \<and> cc_status c = ''delivering''
    \<and> cc_claimed_by c = Some w)" and "\<not> b \<Longrightarrow> db' = db"
proof -
  let ?p = "\<lambda>c. cc_command_id c = i \<and> cc_status c = ''delivering'' \<and> cc_claimed_by c = Some w"
  let ?f = "finish_row st (isoformat (now + delay)) (isoformat now) res ec ed"
  note fin = finish_core_command_db [OF assms(2)]
  have d: "distinct (map cc_command_id (core_commands db))"
    using assms(1) by (simp add: db_wf_def wf_commands_def)
  have none: "snd (sql_update ?p ?f (core_commands db)) = 0" if "\<not> (\<exists>c\<in>set (core_commands db). ?p c)"
    using that by (auto simp: sql_update_def filter_empty_conv)
  have some: "snd (sql_update ?p ?f (core_commands db)) = 1" if "c \<in> set (core_commands db)" "?p c" for c
    using sql_update_count_key [OF d that(1), of ?p ?f] that(2) by simp
  have get: "(\<exists>c. get_core_command i db = Some c \<and> cc_status c = ''delivering''
    \<and> cc_claimed_by c = Some w) \<longleftrightarrow> (\<exists>c\<in>set (core_commands db). ?p c)"
    using get_core_command_Some [of i db] command_by_id [OF assms(1)] by blast
  show "b \<longleftrightarrow> (\<exists>c. get_core_command i db = Some c \<and> cc_status c = ''delivering''
    \<and> cc_claimed_by c = Some w)"
    unfolding get fin(3) using none some by force
  assume "\<not> b"
  then have "snd (sql_update ?p ?f (core_commands db)) = 0" using fin(3) none some by fastforce
  from sql_update_count_0 [OF this] show "db' = db" by (simp add: fin(2))
qed

lemma length_filter_key:
  assumes "distinct (map k t)" and "distinct (map k xs)" and "set xs \<subseteq> set t"
  shows "length (filter (\<lambda>p. k p \<in> set (map k xs)) t) = length xs"
proof -
  have inj: "inj_on k (set t)" and dt: "distinct t" using assms(1) by (simp_all add: distinct_map)
  have "set (filter (\<lambda>p. k p \<in> set (map k xs)) t) = set xs"
    using assms(3) inj by (auto simp: inj_on_def subset_iff)
  then show ?thesis
    using dt assms(2) by (metis distinct_card distinct_filter distinct_map)
qed

lemma purge_rows:
  fixes db
  defines "t \<equiv> raw_round_payloads db"
  assumes "db_wf db"
    and "rows = take (nat (max limit 1)) (sql_order_by
      (\<lambda>p. case pl_retention_expires_at p of Some t \<Rightarrow> t | None \<Rightarrow> [])
      (filter (expired_payload (isoformat clock)) t))"
  shows "purge_expired None limit clock db = (length rows, db\<lparr>raw_round_payloads :=
      map (\<lambda>p. if p \<in> set rows then emptied_row (isoformat clock) p else p) t\<rparr>)"
    and "set rows \<subseteq> set t" and "\<And>p. p \<in> set rows \<Longrightarrow> expired_payload (isoformat clock) p"
    and "distinct rows"
proof -
  let ?k = "\<lambda>p. case pl_retention_expires_at p of Some t \<Rightarrow> t | None \<Rightarrow> []"
  have d: "distinct (map pl_raw_round_id t)"
    using assms(2) by (simp add: db_wf_def wf_payloads_def t_def)
  show sub: "set rows \<subseteq> set t"
    using set_take_subset [of "nat (max limit 1)" "sql_order_by ?k (filter (expired_payload (isoformat clock)) t)"]
    by (auto simp: assms(3))
  show ex: "expired_payload (isoformat clock) p" if "p \<in> set rows" for p
    using that unfolding assms(3) by (auto dest: in_set_takeD)
  have dr: "distinct (map pl_raw_round_id rows)"
    using d by (simp add: assms(3) sql_order_by_def take_map [symmetric] distinct_map_sort_key distinct_map_filter)
  then show "distinct rows" by (simp add: distinct_map)
  have mem: "pl_raw_round_id p \<in> set (map pl_raw_round_id rows) \<and> pl_deleted_at p = None \<longleftrightarrow> p \<in> set rows"
    if "p \<in> set t" for p
    using that d sub ex by (auto simp: distinct_map inj_on_def expired_payload_def subset_iff)
  have cnt: "length (filter (\<lambda>p. pl_raw_round_id p \<in> set (map pl_raw_round_id rows)
      \<and> pl_deleted_at p = None) t) = length rows"
  proof -
    have "filter (\<lambda>p. pl_raw_round_id p \<in> set (map pl_raw_round_id rows) \<and> pl_deleted_at p = None) t
      = filter (\<lambda>p. pl_raw_round_id p \<in> set (map pl_raw_round_id rows)) t"
      using d sub ex by (intro filter_cong) (auto simp: distinct_map inj_on_def expired_payload_def subset_iff)
    then show ?thesis using length_filter_key [OF d dr sub] by simp
  qed
  show "purge_expired None limit clock db = (length rows, db\<lparr>raw_round_payloads :=
      map (\<lambda>p. if p \<in> set rows then emptied_row (isoformat clock) p else p) t\<rparr>)"
    unfolding purge_expired_def Let_def option.case assms(3) [unfolded t_def, symmetric]
      empty_payloads_rows [OF dr] cnt [unfolded t_def]
    using mem by (simp add: t_def)
qed



lemma queue_db_claim:
  "claim_core_command w l 0 queue_db =
    (Some (claim_row (isoformat (max l (microseconds 1))) w (queued_command ''a'')),
     queue_db\<lparr>core_commands := [queued_command ''b'',
       claim_row (isoformat (max l (microseconds 1))) w (queued_command ''a'')]\<rparr>)"
proof -
  have "\<exists>x\<in>set (core_commands queue_db). claimable (isoformat 0) x"
    by (simp add: queue_db_def claimable_def queued_command_def)
  then obtain c where c: "c \<in> set (core_commands queue_db)"
      "\<And>x. x \<in> set (core_commands queue_db) \<Longrightarrow> claimable (isoformat 0) x \<Longrightarrow>
        (cc_available_at c, cc_command_id c) \<le> (cc_available_at x, cc_command_id x)"
      "claim_core_command w l 0 queue_db = (Some (claim_row (isoformat (0 + max l (microseconds 1))) w c),
         queue_db\<lparr>core_commands := map (\<lambda>x. if x = c then
           claim_row (isoformat (0 + max l (microseconds 1))) w c else x) (core_commands queue_db)\<rparr>)"
    by (rule claim_Some [OF queue_db_wf, of 0 w l]) blast
  have "cc_command_id c \<le> ''a''"
    using c(2) [of "queued_command ''a''"] by (simp add: queue_db_def claimable_def queued_command_def)
  moreover have "c = queued_command ''b'' \<or> c = queued_command ''a''"
    using c(1) by (simp add: queue_db_def)
  ultimately have "c = queued_command ''a''" by (auto simp: queued_command_def less_eq_char_def)
  moreover have "queued_command ''b'' \<noteq> queued_command ''a''" by (simp add: queued_command_def)
  ultimately show ?thesis using c(3) by (simp add: queue_db_def)
qed

section \<open>Properties\<close>

text \<open>
  C1. Whatever the repositories are asked to do, in whatever order, from an empty database:
  primary keys and UNIQUE columns stay distinct, foreign keys resolve, CHECK constraints hold,
  emptied payloads hold the empty object, and every Core command is in a legal state of its
  life cycle (leased and owned exactly while it is delivered, completed exactly when terminal).
\<close>

theorem repositories_keep_integrity:
  assumes "repo_any_step\<^sup>*\<^sup>* empty_db db"
  shows "db_wf db"
  using assms db_wf_empty by (rule rounds_integrity.inv_steps)

theorem repositories_keep_integrity_witness:
  "db_wf (insert_or_ignore_memory_space \<lparr>ms_memory_space_id = ''m'', ms_display_name = None,
     ms_source_client = ''c'', ms_created_at = isoformat 0, ms_updated_at = isoformat 0\<rparr> empty_db)"
proof (rule repositories_keep_integrity)
  let ?r = "\<lparr>ms_memory_space_id = ''m'', ms_display_name = None,
     ms_source_client = ''c'', ms_created_at = isoformat 0, ms_updated_at = isoformat 0\<rparr>"
  have "ensure_memory_space ''m'' ''c'' None 0 empty_db
      = Inr (?r, insert_or_ignore_memory_space ?r empty_db)"
    by (simp add: ensure_memory_space_def insert_or_ignore_memory_space_def get_memory_space_def
        empty_db_def sql_length_def Let_def)
  then have "repo_any_step empty_db (insert_or_ignore_memory_space ?r empty_db)"
    unfolding repo_any_step_def by (blast intro: step_ensure_space)
  then show "repo_any_step\<^sup>*\<^sup>* empty_db (insert_or_ignore_memory_space ?r empty_db)" by blast
qed



text \<open>
  C3. Lease exclusivity. Once a worker has claimed a command, no sequence of repository calls
  by other workers touches it while the lease runs: every claim, by any worker, at an instant
  before the second in which the lease expires leaves the row as it was claimed, and so does
  every completion by another worker.
\<close>

theorem lease_exclusive:
  assumes "db_wf db" and "claim_core_command w l now db = (Some r, db1)" and "repo_run evs db1 db2"
    and "EvFinish w \<notin> set evs"
    and "\<And>w' t. EvClaim w' t \<in> set evs \<Longrightarrow>
      t < datetime_end \<and> t div 1000000 < (now + max l (microseconds 1)) div 1000000"
    and "now + max l (microseconds 1) < datetime_end"
  shows "get_core_command (cc_command_id r) db2 = Some r
    \<and> cc_claimed_by r = Some w \<and> cc_status r = ''delivering''"
proof -
  let ?e = "isoformat (now + max l (microseconds 1))"
  obtain c where r: "r = claim_row ?e w c" by (rule claim_Some_row [OF assms(1,2)])
  have row: "cc_status r = ''delivering''" "cc_claimed_by r = Some w" "cc_lease_expires_at r = Some ?e"
    by (simp_all add: r claim_row_def)
  have early: "\<not> ?e \<le> isoformat t" if "EvClaim w' t \<in> set evs" for w' t
    using assms(5) [OF that] isoformat_le_iff [OF assms(6), of t] by simp
  have "get_core_command (cc_command_id r) db2 = Some r"
    using assms(3) db_wf_claim [OF assms(2,1)] get_core_command_claimed [OF assms(1,2)] row assms(4) early
    by (rule leased_run)
  with row show ?thesis by simp
qed

theorem lease_exclusive_witness:
  "get_core_command ''a'' (snd (claim_core_command ''v'' 0 (microseconds 299)
     (snd (claim_core_command ''w'' (microseconds 300) 0 queue_db))))
   = Some (claim_row (isoformat (microseconds 300)) ''w'' (queued_command ''a''))"
proof -
  let ?db1 = "snd (claim_core_command ''w'' (microseconds 300) 0 queue_db)"
  let ?c2 = "claim_core_command ''v'' 0 (microseconds 299) ?db1"
  have c: "claim_core_command ''w'' (microseconds 300) 0 queue_db
      = (Some (claim_row (isoformat (microseconds 300)) ''w'' (queued_command ''a'')), ?db1)"
    using queue_db_claim [of "''w''" "microseconds 300"] by (simp add: microseconds_def)
  have "repo_run [EvClaim ''v'' (microseconds 299)] ?db1 (snd ?c2)"
    by (rule run_cons [OF step_claim [of _ 0 _ _ "fst ?c2"] run_nil]) simp
  from lease_exclusive [OF queue_db_wf c this]
  show ?thesis by (simp add: microseconds_def before_datetime_end queued_command_def)
qed

text \<open>
  Only the worker that holds the claim finishes a command: for it the call returns true and
  writes the outcome into that row and no other; for everyone else, and for a command that is not
  being delivered, it returns false and changes nothing.
\<close>

theorem finish_core_command_spec:
  assumes "db_wf db" and "finish_core_command i w st res ec ed delay now db = Inr (b, db')"
  shows "if \<exists>c. get_core_command i db = Some c \<and> cc_status c = ''delivering'' \<and> cc_claimed_by c = Some w
    then b \<and> get_core_command i db' = map_option
        (finish_row st (isoformat (now + delay)) (isoformat now) res ec ed) (get_core_command i db)
      \<and> (\<forall>j. j \<noteq> i \<longrightarrow> get_core_command j db' = get_core_command j db)
    else \<not> b \<and> db' = db"
proof -
  have "get_core_command j db' = get_core_command j db" if "j \<noteq> i" for j
    unfolding finish_core_command_db(2) [OF assms(2)]
    using that get_core_command_Some [of j db]
    by (cases "get_core_command j db") (auto simp: get_core_command_update)
  then show ?thesis
    using finish_spec [OF assms] step_finish_get [OF assms(2), of i] by auto
qed

theorem finish_core_command_spec_witness:
  "finish_core_command ''a'' ''v'' ''completed'' None None None 0 0
     (snd (claim_core_command ''w'' 0 0 queue_db))
   = Inr (False, snd (claim_core_command ''w'' 0 0 queue_db))"
proof -
  let ?db1 = "snd (claim_core_command ''w'' 0 0 queue_db)"
  have c: "claim_core_command ''w'' 0 0 queue_db = (fst (claim_core_command ''w'' 0 0 queue_db), ?db1)"
    by simp
  obtain b db2 where fin: "finish_core_command ''a'' ''v'' ''completed'' None None None 0 0 ?db1 = Inr (b, db2)"
    by (simp add: finish_core_command_def finish_statuses_def prod.case_eq_if Let_def)
  have "get_core_command ''a'' ?db1 =
      Some (claim_row (isoformat (microseconds 1)) ''w'' (queued_command ''a''))"
    using queue_db_claim [of "''w''" 0] by (simp add: get_core_command_def queued_command_def claim_row_def)
  then show ?thesis
    using finish_core_command_spec [OF db_wf_claim [OF c queue_db_wf] fin] fin
    by (simp add: claim_row_def)
qed


text \<open>No sequence of repository calls changes any column of a terminal command.\<close>

lemma terminal_commands_stay:
  assumes "db_wf db" and "get_core_command i db = Some c" and "terminal c" and "repo_run evs db db'"
  shows "get_core_command i db' = Some c"
  using assms(4,1-3) by (rule terminal_run)

text \<open>
  Enqueueing is idempotent. After a command was created, and whatever happened to it since,
  creating it again under the same memory space and idempotency key changes nothing: it returns
  the command created first when the content is the same, and raises when it differs.
\<close>

lemma create_core_command_idempotent:
  assumes "db_wf db" and "create_core_command i ty sp k p d a now db = Inr (c, db1)"
    and "repo_run evs db1 db2" and "\<not> blank ty'" and "prefix ''sha256:'' d'"
  shows "if (ty', p', d') = (ty, p, d)
    then \<exists>c'. create_core_command i' ty' sp k p' d' a' now' db2 = Inr (c', db2)
      \<and> cc_command_id c' = cc_command_id c
    else create_core_command i' ty' sp k p' d' a' now' db2
      = Inl (ValueError ''core command payload conflict'')"
proof -
  note res = create_core_command_result [OF assms(1,2)]
  have "db_wf db2" using db_wf_run [OF assms(3)] db_wf_create_command [OF assms(2,1)] .
  moreover obtain c' where c': "get_core_command (cc_command_id c) db2 = Some c'"
    "command_content c' = command_content c"
    using content_run [OF assms(3)] res by blast
  ultimately have "get_core_command_by_idempotency sp k db2 = Some c'"
    using get_by_idempotency_iff get_core_command_Some [OF c'(1)] res
    by (simp add: command_content_def)
  then show ?thesis
    using assms(4,5) c'(2) res
    by (auto simp: create_core_command_def res_simps command_content_def)
qed

theorem create_core_command_idempotent_witness:
  "create_core_command ''z'' ''t'' ''m'' ''k'' ''{}'' ''sha256:0'' None 7
     (snd (projr (create_core_command ''x'' ''t'' ''m'' ''k'' ''[]'' ''sha256:0'' None 5 empty_db)))
   = Inl (ValueError ''core command payload conflict'')"
proof -
  obtain c db1 where c: "create_core_command ''x'' ''t'' ''m'' ''k'' ''[]'' ''sha256:0'' None 5 empty_db
      = Inr (c, db1)"
    by (simp add: create_core_command_def sql_insert_core_command_def get_core_command_by_idempotency_def
        get_core_command_def empty_db_def Let_def blank_iff ascii_space_def)
  from create_core_command_idempotent [OF db_wf_empty c run_nil, of "''t''" "''sha256:0''" "''{}''"]
  show ?thesis by (simp add: c blank_iff ascii_space_def)
qed

text \<open>
  A purge empties at most the given number of payloads, and only payloads that have expired
  and are not yet emptied: the ones that expired first. It returns how many it emptied, and it
  changes nothing else in the database. It leaves an expired payload only when the limit is used up.
\<close>

theorem purge_expired_spec:
  assumes "db_wf db"
  shows "\<exists>rows. purge_expired None limit clock db = (length rows, db\<lparr>raw_round_payloads :=
       map (\<lambda>p. if p \<in> set rows then emptied_row (isoformat clock) p else p) (raw_round_payloads db)\<rparr>)
    \<and> distinct rows \<and> set rows \<subseteq> {p \<in> set (raw_round_payloads db). expired_payload (isoformat clock) p}
    \<and> length rows = min (nat (max limit 1))
        (length (filter (expired_payload (isoformat clock)) (raw_round_payloads db)))
    \<and> (\<forall>p\<in>set rows. \<forall>q\<in>set (raw_round_payloads db) - set rows. expired_payload (isoformat clock) q \<longrightarrow>
         the (pl_retention_expires_at p) \<le> the (pl_retention_expires_at q))"
proof -
  let ?k = "\<lambda>p. case pl_retention_expires_at p of Some t \<Rightarrow> t | None \<Rightarrow> []"
  let ?ex = "filter (expired_payload (isoformat clock)) (raw_round_payloads db)"
  let ?q = "sql_order_by ?k ?ex" and ?n = "nat (max limit 1)"
  note rows = purge_rows [OF assms refl, where limit = limit and clock = clock]
  have early: "the (pl_retention_expires_at p) \<le> the (pl_retention_expires_at q)"
    if "p \<in> set (take ?n ?q)" "q \<in> set ?ex" "q \<notin> set (take ?n ?q)" for p q
  proof -
    have "sorted (map ?k ?q)" by (simp add: sql_order_by_def)
    then have "sorted (map ?k (take ?n ?q) @ map ?k (drop ?n ?q))"
      by (simp only: map_append [symmetric] append_take_drop_id)
    moreover have "q \<in> set (drop ?n ?q)"
      using that(2,3) by (metis Un_iff append_take_drop_id set_append sql_order_by_set)
    ultimately have "?k p \<le> ?k q" using that(1) by (auto simp: sorted_append)
    moreover have "expired_payload (isoformat clock) p" using rows(3) that(1) by blast
    ultimately show ?thesis using that(2) by (auto simp: expired_payload_def split: option.splits)
  qed
  have len: "length (take ?n ?q) = min ?n (length ?ex)" by (simp add: sql_order_by_def)
  show ?thesis
  proof (intro exI [of _ "take ?n ?q"] conjI ballI impI)
    show "set (take ?n ?q) \<subseteq> {p \<in> set (raw_round_payloads db). expired_payload (isoformat clock) p}"
      using rows(2,3) by blast
    show "the (pl_retention_expires_at p) \<le> the (pl_retention_expires_at q)"
      if "p \<in> set (take ?n ?q)" "q \<in> set (raw_round_payloads db) - set (take ?n ?q)"
        "expired_payload (isoformat clock) q" for p q
      using early that by simp
  qed (fact rows(1,4) len)+
qed

theorem purge_expired_spec_witness:
  "fst (purge_expired None 1 0 retention_db) = 1"
  using purge_expired_spec [OF retention_db_wf, of 1 0]
  by (auto simp: retention_db_def expired_payload_def stored_payload_def)


text \<open>
  A delivery put off with a delay is claimable again from the second in which the delay ends
  and not before it: a retried command is never lost and never early.
\<close>

lemma retry_due_after_delay:
  assumes "db_wf db" and "finish_core_command i w ''retry_wait'' res ec ed delay now db = Inr (True, db')"
    and "now + delay < datetime_end" and "t < datetime_end"
  shows "\<exists>c. get_core_command i db' = Some c \<and>
    (claimable (isoformat t) c \<longleftrightarrow> (now + delay) div 1000000 \<le> t div 1000000)"
proof -
  obtain x where x: "get_core_command i db = Some x" "cc_status x = ''delivering''" "cc_claimed_by x = Some w"
    using finish_spec(1) [OF assms(1,2)] by blast
  show ?thesis
    using step_finish_get [OF assms(2) x(1)] x(2,3) isoformat_le_iff [OF assms(3,4)]
    by (simp add: finish_row_def claimable_def)
qed

theorem retry_due_after_delay_witness:
  "\<exists>c. get_core_command ''a'' (snd (projr (finish_core_command ''a'' ''w'' ''retry_wait'' None None None
      (microseconds 5) 0 (snd (claim_core_command ''w'' 0 0 queue_db))))) = Some c
    \<and> \<not> claimable (isoformat (microseconds 4)) c"
proof -
  let ?db = "snd (claim_core_command ''w'' 0 0 queue_db)"
  have wf: "db_wf ?db" by (rule db_wf_claim [OF prod.collapse [symmetric] queue_db_wf])
  obtain db' where fin: "finish_core_command ''a'' ''w'' ''retry_wait'' None None None (microseconds 5) 0 ?db
      = Inr (True, db')"
    by (simp add: queue_db_claim finish_core_command_def finish_statuses_def Let_def prod.case_eq_if
        sql_update_def queued_command_def claim_row_def)
  show ?thesis
    using retry_due_after_delay [OF wf fin, of "microseconds 4"] fin
    by (simp add: microseconds_def before_datetime_end)
qed

end
