(* ===== verification/Uow.thy ===== *)
theory Uow
  imports Prelude
begin

text \<open>
  The unit of work of \<^verbatim>\<open>persistence/sqlite_uow.py\<close>: one connection, one transaction.

  The state holds the committed content of the file, the content the open connection sees
  (\<open>None\<close> when there is no connection) and the flag \<^verbatim>\<open>_committed\<close>. Writers take
  \<^verbatim>\<open>BEGIN IMMEDIATE\<close>, which SQLite grants to one connection at a time, so a transaction starts
  from the committed content. What a connection changed and did not commit is lost when it
  closes: the connections use the default implicit transactions of \<^verbatim>\<open>sqlite3\<close>.

  A program over a unit of work returns its result or the exception it raised, with the state
  in which it did so.
\<close>

record 'db uow =
  uow_file :: 'db
  uow_connection :: "'db option"
  uow_committed :: bool

type_synonym ('db, 'a) uow_prog = "'db uow \<Rightarrow> 'a res \<times> 'db uow"

definition new_uow :: "'db \<Rightarrow> 'db uow" where
  "new_uow db = \<lparr>uow_file = db, uow_connection = None, uow_committed = False\<rparr>"

definition closed_error_message :: string where
  "closed_error_message = ''sqlite unit of work is not active''"

definition uow_enter :: "'db uow \<Rightarrow> 'db uow" where
  "uow_enter u = (case uow_connection u of
      Some _ \<Rightarrow> u
    | None \<Rightarrow> u\<lparr>uow_connection := Some (uow_file u), uow_committed := False\<rparr>)"

definition uow_rollback :: "'db uow \<Rightarrow> 'db uow" where
  "uow_rollback u = (case uow_connection u of
      None \<Rightarrow> u
    | Some _ \<Rightarrow> if uow_committed u then u else u\<lparr>uow_connection := Some (uow_file u)\<rparr>)"

definition uow_disconnect :: "'db uow \<Rightarrow> 'db uow" where
  "uow_disconnect u = (case uow_connection u of
      None \<Rightarrow> u
    | Some _ \<Rightarrow> u\<lparr>uow_connection := None, uow_committed := False\<rparr>)"

definition uow_exit :: "bool \<Rightarrow> 'db uow \<Rightarrow> 'db uow" where
  "uow_exit raised u = uow_disconnect
     (if \<not> raised then (if \<not> uow_committed u then uow_rollback u else u) else uow_rollback u)"

definition uow_commit :: "('db, unit) uow_prog" where
  "uow_commit u = (case uow_connection u of
      None \<Rightarrow> (Inl (SQLiteUnitOfWorkInactiveError closed_error_message), u)
    | Some db \<Rightarrow>
        if uow_committed u then (Inl (SQLiteUnitOfWorkError ''commit already called''), u)
        else (Inr (), u\<lparr>uow_file := db, uow_committed := True\<rparr>))"

text \<open>
  A repository call through the properties \<^verbatim>\<open>raw_rounds\<close>, \<^verbatim>\<open>memory_spaces\<close> or \<^verbatim>\<open>connection\<close>, which
  raise outside a transaction.
\<close>

definition uow_call :: "('db \<Rightarrow> ('a \<times> 'db) res) \<Rightarrow> ('db, 'a) uow_prog" where
  "uow_call f u = (case uow_connection u of
      None \<Rightarrow> (Inl (SQLiteUnitOfWorkInactiveError closed_error_message), u)
    | Some db \<Rightarrow>
       (case f db of Inl e \<Rightarrow> (Inl e, u) | Inr (x, db') \<Rightarrow> (Inr x, u\<lparr>uow_connection := Some db'\<rparr>)))"

definition ubind :: "('db, 'a) uow_prog \<Rightarrow> ('a \<Rightarrow> ('db, 'b) uow_prog) \<Rightarrow> ('db, 'b) uow_prog" where
  "ubind m f u = (case m u of (Inl e, u') \<Rightarrow> (Inl e, u') | (Inr x, u') \<Rightarrow> f x u')"

definition ureturn :: "'a \<Rightarrow> ('db, 'a) uow_prog" where
  "ureturn x u = (Inr x, u)"

definition uraise :: "exn \<Rightarrow> ('db, 'a) uow_prog" where
  "uraise e u = (Inl e, u)"

text \<open>\<^verbatim>\<open>with SQLiteUnitOfWork(...) as uow: body\<close> on a file.\<close>

definition with_uow :: "('db, 'a) uow_prog \<Rightarrow> 'db \<Rightarrow> 'a res \<times> 'db" where
  "with_uow body db =
     (let (r, u) = body (uow_enter (new_uow db)) in (r, uow_file (uow_exit (isl r) u)))"

text \<open>
  The operations a body can perform, in any order, up to the first that raises; and what they
  promise: the file takes the content at the first successful commit and is otherwise as before.
\<close>

datatype 'db uow_op = Call "'db \<Rightarrow> 'db res" | Commit | Rollback

fun run_ops :: "'db uow_op list \<Rightarrow> ('db, unit) uow_prog" where
  "run_ops [] = ureturn ()"
| "run_ops (Call f # ops) =
     ubind (uow_call (\<lambda>db. rbind (f db) (\<lambda>db'. Inr ((), db')))) (\<lambda>_. run_ops ops)"
| "run_ops (Commit # ops) = ubind uow_commit (\<lambda>_. run_ops ops)"
| "run_ops (Rollback # ops) = (\<lambda>u. run_ops ops (uow_rollback u))"

fun committed_content :: "'db uow_op list \<Rightarrow> 'db \<Rightarrow> 'db \<Rightarrow> 'db" where
  "committed_content [] db file = file"
| "committed_content (Call f # ops) db file =
     (case f db of Inl _ \<Rightarrow> file | Inr db' \<Rightarrow> committed_content ops db' file)"
| "committed_content (Commit # ops) db file = db"
| "committed_content (Rollback # ops) db file = committed_content ops file file"

text \<open>The states of a unit of work between its entry and its commit, and after it.\<close>

definition opened :: "'db \<Rightarrow> 'db \<Rightarrow> 'db uow" where
  "opened file db = \<lparr>uow_file = file, uow_connection = Some db, uow_committed = False\<rparr>"

definition finished :: "'db \<Rightarrow> 'db uow" where
  "finished db = \<lparr>uow_file = db, uow_connection = Some db, uow_committed = True\<rparr>"

section \<open>The scope as an interface\<close>

text \<open>
  What the services rely on: entering starts from the stored content, leaving stores nothing
  and ends the scope, a call stores nothing.
\<close>

locale transaction_scope =
  fixes enter :: "'u \<Rightarrow> 'u" and leave :: "bool \<Rightarrow> 'u \<Rightarrow> 'u"
    and call :: "('db \<Rightarrow> ('a \<times> 'db) res) \<Rightarrow> 'u \<Rightarrow> 'a res \<times> 'u"
    and stored :: "'u \<Rightarrow> 'db" and seen :: "'u \<Rightarrow> 'db option"
  assumes enter_stored: "stored (enter u) = stored u"
    and enter_seen: "seen u = None \<Longrightarrow> seen (enter u) = Some (stored u)"
    and leave_stored: "stored (leave b u) = stored u"
    and leave_seen: "seen (leave b u) = None"
    and call_stored: "stored (snd (call f u)) = stored u"
    and call_seen: "seen u = Some db \<Longrightarrow> f db = Inr (x, db') \<Longrightarrow>
      fst (call f u) = Inr x \<and> seen (snd (call f u)) = Some db'"
    and call_raises: "seen u = Some db \<Longrightarrow> f db = Inl e \<Longrightarrow> call f u = (Inl e, u)"
begin

text \<open>A scope that only calls, and never commits, leaves the stored content alone.\<close>

lemma calls_store_nothing:
  "stored (leave b (foldl (\<lambda>u f. snd (call f u)) (enter u) fs)) = stored u"
proof -
  have "stored (foldl (\<lambda>u f. snd (call f u)) v fs) = stored v" for v
    by (induction fs arbitrary: v) (simp_all add: call_stored)
  then show ?thesis by (simp add: leave_stored enter_stored)
qed

end

interpretation sqlite_scope: transaction_scope uow_enter uow_exit uow_call uow_file uow_connection
  by unfold_locales
    (auto simp: uow_enter_def uow_exit_def uow_disconnect_def uow_rollback_def uow_call_def
      split: option.splits sum.splits)

section \<open>Laws\<close>

named_theorems uow_simps "evaluation of programs over an open unit of work"

lemma enter_new [uow_simps]: "uow_enter (new_uow db) = opened db db"
  by (simp add: uow_enter_def new_uow_def opened_def)

lemma call_opened [uow_simps]:
  "uow_call f (opened file db) =
     (case f db of Inl e \<Rightarrow> (Inl e, opened file db) | Inr (x, db') \<Rightarrow> (Inr x, opened file db'))"
  by (simp add: uow_call_def opened_def split: sum.splits prod.splits)

lemma commit_opened [uow_simps]: "uow_commit (opened file db) = (Inr (), finished db)"
  by (simp add: uow_commit_def opened_def finished_def)

lemma commit_finished [uow_simps]:
  "uow_commit (finished db) = (Inl (SQLiteUnitOfWorkError ''commit already called''), finished db)"
  by (simp add: uow_commit_def finished_def)

lemma rollback_opened [uow_simps]: "uow_rollback (opened file db) = opened file file"
  by (simp add: uow_rollback_def opened_def)

lemma ubind_ureturn [uow_simps]: "ubind (ureturn x) f u = f x u"
  by (simp add: ubind_def ureturn_def)

lemma ubind_uraise [uow_simps]: "ubind (uraise e) f u = (Inl e, u)"
  by (simp add: ubind_def uraise_def)

lemma ubind_commit_opened [uow_simps]:
  "ubind uow_commit f (opened file db) = f () (finished db)"
  by (simp add: ubind_def commit_opened)

lemma ubind_call_opened [uow_simps]:
  "ubind (uow_call g) f (opened file db) =
     (case g db of Inl e \<Rightarrow> (Inl e, opened file db) | Inr (x, db') \<Rightarrow> f x (opened file db'))"
  by (simp add: ubind_def call_opened split: sum.splits prod.splits)

lemma exit_file [simp]: "uow_file (uow_exit b u) = uow_file u"
  by (rule sqlite_scope.leave_stored)

lemma opened_file [simp]: "uow_file (opened file db) = file"
  by (simp add: opened_def)

lemma finished_file [simp]: "uow_file (finished db) = db"
  by (simp add: finished_def)

lemma with_uow_opened: "with_uow body db = (fst (body (opened db db)), uow_file (snd (body (opened db db))))"
  by (simp add: with_uow_def enter_new prod.case_eq_if)

text \<open>The common shape of the services: one call, then a commit.\<close>

lemma with_uow_call_commit:
  "with_uow (ubind (uow_call f) (\<lambda>x. ubind uow_commit (\<lambda>_. ureturn (g x)))) db =
     (case f db of Inl e \<Rightarrow> (Inl e, db) | Inr (x, db') \<Rightarrow> (Inr (g x), db'))"
  by (simp add: with_uow_opened uow_simps ureturn_def split: sum.splits prod.splits)

text \<open>After the first commit no operation reaches the file again.\<close>

lemma ubind_file:
  assumes "uow_file (snd (m u)) = uow_file u"
    and "\<And>x u'. m u = (Inr x, u') \<Longrightarrow> uow_file (snd (f x u')) = uow_file u'"
  shows "uow_file (snd (ubind m f u)) = uow_file u"
proof (cases "m u")
  case (Pair r u')
  then show ?thesis using assms by (cases r) (auto simp: ubind_def)
qed

lemma run_ops_committed: "uow_committed u \<Longrightarrow> uow_file (snd (run_ops ops u)) = uow_file u"
proof (induction ops arbitrary: u rule: run_ops.induct)
  case (2 f ops)
  let ?g = "\<lambda>db. rbind (f db) (\<lambda>db'. Inr ((), db'))"
  have keep: "uow_committed u'" if "uow_call ?g u = (Inr x, u')" for x u'
    using that "2.prems" by (auto simp: uow_call_def split: option.splits sum.splits)
  show ?case unfolding run_ops.simps
    by (rule ubind_file) (use sqlite_scope.call_stored [of ?g u] "2.IH" keep in auto)
next
  case (3 ops)
  have "uow_file (snd (uow_commit u)) = uow_file u" "\<nexists>x u'. uow_commit u = (Inr x, u')"
    using "3.prems" by (simp_all add: uow_commit_def split: option.splits)
  then show ?case unfolding run_ops.simps by (intro ubind_file) auto
next
  case (4 ops)
  then show ?case by (simp add: uow_rollback_def split: option.splits)
qed (simp add: ureturn_def)

lemma run_ops_opened: "uow_file (snd (run_ops ops (opened f0 db))) = committed_content ops db f0"
proof (induction ops db f0 rule: committed_content.induct)
  case (3 ops db f0)
  then show ?case by (simp add: uow_simps run_ops_committed finished_def)
qed (simp_all add: uow_simps ureturn_def split: sum.splits)

section \<open>Properties\<close>

text \<open>
  C9. A unit of work is atomic. Whatever sequence of repository calls, commits and rollbacks its
  body performs, and wherever it raises, the file afterwards is exactly the content at the first
  commit that was reached, and is untouched when none was.
\<close>

theorem unit_of_work_atomic:
  "snd (with_uow (run_ops ops) db) = committed_content ops db db"
  by (simp add: with_uow_opened run_ops_opened)

end
