(* ===== verification/Sha256.thy ===== *)
theory Sha256
  imports Prelude "HOL-Library.Word"
begin

text \<open>
  The part of \<^verbatim>\<open>hashlib\<close> the code uses: \<^verbatim>\<open>hashlib.sha256(data).hexdigest()\<close>, after FIPS 180-4, on
  32-bit words. A byte is a \<open>char\<close>, as in a text.
\<close>

unbundle bit_operations_syntax

type_synonym w32 = "32 word"

text \<open>
  The constants of the standard: the first 32 bits of the fractional parts of the cube roots of the
  first 64 primes, and of the square roots of the first 8. \<open>root_bits\<close> finds the largest number
  whose k-th power is at most n, bit by bit.
\<close>

definition small_primes :: "nat list" where
  "small_primes = filter (\<lambda>p. list_all (\<lambda>d. p mod d \<noteq> 0) [2..<p]) [2..<312]"

fun root_bits :: "nat \<Rightarrow> nat \<Rightarrow> nat \<Rightarrow> nat \<Rightarrow> nat" where
  "root_bits k n 0 r = r"
| "root_bits k n (Suc b) r = root_bits k n b (if (r + 2 ^ b) ^ k \<le> n then r + 2 ^ b else r)"

definition round_constants :: "w32 list" where
  "round_constants = map (\<lambda>p. word_of_nat (root_bits 3 (p * 2 ^ 96) 36 0)) small_primes"

definition initial_state :: "w32 list" where
  "initial_state = map (\<lambda>p. word_of_nat (root_bits 2 (p * 2 ^ 64) 36 0)) [2, 3, 5, 7, 11, 13, 17, 19]"

lemma root_bits_le: "r ^ k \<le> n \<Longrightarrow> root_bits k n b r ^ k \<le> n"
  by (induction b arbitrary: r) simp_all

definition rotr :: "nat \<Rightarrow> w32 \<Rightarrow> w32" where
  "rotr n x = drop_bit n x OR push_bit (32 - n) x"

definition big_sigma0 :: "w32 \<Rightarrow> w32" where
  "big_sigma0 x = rotr 2 x XOR rotr 13 x XOR rotr 22 x"

definition big_sigma1 :: "w32 \<Rightarrow> w32" where
  "big_sigma1 x = rotr 6 x XOR rotr 11 x XOR rotr 25 x"

definition small_sigma0 :: "w32 \<Rightarrow> w32" where
  "small_sigma0 x = rotr 7 x XOR rotr 18 x XOR drop_bit 3 x"

definition small_sigma1 :: "w32 \<Rightarrow> w32" where
  "small_sigma1 x = rotr 17 x XOR rotr 19 x XOR drop_bit 10 x"

definition ch :: "w32 \<Rightarrow> w32 \<Rightarrow> w32 \<Rightarrow> w32" where
  "ch x y z = (x AND y) XOR (NOT x AND z)"

definition maj :: "w32 \<Rightarrow> w32 \<Rightarrow> w32 \<Rightarrow> w32" where
  "maj x y z = (x AND y) XOR (x AND z) XOR (y AND z)"

definition padded :: "char list \<Rightarrow> char list" where
  "padded m = (let l = length m in
     m @ char_of (128::nat) # replicate ((119 - l mod 64) mod 64) (char_of (0::nat)) @ be_bytes 8 (8 * l))"

fun word_of_bytes :: "char list \<Rightarrow> w32" where
  "word_of_bytes [] = 0"
| "word_of_bytes cs = push_bit 8 (word_of_bytes (butlast cs)) OR word_of_nat (of_char (last cs))"

fun chunks :: "nat \<Rightarrow> nat \<Rightarrow> 'a list \<Rightarrow> 'a list list" where
  "chunks n 0 xs = []"
| "chunks n (Suc k) xs = take n xs # chunks n k (drop n xs)"

fun schedule :: "nat \<Rightarrow> w32 list \<Rightarrow> w32 list" where
  "schedule 0 w = w"
| "schedule (Suc k) w = (let n = length w in
     schedule k (w @ [small_sigma1 (w ! (n - 2)) + w ! (n - 7) + small_sigma0 (w ! (n - 15)) + w ! (n - 16)]))"

fun compress_round :: "w32 list \<Rightarrow> w32 \<times> w32 \<Rightarrow> w32 list" where
  "compress_round [a, b, c, d, e, f, g, h] (k, w) =
     (let t1 = h + big_sigma1 e + ch e f g + k + w; t2 = big_sigma0 a + maj a b c
      in [t1 + t2, a, b, c, d + t1, e, f, g])"
| "compress_round s _ = s"

definition compress :: "w32 list \<Rightarrow> char list \<Rightarrow> w32 list" where
  "compress s block =
     (let w = schedule 48 (map word_of_bytes (chunks 4 16 block))
      in map2 (+) s (foldl compress_round s (zip round_constants w)))"

definition sha256_state :: "char list \<Rightarrow> w32 list" where
  "sha256_state m = (let p = padded m in foldl compress initial_state (chunks 64 (length p div 64) p))"

definition hex_char :: "nat \<Rightarrow> char" where
  "hex_char n = ''0123456789abcdef'' ! (n mod 16)"

definition hex_word :: "w32 \<Rightarrow> string" where
  "hex_word w = map (\<lambda>i. hex_char (unat w div 16 ^ (7 - i))) [0..<8]"

definition sha256_hexdigest :: "char list \<Rightarrow> string" where
  "sha256_hexdigest m = concat (map hex_word (sha256_state m))"

text \<open>A digest has 64 hexadecimal digits, whatever was hashed.\<close>

lemma compress_round_length: "length (compress_round s kw) = length s"
  by (induction s kw rule: compress_round.induct) (simp_all add: Let_def)

lemma foldl_length: "(\<And>s x. length (f s x) = length s) \<Longrightarrow> length (foldl f s xs) = length s"
  by (induction xs arbitrary: s) simp_all

lemma compress_length: "length (compress s block) = length s"
  by (simp add: compress_def Let_def foldl_length compress_round_length)

lemma length_initial_state: "length initial_state = 8"
  by (simp add: initial_state_def)

lemma length_sha256_state: "length (sha256_state m) = 8"
  by (simp add: sha256_state_def Let_def foldl_length compress_length length_initial_state)

lemma length_concat_const: "(\<And>x. x \<in> set xs \<Longrightarrow> length x = n) \<Longrightarrow> length (concat xs) = n * length xs"
  by (induction xs) simp_all

lemma length_sha256_hexdigest: "length (sha256_hexdigest m) = 64"
proof -
  have "length (concat (map hex_word (sha256_state m))) = 8 * length (map hex_word (sha256_state m))"
    by (rule length_concat_const) (auto simp: hex_word_def)
  then show ?thesis by (simp add: sha256_hexdigest_def length_sha256_state)
qed

end
