(* ===== verification/RawRounds.thy ===== *)
theory RawRounds
  imports Rounds_Db Uow Json Sha256
begin

text \<open>
  The capture service (\<^verbatim>\<open>raw_rounds.py\<close>), its HTTP endpoint (\<^verbatim>\<open>api/rounds.py\<close>) and the retention
  worker (\<^verbatim>\<open>scheduler/retention_worker.py\<close>), each one transaction over the rounds database.

  \<^verbatim>\<open>RawRoundRequest\<close> and the two functions \<^verbatim>\<open>calculate_payload_digest\<close> and
  \<^verbatim>\<open>calculate_source_round_key\<close> belong to the package \<^verbatim>\<open>ledgermind_protocol\<close>: the request is the
  record of the attributes the handler reads, with its \<^verbatim>\<open>model_dump\<close> as a JSON value, and the
  functions are the parameter \<open>protocol\<close>. The identifiers drawn by \<^verbatim>\<open>uuid4\<close> are arguments, and so
  is the clock: \<open>clk n\<close> is what its n-th reading returns.
\<close>

section \<open>Requests\<close>

text \<open>An aware datetime: the instant it denotes and its ISO text.\<close>

record aware_datetime =
  instant :: int
  iso_text :: string

record raw_round_source =
  src_system :: string
  src_instance_id :: string
  src_profile_id :: string
  src_session_id :: string
  src_round_id :: string
  src_event_ids :: "string list"
  src_first_event_id :: "string option"
  src_final_event_id :: "string option"
  src_source_schema_version :: int
  src_adapter_version :: string

record raw_round_request =
  rq_memory_space_id :: string
  rq_source :: raw_round_source
  rq_round_event_ids :: "string list"
  rq_started_at :: aware_datetime
  rq_completed_at :: aware_datetime
  rq_payload_digest :: string
  rq_model_dump :: json

record protocol =
  calculate_payload_digest :: "raw_round_request \<Rightarrow> string"
  calculate_source_round_key :: "(string \<times> string) list \<Rightarrow> string"

record raw_round_ingest_result =
  res_raw_round_id :: string
  res_duplicate :: bool
  res_status :: string
  res_core_command_id :: "string option"
  res_core_raw_round_id :: "string option"

record ingest_handler =
  max_raw_round_bytes :: nat
  retention_days :: nat

definition new_ingest_handler :: "int \<Rightarrow> int \<Rightarrow> ingest_handler" where
  "new_ingest_handler max_bytes days =
     \<lparr>max_raw_round_bytes = nat (max max_bytes 1), retention_days = nat (max days 1)\<rparr>"

definition source_round_key :: "protocol \<Rightarrow> raw_round_request \<Rightarrow> string" where
  "source_round_key p rq = (let s = rq_source rq in
     calculate_source_round_key p
       [(''source_system'', src_system s), (''source_instance_id'', src_instance_id s),
        (''source_profile_id'', src_profile_id s), (''source_session_id'', src_session_id s),
        (''source_round_id'', src_round_id s)])"

definition payload_json :: "raw_round_request \<Rightarrow> string" where
  "payload_json rq = json_dumps (sort_keys (rq_model_dump rq))"

section \<open>The handler\<close>

text \<open>
  \<^verbatim>\<open>event_ids[0]\<close> is evaluated whether or not the source names a first event, so a round without
  events ends in an \<^verbatim>\<open>IndexError\<close>.
\<close>

definition check_request :: "protocol \<Rightarrow> ingest_handler \<Rightarrow> raw_round_request \<Rightarrow> unit res" where
  "check_request p h rq =
     (let s = rq_source rq; event_ids = rq_round_event_ids rq in
     raise_if (calculate_payload_digest p rq \<noteq> rq_payload_digest rq)
       (RawRoundDigestMismatch ''payload_digest does not match source + round'')
     (raise_if (event_ids \<noteq> src_event_ids s)
       (RawRoundError ''source.event_ids must match round event order'')
     (raise_if (event_ids = []) (OtherError ''list index out of range'')
     (raise_if (src_first_event_id s \<notin> {None, Some (hd event_ids)})
       (RawRoundError ''source.first_event_id does not match round'')
     (raise_if (src_final_event_id s \<notin> {None, Some (last event_ids)})
       (RawRoundError ''source.final_event_id does not match round'')
     (raise_if (length event_ids > 0 \<and> instant (rq_completed_at rq) < instant (rq_started_at rq))
       (RawRoundError ''round.completed_at must not precede started_at'')
     (raise_if (length (payload_json rq) > max_raw_round_bytes h)
       (RawRoundTooLarge ''raw round payload exceeds configured limit'')
     (Inr ()))))))))"

definition command_payload :: "string \<Rightarrow> string" where
  "command_payload raw_round_id = json_dumps (sort_keys (JObj [(''raw_round_id'', JStr raw_round_id)]))"

definition command_digest :: "string \<Rightarrow> string" where
  "command_digest payload = ''sha256:'' @ sha256_hexdigest payload"

definition queue_core_delivery ::
  "string \<Rightarrow> (nat \<Rightarrow> datetime) \<Rightarrow> string \<Rightarrow> raw_round_request \<Rightarrow> bool
     \<Rightarrow> (rounds_db, raw_round_ingest_result) uow_prog" where
  "queue_core_delivery command_uuid clk raw_round_id rq duplicate =
     (let idempotency_key = rq_payload_digest rq;
          payload = command_payload raw_round_id in
      ubind (uow_call (create_core_command command_uuid ''ingest_raw_round'' (rq_memory_space_id rq)
        idempotency_key payload (command_digest payload) None (clk 3))) (\<lambda>command.
      ubind (uow_call (create_core_raw_round_delivery raw_round_id (rq_memory_space_id rq)
        (cc_command_id command) idempotency_key (clk 4))) (\<lambda>delivery.
      ubind uow_commit (\<lambda>_.
      ureturn \<lparr>res_raw_round_id = raw_round_id, res_duplicate = duplicate,
        res_status = (if dl_transport_status delivery = ''queued'' then ''queued_for_core''
                      else dl_transport_status delivery),
        res_core_command_id = Some (cc_command_id command),
        res_core_raw_round_id = dl_core_raw_round_id delivery\<rparr>))))"

definition ensure_capture_space :: "string \<Rightarrow> datetime \<Rightarrow> rounds_db \<Rightarrow> (unit \<times> rounds_db) res" where
  "ensure_capture_space memory_space_id now db =
     Inr ((), insert_or_ignore_memory_space
       \<lparr>ms_memory_space_id = memory_space_id, ms_display_name = None,
        ms_source_client = ''ledgermind-integrations'',
        ms_created_at = isoformat now, ms_updated_at = isoformat now\<rparr> db)"

definition new_raw_round ::
  "protocol \<Rightarrow> ingest_handler \<Rightarrow> string \<Rightarrow> datetime \<Rightarrow> raw_round_request \<Rightarrow> raw_round" where
  "new_raw_round p h round_uuid now rq = (let s = rq_source rq in
     \<lparr>rr_raw_round_id = round_uuid, rr_memory_space_id = rq_memory_space_id rq,
      rr_source_system = src_system s, rr_source_instance_id = src_instance_id s,
      rr_source_profile_id = src_profile_id s, rr_source_session_id = src_session_id s,
      rr_source_round_id = src_round_id s, rr_source_round_key = source_round_key p rq,
      rr_capture_schema_version = src_source_schema_version s,
      rr_adapter_version = src_adapter_version s, rr_payload_json = payload_json rq,
      rr_payload_digest = rq_payload_digest rq, rr_started_at = iso_text (rq_started_at rq),
      rr_completed_at = iso_text (rq_completed_at rq), rr_received_at = [],
      rr_retention_expires_at =
        Some (isoformat (now + retention_days h * 86400 * 1000000))\<rparr>)"

definition handle_body ::
  "protocol \<Rightarrow> ingest_handler \<Rightarrow> string \<Rightarrow> string \<Rightarrow> (nat \<Rightarrow> datetime) \<Rightarrow> raw_round_request
     \<Rightarrow> (rounds_db, raw_round_ingest_result) uow_prog" where
  "handle_body p h round_uuid command_uuid clk rq =
     ubind (uow_call (\<lambda>db. Inr (get_by_capture_identity (rq_memory_space_id rq)
        (source_round_key p rq) (src_source_schema_version (rq_source rq)) db, db))) (\<lambda>existing.
     (case existing of
        Some r \<Rightarrow>
          if rr_payload_digest r \<noteq> rq_payload_digest rq
          then uraise (RawRoundConflict ''same source round identity already contains a different payload'')
          else queue_core_delivery command_uuid clk (rr_raw_round_id r) rq True
      | None \<Rightarrow>
          ubind (uow_call (ensure_capture_space (rq_memory_space_id rq) (clk 0))) (\<lambda>_.
          ubind (uow_call (insert_raw_round (new_raw_round p h round_uuid (clk 1) rq) (clk 2))) (\<lambda>r.
          queue_core_delivery command_uuid clk (rr_raw_round_id r) rq False))))"

definition handle ::
  "protocol \<Rightarrow> ingest_handler \<Rightarrow> string \<Rightarrow> string \<Rightarrow> (nat \<Rightarrow> datetime) \<Rightarrow> raw_round_request
     \<Rightarrow> rounds_db \<Rightarrow> raw_round_ingest_result res \<times> rounds_db" where
  "handle p h round_uuid command_uuid clk rq db =
     (case check_request p h rq of
        Inl e \<Rightarrow> (Inl e, db)
      | Inr _ \<Rightarrow> with_uow (handle_body p h round_uuid command_uuid clk rq) db)"

section \<open>The endpoint\<close>

text \<open>A response, or an \<^verbatim>\<open>HTTPException\<close>: status, error code and detail.\<close>

type_synonym http_error = "nat \<times> string \<times> string"

definition round_error :: "exn \<Rightarrow> http_error" where
  "round_error e = (case e of
      RawRoundConflict m \<Rightarrow> (409, ''source_round_conflict'', m)
    | RawRoundTooLarge m \<Rightarrow> (413, ''raw_round_too_large'', m)
    | RawRoundDigestMismatch m \<Rightarrow> (422, ''invalid_raw_round'', m)
    | RawRoundError m \<Rightarrow> (422, ''invalid_raw_round'', m)
    | ValueError m \<Rightarrow> (422, ''invalid_raw_round'', m)
    | IntegrityError _ \<Rightarrow> (503, ''database_unavailable'', ''database unavailable'')
    | _ \<Rightarrow> (500, ''raw_round_ingestion_failed'', ''raw round ingestion failed''))"

definition jopt :: "string option \<Rightarrow> json" where
  "jopt v = (case v of None \<Rightarrow> JNull | Some s \<Rightarrow> JStr s)"

definition ingest_round :: "raw_round_ingest_result res \<Rightarrow> http_error + nat \<times> json" where
  "ingest_round r = (case r of
      Inl e \<Rightarrow> Inl (round_error e)
    | Inr x \<Rightarrow> Inr (if res_duplicate x then 200 else 202,
        JObj [(''schema_version'', JInt 2), (''raw_round_id'', JStr (res_raw_round_id x)),
              (''core_command_id'', jopt (res_core_command_id x)),
              (''duplicate'', JBool (res_duplicate x)), (''status'', JStr (res_status x)),
              (''core_raw_round_id'', jopt (res_core_raw_round_id x))]))"

section \<open>The retention worker\<close>

definition retention_process_once ::
  "timestamp option \<Rightarrow> int \<Rightarrow> datetime \<Rightarrow> rounds_db \<Rightarrow> nat res \<times> rounds_db" where
  "retention_process_once now limit clock db =
     (if limit < 1 then (Inl (ValueError ''limit must be positive''), db)
      else with_uow (ubind (uow_call (\<lambda>d. Inr (purge_expired now limit clock d))) (\<lambda>purged.
             ubind uow_commit (\<lambda>_. ureturn purged))) db)"

section \<open>The capture as one step\<close>

text \<open>The statements of a capture without the transaction around them.\<close>

definition queue_delivery_spec ::
  "string \<Rightarrow> (nat \<Rightarrow> datetime) \<Rightarrow> string \<Rightarrow> raw_round_request \<Rightarrow> bool \<Rightarrow> rounds_db
     \<Rightarrow> (raw_round_ingest_result \<times> rounds_db) res" where
  "queue_delivery_spec command_uuid clk raw_round_id rq duplicate db =
     rbind (create_core_command command_uuid ''ingest_raw_round'' (rq_memory_space_id rq)
        (rq_payload_digest rq) (command_payload raw_round_id)
        (command_digest (command_payload raw_round_id)) None (clk 3) db) (\<lambda>(command, db1).
     rbind (create_core_raw_round_delivery raw_round_id (rq_memory_space_id rq)
        (cc_command_id command) (rq_payload_digest rq) (clk 4) db1) (\<lambda>(delivery, db2).
     Inr (\<lparr>res_raw_round_id = raw_round_id, res_duplicate = duplicate,
        res_status = (if dl_transport_status delivery = ''queued'' then ''queued_for_core''
                      else dl_transport_status delivery),
        res_core_command_id = Some (cc_command_id command),
        res_core_raw_round_id = dl_core_raw_round_id delivery\<rparr>, db2)))"

definition capture_spec ::
  "protocol \<Rightarrow> ingest_handler \<Rightarrow> string \<Rightarrow> string \<Rightarrow> (nat \<Rightarrow> datetime) \<Rightarrow> raw_round_request
     \<Rightarrow> rounds_db \<Rightarrow> (raw_round_ingest_result \<times> rounds_db) res" where
  "capture_spec p h round_uuid command_uuid clk rq db =
     (case get_by_capture_identity (rq_memory_space_id rq) (source_round_key p rq)
        (src_source_schema_version (rq_source rq)) db of
        Some r \<Rightarrow>
          raise_if (rr_payload_digest r \<noteq> rq_payload_digest rq)
            (RawRoundConflict ''same source round identity already contains a different payload'')
            (queue_delivery_spec command_uuid clk (rr_raw_round_id r) rq True db)
      | None \<Rightarrow>
          rbind (ensure_capture_space (rq_memory_space_id rq) (clk 0) db) (\<lambda>(_, db1).
          rbind (insert_raw_round (new_raw_round p h round_uuid (clk 1) rq) (clk 2) db1) (\<lambda>(r, db2).
          queue_delivery_spec command_uuid clk (rr_raw_round_id r) rq False db2)))"

text \<open>Concrete captures, for evaluations.\<close>

definition sample_protocol :: protocol where
  "sample_protocol = \<lparr>calculate_payload_digest = (\<lambda>rq. ''sha256:'' @ iso_text (rq_started_at rq)),
     calculate_source_round_key = (\<lambda>d. concat (map snd d))\<rparr>"

definition sample_request :: "string \<Rightarrow> raw_round_request" where
  "sample_request t = \<lparr>rq_memory_space_id = ''m'', rq_source = \<lparr>src_system = ''s'',
       src_instance_id = ''i'', src_profile_id = ''p'', src_session_id = ''t'', src_round_id = ''r'',
       src_event_ids = [''e''], src_first_event_id = None, src_final_event_id = Some ''e'',
       src_source_schema_version = 1, src_adapter_version = ''1''\<rparr>,
     rq_round_event_ids = [''e''], rq_started_at = \<lparr>instant = 0, iso_text = t\<rparr>,
     rq_completed_at = \<lparr>instant = 1, iso_text = t\<rparr>, rq_payload_digest = ''sha256:'' @ t,
     rq_model_dump = JObj [(''b'', JNull), (''a'', JStr t)]\<rparr>"

definition sample_handle :: "string \<Rightarrow> string \<Rightarrow> string \<Rightarrow> rounds_db \<Rightarrow> raw_round_ingest_result res \<times> rounds_db" where
  "sample_handle ru cu t = handle sample_protocol (new_ingest_handler 5000000 30) ru cu (\<lambda>_. 0) (sample_request t)"

definition sample_result :: raw_round_ingest_result where
  "sample_result = \<lparr>res_raw_round_id = ''r1'', res_duplicate = False, res_status = ''queued_for_core'',
     res_core_command_id = Some ''c1'', res_core_raw_round_id = None\<rparr>"

section \<open>What a capture does\<close>

lemma queue_core_delivery_spec:
  "fst (queue_core_delivery cu clk i rq dup (opened f db))
     = rbind (queue_delivery_spec cu clk i rq dup db) (\<lambda>(r, _). Inr r)"
  "uow_file (snd (queue_core_delivery cu clk i rq dup (opened f db)))
     = (case queue_delivery_spec cu clk i rq dup db of Inl _ \<Rightarrow> f | Inr (_, db') \<Rightarrow> db')"
  by (simp_all add: queue_core_delivery_def queue_delivery_spec_def Let_def uow_simps ureturn_def
      rbind_def split: sum.splits prod.splits)

lemma handle_body_spec:
  "fst (handle_body p h ru cu clk rq (opened f db))
     = rbind (capture_spec p h ru cu clk rq db) (\<lambda>(r, _). Inr r)"
  "uow_file (snd (handle_body p h ru cu clk rq (opened f db)))
     = (case capture_spec p h ru cu clk rq db of Inl _ \<Rightarrow> f | Inr (_, db') \<Rightarrow> db')"
  by (simp_all add: handle_body_def capture_spec_def uow_simps uraise_def ensure_capture_space_def
      queue_core_delivery_spec rbind_def raise_if_def split: sum.splits prod.splits option.splits)

lemma handle_eq:
  "handle p h ru cu clk rq db = (case check_request p h rq of Inl e \<Rightarrow> (Inl e, db) | Inr _ \<Rightarrow>
     (case capture_spec p h ru cu clk rq db of Inl e \<Rightarrow> (Inl e, db) | Inr (r, db') \<Rightarrow> (Inr r, db')))"
  by (simp add: handle_def with_uow_opened handle_body_spec rbind_def split: sum.splits prod.splits)

text \<open>What the two inserts leave alone.\<close>

lemma create_core_command_frame:
  assumes "create_core_command i ty sp k p d a now db = Inr (c, db')"
  shows "raw_rounds db' = raw_rounds db" "raw_round_payloads db' = raw_round_payloads db"
    "raw_round_core_deliveries db' = raw_round_core_deliveries db" "memory_spaces db' = memory_spaces db"
  using assms by (auto elim!: create_core_command_cases simp: sql_insert_core_command_def res_simps)

lemma create_delivery_cases:
  assumes "create_core_raw_round_delivery i sp ci k now db = Inr (d, db')"
  obtains (existing) d0 where "get_core_raw_round_delivery i db = Some d0"
      "d = d0\<lparr>dl_updated_at := isoformat now\<rparr>"
      "db' = db\<lparr>raw_round_core_deliveries := fst (sql_update (\<lambda>d. dl_raw_round_id d = i)
        (\<lambda>d. d\<lparr>dl_updated_at := isoformat now\<rparr>) (raw_round_core_deliveries db))\<rparr>"
    | (new) "get_core_raw_round_delivery i db = None"
      "db' = db\<lparr>raw_round_core_deliveries := raw_round_core_deliveries db @ [d]\<rparr>"
      "dl_raw_round_id d = i" "dl_command_id d = ci" "dl_transport_status d = ''queued''"
      "d = \<lparr>dl_raw_round_id = i, dl_memory_space_id = sp, dl_command_id = ci, dl_idempotency_key = k,
        dl_transport_status = ''queued'', dl_core_raw_round_id = None, dl_core_job_id = None,
        dl_last_error_code = None, dl_created_at = isoformat now, dl_updated_at = isoformat now\<rparr>"
proof (cases "get_core_raw_round_delivery i db")
  case None
  then have "sql_first (\<lambda>d. dl_raw_round_id d = i) (raw_round_core_deliveries db) = None"
    by (simp add: get_core_raw_round_delivery_def)
  with assms None show ?thesis
    by (intro new) (auto simp: create_core_raw_round_delivery_def Let_def res_simps
        get_core_raw_round_delivery_def sql_first_append)
next
  case (Some d0)
  moreover from Some have "dl_raw_round_id d0 = i"
    by (auto simp: get_core_raw_round_delivery_def dest: sql_first_Some)
  ultimately show ?thesis using assms
    by (intro existing [of d0]) (auto simp: create_core_raw_round_delivery_def Let_def res_simps
        get_core_raw_round_delivery_def sql_first_update_key [where k = dl_raw_round_id])
qed

lemma create_delivery_frame:
  assumes "create_core_raw_round_delivery i sp ci k now db = Inr (d, db')"
  shows "raw_rounds db' = raw_rounds db" "raw_round_payloads db' = raw_round_payloads db"
    "core_commands db' = core_commands db" "memory_spaces db' = memory_spaces db"
  using assms by (auto elim!: create_delivery_cases)

lemma get_delivery_created:
  assumes "create_core_raw_round_delivery i sp ci k now db = Inr (d, db')"
  shows "get_core_raw_round_delivery i db' = Some d"
  using assms
  by (auto simp: create_core_raw_round_delivery_def Let_def res_simps split: option.splits)


lemma queue_delivery_result:
  assumes "db_wf db" and "queue_delivery_spec cu clk i rq dup db = Inr (r, db')"
  obtains c d where "get_core_command (cc_command_id c) db' = Some c"
    "snd (command_content c) = (''ingest_raw_round'', rq_memory_space_id rq, rq_payload_digest rq,
      command_payload i, command_digest (command_payload i))"
    "get_core_raw_round_delivery i db' = Some d"
    "r = \<lparr>res_raw_round_id = i, res_duplicate = dup,
      res_status = (if dl_transport_status d = ''queued'' then ''queued_for_core'' else dl_transport_status d),
      res_core_command_id = Some (cc_command_id c), res_core_raw_round_id = dl_core_raw_round_id d\<rparr>"
    "raw_rounds db' = raw_rounds db" "raw_round_payloads db' = raw_round_payloads db" "db_wf db'"
proof -
  from assms(2) obtain c db1 d
    where c: "create_core_command cu ''ingest_raw_round'' (rq_memory_space_id rq)
        (rq_payload_digest rq) (command_payload i) (command_digest (command_payload i)) None (clk 3) db
        = Inr (c, db1)"
      and d: "create_core_raw_round_delivery i (rq_memory_space_id rq) (cc_command_id c)
        (rq_payload_digest rq) (clk 4) db1 = Inr (d, db')"
      and r: "r = \<lparr>res_raw_round_id = i, res_duplicate = dup,
        res_status = (if dl_transport_status d = ''queued'' then ''queued_for_core'' else dl_transport_status d),
        res_core_command_id = Some (cc_command_id c), res_core_raw_round_id = dl_core_raw_round_id d\<rparr>"
    by (auto simp: queue_delivery_spec_def res_simps)
  have "get_core_command (cc_command_id c) db' = Some c"
    using create_core_command_result [OF assms(1) c] create_delivery_frame(3) [OF d]
    by (simp add: get_core_command_def)
  moreover have "db_wf db'" using db_wf_create_delivery [OF d] db_wf_create_command [OF c assms(1)] .
  ultimately show ?thesis
    using that create_core_command_result [OF assms(1) c] get_delivery_created [OF d] r
      create_delivery_frame [OF d] create_core_command_frame [OF c] by metis
qed

lemma queue_delivery_repeat:
  assumes "db_wf db" and "get_core_command (cc_command_id c) db = Some c"
    "snd (command_content c) = (''ingest_raw_round'', rq_memory_space_id rq, rq_payload_digest rq,
      command_payload i, command_digest (command_payload i))"
    "get_core_raw_round_delivery i db = Some d"
  shows "queue_delivery_spec cu clk i rq dup db =
     Inr (\<lparr>res_raw_round_id = i, res_duplicate = dup,
      res_status = (if dl_transport_status d = ''queued'' then ''queued_for_core'' else dl_transport_status d),
      res_core_command_id = Some (cc_command_id c), res_core_raw_round_id = dl_core_raw_round_id d\<rparr>,
      db\<lparr>raw_round_core_deliveries := fst (sql_update (\<lambda>d. dl_raw_round_id d = i)
        (\<lambda>d. d\<lparr>dl_updated_at := isoformat (clk 4)\<rparr>) (raw_round_core_deliveries db))\<rparr>)"
proof -
  have "get_core_command_by_idempotency (rq_memory_space_id rq) (rq_payload_digest rq) db = Some c"
    using get_by_idempotency_iff [OF assms(1)] get_core_command_Some [OF assms(2)] assms(3)
    by (simp add: command_content_def)
  moreover have "\<not> blank ''ingest_raw_round''" by (simp add: blank_iff ascii_space_def)
  ultimately have "create_core_command cu ''ingest_raw_round'' (rq_memory_space_id rq)
        (rq_payload_digest rq) (command_payload i) (command_digest (command_payload i)) None (clk 3) db
        = Inr (c, db)"
    using assms(3) by (simp add: create_core_command_def command_digest_def command_content_def)
  moreover have "dl_raw_round_id d = i"
    using assms(4) by (auto simp: get_core_raw_round_delivery_def dest: sql_first_Some)
  ultimately show ?thesis
    using assms(4)
    by (simp add: queue_delivery_spec_def create_core_raw_round_delivery_def Let_def
        get_core_raw_round_delivery_def sql_first_update_key [where k = dl_raw_round_id])
qed

text \<open>After a capture, the capture identity of the request is taken by the round it returned.\<close>

lemma get_by_capture_identity_frame:
  "raw_rounds db' = raw_rounds db \<Longrightarrow> raw_round_payloads db' = raw_round_payloads db \<Longrightarrow>
     get_by_capture_identity sp k v db' = get_by_capture_identity sp k v db"
  by (simp add: get_by_capture_identity_def join_payload_def [abs_def])

lemma join_payload_keys [simp]:
  "rr_raw_round_id (join_payload db r) = rr_raw_round_id r"
  "rr_payload_digest (join_payload db r) = rr_payload_digest r"
  "capture_identity (join_payload db r) = capture_identity r"
  by (simp_all add: join_payload_def capture_identity_def split: option.splits)

lemma get_by_capture_identity_wf:
  assumes "db_wf db" and "r \<in> set (raw_rounds db)"
  shows "get_by_capture_identity (rr_memory_space_id r) (rr_source_round_key r)
    (rr_capture_schema_version r) db = Some (join_payload db r)"
proof -
  have "(\<lambda>x. rr_memory_space_id x = rr_memory_space_id r \<and> rr_source_round_key x = rr_source_round_key r
      \<and> rr_capture_schema_version x = rr_capture_schema_version r)
    = (\<lambda>x. capture_identity x = capture_identity r)"
    by (auto simp: capture_identity_def)
  moreover have "distinct (map capture_identity (raw_rounds db))"
    using assms(1) by (simp add: db_wf_def wf_rounds_def)
  ultimately show ?thesis
    using assms(2) by (simp add: get_by_capture_identity_def sql_first_key)
qed

lemma insert_raw_round_rows:
  assumes "insert_raw_round r now db = Inr (x, db')"
  shows "\<exists>r0 p. raw_rounds db' = raw_rounds db @ [r0] \<and> raw_round_payloads db' = raw_round_payloads db @ [p]
      \<and> r0 = r\<lparr>rr_payload_json := ''{}'', rr_received_at := isoformat now\<rparr>
      \<and> p = \<lparr>pl_raw_round_id = rr_raw_round_id r, pl_payload_json = rr_payload_json r,
         pl_payload_bytes = length (rr_payload_json r),
         pl_retention_expires_at = rr_retention_expires_at r, pl_deleted_at = None\<rparr>
      \<and> core_commands db' = core_commands db
      \<and> raw_round_core_deliveries db' = raw_round_core_deliveries db"
    and "get_raw_round (rr_raw_round_id r) db' = Some x"
  using assms
  by (auto simp: insert_raw_round_def sql_insert_raw_round_def sql_insert_payload_def res_simps
      split: option.splits)

lemma get_raw_round_wf:
  assumes "db_wf db" and "r \<in> set (raw_rounds db)"
  shows "get_raw_round (rr_raw_round_id r) db = Some (join_payload db r)"
  using assms by (simp add: get_raw_round_def db_wf_def wf_rounds_def sql_first_key)

lemma insert_raw_round_result:
  assumes "db_wf db" and "insert_raw_round r now db = Inr (x, db')"
  shows "x = r\<lparr>rr_received_at := isoformat now\<rparr>"
proof -
  let ?r0 = "r\<lparr>rr_payload_json := ''{}'', rr_received_at := isoformat now\<rparr>"
  have wf: "db_wf db'" using db_wf_insert_round [OF assms(2,1)] .
  have mem: "?r0 \<in> set (raw_rounds db')" using insert_raw_round_rows(1) [OF assms(2)] by auto
  have "distinct (map pl_raw_round_id (raw_round_payloads db'))"
    using wf by (simp add: db_wf_def wf_payloads_def)
  then have "sql_first (\<lambda>p. pl_raw_round_id p = rr_raw_round_id r) (raw_round_payloads db') =
      Some \<lparr>pl_raw_round_id = rr_raw_round_id r, pl_payload_json = rr_payload_json r,
         pl_payload_bytes = length (rr_payload_json r),
         pl_retention_expires_at = rr_retention_expires_at r, pl_deleted_at = None\<rparr>"
    using insert_raw_round_rows(1) [OF assms(2)] sql_first_None [of "\<lambda>p. pl_raw_round_id p = rr_raw_round_id r"]
    by (auto simp: sql_first_append split: option.splits) force
  moreover have "get_raw_round (rr_raw_round_id r) db' = Some (join_payload db' ?r0)"
    using get_raw_round_wf [OF wf mem] by simp
  ultimately show ?thesis
    using insert_raw_round_rows(2) [OF assms(2)]
    by (cases "rr_retention_expires_at r") (simp_all add: join_payload_def)
qed

lemma capture_fresh:
  assumes "db_wf db" and "capture_spec p h ru cu clk rq db = Inr (r, db')"
    and "get_by_capture_identity (rq_memory_space_id rq) (source_round_key p rq)
      (src_source_schema_version (rq_source rq)) db = None"
  obtains db2 where "db_wf db2"
    "queue_delivery_spec cu clk ru rq False db2 = Inr (r, db')"
    "get_by_capture_identity (rq_memory_space_id rq) (source_round_key p rq)
      (src_source_schema_version (rq_source rq)) db2
      = Some ((new_raw_round p h ru (clk 1) rq)\<lparr>rr_received_at := isoformat (clk 2)\<rparr>)"
    "get_raw_round ru db2 = Some ((new_raw_round p h ru (clk 1) rq)\<lparr>rr_received_at := isoformat (clk 2)\<rparr>)"
    "core_commands db2 = core_commands db"
    "raw_round_core_deliveries db2 = raw_round_core_deliveries db"
    "\<exists>r0. raw_rounds db2 = raw_rounds db @ [r0] \<and> rr_raw_round_id r0 = ru
      \<and> rr_memory_space_id r0 = rq_memory_space_id rq \<and> rr_payload_digest r0 = rq_payload_digest rq"
proof -
  let ?n = "new_raw_round p h ru (clk 1) rq"
  obtain db1 db2 x where db1: "ensure_capture_space (rq_memory_space_id rq) (clk 0) db = Inr ((), db1)"
    and ins: "insert_raw_round ?n (clk 2) db1 = Inr (x, db2)"
    and q: "queue_delivery_spec cu clk (rr_raw_round_id x) rq False db2 = Inr (r, db')"
    using assms(2,3) by (auto simp: capture_spec_def res_simps)
  have wf1: "db_wf db1" using db1 assms(1) by (auto simp: ensure_capture_space_def db_wf_ignore_space)
  then have wf2: "db_wf db2" using ins db_wf_insert_round by blast
  have x: "x = ?n\<lparr>rr_received_at := isoformat (clk 2)\<rparr>" by (rule insert_raw_round_result [OF wf1 ins])
  let ?r0 = "?n\<lparr>rr_payload_json := ''{}'', rr_received_at := isoformat (clk 2)\<rparr>"
  have id: "rr_raw_round_id ?n = ru" "rr_memory_space_id ?n = rq_memory_space_id rq"
    "rr_source_round_key ?n = source_round_key p rq"
    "rr_capture_schema_version ?n = src_source_schema_version (rq_source rq)"
    "rr_payload_digest ?n = rq_payload_digest rq"
    by (simp_all add: new_raw_round_def Let_def)
  have mem: "?r0 \<in> set (raw_rounds db2)" using insert_raw_round_rows(1) [OF ins] by auto
  have get: "get_raw_round ru db2 = Some x" using insert_raw_round_rows(2) [OF ins] id by simp
  moreover have "get_raw_round ru db2 = Some (join_payload db2 ?r0)"
    using get_raw_round_wf [OF wf2 mem] id by simp
  ultimately have join: "join_payload db2 ?r0 = x" by simp
  have cap: "get_by_capture_identity (rq_memory_space_id rq) (source_round_key p rq)
      (src_source_schema_version (rq_source rq)) db2 = Some x"
    using get_by_capture_identity_wf [OF wf2 mem] id join by simp
  have same: "core_commands db1 = core_commands db" "raw_rounds db1 = raw_rounds db"
    "raw_round_core_deliveries db1 = raw_round_core_deliveries db"
    using db1 by (auto simp: ensure_capture_space_def insert_or_ignore_memory_space_def)
  show ?thesis
    using that [OF wf2 _ cap [unfolded x] get [unfolded x]] q x id same insert_raw_round_rows(1) [OF ins]
    by auto
qed

lemma capture_duplicate:
  assumes "get_by_capture_identity (rq_memory_space_id rq) (source_round_key p rq)
      (src_source_schema_version (rq_source rq)) db = Some x"
  shows "capture_spec p h ru cu clk rq db =
    raise_if (rr_payload_digest x \<noteq> rq_payload_digest rq)
      (RawRoundConflict ''same source round identity already contains a different payload'')
      (queue_delivery_spec cu clk (rr_raw_round_id x) rq True db)"
  using assms by (simp add: capture_spec_def)

lemma capture_identity_taken:
  assumes "db_wf db" and "capture_spec p h ru cu clk rq db = Inr (r, db')"
  obtains x where "get_by_capture_identity (rq_memory_space_id rq) (source_round_key p rq)
      (src_source_schema_version (rq_source rq)) db' = Some x"
    "rr_payload_digest x = rq_payload_digest rq" "rr_raw_round_id x = res_raw_round_id r"
    "db_wf db'"
    "\<And>cu' clk'. \<exists>db''. queue_delivery_spec cu' clk' (rr_raw_round_id x) rq True db'
       = Inr (r\<lparr>res_duplicate := True\<rparr>, db'') \<and> raw_rounds db'' = raw_rounds db'
       \<and> raw_round_payloads db'' = raw_round_payloads db' \<and> core_commands db'' = core_commands db'"
proof -
  define cap where "cap d = get_by_capture_identity (rq_memory_space_id rq) (source_round_key p rq)
      (src_source_schema_version (rq_source rq)) d" for d
  have "\<exists>x db2 dup. cap db2 = Some x \<and> rr_payload_digest x = rq_payload_digest rq \<and> db_wf db2
      \<and> queue_delivery_spec cu clk (rr_raw_round_id x) rq dup db2 = Inr (r, db')"
  proof (cases "cap db")
    case None
    then obtain db2 where "db_wf db2" "queue_delivery_spec cu clk ru rq False db2 = Inr (r, db')"
      "cap db2 = Some ((new_raw_round p h ru (clk 1) rq)\<lparr>rr_received_at := isoformat (clk 2)\<rparr>)"
      using capture_fresh [OF assms] by (auto simp: cap_def)
    then show ?thesis
      by (intro exI [of _ "(new_raw_round p h ru (clk 1) rq)\<lparr>rr_received_at := isoformat (clk 2)\<rparr>"]
          exI [of _ db2] exI [of _ False]) (simp add: new_raw_round_def Let_def)
  next
    case (Some x)
    then show ?thesis
      using assms capture_duplicate [of rq p db x h ru cu clk] by (auto simp: cap_def res_simps)
  qed
  then obtain x db2 dup where x: "cap db2 = Some x" "rr_payload_digest x = rq_payload_digest rq" "db_wf db2"
    and q: "queue_delivery_spec cu clk (rr_raw_round_id x) rq dup db2 = Inr (r, db')" by blast
  show ?thesis
  proof (rule queue_delivery_result [OF x(3) q])
    fix c d
    assume c: "get_core_command (cc_command_id c) db' = Some c"
      "snd (command_content c) = (''ingest_raw_round'', rq_memory_space_id rq, rq_payload_digest rq,
        command_payload (rr_raw_round_id x), command_digest (command_payload (rr_raw_round_id x)))"
      "get_core_raw_round_delivery (rr_raw_round_id x) db' = Some d"
    assume r: "r = \<lparr>res_raw_round_id = rr_raw_round_id x, res_duplicate = dup,
      res_status = (if dl_transport_status d = ''queued'' then ''queued_for_core'' else dl_transport_status d),
      res_core_command_id = Some (cc_command_id c), res_core_raw_round_id = dl_core_raw_round_id d\<rparr>"
    assume same: "raw_rounds db' = raw_rounds db2" "raw_round_payloads db' = raw_round_payloads db2"
      and wf: "db_wf db'"
    have cap': "cap db' = Some x" using x(1) get_by_capture_identity_frame [OF same] by (simp add: cap_def)
    have rep: "\<exists>db''. queue_delivery_spec cu' clk' (rr_raw_round_id x) rq True db'
       = Inr (r\<lparr>res_duplicate := True\<rparr>, db'') \<and> raw_rounds db'' = raw_rounds db'
       \<and> raw_round_payloads db'' = raw_round_payloads db' \<and> core_commands db'' = core_commands db'"
      for cu' clk'
      unfolding queue_delivery_repeat [OF wf c] r by simp
    show ?thesis
      by (rule that [OF cap' [unfolded cap_def] x(2) _ wf rep]) (simp add: r)
  qed
qed


lemma handle_Inr:
  assumes "handle p h ru cu clk rq db = (Inr r, db1)"
  shows "check_request p h rq = Inr ()" and "capture_spec p h ru cu clk rq db = Inr (r, db1)"
  using assms by (auto simp: handle_eq split: sum.splits prod.splits)

lemma json_loads_command_payload:
  "json_loads (command_payload i) = Some (JObj [(''raw_round_id'', JStr i)])"
proof -
  have "sort_keys (JObj [(''raw_round_id'', JStr i)]) = JObj [(''raw_round_id'', JStr i)]" by simp
  moreover have "wf_json (JObj [(''raw_round_id'', JStr i)])" by simp
  ultimately show ?thesis unfolding command_payload_def by (metis json_loads_dumps)
qed

lemma get_raw_round_frame:
  "raw_rounds db' = raw_rounds db \<Longrightarrow> raw_round_payloads db' = raw_round_payloads db \<Longrightarrow>
     get_raw_round i db' = get_raw_round i db"
  by (simp add: get_raw_round_def join_payload_def [abs_def])

lemmas sample_defs = sample_protocol_def sample_request_def new_ingest_handler_def

lemma sample_check:
  "t = ''x'' \<or> t = ''y'' \<Longrightarrow>
    check_request sample_protocol (new_ingest_handler 5000000 30) (sample_request t) = Inr ()"
  by (auto simp: sample_defs check_request_def Let_def payload_json_def dumps_str_def escape_char_def)

lemma sample_capture: "\<exists>db1. sample_handle ''r1'' ''c1'' ''x'' empty_db = (Inr sample_result, db1)"
  unfolding sample_handle_def handle_eq sample_check [OF disjI1 [OF refl]]
  by (simp add: sample_result_def capture_spec_def queue_delivery_spec_def
      create_core_command_def create_core_raw_round_delivery_def sql_insert_core_command_def
      get_core_command_by_idempotency_def get_core_command_def get_core_raw_round_delivery_def
      insert_raw_round_def sql_insert_raw_round_def sql_insert_payload_def get_raw_round_def
      get_by_capture_identity_def ensure_capture_space_def insert_or_ignore_memory_space_def
      get_memory_space_def new_raw_round_def empty_db_def command_digest_def Let_def sql_length_def
      blank_iff ascii_space_def sample_request_def join_payload_def)

lemma sample_empty: "get_by_capture_identity sp k v empty_db = None"
  by (simp add: get_by_capture_identity_def empty_db_def)

section \<open>Properties\<close>

text \<open>
  C10. A capture is one atomic step: whatever check, statement or constraint fails, the database is
  exactly as before; otherwise the round, its payload, the Core command and the delivery record are
  stored together (\<open>capture_spec\<close> is the step without the transaction around it).
\<close>

theorem capture_atomic:
  "handle p h ru cu clk rq db = (case rbind (check_request p h rq) (\<lambda>_. capture_spec p h ru cu clk rq db) of
      Inl e \<Rightarrow> (Inl e, db) | Inr (r, db') \<Rightarrow> (Inr r, db'))"
  by (simp add: handle_eq rbind_def split: sum.splits)

text \<open>
  C11. Capturing a round again is idempotent: the same request returns the same round, command and
  status, marked as a duplicate, and adds no round, payload or command.
\<close>

theorem capture_idempotent:
  assumes "db_wf db" and "handle p h ru cu clk rq db = (Inr r, db1)"
  shows "\<exists>db2. handle p h ru' cu' clk' rq db1 = (Inr (r\<lparr>res_duplicate := True\<rparr>), db2)
      \<and> raw_rounds db2 = raw_rounds db1 \<and> raw_round_payloads db2 = raw_round_payloads db1
      \<and> core_commands db2 = core_commands db1"
proof -
  note ok = handle_Inr [OF assms(2)]
  obtain x where x: "get_by_capture_identity (rq_memory_space_id rq) (source_round_key p rq)
      (src_source_schema_version (rq_source rq)) db1 = Some x" "rr_payload_digest x = rq_payload_digest rq"
    and again: "\<exists>db''. queue_delivery_spec cu' clk' (rr_raw_round_id x) rq True db1
       = Inr (r\<lparr>res_duplicate := True\<rparr>, db'') \<and> raw_rounds db'' = raw_rounds db1
       \<and> raw_round_payloads db'' = raw_round_payloads db1 \<and> core_commands db'' = core_commands db1"
    by (rule capture_identity_taken [OF assms(1) ok(2)]) blast
  show ?thesis
    using again by (auto simp: handle_eq ok(1) capture_duplicate [OF x(1)] x(2))
qed

theorem capture_idempotent_witness:
  "fst (sample_handle ''r2'' ''c2'' ''x'' (snd (sample_handle ''r1'' ''c1'' ''x'' empty_db)))
     = Inr (sample_result\<lparr>res_duplicate := True\<rparr>)"
proof -
  obtain db1 where c: "sample_handle ''r1'' ''c1'' ''x'' empty_db = (Inr sample_result, db1)"
    using sample_capture by blast
  from capture_idempotent [OF db_wf_empty c [unfolded sample_handle_def], of "''r2''" "''c2''" "\<lambda>_. 0"]
  show ?thesis unfolding c by (auto simp: sample_handle_def)
qed

text \<open>
  A second request with the capture identity of a stored round and a different digest is
  refused with a conflict, answered with status 409, and changes nothing.
\<close>

lemma capture_conflict:
  assumes "db_wf db" and "handle p h ru cu clk rq db = (Inr r, db1)"
    and "check_request p h rq' = Inr ()" and "rq_memory_space_id rq' = rq_memory_space_id rq"
    and "source_round_key p rq' = source_round_key p rq"
    and "src_source_schema_version (rq_source rq') = src_source_schema_version (rq_source rq)"
    and "rq_payload_digest rq' \<noteq> rq_payload_digest rq"
  shows "snd (handle p h ru' cu' clk' rq' db1) = db1
    \<and> ingest_round (fst (handle p h ru' cu' clk' rq' db1)) = Inl (409, ''source_round_conflict'',
        ''same source round identity already contains a different payload'')"
proof -
  obtain x where "get_by_capture_identity (rq_memory_space_id rq) (source_round_key p rq)
      (src_source_schema_version (rq_source rq)) db1 = Some x" "rr_payload_digest x = rq_payload_digest rq"
    by (rule capture_identity_taken [OF assms(1) handle_Inr(2) [OF assms(2)]]) blast
  then show ?thesis
    using assms(3-7)
    by (simp add: handle_eq capture_duplicate [of rq' p db1 x] ingest_round_def round_error_def)
qed

theorem capture_conflict_witness:
  "ingest_round (fst (sample_handle ''r2'' ''c2'' ''y'' (snd (sample_handle ''r1'' ''c1'' ''x'' empty_db))))
     = Inl (409, ''source_round_conflict'', ''same source round identity already contains a different payload'')"
proof -
  obtain db1 where c: "sample_handle ''r1'' ''c1'' ''x'' empty_db = (Inr sample_result, db1)"
    using sample_capture by blast
  have "source_round_key sample_protocol (sample_request ''y'') = source_round_key sample_protocol (sample_request ''x'')"
    by (simp add: source_round_key_def sample_request_def Let_def)
  then have "ingest_round (fst (handle sample_protocol (new_ingest_handler 5000000 30) ''r2'' ''c2'' (\<lambda>_. 0)
      (sample_request ''y'') db1))
     = Inl (409, ''source_round_conflict'', ''same source round identity already contains a different payload'')"
    by (intro conjunct2 [OF capture_conflict [OF db_wf_empty c [unfolded sample_handle_def]]])
      (simp_all add: sample_check, simp_all add: sample_request_def)
  then show ?thesis unfolding c by (simp add: sample_handle_def)
qed


text \<open>The document of a first capture is stored.\<close>

lemma capture_stores_document:
  assumes "db_wf db" and "handle p h ru cu clk rq db = (Inr r, db1)"
    and "get_by_capture_identity (rq_memory_space_id rq) (source_round_key p rq)
      (src_source_schema_version (rq_source rq)) db = None" and "wf_json (rq_model_dump rq)"
  shows "\<exists>x. get_raw_round ru db1 = Some x \<and> rr_memory_space_id x = rq_memory_space_id rq
      \<and> rr_payload_digest x = rq_payload_digest rq
      \<and> json_loads (rr_payload_json x) = Some (sort_keys (rq_model_dump rq))"
proof -
  note ok = handle_Inr [OF assms(2)]
  obtain db2 where db2: "db_wf db2" "queue_delivery_spec cu clk ru rq False db2 = Inr (r, db1)"
      "get_raw_round ru db2 = Some ((new_raw_round p h ru (clk 1) rq)\<lparr>rr_received_at := isoformat (clk 2)\<rparr>)"
    by (rule capture_fresh [OF assms(1) ok(2) assms(3)]) blast
  have same: "raw_rounds db1 = raw_rounds db2" "raw_round_payloads db1 = raw_round_payloads db2"
    using queue_delivery_result [OF db2(1,2)] by metis+
  have "get_raw_round ru db1 = get_raw_round ru db2" by (rule get_raw_round_frame [OF same])
  moreover have "json_loads (payload_json rq) = Some (sort_keys (rq_model_dump rq))"
    unfolding payload_json_def by (intro json_loads_dumps wf_sort_keys assms(4))
  ultimately show ?thesis
    using db2(3) by (auto simp: new_raw_round_def Let_def)
qed

text \<open>
  Nothing is stored, and nothing is acknowledged, unless the request is valid: its digest is the
  one the protocol calculates, the source names the events of the round in order and its first and
  last event where it names any, the round does not end before it starts, and its document fits the
  configured size.
\<close>

lemma capture_only_valid:
  assumes "handle p h ru cu clk rq db = (res, db1)" and "db1 \<noteq> db \<or> isl (ingest_round res) = False"
  shows "calculate_payload_digest p rq = rq_payload_digest rq
    \<and> rq_round_event_ids rq = src_event_ids (rq_source rq) \<and> rq_round_event_ids rq \<noteq> []
    \<and> (\<forall>e. src_first_event_id (rq_source rq) = Some e \<longrightarrow> e = hd (rq_round_event_ids rq))
    \<and> (\<forall>e. src_final_event_id (rq_source rq) = Some e \<longrightarrow> e = last (rq_round_event_ids rq))
    \<and> instant (rq_started_at rq) \<le> instant (rq_completed_at rq)
    \<and> length (payload_json rq) \<le> max_raw_round_bytes h"
proof -
  have "check_request p h rq = Inr ()"
  proof (cases "check_request p h rq")
    case (Inl e)
    with assms show ?thesis by (auto simp: handle_eq ingest_round_def)
  qed simp
  then show ?thesis by (auto simp: check_request_def Let_def res_simps)
qed

theorem capture_only_valid_witness:
  "length (payload_json (sample_request ''x'')) \<le> 5000000"
proof -
  obtain db1 where "sample_handle ''r1'' ''c1'' ''x'' empty_db = (Inr sample_result, db1)"
    using sample_capture by blast
  from capture_only_valid [OF this [unfolded sample_handle_def]]
  show ?thesis by (simp add: ingest_round_def new_ingest_handler_def)
qed

end
