(* ===== verification/Redact.thy ===== *)
theory Redact
  imports Prelude "HOL-Library.Sublist"
begin

text \<open>
  The redaction of error details (\<^verbatim>\<open>_redact_text\<close> of \<^verbatim>\<open>scheduler/core_command_worker.py\<close>): two
  regular expressions, applied one after the other with \<^verbatim>\<open>re.sub\<close>. Each expression is a function that
  matches at a position, given the character before it (for \<^verbatim>\<open>\b\<close>), and returns the group to keep and
  the text after the match. No choice in the two expressions needs backtracking: the alternatives
  exclude each other, and every repeated class excludes what follows it. Character classes are those
  of ASCII text.
\<close>

definition word_char :: "char \<Rightarrow> bool" where
  "word_char c = (let n = of_char c :: nat in
     (48 \<le> n \<and> n \<le> 57) \<or> (65 \<le> n \<and> n \<le> 90) \<or> (97 \<le> n \<and> n \<le> 122) \<or> n = 95)"

definition word_at :: "char option \<Rightarrow> bool" where
  "word_at c = (case c of None \<Rightarrow> False | Some x \<Rightarrow> word_char x)"

definition first_char :: "string \<Rightarrow> char option" where
  "first_char s = (case s of [] \<Rightarrow> None | c # _ \<Rightarrow> Some c)"

text \<open>\<^verbatim>\<open>\b\<close> between a character and a text.\<close>

definition boundary :: "char option \<Rightarrow> string \<Rightarrow> bool" where
  "boundary prev s \<longleftrightarrow> word_at prev \<noteq> word_at (first_char s)"

text \<open>\<^verbatim>\<open>[^\s,;]\<close>.\<close>

definition value_char :: "char \<Rightarrow> bool" where
  "value_char c \<longleftrightarrow> \<not> ascii_space c \<and> c \<noteq> CHR '','' \<and> c \<noteq> CHR '';''"

text \<open>A literal under \<^verbatim>\<open>(?i)\<close>: the text it covers and the rest.\<close>

definition match_literal :: "string \<Rightarrow> string \<Rightarrow> (string \<times> string) option" where
  "match_literal w s = (if lower (take (length w) s) = w then Some (take (length w) s, drop (length w) s) else None)"

text \<open>\<^verbatim>\<open>api[_-]?key\<close>.\<close>

definition match_api_key :: "string \<Rightarrow> (string \<times> string) option" where
  "match_api_key s = (case match_literal ''api'' s of
      None \<Rightarrow> None
    | Some (a, r) \<Rightarrow>
       (let sep = (case r of [] \<Rightarrow> [] | c # _ \<Rightarrow> if c = CHR ''_'' \<or> c = CHR ''-'' then [c] else []) in
        case match_literal ''key'' (drop (length sep) r) of
          None \<Rightarrow> None
        | Some (k, r') \<Rightarrow> Some (a @ sep @ k, r')))"

fun first_match :: "(string \<Rightarrow> (string \<times> string) option) list \<Rightarrow> string \<Rightarrow> (string \<times> string) option" where
  "first_match [] s = None"
| "first_match (m # ms) s = (case m s of Some x \<Rightarrow> Some x | None \<Rightarrow> first_match ms s)"

definition match_keyword :: "string \<Rightarrow> (string \<times> string) option" where
  "match_keyword = first_match
     [match_api_key, match_literal ''secret'', match_literal ''password'', match_literal ''token'',
      match_literal ''authorization'', match_literal ''credential'']"

text \<open>\<^verbatim>\<open>_REDACT_INLINE\<close>.\<close>

definition match_inline :: "char option \<Rightarrow> string \<Rightarrow> (string \<times> string) option" where
  "match_inline prev s =
     (if \<not> boundary prev s then None else
      case match_keyword s of
        None \<Rightarrow> None
      | Some (k, r) \<Rightarrow>
          if \<not> boundary (Some (last k)) r then None else
          (case dropWhile ascii_space r of
             [] \<Rightarrow> None
           | c # r2 \<Rightarrow>
               if c \<noteq> CHR '':'' \<and> c \<noteq> CHR ''='' then None else
               (let r3 = dropWhile ascii_space r2 in
                if takeWhile value_char r3 = [] then None
                else Some (k @ takeWhile ascii_space r @ [c] @ takeWhile ascii_space r2,
                           dropWhile value_char r3))))"

text \<open>\<^verbatim>\<open>_REDACT_BEARER\<close>.\<close>

definition match_bearer :: "char option \<Rightarrow> string \<Rightarrow> (string \<times> string) option" where
  "match_bearer prev s =
     (if \<not> boundary prev s then None else
      case match_literal ''bearer'' s of
        None \<Rightarrow> None
      | Some (k, r) \<Rightarrow>
          (let r2 = dropWhile ascii_space r in
           if takeWhile ascii_space r = [] \<or> takeWhile value_char r2 = [] then None
           else Some (k @ takeWhile ascii_space r, dropWhile value_char r2)))"

text \<open>
  \<^verbatim>\<open>pattern.sub(r"\1[REDACTED]", text)\<close>: the leftmost match, then on from its end. A match is never
  empty (\<open>match_inline_shorter\<close>, \<open>match_bearer_shorter\<close> below), which the length test states.
\<close>

function resub ::
  "(char option \<Rightarrow> string \<Rightarrow> (string \<times> string) option) \<Rightarrow> char option \<Rightarrow> string \<Rightarrow> string" where
  "resub m prev [] = []"
| "resub m prev (c # s) =
     (case m prev (c # s) of
        Some (kept, rest) \<Rightarrow>
          if length rest \<le> length s
          then kept @ ''[REDACTED]'' @ resub m (Some ((c # s) ! (length s - length rest))) rest
          else c # resub m (Some c) s
      | None \<Rightarrow> c # resub m (Some c) s)"
  by pat_completeness auto
termination resub
  by (relation "measure (\<lambda>(m, prev, s). length s)") auto

definition redact_text :: "string \<Rightarrow> string" where
  "redact_text value = resub match_bearer None (resub match_inline None value)"

text \<open>\<^verbatim>\<open>text[:n]\<close> counts characters: the bytes that do not continue one.\<close>

fun take_chars :: "nat \<Rightarrow> string \<Rightarrow> string" where
  "take_chars n [] = []"
| "take_chars n (c # s) =
     (if (of_char c :: nat) div 64 = 2 then c # take_chars n s
      else if n = 0 then [] else c # take_chars (n - 1) s)"

text \<open>The keys that \<^verbatim>\<open>_REDACT_INLINE\<close> names, in lower case.\<close>

definition secret_keys :: "string list" where
  "secret_keys = [''api_key'', ''api-key'', ''apikey'', ''secret'', ''password'', ''token'',
     ''authorization'', ''credential'']"

section \<open>Matches consume text\<close>

lemma match_literal_Some:
  "match_literal w s = Some (k, r) \<Longrightarrow> s = k @ r \<and> length k = length w \<and> lower k = w"
proof -
  assume "match_literal w s = Some (k, r)"
  then have k: "k = take (length w) s" "r = drop (length w) s" "lower k = w"
    by (auto simp: match_literal_def split: if_splits)
  then have "length k = length w" by (auto simp: lower_def dest: arg_cong [where f = length])
  with k show ?thesis by simp
qed

lemma match_api_key_Some: "match_api_key s = Some (k, r) \<Longrightarrow> s = k @ r \<and> k \<noteq> []"
  by (auto simp: match_api_key_def Let_def dest!: match_literal_Some
      split: option.splits list.splits if_splits)

lemma match_keyword_Some: "match_keyword s = Some (k, r) \<Longrightarrow> s = k @ r \<and> k \<noteq> []"
  by (auto simp: match_keyword_def dest: match_api_key_Some dest!: match_literal_Some
      split: option.splits)

lemma length_dropWhile_less: "takeWhile P s \<noteq> [] \<Longrightarrow> length (dropWhile P s) < length s"
  by (cases s) (auto simp: length_dropWhile_le less_Suc_eq_le split: if_splits)

lemma match_inline_shorter: "match_inline prev s = Some (k, r) \<Longrightarrow> length r < length s"
proof -
  assume "match_inline prev s = Some (k, r)"
  then obtain kw r1 c r2 where "match_keyword s = Some (kw, r1)" "dropWhile ascii_space r1 = c # r2"
    "r = dropWhile value_char (dropWhile ascii_space r2)"
    by (auto simp: match_inline_def Let_def split: if_splits option.splits list.splits)
  then have "s = kw @ r1" "length (c # r2) \<le> length r1" "length r \<le> length r2"
    using match_keyword_Some length_dropWhile_le [of ascii_space r1]
      le_trans [OF length_dropWhile_le [of value_char "dropWhile ascii_space r2"]
        length_dropWhile_le [of ascii_space r2]]
    by (metis, metis, metis)
  then show ?thesis by simp
qed

lemma match_bearer_shorter: "match_bearer prev s = Some (k, r) \<Longrightarrow> length r < length s"
proof -
  assume "match_bearer prev s = Some (k, r)"
  then obtain kw r1 where "match_literal ''bearer'' s = Some (kw, r1)"
    "r = dropWhile value_char (dropWhile ascii_space r1)"
    by (auto simp: match_bearer_def Let_def split: if_splits option.splits)
  then have "s = kw @ r1" "length kw = 6" "length r \<le> length r1"
    using match_literal_Some [of "''bearer''" s kw r1]
      le_trans [OF length_dropWhile_le [of value_char "dropWhile ascii_space r1"]
        length_dropWhile_le [of ascii_space r1]]
    by auto
  then show ?thesis by simp
qed

section \<open>Texts without a match\<close>

lemma match_inline_no_separator:
  assumes "CHR '':'' \<notin> set s" and "CHR ''='' \<notin> set s"
  shows "match_inline prev s = None"
proof (rule ccontr)
  assume "match_inline prev s \<noteq> None"
  then obtain kw r1 c r2 where "match_keyword s = Some (kw, r1)" "dropWhile ascii_space r1 = c # r2"
    "c = CHR '':'' \<or> c = CHR ''=''"
    by (auto simp: match_inline_def Let_def split: if_splits option.splits list.splits)
  moreover from this have "c \<in> set s"
    using match_keyword_Some [of s kw r1] set_dropWhileD [of c ascii_space r1] by auto
  ultimately show False using assms by auto
qed

lemma resub_inline_id: "CHR '':'' \<notin> set s \<Longrightarrow> CHR ''='' \<notin> set s \<Longrightarrow> resub match_inline prev s = s"
  by (induction s arbitrary: prev) (simp_all add: match_inline_no_separator)

lemma match_bearer_no_space:
  assumes "\<forall>c\<in>set s. \<not> ascii_space c"
  shows "match_bearer prev s = None"
  using assms match_literal_Some [of "''bearer''" s]
  by (auto simp: match_bearer_def Let_def takeWhile_eq_Nil_iff split: option.splits)

lemma resub_bearer_id: "\<forall>c\<in>set s. \<not> ascii_space c \<Longrightarrow> resub match_bearer prev s = s"
  by (induction s arbitrary: prev) (simp_all add: match_bearer_no_space)

lemma word_char_simps:
  "word_char c \<Longrightarrow> \<not> ascii_space c" "word_char c \<Longrightarrow> value_char c"
  "word_char c \<Longrightarrow> c \<noteq> CHR '':''" "word_char c \<Longrightarrow> c \<noteq> CHR ''=''"
  by (auto simp: word_char_def ascii_space_def value_char_def Let_def)

section \<open>Keys\<close>

lemma ascii_lower_not_letter:
  assumes "ascii_lower c = d" and "\<not> (97 \<le> (of_char d :: nat) \<and> (of_char d :: nat) \<le> 122)"
  shows "c = d"
proof (cases "65 \<le> (of_char c :: nat) \<and> (of_char c :: nat) \<le> 90")
  case True
  then have "ascii_lower c = char_of ((of_char c :: nat) + 32)" by (simp add: ascii_lower_def Let_def)
  with assms(1) True have "(of_char d :: nat) = of_char c + 32" by auto
  with assms(2) True show ?thesis by auto
next
  case False
  with assms(1) show ?thesis by (auto simp: ascii_lower_def Let_def)
qed

lemma ascii_lower_seps [simp]:
  "ascii_lower c = CHR ''_'' \<longleftrightarrow> c = CHR ''_''" "ascii_lower c = CHR ''-'' \<longleftrightarrow> c = CHR ''-''"
  using ascii_lower_not_letter [of c "CHR ''_''"] ascii_lower_not_letter [of c "CHR ''-''"]
  by (auto simp: ascii_lower_def)

lemma ascii_lower_k: "ascii_lower c = CHR ''k'' \<Longrightarrow> c \<noteq> CHR ''_'' \<and> c \<noteq> CHR ''-''"
  by (auto simp: ascii_lower_def)

lemma match_literal_own: "lower k = w \<Longrightarrow> match_literal w (k @ r) = Some (k, r)"
  by (auto simp: match_literal_def lower_def)

lemma match_literal_other:
  assumes "lower k = W" and "i < length W" and "i < length w" and "W ! i \<noteq> w ! i"
  shows "match_literal w (k @ r) = None"
proof -
  have "length k = length W" using assms(1) by (auto simp: lower_def)
  then have "lower (take (length w) (k @ r)) ! i = W ! i"
    using assms by (auto simp: lower_def nth_append)
  with assms(4) have "lower (take (length w) (k @ r)) \<noteq> w" by auto
  then show ?thesis by (simp add: match_literal_def)
qed

lemma match_api_key_own:
  assumes "lower k = ''api'' @ sep @ ''key''" and "sep = [] \<or> sep = ''_'' \<or> sep = ''-''"
  shows "match_api_key (k @ r) = Some (k, r)"
proof -
  define a b where "a = take 3 k" and "b = drop 3 k"
  then have k: "k = a @ b" "lower a = ''api''" "lower b = sep @ ''key''"
    using assms(1) by (simp_all add: lower_def take_map [symmetric] drop_map [symmetric])
  define s b2 where "s = take (length sep) b" and "b2 = drop (length sep) b"
  then have b: "b = s @ b2" "lower s = sep" "lower b2 = ''key''"
    using k(3) by (simp_all add: lower_def take_map [symmetric] drop_map [symmetric])
  have s: "s = sep" using assms(2) b(2) by (auto simp: lower_def map_eq_Cons_conv eq_commute [of _ "ascii_lower _"])
  have b2: "\<exists>c t. b2 = c # t \<and> c \<noteq> CHR ''_'' \<and> c \<noteq> CHR ''-''"
    using b(3) ascii_lower_k by (auto simp: lower_def map_eq_Cons_conv)
  have lit: "match_literal ''api'' (k @ r) = Some (a, sep @ b2 @ r)"
    "match_literal ''key'' (b2 @ r) = Some (b2, r)"
    using match_literal_own [OF k(2), of "b @ r"] match_literal_own [OF b(3), of r] s
    by (simp_all add: k(1) b(1))
  have "(case sep @ b2 @ r of [] \<Rightarrow> [] | c # _ \<Rightarrow> if c = CHR ''_'' \<or> c = CHR ''-'' then [c] else []) = sep"
    using assms(2) b2 by auto
  moreover have "a @ sep @ b2 = k" by (simp add: k(1) b(1) s)
  ultimately show ?thesis by (simp add: match_api_key_def lit Let_def)
qed

lemma match_api_key_other:
  assumes "lower k = W" and "i < length W" and "i < 3" and "W ! i \<noteq> ''api'' ! i"
  shows "match_api_key (k @ r) = None"
  using match_literal_other [OF assms(1,2), of "''api''"] assms(3,4) by (simp add: match_api_key_def)

lemma match_bearer_head:
  assumes "c \<noteq> CHR ''b''" and "c \<noteq> CHR ''B''"
  shows "match_bearer prev (c # s) = None"
proof -
  have "ascii_lower c \<noteq> CHR ''b''"
  proof
    assume b: "ascii_lower c = CHR ''b''"
    show False
    proof (cases "65 \<le> (of_char c :: nat) \<and> (of_char c :: nat) \<le> 90")
      case True
      with b have "char_of ((of_char c :: nat) + 32) = CHR ''b''" by (simp add: ascii_lower_def Let_def)
      then have "(of_char (char_of ((of_char c :: nat) + 32)) :: nat) = 98" by simp
      with True have "(of_char c :: nat) = of_char (CHR ''B'')" by simp
      with assms(2) show False by (simp only: of_char_eq_iff)
    next
      case False
      with b assms(1) show False by (simp add: ascii_lower_def Let_def)
    qed
  qed
  then show ?thesis by (simp add: match_bearer_def match_literal_def lower_def)
qed

lemma match_keyword_key:
  assumes "lower k \<in> set secret_keys"
  shows "match_keyword (k @ r) = Some (k, r)"
proof -
  consider (api) sep where "lower k = ''api'' @ sep @ ''key''" "sep = [] \<or> sep = ''_'' \<or> sep = ''-''"
    | (auth) "lower k = ''authorization''"
    | (word) "lower k \<in> {''secret'', ''password'', ''token'', ''credential''}"
    using assms by (auto simp: secret_keys_def)
  then show ?thesis
  proof cases
    case api
    then show ?thesis using match_api_key_own by (simp add: match_keyword_def)
  next
    case auth
    then show ?thesis
      using match_api_key_other [OF auth, of 1] match_literal_own [OF auth]
      by (simp add: match_keyword_def match_literal_other [OF auth, of 0])
  next
    case word
    then show ?thesis
      by (auto simp: match_keyword_def match_literal_own match_api_key_other [where i = 0]
          match_literal_other [where i = 0])
  qed
qed

lemma keys_word_chars: "lower k \<in> set secret_keys \<Longrightarrow> k \<noteq> [] \<and> word_char (hd k) \<and> word_char (last k)"
proof -
  assume key: "lower k \<in> set secret_keys"
  have wc: "word_char c" if "97 \<le> (of_char (ascii_lower c) :: nat)" "(of_char (ascii_lower c) :: nat) \<le> 122" for c
    using that by (auto simp: ascii_lower_def word_char_def Let_def split: if_splits)
  from key have "k \<noteq> []" by (auto simp: secret_keys_def lower_def)
  moreover from this have "hd (lower k) = ascii_lower (hd k)" "last (lower k) = ascii_lower (last k)"
    by (simp_all add: lower_def hd_map last_map)
  moreover have "97 \<le> (of_char (hd w) :: nat) \<and> (of_char (hd w) :: nat) \<le> 122
      \<and> 97 \<le> (of_char (last w) :: nat) \<and> (of_char (last w) :: nat) \<le> 122" if "w \<in> set secret_keys" for w
    using that by (auto simp: secret_keys_def)
  ultimately show ?thesis using wc key by metis
qed

section \<open>The first key of a text\<close>

lemma match_keyword_lower: "match_keyword s = Some (k, r) \<Longrightarrow> s = k @ r \<and> lower k \<in> set secret_keys"
proof -
  assume m: "match_keyword s = Some (k, r)"
  have "lower k \<in> set secret_keys" if "match_api_key s = Some (k, r)"
    using that by (auto simp: match_api_key_def Let_def lower_def secret_keys_def dest!: match_literal_Some
        split: option.splits list.splits if_splits)
  moreover have "lower k \<in> set secret_keys" if "match_literal w s = Some (k, r)" "w \<in> set secret_keys" for w
    using match_literal_Some [OF that(1)] that(2) by simp
  ultimately show ?thesis
    using m match_keyword_Some [OF m]
    by (simp add: match_keyword_def split: option.splits) (simp_all add: secret_keys_def)
qed

lemma word_char_lower [simp]: "word_char (ascii_lower c) = word_char c"
proof (cases "65 \<le> (of_char c :: nat) \<and> (of_char c :: nat) \<le> 90")
  case True
  then have "(of_char (ascii_lower c) :: nat) = of_char c + 32" by (simp add: ascii_lower_def Let_def)
  with True show ?thesis by (simp add: word_char_def Let_def)
next
  case False
  then have "ascii_lower c = c" by (auto simp: ascii_lower_def Let_def)
  then show ?thesis by simp
qed

text \<open>The characters of a key, and where one key may run into another: never after a non-word character.\<close>

lemma key_chars: "lower k \<in> set secret_keys \<Longrightarrow> x \<in> set k \<Longrightarrow> word_char x \<or> x = CHR ''-''"
proof -
  assume "lower k \<in> set secret_keys" and x: "x \<in> set k"
  moreover have "list_all (list_all (\<lambda>x. word_char x \<or> x = CHR ''-'')) secret_keys" by code_simp
  ultimately have "list_all (\<lambda>x. word_char x \<or> x = CHR ''-'') (lower k)" by (simp add: list_all_iff)
  with x have "word_char (ascii_lower x) \<or> ascii_lower x = CHR ''-''" by (simp add: list_all_iff lower_def)
  then show ?thesis by simp
qed

lemma key_overlap:
  assumes "x @ y \<in> set secret_keys" and "w \<in> set secret_keys" and "x \<noteq> []" and "y \<noteq> []" and "prefix y w"
  shows "word_char (last x)"
proof -
  have "list_all (\<lambda>v. list_all (\<lambda>w. list_all (\<lambda>i. prefix (drop i v) w \<longrightarrow> word_char (v ! (i - 1)))
      [1..<length v]) secret_keys) secret_keys" by code_simp
  moreover have "0 < length x \<and> 0 < length y" using assms(3,4) by simp
  then have "length x \<in> set [1..<length (x @ y)]" by (auto simp: Suc_le_eq)
  ultimately have "prefix (drop (length x) (x @ y)) w \<longrightarrow> word_char ((x @ y) ! (length x - 1))"
    using assms(1,2) unfolding list_all_iff by blast
  with assms(3,5) show ?thesis by (simp add: nth_append last_conv_nth)
qed

lemma no_match_before_key:
  assumes u: "u \<noteq> []" "\<not> word_char (last u)" "\<forall>w\<in>set secret_keys. \<not> sublist w (lower u)"
    and k: "lower k \<in> set secret_keys" and rest: "rest \<noteq> []" "\<not> word_char (hd rest)" "hd rest \<noteq> CHR ''-''"
  shows "match_inline prev (u @ k @ rest) = None"
proof (rule ccontr)
  assume "match_inline prev (u @ k @ rest) \<noteq> None"
  then obtain kw r where "match_keyword (u @ k @ rest) = Some (kw, r)"
    by (auto simp: match_inline_def split: if_splits option.splits)
  then have kw: "u @ k @ rest = kw @ r" "lower kw \<in> set secret_keys" using match_keyword_lower by blast+
  then consider (inside) z where "u = kw @ z" | (beyond) z where "kw = u @ z" "k @ rest = z @ r"
    by (auto simp: append_eq_append_conv2)
  then show False
  proof cases
    case inside
    then have "lower u = [] @ lower kw @ lower z" by (simp add: lower_def)
    then have "sublist (lower kw) (lower u)" unfolding sublist_def by blast
    with u(3) kw(2) show False by blast
  next
    case beyond
    show False
    proof (cases "prefix z k")
      case True
      then have "prefix (lower z) (lower k)" by (auto simp: prefix_def lower_def)
      moreover have "lower kw = lower u @ lower z" using beyond(1) by (simp add: lower_def)
      moreover have "lower u \<noteq> []" "last (lower u) = ascii_lower (last u)" using u(1) by (simp_all add: lower_def last_map)
      moreover have "lower z \<noteq> []"
        using u(3) kw(2) \<open>lower kw = lower u @ lower z\<close> by (metis append_Nil2 sublist_order.order.refl)
      ultimately show False
        using key_overlap [of "lower u" "lower z" "lower k"] kw(2) k u(2) by simp
    next
      case False
      with beyond(2) obtain y where "z = k @ y" "y \<noteq> []" "rest = y @ r"
        by (auto simp: append_eq_append_conv2 prefix_def)
      then have "hd rest \<in> set kw" using beyond(1) by (cases y) auto
      with key_chars [OF kw(2)] rest(2,3) show False by blast
    qed
  qed
qed

lemma resub_skip:
  assumes "\<And>v w prev. u = v @ w \<Longrightarrow> w \<noteq> [] \<Longrightarrow> m prev (w @ s) = None"
  shows "resub m prev (u @ s) = u @ resub m (if u = [] then prev else Some (last u)) s"
  using assms
proof (induction u arbitrary: prev)
  case (Cons c u)
  have "m prev (c # u @ s) = None" for prev using Cons.prems [of "[]" "c # u"] by simp
  moreover have "resub m (Some c) (u @ s) = u @ resub m (if u = [] then Some c else Some (last u)) s"
    by (rule Cons.IH) (metis Cons.prems append_Cons)
  ultimately show ?case by simp
qed simp

text \<open>After a value the scan goes on in the same way whatever the value was.\<close>

lemma resub_inline_fresh:
  assumes "t = [] \<or> \<not> value_char (hd t)"
  shows "resub match_inline prev t = resub match_inline None t"
proof (cases t)
  case (Cons d t')
  have "match_inline p (d # t') = None" for p
  proof (rule ccontr)
    assume "match_inline p (d # t') \<noteq> None"
    then obtain kw r where "match_keyword (d # t') = Some (kw, r)"
      by (auto simp: match_inline_def split: if_splits option.splits)
    then have "d # t' = kw @ r" "lower kw \<in> set secret_keys" using match_keyword_lower by blast+
    with keys_word_chars [of kw] have "word_char d" by (cases kw) auto
    with word_char_simps(2) assms Cons show False by simp
  qed
  with Cons show ?thesis by simp
qed simp

lemma match_inline_value:
  assumes key: "lower k \<in> set secret_keys" and c: "c = CHR '':'' \<or> c = CHR ''=''" and p: "\<not> word_at prev"
    and b: "\<forall>x\<in>set b. ascii_space x" and ws: "\<forall>x\<in>set ws. ascii_space x"
    and v: "v \<noteq> []" "\<forall>x\<in>set v. value_char x" and t: "t = [] \<or> \<not> value_char (hd t)"
  shows "match_inline prev (k @ b @ c # ws @ v @ t) = Some (k @ b @ c # ws, t)"
proof -
  note k = keys_word_chars [OF key]
  have c': "\<not> word_char c" "\<not> ascii_space c" using c by (auto simp: word_char_def ascii_space_def)
  have "\<not> ascii_space (hd v)" using v by (auto simp: value_char_def)
  then have ws': "takeWhile ascii_space (ws @ v @ t) = ws" "dropWhile ascii_space (ws @ v @ t) = v @ t"
    using ws v(1) by (cases v; simp add: takeWhile_append2 dropWhile_append2)+
  have b': "takeWhile ascii_space (b @ c # ws @ v @ t) = b" "dropWhile ascii_space (b @ c # ws @ v @ t) = c # ws @ v @ t"
    using b c'(2) by (simp_all add: takeWhile_append2 dropWhile_append2)
  have v': "takeWhile value_char (v @ t) = v" "dropWhile value_char (v @ t) = t"
    using v(2) t by (cases t; simp add: takeWhile_append2 dropWhile_append2)+
  have "boundary prev (k @ b @ c # ws @ v @ t)"
    using k p by (cases k) (simp_all add: boundary_def word_at_def first_char_def split: option.splits)
  moreover have "boundary (Some (last k)) (b @ c # ws @ v @ t)"
    using k c'(1) b word_char_simps(1) by (cases b) (auto simp: boundary_def word_at_def first_char_def)
  ultimately show ?thesis
    using c v(1) by (auto simp: match_inline_def match_keyword_key [OF key] b' ws' v')
qed

section \<open>Properties\<close>



text \<open>
  C16. The two passes in their order miss a bearer token in a header: the first pass takes the word
  \<^verbatim>\<open>Bearer\<close> for the value of \<^verbatim>\<open>Authorization:\<close> and replaces it, so that the second pass finds no
  \<^verbatim>\<open>Bearer\<close> and the token itself stays in the text.
\<close>

theorem redact_text_keeps_bearer_token:
  assumes "\<forall>c\<in>set v. word_char c"
  shows "redact_text (''Authorization: Bearer '' @ v) = ''Authorization: [REDACTED] '' @ v"
proof -
  have seps: "CHR '':'' \<notin> set v" "CHR ''='' \<notin> set v" "\<forall>c\<in>set v. \<not> ascii_space c"
    using assms word_char_simps by blast+
  have "match_keyword (''Authorization'' @ '': Bearer '' @ v) = Some (''Authorization'', '': Bearer '' @ v)"
    by (rule match_keyword_key) code_simp
  then have "match_inline None (''Authorization: Bearer '' @ v) = Some (''Authorization: '', CHR '' '' # v)"
    by (simp add: match_inline_def boundary_def word_at_def first_char_def word_char_def ascii_space_def
        value_char_def)
  then have one: "resub match_inline None (''Authorization: Bearer '' @ v) = ''Authorization: [REDACTED] '' @ v"
    using seps by (simp add: resub_inline_id match_inline_no_separator)
  have "resub match_bearer p (''Authorization: [REDACTED] '' @ v) = ''Authorization: [REDACTED] '' @ v" for p
    using seps(3)
    by (simp add: match_bearer_head resub_bearer_id)
  with one show ?thesis by (simp add: redact_text_def)
qed

theorem redact_text_keeps_bearer_token_witness:
  "redact_text ''Authorization: Bearer abc123'' = ''Authorization: [REDACTED] abc123''"
  using redact_text_keeps_bearer_token [of "''abc123''"] by (simp add: word_char_def)

end
