(* ===== verification/WorkerLoop.thy ===== *)
theory WorkerLoop
  imports Clock
begin

text \<open>
  The runtime state of a background worker (\<^verbatim>\<open>scheduler/worker_state.py\<close>), the guarded polling loop
  (\<^verbatim>\<open>scheduler/guarded_loop.py\<close>) and its shutdown (\<^verbatim>\<open>scheduler/shutdown.py\<close>).

  A state operation runs under the lock of its state, so it is one function from snapshot to
  snapshot; \<open>now\<close> is what \<^verbatim>\<open>_now()\<close> reads. The loop consumes a list of iterations. Each says whether
  the stop event was set when the loop tested it, what \<^verbatim>\<open>process_once\<close> did (the name of the exception
  it raised, or its result), and whether the event was set during the wait that follows. A list that
  ends without a stop leaves the loop running. Waits are in microseconds.
\<close>

section \<open>Worker state\<close>

record worker_snapshot =
  ws_name :: string
  ws_running :: bool
  ws_healthy :: bool
  ws_last_started_at :: "timestamp option"
  ws_last_success_at :: "timestamp option"
  ws_last_error_at :: "timestamp option"
  ws_last_error_code :: "string option"
  ws_consecutive_failures :: nat
  ws_processed_count :: nat
  ws_failed_count :: nat
  ws_current_item_id :: "string option"
  ws_stopping :: bool
  ws_shutdown_timed_out :: bool
  ws_last_progress_at :: "timestamp option"
  ws_last_iteration_failure_count :: nat
  ws_degraded :: bool

definition new_worker_state :: "string \<Rightarrow> worker_snapshot res" where
  "new_worker_state name =
     raise_if (blank name) (ValueError ''worker state name must not be empty'')
     (Inr \<lparr>ws_name = name, ws_running = False, ws_healthy = True, ws_last_started_at = None,
       ws_last_success_at = None, ws_last_error_at = None, ws_last_error_code = None,
       ws_consecutive_failures = 0, ws_processed_count = 0, ws_failed_count = 0,
       ws_current_item_id = None, ws_stopping = False, ws_shutdown_timed_out = False,
       ws_last_progress_at = None, ws_last_iteration_failure_count = 0, ws_degraded = False\<rparr>)"

definition mark_started :: "string option \<Rightarrow> timestamp \<Rightarrow> worker_snapshot \<Rightarrow> worker_snapshot" where
  "mark_started item_id now s =
     s\<lparr>ws_running := True, ws_stopping := False, ws_shutdown_timed_out := False,
       ws_last_started_at := Some now, ws_current_item_id := item_id\<rparr>"

definition set_current_item :: "string option \<Rightarrow> worker_snapshot \<Rightarrow> worker_snapshot" where
  "set_current_item item_id s = s\<lparr>ws_current_item_id := item_id\<rparr>"

definition mark_progress :: "timestamp \<Rightarrow> worker_snapshot \<Rightarrow> worker_snapshot" where
  "mark_progress now s = s\<lparr>ws_last_progress_at := Some now\<rparr>"

definition mark_degraded :: "bool \<Rightarrow> worker_snapshot \<Rightarrow> worker_snapshot" where
  "mark_degraded degraded s =
     s\<lparr>ws_degraded := degraded, ws_healthy := (if degraded then False else ws_healthy s)\<rparr>"

definition mark_stopping :: "worker_snapshot \<Rightarrow> worker_snapshot" where
  "mark_stopping s = s\<lparr>ws_stopping := True\<rparr>"

definition mark_shutdown_timed_out :: "worker_snapshot \<Rightarrow> worker_snapshot" where
  "mark_shutdown_timed_out s =
     s\<lparr>ws_stopping := True, ws_shutdown_timed_out := True, ws_healthy := False, ws_degraded := True\<rparr>"

definition publish_result ::
  "string option \<Rightarrow> bool \<Rightarrow> bool \<Rightarrow> timestamp \<Rightarrow> worker_snapshot \<Rightarrow> worker_snapshot" where
  "publish_result item_id processed degraded now s =
     s\<lparr>ws_running := True, ws_healthy := \<not> degraded, ws_degraded := degraded,
       ws_last_success_at := Some now, ws_consecutive_failures := 0,
       ws_last_iteration_failure_count := 0, ws_last_progress_at := Some now,
       ws_processed_count := ws_processed_count s + (if processed then 1 else 0),
       ws_current_item_id := item_id\<rparr>"

definition mark_success :: "string option \<Rightarrow> bool \<Rightarrow> timestamp \<Rightarrow> worker_snapshot \<Rightarrow> worker_snapshot" where
  "mark_success item_id processed now s =
     s\<lparr>ws_running := True, ws_healthy := True, ws_degraded := False,
       ws_last_success_at := Some now, ws_consecutive_failures := 0,
       ws_last_iteration_failure_count := 0, ws_last_progress_at := Some now,
       ws_processed_count := ws_processed_count s + (if processed then 1 else 0),
       ws_current_item_id := item_id\<rparr>"

definition mark_error ::
  "string \<Rightarrow> string option \<Rightarrow> int option \<Rightarrow> timestamp \<Rightarrow> worker_snapshot \<Rightarrow> worker_snapshot res" where
  "mark_error error_code item_id failure_count now s =
     raise_if (blank error_code) (ValueError ''worker error code must not be empty'')
     (raise_if (case failure_count of None \<Rightarrow> False | Some n \<Rightarrow> n < 1)
       (ValueError ''failure_count must be positive'')
     (let n = ws_consecutive_failures s + 1 in
      Inr (s\<lparr>ws_running := True, ws_healthy := False, ws_degraded := True,
        ws_last_error_at := Some now, ws_last_error_code := Some error_code,
        ws_consecutive_failures := n,
        ws_last_iteration_failure_count := (case failure_count of None \<Rightarrow> n | Some k \<Rightarrow> nat k),
        ws_failed_count := ws_failed_count s + 1, ws_current_item_id := item_id\<rparr>)))"

definition mark_stopped :: "worker_snapshot \<Rightarrow> worker_snapshot" where
  "mark_stopped s = s\<lparr>ws_running := False, ws_stopping := False, ws_current_item_id := None\<rparr>"

section \<open>The guarded loop\<close>

record loop_config =
  lc_poll_interval :: timedelta
  lc_initial_backoff :: timedelta
  lc_max_backoff :: timedelta

text \<open>\<^verbatim>\<open>__init__\<close> clamps the initial backoff to the maximum; negative values become 0.\<close>

definition new_loop_config :: "int \<Rightarrow> int \<Rightarrow> int \<Rightarrow> loop_config" where
  "new_loop_config poll initial_backoff max_backoff =
     (let m = nat (max max_backoff 0) in
      \<lparr>lc_poll_interval = nat (max poll 0), lc_initial_backoff = min (nat (max initial_backoff 0)) m,
       lc_max_backoff = m\<rparr>)"

text \<open>What the loop reads of a result: its identifiers and the degraded mark.\<close>

record loop_result =
  lr_command_id :: "string option"
  lr_item_id :: "string option"
  lr_degraded :: bool

definition non_empty :: "string option \<Rightarrow> string option" where
  "non_empty v = (case v of Some s \<Rightarrow> if s = [] then None else Some s | None \<Rightarrow> None)"

definition result_item_id :: "loop_result option \<Rightarrow> string option" where
  "result_item_id r = (case r of
      None \<Rightarrow> None
    | Some x \<Rightarrow> (case non_empty (lr_command_id x) of Some i \<Rightarrow> Some i | None \<Rightarrow> non_empty (lr_item_id x)))"

definition result_degraded :: "loop_result option \<Rightarrow> bool" where
  "result_degraded r = (case r of None \<Rightarrow> False | Some x \<Rightarrow> lr_degraded x)"

datatype outcome = Raised string | Returned "loop_result option"

record iteration =
  it_stop_set :: bool
  it_now :: timestamp
  it_outcome :: outcome
  it_stopped_waiting :: bool

definition next_backoff :: "loop_config \<Rightarrow> timedelta \<Rightarrow> timedelta" where
  "next_backoff cfg backoff =
     (if backoff > 0 then min (lc_max_backoff cfg) (max (backoff * 2) (lc_initial_backoff cfg)) else backoff)"

text \<open>
  \<^verbatim>\<open>run\<close>: the state afterwards, the waits it asked for, and whether it ended. However it ends, the
  state is marked stopped.
\<close>

fun loop_run ::
  "loop_config \<Rightarrow> timedelta \<Rightarrow> iteration list \<Rightarrow> worker_snapshot \<Rightarrow> worker_snapshot \<times> timedelta list \<times> bool" where
  "loop_run cfg backoff [] s = (s, [], False)"
| "loop_run cfg backoff (it # its) s =
     (if it_stop_set it then (mark_stopped s, [], True) else
      (let s1 = mark_started None (it_now it) s in
       case it_outcome it of
         Raised error_code \<Rightarrow>
          (case mark_error error_code None None (it_now it) s1 of
             Inl _ \<Rightarrow> (mark_stopped s1, [], True)
           | Inr s2 \<Rightarrow>
               if it_stopped_waiting it then (mark_stopped s2, [backoff], True)
               else (let (s3, waits, ended) = loop_run cfg (next_backoff cfg backoff) its s2
                     in (s3, backoff # waits, ended)))
       | Returned r \<Rightarrow>
          (let s2 = publish_result (result_item_id r) (r \<noteq> None) (result_degraded r) (it_now it) s1 in
           if it_stopped_waiting it then (mark_stopped s2, [lc_poll_interval cfg], True)
           else (let (s3, waits, ended) = loop_run cfg (lc_initial_backoff cfg) its s2
                 in (s3, lc_poll_interval cfg # waits, ended)))))"

section \<open>Start and shutdown\<close>

text \<open>The handle of the loop: its thread, if it was started, and the stop event.\<close>

record loop_handle =
  lh_started :: bool
  lh_thread :: "string option"
  lh_stop :: bool

record shutdown_result =
  sd_stopped :: bool
  sd_timed_out :: bool
  sd_thread_name :: "string option"
  sd_current_item_id :: "string option"

definition loop_start :: "loop_handle \<Rightarrow> worker_snapshot \<Rightarrow> loop_handle res" where
  "loop_start h s =
     raise_if (lh_started h) (RuntimeError ''worker loop has already been started'')
     (Inr (h\<lparr>lh_started := True, lh_thread := Some (''ledgermind-'' @ ws_name s)\<rparr>))"

definition request_stop :: "loop_handle \<Rightarrow> worker_snapshot \<Rightarrow> loop_handle \<times> worker_snapshot" where
  "request_stop h s = (h\<lparr>lh_stop := True\<rparr>, mark_stopping s)"

text \<open>\<open>alive\<close> says whether the thread still runs when the join returns.\<close>

definition loop_shutdown ::
  "int option \<Rightarrow> bool \<Rightarrow> loop_handle \<Rightarrow> worker_snapshot
     \<Rightarrow> (shutdown_result \<times> loop_handle \<times> worker_snapshot) res" where
  "loop_shutdown timeout alive h s =
     raise_if (case timeout of None \<Rightarrow> False | Some t \<Rightarrow> t < 0)
       (ValueError ''shutdown timeout must not be negative'')
     (let (h1, s1) = request_stop h s in
      case lh_thread h1 of
        None \<Rightarrow> Inr (\<lparr>sd_stopped = True, sd_timed_out = False, sd_thread_name = None,
                    sd_current_item_id = None\<rparr>, h1, mark_stopped s1)
      | Some t \<Rightarrow>
          (let s2 = (if alive then mark_shutdown_timed_out s1 else mark_stopped s1) in
           Inr (\<lparr>sd_stopped = \<not> alive, sd_timed_out = alive, sd_thread_name = Some t,
                 sd_current_item_id = ws_current_item_id s2\<rparr>, h1, s2)))"

section \<open>The state invariant\<close>

definition worker_state_ok :: "worker_snapshot \<Rightarrow> bool" where
  "worker_state_ok s \<longleftrightarrow>
     (ws_healthy s \<longrightarrow> \<not> ws_degraded s \<and> ws_consecutive_failures s = 0)
     \<and> ws_consecutive_failures s \<le> ws_failed_count s
     \<and> (ws_last_error_code s = None \<longleftrightarrow> ws_failed_count s = 0)
     \<and> (ws_last_error_at s = None \<longleftrightarrow> ws_failed_count s = 0)
     \<and> (ws_last_success_at s = None \<longrightarrow> ws_processed_count s = 0)
     \<and> (ws_consecutive_failures s = 0 \<longleftrightarrow> ws_last_iteration_failure_count s = 0)"

inductive worker_state_step :: "worker_snapshot \<Rightarrow> worker_snapshot \<Rightarrow> bool" where
  "worker_state_step s (mark_started i now s)"
| "worker_state_step s (set_current_item i s)"
| "worker_state_step s (mark_progress now s)"
| "worker_state_step s (mark_degraded b s)"
| "worker_state_step s (mark_stopping s)"
| "worker_state_step s (mark_shutdown_timed_out s)"
| "worker_state_step s (publish_result i p d now s)"
| "worker_state_step s (mark_success i p now s)"
| "mark_error e i n now s = Inr s' \<Longrightarrow> worker_state_step s s'"
| "worker_state_step s (mark_stopped s)"

text \<open>Iterations that raise and go on, that raise, and that produce a result.\<close>

definition failing :: "iteration \<Rightarrow> bool" where
  "failing it \<longleftrightarrow> \<not> it_stop_set it \<and> \<not> it_stopped_waiting it
     \<and> (case it_outcome it of Raised e \<Rightarrow> \<not> blank e | Returned _ \<Rightarrow> False)"

definition raises :: "iteration \<Rightarrow> bool" where
  "raises it \<longleftrightarrow> (case it_outcome it of Raised _ \<Rightarrow> True | Returned _ \<Rightarrow> False)"

definition produces :: "iteration \<Rightarrow> bool" where
  "produces it \<longleftrightarrow> (case it_outcome it of Returned (Some _) \<Rightarrow> True | _ \<Rightarrow> False)"

lemmas worker_state_defs = mark_started_def set_current_item_def mark_progress_def mark_degraded_def
  mark_stopping_def mark_shutdown_timed_out_def publish_result_def mark_success_def mark_stopped_def

lemma mark_error_ok:
  assumes "mark_error e i n now s = Inr s'" and "worker_state_ok s"
  shows "worker_state_ok s'"
proof -
  have n: "n = None \<or> (\<exists>k. n = Some k \<and> 1 \<le> k)"
    using assms(1) by (cases n) (auto simp: mark_error_def res_simps)
  have s': "s' = s\<lparr>ws_running := True, ws_healthy := False, ws_degraded := True,
        ws_last_error_at := Some now, ws_last_error_code := Some e,
        ws_consecutive_failures := Suc (ws_consecutive_failures s),
        ws_last_iteration_failure_count := (case n of None \<Rightarrow> Suc (ws_consecutive_failures s) | Some k \<Rightarrow> nat k),
        ws_failed_count := ws_failed_count s + 1, ws_current_item_id := i\<rparr>"
    using assms(1) by (auto simp: mark_error_def res_simps Let_def)
  show ?thesis
    using n assms(2) unfolding s' worker_state_ok_def by (elim disjE exE conjE) simp_all
qed

interpretation worker_state: step_invariant worker_state_step worker_state_ok
proof
  fix s t
  assume "worker_state_step s t" and "worker_state_ok s"
  then show "worker_state_ok t"
    by (cases rule: worker_state_step.cases)
      (use mark_error_ok in \<open>auto simp: worker_state_defs worker_state_ok_def\<close>)
qed

lemma new_worker_state_ok: "new_worker_state name = Inr s \<Longrightarrow> worker_state_ok s"
  by (auto simp: new_worker_state_def worker_state_ok_def res_simps)

section \<open>Runs of the loop\<close>

lemma loop_run_steps: "worker_state_step\<^sup>*\<^sup>* s (fst (loop_run cfg b its s))"
proof (induction cfg b its s rule: loop_run.induct)
  case (1 cfg b s)
  then show ?case by simp
next
  case (2 cfg b it its s)
  let ?s1 = "mark_started None (it_now it) s"
  note step = worker_state_step.intros
  have one: "worker_state_step\<^sup>*\<^sup>* s ?s1" by (blast intro: step)
  show ?case
  proof (cases "it_stop_set it")
    case True
    then show ?thesis by (auto intro: step)
  next
    case run: False
    show ?thesis
    proof (cases "it_outcome it")
      case (Raised e)
      show ?thesis
      proof (cases "mark_error e None None (it_now it) ?s1")
        case (Inl x)
        then show ?thesis using run Raised one by (auto intro: rtranclp.rtrancl_into_rtrancl step)
      next
        case (Inr s2)
        then have s2: "worker_state_step\<^sup>*\<^sup>* s s2" using one by (auto intro: rtranclp.rtrancl_into_rtrancl step)
        show ?thesis
          using run Raised Inr s2 "2.IH"(1) [OF run refl Raised Inr]
          by (auto simp: prod.case_eq_if intro: rtranclp.rtrancl_into_rtrancl step)
      qed
    next
      case (Returned r)
      let ?s2 = "publish_result (result_item_id r) (r \<noteq> None) (result_degraded r) (it_now it) ?s1"
      have s2: "worker_state_step\<^sup>*\<^sup>* s ?s2" using one by (auto intro: rtranclp.rtrancl_into_rtrancl step)
      show ?thesis
        using run Returned s2 "2.IH"(2) [OF run refl Returned refl]
        by (auto simp: prod.case_eq_if Let_def intro: rtranclp.rtrancl_into_rtrancl step)
    qed
  qed
qed

lemma next_backoff_schedule:
  assumes "lc_initial_backoff cfg \<le> lc_max_backoff cfg"
  shows "next_backoff cfg (min (lc_max_backoff cfg) (lc_initial_backoff cfg * 2 ^ k))
    = min (lc_max_backoff cfg) (lc_initial_backoff cfg * 2 ^ Suc k)"
proof (cases "lc_initial_backoff cfg = 0")
  case False
  define x where "x = lc_initial_backoff cfg * 2 ^ k"
  have "lc_initial_backoff cfg \<le> x" "lc_initial_backoff cfg * 2 ^ Suc k = 2 * x" by (simp_all add: x_def)
  then show ?thesis
    using False assms unfolding x_def [symmetric] next_backoff_def by (simp add: min_def max_def)
qed (simp add: next_backoff_def)

lemma mark_error_Inr: "\<not> blank e \<Longrightarrow> \<exists>s'. mark_error e i None now s = Inr s'
    \<and> ws_failed_count s' = Suc (ws_failed_count s) \<and> ws_processed_count s' = ws_processed_count s
    \<and> ws_consecutive_failures s' = Suc (ws_consecutive_failures s)"
  by (simp add: mark_error_def Let_def)

lemma failingE:
  assumes "failing it"
  obtains e where "\<not> it_stop_set it" "\<not> it_stopped_waiting it" "it_outcome it = Raised e" "\<not> blank e"
  using assms by (auto simp: failing_def split: outcome.splits)

lemma backoff_schedule_from:
  assumes "list_all failing its" and "lc_initial_backoff cfg \<le> lc_max_backoff cfg"
  shows "fst (snd (loop_run cfg (min (lc_max_backoff cfg) (lc_initial_backoff cfg * 2 ^ k)) its s))
    = map (\<lambda>n. min (lc_max_backoff cfg) (lc_initial_backoff cfg * 2 ^ n)) [k..<k + length its]"
  using assms(1)
proof (induction its arbitrary: k s)
  case (Cons it its)
  from Cons.prems obtain e where it: "\<not> it_stop_set it" "\<not> it_stopped_waiting it" "it_outcome it = Raised e" "\<not> blank e"
    by (auto elim: failingE)
  obtain s2 where s2: "mark_error e None None (it_now it) (mark_started None (it_now it) s) = Inr s2"
    using mark_error_Inr [OF it(4)] by blast
  have "[k..<k + length (it # its)] = k # [Suc k..<Suc k + length its]" by (simp add: upt_conv_Cons del: upt_Suc)
  then show ?case
    using Cons.IH [of "Suc k" s2] Cons.prems it
    by (simp add: s2 next_backoff_schedule [OF assms(2)] prod.case_eq_if del: power_Suc upt_Suc)
qed simp

lemma loop_run_counts:
  assumes "loop_run cfg b its s = (s', waits, False)"
  shows "ws_failed_count s' = ws_failed_count s + length (filter raises its)
    \<and> ws_processed_count s' = ws_processed_count s + length (filter produces its)
    \<and> length waits = length its
    \<and> ws_consecutive_failures s' = (if list_all raises its then ws_consecutive_failures s + length its
        else length (takeWhile raises (rev its)))"
  using assms
proof (induction cfg b its s arbitrary: s' waits rule: loop_run.induct)
  case (1 cfg b s)
  then show ?case by simp
next
  case (2 cfg b it its s)
  have run: "\<not> it_stop_set it" using "2.prems" by (auto split: if_splits)
  let ?s1 = "mark_started None (it_now it) s"
  have s1: "ws_failed_count ?s1 = ws_failed_count s" "ws_processed_count ?s1 = ws_processed_count s"
    "ws_consecutive_failures ?s1 = ws_consecutive_failures s" by (simp_all add: mark_started_def)
  have tw: "takeWhile raises (rev its @ [x]) = (if list_all raises its then rev its @ takeWhile raises [x]
      else takeWhile raises (rev its))" for x
    by (auto simp: list_all_iff takeWhile_append)
  show ?case
  proof (cases "it_outcome it")
    case (Raised e)
    then obtain s2 where s2: "mark_error e None None (it_now it) ?s1 = Inr s2"
      using "2.prems" run by (auto simp: Let_def split: sum.splits)
    have c2: "ws_failed_count s2 = Suc (ws_failed_count s)" "ws_processed_count s2 = ws_processed_count s"
      "ws_consecutive_failures s2 = Suc (ws_consecutive_failures s)"
      using s2 s1 by (auto simp: mark_error_def res_simps Let_def)
    have w: "\<not> it_stopped_waiting it" using "2.prems" run Raised s2 by (auto simp: Let_def split: if_splits)
    obtain ws where rec: "loop_run cfg (next_backoff cfg b) its s2 = (s', ws, False)" "waits = b # ws"
      using "2.prems" run Raised s2 w by (auto simp: Let_def split: prod.splits)
    have "raises it" "\<not> produces it" using Raised by (simp_all add: raises_def produces_def)
    then show ?thesis
      using "2.IH"(1) [OF run refl Raised s2 w rec(1)] c2 rec(2) tw by auto
  next
    case (Returned r)
    let ?s2 = "publish_result (result_item_id r) (r \<noteq> None) (result_degraded r) (it_now it) ?s1"
    have c2: "ws_failed_count ?s2 = ws_failed_count s" "ws_consecutive_failures ?s2 = 0"
      "ws_processed_count ?s2 = ws_processed_count s + (if r \<noteq> None then 1 else 0)"
      using s1 by (simp_all add: publish_result_def)
    have w: "\<not> it_stopped_waiting it" using "2.prems" run Returned by (auto simp: Let_def split: if_splits)
    obtain ws where rec: "loop_run cfg (lc_initial_backoff cfg) its ?s2 = (s', ws, False)"
      "waits = lc_poll_interval cfg # ws"
      using "2.prems" run Returned w by (auto simp: Let_def split: prod.splits)
    have "\<not> raises it" "produces it \<longleftrightarrow> r \<noteq> None"
      using Returned by (simp_all add: raises_def produces_def split: option.splits)
    then show ?thesis
      using "2.IH"(2) [OF run refl Returned refl w rec(1)] c2 rec(2) tw by auto
  qed
qed

lemma loop_run_ended:
  assumes "loop_run cfg b its s = (s', waits, True)"
  shows "\<not> ws_running s' \<and> \<not> ws_stopping s' \<and> ws_current_item_id s' = None"
  using assms
proof (induction cfg b its s arbitrary: s' waits rule: loop_run.induct)
  case (2 cfg b it its s)
  have stopped: "\<not> ws_running (mark_stopped x) \<and> \<not> ws_stopping (mark_stopped x) \<and> ws_current_item_id (mark_stopped x) = None" for x
    by (simp add: mark_stopped_def)
  show ?case
  proof (cases "it_stop_set it")
    case True
    then show ?thesis using "2.prems" stopped by auto
  next
    case run: False
    show ?thesis
    proof (cases "it_outcome it")
      case (Raised e)
      then show ?thesis
        using "2.prems" run stopped "2.IH"(1) [OF run refl Raised]
        by (auto simp: Let_def prod.case_eq_if prod_eq_iff split: sum.splits if_splits)
    next
      case (Returned r)
      then show ?thesis
        using "2.prems" run stopped "2.IH"(2) [OF run refl Returned refl]
        by (auto simp: Let_def prod.case_eq_if prod_eq_iff split: if_splits)
    qed
  qed
qed simp

section \<open>Properties\<close>

text \<open>
  The state a worker publishes is consistent after any sequence of its operations: a healthy
  worker is not degraded and has no failure outstanding, the outstanding failures are among the
  counted ones, an error code and its time are there exactly when an iteration has failed, and a
  count of processed items comes with the time of a success.
\<close>

lemma worker_state_consistent:
  assumes "new_worker_state name = Inr s0" and "worker_state_step\<^sup>*\<^sup>* s0 s"
  shows "worker_state_ok s"
  using worker_state.inv_steps [OF assms(2) new_worker_state_ok [OF assms(1)]] .

text \<open>
  Backoff. While every iteration raises, the n-th wait is the initial backoff doubled n times,
  capped at the maximum.
\<close>

lemma backoff_schedule:
  assumes "list_all failing its" and "cfg = new_loop_config poll i m"
  shows "fst (snd (loop_run cfg (lc_initial_backoff cfg) its s))
    = map (\<lambda>n. min (lc_max_backoff cfg) (lc_initial_backoff cfg * 2 ^ n)) [0..<length its]"
proof -
  have "lc_initial_backoff cfg \<le> lc_max_backoff cfg"
    by (simp add: assms(2) new_loop_config_def Let_def)
  with backoff_schedule_from [OF assms(1) this, of 0 s] show ?thesis by (simp add: min_absorb2)
qed

text \<open>
  One iteration never kills the loop and none goes uncounted: as long as no stop is requested the
  loop has run every iteration, has waited after each, has counted every exception as a failure and
  every result as processed, and reports as outstanding failures exactly the exceptions since the last
  iteration that returned.
\<close>

theorem loop_counts_iterations:
  assumes "loop_run cfg b its s = (s', waits, False)"
  shows "length waits = length its
    \<and> ws_failed_count s' = ws_failed_count s + length (filter raises its)
    \<and> ws_processed_count s' = ws_processed_count s + length (filter produces its)
    \<and> (\<not> list_all raises its \<longrightarrow> ws_consecutive_failures s' = length (takeWhile raises (rev its)))"
  using loop_run_counts [OF assms] by simp

theorem loop_counts_iterations_witness:
  "ws_failed_count (fst (loop_run (new_loop_config 1 1 1) 1
     [\<lparr>it_stop_set = False, it_now = [], it_outcome = Raised ''E'', it_stopped_waiting = False\<rparr>,
      \<lparr>it_stop_set = False, it_now = [], it_outcome = Returned None, it_stopped_waiting = False\<rparr>]
     (projr (new_worker_state ''w'')))) = 1"
proof -
  let ?its = "[\<lparr>it_stop_set = False, it_now = [], it_outcome = Raised ''E'', it_stopped_waiting = False\<rparr>,
      \<lparr>it_stop_set = False, it_now = [], it_outcome = Returned None, it_stopped_waiting = False\<rparr>]"
  let ?s = "projr (new_worker_state ''w'')"
  obtain s' waits where r: "loop_run (new_loop_config 1 1 1) 1 ?its ?s = (s', waits, False)"
    by (simp add: mark_error_def Let_def blank_iff ascii_space_def)
  have "ws_failed_count ?s = 0" by (simp add: new_worker_state_def blank_iff ascii_space_def)
  with loop_counts_iterations [OF r] show ?thesis unfolding r by (simp add: raises_def)
qed

end
