(* ===== verification/CoreCommandWorker.thy ===== *)
theory CoreCommandWorker
  imports RawRounds Redact WorkerLoop
begin

text \<open>
  The durable delivery worker (\<^verbatim>\<open>scheduler/core_command_worker.py\<close>): it claims a command in one
  transaction, delivers it through the gateway outside of any, and records the outcome in another.

  The gateway is code of its own (\<^verbatim>\<open>core_gateway\<close>) and the embedding profile factory a callback;
  both are arguments. The database may change under the worker while it delivers: \<open>env1\<close> and
  \<open>env2\<close> are what others do to it between the claim, the read and the completion.
\<close>

section \<open>Contracts\<close>

record ingest_raw_round_command =
  ic_command_id :: string
  ic_idempotency_key :: string
  ic_memory_space_id :: string
  ic_raw_round_id :: string
  ic_raw_round :: json
  ic_resolution_context :: "json option"
  ic_embedding_profile :: "json option"

record ingest_raw_round_result =
  ir_accepted :: bool
  ir_duplicate :: bool
  ir_core_raw_round_id :: "string option"
  ir_result_json :: "string option"

type_synonym core_gateway = "ingest_raw_round_command \<Rightarrow> ingest_raw_round_result res"

record core_command_worker =
  cw_worker_id :: string
  cw_max_attempts :: nat
  cw_retry_delay :: timedelta
  cw_lease :: timedelta
  cw_profile_factory :: "(string \<Rightarrow> json res) option"

record core_command_process_result =
  pr_command_id :: string
  pr_status :: string

definition new_core_command_worker ::
  "string \<Rightarrow> int \<Rightarrow> timedelta \<Rightarrow> timedelta \<Rightarrow> (string \<Rightarrow> json res) option \<Rightarrow> core_command_worker" where
  "new_core_command_worker i attempts delay lease factory =
     \<lparr>cw_worker_id = i, cw_max_attempts = nat (max attempts 1), cw_retry_delay = delay,
      cw_lease = max lease (microseconds 1), cw_profile_factory = factory\<rparr>"

definition check_ingest_command :: "ingest_raw_round_command \<Rightarrow> ingest_raw_round_command res" where
  "check_ingest_command c =
     raise_if (case ic_embedding_profile c of None \<Rightarrow> False | Some v \<Rightarrow> \<not> is_obj v)
       (TypeError ''embedding_profile must be an object'') (Inr c)"

section \<open>Stopping\<close>

text \<open>The stop event of the worker and the loop it created, if any.\<close>

record worker_control =
  wc_stop :: bool
  wc_loop :: "loop_handle option"

definition worker_request_stop :: "worker_control \<Rightarrow> worker_control" where
  "worker_request_stop w =
     w\<lparr>wc_stop := True, wc_loop := map_option (\<lambda>h. h\<lparr>lh_stop := True\<rparr>) (wc_loop w)\<rparr>"

text \<open>A loop created after a stop request starts out stopped.\<close>

definition create_loop :: "int \<Rightarrow> int \<Rightarrow> int \<Rightarrow> worker_control \<Rightarrow> loop_config \<times> loop_handle \<times> worker_control" where
  "create_loop poll initial_backoff max_backoff w =
     (let h = \<lparr>lh_started = False, lh_thread = None, lh_stop = wc_stop w\<rparr>
      in (new_loop_config poll initial_backoff max_backoff, h, w\<lparr>wc_loop := Some h\<rparr>))"

text \<open>Whichever comes first, the loop of a worker that was asked to stop has its event set.\<close>

lemma stop_reaches_loop:
  "case wc_loop (worker_request_stop (snd (snd (create_loop p i m w)))) of Some h \<Rightarrow> lh_stop h | None \<Rightarrow> False"
  "lh_stop (fst (snd (create_loop p i m (worker_request_stop w))))"
  by (simp_all add: create_loop_def worker_request_stop_def Let_def)

section \<open>Claim, delivery, completion\<close>

definition worker_claim ::
  "core_command_worker \<Rightarrow> bool \<Rightarrow> datetime \<Rightarrow> rounds_db \<Rightarrow> core_command option res \<times> rounds_db" where
  "worker_claim w stop now db =
     (if stop then (Inr None, db)
      else with_uow
        (ubind (uow_call (\<lambda>d. Inr (claim_core_command (cw_worker_id w) (cw_lease w) now d))) (\<lambda>command.
         (case command of
            None \<Rightarrow> ureturn None
          | Some c \<Rightarrow> ubind uow_commit (\<lambda>_. ureturn (Some c))))) db)"

text \<open>
  \<^verbatim>\<open>str(json.loads(text)["raw_round_id"])\<close>. Every way in which it fails (not JSON, not an object, no
  such key) is one of the exceptions its callers catch.
\<close>

definition payload_round_id :: "string \<Rightarrow> string option" where
  "payload_round_id text = (case json_loads text of
      Some (JObj d) \<Rightarrow> map_option py_str (map_of d ''raw_round_id'')
    | _ \<Rightarrow> None)"

definition resolution_context :: "(string \<times> json) list \<Rightarrow> json option" where
  "resolution_context raw_payload = (case jget raw_payload ''extensions'' of
      JObj ext \<Rightarrow> (case jget ext ''resolution_context'' of JObj d \<Rightarrow> Some (JObj d) | _ \<Rightarrow> None)
    | _ \<Rightarrow> None)"

definition deliver_raw_round ::
  "core_command_worker \<Rightarrow> core_gateway \<Rightarrow> core_command \<Rightarrow> rounds_db \<Rightarrow> ingest_raw_round_result res" where
  "deliver_raw_round w gateway command db =
     (case payload_round_id (cc_payload_json command) of
        None \<Rightarrow> Inl (DomainRejectedError ''invalid_raw_round_command''
                  ''RawRound command metadata is invalid'')
      | Some raw_round_id \<Rightarrow>
      (case get_raw_round raw_round_id db of
        None \<Rightarrow> Inl (DomainRejectedError ''raw_round_not_found'' raw_round_id)
      | Some r \<Rightarrow>
      (case json_loads (rr_payload_json r) of
        None \<Rightarrow> Inl (DomainRejectedError ''invalid_raw_round_payload''
                  ''RawRound payload is not valid JSON'')
      | Some (JObj raw_payload) \<Rightarrow>
          rbind (case cw_profile_factory w of
                   None \<Rightarrow> Inr None
                 | Some f \<Rightarrow> rbind (f (cc_memory_space_id command)) (\<lambda>v. Inr (if v = JNull then None else Some v)))
          (\<lambda>embedding_profile.
          rbind (check_ingest_command
            \<lparr>ic_command_id = cc_command_id command, ic_idempotency_key = cc_idempotency_key command,
             ic_memory_space_id = cc_memory_space_id command, ic_raw_round_id = raw_round_id,
             ic_raw_round = JObj raw_payload, ic_resolution_context = resolution_context raw_payload,
             ic_embedding_profile = embedding_profile\<rparr>) gateway)
      | Some _ \<Rightarrow> Inl (DomainRejectedError ''invalid_raw_round_payload''
                  ''RawRound payload must be an object''))))"

definition delivery_status_of :: "string \<Rightarrow> string" where
  "delivery_status_of status =
     (if status = ''completed'' then ''accepted''
      else if status = ''rejected'' then ''rejected''
      else if status = ''retry_wait'' then ''retry_wait''
      else if status = ''failed'' then ''rejected''
      else ''retry_wait'')"

definition result_round_id :: "string option \<Rightarrow> string option" where
  "result_round_id result_json = (case result_json of
      None \<Rightarrow> None
    | Some text \<Rightarrow> if text = [] then None else
       (case json_loads text of
          Some (JObj d) \<Rightarrow> (case jget d ''raw_round_id'' of JNull \<Rightarrow> None | v \<Rightarrow> Some (py_str v))
        | _ \<Rightarrow> None))"

text \<open>The record of the outcome in the delivery of the round, and the end of its payload.\<close>

definition settle_delivery ::
  "string \<Rightarrow> string \<Rightarrow> string option \<Rightarrow> string option \<Rightarrow> datetime \<Rightarrow> core_command \<Rightarrow> (rounds_db, unit) uow_prog" where
  "settle_delivery command_type status result_json error_code now command =
     (if cc_command_type command \<noteq> command_type then ureturn () else
      (case payload_round_id (cc_payload_json command) of
         None \<Rightarrow> ureturn ()
       | Some raw_round_id \<Rightarrow>
           if raw_round_id = [] then ureturn () else
           ubind (uow_call (update_core_raw_round_delivery raw_round_id (delivery_status_of status)
             (result_round_id result_json) error_code now)) (\<lambda>_.
           if status = ''completed''
           then ubind (uow_call (\<lambda>d. Inr (clear_raw_round_payload raw_round_id now d))) (\<lambda>_. ureturn ())
           else ureturn ())))"

definition worker_finish ::
  "core_command_worker \<Rightarrow> string \<Rightarrow> string \<Rightarrow> string option \<Rightarrow> string option \<Rightarrow> string option \<Rightarrow> datetime
     \<Rightarrow> rounds_db \<Rightarrow> core_command_process_result res \<times> rounds_db" where
  "worker_finish w command_id status result_json error_code error_detail now db =
     with_uow
      (ubind (uow_call (\<lambda>d. Inr (get_core_command command_id d, d))) (\<lambda>found.
       (case found of
          None \<Rightarrow> ureturn \<lparr>pr_command_id = command_id, pr_status = ''missing''\<rparr>
        | Some command \<Rightarrow>
            ubind (uow_call (finish_core_command command_id (cw_worker_id w) status result_json
              error_code error_detail (cw_retry_delay w) now)) (\<lambda>updated.
            if \<not> updated
            then (\<lambda>u. ureturn \<lparr>pr_command_id = command_id, pr_status = ''lease_lost''\<rparr> (uow_rollback u))
            else
              ubind (settle_delivery ''ingest_raw_round'' status result_json error_code now command) (\<lambda>_.
              ubind uow_commit (\<lambda>_.
              ureturn \<lparr>pr_command_id = command_id, pr_status = status\<rparr>)))))) db"

definition finish_retry_or_failure ::
  "core_command_worker \<Rightarrow> string \<Rightarrow> nat \<Rightarrow> string \<Rightarrow> exn \<Rightarrow> datetime \<Rightarrow> rounds_db
     \<Rightarrow> core_command_process_result res \<times> rounds_db" where
  "finish_retry_or_failure w command_id attempts error_code error now db =
     worker_finish w command_id (if cw_max_attempts w \<le> attempts then ''failed'' else ''retry_wait'')
       None (Some error_code) (Some (take_chars 2000 (redact_text (exn_str error)))) now db"

section \<open>One pass of the worker\<close>

definition default_result_json :: "ingest_raw_round_result \<Rightarrow> string" where
  "default_result_json r = json_dumps (sort_keys (JObj
     [(''accepted'', JBool (ir_accepted r)), (''duplicate'', JBool (ir_duplicate r)),
      (''raw_round_id'', jopt (ir_core_raw_round_id r))]))"

definition delivered_result_json :: "ingest_raw_round_result \<Rightarrow> string" where
  "delivered_result_json r = (case ir_result_json r of
      Some t \<Rightarrow> if t = [] then default_result_json r else t
    | None \<Rightarrow> default_result_json r)"

text \<open>The body of the \<^verbatim>\<open>try\<close> up to the completion: the result text, or what it raises.\<close>

definition attempt_delivery ::
  "core_command_worker \<Rightarrow> core_gateway \<Rightarrow> core_command \<Rightarrow> rounds_db \<Rightarrow> string res" where
  "attempt_delivery w gateway command db =
     (if cc_command_type command = ''ingest_raw_round'' then
        rbind (deliver_raw_round w gateway command db) (\<lambda>r.
        raise_if (\<not> ir_accepted r) (DomainRejectedError ''core_rejected'' ''Core did not accept RawRound'')
        (Inr (delivered_result_json r)))
      else Inl (DomainRejectedError ''unsupported_command_type'' (cc_command_type command)))"

definition handle_error ::
  "core_command_worker \<Rightarrow> core_command \<Rightarrow> exn \<Rightarrow> datetime \<Rightarrow> rounds_db
     \<Rightarrow> core_command_process_result res \<times> rounds_db" where
  "handle_error w command e now db = (case e of
      DomainRejectedError code detail \<Rightarrow>
        worker_finish w (cc_command_id command) ''rejected'' None (Some code)
          (Some (take_chars 2000 (redact_text detail))) now db
    | TransientCoreError _ \<Rightarrow>
        finish_retry_or_failure w (cc_command_id command) (cc_attempts command) ''core_delivery_error'' e now db
    | _ \<Rightarrow>
        finish_retry_or_failure w (cc_command_id command) (cc_attempts command)
          (if is_value_error e then ''core_delivery_error'' else ''core_gateway_error'') e now db)"

definition process_once ::
  "core_command_worker \<Rightarrow> core_gateway \<Rightarrow> bool \<Rightarrow> (rounds_db \<Rightarrow> rounds_db) \<Rightarrow> (rounds_db \<Rightarrow> rounds_db)
     \<Rightarrow> (nat \<Rightarrow> datetime) \<Rightarrow> rounds_db \<Rightarrow> core_command_process_result option res \<times> rounds_db" where
  "process_once w gateway stop env1 env2 clk db =
     (if stop then (Inr None, db) else
      (case worker_claim w stop (clk 0) db of
         (Inl e, db1) \<Rightarrow> (Inl e, db1)
       | (Inr None, db1) \<Rightarrow> (Inr None, db1)
       | (Inr (Some command), db1) \<Rightarrow>
           (let db2 = env1 db1; db3 = env2 db2;
                (r, db4) =
                  (case attempt_delivery w gateway command db2 of
                     Inl e \<Rightarrow> handle_error w command e (clk 1) db3
                   | Inr result_json \<Rightarrow>
                      (case worker_finish w (cc_command_id command) ''completed'' (Some result_json)
                              None None (clk 1) db3 of
                         (Inl e, db') \<Rightarrow> handle_error w command e (clk 2) db'
                       | (Inr x, db') \<Rightarrow> (Inr x, db')))
            in (rbind r (\<lambda>x. Inr (Some x)), db4))))"

section \<open>What a pass achieves\<close>

text \<open>The completion without its transaction, and the status a delivery calls for.\<close>

definition settled ::
  "string \<Rightarrow> string option \<Rightarrow> string option \<Rightarrow> datetime \<Rightarrow> core_command \<Rightarrow> rounds_db \<Rightarrow> rounds_db" where
  "settled status result_json error_code now command db =
     (case payload_round_id (cc_payload_json command) of
        None \<Rightarrow> db
      | Some i \<Rightarrow>
          if cc_command_type command \<noteq> ''ingest_raw_round'' \<or> i = [] then db
          else (let db1 = snd (projr (update_core_raw_round_delivery i (delivery_status_of status)
                  (result_round_id result_json) error_code now db))
                in if status = ''completed'' then snd (clear_raw_round_payload i now db1) else db1))"

definition expected_status :: "core_command_worker \<Rightarrow> core_command \<Rightarrow> string res \<Rightarrow> string" where
  "expected_status w c r = (case r of
      Inr _ \<Rightarrow> ''completed''
    | Inl (DomainRejectedError _ _) \<Rightarrow> ''rejected''
    | Inl _ \<Rightarrow> if cw_max_attempts w \<le> cc_attempts c then ''failed'' else ''retry_wait'')"

text \<open>What others may do to the database while a command is delivered: they respect its lease.\<close>

definition respects_lease :: "string \<Rightarrow> (rounds_db \<Rightarrow> rounds_db) \<Rightarrow> bool" where
  "respects_lease worker env \<longleftrightarrow> (\<forall>db. db_wf db \<longrightarrow> db_wf (env db) \<and>
     (\<forall>i c. get_core_command i db = Some c \<and> cc_status c = ''delivering'' \<and> cc_claimed_by c = Some worker
        \<longrightarrow> get_core_command i (env db) = Some c))"

lemma delivery_status_of_ok: "delivery_status_of st \<in> set delivery_statuses"
  by (simp add: delivery_status_of_def delivery_statuses_def)

lemma update_delivery_ok:
  assumes "st \<in> set delivery_statuses"
  obtains b db' where "update_core_raw_round_delivery i st cr ec now db = Inr (b, db')"
  using assms by (auto simp: update_core_raw_round_delivery_def prod.case_eq_if)

lemma settle_delivery_opened:
  "settle_delivery ''ingest_raw_round'' st rj ec now c (opened f db) = (Inr (), opened f (settled st rj ec now c db))"
proof (cases "payload_round_id (cc_payload_json c)")
  case None
  then show ?thesis by (simp add: settle_delivery_def settled_def ureturn_def)
next
  case (Some i)
  obtain b d where "update_core_raw_round_delivery i (delivery_status_of st) (result_round_id rj) ec now db = Inr (b, d)"
    by (rule update_delivery_ok [OF delivery_status_of_ok])
  with Some show ?thesis
    by (simp add: settle_delivery_def settled_def uow_simps ureturn_def prod.case_eq_if)
qed

lemma finish_ok: "st \<in> set finish_statuses \<Longrightarrow> \<exists>b db'. finish_core_command i w st rj ec ed delay now db = Inr (b, db')"
  by (simp add: finish_core_command_def Let_def prod.case_eq_if)

lemma worker_finish_eq:
  assumes "db_wf db" and "st \<in> set finish_statuses"
  shows "worker_finish w i st rj ec ed now db =
    (case get_core_command i db of
       None \<Rightarrow> (Inr \<lparr>pr_command_id = i, pr_status = ''missing''\<rparr>, db)
     | Some c \<Rightarrow>
         if cc_status c = ''delivering'' \<and> cc_claimed_by c = Some (cw_worker_id w)
         then (Inr \<lparr>pr_command_id = i, pr_status = st\<rparr>,
               settled st rj ec now c (snd (projr (finish_core_command i (cw_worker_id w) st rj ec ed
                 (cw_retry_delay w) now db))))
         else (Inr \<lparr>pr_command_id = i, pr_status = ''lease_lost''\<rparr>, db))"
proof -
  obtain b db' where fin: "finish_core_command i (cw_worker_id w) st rj ec ed (cw_retry_delay w) now db = Inr (b, db')"
    using finish_ok [OF assms(2)] by blast
  note spec = finish_spec [OF assms(1) fin]
  show ?thesis
    using spec
    by (auto simp: worker_finish_def with_uow_opened uow_simps fin ureturn_def ubind_def
        settle_delivery_opened split: option.splits)
qed


lemma update_delivery_frame:
  assumes "update_core_raw_round_delivery i st cr ec now db = Inr (b, db')"
  shows "core_commands db' = core_commands db" "raw_rounds db' = raw_rounds db"
    "raw_round_payloads db' = raw_round_payloads db"
  using assms by (auto simp: update_core_raw_round_delivery_def res_simps prod.case_eq_if)

lemma clear_payload_frame:
  "core_commands (snd (clear_raw_round_payload i now db)) = core_commands db"
  "raw_rounds (snd (clear_raw_round_payload i now db)) = raw_rounds db"
  "raw_round_core_deliveries (snd (clear_raw_round_payload i now db)) = raw_round_core_deliveries db"
  by (simp_all add: clear_raw_round_payload_def empty_payload_def prod.case_eq_if)

lemma settled_cases:
  obtains (same) "settled st rj ec now c db = db"
    | (updated) i b d where "payload_round_id (cc_payload_json c) = Some i"
      "update_core_raw_round_delivery i (delivery_status_of st) (result_round_id rj) ec now db = Inr (b, d)"
      "settled st rj ec now c db = (if st = ''completed'' then snd (clear_raw_round_payload i now d) else d)"
proof (cases "payload_round_id (cc_payload_json c)")
  case None
  then show ?thesis using same by (simp add: settled_def)
next
  case (Some i)
  obtain b d where "update_core_raw_round_delivery i (delivery_status_of st) (result_round_id rj) ec now db = Inr (b, d)"
    by (rule update_delivery_ok [OF delivery_status_of_ok])
  then show ?thesis using Some same updated by (cases "cc_command_type c \<noteq> ''ingest_raw_round'' \<or> i = []")
      (simp_all add: settled_def)
qed

lemma settled_commands [simp]: "core_commands (settled st rj ec now c db) = core_commands db"
  by (cases rule: settled_cases [of st rj ec now c db])
    (simp_all add: update_delivery_frame clear_payload_frame)

lemma settled_rounds [simp]: "raw_rounds (settled st rj ec now c db) = raw_rounds db"
  by (cases rule: settled_cases [of st rj ec now c db])
    (simp_all add: update_delivery_frame clear_payload_frame)

lemma db_wf_settled: "db_wf db \<Longrightarrow> db_wf (settled st rj ec now c db)"
proof (cases rule: settled_cases [of st rj ec now c db])
  case (updated i b d)
  assume "db_wf db"
  then have "db_wf d" using updated(2) by (rule db_wf_update_delivery [rotated])
  moreover have "db_wf (snd (clear_raw_round_payload i now d))"
    using db_wf_step [OF step_clear_payload [OF prod.collapse [symmetric]] \<open>db_wf d\<close>] .
  ultimately show ?thesis by (simp add: updated(3))
qed simp

lemma get_core_command_settled [simp]:
  "get_core_command i (settled st rj ec now c db) = get_core_command i db"
  by (simp add: get_core_command_def)

lemma worker_finish_owned:
  assumes "db_wf db" and "st \<in> set finish_statuses" and "get_core_command i db = Some c"
    and "cc_status c = ''delivering''" and "cc_claimed_by c = Some (cw_worker_id w)"
  obtains db' where "worker_finish w i st rj ec ed now db = (Inr \<lparr>pr_command_id = i, pr_status = st\<rparr>, db')"
    and "db_wf db'" and "get_core_command i db' =
      Some (finish_row st (isoformat (now + cw_retry_delay w)) (isoformat now) rj ec ed c)"
proof -
  obtain b db1 where fin: "finish_core_command i (cw_worker_id w) st rj ec ed (cw_retry_delay w) now db = Inr (b, db1)"
    using finish_ok [OF assms(2)] by blast
  show ?thesis
  proof (rule that)
    show "worker_finish w i st rj ec ed now db
      = (Inr \<lparr>pr_command_id = i, pr_status = st\<rparr>, settled st rj ec now c db1)"
      using assms(3-5) by (simp add: worker_finish_eq [OF assms(1,2)] fin)
    show "db_wf (settled st rj ec now c db1)"
      using db_wf_finish [OF fin assms(1)] by (rule db_wf_settled)
    show "get_core_command i (settled st rj ec now c db1) =
      Some (finish_row st (isoformat (now + cw_retry_delay w)) (isoformat now) rj ec ed c)"
      using step_finish_get [OF fin assms(3)] assms(4,5) by simp
  qed
qed

lemma worker_finish_ownedD:
  assumes "worker_finish w i st rj ec ed now db = (Inr r, db')"
    and "db_wf db" and "st \<in> set finish_statuses" and "get_core_command i db = Some c"
    and "cc_status c = ''delivering''" and "cc_claimed_by c = Some (cw_worker_id w)"
  shows "r = \<lparr>pr_command_id = i, pr_status = st\<rparr> \<and> db_wf db' \<and> get_core_command i db' =
      Some (finish_row st (isoformat (now + cw_retry_delay w)) (isoformat now) rj ec ed c)"
  by (rule worker_finish_owned [OF assms(2-6), of rj ec ed now]) (use assms(1) in simp)

text \<open>The handler of an error ends in one completion, with the status the error calls for.\<close>

lemma handle_error_finishes:
  "\<exists>rj ec ed. handle_error w c e now db = worker_finish w (cc_command_id c) (expected_status w c (Inl e)) rj ec ed now db"
  by (cases e) (auto simp: handle_error_def finish_retry_or_failure_def expected_status_def)

lemma worker_claim_eq:
  "worker_claim w False now db = (case claim_core_command (cw_worker_id w) (cw_lease w) now db of
     (None, _) \<Rightarrow> (Inr None, db) | (Some c, db') \<Rightarrow> (Inr (Some c), db'))"
  by (simp add: worker_claim_def with_uow_opened uow_simps ureturn_def split: prod.splits option.splits)


lemma finish_statuses_expected: "expected_status w c r \<in> set finish_statuses"
  by (auto simp: expected_status_def finish_statuses_def split: sum.splits exn.splits)

lemma respects_leaseD:
  assumes "respects_lease v env" and "db_wf db"
  shows "db_wf (env db)"
    and "get_core_command i db = Some c \<Longrightarrow> cc_status c = ''delivering'' \<Longrightarrow> cc_claimed_by c = Some v \<Longrightarrow>
      get_core_command i (env db) = Some c"
  using assms by (auto simp: respects_lease_def)

lemma process_once_finishes:
  assumes "claim_core_command (cw_worker_id w) (cw_lease w) (clk 0) db = (Some c, db1)"
    and "db_wf (env2 (env1 db1))"
  shows "\<exists>x db' rj ec ed. process_once w gateway False env1 env2 clk db = (Inr (Some x), db')
     \<and> worker_finish w (cc_command_id c) (expected_status w c (attempt_delivery w gateway c (env1 db1)))
        rj ec ed (clk 1) (env2 (env1 db1)) = (Inr x, db')"
proof -
  let ?st = "expected_status w c (attempt_delivery w gateway c (env1 db1))"
  have "\<exists>x db'. worker_finish w i st rj ec ed now (env2 (env1 db1)) = (Inr x, db')"
    if "st \<in> set finish_statuses" for i st rj ec ed now
    using worker_finish_eq [OF assms(2) that] by (auto split: option.splits)
  then have fin: "\<exists>x db'. worker_finish w (cc_command_id c) ?st rj ec ed (clk 1) (env2 (env1 db1)) = (Inr x, db')" for rj ec ed
    using finish_statuses_expected by blast
  show ?thesis
  proof (cases "attempt_delivery w gateway c (env1 db1)")
    case (Inl e)
    obtain rj ec ed where "handle_error w c e (clk 1) (env2 (env1 db1))
        = worker_finish w (cc_command_id c) ?st rj ec ed (clk 1) (env2 (env1 db1))"
      using handle_error_finishes Inl by metis
    moreover from this fin [of rj ec ed] Inl obtain x db' where "handle_error w c e (clk 1) (env2 (env1 db1)) = (Inr x, db')"
      by auto
    ultimately show ?thesis
      using Inl by (intro exI [of _ x] exI [of _ db'] exI [of _ rj] exI [of _ ec] exI [of _ ed])
        (simp add: process_once_def worker_claim_eq assms(1))
  next
    case (Inr rj)
    then have "?st = ''completed''" by (simp add: expected_status_def)
    moreover from this fin [of "Some rj" None None] obtain x db'
      where "worker_finish w (cc_command_id c) ''completed'' (Some rj) None None (clk 1) (env2 (env1 db1)) = (Inr x, db')"
      by auto
    ultimately show ?thesis
      using Inr by (intro exI [of _ x] exI [of _ db'] exI [of _ "Some rj"] exI [of _ None])
        (simp add: process_once_def worker_claim_eq assms(1))
  qed
qed

lemma process_once_result:
  assumes "db_wf db" and "respects_lease (cw_worker_id w) env1" and "respects_lease (cw_worker_id w) env2"
    and "claim_core_command (cw_worker_id w) (cw_lease w) (clk 0) db = (Some c, db1)"
  shows "\<exists>db' c'. process_once w gateway False env1 env2 clk db =
      (Inr (Some \<lparr>pr_command_id = cc_command_id c,
         pr_status = expected_status w c (attempt_delivery w gateway c (env1 db1))\<rparr>), db')
    \<and> db_wf db' \<and> get_core_command (cc_command_id c) db' = Some c'
    \<and> cc_status c' = expected_status w c (attempt_delivery w gateway c (env1 db1))
    \<and> cc_claimed_by c' = None \<and> cc_attempts c' = cc_attempts c"
proof -
  have wf1: "db_wf db1" by (rule db_wf_claim [OF assms(4,1)])
  have get1: "get_core_command (cc_command_id c) db1 = Some c"
    by (rule get_core_command_claimed [OF assms(1,4)])
  obtain x where "c = claim_row (isoformat (clk 0 + max (cw_lease w) (microseconds 1))) (cw_worker_id w) x"
    by (rule claim_Some_row [OF assms(1,4)])
  then have own: "cc_status c = ''delivering''" "cc_claimed_by c = Some (cw_worker_id w)"
    by (simp_all add: claim_row_def)
  let ?db3 = "env2 (env1 db1)"
  have wf2: "db_wf (env1 db1)" and get2: "get_core_command (cc_command_id c) (env1 db1) = Some c"
    using respects_leaseD [OF assms(2) wf1] get1 own by blast+
  have wf3: "db_wf ?db3" and get3: "get_core_command (cc_command_id c) ?db3 = Some c"
    using respects_leaseD [OF assms(3) wf2] get2 own by blast+
  obtain x db' rj ec ed where run: "process_once w gateway False env1 env2 clk db = (Inr (Some x), db')"
    and fin: "worker_finish w (cc_command_id c) (expected_status w c (attempt_delivery w gateway c (env1 db1)))
        rj ec ed (clk 1) ?db3 = (Inr x, db')"
    using process_once_finishes [where clk = clk and ?env1.0 = env1 and ?env2.0 = env2, OF assms(4) wf3] by blast
  show ?thesis
    using worker_finish_ownedD [OF fin wf3 finish_statuses_expected get3 own] run
    by (simp add: finish_row_def)
qed

section \<open>Properties\<close>

text \<open>
  C17. A pass of the worker settles what it claimed, whatever the gateway does, however long it takes,
  and whatever others do to the database meanwhile as long as its integrity holds. When a command was
  due and is still claimed by this worker at the completion, the pass returns it with the status its
  delivery calls for (completed, rejected, put off, or failed once the attempts are used up); that
  status is what the database then holds, the claim and the lease are given back and the attempts are
  kept. When the lease was lost meanwhile, the pass reports that, or that the command is missing, and
  leaves the database as the others left it. No exception of the gateway escapes.
\<close>

theorem process_once_settles:
  assumes "db_wf db" and "\<And>d. db_wf d \<Longrightarrow> db_wf (env1 d)" and "\<And>d. db_wf d \<Longrightarrow> db_wf (env2 d)"
    and "claim_core_command (cw_worker_id w) (cw_lease w) (clk 0) db = (Some c, db1)"
    and "st = expected_status w c (attempt_delivery w gateway c (env1 db1))" and "db3 = env2 (env1 db1)"
  shows "case get_core_command (cc_command_id c) db3 of
      None \<Rightarrow> process_once w gateway False env1 env2 clk db =
        (Inr (Some \<lparr>pr_command_id = cc_command_id c, pr_status = ''missing''\<rparr>), db3)
    | Some x \<Rightarrow>
        if cc_status x = ''delivering'' \<and> cc_claimed_by x = Some (cw_worker_id w)
        then \<exists>db' c'. process_once w gateway False env1 env2 clk db =
            (Inr (Some \<lparr>pr_command_id = cc_command_id c, pr_status = st\<rparr>), db')
          \<and> db_wf db' \<and> get_core_command (cc_command_id c) db' = Some c' \<and> cc_status c' = st
          \<and> cc_claimed_by c' = None \<and> cc_lease_expires_at c' = None \<and> cc_attempts c' = cc_attempts x
        else process_once w gateway False env1 env2 clk db =
          (Inr (Some \<lparr>pr_command_id = cc_command_id c, pr_status = ''lease_lost''\<rparr>), db3)"
proof -
  have "db_wf db1" by (rule db_wf_claim [OF assms(4,1)])
  then have wf: "db_wf db3" using assms(2,3,6) by blast
  have st: "st \<in> set finish_statuses" using assms(5) finish_statuses_expected by simp
  obtain r db' rj ec ed where run: "process_once w gateway False env1 env2 clk db = (Inr (Some r), db')"
    and fin: "worker_finish w (cc_command_id c) st rj ec ed (clk 1) db3 = (Inr r, db')"
    using process_once_finishes [where clk = clk and ?env1.0 = env1 and ?env2.0 = env2, OF assms(4)] wf assms(5,6) by blast
  show ?thesis
  proof (cases "\<exists>x. get_core_command (cc_command_id c) db3 = Some x \<and> cc_status x = ''delivering''
      \<and> cc_claimed_by x = Some (cw_worker_id w)")
    case True
    then obtain x where x: "get_core_command (cc_command_id c) db3 = Some x" "cc_status x = ''delivering''"
      "cc_claimed_by x = Some (cw_worker_id w)" by blast
    then show ?thesis
      using worker_finish_ownedD [OF fin wf st x] run by (simp add: finish_row_def)
  next
    case False
    with fin run show ?thesis by (auto simp: worker_finish_eq [OF wf st] split: option.splits)
  qed
qed

theorem process_once_settles_witness:
  "\<exists>db'. process_once (new_core_command_worker ''w'' 5 0 0 None) (\<lambda>_. Inl (OtherError ''down'')) False
     id id (\<lambda>_. 0) queue_db = (Inr (Some \<lparr>pr_command_id = ''a'', pr_status = ''rejected''\<rparr>), db')"
proof -
  let ?w = "new_core_command_worker ''w'' 5 0 0 None"
  let ?c = "claim_row (isoformat (microseconds 1)) ''w'' (queued_command ''a'')"
  have c: "claim_core_command (cw_worker_id ?w) (cw_lease ?w) 0 queue_db
      = (Some ?c, snd (claim_core_command (cw_worker_id ?w) (cw_lease ?w) 0 queue_db))"
    by (simp add: queue_db_claim new_core_command_worker_def del: One_nat_def)
  from process_once_settles [where ?env1.0 = id and ?env2.0 = id and clk = "\<lambda>_. 0" and gateway = "\<lambda>_. Inl (OtherError ''down'')", OF queue_db_wf _ _ c refl refl]
  show ?thesis
    using get_core_command_claimed [OF queue_db_wf c]
    by (simp add: expected_status_def attempt_delivery_def claim_row_def queued_command_def new_core_command_worker_def)
      blast
qed

text \<open>
  A completion that comes too late changes nothing: when the command is gone, or another worker
  has taken it over, or it is no longer being delivered, the worker reports a lost lease (or a
  missing command) and the database is as it was.
\<close>

theorem late_completion_ignored:
  assumes "db_wf db" and "st \<in> set finish_statuses"
    and "\<And>c. get_core_command i db = Some c \<Longrightarrow>
      cc_status c \<noteq> ''delivering'' \<or> cc_claimed_by c \<noteq> Some (cw_worker_id w)"
  shows "worker_finish w i st rj ec ed now db = (Inr \<lparr>pr_command_id = i,
    pr_status = (if get_core_command i db = None then ''missing'' else ''lease_lost'')\<rparr>, db)"
  using assms(3) by (auto simp: worker_finish_eq [OF assms(1,2)] split: option.splits)

theorem late_completion_ignored_witness:
  "worker_finish (new_core_command_worker ''w'' 5 0 0 None) ''a'' ''completed'' None None None 0 queue_db
     = (Inr \<lparr>pr_command_id = ''a'', pr_status = ''lease_lost''\<rparr>, queue_db)"
  using late_completion_ignored [OF queue_db_wf, of "''completed''" "''a''" "new_core_command_worker ''w'' 5 0 0 None"]
  by (simp add: finish_statuses_def queue_db_def get_core_command_def queued_command_def)

text \<open>
  Retries are bounded: a pass that puts a command off leaves it with fewer attempts than the
  limit, and every claim counts one, so a command whose delivery keeps failing is given up (status
  failed) at the latest at the attempt that reaches the limit.
\<close>

lemma retries_bounded:
  assumes "db_wf db" and "respects_lease (cw_worker_id w) env1" and "respects_lease (cw_worker_id w) env2"
    and "claim_core_command (cw_worker_id w) (cw_lease w) (clk 0) db = (Some c, db1)"
    and "process_once w gateway False env1 env2 clk db = (Inr (Some pr), db')"
  shows "(pr_status pr = ''retry_wait'' \<longrightarrow> cc_attempts c < cw_max_attempts w)
    \<and> (\<exists>x c'. get_core_command (cc_command_id c) db = Some x \<and> cc_attempts c = Suc (cc_attempts x)
        \<and> get_core_command (cc_command_id c) db' = Some c' \<and> cc_attempts c' = Suc (cc_attempts x))"
proof -
  obtain x where x: "x \<in> set (core_commands db)"
    "c = claim_row (isoformat (clk 0 + max (cw_lease w) (microseconds 1))) (cw_worker_id w) x"
    by (rule claim_Some_row [OF assms(1,4)])
  have "get_core_command (cc_command_id c) db = Some x"
    using command_by_id [OF assms(1) x(1)] by (simp add: x(2))
  moreover have "cc_attempts c = Suc (cc_attempts x)" by (simp add: x(2) claim_row_def)
  moreover obtain c' where "pr_status pr = expected_status w c (attempt_delivery w gateway c (env1 db1))"
    "get_core_command (cc_command_id c) db' = Some c'" "cc_attempts c' = cc_attempts c"
    using process_once_result [where clk = clk, OF assms(1-4), of gateway] assms(5) by auto
  ultimately show ?thesis
    by (auto simp: expected_status_def split: sum.splits exn.splits if_splits)
qed


theorem retries_bounded_witness:
  "\<exists>c'. get_core_command ''a'' (snd (process_once (new_core_command_worker ''w'' 5 0 0 None)
     (\<lambda>_. Inl (OtherError ''down'')) False id id (\<lambda>_. 0) queue_db)) = Some c' \<and> cc_attempts c' = 1"
proof -
  let ?w = "new_core_command_worker ''w'' 5 0 0 None" and ?g = "\<lambda>_. Inl (OtherError ''down'')"
  let ?c = "claim_row (isoformat (microseconds 1)) ''w'' (queued_command ''a'')"
  have id: "respects_lease (cw_worker_id ?w) id" by (simp add: respects_lease_def)
  have c: "claim_core_command (cw_worker_id ?w) (cw_lease ?w) 0 queue_db
      = (Some ?c, snd (claim_core_command (cw_worker_id ?w) (cw_lease ?w) 0 queue_db))"
    by (simp add: queue_db_claim new_core_command_worker_def del: One_nat_def)
  obtain pr db' where p: "process_once ?w ?g False id id (\<lambda>_. 0) queue_db = (Inr (Some pr), db')"
    using process_once_result [OF queue_db_wf id id, where clk = "\<lambda>_. 0", OF c, of ?g] by blast
  from retries_bounded [OF queue_db_wf id id, where clk = "\<lambda>_. 0", OF c p]
  show ?thesis
    by (auto simp: p claim_row_def queued_command_def)
qed

end
