(* ===== verification/Requeue.thy ===== *)
theory Requeue
  imports Rounds_Db
begin

text \<open>
  The explicit requeue of rejected commands (\<^verbatim>\<open>retry_failed_round_semantic\<close> of \<^verbatim>\<open>bootstrap.py\<close>, behind the maintenance
  endpoint): the commands that were rejected because a normalized round exceeded a budget are put back
  in the queue, with their deliveries. It is the only operation besides the repositories that changes
  the status of a command.
\<close>

section \<open>The code\<close>

text \<open>\<^verbatim>\<open>LOWER(COALESCE(detail, '')) LIKE '%normalized%budget%'\<close>: the one word and, behind it, the other.\<close>

fun after_first :: "string \<Rightarrow> string \<Rightarrow> string option" where
  "after_first p [] = (if p = [] then Some [] else None)"
| "after_first p (c # s) = (if prefix p (c # s) then Some (drop (length p) (c # s)) else after_first p s)"

definition mentions_budget :: "string option \<Rightarrow> bool" where
  "mentions_budget detail =
     (case after_first ''normalized'' (lower (case coalesce detail (Some []) of Some s \<Rightarrow> s | None \<Rightarrow> [])) of
        None \<Rightarrow> False
      | Some rest \<Rightarrow> occurs_in ''budget'' rest)"

definition requeueable :: "string option \<Rightarrow> string option \<Rightarrow> core_command \<Rightarrow> bool" where
  "requeueable error_code space c \<longleftrightarrow> cc_status c = ''rejected'' \<and> mentions_budget (cc_last_error_detail c)
     \<and> (error_code = None \<or> cc_last_error_code c = error_code)
     \<and> (space = None \<or> Some (cc_memory_space_id c) = space)"

text \<open>A negative LIMIT is none.\<close>

definition requeue_select :: "int \<Rightarrow> string option \<Rightarrow> string option \<Rightarrow> rounds_db \<Rightarrow> string list" where
  "requeue_select limit error_code space db =
     (let rows = sql_order_by (\<lambda>c. (cc_created_at c, cc_command_id c))
            (filter (requeueable error_code space) (core_commands db))
      in map cc_command_id (if limit < 0 then rows else take (nat limit) rows))"

definition requeue_row :: "timestamp \<Rightarrow> core_command \<Rightarrow> core_command" where
  "requeue_row now c = c\<lparr>cc_status := ''pending'', cc_attempts := 0, cc_available_at := now,
     cc_lease_expires_at := None, cc_claimed_by := None, cc_completed_at := None, cc_result_json := None,
     cc_last_error_code := None, cc_last_error_detail := None\<rparr>"

definition requeue_delivery :: "timestamp \<Rightarrow> core_delivery \<Rightarrow> core_delivery" where
  "requeue_delivery now d = d\<lparr>dl_transport_status := ''queued'', dl_last_error_code := None, dl_updated_at := now\<rparr>"

definition requeue_one :: "timestamp \<Rightarrow> string \<Rightarrow> rounds_db \<Rightarrow> rounds_db" where
  "requeue_one now i db = db
     \<lparr>core_commands := fst (sql_update (\<lambda>c. cc_command_id c = i \<and> cc_status c = ''rejected'') (requeue_row now)
        (core_commands db)),
      raw_round_core_deliveries := fst (sql_update (\<lambda>d. dl_command_id d = i) (requeue_delivery now)
        (raw_round_core_deliveries db))\<rparr>"

definition requeue_apply :: "timestamp \<Rightarrow> string list \<Rightarrow> rounds_db \<Rightarrow> rounds_db" where
  "requeue_apply now ids db = fold (requeue_one now) ids db"

text \<open>Selection and updates with nothing between them.\<close>

definition requeue :: "int \<Rightarrow> string option \<Rightarrow> string option \<Rightarrow> datetime \<Rightarrow> rounds_db \<Rightarrow> string list \<times> rounds_db" where
  "requeue limit error_code space now db =
     (let ids = requeue_select limit error_code space db in (ids, requeue_apply (isoformat now) ids db))"

text \<open>Repository calls and requeues, one after the other; the list holds the arguments of the requeues.\<close>

inductive maintained_run ::
  "(int \<times> string option \<times> string option \<times> datetime) list \<Rightarrow> rounds_db \<Rightarrow> rounds_db \<Rightarrow> bool" where
  mt_nil: "maintained_run [] db db"
| mt_calls: "maintained_run qs db d \<Longrightarrow> repo_run evs d d' \<Longrightarrow> maintained_run qs db d'"
| mt_requeue: "maintained_run qs db d \<Longrightarrow> requeue limit error_code space now d = (ids, d')
    \<Longrightarrow> maintained_run (qs @ [(limit, error_code, space, now)]) db d'"

section \<open>What a requeue does to the rows\<close>

lemma requeue_apply_commands:
  "core_commands (requeue_apply now ids db)
     = map (\<lambda>c. if cc_command_id c \<in> set ids \<and> cc_status c = ''rejected'' then requeue_row now c else c) (core_commands db)"
  by (induction ids arbitrary: db)
    (auto simp: requeue_apply_def requeue_one_def sql_update_def requeue_row_def)

lemma requeue_apply_deliveries:
  "raw_round_core_deliveries (requeue_apply now ids db)
     = map (\<lambda>d. if dl_command_id d \<in> set ids then requeue_delivery now d else d) (raw_round_core_deliveries db)"
  by (induction ids arbitrary: db)
    (auto simp: requeue_apply_def requeue_one_def sql_update_def requeue_delivery_def)

lemma requeue_apply_frame:
  "memory_spaces (requeue_apply now ids db) = memory_spaces db" "raw_rounds (requeue_apply now ids db) = raw_rounds db"
  "raw_round_payloads (requeue_apply now ids db) = raw_round_payloads db"
  by (induction ids arbitrary: db) (simp_all add: requeue_apply_def requeue_one_def)

lemma db_wf_requeue_apply: "db_wf db \<Longrightarrow> db_wf (requeue_apply now ids db)"
proof (induction ids arbitrary: db)
  case (Cons i ids)
  let ?db1 = "db\<lparr>core_commands := fst (sql_update (\<lambda>c. cc_command_id c = i \<and> cc_status c = ''rejected'')
     (requeue_row now) (core_commands db))\<rparr>"
  have "db_wf ?db1"
    by (rule db_wf_sql_update_commands [OF Cons.prems])
      (auto simp: requeue_row_def command_identity_def command_ok_def terminal_def terminal_statuses_def)
  moreover have "map dl_raw_round_id (fst (sql_update (\<lambda>d. dl_command_id d = i) (requeue_delivery now) t)) = map dl_raw_round_id t"
    "map dl_command_id (fst (sql_update (\<lambda>d. dl_command_id d = i) (requeue_delivery now) t)) = map dl_command_id t" for t
    by (simp_all add: sql_update_key requeue_delivery_def)
  ultimately have "db_wf (requeue_one now i db)"
    by (auto simp: requeue_one_def db_wf_def wf_deliveries_def space_ids_def round_ids_def list_all_iff
        sql_update_fst_set requeue_delivery_def delivery_statuses_def)
  then show ?case using Cons.IH by (simp add: requeue_apply_def)
qed (simp add: requeue_apply_def)

lemma requeue_command:
  assumes "db_wf db" and "get_core_command i db = Some c"
  shows "get_core_command i (requeue_apply now ids db)
     = Some (if i \<in> set ids \<and> cc_status c = ''rejected'' then requeue_row now c else c)"
proof -
  have c: "c \<in> set (core_commands db)" "cc_command_id c = i" using get_core_command_Some [OF assms(2)] by auto
  let ?f = "\<lambda>c. if cc_command_id c \<in> set ids \<and> cc_status c = ''rejected'' then requeue_row now c else c"
  have "?f c \<in> set (core_commands (requeue_apply now ids db))" using c by (simp add: requeue_apply_commands)
  moreover have "cc_command_id (?f c) = i" using c by (simp add: requeue_row_def)
  ultimately show ?thesis
    using command_by_id [OF db_wf_requeue_apply [OF assms(1)], of "?f c" now ids] c by simp
qed

lemma requeue_selected:
  assumes "db_wf db" and "get_core_command i db = Some c" and "i \<in> set (requeue_select limit error_code space db)"
  shows "requeueable error_code space c \<and> limit \<noteq> 0"
proof -
  from assms(3) have "limit \<noteq> 0" by (auto simp: requeue_select_def)
  moreover from assms(3) obtain x where x: "x \<in> set (core_commands db)" "requeueable error_code space x" "cc_command_id x = i"
    by (auto simp: requeue_select_def Let_def split: if_splits dest!: in_set_takeD)
  moreover have "x = c" using command_by_id [OF assms(1) x(1)] x(3) assms(2) by simp
  ultimately show ?thesis by simp
qed

lemma db_wf_maintained: "maintained_run qs db db' \<Longrightarrow> db_wf db \<Longrightarrow> db_wf db'"
  by (induction rule: maintained_run.induct)
    (auto simp: requeue_def Let_def intro: db_wf_run db_wf_requeue_apply)

section \<open>Properties\<close>


text \<open>A rejected command, and the requeue that takes it up.\<close>

definition rejected_command :: core_command where
  "rejected_command = (queued_command ''a'')\<lparr>cc_status := ''rejected'', cc_attempts := 1, cc_completed_at := Some [],
     cc_last_error_code := Some ''too_large'', cc_last_error_detail := Some ''Normalized round is over its budget''\<rparr>"

lemma rejected_db_wf: "db_wf (queue_db\<lparr>core_commands := [rejected_command]\<rparr>)"
  by (rule db_wf_commands [OF queue_db_wf])
    (simp add: wf_commands_def rejected_command_def queued_command_def command_ok_def terminal_def terminal_statuses_def)


text \<open>
  The selection is read before the transaction of the updates begins, and only the update of the commands looks at the
  status again. A command that was requeued and completed in between keeps its row, but its delivery is queued again.
\<close>

lemma stale_requeue_splits:
  assumes "db_wf db" and "get_core_command i db = Some c" and "cc_status c = ''completed''"
    and "d \<in> set (raw_round_core_deliveries db)" and "dl_command_id d = i"
  shows "get_core_command i (requeue_apply now [i] db) = Some c
     \<and> (\<exists>d'\<in>set (raw_round_core_deliveries (requeue_apply now [i] db)). dl_command_id d' = i
         \<and> dl_raw_round_id d' = dl_raw_round_id d \<and> dl_transport_status d' = ''queued'')"
  using requeue_command [OF assms(1,2), of now "[i]"] assms(3-5)
  by (auto simp: requeue_apply_deliveries requeue_delivery_def intro!: bexI [of _ "requeue_delivery now d"])

end
