(* ===== verification/Outbox.thy ===== *)
theory Outbox
  imports CoreCommandWorker Requeue
begin

text \<open>
  The transactions of the running service over the rounds database, interleaved in any order: the
  captures of the API, the claims and completions of any number of delivery workers, the retention
  worker and the explicit requeue of rejected commands. The invariant is the transactional outbox:
  every captured round has exactly one delivery record and one Core command, and their states agree.
\<close>

section \<open>The invariant\<close>

definition statuses_agree :: "string \<Rightarrow> string \<Rightarrow> bool" where
  "statuses_agree command delivery =
     (if command = ''completed'' then delivery = ''accepted''
      else if command = ''rejected'' \<or> command = ''failed'' then delivery = ''rejected''
      else if command = ''retry_wait'' then delivery = ''retry_wait''
      else if command = ''pending'' then delivery = ''queued''
      else delivery = ''queued'' \<or> delivery = ''retry_wait'')"

definition command_for :: "raw_round \<Rightarrow> core_command \<Rightarrow> bool" where
  "command_for r c \<longleftrightarrow> snd (command_content c) =
     (''ingest_raw_round'', rr_memory_space_id r, rr_payload_digest r,
      command_payload (rr_raw_round_id r), command_digest (command_payload (rr_raw_round_id r)))"

definition linked :: "rounds_db \<Rightarrow> raw_round \<Rightarrow> bool" where
  "linked db r = (case get_core_raw_round_delivery (rr_raw_round_id r) db of
      None \<Rightarrow> False
    | Some d \<Rightarrow> (case get_core_command (dl_command_id d) db of
        None \<Rightarrow> False
      | Some c \<Rightarrow> command_for r c \<and> statuses_agree (cc_status c) (dl_transport_status d)))"

definition outbox_ok :: "rounds_db \<Rightarrow> bool" where
  "outbox_ok db \<longleftrightarrow> db_wf db
     \<and> list_all (\<lambda>r. rr_raw_round_id r \<noteq> [] \<and> linked db r) (raw_rounds db)
     \<and> list_all (\<lambda>c. list_ex (\<lambda>r. command_for r c) (raw_rounds db)) (core_commands db)"

text \<open>
  A payload may have been emptied for two reasons only: Core accepted the round, or its retention had
  expired when it was emptied.
\<close>

definition accepted_round :: "rounds_db \<Rightarrow> string \<Rightarrow> bool" where
  "accepted_round db i = (case get_core_raw_round_delivery i db of
      None \<Rightarrow> False | Some d \<Rightarrow> dl_transport_status d = ''accepted'')"

definition payload_accounted :: "rounds_db \<Rightarrow> raw_round_payload \<Rightarrow> bool" where
  "payload_accounted db p = (case pl_deleted_at p of
      None \<Rightarrow> True
    | Some t \<Rightarrow> accepted_round db (pl_raw_round_id p)
        \<or> (case pl_retention_expires_at p of None \<Rightarrow> False | Some e \<Rightarrow> e \<le> t))"

definition service_ok :: "rounds_db \<Rightarrow> bool" where
  "service_ok db \<longleftrightarrow> outbox_ok db \<and> list_all (payload_accounted db) (raw_round_payloads db)"

text \<open>An identifier drawn by \<^verbatim>\<open>uuid4\<close> is not the empty text.\<close>

inductive service_step :: "rounds_db \<Rightarrow> rounds_db \<Rightarrow> bool" where
  svc_capture: "handle p h ru cu clk rq db = (res, db') \<Longrightarrow> ru \<noteq> [] \<Longrightarrow> service_step db db'"
| svc_claim: "worker_claim w stop now db = (c, db') \<Longrightarrow> service_step db db'"
| svc_finish: "worker_finish w i st rj ec ed now db = (r, db') \<Longrightarrow> st \<in> set finish_statuses \<Longrightarrow>
    service_step db db'"
| svc_retention: "retention_process_once cutoff limit now db = (n, db') \<Longrightarrow> service_step db db'"
| svc_requeue: "requeue n code space now db = (ids, db') \<Longrightarrow> service_step db db'"

section \<open>Identifiers in payloads\<close>

lemma payload_round_id_command [simp]: "payload_round_id (command_payload i) = Some i"
  by (simp add: payload_round_id_def json_loads_command_payload py_str_def)

lemma command_payload_inj: "command_payload i = command_payload j \<longleftrightarrow> i = j"
  by (metis option.inject payload_round_id_command)

lemma command_for_unique:
  assumes "db_wf db" and "r \<in> set (raw_rounds db)" and "r' \<in> set (raw_rounds db)"
    and "command_for r c" and "command_for r' c"
  shows "r' = r"
proof -
  have "rr_raw_round_id r' = rr_raw_round_id r"
    using assms(4,5) by (simp add: command_for_def command_payload_inj)
  moreover have "inj_on rr_raw_round_id (set (raw_rounds db))"
    using assms(1) by (simp add: db_wf_def wf_rounds_def distinct_map)
  ultimately show ?thesis using assms(2,3) by (auto dest: inj_onD)
qed

lemma linkedE:
  assumes "linked db r"
  obtains d c where "get_core_raw_round_delivery (rr_raw_round_id r) db = Some d"
    "get_core_command (dl_command_id d) db = Some c" "command_for r c"
    "statuses_agree (cc_status c) (dl_transport_status d)"
  using assms by (auto simp: linked_def split: option.splits)

lemma linked_frame:
  assumes "core_commands db' = core_commands db"
    and "raw_round_core_deliveries db' = raw_round_core_deliveries db"
  shows "linked db' r = linked db r"
proof -
  have "get_core_command i db' = get_core_command i db" for i by (simp add: get_core_command_def assms(1))
  moreover have "get_core_raw_round_delivery i db' = get_core_raw_round_delivery i db" for i
    by (simp add: get_core_raw_round_delivery_def assms(2))
  ultimately show ?thesis by (simp add: linked_def split: option.splits)
qed

lemma outbox_frame:
  assumes "outbox_ok db" and "db_wf db'" and "core_commands db' = core_commands db"
    and "raw_round_core_deliveries db' = raw_round_core_deliveries db" and "raw_rounds db' = raw_rounds db"
  shows "outbox_ok db'"
  using assms linked_frame [OF assms(3,4)] by (simp add: outbox_ok_def)

text \<open>An update of rows, whatever it does, that keeps the content of the commands.\<close>

lemma linked_row_updates:
  assumes "linked db r"
    and "\<And>c. cc_command_id (f c) = cc_command_id c" and "\<And>c. command_content (f c) = command_content c"
    and "\<And>d. dl_raw_round_id (g d) = dl_raw_round_id d" and "\<And>d. dl_command_id (g d) = dl_command_id d"
    and "\<And>c d. command_for r c \<Longrightarrow> dl_raw_round_id d = rr_raw_round_id r \<Longrightarrow>
      statuses_agree (cc_status c) (dl_transport_status d) \<Longrightarrow>
      get_core_command (cc_command_id c) db = Some c \<Longrightarrow> dl_command_id d = cc_command_id c \<Longrightarrow>
      statuses_agree (cc_status (f c)) (dl_transport_status (g d))"
    and "core_commands db' = map f (core_commands db)"
    and "raw_round_core_deliveries db' = map g (raw_round_core_deliveries db)"
  shows "linked db' r"
proof -
  from assms(1) obtain d c where d: "get_core_raw_round_delivery (rr_raw_round_id r) db = Some d"
    and c: "get_core_command (dl_command_id d) db = Some c" "command_for r c"
      "statuses_agree (cc_status c) (dl_transport_status d)" by (rule linkedE)
  have get_map: "sql_first (\<lambda>x. k x = i) (map f t) = map_option f (sql_first (\<lambda>x. k x = i) t)"
    if "\<And>x. k (f x) = k x" for k :: "'x \<Rightarrow> string" and f i t
    using that by (induction t) simp_all
  have "dl_raw_round_id d = rr_raw_round_id r"
    using d by (auto simp: get_core_raw_round_delivery_def dest: sql_first_Some)
  moreover have "get_core_command (cc_command_id c) db = Some c"
    using c(1) get_core_command_Some [OF c(1)] by simp
  moreover have "dl_command_id d = cc_command_id c" using get_core_command_Some [OF c(1)] by simp
  ultimately have "statuses_agree (cc_status (f c)) (dl_transport_status (g d))"
    using assms(6) c(2,3) by blast
  moreover have "get_core_raw_round_delivery (rr_raw_round_id r) db' = Some (g d)"
    using d by (simp add: get_core_raw_round_delivery_def assms(8) get_map [of dl_raw_round_id] assms(4))
  moreover have "get_core_command (dl_command_id (g d)) db' = Some (f c)"
    using c(1) by (simp add: get_core_command_def assms(7) assms(5) get_map [of cc_command_id] assms(2))
  ultimately show ?thesis using c(2) assms(3) [of c] by (simp add: linked_def command_for_def)
qed

lemma outbox_row_updates:
  assumes "outbox_ok db" and "db_wf db'"
    and "\<And>c. cc_command_id (f c) = cc_command_id c" and "\<And>c. command_content (f c) = command_content c"
    and "\<And>d. dl_raw_round_id (g d) = dl_raw_round_id d" and "\<And>d. dl_command_id (g d) = dl_command_id d"
    and "\<And>r c d. r \<in> set (raw_rounds db) \<Longrightarrow> command_for r c \<Longrightarrow> dl_raw_round_id d = rr_raw_round_id r \<Longrightarrow>
      statuses_agree (cc_status c) (dl_transport_status d) \<Longrightarrow>
      get_core_command (cc_command_id c) db = Some c \<Longrightarrow> dl_command_id d = cc_command_id c \<Longrightarrow>
      statuses_agree (cc_status (f c)) (dl_transport_status (g d))"
    and "core_commands db' = map f (core_commands db)"
    and "raw_round_core_deliveries db' = map g (raw_round_core_deliveries db)"
    and "raw_rounds db' = raw_rounds db"
  shows "outbox_ok db'"
proof -
  have "linked db' r" if "r \<in> set (raw_rounds db)" for r
  proof (rule linked_row_updates [OF _ assms(3-6) _ assms(8,9)])
    show "linked db r" using assms(1) that by (simp add: outbox_ok_def list_all_iff)
  qed (use assms(7) that in blast)
  moreover have "command_for r (f c) = command_for r c" for r c
    using assms(4) [of c] by (simp add: command_for_def)
  ultimately show ?thesis
    using assms(1,2) by (simp add: outbox_ok_def list_all_iff assms(8,10))
qed

section \<open>Every transaction keeps it\<close>

lemma outbox_claim:
  assumes "outbox_ok db" and "worker_claim w stop now db = (c, db')"
  shows "outbox_ok db'"
proof (cases "stop \<or> fst (claim_core_command (cw_worker_id w) (cw_lease w) now db) = None")
  case True
  then have "db' = db"
  proof (cases stop)
    case True
    then show ?thesis using assms(2) by (simp add: worker_claim_def)
  next
    case False
    then show ?thesis using assms(2) \<open>stop \<or> _\<close>
      by (auto simp: worker_claim_eq split: prod.splits)
  qed
  then show ?thesis using assms(1) by simp
next
  case False
  have wf: "db_wf db" using assms(1) by (simp add: outbox_ok_def)
  from False assms(2) obtain r where r: "claim_core_command (cw_worker_id w) (cw_lease w) now db = (Some r, db')"
    by (auto simp: worker_claim_eq split: prod.splits)
  obtain x where x: "claimable (isoformat now) x"
    "r = claim_row (isoformat (now + max (cw_lease w) (microseconds 1))) (cw_worker_id w) x"
    "db' = db\<lparr>core_commands := map (\<lambda>y. if y = x then r else y) (core_commands db)\<rparr>"
    by (rule claim_Some_row [OF wf r])
  show ?thesis
  proof (rule outbox_row_updates [OF assms(1) db_wf_claim [OF r wf],
        where f = "\<lambda>y. if y = x then r else y" and g = id])
    fix y :: core_command and d :: core_delivery
    assume "statuses_agree (cc_status y) (dl_transport_status d)"
    then show "statuses_agree (cc_status (if y = x then r else y)) (dl_transport_status (id d))"
      using x(1) by (auto simp: x(2) claim_row_def claimable_def statuses_agree_def)
  qed (simp_all add: x)
qed

lemma agree_delivery_status_of:
  "st \<in> set finish_statuses \<Longrightarrow> statuses_agree st (delivery_status_of st)"
  by (auto simp: finish_statuses_def statuses_agree_def delivery_status_of_def)

lemma update_delivery_rows:
  assumes "update_core_raw_round_delivery i st cr ec now db = Inr (b, db')"
  shows "raw_round_core_deliveries db' = map (\<lambda>d. if dl_raw_round_id d = i
    then d\<lparr>dl_transport_status := st, dl_core_raw_round_id := coalesce cr (dl_core_raw_round_id d),
      dl_last_error_code := ec, dl_updated_at := isoformat now\<rparr> else d) (raw_round_core_deliveries db)"
  using assms by (auto simp: update_core_raw_round_delivery_def res_simps sql_update_def)

lemma settled_rows:
  assumes "payload_round_id (cc_payload_json c) = Some i" and "cc_command_type c = ''ingest_raw_round''"
    and "i \<noteq> []"
  shows "raw_round_core_deliveries (settled st rj ec now c db) = map (\<lambda>d. if dl_raw_round_id d = i
    then d\<lparr>dl_transport_status := delivery_status_of st,
      dl_core_raw_round_id := coalesce (result_round_id rj) (dl_core_raw_round_id d), dl_last_error_code := ec,
      dl_updated_at := isoformat now\<rparr> else d) (raw_round_core_deliveries db)"
proof -
  obtain b d where u: "update_core_raw_round_delivery i (delivery_status_of st) (result_round_id rj) ec now db = Inr (b, d)"
    by (rule update_delivery_ok [OF delivery_status_of_ok])
  with assms have "raw_round_core_deliveries (settled st rj ec now c db) = raw_round_core_deliveries d"
    by (simp add: settled_def clear_payload_frame)
  then show ?thesis using update_delivery_rows [OF u] by simp
qed

lemma command_for_identity:
  "command_for r c \<Longrightarrow> command_for r c' \<Longrightarrow> command_identity c = command_identity c'"
  by (simp add: command_for_def command_content_def command_identity_def)

lemma command_for_same:
  assumes "db_wf db" and "c \<in> set (core_commands db)" and "c' \<in> set (core_commands db)"
    and "command_for r c" and "command_for r c'"
  shows "c' = c"
proof -
  have "inj_on command_identity (set (core_commands db))"
    using assms(1) by (simp add: db_wf_def wf_commands_def distinct_map)
  then show ?thesis using assms(2,3) command_for_identity [OF assms(5,4)] by (auto dest: inj_onD)
qed

lemma worker_finish_cases:
  assumes "outbox_ok db" and "worker_finish w i st rj ec ed now db = (x, db')"
    and "st \<in> set finish_statuses"
  obtains (late) "db' = db"
    | (owned) c r db1 where "c \<in> set (core_commands db)" "cc_command_id c = i" "cc_status c = ''delivering''"
      "cc_claimed_by c = Some (cw_worker_id w)" "r \<in> set (raw_rounds db)" "command_for r c"
      "rr_raw_round_id r \<noteq> []" "db' = settled st rj ec now c db1" "db_wf db'"
      "payload_round_id (cc_payload_json c) = Some (rr_raw_round_id r)"
      "cc_command_type c = ''ingest_raw_round''"
      "db1 = db\<lparr>core_commands := map (\<lambda>c. if cc_command_id c = i \<and> cc_status c = ''delivering''
          \<and> cc_claimed_by c = Some (cw_worker_id w)
        then finish_row st (isoformat (now + cw_retry_delay w)) (isoformat now) rj ec ed c else c)
        (core_commands db)\<rparr>"
proof (cases "\<exists>c. get_core_command i db = Some c \<and> cc_status c = ''delivering''
    \<and> cc_claimed_by c = Some (cw_worker_id w)")
  case False
  have "db_wf db" using assms(1) by (simp add: outbox_ok_def)
  with False show ?thesis
    using assms(2,3) by (intro late) (auto simp: worker_finish_eq split: option.splits if_splits)
next
  case True
  have wf: "db_wf db" using assms(1) by (simp add: outbox_ok_def)
  from True obtain c where c: "get_core_command i db = Some c" "cc_status c = ''delivering''"
    "cc_claimed_by c = Some (cw_worker_id w)" by blast
  have cm: "c \<in> set (core_commands db)" "cc_command_id c = i" using get_core_command_Some [OF c(1)] by auto
  obtain r where r: "r \<in> set (raw_rounds db)" "command_for r c" "rr_raw_round_id r \<noteq> []"
    using assms(1) cm(1) by (auto simp: outbox_ok_def list_all_iff list_ex_iff)
  obtain b db1 where fin: "finish_core_command i (cw_worker_id w) st rj ec ed (cw_retry_delay w) now db = Inr (b, db1)"
    using finish_ok [OF assms(3)] by blast
  have db': "db' = settled st rj ec now c db1"
    using assms(2) c by (simp add: worker_finish_eq [OF wf assms(3)] fin)
  have "db_wf db'" unfolding db' by (rule db_wf_settled [OF db_wf_finish [OF fin wf]])
  moreover have "payload_round_id (cc_payload_json c) = Some (rr_raw_round_id r)"
    "cc_command_type c = ''ingest_raw_round''"
    using r(2) by (simp_all add: command_for_def command_content_def)
  ultimately show ?thesis
    by (rule owned [OF cm c(2,3) r db']) (simp add: finish_core_command_db(2) [OF fin] sql_update_def)
qed

lemma outbox_finish:
  assumes "outbox_ok db" and "worker_finish w i st rj ec ed now db = (x, db')"
    and "st \<in> set finish_statuses"
  shows "outbox_ok db'"
  using assms
proof (cases rule: worker_finish_cases)
  case (owned c r0 db1)
  have wf: "db_wf db" using assms(1) by (simp add: outbox_ok_def)
  let ?f = "\<lambda>c. if cc_command_id c = i \<and> cc_status c = ''delivering'' \<and> cc_claimed_by c = Some (cw_worker_id w)
    then finish_row st (isoformat (now + cw_retry_delay w)) (isoformat now) rj ec ed c else c"
  let ?g = "\<lambda>d. if dl_raw_round_id d = rr_raw_round_id r0
      then d\<lparr>dl_transport_status := delivery_status_of st,
        dl_core_raw_round_id := coalesce (result_round_id rj) (dl_core_raw_round_id d), dl_last_error_code := ec,
        dl_updated_at := isoformat now\<rparr> else d"
  show ?thesis
  proof (rule outbox_row_updates [OF assms(1) owned(9), where f = ?f and g = ?g])
    fix r c2 d
    assume r: "r \<in> set (raw_rounds db)" "command_for r c2" "dl_raw_round_id d = rr_raw_round_id r"
      "statuses_agree (cc_status c2) (dl_transport_status d)" "get_core_command (cc_command_id c2) db = Some c2"
    have c2: "c2 \<in> set (core_commands db)" using get_core_command_Some [OF r(5)] by simp
    show "statuses_agree (cc_status (?f c2)) (dl_transport_status (?g d))"
    proof (cases "r = r0")
      case True
      then have "c2 = c" using command_for_same [OF wf owned(1) c2 owned(6)] r(2) by simp
      then show ?thesis using True r(3) owned(2-4) agree_delivery_status_of [OF assms(3)]
        by (simp add: finish_row_def)
    next
      case False
      then have "dl_raw_round_id d \<noteq> rr_raw_round_id r0"
        using r(1,3) owned(5) wf by (auto simp: db_wf_def wf_rounds_def distinct_map dest: inj_onD)
      moreover have "c2 \<noteq> c" using command_for_unique [OF wf r(1) owned(5) r(2)] owned(6) False by auto
      then have "cc_command_id c2 \<noteq> i" using command_id_inj [OF wf owned(1) c2] owned(2) by auto
      ultimately show ?thesis using r(4) by simp
    qed
  qed (simp_all add: owned(8,12) settled_rows [OF owned(10,11,7)])
qed (simp add: assms(1))

lemma outbox_retention:
  assumes "outbox_ok db" and "retention_process_once cutoff limit now db = (n, db')"
  shows "outbox_ok db'"
proof -
  have frame: "core_commands (snd (empty_payloads t is d)) = core_commands d"
    "raw_rounds (snd (empty_payloads t is d)) = raw_rounds d"
    "raw_round_core_deliveries (snd (empty_payloads t is d)) = raw_round_core_deliveries d" for t "is" d
    by (induction "is" arbitrary: d) (simp_all add: Let_def prod.case_eq_if empty_payload_def)
  have "db_wf db" using assms(1) by (simp add: outbox_ok_def)
  then have "db_wf (snd (purge_expired cutoff limit now db))"
    using db_wf_step [OF step_purge [OF prod.collapse [symmetric]]] by blast
  then have "outbox_ok (snd (purge_expired cutoff limit now db))"
    by (rule outbox_frame [OF assms(1)]) (simp_all add: purge_expired_def Let_def frame)
  then show ?thesis
    using assms by (auto simp: retention_process_once_def with_uow_call_commit split: prod.splits if_splits)
qed

text \<open>A requeue selects rejected commands, whose deliveries are rejected too.\<close>

lemma outbox_requeue:
  assumes "outbox_ok db" and "requeue n code space now db = (ids, db')"
  shows "outbox_ok db'"
proof -
  have wf: "db_wf db" using assms(1) by (simp add: outbox_ok_def)
  have db': "db' = requeue_apply (isoformat now) ids db" and ids: "ids = requeue_select n code space db"
    using assms(2) by (auto simp: requeue_def Let_def)
  let ?f = "\<lambda>c. if cc_command_id c \<in> set ids \<and> cc_status c = ''rejected'' then requeue_row (isoformat now) c else c"
  let ?g = "\<lambda>d. if dl_command_id d \<in> set ids then requeue_delivery (isoformat now) d else d"
  show ?thesis
  proof (rule outbox_row_updates [OF assms(1), where f = ?f and g = ?g])
    fix r :: raw_round and c :: core_command and d :: core_delivery
    assume c: "statuses_agree (cc_status c) (dl_transport_status d)"
      "get_core_command (cc_command_id c) db = Some c" "dl_command_id d = cc_command_id c"
    have "cc_status c = ''rejected''" if "cc_command_id c \<in> set ids"
      using requeue_selected [OF wf c(2)] that by (simp add: ids requeueable_def)
    with c(1,3) show "statuses_agree (cc_status (?f c)) (dl_transport_status (?g d))"
      by (auto simp: requeue_row_def requeue_delivery_def statuses_agree_def)
  qed (simp_all add: db' db_wf_requeue_apply [OF wf] requeue_apply_commands requeue_apply_deliveries requeue_apply_frame
      requeue_row_def requeue_delivery_def command_content_def)
qed

text \<open>A capture that finds its round only touches the time of its delivery record.\<close>

lemma linked_delivery_repeat:
  assumes "db_wf db" and "linked db r" and "r \<in> set (raw_rounds db)"
    and "rq_memory_space_id rq = rr_memory_space_id r" and "rq_payload_digest rq = rr_payload_digest r"
  obtains res where "queue_delivery_spec cu clk (rr_raw_round_id r) rq dup db = Inr (res,
     db\<lparr>raw_round_core_deliveries := fst (sql_update (\<lambda>d. dl_raw_round_id d = rr_raw_round_id r)
        (\<lambda>d. d\<lparr>dl_updated_at := isoformat (clk 4)\<rparr>) (raw_round_core_deliveries db))\<rparr>)"
proof -
  obtain d c where d: "get_core_raw_round_delivery (rr_raw_round_id r) db = Some d"
    and c: "get_core_command (dl_command_id d) db = Some c" "command_for r c"
    using assms(2) by (rule linkedE)
  have c': "get_core_command (cc_command_id c) db = Some c" using c(1) get_core_command_Some [OF c(1)] by simp
  have "snd (command_content c) = (''ingest_raw_round'', rq_memory_space_id rq, rq_payload_digest rq,
      command_payload (rr_raw_round_id r), command_digest (command_payload (rr_raw_round_id r)))"
    using c(2) assms(4,5) by (simp add: command_for_def)
  from queue_delivery_repeat [OF assms(1) c' this d] show ?thesis using that by blast
qed

lemma get_by_capture_identity_Some:
  assumes "get_by_capture_identity sp k v db = Some x"
  obtains r where "r \<in> set (raw_rounds db)" "rr_memory_space_id r = sp" "x = join_payload db r"
  using assms by (auto simp: get_by_capture_identity_def dest: sql_first_Some)

lemma outbox_capture_duplicate:
  assumes "outbox_ok db" and "r \<in> set (raw_rounds db)" and "rq_memory_space_id rq = rr_memory_space_id r"
    and "rq_payload_digest rq = rr_payload_digest r"
    and "queue_delivery_spec cu clk (rr_raw_round_id r) rq dup db = Inr (res, db')"
  shows "outbox_ok db'"
proof -
  have wf: "db_wf db" and lk: "linked db r" using assms(1,2) by (simp_all add: outbox_ok_def list_all_iff)
  obtain res' where eq: "queue_delivery_spec cu clk (rr_raw_round_id r) rq dup db = Inr (res',
     db\<lparr>raw_round_core_deliveries := fst (sql_update (\<lambda>d. dl_raw_round_id d = rr_raw_round_id r)
        (\<lambda>d. d\<lparr>dl_updated_at := isoformat (clk 4)\<rparr>) (raw_round_core_deliveries db))\<rparr>)"
    by (rule linked_delivery_repeat [OF wf lk assms(2-4)])
  have "db_wf db'" by (rule queue_delivery_result [OF wf assms(5)])
  then show ?thesis
    by (rule outbox_row_updates [OF assms(1), where f = id and g = "\<lambda>d. if dl_raw_round_id d = rr_raw_round_id r
          then d\<lparr>dl_updated_at := isoformat (clk 4)\<rparr> else d"])
      (use eq assms(5) in \<open>auto simp: sql_update_def\<close>)
qed

text \<open>A first capture adds one round, one command and one delivery, linked to each other.\<close>

lemma outbox_append:
  assumes "outbox_ok db" and "db_wf db'" and "raw_rounds db' = raw_rounds db @ [r]"
    and "core_commands db' = core_commands db @ [c]"
    and "raw_round_core_deliveries db' = raw_round_core_deliveries db @ [d]"
    and "command_for r c" and "statuses_agree (cc_status c) (dl_transport_status d)"
    and "dl_raw_round_id d = rr_raw_round_id r" and "dl_command_id d = cc_command_id c"
    and "rr_raw_round_id r \<noteq> []"
  shows "outbox_ok db'"
proof -
  have old: "linked db' x" if "linked db x" for x
    using that by (auto simp: linked_def get_core_raw_round_delivery_def get_core_command_def assms(4,5)
        sql_first_append split: option.splits)
  have "d \<in> set (raw_round_core_deliveries db')" by (simp add: assms(5))
  moreover have "distinct (map dl_raw_round_id (raw_round_core_deliveries db'))"
    using assms(2) by (simp add: db_wf_def wf_deliveries_def)
  ultimately have "get_core_raw_round_delivery (rr_raw_round_id r) db' = Some d"
    using sql_first_key [of dl_raw_round_id "raw_round_core_deliveries db'" d] assms(8)
    by (simp add: get_core_raw_round_delivery_def)
  moreover have "get_core_command (dl_command_id d) db' = Some c"
    using command_by_id [OF assms(2), of c] by (simp add: assms(4,9))
  ultimately have "linked db' r" using assms(6,7) by (simp add: linked_def)
  then show ?thesis
    using assms old by (auto simp: outbox_ok_def list_all_iff list_ex_iff)
qed

text \<open>A first capture appends one row to each table: the command and the record that names it.\<close>

definition new_command :: "string \<Rightarrow> string \<Rightarrow> raw_round_request \<Rightarrow> datetime \<Rightarrow> core_command" where
  "new_command i ru rq now = \<lparr>cc_command_id = i, cc_command_type = ''ingest_raw_round'',
     cc_memory_space_id = rq_memory_space_id rq, cc_idempotency_key = rq_payload_digest rq,
     cc_payload_json = command_payload ru, cc_payload_digest = command_digest (command_payload ru),
     cc_status = ''pending'', cc_attempts = 0, cc_available_at = isoformat now, cc_lease_expires_at = None,
     cc_claimed_by = None, cc_completed_at = None, cc_result_json = None, cc_last_error_code = None,
     cc_last_error_detail = None, cc_created_at = isoformat now\<rparr>"

definition new_delivery :: "string \<Rightarrow> string \<Rightarrow> raw_round_request \<Rightarrow> datetime \<Rightarrow> core_delivery" where
  "new_delivery i ru rq now = \<lparr>dl_raw_round_id = ru, dl_memory_space_id = rq_memory_space_id rq, dl_command_id = i,
     dl_idempotency_key = rq_payload_digest rq, dl_transport_status = ''queued'', dl_core_raw_round_id = None,
     dl_core_job_id = None, dl_last_error_code = None, dl_created_at = isoformat now, dl_updated_at = isoformat now\<rparr>"

lemma fresh_capture_rows:
  assumes "outbox_ok db" and "capture_spec p h ru cu clk rq db = Inr (res, db')"
    and "get_by_capture_identity (rq_memory_space_id rq) (source_round_key p rq)
      (src_source_schema_version (rq_source rq)) db = None"
  obtains r0 where "db_wf db'" "raw_rounds db' = raw_rounds db @ [r0]" "rr_raw_round_id r0 = ru"
    "rr_memory_space_id r0 = rq_memory_space_id rq" "rr_payload_digest r0 = rq_payload_digest rq"
    "core_commands db' = core_commands db @ [new_command cu ru rq (clk 3)]"
    "raw_round_core_deliveries db' = raw_round_core_deliveries db @ [new_delivery cu ru rq (clk 4)]"
    "res = \<lparr>res_raw_round_id = ru, res_duplicate = False, res_status = ''queued_for_core'',
      res_core_command_id = Some cu, res_core_raw_round_id = None\<rparr>"
proof -
  have wf: "db_wf db" using assms(1) by (simp add: outbox_ok_def)
  obtain db2 r0 where wf2: "db_wf db2" and q: "queue_delivery_spec cu clk ru rq False db2 = Inr (res, db')"
    and same: "core_commands db2 = core_commands db"
      "raw_round_core_deliveries db2 = raw_round_core_deliveries db" "raw_rounds db2 = raw_rounds db @ [r0]"
    and r0: "rr_raw_round_id r0 = ru" "rr_memory_space_id r0 = rq_memory_space_id rq"
      "rr_payload_digest r0 = rq_payload_digest rq"
    by (rule capture_fresh [OF wf assms(2,3)]) blast
  have new_id: "ru \<notin> set (round_ids db)"
    using wf2 by (auto simp: db_wf_def wf_rounds_def same round_ids_def r0(1))
  obtain c db3 d where c: "create_core_command cu ''ingest_raw_round'' (rq_memory_space_id rq)
      (rq_payload_digest rq) (command_payload ru) (command_digest (command_payload ru)) None (clk 3) db2 = Inr (c, db3)"
    and d: "create_core_raw_round_delivery ru (rq_memory_space_id rq) (cc_command_id c)
      (rq_payload_digest rq) (clk 4) db3 = Inr (d, db')"
    and res: "res = \<lparr>res_raw_round_id = ru, res_duplicate = False,
        res_status = (if dl_transport_status d = ''queued'' then ''queued_for_core'' else dl_transport_status d),
        res_core_command_id = Some (cc_command_id c), res_core_raw_round_id = dl_core_raw_round_id d\<rparr>"
    using q by (auto simp: queue_delivery_spec_def res_simps)
  have wf3: "db_wf db3" using db_wf_create_command [OF c wf2] .
  have wf': "db_wf db'" using db_wf_create_delivery [OF d wf3] .
  have cont: "snd (command_content c) = (''ingest_raw_round'', rq_memory_space_id rq, rq_payload_digest rq,
      command_payload ru, command_digest (command_payload ru))"
    using create_core_command_result [OF wf2 c] by simp
  from c have cmds: "core_commands db3 = core_commands db @ [c] \<and> c = new_command cu ru rq (clk 3)"
  proof (cases rule: create_core_command_cases)
    case existing
    then have "c \<in> set (core_commands db)" using get_by_idempotency_iff [OF wf2] same(1) by auto
    then obtain r where "r \<in> set (raw_rounds db)" "command_for r c"
      using assms(1) by (auto simp: outbox_ok_def list_all_iff list_ex_iff)
    then have "rr_raw_round_id r = ru" using cont by (simp add: command_for_def command_payload_inj)
    with \<open>r \<in> set (raw_rounds db)\<close> new_id have False by (auto simp: round_ids_def)
    then show ?thesis ..
  next
    case new
    then show ?thesis
      by (auto simp: sql_insert_core_command_def res_simps same new_command_def)
  qed
  have "get_core_raw_round_delivery ru db3 = None"
    using new_id wf create_core_command_frame(3) [OF c] same(2)
    by (auto simp: get_core_raw_round_delivery_def sql_first_None db_wf_def wf_deliveries_def list_all_iff)
  with d have dlv: "raw_round_core_deliveries db' = raw_round_core_deliveries db3 @ [d] \<and> d = new_delivery cu ru rq (clk 4)"
    using cmds by (cases rule: create_delivery_cases) (simp_all add: new_delivery_def new_command_def)
  show ?thesis
  proof (rule that [OF wf' _ r0])
    show "raw_rounds db' = raw_rounds db @ [r0]"
      using create_delivery_frame(1) [OF d] create_core_command_frame(1) [OF c] same(3) by simp
    show "core_commands db' = core_commands db @ [new_command cu ru rq (clk 3)]"
      using create_delivery_frame(3) [OF d] cmds by simp
    show "raw_round_core_deliveries db' = raw_round_core_deliveries db @ [new_delivery cu ru rq (clk 4)]"
      using dlv create_core_command_frame(3) [OF c] same(2) by simp
  qed (use res cmds dlv in \<open>simp add: new_command_def new_delivery_def\<close>)
qed

lemma outbox_capture_fresh:
  assumes "outbox_ok db" and "capture_spec p h ru cu clk rq db = Inr (res, db')" and "ru \<noteq> []"
    and "get_by_capture_identity (rq_memory_space_id rq) (source_round_key p rq)
      (src_source_schema_version (rq_source rq)) db = None"
  shows "outbox_ok db'"
proof (rule fresh_capture_rows [OF assms(1,2,4)])
  fix r0
  assume "db_wf db'" "raw_rounds db' = raw_rounds db @ [r0]" "rr_raw_round_id r0 = ru"
    "rr_memory_space_id r0 = rq_memory_space_id rq" "rr_payload_digest r0 = rq_payload_digest rq"
    "core_commands db' = core_commands db @ [new_command cu ru rq (clk 3)]"
    "raw_round_core_deliveries db' = raw_round_core_deliveries db @ [new_delivery cu ru rq (clk 4)]"
  note rows = this
  show "outbox_ok db'"
  proof (rule outbox_append [OF assms(1) rows(1,2,6,7)])
    show "command_for r0 (new_command cu ru rq (clk 3))"
      by (simp add: command_for_def command_content_def new_command_def rows)
    show "statuses_agree (cc_status (new_command cu ru rq (clk 3))) (dl_transport_status (new_delivery cu ru rq (clk 4)))"
      by (simp add: statuses_agree_def new_command_def new_delivery_def)
  qed (use assms(3) rows in \<open>simp_all add: new_command_def new_delivery_def\<close>)
qed

lemma outbox_capture:
  assumes "outbox_ok db" and "handle p h ru cu clk rq db = (res, db')" and "ru \<noteq> []"
  shows "outbox_ok db'"
proof (cases res)
  case (Inl e)
  then have "db' = db" using assms(2) by (auto simp: handle_eq split: sum.splits prod.splits)
  then show ?thesis using assms(1) by simp
next
  case (Inr r)
  with assms(2) have cap: "capture_spec p h ru cu clk rq db = Inr (r, db')" using handle_Inr(2) by blast
  show ?thesis
  proof (cases "get_by_capture_identity (rq_memory_space_id rq) (source_round_key p rq)
      (src_source_schema_version (rq_source rq)) db")
    case None
    with assms(1,3) cap show ?thesis by (blast intro: outbox_capture_fresh)
  next
    case (Some x)
    from Some obtain r0 where r0: "r0 \<in> set (raw_rounds db)" "rr_memory_space_id r0 = rq_memory_space_id rq"
      "x = join_payload db r0" by (rule get_by_capture_identity_Some)
    have "rr_payload_digest r0 = rq_payload_digest rq"
      "queue_delivery_spec cu clk (rr_raw_round_id r0) rq True db = Inr (r, db')"
      using cap by (simp_all add: capture_duplicate [OF Some] r0(3) res_simps)
    then show ?thesis using outbox_capture_duplicate [OF assms(1) r0(1)] r0(2) by simp
  qed
qed

lemma outbox_step: "service_step db db' \<Longrightarrow> outbox_ok db \<Longrightarrow> outbox_ok db'"
  by (induction rule: service_step.induct)
    (blast intro: outbox_capture outbox_claim outbox_finish outbox_retention outbox_requeue)+

interpretation outbox: step_invariant service_step outbox_ok
  by unfold_locales (rule outbox_step)

lemma outbox_empty: "outbox_ok empty_db"
  using db_wf_empty by (simp add: outbox_ok_def empty_db_def)

section \<open>No payload is lost\<close>

lemma service_ok_outbox: "service_ok db \<Longrightarrow> outbox_ok db"
  by (simp add: service_ok_def)

lemma payload_accounted_mono:
  "payload_accounted db p \<Longrightarrow> (\<And>i. accepted_round db i \<Longrightarrow> accepted_round db' i) \<Longrightarrow> payload_accounted db' p"
  by (auto simp: payload_accounted_def split: option.splits)

lemma service_ok_frame:
  assumes "service_ok db" and "outbox_ok db'"
    and "\<And>i. accepted_round db i \<Longrightarrow> accepted_round db' i"
    and "\<And>p. p \<in> set (raw_round_payloads db') \<Longrightarrow> p \<in> set (raw_round_payloads db) \<or> payload_accounted db' p"
  shows "service_ok db'"
  using assms payload_accounted_mono [of db _ db'] by (fastforce simp: service_ok_def list_all_iff)

lemma accepted_round_frame:
  "raw_round_core_deliveries db' = raw_round_core_deliveries db \<Longrightarrow> accepted_round db' i = accepted_round db i"
  by (simp add: accepted_round_def get_core_raw_round_delivery_def)

lemma service_ok_claim:
  assumes "service_ok db" and "worker_claim w stop now db = (c, db')"
  shows "service_ok db'"
proof (rule service_ok_frame [OF assms(1)])
  show "outbox_ok db'" by (rule outbox_claim [OF service_ok_outbox [OF assms(1)] assms(2)])
  have "raw_round_core_deliveries db' = raw_round_core_deliveries db \<and> raw_round_payloads db' = raw_round_payloads db"
  proof (cases stop)
    case True
    then show ?thesis using assms(2) by (simp add: worker_claim_def)
  next
    case False
    obtain r d where cl: "claim_core_command (cw_worker_id w) (cw_lease w) now db = (r, d)" by fastforce
    show ?thesis
      by (rule claim_core_command_db [OF cl])
        (use assms(2) False cl in \<open>auto simp: worker_claim_eq split: option.splits\<close>)
  qed
  then show "accepted_round db i \<Longrightarrow> accepted_round db' i"
    "p \<in> set (raw_round_payloads db') \<Longrightarrow> p \<in> set (raw_round_payloads db) \<or> payload_accounted db' p" for i p
    using accepted_round_frame [of db' db i] by simp_all
qed

lemma empty_payload_set:
  "p' \<in> set (raw_round_payloads (snd (empty_payload t i db))) \<Longrightarrow> p' \<in> set (raw_round_payloads db)
     \<or> (\<exists>p\<in>set (raw_round_payloads db). p' = emptied_row t p \<and> pl_raw_round_id p = i \<and> pl_deleted_at p = None)"
  by (auto simp: empty_payload_rows split: if_splits)

lemma empty_payloads_set:
  "p' \<in> set (raw_round_payloads (snd (empty_payloads t is db))) \<Longrightarrow> p' \<in> set (raw_round_payloads db)
     \<or> (\<exists>p\<in>set (raw_round_payloads db). p' = emptied_row t p \<and> pl_raw_round_id p \<in> set is \<and> pl_deleted_at p = None)"
proof (induction "is" arbitrary: db)
  case (Cons i js)
  let ?db1 = "snd (empty_payload t i db)"
  from Cons.prems have "p' \<in> set (raw_round_payloads (snd (empty_payloads t js ?db1)))"
    by (simp add: Let_def prod.case_eq_if)
  from Cons.IH [OF this] consider "p' \<in> set (raw_round_payloads ?db1)"
    | q where "q \<in> set (raw_round_payloads ?db1)" "p' = emptied_row t q" "pl_raw_round_id q \<in> set js"
      "pl_deleted_at q = None" by blast
  then show ?case
  proof cases
    case 1
    from empty_payload_set [OF 1] show ?thesis by auto
  next
    case (2 q)
    with empty_payload_set [OF 2(1)] show ?thesis by auto
  qed
qed simp

lemma service_ok_retention:
  assumes "service_ok db" and "retention_process_once cutoff limit now db = (n, db')"
  shows "service_ok db'"
proof (rule service_ok_frame [OF assms(1)])
  show "outbox_ok db'" by (rule outbox_retention [OF service_ok_outbox [OF assms(1)] assms(2)])
  have dlv: "raw_round_core_deliveries (snd (empty_payloads t is d)) = raw_round_core_deliveries d" for t "is" d
    by (induction "is" arbitrary: d) (simp_all add: Let_def prod.case_eq_if empty_payload_def)
  have db': "db' = db \<or> db' = snd (purge_expired cutoff limit now db)"
    using assms(2) by (auto simp: retention_process_once_def with_uow_call_commit split: prod.splits if_splits)
  then have "raw_round_core_deliveries db' = raw_round_core_deliveries db"
    by (auto simp: purge_expired_def Let_def dlv)
  then show "accepted_round db i \<Longrightarrow> accepted_round db' i" for i
    using accepted_round_frame [of db' db i] by simp
  fix p'
  assume p': "p' \<in> set (raw_round_payloads db')"
  have d: "distinct (map pl_raw_round_id (raw_round_payloads db))"
    using assms(1) by (simp add: service_ok_def outbox_ok_def db_wf_def wf_payloads_def)
  show "p' \<in> set (raw_round_payloads db) \<or> payload_accounted db' p'"
  proof (cases "p' \<in> set (raw_round_payloads db)")
    case False
    define t where "t = (case cutoff of Some t \<Rightarrow> if t = [] then isoformat now else t | None \<Rightarrow> isoformat now)"
    from False p' db' obtain p q where p: "p \<in> set (raw_round_payloads db)" "p' = emptied_row t p"
      and q: "q \<in> set (raw_round_payloads db)" "expired_payload t q" "pl_raw_round_id q = pl_raw_round_id p"
      by (auto simp: purge_expired_def Let_def t_def [symmetric] dest!: empty_payloads_set in_set_takeD)
    then have "q = p" using d by (auto simp: distinct_map dest: inj_onD)
    with q(2) p(2) show ?thesis
      by (auto simp: payload_accounted_def expired_payload_def emptied_row_def split: option.splits)
  qed simp
qed

lemma service_ok_requeue:
  assumes "service_ok db" and "requeue n code space now db = (ids, db')"
  shows "service_ok db'"
proof (rule service_ok_frame [OF assms(1)])
  have out: "outbox_ok db" using assms(1) by (rule service_ok_outbox)
  show "outbox_ok db'" by (rule outbox_requeue [OF out assms(2)])
  have wf: "db_wf db" using out by (simp add: outbox_ok_def)
  have db': "db' = requeue_apply (isoformat now) ids db" and ids: "ids = requeue_select n code space db"
    using assms(2) by (auto simp: requeue_def Let_def)
  show "p \<in> set (raw_round_payloads db') \<Longrightarrow> p \<in> set (raw_round_payloads db) \<or> payload_accounted db' p" for p
    by (simp add: db' requeue_apply_frame)
  fix i
  assume "accepted_round db i"
  then obtain d where d: "get_core_raw_round_delivery i db = Some d" "dl_transport_status d = ''accepted''"
    by (auto simp: accepted_round_def split: option.splits)
  then have dm: "d \<in> set (raw_round_core_deliveries db)" "dl_raw_round_id d = i"
    by (auto simp: get_core_raw_round_delivery_def dest: sql_first_Some)
  then obtain r where r: "r \<in> set (raw_rounds db)" "rr_raw_round_id r = i"
    using wf by (auto simp: db_wf_def wf_deliveries_def round_ids_def list_all_iff)
  then obtain c where c: "get_core_command (dl_command_id d) db = Some c"
    "statuses_agree (cc_status c) (dl_transport_status d)"
    using out d(1) by (auto simp: outbox_ok_def list_all_iff elim!: linkedE)
  have "dl_command_id d \<notin> set ids"
    using requeue_selected [OF wf c(1)] c(2) d(2) by (auto simp: ids requeueable_def statuses_agree_def)
  then have "d \<in> set (raw_round_core_deliveries db')"
    using dm by (auto simp: db' requeue_apply_deliveries rev_image_eqI)
  moreover have "distinct (map dl_raw_round_id (raw_round_core_deliveries db'))"
    using db_wf_requeue_apply [OF wf] by (simp add: db' db_wf_def wf_deliveries_def)
  ultimately have "get_core_raw_round_delivery i db' = Some d"
    using sql_first_key [of dl_raw_round_id "raw_round_core_deliveries db'" d] dm(2)
    by (simp add: get_core_raw_round_delivery_def)
  with d(2) show "accepted_round db' i" by (simp add: accepted_round_def)
qed

lemma settled_payloads:
  assumes "payload_round_id (cc_payload_json c) = Some i" and "cc_command_type c = ''ingest_raw_round''"
    and "i \<noteq> []"
  shows "raw_round_payloads (settled st rj ec now c db) = (if st = ''completed''
    then raw_round_payloads (snd (empty_payload (isoformat now) i db)) else raw_round_payloads db)"
proof -
  obtain b d where u: "update_core_raw_round_delivery i (delivery_status_of st) (result_round_id rj) ec now db = Inr (b, d)"
    by (rule update_delivery_ok [OF delivery_status_of_ok])
  then show ?thesis
    using assms update_delivery_frame(3) [OF u]
    by (simp add: settled_def clear_raw_round_payload_def prod.case_eq_if empty_payload_def)
qed

lemma service_ok_finish:
  assumes "service_ok db" and "worker_finish w i st rj ec ed now db = (x, db')" and "st \<in> set finish_statuses"
  shows "service_ok db'"
proof (rule worker_finish_cases [OF service_ok_outbox [OF assms(1)] assms(2,3)])
  assume "db' = db"
  then show ?thesis using assms(1) by simp
next
  fix c r db1
  assume c: "c \<in> set (core_commands db)" "cc_status c = ''delivering''"
    and r: "r \<in> set (raw_rounds db)" "command_for r c" "rr_raw_round_id r \<noteq> []"
    and db': "db' = settled st rj ec now c db1"
    and pay: "payload_round_id (cc_payload_json c) = Some (rr_raw_round_id r)"
      "cc_command_type c = ''ingest_raw_round''"
    and db1: "db1 = db\<lparr>core_commands := map (\<lambda>c. if cc_command_id c = i \<and> cc_status c = ''delivering''
          \<and> cc_claimed_by c = Some (cw_worker_id w)
        then finish_row st (isoformat (now + cw_retry_delay w)) (isoformat now) rj ec ed c else c)
        (core_commands db)\<rparr>"
  have wf: "db_wf db" and lk: "linked db r"
    using assms(1) r(1) by (simp_all add: service_ok_def outbox_ok_def list_all_iff)
  let ?upd = "\<lambda>d. d\<lparr>dl_transport_status := delivery_status_of st,
      dl_core_raw_round_id := coalesce (result_round_id rj) (dl_core_raw_round_id d), dl_last_error_code := ec,
      dl_updated_at := isoformat now\<rparr>"
  have get: "get_core_raw_round_delivery j db' = map_option (\<lambda>d. if dl_raw_round_id d = rr_raw_round_id r
      then ?upd d else d) (get_core_raw_round_delivery j db)" for j
    unfolding db' get_core_raw_round_delivery_def settled_rows [OF pay r(3)] db1
    using sql_first_update_key [of "\<lambda>d. dl_raw_round_id d = rr_raw_round_id r" dl_raw_round_id ?upd]
    by (simp add: sql_update_def)
  obtain d c0 where d: "get_core_raw_round_delivery (rr_raw_round_id r) db = Some d"
    and c0: "get_core_command (dl_command_id d) db = Some c0" "command_for r c0"
      "statuses_agree (cc_status c0) (dl_transport_status d)"
    using lk by (rule linkedE)
  have "c0 = c" using command_for_same [OF wf c(1) _ r(2) c0(2)] get_core_command_Some [OF c0(1)] by simp
  then have "dl_transport_status d \<noteq> ''accepted''" using c0(3) c(2) by (auto simp: statuses_agree_def)
  then have "\<not> accepted_round db (rr_raw_round_id r)" using d by (simp add: accepted_round_def)
  moreover have "dl_raw_round_id e = j" if "get_core_raw_round_delivery j db = Some e" for j e
    using that by (auto simp: get_core_raw_round_delivery_def dest: sql_first_Some)
  ultimately have keep: "accepted_round db j \<Longrightarrow> accepted_round db' j" for j
    by (cases "j = rr_raw_round_id r") (auto simp: accepted_round_def get split: option.splits)
  show ?thesis
  proof (rule service_ok_frame [OF assms(1) _ keep])
    show "outbox_ok db'" by (rule outbox_finish [OF service_ok_outbox [OF assms(1)] assms(2,3)])
    fix p
    assume p: "p \<in> set (raw_round_payloads db')"
    show "p \<in> set (raw_round_payloads db) \<or> payload_accounted db' p"
    proof (cases "st = ''completed''")
      case False
      then show ?thesis using p by (simp add: db' settled_payloads [OF pay r(3)] db1)
    next
      case True
      have "accepted_round db' (rr_raw_round_id r)"
        using d \<open>\<And>j e. get_core_raw_round_delivery j db = Some e \<Longrightarrow> dl_raw_round_id e = j\<close>
        by (auto simp: accepted_round_def get True delivery_status_of_def)
      moreover have "p \<in> set (raw_round_payloads (snd (empty_payload (isoformat now) (rr_raw_round_id r) db1)))"
        using p True by (simp add: db' settled_payloads [OF pay r(3)])
      ultimately show ?thesis
        by (auto dest!: empty_payload_set simp: payload_accounted_def db1 split: option.splits)
    qed
  qed
qed

lemma create_delivery_accepts:
  assumes "create_core_raw_round_delivery i sp ci k now db = Inr (d, db')" and "accepted_round db j"
  shows "accepted_round db' j"
  using assms(1)
proof (cases rule: create_delivery_cases)
  case (existing d0)
  then show ?thesis
    using assms(2) by (auto simp: accepted_round_def get_core_raw_round_delivery_def
        sql_first_update_key [where k = dl_raw_round_id] split: option.splits)
next
  case new
  then show ?thesis
    using assms(2) by (auto simp: accepted_round_def get_core_raw_round_delivery_def sql_first_append
        split: option.splits)
qed

lemma capture_accounts:
  assumes "capture_spec p h ru cu clk rq db = Inr (r, db')"
  shows "accepted_round db j \<Longrightarrow> accepted_round db' j"
    and "q \<in> set (raw_round_payloads db') \<Longrightarrow> q \<in> set (raw_round_payloads db) \<or> pl_deleted_at q = None"
proof -
  have queue: "(accepted_round d j \<longrightarrow> accepted_round db' j) \<and> raw_round_payloads db' = raw_round_payloads d"
    if q: "queue_delivery_spec cu clk i rq dup d = Inr (r, db')" for i dup d
  proof -
    obtain c d1 e where c: "create_core_command cu ''ingest_raw_round'' (rq_memory_space_id rq)
        (rq_payload_digest rq) (command_payload i) (command_digest (command_payload i)) None (clk 3) d = Inr (c, d1)"
      and e: "create_core_raw_round_delivery i (rq_memory_space_id rq) (cc_command_id c)
        (rq_payload_digest rq) (clk 4) d1 = Inr (e, db')"
      using q by (auto simp: queue_delivery_spec_def res_simps)
    show ?thesis
      using create_delivery_accepts [OF e, of j] create_delivery_frame(2) [OF e]
        create_core_command_frame(2,3) [OF c] accepted_round_frame [of d1 d j] by simp
  qed
  have fresh: "raw_round_core_deliveries d2 = raw_round_core_deliveries db \<and> (\<exists>q. raw_round_payloads d2
      = raw_round_payloads db @ [q] \<and> pl_deleted_at q = None)"
    if "ensure_capture_space sp t db = Inr (u, d1)" "insert_raw_round n t2 d1 = Inr (x, d2)" for sp t u d1 n t2 x d2
    using that insert_raw_round_rows(1) [OF that(2)]
    by (auto simp: ensure_capture_space_def insert_or_ignore_memory_space_def split: if_splits)
  have "(accepted_round db j \<longrightarrow> accepted_round db' j) \<and>
     (q \<in> set (raw_round_payloads db') \<longrightarrow> q \<in> set (raw_round_payloads db) \<or> pl_deleted_at q = None)"
  proof (cases "get_by_capture_identity (rq_memory_space_id rq) (source_round_key p rq)
      (src_source_schema_version (rq_source rq)) db")
    case None
    then obtain d1 x d2 where e: "ensure_capture_space (rq_memory_space_id rq) (clk 0) db = Inr ((), d1)"
      and n: "insert_raw_round (new_raw_round p h ru (clk 1) rq) (clk 2) d1 = Inr (x, d2)"
      and qs: "queue_delivery_spec cu clk (rr_raw_round_id x) rq False d2 = Inr (r, db')"
      using assms by (auto simp: capture_spec_def res_simps)
    show ?thesis using fresh [OF e n] queue [OF qs] accepted_round_frame [of d2 db j] by auto
  next
    case (Some x)
    then show ?thesis
      using assms queue [of "rr_raw_round_id x" True db] by (auto simp: capture_duplicate [OF Some] res_simps)
  qed
  then show "accepted_round db j \<Longrightarrow> accepted_round db' j"
    "q \<in> set (raw_round_payloads db') \<Longrightarrow> q \<in> set (raw_round_payloads db) \<or> pl_deleted_at q = None"
    by simp_all
qed

lemma service_ok_capture:
  assumes "service_ok db" and "handle p h ru cu clk rq db = (res, db')" and "ru \<noteq> []"
  shows "service_ok db'"
proof (cases res)
  case (Inl e)
  then have "db' = db" using assms(2) by (auto simp: handle_eq split: sum.splits prod.splits)
  then show ?thesis using assms(1) by simp
next
  case (Inr r)
  with assms(2) have cap: "capture_spec p h ru cu clk rq db = Inr (r, db')" using handle_Inr(2) by blast
  show ?thesis
  proof (rule service_ok_frame [OF assms(1) outbox_capture [OF service_ok_outbox [OF assms(1)] assms(2,3)]])
    show "accepted_round db j \<Longrightarrow> accepted_round db' j" for j by (rule capture_accounts(1) [OF cap])
    show "q \<in> set (raw_round_payloads db) \<or> payload_accounted db' q" if "q \<in> set (raw_round_payloads db')" for q
      using capture_accounts(2) [OF cap that] by (auto simp: payload_accounted_def)
  qed
qed

interpretation service: step_invariant service_step service_ok
proof
  fix db db'
  assume "service_step db db'" and ok: "service_ok db"
  then show "service_ok db'"
    by (cases rule: service_step.cases)
      (blast intro: service_ok_capture service_ok_claim service_ok_finish service_ok_retention service_ok_requeue)+
qed

lemma service_empty: "service_ok empty_db"
  using outbox_empty by (simp add: service_ok_def empty_db_def)

lemma sample_payloads:
  "\<exists>p. raw_round_payloads (snd (sample_handle ''r1'' ''c1'' ''x'' empty_db)) = [p]
     \<and> pl_deleted_at p = None \<and> pl_retention_expires_at p = Some (isoformat 2592000000000)"
  unfolding sample_handle_def handle_eq sample_check [OF disjI1 [OF refl]]
  by (simp add: sample_result_def capture_spec_def queue_delivery_spec_def
      create_core_command_def create_core_raw_round_delivery_def sql_insert_core_command_def
      get_core_command_by_idempotency_def get_core_command_def get_core_raw_round_delivery_def
      insert_raw_round_def sql_insert_raw_round_def sql_insert_payload_def get_raw_round_def
      get_by_capture_identity_def ensure_capture_space_def insert_or_ignore_memory_space_def
      get_memory_space_def new_raw_round_def empty_db_def command_digest_def Let_def sql_length_def
      blank_iff ascii_space_def sample_request_def join_payload_def new_ingest_handler_def)

section \<open>Properties\<close>

text \<open>
  C13. What a first capture acknowledges is durable. In every state the service can reach, an accepted
  capture of a source round that is not stored yet stores the round with its space and its document
  (when the dump of the request is a JSON value, its text reads back as the dump with sorted keys), one
  Core command to ingest the round and one delivery record that names it. The command is pending with no
  attempt, no lease and no claim, available at once, and carries the identifier of the round; the
  delivery is queued; the answer says so and names the command.
\<close>

theorem captured_round_stored:
  assumes "service_step\<^sup>*\<^sup>* empty_db db" and "handle p h ru cu clk rq db = (Inr r, db1)"
    and "get_by_capture_identity (rq_memory_space_id rq) (source_round_key p rq)
      (src_source_schema_version (rq_source rq)) db = None" and "wf_json (rq_model_dump rq)"
  shows "\<exists>x payload. get_raw_round ru db1 = Some x \<and> rr_memory_space_id x = rq_memory_space_id rq
      \<and> json_loads (rr_payload_json x) = Some (sort_keys (rq_model_dump rq))
      \<and> json_loads payload = Some (JObj [(''raw_round_id'', JStr ru)])
      \<and> core_commands db1 = core_commands db @
        [\<lparr>cc_command_id = cu, cc_command_type = ''ingest_raw_round'', cc_memory_space_id = rq_memory_space_id rq,
          cc_idempotency_key = rq_payload_digest rq, cc_payload_json = payload,
          cc_payload_digest = ''sha256:'' @ sha256_hexdigest payload, cc_status = ''pending'', cc_attempts = 0,
          cc_available_at = isoformat (clk 3), cc_lease_expires_at = None, cc_claimed_by = None,
          cc_completed_at = None, cc_result_json = None, cc_last_error_code = None,
          cc_last_error_detail = None, cc_created_at = isoformat (clk 3)\<rparr>]
      \<and> raw_round_core_deliveries db1 = raw_round_core_deliveries db @
        [\<lparr>dl_raw_round_id = ru, dl_memory_space_id = rq_memory_space_id rq, dl_command_id = cu,
          dl_idempotency_key = rq_payload_digest rq, dl_transport_status = ''queued'',
          dl_core_raw_round_id = None, dl_core_job_id = None, dl_last_error_code = None,
          dl_created_at = isoformat (clk 4), dl_updated_at = isoformat (clk 4)\<rparr>]
      \<and> r = \<lparr>res_raw_round_id = ru, res_duplicate = False, res_status = ''queued_for_core'',
          res_core_command_id = Some cu, res_core_raw_round_id = None\<rparr>"
proof -
  have ok: "outbox_ok db" using assms(1) outbox_empty by (rule outbox.inv_steps)
  then have "db_wf db" by (simp add: outbox_ok_def)
  from capture_stores_document [OF this assms(2-4)] obtain x where
    "get_raw_round ru db1 = Some x" "rr_memory_space_id x = rq_memory_space_id rq"
    "json_loads (rr_payload_json x) = Some (sort_keys (rq_model_dump rq))" by blast
  moreover have "capture_spec p h ru cu clk rq db = Inr (r, db1)" using handle_Inr [OF assms(2)] by simp
  from fresh_capture_rows [OF ok this assms(3)] obtain
    "core_commands db1 = core_commands db @ [new_command cu ru rq (clk 3)]"
    "raw_round_core_deliveries db1 = raw_round_core_deliveries db @ [new_delivery cu ru rq (clk 4)]"
    "r = \<lparr>res_raw_round_id = ru, res_duplicate = False, res_status = ''queued_for_core'',
      res_core_command_id = Some cu, res_core_raw_round_id = None\<rparr>" by metis
  ultimately show ?thesis
    using json_loads_command_payload [of ru]
    by (intro exI [of _ x] exI [of _ "command_payload ru"])
      (simp add: new_command_def new_delivery_def command_digest_def)
qed

theorem captured_round_stored_witness:
  "\<exists>x. get_raw_round ''r1'' (snd (sample_handle ''r1'' ''c1'' ''x'' empty_db)) = Some x
     \<and> json_loads (rr_payload_json x) = Some (JObj [(''a'', JStr ''x''), (''b'', JNull)])"
proof -
  obtain db1 where c: "sample_handle ''r1'' ''c1'' ''x'' empty_db = (Inr sample_result, db1)"
    using sample_capture by blast
  have "wf_json (rq_model_dump (sample_request ''x''))" by (simp add: sample_request_def)
  from captured_round_stored [OF rtranclp.rtrancl_refl c [unfolded sample_handle_def] sample_empty this]
  show ?thesis unfolding c by (auto simp: sample_request_def)
qed





end
