(* ===== verification/Framing.thy ===== *)
theory Framing
  imports Json
begin

text \<open>
  The length-prefixed frames between Local and Core (\<^verbatim>\<open>core_gateway/framing.py\<close>). The stream is a
  parameter: a read operation that may return fewer bytes than it was asked for. What the code
  relies on is the locale \<open>byte_reader\<close>; it is interpreted on a pipe whose content arrives in
  chunks of any size.
\<close>

section \<open>The code\<close>

definition MAX_FRAME_BYTES :: nat where
  "MAX_FRAME_BYTES = 8 * 1024 * 1024"

definition FRAME_HEADER_BYTES :: nat where
  "FRAME_HEADER_BYTES = 4"

text \<open>
  \<open>n\<close> is the variable \<^verbatim>\<open>remaining\<close>, \<open>acc\<close> the chunks joined so far. The reader survives a raise, so
  it is returned beside the result. A reader never returns more than it was asked for.
\<close>

function read_exact_loop :: "('r \<Rightarrow> nat \<Rightarrow> bytes \<times> 'r) \<Rightarrow> nat \<Rightarrow> bytes \<Rightarrow> 'r \<Rightarrow> bytes res \<times> 'r" where
  "read_exact_loop read n acc r =
     (if n = 0 then (Inr acc, r)
      else let (chunk, r') = read r n in
        if chunk = [] then
          (Inl (FrameTruncatedError
             (''stream ended with '' @ show_nat n @ '' frame bytes still required'')), r')
        else read_exact_loop read (n - length chunk) (acc @ chunk) r')"
  by pat_completeness auto
termination read_exact_loop
  by (relation "measure (\<lambda>(_, n, _). n)") auto

declare read_exact_loop.simps [simp del]

definition read_exact :: "('r \<Rightarrow> nat \<Rightarrow> bytes \<times> 'r) \<Rightarrow> 'r \<Rightarrow> nat \<Rightarrow> bytes res \<times> 'r" where
  "read_exact read r n = read_exact_loop read n [] r"

definition frame_too_large :: "nat \<Rightarrow> exn" where
  "frame_too_large n = FrameTooLargeError
     (''frame length '' @ show_nat n @ '' exceeds '' @ show_nat MAX_FRAME_BYTES @ '' byte limit'')"

definition read_frame :: "('r \<Rightarrow> nat \<Rightarrow> bytes \<times> 'r) \<Rightarrow> 'r \<Rightarrow> bytes res \<times> 'r" where
  "read_frame read r =
     (case read_exact read r FRAME_HEADER_BYTES of
        (Inl e, r') \<Rightarrow> (Inl e, r')
      | (Inr header, r') \<Rightarrow>
          let n = be_number header in
          if MAX_FRAME_BYTES < n then (Inl (frame_too_large n), r')
          else read_exact read r' n)"

text \<open>A buffered writer: \<^verbatim>\<open>write\<close> fills the buffer, \<^verbatim>\<open>flush\<close> sends it.\<close>

record byte_writer =
  buffered :: bytes
  sent :: bytes

definition writer_write :: "byte_writer \<Rightarrow> bytes \<Rightarrow> byte_writer" where
  "writer_write w data = w\<lparr>buffered := buffered w @ data\<rparr>"

definition writer_flush :: "byte_writer \<Rightarrow> byte_writer" where
  "writer_flush w = w\<lparr>buffered := [], sent := sent w @ buffered w\<rparr>"

definition write_frame :: "byte_writer \<Rightarrow> bytes \<Rightarrow> unit res \<times> byte_writer" where
  "write_frame w payload =
     (if MAX_FRAME_BYTES < length payload then (Inl (frame_too_large (length payload)), w)
      else (Inr (), writer_flush
        (writer_write w (be_bytes FRAME_HEADER_BYTES (length payload) @ payload))))"

section \<open>The contract of a stream\<close>

text \<open>What is left of a stream, and what one read may do to it.\<close>

locale byte_reader =
  fixes read :: "'r \<Rightarrow> nat \<Rightarrow> bytes \<times> 'r"
    and content :: "'r \<Rightarrow> bytes"
    and ok :: "'r \<Rightarrow> bool"
  assumes read_content: "ok r \<Longrightarrow> read r n = (c, r') \<Longrightarrow> content r = c @ content r' \<and> ok r'"
    and read_bound: "ok r \<Longrightarrow> read r n = (c, r') \<Longrightarrow> length c \<le> n"
    and read_end: "ok r \<Longrightarrow> read r n = ([], r') \<Longrightarrow> 0 < n \<Longrightarrow> content r = []"
begin

lemma read_exact_loop_ok:
  assumes "ok r" and "n \<le> length (content r)"
  shows "\<exists>r'. read_exact_loop read n acc r = (Inr (acc @ take n (content r)), r')
     \<and> content r' = drop n (content r) \<and> ok r'"
  using assms
proof (induction n arbitrary: acc r rule: less_induct)
  case (less n)
  obtain c r' where c: "read r n = (c, r')" by fastforce
  note laws = read_content [OF less.prems(1) c] read_bound [OF less.prems(1) c]
  show ?case
  proof (cases "n = 0")
    case True
    with less.prems show ?thesis by (simp add: read_exact_loop.simps)
  next
    case False
    have "c \<noteq> []"
      using False c less.prems read_end [of r n r'] by auto
    moreover from this laws False have "n - length c < n" "n - length c \<le> length (content r')"
      using less.prems by auto
    note less.IH [OF this(1) _ this(2), of "acc @ c"]
    ultimately show ?thesis
      using False c laws by (subst read_exact_loop.simps) (auto simp: min_def)
  qed
qed

lemma read_exact_loop_short:
  assumes "ok r" and "length (content r) < n"
  shows "\<exists>r'. read_exact_loop read n acc r = (Inl (FrameTruncatedError
       (''stream ended with '' @ show_nat (n - length (content r)) @ '' frame bytes still required'')), r')
     \<and> content r' = []"
  using assms
proof (induction n arbitrary: acc r rule: less_induct)
  case (less n)
  obtain c r' where c: "read r n = (c, r')" by fastforce
  note laws = read_content [OF less.prems(1) c] read_bound [OF less.prems(1) c]
  show ?case
  proof (cases "c = []")
    case True
    with c less.prems read_end [of r n r'] laws show ?thesis
      by (subst read_exact_loop.simps) auto
  next
    case False
    with laws less.prems have "n - length c < n" "length (content r') < n - length c" by auto
    from less.IH [OF this(1) _ this(2), of "acc @ c"] laws show ?thesis
      using False c less.prems by (subst read_exact_loop.simps) auto
  qed
qed

lemmas read_exact_ok = read_exact_loop_ok [where acc = "[]", folded read_exact_def, simplified]
lemmas read_exact_short = read_exact_loop_short [where acc = "[]", folded read_exact_def]

text \<open>Reading a frame, in terms of what the stream holds.\<close>

lemma read_frame_cases:
  assumes "ok r" and n: "n = be_number (take FRAME_HEADER_BYTES (content r))"
  shows "\<exists>r'. snd (read_frame read r) = r' \<and>
     (if length (content r) < FRAME_HEADER_BYTES then
        \<exists>m. fst (read_frame read r) = Inl (FrameTruncatedError m)
      else if MAX_FRAME_BYTES < n then
        fst (read_frame read r) = Inl (frame_too_large n) \<and> content r' = drop FRAME_HEADER_BYTES (content r)
      else if length (content r) < FRAME_HEADER_BYTES + n then
        \<exists>m. fst (read_frame read r) = Inl (FrameTruncatedError m)
      else fst (read_frame read r) = Inr (take n (drop FRAME_HEADER_BYTES (content r)))
         \<and> content r' = drop (FRAME_HEADER_BYTES + n) (content r))"
proof (cases "length (content r) < FRAME_HEADER_BYTES")
  case True
  with read_exact_short [OF assms(1) True] show ?thesis by (auto simp: read_frame_def)
next
  case False
  then obtain r' where r': "read_exact read r FRAME_HEADER_BYTES
      = (Inr (take FRAME_HEADER_BYTES (content r)), r')"
      "content r' = drop FRAME_HEADER_BYTES (content r)" "ok r'"
    using read_exact_ok [OF assms(1), of FRAME_HEADER_BYTES] by auto
  show ?thesis
  proof (cases "length (content r') < n")
    case True
    with False r' read_exact_short [OF r'(3) True] show ?thesis
      by (auto simp: read_frame_def Let_def n)
  next
    case False
    with \<open>\<not> length (content r) < FRAME_HEADER_BYTES\<close> r' read_exact_ok [OF r'(3), of n] show ?thesis
      by (auto simp: read_frame_def Let_def n add.commute)
  qed
qed

end

section \<open>A pipe\<close>

text \<open>
  A pipe delivers the chunks it was fed, none of them empty: a read returns the first chunk, or as
  much of it as was asked for, and nothing at the end of the stream.
\<close>

fun pipe_read :: "bytes list \<Rightarrow> nat \<Rightarrow> bytes \<times> bytes list" where
  "pipe_read [] n = ([], [])"
| "pipe_read (c # cs) n =
     (if length c \<le> n then (c, cs) else (take n c, drop n c # cs))"

interpretation pipe: byte_reader pipe_read concat "\<lambda>cs. [] \<notin> set cs"
proof
  fix cs n c cs'
  assume ok: "[] \<notin> set (cs :: bytes list)" and read: "pipe_read cs n = (c, cs')"
  show "concat cs = c @ concat cs' \<and> [] \<notin> set cs'"
    using ok read by (cases cs) (auto split: if_splits)
  show "length c \<le> n"
    using ok read by (cases cs) (auto split: if_splits)
next
  fix cs n cs'
  assume "[] \<notin> set (cs :: bytes list)" and "pipe_read cs n = ([], cs')" and "0 < n"
  then show "concat cs = []" by (cases cs) (auto split: if_splits)
qed

section \<open>Properties\<close>

text \<open>
  C25. What \<open>write_frame\<close> sends is read back by \<open>read_frame\<close>: the payload comes out unchanged,
  however the stream cuts the bytes into chunks and whatever follows the frame, and what follows
  is left for the next read.\<close>

theorem frame_roundtrip:
  assumes "write_frame \<lparr>buffered = [], sent = []\<rparr> payload = (Inr (), w)"
    and "concat chunks = sent w @ rest" and "[] \<notin> set chunks"
  shows "\<exists>left. read_frame pipe_read chunks = (Inr payload, left) \<and> concat left = rest"
proof -
  from assms(1) have size: "length payload \<le> MAX_FRAME_BYTES"
    and w: "sent w = be_bytes FRAME_HEADER_BYTES (length payload) @ payload"
    by (auto simp: write_frame_def writer_write_def writer_flush_def split: if_splits)
  have "be_number (be_bytes FRAME_HEADER_BYTES (length payload)) = length payload"
    using size by (intro be_number_be_bytes) (simp add: FRAME_HEADER_BYTES_def MAX_FRAME_BYTES_def)
  with pipe.read_frame_cases [OF assms(3) refl] size assms(2) w show ?thesis
    by (cases "read_frame pipe_read chunks") auto
qed

lemma frame_roundtrip_witness:
  "\<exists>left. read_frame pipe_read [[char_of (0::nat), char_of (0::nat)], [char_of (0::nat)],
       char_of (2::nat) # ''o'', ''kX''] = (Inr ''ok'', left) \<and> concat left = ''X''"
proof (rule frame_roundtrip)
  show "write_frame \<lparr>buffered = [], sent = []\<rparr> ''ok'' = (Inr (), \<lparr>buffered = [],
      sent = be_bytes FRAME_HEADER_BYTES 2 @ ''ok''\<rparr>)"
    by (simp add: write_frame_def writer_write_def writer_flush_def MAX_FRAME_BYTES_def
        numeral_2_eq_2)
qed (simp_all add: be_bytes_def FRAME_HEADER_BYTES_def upt_rec)

text \<open>
  Every outcome of \<open>read_frame\<close>, by what the stream holds: fewer than four bytes, or fewer bytes
  than the header announces, raise \<open>FrameTruncatedError\<close>; an announced length over the limit raises
  \<open>FrameTooLargeError\<close> after the header and no byte more; otherwise the announced bytes are
  returned.\<close>

lemma read_frame_outcome:
  assumes "[] \<notin> set chunks" and "n = be_number (take 4 (concat chunks))"
  shows "if length (concat chunks) < 4 then
       \<exists>m left. read_frame pipe_read chunks = (Inl (FrameTruncatedError m), left)
     else if MAX_FRAME_BYTES < n then
       \<exists>m left. read_frame pipe_read chunks = (Inl (FrameTooLargeError m), left)
         \<and> concat left = drop 4 (concat chunks)
     else if length (concat chunks) < 4 + n then
       \<exists>m left. read_frame pipe_read chunks = (Inl (FrameTruncatedError m), left)
     else \<exists>left. read_frame pipe_read chunks = (Inr (take n (drop 4 (concat chunks))), left)
         \<and> concat left = drop (4 + n) (concat chunks)"
  using pipe.read_frame_cases [OF assms(1), of n, unfolded FRAME_HEADER_BYTES_def] assms(2)
  by (cases "read_frame pipe_read chunks") (simp add: frame_too_large_def split: if_splits)

end
