(* ===== verification/TokenBudget.thy ===== *)
theory TokenBudget
  imports Json
begin

text \<open>
  The bounded token estimate of a provider request (\<^verbatim>\<open>inference/token_budget.py\<close>). A character of a text
  is one of its \<open>leading_bytes\<close>; it is ASCII exactly when that byte is below 128.
\<close>

section \<open>The code\<close>

text \<open>What the estimator reads of a request.\<close>

record model_request =
  mr_contents :: "string list"
  mr_response_format :: "(string \<times> json) list option"
  mr_output_contract :: "(string \<times> json) list option"
  mr_tool_name :: "string option"

definition new_estimator :: "int \<Rightarrow> nat res" where
  "new_estimator max_chars = raise_if (max_chars < 1) (ValueError ''max_chars must be positive'') (Inr (nat max_chars))"

fun estimate_loop :: "nat \<Rightarrow> nat \<Rightarrow> nat \<Rightarrow> nat \<Rightarrow> string \<Rightarrow> nat" where
  "estimate_loop max_chars index ascii_chars unicode_chars [] =
     (ascii_chars + 3) div 4 + (unicode_chars + 1) div 2"
| "estimate_loop max_chars index ascii_chars unicode_chars (c # cs) =
     (if max_chars \<le> index then max_chars
      else if (of_char c :: nat) < 128 then estimate_loop max_chars (index + 1) (ascii_chars + 1) unicode_chars cs
      else estimate_loop max_chars (index + 1) ascii_chars (unicode_chars + 1) cs)"

definition estimate_text :: "nat \<Rightarrow> string \<Rightarrow> nat" where
  "estimate_text max_chars text = estimate_loop max_chars 0 0 0 (leading_bytes text)"

fun estimate_messages_loop :: "nat \<Rightarrow> nat \<Rightarrow> string list \<Rightarrow> nat" where
  "estimate_messages_loop max_chars tokens [] = tokens"
| "estimate_messages_loop max_chars tokens (content # contents) =
     (let tokens = min max_chars (tokens + estimate_text max_chars content) in
      if max_chars \<le> tokens then max_chars else estimate_messages_loop max_chars tokens contents)"

definition estimate_messages :: "nat \<Rightarrow> string list \<Rightarrow> nat" where
  "estimate_messages max_chars contents = estimate_messages_loop max_chars 0 contents"

text \<open>\<^verbatim>\<open>request.output_contract or request.response_format\<close>: an empty contract does not count.\<close>

definition request_contract :: "model_request \<Rightarrow> (string \<times> json) list option" where
  "request_contract r = (case mr_output_contract r of
     Some (m # ms) \<Rightarrow> Some (m # ms) | _ \<Rightarrow> mr_response_format r)"

text \<open>The estimate and the flag \<^verbatim>\<open>bounded\<close>.\<close>

definition estimate_request :: "nat \<Rightarrow> model_request \<Rightarrow> nat \<times> bool" where
  "estimate_request max_chars r =
     (let tokens = estimate_messages max_chars (mr_contents r);
          tokens = (case request_contract r of
              None \<Rightarrow> tokens
            | Some d \<Rightarrow> min max_chars (tokens + estimate_text max_chars (json_dumps (sort_keys (JObj d)))));
          tokens = (case mr_tool_name r of
              None \<Rightarrow> tokens
            | Some t \<Rightarrow> if t = [] then tokens else min max_chars (tokens + estimate_text max_chars t))
      in (tokens, tokens < max_chars))"

definition ensure_within :: "nat \<Rightarrow> model_request \<Rightarrow> int \<Rightarrow> nat res" where
  "ensure_within max_chars r max_input_tokens =
     raise_if (max_input_tokens < 1) (ValueError ''max_input_tokens must be positive'')
     (let estimated = fst (estimate_request max_chars r) in
      raise_if (max_input_tokens < int estimated)
        (InputBudgetExceededError estimated (nat max_input_tokens)) (Inr estimated))"

section \<open>A reference without the loops\<close>

text \<open>Four ASCII characters, or two others, to the token, rounded up; at most the bound.\<close>

definition text_tokens :: "nat \<Rightarrow> string \<Rightarrow> nat" where
  "text_tokens max_chars text =
     (let chars = leading_bytes text; a = length (filter (\<lambda>c. (of_char c :: nat) < 128) chars);
          u = length (filter (\<lambda>c. \<not> (of_char c :: nat) < 128) chars)
      in if max_chars < length chars then max_chars else (a + 3) div 4 + (u + 1) div 2)"

definition request_texts :: "model_request \<Rightarrow> string list" where
  "request_texts r = mr_contents r
     @ (case request_contract r of None \<Rightarrow> [] | Some d \<Rightarrow> [json_dumps (sort_keys (JObj d))])
     @ (case mr_tool_name r of None \<Rightarrow> [] | Some t \<Rightarrow> if t = [] then [] else [t])"

lemma estimate_loop_eq:
  "i \<le> m \<Longrightarrow> estimate_loop m i a u cs =
     (if m < i + length cs then m
      else (a + length (filter (\<lambda>c. (of_char c :: nat) < 128) cs) + 3) div 4
         + (u + length (filter (\<lambda>c. \<not> (of_char c :: nat) < 128) cs) + 1) div 2)"
  by (induction m i a u cs rule: estimate_loop.induct) auto

lemma estimate_text_eq: "estimate_text m text = text_tokens m text"
  by (simp add: estimate_text_def text_tokens_def estimate_loop_eq Let_def)

lemma text_tokens_le: "text_tokens m text \<le> m"
proof -
  define chars where "chars = leading_bytes text"
  define a where "a = length (filter (\<lambda>c. (of_char c :: nat) < 128) chars)"
  define u where "u = length (filter (\<lambda>c. \<not> (of_char c :: nat) < 128) chars)"
  have "a + u = length chars" unfolding a_def u_def by (rule sum_length_filter_compl)
  then have "(a + 3) div 4 + (u + 1) div 2 \<le> length chars" by presburger
  then show ?thesis
    unfolding text_tokens_def Let_def chars_def [symmetric] a_def [symmetric] u_def [symmetric] by simp
qed

lemma estimate_messages_loop_eq:
  "t \<le> m \<Longrightarrow> estimate_messages_loop m t contents = min m (t + sum_list (map (text_tokens m) contents))"
proof (induction contents arbitrary: t)
  case (Cons c cs)
  show ?case
  proof (cases "m \<le> t + text_tokens m c")
    case True
    then show ?thesis by (simp add: Let_def estimate_text_eq min_def)
  next
    case False
    then have "t + text_tokens m c \<le> m" by simp
    from Cons.IH [OF this] False show ?thesis
      by (simp add: Let_def estimate_text_eq add.assoc)
  qed
qed simp

section \<open>Properties\<close>

text \<open>
  The estimate of a request is the sum of the estimates of its texts, the messages, the contract
  or response format in canonical JSON, and the tool name, cut off at the bound of the estimator:
  stopping early at the bound changes nothing. Every estimate is at most the bound, and
  \<open>ensure_within\<close> lets a request through exactly when that sum is within the budget of the profile.\<close>

lemma token_estimate_reference:
  "fst (estimate_request m r) = min m (sum_list (map (text_tokens m) (request_texts r)))
   \<and> (\<forall>text. text_tokens m text \<le> m)
   \<and> ((\<exists>n. ensure_within m r budget = Inr n)
      \<longleftrightarrow> 1 \<le> budget \<and> int (min m (sum_list (map (text_tokens m) (request_texts r)))) \<le> budget)"
proof -
  have "fst (estimate_request m r) = min m (sum_list (map (text_tokens m) (request_texts r)))"
    by (auto simp: estimate_request_def request_texts_def estimate_messages_def Let_def
        estimate_messages_loop_eq estimate_text_eq min_def split: option.split)
  then show ?thesis
    by (auto simp: ensure_within_def Let_def res_simps text_tokens_le)
qed

end
