(* ===== verification/Leases.thy ===== *)
theory Leases
  imports Prelude
begin

text \<open>
  The durable leases that keep the runtime alive (\<^verbatim>\<open>runtime/leases.py\<close>) and the idle shutdown
  policy (\<^verbatim>\<open>runtime/shutdown.py\<close>).

  The directory is the list of its files with the suffix \<^verbatim>\<open>.json\<close>, a file the stem of its name and what
  the reader makes of its text: a lease, or \<open>None\<close> for a text from which no lease can be built. Times
  are whole microseconds. What \<^verbatim>\<open>_now()\<close> and \<^verbatim>\<open>uuid4().hex\<close> return are arguments, one per call.
\<close>

section \<open>Leases and their directory\<close>

record lease =
  lease_id :: string
  client :: string
  session_id :: string
  created_at :: int
  expires_at :: int
  ttl_seconds :: int

record lease_store =
  ls_files :: "(string \<times> lease option) list"
  ls_ttl :: int

definition new_lease_store :: "(string \<times> lease option) list \<Rightarrow> int \<Rightarrow> lease_store" where
  "new_lease_store fs ttl = \<lparr>ls_files = fs, ls_ttl = max ttl 100000\<rparr>"

text \<open>\<^verbatim>\<open>Path(lease_id).name\<close> is another text when the id has a separator or is a single dot.\<close>

definition lease_path :: "string \<Rightarrow> string res" where
  "lease_path i = raise_if (i = [] \<or> CHR ''/'' \<in> set i \<or> i = ''.'')
     (ValueError ''invalid lease id'') (Inr i)"

definition unlink :: "string \<Rightarrow> lease_store \<Rightarrow> lease_store" where
  "unlink stem st = st\<lparr>ls_files := filter (\<lambda>f. fst f \<noteq> stem) (ls_files st)\<rparr>"

definition read_lease :: "string \<Rightarrow> lease_store \<Rightarrow> lease option \<times> lease_store" where
  "read_lease stem st =
     (case map_of (ls_files st) stem of
        Some (Some l) \<Rightarrow> (Some l, st)
      | _ \<Rightarrow> (None, unlink stem st))"

definition write_lease :: "lease \<Rightarrow> lease_store \<Rightarrow> lease_store res" where
  "write_lease l st = rbind (lease_path (lease_id l))
     (\<lambda>stem. Inr (st\<lparr>ls_files := AList.update stem (Some l) (ls_files st)\<rparr>))"

text \<open>\<^verbatim>\<open>directory.glob("lease-*.json")\<close>.\<close>

definition glob_leases :: "lease_store \<Rightarrow> string list" where
  "glob_leases st = filter (prefix ''lease-'') (map fst (ls_files st))"

section \<open>Operations\<close>

fun reap_loop :: "int \<Rightarrow> string list \<Rightarrow> string list \<Rightarrow> lease_store \<Rightarrow> string list \<times> lease_store" where
  "reap_loop now [] expired st = (expired, st)"
| "reap_loop now (stem # stems) expired st =
     (case read_lease stem st of
        (None, st') \<Rightarrow> reap_loop now stems expired st'
      | (Some l, st') \<Rightarrow>
          if expires_at l \<le> now then reap_loop now stems (expired @ [lease_id l]) (unlink stem st')
          else reap_loop now stems expired st')"

definition reap_expired :: "int \<Rightarrow> lease_store \<Rightarrow> string list \<times> lease_store" where
  "reap_expired now st = (let (expired, st') = reap_loop now (glob_leases st) [] st in (sort expired, st'))"

fun read_leases :: "string list \<Rightarrow> lease_store \<Rightarrow> lease list \<times> lease_store" where
  "read_leases [] st = ([], st)"
| "read_leases (stem # stems) st =
     (let (r, st') = read_lease stem st; (ls, st'') = read_leases stems st'
      in (case r of None \<Rightarrow> ls | Some l \<Rightarrow> l # ls, st''))"

definition active :: "int \<Rightarrow> lease_store \<Rightarrow> lease list \<times> lease_store" where
  "active now st =
     (let (_, st1) = reap_expired now st; (ls, st2) = read_leases (glob_leases st1) st1
      in (sort_key lease_id ls, st2))"

definition release :: "string \<Rightarrow> lease_store \<Rightarrow> (bool \<times> lease_store) res" where
  "release i st = rbind (lease_path i)
     (\<lambda>stem. Inr (stem \<in> fst ` set (ls_files st), unlink stem st))"

fun release_all :: "string list \<Rightarrow> lease_store \<Rightarrow> unit res \<times> lease_store" where
  "release_all [] st = (Inr (), st)"
| "release_all (i # is) st =
     (case release i st of Inl e \<Rightarrow> (Inl e, st) | Inr (_, st') \<Rightarrow> release_all is st')"

text \<open>\<^verbatim>\<open>min(matching, key=lambda item: (item.created_at, item.lease_id))\<close>.\<close>

definition older :: "lease \<Rightarrow> lease \<Rightarrow> bool" where
  "older a b \<longleftrightarrow> created_at a < created_at b \<or> (created_at a = created_at b \<and> lease_id a < lease_id b)"

definition oldest :: "lease \<Rightarrow> lease list \<Rightarrow> lease" where
  "oldest l ls = foldl (\<lambda>m x. if older x m then x else m) l ls"

text \<open>\<^verbatim>\<open>self._write(lease)\<close> followed by \<^verbatim>\<open>return lease\<close>.\<close>

definition put_lease :: "lease \<Rightarrow> lease_store \<Rightarrow> lease res \<times> lease_store" where
  "put_lease l st = (case write_lease l st of Inl e \<Rightarrow> (Inl e, st) | Inr st' \<Rightarrow> (Inr l, st'))"

text \<open>One session keeps its oldest lease: the duplicates are released, that lease is refreshed.\<close>

definition refresh_session ::
  "int \<Rightarrow> int \<Rightarrow> lease \<Rightarrow> lease list \<Rightarrow> lease_store \<Rightarrow> lease res \<times> lease_store" where
  "refresh_session now effective_ttl m ms st =
     (let canonical = oldest m ms;
          refreshed_ttl = max effective_ttl (ttl_seconds canonical);
          refreshed = canonical\<lparr>expires_at := now + refreshed_ttl, ttl_seconds := refreshed_ttl\<rparr>
      in case release_all (filter (\<lambda>i. i \<noteq> lease_id canonical) (map lease_id (m # ms))) st of
           (Inl e, st') \<Rightarrow> (Inl e, st')
         | (Inr _, st') \<Rightarrow> put_lease refreshed st')"

text \<open>
  \<open>now\<close> is the first reading of the clock, \<open>later\<close> the one in \<^verbatim>\<open>active()\<close>. A raise keeps what was done to
  the directory before it.
\<close>

definition acquire ::
  "int \<Rightarrow> int \<Rightarrow> string \<Rightarrow> string \<Rightarrow> string \<Rightarrow> int option \<Rightarrow> lease_store \<Rightarrow> lease res \<times> lease_store" where
  "acquire now later uuid c s ttl st =
     (let c = strip c; s = strip s in
      if c = [] \<or> s = [] then (Inl (ValueError ''client and session_id are required''), st)
      else
        let effective_ttl = (case ttl of None \<Rightarrow> ls_ttl st | Some t \<Rightarrow> max t (ls_ttl st));
            (ls, st1) = active later st
        in case filter (\<lambda>l. client l = c \<and> session_id l = s) ls of
          m # ms \<Rightarrow> refresh_session now effective_ttl m ms st1
        | [] \<Rightarrow>
            put_lease \<lparr>lease_id = ''lease-'' @ uuid, client = c, session_id = s, created_at = now,
              expires_at = now + effective_ttl, ttl_seconds = effective_ttl\<rparr> st1)"

text \<open>A heartbeat on a lost or expired lease raises, and its file is gone then.\<close>

definition heartbeat :: "int \<Rightarrow> string \<Rightarrow> lease_store \<Rightarrow> lease res \<times> lease_store" where
  "heartbeat now i st =
     (case lease_path i of
        Inl e \<Rightarrow> (Inl e, st)
      | Inr stem \<Rightarrow>
         (case read_lease stem st of
            (None, st') \<Rightarrow> (Inl (KeyError (''lease not found: '' @ i)), st')
          | (Some l, st') \<Rightarrow>
              if expires_at l \<le> now then (Inl (KeyError (''lease expired: '' @ i)), unlink stem st')
              else put_lease (l\<lparr>expires_at := now + ttl_seconds l\<rparr>) st'))"

definition should_shutdown :: "nat \<Rightarrow> nat \<Rightarrow> nat \<Rightarrow> int option \<Rightarrow> int \<Rightarrow> int \<Rightarrow> bool" where
  "should_shutdown active_leases leased_tasks pending_writes last_release_at idle_grace_seconds now =
     (if active_leases \<noteq> 0 \<or> leased_tasks \<noteq> 0 \<or> pending_writes \<noteq> 0 then False
      else case last_release_at of
        None \<Rightarrow> False
      | Some t \<Rightarrow> max idle_grace_seconds 0 \<le> now - t)"

section \<open>The directory\<close>

text \<open>
  \<open>live\<close> tells the files that \<open>reap_expired\<close> leaves in place; \<open>leases_of\<close> are the leases in the files
  that the globs see.
\<close>

definition live :: "int \<Rightarrow> string \<times> lease option \<Rightarrow> bool" where
  "live now f \<longleftrightarrow> (prefix ''lease-'' (fst f)
     \<longrightarrow> (case snd f of None \<Rightarrow> False | Some l \<Rightarrow> now < expires_at l))"

definition leases_of :: "(string \<times> lease option) list \<Rightarrow> lease list" where
  "leases_of fs = List.map_filter (\<lambda>f. if prefix ''lease-'' (fst f) then snd f else None) fs"

text \<open>Every file is named after the lease in it, as \<open>write_lease\<close> leaves it.\<close>

definition file_ok :: "string \<times> lease option \<Rightarrow> bool" where
  "file_ok f \<longleftrightarrow> (case snd f of None \<Rightarrow> True
     | Some l \<Rightarrow> lease_id l = fst f \<and> lease_path (fst f) = Inr (fst f))"

definition store_ok :: "lease_store \<Rightarrow> bool" where
  "store_ok st \<longleftrightarrow> distinct (map fst (ls_files st)) \<and> 0 < ls_ttl st \<and> list_all file_ok (ls_files st)"

lemma leases_of_simps [simp]:
  "leases_of [] = []"
  "leases_of ((stem, None) # fs) = leases_of fs"
  "leases_of ((stem, Some l) # fs) = (if prefix ''lease-'' stem then l # leases_of fs else leases_of fs)"
  "leases_of (fs @ gs) = leases_of fs @ leases_of gs"
  by (simp_all add: leases_of_def map_filter_def)

lemma set_leases_of: "set (leases_of fs) = {l. \<exists>stem. (stem, Some l) \<in> set fs \<and> prefix ''lease-'' stem}"
  by (induction fs rule: induct_list012) (auto simp: leases_of_def map_filter_def split: if_splits)

lemma reap_loop_files:
  assumes "distinct stems" and "distinct (map fst (ls_files st))" and "set stems \<subseteq> set (glob_leases st)"
  shows "snd (reap_loop now stems acc st)
     = st\<lparr>ls_files := filter (\<lambda>f. fst f \<in> set stems \<longrightarrow> live now f) (ls_files st)\<rparr>"
  using assms
proof (induction stems arbitrary: acc st)
  case Nil
  then show ?case by simp
next
  case (Cons stem stems)
  from Cons.prems(3) have stem: "prefix ''lease-'' stem" "stem \<in> fst ` set (ls_files st)"
    by (auto simp: glob_leases_def)
  then obtain c where c: "(stem, c) \<in> set (ls_files st)" by auto
  then have map: "map_of (ls_files st) stem = Some c" using Cons.prems(2) by simp
  have only: "f = (stem, c)" if "f \<in> set (ls_files st)" "fst f = stem" for f
    using Cons.prems(2) c that by (metis eq_key_imp_eq_value prod.collapse)
  define st' where "st' = (if live now (stem, c) then st else unlink stem st)"
  have rest: "snd (reap_loop now (stem # stems) acc st) = snd (reap_loop now stems acc' st')"
    if "acc' = (case c of None \<Rightarrow> acc | Some l \<Rightarrow> if expires_at l \<le> now then acc @ [lease_id l] else acc)" for acc'
    using stem map that by (auto simp: read_lease_def st'_def live_def split: option.split)
  have dist: "distinct (map fst (ls_files st'))"
    using Cons.prems(2) by (simp add: st'_def unlink_def distinct_map_filter)
  have "glob_leases (unlink stem st) = filter (\<lambda>i. i \<noteq> stem) (glob_leases st)"
    by (simp add: glob_leases_def unlink_def filter_map comp_def conj_commute)
  then have "set stems \<subseteq> set (glob_leases st')"
    using Cons.prems by (auto simp: st'_def)
  with Cons.IH [OF _ dist] Cons.prems(1)
  have "snd (reap_loop now stems acc' st')
      = st'\<lparr>ls_files := filter (\<lambda>f. fst f \<in> set stems \<longrightarrow> live now f) (ls_files st')\<rparr>" for acc'
    by simp
  moreover have "filter (\<lambda>f. fst f \<in> set stems \<longrightarrow> live now f) (ls_files st')
      = filter (\<lambda>f. fst f \<in> set (stem # stems) \<longrightarrow> live now f) (ls_files st)"
    using Cons.prems(1) by (auto simp: st'_def unlink_def intro!: filter_cong dest: only)
  ultimately show ?case using rest by (simp add: st'_def unlink_def)
qed

lemma distinct_glob: "distinct (map fst (ls_files st)) \<Longrightarrow> distinct (glob_leases st)"
  by (simp add: glob_leases_def)

lemma reap_expired_files:
  assumes "distinct (map fst (ls_files st))"
  shows "snd (reap_expired now st) = st\<lparr>ls_files := filter (live now) (ls_files st)\<rparr>"
proof -
  have "filter (\<lambda>f. fst f \<in> set (glob_leases st) \<longrightarrow> live now f) (ls_files st)
      = filter (live now) (ls_files st)"
    by (rule filter_cong) (auto simp: glob_leases_def live_def)
  with reap_loop_files [OF distinct_glob [OF assms] assms order_refl, of now "[]"] show ?thesis
    by (cases "reap_loop now (glob_leases st) [] st") (simp add: reap_expired_def Let_def)
qed

text \<open>On files that all hold a lease, reading them all changes nothing.\<close>

lemma read_leases_files:
  assumes "distinct (map fst (ls_files st))" and "set fs \<subseteq> set (ls_files st)"
    and "\<forall>f\<in>set fs. prefix ''lease-'' (fst f) \<longrightarrow> snd f \<noteq> None"
  shows "read_leases (filter (prefix ''lease-'') (map fst fs)) st = (leases_of fs, st)"
  using assms(2,3)
proof (induction fs)
  case Nil
  then show ?case by simp
next
  case (Cons f fs)
  obtain stem c where f: "f = (stem, c)" by fastforce
  then have "map_of (ls_files st) stem = Some c" using Cons.prems(1) assms(1) by simp
  then show ?case
    using Cons by (cases c) (auto simp: f read_lease_def split: option.split)
qed

lemma live_not_None: "live now f \<Longrightarrow> prefix ''lease-'' (fst f) \<Longrightarrow> snd f \<noteq> None"
  by (auto simp: live_def split: option.splits)

lemma leases_of_live: "leases_of (filter (live now) fs) = filter (\<lambda>l. now < expires_at l) (leases_of fs)"
proof (induction fs)
  case (Cons f fs)
  then show ?case by (cases f; cases "snd f") (auto simp: live_def)
qed simp

lemma active_eq:
  assumes "distinct (map fst (ls_files st))"
  shows "active now st = (sort_key lease_id (filter (\<lambda>l. now < expires_at l) (leases_of (ls_files st))),
     st\<lparr>ls_files := filter (live now) (ls_files st)\<rparr>)"
proof -
  define st1 where "st1 = st\<lparr>ls_files := filter (live now) (ls_files st)\<rparr>"
  have "read_leases (glob_leases st1) st1 = (leases_of (ls_files st1), st1)"
    unfolding glob_leases_def
    by (rule read_leases_files)
      (use assms in \<open>auto simp: st1_def distinct_map_filter dest: live_not_None\<close>)
  then show ?thesis
    using reap_expired_files [OF assms, of now]
    by (cases "reap_expired now st") (simp add: active_def st1_def leases_of_live)
qed

section \<open>What the operations keep\<close>

lemma list_all_filter: "list_all P xs \<Longrightarrow> list_all P (filter Q xs)"
  by (induction xs) auto

lemma list_all_update:
  "list_all P xs \<Longrightarrow> P (k, v) \<Longrightarrow> list_all P (AList.update k v xs)"
  by (induction xs) auto

lemma store_ok_filter: "store_ok st \<Longrightarrow> store_ok (st\<lparr>ls_files := filter p (ls_files st)\<rparr>)"
  by (simp add: store_ok_def distinct_map_filter list_all_filter)

lemma store_ok_unlink: "store_ok st \<Longrightarrow> store_ok (unlink stem st)"
  unfolding unlink_def by (rule store_ok_filter)

lemma store_ok_active: "store_ok st \<Longrightarrow> store_ok (snd (active now st))"
  using active_eq [of st now] store_ok_filter [of st "live now"] by (simp add: store_ok_def)

lemma lease_path_Inr: "lease_path i = Inr stem \<Longrightarrow> stem = i"
  by (auto simp: lease_path_def res_simps)

lemma store_ok_put: "store_ok st \<Longrightarrow> store_ok (snd (put_lease l st))"
  using lease_path_Inr [of "lease_id l"]
  by (cases "lease_path (lease_id l)")
    (auto simp: put_lease_def write_lease_def store_ok_def distinct_update file_ok_def
      intro!: list_all_update)

lemma store_ok_release_all: "store_ok st \<Longrightarrow> store_ok (snd (release_all is st))"
proof (induction "is" arbitrary: st)
  case (Cons i "is")
  then show ?case
    by (cases "lease_path i") (simp_all add: release_def store_ok_unlink)
qed simp

lemma store_ok_refresh:
  assumes "store_ok st" shows "store_ok (snd (refresh_session now ttl m ms st))"
proof -
  define dups where "dups = filter (\<lambda>i. i \<noteq> lease_id (oldest m ms)) (map lease_id (m # ms))"
  obtain r st' where r: "release_all dups st = (r, st')" by fastforce
  with store_ok_release_all [OF assms, of dups] have "store_ok st'" by simp
  then show ?thesis
    unfolding refresh_session_def Let_def dups_def [symmetric] r
    by (simp add: store_ok_put split: sum.split)
qed

lemma store_ok_acquire:
  assumes "store_ok st" shows "store_ok (snd (acquire now later uuid c s ttl st))"
proof -
  obtain ls st1 where a: "active later st = (ls, st1)" by fastforce
  with store_ok_active [OF assms, of later] have st1: "store_ok st1" by simp
  with a assms show ?thesis
    by (simp add: acquire_def Let_def store_ok_put store_ok_refresh split: list.split)
qed

lemma store_ok_heartbeat: "store_ok st \<Longrightarrow> store_ok (snd (heartbeat now i st))"
  by (auto simp: heartbeat_def read_lease_def store_ok_unlink store_ok_put
      split: sum.split option.split)

section \<open>One lease per session\<close>

definition session :: "lease \<Rightarrow> string \<times> string" where
  "session l = (client l, session_id l)"

lemma session_update [simp]: "session (l\<lparr>expires_at := e\<rparr>) = session l" "session (l\<lparr>ttl_seconds := t\<rparr>) = session l"
  by (simp_all add: session_def)

lemma distinct_map_iff_filter: "distinct (map f xs) \<longleftrightarrow> (\<forall>k. length (filter (\<lambda>x. f x = k) xs) \<le> 1)"
proof (induction xs)
  case (Cons x xs)
  have fst: "length (filter (\<lambda>y. f y = f x) (x # xs)) \<le> 1 \<longleftrightarrow> f x \<notin> set (map f xs)"
    by (auto simp: filter_empty_conv image_iff)
  have "(\<forall>k. length (filter (\<lambda>y. f y = k) (x # xs)) \<le> 1)
      \<longleftrightarrow> length (filter (\<lambda>y. f y = f x) (x # xs)) \<le> 1 \<and> (\<forall>k. length (filter (\<lambda>y. f y = k) xs) \<le> 1)"
    (is "?A \<longleftrightarrow> ?B \<and> ?C")
  proof
    assume A: ?A
    have "length (filter (\<lambda>y. f y = k) xs) \<le> 1" for k
      using A [rule_format, of k] by (simp split: if_splits)
    with A show "?B \<and> ?C" by blast
  next
    assume BC: "?B \<and> ?C"
    show ?A
    proof
      fix k
      show "length (filter (\<lambda>y. f y = k) (x # xs)) \<le> 1"
        using BC by (cases "k = f x") auto
    qed
  qed
  also have "\<dots> \<longleftrightarrow> f x \<notin> set (map f xs) \<and> distinct (map f xs)"
    unfolding fst Cons.IH ..
  finally show ?case by simp
qed simp

lemma oldest_in: "oldest m ms \<in> set (m # ms)"
  unfolding oldest_def by (induction ms arbitrary: m) (auto split: if_splits)

lemma release_all_ok:
  "\<forall>i\<in>set is. lease_path i = Inr i \<Longrightarrow>
     release_all is st = (Inr (), st\<lparr>ls_files := filter (\<lambda>f. fst f \<notin> set is) (ls_files st)\<rparr>)"
proof (induction "is" arbitrary: st)
  case (Cons i "is")
  then show ?case
    by (simp add: release_def unlink_def)
qed simp

lemma leases_of_filter_out:
  assumes "\<And>stem l. (stem, Some l) \<in> set fs \<Longrightarrow> stem \<in> D \<Longrightarrow> \<not> Q l"
  shows "filter Q (leases_of (filter (\<lambda>f. fst f \<notin> D) fs)) = filter Q (leases_of fs)"
  using assms
proof (induction fs)
  case (Cons f fs)
  then show ?case by (cases f; cases "snd f") auto
qed simp

lemma leases_of_update_other:
  assumes "\<And>l. (stem, Some l) \<in> set fs \<Longrightarrow> \<not> Q l" and "\<not> Q l"
  shows "filter Q (leases_of (AList.update stem (Some l) fs)) = filter Q (leases_of fs)"
  using assms
proof (induction fs)
  case (Cons f fs)
  then show ?case by (cases f; cases "snd f") auto
qed simp

lemma leases_of_update_own:
  assumes "distinct (map fst fs)" and "\<And>i x. (i, Some x) \<in> set fs \<Longrightarrow> i \<noteq> stem \<Longrightarrow> prefix ''lease-'' i \<Longrightarrow> \<not> Q x"
    and "Q l" and "prefix ''lease-'' stem"
  shows "filter Q (leases_of (AList.update stem (Some l) fs)) = [l]"
  using assms(1,2)
proof (induction fs)
  case Nil
  with assms(3,4) show ?case by simp
next
  case (Cons f fs)
  obtain i c where f: "f = (i, c)" by fastforce
  have none: "filter Q (leases_of fs) = []" if "i = stem"
    using Cons.prems that f by (fastforce simp: filter_empty_conv set_leases_of image_iff)
  show ?case
  proof (cases "i = stem")
    case True
    with none f assms(3,4) show ?thesis by simp
  next
    case False
    have "filter Q (leases_of (AList.update stem (Some l) fs)) = [l]"
      using Cons.prems by (intro Cons.IH) auto
    with False f Cons.prems(2) [of i] show ?thesis by (cases c) auto
  qed
qed

lemma leases_of_ids:
  "list_all file_ok fs \<Longrightarrow> l \<in> set (leases_of fs) \<Longrightarrow>
     (lease_id l, Some l) \<in> set fs \<and> lease_path (lease_id l) = Inr (lease_id l) \<and> prefix ''lease-'' (lease_id l)"
  by (fastforce simp: set_leases_of file_ok_def list_all_iff)

lemma file_okD: "list_all file_ok fs \<Longrightarrow> (i, Some l) \<in> set fs \<Longrightarrow> lease_id l = i"
  by (fastforce simp: file_ok_def list_all_iff)

text \<open>Refreshing a session keeps one lease of it and does not touch those of the others.\<close>

lemma refresh_session_ok:
  assumes ok: "store_ok st" and ms: "set (m # ms) = {l \<in> set (leases_of (ls_files st)). session l = k}"
    and t_def: "t = max ttl (ttl_seconds (oldest m ms))"
  shows "\<exists>l st'. refresh_session now ttl m ms st = (Inr l, st')
     \<and> filter (\<lambda>x. session x = k) (leases_of (ls_files st')) = [l]
     \<and> filter (\<lambda>x. session x \<noteq> k) (leases_of (ls_files st')) = filter (\<lambda>x. session x \<noteq> k) (leases_of (ls_files st))
     \<and> lease_id l = lease_id (oldest m ms) \<and> ttl_seconds l = t \<and> expires_at l = now + t"
proof -
  define old where "old = oldest m ms"
  define new where "new = old\<lparr>expires_at := now + t, ttl_seconds := t\<rparr>"
  define dups where "dups = filter (\<lambda>i. i \<noteq> lease_id old) (map lease_id (m # ms))"
  define fs where "fs = filter (\<lambda>f. fst f \<notin> set dups) (ls_files st)"
  have dups: "set dups = lease_id ` set (m # ms) - {lease_id old}" by (auto simp: dups_def)
  have files: "list_all file_ok (ls_files st)" "distinct (map fst (ls_files st))"
    using ok by (simp_all add: store_ok_def)
  have old: "old \<in> set (leases_of (ls_files st))" "session old = k"
    using oldest_in [of m ms] ms unfolding old_def by blast+
  note ids = leases_of_ids [OF files(1)]
  have "\<forall>i\<in>set dups. lease_path i = Inr i"
  proof
    fix i
    assume "i \<in> set dups"
    then obtain l where "l \<in> set (m # ms)" "i = lease_id l" unfolding dups by blast
    with ms ids show "lease_path i = Inr i" by blast
  qed
  from release_all_ok [OF this, of st] have "refresh_session now ttl m ms st = put_lease new (st\<lparr>ls_files := fs\<rparr>)"
    unfolding refresh_session_def Let_def old_def [symmetric] dups_def [symmetric]
    by (simp add: old_def new_def t_def fs_def)
  also have "\<dots> = (Inr new, st\<lparr>ls_files := AList.update (lease_id old) (Some new) fs\<rparr>)"
    using ids [OF old(1)] by (simp add: put_lease_def write_lease_def new_def)
  finally have eq: "refresh_session now ttl m ms st
      = (Inr new, st\<lparr>ls_files := AList.update (lease_id old) (Some new) fs\<rparr>)" .
  have own: "filter (\<lambda>x. session x = k) (leases_of (AList.update (lease_id old) (Some new) fs)) = [new]"
  proof (rule leases_of_update_own)
    show "distinct (map fst fs)" using files(2) by (simp add: fs_def distinct_map_filter)
    show "prefix ''lease-'' (lease_id old)" using ids [OF old(1)] by simp
    show "session new = k" using old by (simp add: new_def)
    fix i x
    assume x: "(i, Some x) \<in> set fs" and i: "i \<noteq> lease_id old" and p: "prefix ''lease-'' i"
    then have "x \<in> set (leases_of (ls_files st))" "lease_id x = i" "i \<notin> set dups"
      using file_okD [OF files(1)] by (auto simp: set_leases_of fs_def)
    with i ms show "session x \<noteq> k" unfolding dups by blast
  qed
  have "filter (\<lambda>x. session x \<noteq> k) (leases_of (AList.update (lease_id old) (Some new) fs))
      = filter (\<lambda>x. session x \<noteq> k) (leases_of fs)"
  proof (rule leases_of_update_other)
    show "\<not> session new \<noteq> k" using old by (simp add: new_def)
    fix l
    assume "(lease_id old, Some l) \<in> set fs"
    then have "l = old" using ids [OF old(1)] files(2)
      by (auto simp: fs_def dest: eq_key_imp_eq_value)
    then show "\<not> session l \<noteq> k" using old by simp
  qed
  also have "\<dots> = filter (\<lambda>x. session x \<noteq> k) (leases_of (ls_files st))"
    unfolding fs_def
  proof (rule leases_of_filter_out)
    fix i l
    assume l: "(i, Some l) \<in> set (ls_files st)" and i: "i \<in> set dups"
    then obtain d where d: "d \<in> set (m # ms)" "lease_id d = i" unfolding dups by blast
    with ms ids have "(i, Some d) \<in> set (ls_files st)" "session d = k" by blast+
    with l files(2) show "\<not> session l \<noteq> k" by (auto dest: eq_key_imp_eq_value)
  qed
  finally show ?thesis
    using eq own by (simp add: new_def old_def)
qed


text \<open>What \<open>acquire\<close> does to the directory when it gets that far.\<close>

definition acquire_ttl :: "int option \<Rightarrow> lease_store \<Rightarrow> int" where
  "acquire_ttl ttl st = (case ttl of None \<Rightarrow> ls_ttl st | Some t \<Rightarrow> max t (ls_ttl st))"

lemma acquire_ok:
  assumes ok: "store_ok st" and c: "strip c \<noteq> []" "strip s \<noteq> []"
    and uuid: "CHR ''/'' \<notin> set uuid" "''lease-'' @ uuid \<notin> fst ` set (ls_files st)"
  defines "k \<equiv> (strip c, strip s)"
  shows "\<exists>l st'. acquire now later uuid c s ttl st = (Inr l, st')
     \<and> filter (\<lambda>x. session x = k) (leases_of (ls_files st')) = [l]
     \<and> filter (\<lambda>x. session x \<noteq> k) (leases_of (ls_files st'))
         = filter (\<lambda>x. session x \<noteq> k \<and> later < expires_at x) (leases_of (ls_files st))
     \<and> expires_at l = now + ttl_seconds l \<and> acquire_ttl ttl st \<le> ttl_seconds l"
proof -
  define st1 where "st1 = st\<lparr>ls_files := filter (live later) (ls_files st)\<rparr>"
  define ls where "ls = filter (\<lambda>l. later < expires_at l) (leases_of (ls_files st))"
  have st1: "store_ok st1" "leases_of (ls_files st1) = ls"
    using store_ok_filter [OF ok] by (simp_all add: st1_def leases_of_live ls_def)
  have acq: "acquire now later uuid c s ttl st = (case filter (\<lambda>l. session l = k) (sort_key lease_id ls) of
        m # ms \<Rightarrow> refresh_session now (acquire_ttl ttl st) m ms st1
      | [] \<Rightarrow> put_lease \<lparr>lease_id = ''lease-'' @ uuid, client = strip c, session_id = strip s, created_at = now,
              expires_at = now + acquire_ttl ttl st, ttl_seconds = acquire_ttl ttl st\<rparr> st1)"
    using ok c active_eq [of st later]
    by (simp add: acquire_def Let_def store_ok_def st1_def ls_def acquire_ttl_def k_def session_def
        split: list.split)
  have others: "filter (\<lambda>x. session x \<noteq> k) ls
      = filter (\<lambda>x. session x \<noteq> k \<and> later < expires_at x) (leases_of (ls_files st))"
    by (simp add: ls_def conj_commute)
  show ?thesis
  proof (cases "filter (\<lambda>l. session l = k) (sort_key lease_id ls)")
    case (Cons m ms)
    have ms: "set (m # ms) = {l \<in> set (leases_of (ls_files st1)). session l = k}"
      unfolding Cons [symmetric] st1(2) by auto
    from refresh_session_ok [OF st1(1) ms refl, of now "acquire_ttl ttl st"] Cons acq others st1(2)
    show ?thesis by (auto simp del: filter_filter)
  next
    case Nil
    define l where "l = \<lparr>lease_id = ''lease-'' @ uuid, client = strip c, session_id = strip s, created_at = now,
              expires_at = now + acquire_ttl ttl st, ttl_seconds = acquire_ttl ttl st\<rparr>"
    have path: "lease_path (lease_id l) = Inr (lease_id l)"
      using uuid(1) by (simp add: l_def lease_path_def)
    define fs where "fs = AList.update (lease_id l) (Some l) (ls_files st1)"
    have "acquire now later uuid c s ttl st = (Inr l, st1\<lparr>ls_files := fs\<rparr>)"
      using acq Nil path by (simp add: l_def put_lease_def write_lease_def fs_def)
    moreover have "filter (\<lambda>x. session x = k) (leases_of fs) = [l]"
      unfolding fs_def
    proof (rule leases_of_update_own)
      show "distinct (map fst (ls_files st1))" using st1(1) by (simp add: store_ok_def)
      fix i x
      assume "(i, Some x) \<in> set (ls_files st1)" "prefix ''lease-'' i"
      then have "x \<in> set ls" unfolding st1(2) [symmetric] by (auto simp: set_leases_of)
      moreover have "set (filter (\<lambda>l. session l = k) (sort_key lease_id ls)) = {}" using Nil by simp
      ultimately show "session x \<noteq> k" by auto
    qed (simp_all add: l_def session_def k_def)
    moreover have "filter (\<lambda>x. session x \<noteq> k) (leases_of fs) = filter (\<lambda>x. session x \<noteq> k) ls"
      unfolding fs_def st1(2) [symmetric]
    proof (rule leases_of_update_other)
      fix x
      assume "(lease_id l, Some x) \<in> set (ls_files st1)"
      with uuid(2) show "\<not> session x \<noteq> k" by (force simp: st1_def l_def)
    qed (simp add: l_def session_def k_def)
    ultimately show ?thesis using others by (simp add: l_def)
  qed
qed

section \<open>Any use of the store\<close>

inductive lease_step :: "lease_store \<Rightarrow> lease_store \<Rightarrow> bool" where
  acquired: "CHR ''/'' \<notin> set uuid \<Longrightarrow> ''lease-'' @ uuid \<notin> fst ` set (ls_files st) \<Longrightarrow>
     lease_step st (snd (acquire now later uuid c s ttl st))"
| heartbeaten: "lease_step st (snd (heartbeat now i st))"
| released: "release i st = Inr (existed, st') \<Longrightarrow> lease_step st st'"
| listed: "lease_step st (snd (active now st))"
| reaped: "lease_step st (snd (reap_expired now st))"

definition sessions_ok :: "lease_store \<Rightarrow> bool" where
  "sessions_ok st \<longleftrightarrow> store_ok st \<and> distinct (map session (leases_of (ls_files st)))"

lemma distinct_sessions_filter:
  "distinct (map session (leases_of fs)) \<Longrightarrow> distinct (map session (leases_of (filter p fs)))"
proof (induction fs)
  case (Cons f fs)
  have "set (leases_of (filter p fs)) \<subseteq> set (leases_of fs)" by (auto simp: set_leases_of)
  with Cons show ?case by (cases f; cases "snd f") auto
qed simp

lemma sessions_ok_filter: "sessions_ok st \<Longrightarrow> sessions_ok (st\<lparr>ls_files := filter p (ls_files st)\<rparr>)"
  by (simp add: sessions_ok_def store_ok_filter distinct_sessions_filter)

lemma sessions_update:
  assumes "map_of fs stem = Some (Some l)" and "session l' = session l"
  shows "map session (leases_of (AList.update stem (Some l') fs)) = map session (leases_of fs)"
  using assms
proof (induction fs)
  case (Cons f fs)
  then show ?case by (cases f; cases "snd f") (auto split: if_splits)
qed simp

lemma sessions_ok_acquire:
  assumes "sessions_ok st" and "CHR ''/'' \<notin> set uuid" "''lease-'' @ uuid \<notin> fst ` set (ls_files st)"
  shows "sessions_ok (snd (acquire now later uuid c s ttl st))"
proof (cases "strip c = [] \<or> strip s = []")
  case True
  with assms(1) show ?thesis by (auto simp: acquire_def Let_def)
next
  case False
  let ?k = "(strip c, strip s)"
  from assms(1) have ok: "store_ok st" by (simp add: sessions_ok_def)
  from False have c: "strip c \<noteq> []" "strip s \<noteq> []" by auto
  obtain l st' where acq: "acquire now later uuid c s ttl st = (Inr l, st')"
    and own: "filter (\<lambda>x. session x = ?k) (leases_of (ls_files st')) = [l]"
    and others: "filter (\<lambda>x. session x \<noteq> ?k) (leases_of (ls_files st'))
      = filter (\<lambda>x. session x \<noteq> ?k \<and> later < expires_at x) (leases_of (ls_files st))"
    using acquire_ok [OF ok c assms(2,3)] by blast
  have "length (filter (\<lambda>x. session x = k) (leases_of (ls_files st'))) \<le> 1" for k
  proof (cases "k = ?k")
    case True
    with own show ?thesis by simp
  next
    case False
    then have "filter (\<lambda>x. session x = k) (leases_of (ls_files st'))
        = filter (\<lambda>x. session x = k) (filter (\<lambda>x. session x \<noteq> ?k) (leases_of (ls_files st')))"
      by (auto intro!: filter_cong)
    also have "\<dots> = filter (\<lambda>x. session x \<noteq> ?k \<and> later < expires_at x)
        (filter (\<lambda>x. session x = k) (leases_of (ls_files st)))"
      unfolding others by (auto intro!: filter_cong)
    finally have "length (filter (\<lambda>x. session x = k) (leases_of (ls_files st')))
        \<le> length (filter (\<lambda>x. session x = k) (leases_of (ls_files st)))"
      by (simp only: length_filter_le)
    also have "\<dots> \<le> 1"
      using assms(1) unfolding sessions_ok_def distinct_map_iff_filter by blast
    finally show ?thesis .
  qed
  then have "distinct (map session (leases_of (ls_files st')))"
    unfolding distinct_map_iff_filter by blast
  with store_ok_acquire [OF ok, of now later uuid c s ttl] acq show ?thesis
    by (simp add: sessions_ok_def)
qed

lemma sessions_ok_heartbeat:
  assumes "sessions_ok st" shows "sessions_ok (snd (heartbeat now i st))"
proof (cases "lease_path i")
  case (Inr stem)
  have drop: "sessions_ok (unlink stem st)"
    using sessions_ok_filter [OF assms] by (simp add: unlink_def)
  have ok: "store_ok (snd (heartbeat now i st))"
    using assms store_ok_heartbeat by (simp add: sessions_ok_def)
  show ?thesis
  proof (cases "map_of (ls_files st) stem")
    case (Some c)
    with assms have "lease_path (lease_id l) = Inr stem" if "c = Some l" for l
      using that by (auto simp: sessions_ok_def store_ok_def list_all_iff file_ok_def dest!: map_of_SomeD)
    with Some Inr drop ok assms show ?thesis
      by (cases c) (auto simp: heartbeat_def read_lease_def put_lease_def write_lease_def sessions_ok_def
        sessions_update)
  qed (use Inr drop in \<open>simp add: heartbeat_def read_lease_def\<close>)
qed (use assms in \<open>simp add: heartbeat_def\<close>)

interpretation lease_inv: step_invariant lease_step sessions_ok
proof
  fix st st'
  assume "lease_step st st'" and ok: "sessions_ok st"
  then have dist: "distinct (map fst (ls_files st))" by (simp add: sessions_ok_def store_ok_def)
  from \<open>lease_step st st'\<close> show "sessions_ok st'"
  proof cases
    case released
    with sessions_ok_filter [OF ok] show ?thesis by (auto simp: release_def res_simps unlink_def)
  qed (use ok sessions_ok_acquire sessions_ok_heartbeat sessions_ok_filter active_eq [OF dist]
      reap_expired_files [OF dist] in auto)
qed

section \<open>Properties\<close>

text \<open>
  C27. Whatever sequence of acquisitions, heartbeats, releases and reaps a directory sees, it holds
  at most one lease per client and session, every file is named after the lease in it, and no two
  files have one name. So hook retries never keep the runtime alive with duplicates.\<close>

theorem one_lease_per_session:
  assumes "lease_step\<^sup>*\<^sup>* (new_lease_store [] ttl) st"
  shows "distinct (map session (leases_of (ls_files st))) \<and> store_ok st"
proof -
  have "sessions_ok (new_lease_store [] ttl)"
    by (simp add: sessions_ok_def store_ok_def new_lease_store_def)
  from lease_inv.inv_steps [OF assms this] show ?thesis by (simp add: sessions_ok_def)
qed

lemma one_lease_per_session_witness:
  "distinct (map session (leases_of (ls_files
     (snd (acquire 5 5 ''b'' ''hermes'' ''s1'' None
       (snd (acquire 0 0 ''a'' ''hermes'' ''s1'' None (new_lease_store [] 30000000))))))))
   \<and> store_ok (snd (acquire 5 5 ''b'' ''hermes'' ''s1'' None
       (snd (acquire 0 0 ''a'' ''hermes'' ''s1'' None (new_lease_store [] 30000000)))))"
proof (rule one_lease_per_session)
  let ?s0 = "new_lease_store [] 30000000"
  let ?s1 = "snd (acquire 0 0 ''a'' ''hermes'' ''s1'' None ?s0)"
  have s1: "map fst (ls_files ?s1) = [''lease-a'']" by code_simp
  have "lease_step ?s0 ?s1" by (rule acquired) (simp_all add: new_lease_store_def)
  moreover have "lease_step ?s1 (snd (acquire 5 5 ''b'' ''hermes'' ''s1'' None ?s1))"
    by (rule acquired) (simp_all flip: list.set_map add: s1)
  ultimately show "lease_step\<^sup>*\<^sup>* ?s0 (snd (acquire 5 5 ''b'' ''hermes'' ''s1'' None ?s1))" by auto
qed

text \<open>
  An acquisition for a named client and session succeeds and leaves exactly one lease of that
  session, the one it returns: refreshed if the session had one, new otherwise. Its time to live is
  at least what was asked for and at least that of the store, it ends that long after now, and the
  leases of the other sessions that have not expired stay as they were.\<close>

theorem acquire_one_lease:
  assumes "store_ok st" and "strip c \<noteq> []" and "strip s \<noteq> []"
    and "CHR ''/'' \<notin> set uuid" and "''lease-'' @ uuid \<notin> fst ` set (ls_files st)"
  shows "\<exists>l st'. acquire now later uuid c s ttl st = (Inr l, st')
     \<and> filter (\<lambda>x. session x = (strip c, strip s)) (leases_of (ls_files st')) = [l]
     \<and> filter (\<lambda>x. session x \<noteq> (strip c, strip s)) (leases_of (ls_files st'))
         = filter (\<lambda>x. session x \<noteq> (strip c, strip s) \<and> later < expires_at x) (leases_of (ls_files st))
     \<and> expires_at l = now + ttl_seconds l \<and> acquire_ttl ttl st \<le> ttl_seconds l"
  using assms by (rule acquire_ok)

lemma acquire_one_lease_witness:
  "\<exists>l st'. acquire 7 8 ''x'' '' hermes '' ''s'' (Some 1) (new_lease_store [] 0) = (Inr l, st')
     \<and> leases_of (ls_files st') = [l] \<and> expires_at l = 100007"
proof -
  have "acquire 7 8 ''x'' '' hermes '' ''s'' (Some 1) (new_lease_store [] 0)
      = (Inr \<lparr>lease_id = ''lease-x'', client = ''hermes'', session_id = ''s'', created_at = 7,
           expires_at = 100007, ttl_seconds = 100000\<rparr>,
         \<lparr>ls_files = [(''lease-x'', Some \<lparr>lease_id = ''lease-x'', client = ''hermes'',
           session_id = ''s'', created_at = 7, expires_at = 100007, ttl_seconds = 100000\<rparr>)],
          ls_ttl = 100000\<rparr>)"
    by code_simp
  moreover have "strip '' hermes '' \<noteq> []" "strip ''s'' \<noteq> []" by code_simp+
  ultimately show ?thesis
    using acquire_one_lease [of "new_lease_store [] 0" "'' hermes ''" "''s''" "''x''" 7 8 "Some 1"]
    by (simp add: new_lease_store_def store_ok_def)
qed

text \<open>
  A lease that has expired is not active and cannot be revived: \<open>active\<close> lists, in the order of
  their ids, exactly the leases that end after now, and a heartbeat on a lease that ended raises
  \<open>KeyError\<close> and deletes its file.\<close>

lemma expired_lease_stays_dead:
  assumes "store_ok st" and "(i, Some l) \<in> set (ls_files st)" and "expires_at l \<le> now"
  shows "set (fst (active now st)) = {x \<in> set (leases_of (ls_files st)). now < expires_at x}
     \<and> sorted (map lease_id (fst (active now st))) \<and> l \<notin> set (fst (active now st))
     \<and> heartbeat now i st = (Inl (KeyError (''lease expired: '' @ i)), unlink i st)"
proof -
  from assms have path: "lease_path i = Inr i" and map: "map_of (ls_files st) i = Some (Some l)"
    by (auto simp: store_ok_def list_all_iff file_ok_def)
  from assms(1) have "distinct (map fst (ls_files st))" by (simp add: store_ok_def)
  from active_eq [OF this, of now] path map assms(3) show ?thesis
    by (auto simp: heartbeat_def read_lease_def)
qed

end
