(* ===== verification/RuntimeSupervisor.thy ===== *)
theory RuntimeSupervisor
  imports Leases Json
begin

text \<open>
  The on-demand supervisor of the runtime (\<^verbatim>\<open>runtime/supervisor.py\<close>): the activity report that gates idle
  shutdown, the idle boundary, and the operations that start and stop the managed processes.

  Every operation runs under the runtime lock, so it is one function of the state. The environment is
  its input: what the clock reads at each call, which recorded processes are verified to be alive,
  how the activity probe ends, and whether a start succeeds. The state keeps the members of the state
  file that decisions depend on, and the lease directory. The detached idle watcher, which only calls
  \<open>watch_idle\<close>, is not part of it.
\<close>

section \<open>Activity\<close>

record runtime_activity =
  ra_known :: bool
  ra_leased_tasks :: nat
  ra_pending_writes :: nat
  ra_error_code :: "string option"
  ra_stale :: bool
  ra_observed_at :: "string option"

definition known_activity :: "runtime_activity" where
  "known_activity = \<lparr>ra_known = True, ra_leased_tasks = 0, ra_pending_writes = 0, ra_error_code = None,
     ra_stale = False, ra_observed_at = None\<rparr>"

definition unknown_activity :: "string \<Rightarrow> runtime_activity" where
  "unknown_activity code = \<lparr>ra_known = False, ra_leased_tasks = 0, ra_pending_writes = 0,
     ra_error_code = Some code, ra_stale = True, ra_observed_at = None\<rparr>"

definition quiescent :: "runtime_activity \<Rightarrow> bool" where
  "quiescent a \<longleftrightarrow> ra_known a \<and> \<not> ra_stale a \<and> ra_leased_tasks a = 0 \<and> ra_pending_writes a = 0"

text \<open>\<^verbatim>\<open>int(text)\<close>: surrounding white space, a sign, digits with single underscores between them.\<close>

fun int_digits :: "bool \<Rightarrow> string \<Rightarrow> bool" where
  "int_digits after_digit [] = after_digit"
| "int_digits after_digit (c # s) =
     (if is_digit c then int_digits True s else c = CHR ''_'' \<and> after_digit \<and> int_digits False s)"

definition int_of_text :: "string \<Rightarrow> int option" where
  "int_of_text text =
     (let s = strip text;
          sgn = (case s of c # _ \<Rightarrow> c \<in> {CHR ''+'', CHR ''-''} | [] \<Rightarrow> False);
          digits = (if sgn then tl s else s)
      in if int_digits False digits then
           Some ((if sgn \<and> hd s = CHR ''-'' then -1 else 1) * int (read_nat (filter is_digit digits)))
         else None)"

definition activity_count :: "(string \<times> json) list \<Rightarrow> string \<Rightarrow> nat res" where
  "activity_count payload name =
     (let bad = TypeError (''runtime activity '' @ name @ '' must be an integer'') in
      rbind (case jget_default payload name (JInt 0) of
          JInt i \<Rightarrow> Inr i
        | JStr s \<Rightarrow> (case int_of_text s of
              Some i \<Rightarrow> Inr i
            | None \<Rightarrow> Inl (ValueError (''invalid literal for int() with base 10: '' @ repr_str s)))
        | _ \<Rightarrow> Inl bad) (\<lambda>parsed.
      raise_if (parsed < 0) (ValueError (''runtime activity '' @ name @ '' must not be negative''))
      (Inr (nat parsed))))"

definition parse_activity :: "(string \<times> json) list \<Rightarrow> runtime_activity res" where
  "parse_activity payload =
     rbind (case jget_default payload ''stale'' (JBool False) of
         JBool b \<Rightarrow> Inr b
       | _ \<Rightarrow> Inl (TypeError ''runtime activity stale must be a boolean'')) (\<lambda>stale.
     rbind (case jget payload ''observed_at'' of
         JNull \<Rightarrow> Inr None
       | JStr s \<Rightarrow> Inr (Some s)
       | _ \<Rightarrow> Inl (TypeError ''runtime activity observed_at must be a string'')) (\<lambda>observed_at.
     rbind (activity_count payload ''leased_tasks'') (\<lambda>leased_tasks.
     rbind (activity_count payload ''pending_writes'') (\<lambda>pending_writes.
     Inr \<lparr>ra_known = (jget payload ''known'' = JBool True), ra_leased_tasks = leased_tasks,
       ra_pending_writes = pending_writes,
       ra_error_code = (case jget payload ''error_code'' of JNull \<Rightarrow> None | v \<Rightarrow> Some (py_str v)),
       ra_stale = stale, ra_observed_at = observed_at\<rparr>))))"

text \<open>
  How reading the activity ends: no managed Local to ask, a decoded answer, or an exception of one of
  the classes the handlers tell apart.
\<close>

datatype probe = Unmanaged | Answer json | TimedOut | HttpFailure | Unreachable | Invalid | Failed

definition activity_snapshot :: "probe \<Rightarrow> runtime_activity" where
  "activity_snapshot p = (case p of
     Unmanaged \<Rightarrow> known_activity
   | Answer v \<Rightarrow> (case v of
       JObj d \<Rightarrow> (case parse_activity d of
           Inr a \<Rightarrow> a
         | Inl _ \<Rightarrow> unknown_activity ''activity_response_invalid'')
     | _ \<Rightarrow> unknown_activity ''activity_response_invalid'')
   | TimedOut \<Rightarrow> unknown_activity ''core_activity_timeout''
   | HttpFailure \<Rightarrow> unknown_activity ''core_activity_unreachable''
   | Unreachable \<Rightarrow> unknown_activity ''core_activity_unreachable''
   | Invalid \<Rightarrow> unknown_activity ''activity_response_invalid''
   | Failed \<Rightarrow> unknown_activity ''activity_probe_failed'')"

section \<open>The state of the runtime\<close>

record supervisor_config =
  sc_automatic_shutdown :: bool
  sc_process_owner :: bool
  sc_idle_shutdown_seconds :: int
  sc_max_session_ttl_seconds :: int
  sc_commands :: "string list"

definition new_supervisor_config :: "bool \<Rightarrow> bool \<Rightarrow> int \<Rightarrow> int \<Rightarrow> int \<Rightarrow> string \<Rightarrow> string list \<Rightarrow> supervisor_config res" where
  "new_supervisor_config automatic owner idle lease_ttl max_ttl residency_mode commands =
     raise_if (residency_mode \<notin> {''session'', ''idle'', ''always_on''})
       (ValueError ''invalid runtime residency mode'')
     (Inr \<lparr>sc_automatic_shutdown = automatic, sc_process_owner = owner, sc_idle_shutdown_seconds = max idle 0,
        sc_max_session_ttl_seconds = max max_ttl lease_ttl, sc_commands = commands\<rparr>)"

record runtime_state =
  rs_leases :: lease_store
  rs_running :: bool
  rs_processes :: "string list"
  rs_idle_since :: "int option"
  rs_activity :: "runtime_activity option"
  rs_last_release_at :: "int option"

definition set_idle_since :: "int option \<Rightarrow> runtime_state \<Rightarrow> runtime_state" where
  "set_idle_since v st = st\<lparr>rs_idle_since := v\<rparr>"

definition record_activity :: "runtime_activity \<Rightarrow> runtime_state \<Rightarrow> runtime_state" where
  "record_activity a st = st\<lparr>rs_activity := Some a\<rparr>"

text \<open>\<open>alive\<close> are the recorded and registered processes that are verified to run.\<close>

definition all_commands_running :: "supervisor_config \<Rightarrow> string list \<Rightarrow> bool" where
  "all_commands_running cfg alive \<longleftrightarrow> sc_commands cfg = [] \<or> set (sc_commands cfg) \<subseteq> set alive"

definition reconcile_process_state :: "supervisor_config \<Rightarrow> string list \<Rightarrow> runtime_state \<Rightarrow> runtime_state" where
  "reconcile_process_state cfg alive st =
     (if sc_commands cfg = [] then st
      else if alive \<noteq> [] \<and> all_commands_running cfg alive then
        (if \<not> rs_running st \<or> rs_processes st \<noteq> alive
         then st\<lparr>rs_running := True, rs_processes := alive\<rparr> else st)
      else if rs_running st \<or> rs_processes st \<noteq> [] then st\<lparr>rs_running := False, rs_processes := alive\<rparr>
      else st)"

text \<open>\<^verbatim>\<open>_write\<close> counts the active leases, which reaps the expired ones.\<close>

definition write_running :: "int \<Rightarrow> string list \<Rightarrow> bool \<Rightarrow> int option \<Rightarrow> runtime_state \<Rightarrow> runtime_state" where
  "write_running now alive running last_release_at st =
     st\<lparr>rs_leases := snd (active now (rs_leases st)), rs_running := running, rs_processes := alive,
        rs_last_release_at := (case last_release_at of None \<Rightarrow> rs_last_release_at st | Some t \<Rightarrow> Some t)\<rparr>"

definition update_idle_boundary ::
  "nat \<Rightarrow> int \<Rightarrow> probe \<Rightarrow> runtime_state \<Rightarrow> runtime_activity \<times> int option \<times> runtime_state" where
  "update_idle_boundary active_leases now p st =
     (if active_leases \<noteq> 0 then (known_activity, None, set_idle_since None st)
      else
        let activity = activity_snapshot p; st = record_activity activity st in
        if \<not> quiescent activity then (activity, None, set_idle_since None st)
        else case rs_idle_since st of
          None \<Rightarrow> (activity, Some now, set_idle_since (Some now) st)
        | Some t \<Rightarrow> (activity, Some t, st))"

definition stop_runtime :: "int \<Rightarrow> runtime_state \<Rightarrow> runtime_state" where
  "stop_runtime now st = write_running now [] False (Some now) (st\<lparr>rs_processes := []\<rparr>)"

section \<open>Shutdown\<close>

text \<open>What the clock reads and the probe answers in the second look before a stop.\<close>

record recheck =
  rk_active_now :: int
  rk_boundary_now :: int
  rk_probe :: probe
  rk_stop_now :: int

text \<open>
  The end of \<open>release\<close>, \<open>status\<close> and \<open>watch_idle\<close>: leases and activity are read again, and only if both
  are still clear the processes are stopped. The result says whether they were, and what was seen.
\<close>

definition try_stop :: "recheck \<Rightarrow> runtime_state \<Rightarrow> bool \<times> lease list \<times> runtime_activity \<times> runtime_state" where
  "try_stop k st =
     (let (ls, store) = active (rk_active_now k) (rs_leases st);
          (activity, idle_since, st1) =
            update_idle_boundary (length ls) (rk_boundary_now k) (rk_probe k) (st\<lparr>rs_leases := store\<rparr>)
      in if idle_since \<noteq> None \<and> quiescent activity \<and> ls = []
         then (True, ls, activity, stop_runtime (rk_stop_now k) st1)
         else (False, ls, activity, st1))"

definition shutdown_due :: "supervisor_config \<Rightarrow> nat \<Rightarrow> runtime_activity \<Rightarrow> int option \<Rightarrow> int \<Rightarrow> bool" where
  "shutdown_due cfg active_leases activity idle_since now \<longleftrightarrow>
     idle_since \<noteq> None \<and> should_shutdown active_leases (ra_leased_tasks activity)
       (ra_pending_writes activity) idle_since (sc_idle_shutdown_seconds cfg) now"

datatype watch_result = Watching | IdleTimeout | RuntimeNotRunning | RuntimeProcessMissing

record watch_input =
  wi_reap_now :: int
  wi_active_now :: int
  wi_live :: "string list"
  wi_still_live :: "string list"
  wi_write_now :: int
  wi_now :: int
  wi_probe :: probe
  wi_recheck :: recheck

text \<open>One turn of the loop of \<open>watch_idle\<close>; \<open>Watching\<close> is the sleep that follows.\<close>

definition watch_turn ::
  "supervisor_config \<Rightarrow> watch_input \<Rightarrow> runtime_state \<Rightarrow> watch_result \<times> runtime_state" where
  "watch_turn cfg w st =
     (let (_, store) = reap_expired (wi_reap_now w) (rs_leases st);
          (ls, store) = active (wi_active_now w) store;
          st = reconcile_process_state cfg (wi_live w) (st\<lparr>rs_leases := store\<rparr>)
      in if \<not> rs_running st then (RuntimeNotRunning, st)
      else if \<not> all_commands_running cfg (wi_still_live w)
      then (RuntimeProcessMissing, write_running (wi_write_now w) (wi_still_live w) False None st)
      else
        let (activity, idle_since, st) = update_idle_boundary (length ls) (wi_now w) (wi_probe w) st
        in if shutdown_due cfg (length ls) activity idle_since (wi_now w)
           then (let (stopped, _, _, st) = try_stop (wi_recheck w) st
                 in (if stopped then IdleTimeout else Watching, st))
           else (Watching, st))"

text \<open>The loop on the turns the environment provides; it ends at the first turn that returns.\<close>

fun watch_loop :: "supervisor_config \<Rightarrow> watch_input list \<Rightarrow> runtime_state \<Rightarrow> watch_result \<times> runtime_state" where
  "watch_loop cfg [] st = (Watching, st)"
| "watch_loop cfg (w # ws) st =
     (case watch_turn cfg w st of
        (Watching, st') \<Rightarrow> watch_loop cfg ws st'
      | (r, st') \<Rightarrow> (r, st'))"

text \<open>\<open>None\<close> is the reply that automatic shutdown is disabled.\<close>

definition watch_idle ::
  "supervisor_config \<Rightarrow> watch_input list \<Rightarrow> runtime_state \<Rightarrow> watch_result option \<times> runtime_state" where
  "watch_idle cfg ws st =
     (if \<not> sc_automatic_shutdown cfg then (None, st)
      else let (r, st') = watch_loop cfg ws st in (Some r, st'))"

record release_input =
  ri_active_now :: int
  ri_released_at :: int
  ri_write_now :: int
  ri_live :: "string list"
  ri_probe :: probe
  ri_recheck :: recheck

text \<open>The reply of \<^verbatim>\<open>release\<close>: the lease existed, the active leases, and whether the runtime was stopped.\<close>

definition release_lease ::
  "supervisor_config \<Rightarrow> release_input \<Rightarrow> string \<Rightarrow> runtime_state \<Rightarrow> (bool \<times> nat \<times> bool \<times> runtime_state) res" where
  "release_lease cfg i ident st =
     rbind (release ident (rs_leases st)) (\<lambda>(released, store).
     let (ls, store) = active (ri_active_now i) store; st = st\<lparr>rs_leases := store\<rparr> in
     if \<not> sc_process_owner cfg then Inr (released, length ls, False, st)
     else if ls = [] then
       let st = write_running (ri_write_now i) (ri_live i) (rs_running st) (Some (ri_released_at i)) st;
           (activity, idle_since, st) = update_idle_boundary 0 (ri_released_at i) (ri_probe i) st
       in if sc_automatic_shutdown cfg \<and> shutdown_due cfg 0 activity idle_since (ri_released_at i)
          then let (stopped, ls, _, st) = try_stop (ri_recheck i) st
            in Inr (released, length ls, stopped, st)
          else Inr (released, length ls, False, st)
     else Inr (released, length ls, False,
       set_idle_since None (write_running (ri_write_now i) (ri_live i) True None st)))"

text \<open>\<^verbatim>\<open>status\<close>: the flag \<^verbatim>\<open>running\<close> of its reply and whether it stopped the runtime.\<close>

definition status :: "supervisor_config \<Rightarrow> watch_input \<Rightarrow> runtime_state \<Rightarrow> bool \<times> bool \<times> runtime_state" where
  "status cfg w st =
     (let (_, store) = reap_expired (wi_reap_now w) (rs_leases st);
          (ls, store) = active (wi_active_now w) store;
          st = st\<lparr>rs_leases := store\<rparr>
      in if \<not> sc_process_owner cfg then (rs_running st, False, st)
      else
        let st = reconcile_process_state cfg (wi_live w) st in
        if \<not> rs_running st then (False, False, st)
        else if \<not> all_commands_running cfg (wi_still_live w) then
          (let st = reconcile_process_state cfg (wi_still_live w)
               (write_running (wi_write_now w) (wi_still_live w) False None st)
           in (rs_running st, False, st))
        else
          let (activity, idle_since, st) = update_idle_boundary (length ls) (wi_now w) (wi_probe w) st
          in if sc_automatic_shutdown cfg \<and> shutdown_due cfg (length ls) activity idle_since (wi_now w)
             then (let (stopped, _, _, st) = try_stop (wi_recheck w) st in (rs_running st, stopped, st))
             else (rs_running st, False, st))"

definition stop :: "bool \<Rightarrow> int \<Rightarrow> int \<Rightarrow> runtime_state \<Rightarrow> unit res \<times> runtime_state" where
  "stop force active_now stop_now st =
     (if force then (Inr (), stop_runtime stop_now st)
      else let (ls, store) = active active_now (rs_leases st); st = st\<lparr>rs_leases := store\<rparr> in
        if ls \<noteq> [] then (Inl (RuntimeError ''runtime has active leases''), st)
        else (Inr (), stop_runtime stop_now st))"

section \<open>Start\<close>

text \<open>
  How a start ends: the processes are up and ready, they could not be spawned, or they were spawned
  and did not become ready. \<open>ai_reaper\<close> is what starting the idle watcher raises, if anything.
\<close>

datatype start_outcome = Ready | NotSpawned exn | NotReady exn

record acquire_input =
  ai_updating :: bool
  ai_reap_now :: int
  ai_now :: int
  ai_later :: int
  ai_uuid :: string
  ai_alive :: "string list"
  ai_still_alive :: "string list"
  ai_start :: start_outcome
  ai_started :: "string list"
  ai_write_now :: int
  ai_confirm_now :: int
  ai_reaper :: "exn option"

definition requested_ttl :: "supervisor_config \<Rightarrow> lease_store \<Rightarrow> int option \<Rightarrow> int option" where
  "requested_ttl cfg store ttl =
     map_option (\<lambda>t. min (max t (ls_ttl store)) (sc_max_session_ttl_seconds cfg)) ttl"

text \<open>Processes that do not become ready are stopped again, and that is recorded.\<close>

definition start_runtime :: "acquire_input \<Rightarrow> runtime_state \<Rightarrow> unit res \<times> runtime_state" where
  "start_runtime i st =
     (case ai_start i of
        NotSpawned e \<Rightarrow> (Inl e, st)
      | NotReady e \<Rightarrow> (Inl e, write_running (ai_write_now i) [] False None st)
      | Ready \<Rightarrow> (Inr (), write_running (ai_write_now i) (ai_started i) True None st))"

text \<open>The body of the \<^verbatim>\<open>try\<close> of \<open>acquire\<close>: start or confirm the processes, leave idleness, keep a watcher.\<close>

definition ensure_running :: "bool \<Rightarrow> acquire_input \<Rightarrow> runtime_state \<Rightarrow> unit res \<times> runtime_state" where
  "ensure_running started i st =
     (case (if started then start_runtime i st
            else (Inr (), write_running (ai_write_now i) (ai_still_alive i) True None st)) of
        (Inl e, st') \<Rightarrow> (Inl e, st')
      | (Inr _, st') \<Rightarrow>
          (case ai_reaper i of
             Some e \<Rightarrow> (Inl e, set_idle_since None st')
           | None \<Rightarrow> (Inr (), set_idle_since None st')))"

definition acquire_lease ::
  "supervisor_config \<Rightarrow> acquire_input \<Rightarrow> string \<Rightarrow> string \<Rightarrow> int option \<Rightarrow> runtime_state
     \<Rightarrow> (lease \<times> bool) res \<times> runtime_state" where
  "acquire_lease cfg i c s ttl st =
     (if ai_updating i then (Inl (RuntimeError ''runtime update is in progress''), st)
      else
        let (_, store) = reap_expired (ai_reap_now i) (rs_leases st);
            (r, store) = acquire (ai_now i) (ai_later i) (ai_uuid i) c s (requested_ttl cfg store ttl) store;
            st = st\<lparr>rs_leases := store\<rparr>
        in case r of
          Inl e \<Rightarrow> (Inl e, st)
        | Inr l \<Rightarrow>
            if \<not> sc_process_owner cfg then (Inr (l, False), st)
            else
              let st = reconcile_process_state cfg (ai_alive i) st;
                  started = (\<not> rs_running st \<or> \<not> all_commands_running cfg (ai_still_alive i))
              in case ensure_running started i st of
                (Inr _, st') \<Rightarrow> (Inr (l, started), st')
              | (Inl e, st') \<Rightarrow>
                  (case release (lease_id l) (rs_leases st') of
                     Inl e' \<Rightarrow> (Inl e', st')
                   | Inr (_, store') \<Rightarrow> (Inl e, st'\<lparr>rs_leases := store'\<rparr>)))"

definition heartbeat_lease ::
  "supervisor_config \<Rightarrow> acquire_input \<Rightarrow> string \<Rightarrow> runtime_state \<Rightarrow> lease res \<times> runtime_state" where
  "heartbeat_lease cfg i ident st =
     (if ai_updating i then (Inl (RuntimeError ''runtime update is in progress''), st)
      else
        let (r, store) = heartbeat (ai_now i) ident (rs_leases st); st = st\<lparr>rs_leases := store\<rparr>
        in case r of
          Inl e \<Rightarrow> (Inl e, st)
        | Inr l \<Rightarrow>
            if \<not> sc_process_owner cfg then (Inr l, st)
            else
              let st = reconcile_process_state cfg (ai_alive i) st;
                  started = (\<not> rs_running st \<or> \<not> all_commands_running cfg (ai_still_alive i))
              in case (if started then start_runtime i st else (Inr (), st)) of
                (Inl e, st') \<Rightarrow> (Inl e, st')
              | (Inr _, st') \<Rightarrow>
                  let st' = set_idle_since None (write_running (ai_confirm_now i)
                      (if started then ai_started i else ai_still_alive i) True None st')
                  in (case ai_reaper i of Some e \<Rightarrow> (Inl e, st') | None \<Rightarrow> (Inr l, st')))"

text \<open>A runtime that has been idle since 0, watched at 100 with a grace period of 60.\<close>

definition idle_config :: supervisor_config where
  "idle_config = \<lparr>sc_automatic_shutdown = True, sc_process_owner = True, sc_idle_shutdown_seconds = 60,
     sc_max_session_ttl_seconds = 3600, sc_commands = [''local'']\<rparr>"

definition idle_state :: runtime_state where
  "idle_state = \<lparr>rs_leases = new_lease_store [] 30, rs_running = True, rs_processes = [''local''],
     rs_idle_since = Some 0, rs_activity = None, rs_last_release_at = None\<rparr>"

definition idle_turn :: watch_input where
  "idle_turn = \<lparr>wi_reap_now = 99, wi_active_now = 99, wi_live = [''local''], wi_still_live = [''local''],
     wi_write_now = 99, wi_now = 100, wi_probe = Answer (JObj [(''known'', JBool True)]),
     wi_recheck = \<lparr>rk_active_now = 101, rk_boundary_now = 101,
       rk_probe = Answer (JObj [(''known'', JBool True), (''leased_tasks'', JStr '' 0 '')]), rk_stop_now = 102\<rparr>\<rparr>"

text \<open>An acquisition in that state whose processes have died and cannot be started again.\<close>

definition idle_acquire :: acquire_input where
  "idle_acquire = \<lparr>ai_updating = False, ai_reap_now = 100, ai_now = 100, ai_later = 100, ai_uuid = ''a'',
     ai_alive = [], ai_still_alive = [],
     ai_start = NotReady (RuntimeError ''managed Local process exited during startup''), ai_started = [],
     ai_write_now = 101, ai_confirm_now = 101, ai_reaper = None\<rparr>"

section \<open>Why a runtime stops\<close>

text \<open>
  The facts that hold whenever the idle policy stops the runtime: at the second look no lease was
  active and the activity was known, fresh and empty.
\<close>

definition clear_to_stop :: "recheck \<Rightarrow> lease_store \<Rightarrow> bool" where
  "clear_to_stop k store \<longleftrightarrow>
     fst (active (rk_active_now k) store) = [] \<and> quiescent (activity_snapshot (rk_probe k))"

lemma quiescent_known [simp]: "quiescent known_activity"
  by (simp add: quiescent_def known_activity_def)

lemma not_quiescent_unknown [simp]: "\<not> quiescent (unknown_activity code)"
  by (simp add: quiescent_def unknown_activity_def)

lemma update_idle_boundary_leases [simp]:
  "rs_leases (snd (snd (update_idle_boundary n now p st))) = rs_leases st"
  by (auto simp: update_idle_boundary_def set_idle_since_def record_activity_def Let_def split: option.split)

lemma update_idle_boundary_running [simp]:
  "rs_running (snd (snd (update_idle_boundary n now p st))) = rs_running st"
  by (auto simp: update_idle_boundary_def set_idle_since_def record_activity_def Let_def split: option.split)

text \<open>A boundary exists only when there is no lease and the activity read is quiescent.\<close>

lemma update_idle_boundary_Some:
  assumes "update_idle_boundary n now p st = (a, Some t, st')"
  shows "n = 0 \<and> a = activity_snapshot p \<and> quiescent a \<and> rs_idle_since st' = Some t
     \<and> (rs_idle_since st = Some t \<or> rs_idle_since st = None \<and> t = now)"
  using assms
  by (auto simp: update_idle_boundary_def Let_def set_idle_since_def record_activity_def
      split: if_splits option.splits)

lemma update_idle_boundary_None:
  assumes "update_idle_boundary n now p st = (a, None, st')"
  shows "rs_idle_since st' = None"
  using assms
  by (auto simp: update_idle_boundary_def Let_def set_idle_since_def split: if_splits option.splits)

lemma try_stop_True:
  assumes "try_stop k st = (True, ls, a, st')"
  shows "clear_to_stop k (rs_leases st) \<and> ls = [] \<and> \<not> rs_running st'"
  using assms update_idle_boundary_Some
  by (fastforce simp: try_stop_def clear_to_stop_def stop_runtime_def write_running_def Let_def
      split: prod.splits if_splits)

lemma try_stop_False_running:
  assumes "try_stop k st = (False, ls, a, st')" shows "rs_running st' = rs_running st"
  using assms
  by (auto simp: try_stop_def Let_def split: prod.splits if_splits dest: arg_cong [of _ _ "\<lambda>x. rs_running (snd (snd x))"])

lemma shutdown_due_Some:
  assumes "shutdown_due cfg n a (Some t) now"
  shows "sc_idle_shutdown_seconds cfg \<le> now - t"
  using assms by (auto simp: shutdown_due_def should_shutdown_def split: if_splits)

lemma active_none_left:
  assumes "store_ok store" and "fst (active now store) = []"
  shows "leases_of (ls_files (snd (active later (snd (active now store))))) = []"
proof -
  have dist: "distinct (map fst (ls_files store))" using assms(1) by (simp add: store_ok_def)
  define fs where "fs = filter (live now) (ls_files store)"
  have now: "active now store = (sort_key lease_id (leases_of fs), store\<lparr>ls_files := fs\<rparr>)"
    using active_eq [OF dist, of now] by (simp add: fs_def leases_of_live)
  have "set (leases_of fs) = set (fst (active now store))" using now by simp
  with assms(2) have none: "leases_of fs = []" by simp
  have "distinct (map fst fs)" using dist by (simp add: fs_def distinct_map_filter)
  with active_eq [of "store\<lparr>ls_files := fs\<rparr>" later] none now show ?thesis
    by (simp add: leases_of_live)
qed

lemma try_stop_leases:
  assumes "try_stop k st = (True, ls, a, st')" and "store_ok (rs_leases st)"
  shows "leases_of (ls_files (rs_leases st')) = []"
proof -
  obtain b t st1 where b: "update_idle_boundary (length (fst (active (rk_active_now k) (rs_leases st))))
      (rk_boundary_now k) (rk_probe k) (st\<lparr>rs_leases := snd (active (rk_active_now k) (rs_leases st))\<rparr>) = (b, t, st1)"
    using prod_cases3 by blast
  from arg_cong [OF this, of "\<lambda>x. rs_leases (snd (snd x))"]
  have "rs_leases st1 = snd (active (rk_active_now k) (rs_leases st))" by simp
  with assms(1) b have "rs_leases st' = snd (active (rk_stop_now k) (snd (active (rk_active_now k) (rs_leases st))))"
    by (auto simp: try_stop_def Let_def stop_runtime_def write_running_def split_beta split: if_splits)
  with active_none_left [OF assms(2)] try_stop_True [OF assms(1)] show ?thesis
    by (simp add: clear_to_stop_def)
qed

text \<open>
  A justified stop: both activity reports were known, fresh and without work, no lease is left in the
  directory, and the runtime has been idle for the whole grace period.
\<close>

definition safe_stop ::
  "supervisor_config \<Rightarrow> int \<Rightarrow> probe \<Rightarrow> recheck \<Rightarrow> runtime_state \<Rightarrow> runtime_state \<Rightarrow> bool" where
  "safe_stop cfg now p k st st' \<longleftrightarrow> \<not> rs_running st' \<and> leases_of (ls_files (rs_leases st')) = []
     \<and> quiescent (activity_snapshot p) \<and> quiescent (activity_snapshot (rk_probe k))
     \<and> (\<exists>t. (rs_idle_since st = Some t \<or> rs_idle_since st = None \<and> t = now)
          \<and> sc_idle_shutdown_seconds cfg \<le> now - t)"

text \<open>Both looks of an idle stop, whichever operation takes them.\<close>

lemma idle_stop:
  assumes b: "update_idle_boundary n now p st = (a, idle_since, st1)"
    and due: "shutdown_due cfg n a idle_since now"
    and stop: "try_stop k st1 = (True, ls, a', st2)" and ok: "store_ok (rs_leases st)"
  shows "safe_stop cfg now p k st st2"
proof -
  from due obtain t where t: "idle_since = Some t" by (auto simp: shutdown_due_def)
  have "rs_leases st1 = rs_leases st"
    using arg_cong [OF b, of "\<lambda>x. rs_leases (snd (snd x))"] by simp
  with try_stop_leases [OF stop] ok try_stop_True [OF stop]
    update_idle_boundary_Some [OF b [unfolded t]] shutdown_due_Some [OF due [unfolded t]]
  show ?thesis by (auto simp: clear_to_stop_def safe_stop_def)
qed

lemma safe_stop_frame:
  "rs_idle_since st1 = rs_idle_since st \<Longrightarrow> safe_stop cfg now p k st1 st' = safe_stop cfg now p k st st'"
  by (simp add: safe_stop_def)

lemma reconcile_frame [simp]:
  "rs_leases (reconcile_process_state cfg alive st) = rs_leases st"
  "rs_idle_since (reconcile_process_state cfg alive st) = rs_idle_since st"
  by (simp_all add: reconcile_process_state_def)

lemma store_ok_reap: "store_ok store \<Longrightarrow> store_ok (snd (reap_expired now store))"
  using reap_expired_files [of store now] store_ok_filter [of store "live now"] by (simp add: store_ok_def)

lemma store_ok_release: "store_ok store \<Longrightarrow> release i store = Inr (b, store') \<Longrightarrow> store_ok store'"
  by (auto simp: release_def res_simps intro: store_ok_unlink)

lemma watch_turn_stops:
  assumes "store_ok (rs_leases st)" and "watch_turn cfg w st = (IdleTimeout, st')"
  shows "safe_stop cfg (wi_now w) (wi_probe w) (wi_recheck w) st st'"
proof -
  obtain ls store where ls: "active (wi_active_now w) (snd (reap_expired (wi_reap_now w) (rs_leases st))) = (ls, store)"
    by fastforce
  with store_ok_active [OF store_ok_reap [OF assms(1)], of "wi_active_now w" "wi_reap_now w"]
  have ok: "store_ok store" by simp
  define st1 where "st1 = reconcile_process_state cfg (wi_live w) (st\<lparr>rs_leases := store\<rparr>)"
  obtain a t st2 where b: "update_idle_boundary (length ls) (wi_now w) (wi_probe w) st1 = (a, t, st2)"
    using prod_cases3 by blast
  obtain stopped ls' a' st3 where s: "try_stop (wi_recheck w) st2 = (stopped, ls', a', st3)"
    using prod_cases4 by blast
  from assms(2) ls b s have "shutdown_due cfg (length ls) a t (wi_now w)" and "stopped" and "st' = st3"
    by (auto simp: watch_turn_def Let_def st1_def split_beta split: if_splits)
  with idle_stop [OF b, of cfg "wi_recheck w" ls' a' st3] s ok show ?thesis
    by (simp add: st1_def safe_stop_def)
qed

lemma status_stops:
  assumes "store_ok (rs_leases st)" and "status cfg w st = (r, True, st')"
  shows "safe_stop cfg (wi_now w) (wi_probe w) (wi_recheck w) st st'"
proof -
  obtain ls store where ls: "active (wi_active_now w) (snd (reap_expired (wi_reap_now w) (rs_leases st))) = (ls, store)"
    by fastforce
  with store_ok_active [OF store_ok_reap [OF assms(1)], of "wi_active_now w" "wi_reap_now w"]
  have ok: "store_ok store" by simp
  define st1 where "st1 = reconcile_process_state cfg (wi_live w) (st\<lparr>rs_leases := store\<rparr>)"
  obtain a t st2 where b: "update_idle_boundary (length ls) (wi_now w) (wi_probe w) st1 = (a, t, st2)"
    using prod_cases3 by blast
  obtain stopped ls' a' st3 where s: "try_stop (wi_recheck w) st2 = (stopped, ls', a', st3)"
    using prod_cases4 by blast
  from assms(2) ls b s have "shutdown_due cfg (length ls) a t (wi_now w)" and "stopped" and "st' = st3"
    by (auto simp: status_def Let_def st1_def split_beta split: if_splits)
  with idle_stop [OF b, of cfg "wi_recheck w" ls' a' st3] s ok show ?thesis
    by (simp add: st1_def safe_stop_def)
qed

lemma release_lease_stops:
  assumes "store_ok (rs_leases st)" and "release_lease cfg i ident st = Inr (e, n, True, st')"
  shows "safe_stop cfg (ri_released_at i) (ri_probe i) (ri_recheck i) st st'"
proof -
  from assms(2) obtain b store where r: "release ident (rs_leases st) = Inr (b, store)"
    by (auto simp: release_lease_def res_simps)
  obtain ls store1 where ls: "active (ri_active_now i) store = (ls, store1)" by fastforce
  with store_ok_active [OF store_ok_release [OF assms(1) r], of "ri_active_now i"]
  have ok: "store_ok store1" by simp
  define st1 where "st1 = write_running (ri_write_now i) (ri_live i) (rs_running st)
      (Some (ri_released_at i)) (st\<lparr>rs_leases := store1\<rparr>)"
  have ok1: "store_ok (rs_leases st1)" and idle: "rs_idle_since st1 = rs_idle_since st"
    using store_ok_active [OF ok] by (simp_all add: st1_def write_running_def)
  obtain a t st2 where b: "update_idle_boundary 0 (ri_released_at i) (ri_probe i) st1 = (a, t, st2)"
    using prod_cases3 by blast
  obtain stopped ls' a' st3 where s: "try_stop (ri_recheck i) st2 = (stopped, ls', a', st3)"
    using prod_cases4 by blast
  from assms(2) r ls b s have "shutdown_due cfg 0 a t (ri_released_at i)" and "stopped" and "st' = st3"
    by (auto simp: release_lease_def Let_def st1_def split_beta split: if_splits)
  with idle_stop [OF b, of cfg "ri_recheck i" ls' a' st3] s ok1 safe_stop_frame [OF idle] show ?thesis
    by simp
qed

lemma ensure_running_raises:
  "case fst (ensure_running started i st) of
     Inr _ \<Rightarrow> ai_reaper i = None \<and> (started \<longrightarrow> ai_start i = Ready)
   | Inl e \<Rightarrow> ai_start i = NotSpawned e \<or> ai_start i = NotReady e \<or> ai_reaper i = Some e"
  by (auto simp: ensure_running_def start_runtime_def split: start_outcome.splits option.splits)

lemma ensure_running_frame:
  assumes "ensure_running started i st = (r, st')"
  shows "rs_leases st' = snd (active (ai_write_now i) (rs_leases st))
       \<or> rs_leases st' = rs_leases st \<and> r \<noteq> Inr ()"
    and "r = Inr () \<Longrightarrow> rs_running st' \<and> rs_idle_since st' = None"
  using assms
  by (auto simp: ensure_running_def start_runtime_def write_running_def set_idle_since_def
      split: if_splits option.splits start_outcome.splits)

lemma active_session:
  assumes "store_ok store" and "filter (\<lambda>x. session x = k) (leases_of (ls_files store)) = [l]"
  shows "filter (\<lambda>x. session x = k) (leases_of (ls_files (snd (active now store))))
     = (if now < expires_at l then [l] else [])"
proof -
  have "leases_of (ls_files (snd (active now store)))
      = filter (\<lambda>x. now < expires_at x) (leases_of (ls_files store))"
    using assms(1) active_eq [of store now] by (simp add: store_ok_def leases_of_live)
  then have "filter (\<lambda>x. session x = k) (leases_of (ls_files (snd (active now store))))
      = filter (\<lambda>x. now < expires_at x) (filter (\<lambda>x. session x = k) (leases_of (ls_files store)))"
    by (simp add: conj_commute)
  then show ?thesis using assms(2) by simp
qed

text \<open>Deleting the file of the only lease of a session leaves it none.\<close>

lemma unlink_session:
  assumes "store_ok store" and "filter (\<lambda>x. session x = k) (leases_of (ls_files store)) \<in> {[], [l]}"
  shows "filter (\<lambda>x. session x = k) (leases_of (ls_files (unlink (lease_id l) store))) = []"
proof -
  define own where "own = filter (\<lambda>x. session x = k) (leases_of (ls_files store))"
  have "own \<in> {[], [l]}" using assms(2) by (simp add: own_def)
  then have "set own \<subseteq> {l}" by auto
  then have "x = l" if "x \<in> set (leases_of (ls_files store))" "session x = k" for x
    using that by (auto simp: own_def)
  moreover have "x \<in> set (leases_of (ls_files store)) \<and> lease_id x \<noteq> lease_id l"
    if "x \<in> set (leases_of (ls_files (unlink (lease_id l) store)))" for x
    using that assms(1) file_okD [of "ls_files store"]
    by (fastforce simp: unlink_def set_leases_of store_ok_def)
  ultimately show ?thesis by (auto simp: filter_empty_conv)
qed

section \<open>Properties\<close>

text \<open>
  C37. The idle policy stops the runtime only when nothing needs it. Whenever the watcher, a status
  request or a released lease stops it, both activity reports that were read, the second one after
  the decision, were known, fresh and without leased tasks or pending writes, no lease is left in
  the directory, and the runtime has been idle for the whole grace period. An unreachable, late or
  malformed report keeps the runtime up.\<close>

theorem idle_stop_safe:
  assumes "store_ok (rs_leases st)"
  shows "(watch_turn cfg w st = (IdleTimeout, st')
        \<longrightarrow> safe_stop cfg (wi_now w) (wi_probe w) (wi_recheck w) st st')
     \<and> (status cfg w st = (r, True, st')
        \<longrightarrow> safe_stop cfg (wi_now w) (wi_probe w) (wi_recheck w) st st')
     \<and> (release_lease cfg i ident st = Inr (e, n, True, st')
        \<longrightarrow> safe_stop cfg (ri_released_at i) (ri_probe i) (ri_recheck i) st st')"
  using watch_turn_stops [OF assms] status_stops [OF assms] release_lease_stops [OF assms] by blast


lemma idle_stop_safe_witness:
  "safe_stop idle_config (wi_now idle_turn) (wi_probe idle_turn) (wi_recheck idle_turn) idle_state
     (snd (watch_turn idle_config idle_turn idle_state))"
proof -
  have "store_ok (rs_leases idle_state)"
    by (simp add: idle_state_def new_lease_store_def store_ok_def)
  moreover have "fst (watch_turn idle_config idle_turn idle_state) = IdleTimeout" by code_simp
  then have "watch_turn idle_config idle_turn idle_state
      = (IdleTimeout, snd (watch_turn idle_config idle_turn idle_state))" by (metis prod.collapse)
  ultimately show ?thesis using idle_stop_safe by blast
qed

text \<open>
  C38. An acquisition for a named client and session, under a fresh identifier, in a well-formed lease
  directory, either gives the session its lease or leaves no trace of it. During an update it raises
  and changes nothing. In a runtime that owns its processes it succeeds only when the watcher could be
  started and the processes run or came up; then the runtime runs, its idle clock is off and the
  session has the returned lease and no other, unless that lease has expired by the time the state is
  written. Otherwise the exception is the one that starting the processes or the watcher raised, and
  the session has no lease. A runtime that does not own its processes hands out the lease and starts
  nothing.
\<close>

theorem acquire_lease_outcome:
  assumes ok: "store_ok (rs_leases st)" and names: "strip c \<noteq> []" "strip s \<noteq> []"
    and uuid: "CHR ''/'' \<notin> set (ai_uuid i)" "''lease-'' @ ai_uuid i \<notin> fst ` set (ls_files (rs_leases st))"
  shows "if ai_updating i
    then acquire_lease cfg i c s ttl st = (Inl (RuntimeError ''runtime update is in progress''), st)
    else (case acquire_lease cfg i c s ttl st of
      (Inr (l, started), st') \<Rightarrow> session l = (strip c, strip s) \<and>
        (if sc_process_owner cfg
         then rs_running st' \<and> rs_idle_since st' = None \<and> ai_reaper i = None \<and> (started \<longrightarrow> ai_start i = Ready)
           \<and> filter (\<lambda>x. session x = (strip c, strip s)) (leases_of (ls_files (rs_leases st')))
             = (if ai_write_now i < expires_at l then [l] else [])
         else \<not> started \<and> rs_running st' = rs_running st \<and> rs_idle_since st' = rs_idle_since st
           \<and> filter (\<lambda>x. session x = (strip c, strip s)) (leases_of (ls_files (rs_leases st'))) = [l])
    | (Inl e, st') \<Rightarrow> sc_process_owner cfg
        \<and> (ai_start i = NotSpawned e \<or> ai_start i = NotReady e \<or> ai_reaper i = Some e)
        \<and> filter (\<lambda>x. session x = (strip c, strip s)) (leases_of (ls_files (rs_leases st'))) = [])"
proof (cases "ai_updating i")
  case True
  then show ?thesis by (simp add: acquire_lease_def)
next
  case free: False
  let ?k = "(strip c, strip s)"
  define store1 where "store1 = snd (reap_expired (ai_reap_now i) (rs_leases st))"
  have dist: "distinct (map fst (ls_files (rs_leases st)))" using ok by (simp add: store_ok_def)
  have fresh: "''lease-'' @ ai_uuid i \<notin> fst ` set (ls_files store1)"
    using uuid(2) reap_expired_files [OF dist, of "ai_reap_now i"] by (auto simp: store1_def)
  have ok1: "store_ok store1" using store_ok_reap [OF ok] by (simp add: store1_def)
  obtain l store2 where acq: "acquire (ai_now i) (ai_later i) (ai_uuid i) c s
        (requested_ttl cfg store1 ttl) store1 = (Inr l, store2)"
    and own: "filter (\<lambda>x. session x = ?k) (leases_of (ls_files store2)) = [l]"
    using acquire_ok [OF ok1 names uuid(1) fresh] by blast
  have "l \<in> set (filter (\<lambda>x. session x = ?k) (leases_of (ls_files store2)))" unfolding own by simp
  then have l: "session l = ?k" "l \<in> set (leases_of (ls_files store2))" by simp_all
  have ok2: "store_ok store2"
    using store_ok_acquire [OF ok1, of "ai_now i" "ai_later i" "ai_uuid i" c s "requested_ttl cfg store1 ttl"] acq
    by simp
  show ?thesis
  proof (cases "sc_process_owner cfg")
    case False
    with free acq own l show ?thesis
      by (simp add: acquire_lease_def Let_def split_beta store1_def [symmetric])
  next
    case owner: True
    define st1 where "st1 = reconcile_process_state cfg (ai_alive i) (st\<lparr>rs_leases := store2\<rparr>)"
    define started where "started = (rs_running st1 \<longrightarrow> \<not> all_commands_running cfg (ai_still_alive i))"
    obtain r st2 where run: "ensure_running started i st1 = (r, st2)" by fastforce
    have st2: "rs_leases st2 = snd (active (ai_write_now i) store2) \<or> rs_leases st2 = store2 \<and> r \<noteq> Inr ()"
      and good: "r = Inr () \<Longrightarrow> rs_running st2 \<and> rs_idle_since st2 = None"
      using ensure_running_frame [OF run] by (simp_all add: st1_def)
    note own1 = active_session [OF ok2 own, of "ai_write_now i"]
    have eq: "acquire_lease cfg i c s ttl st = (case r of
          Inr _ \<Rightarrow> (Inr (l, started), st2)
        | Inl e \<Rightarrow> (case release (lease_id l) (rs_leases st2) of
            Inl e' \<Rightarrow> (Inl e', st2) | Inr (_, store') \<Rightarrow> (Inl e, st2\<lparr>rs_leases := store'\<rparr>)))"
      using free owner acq run
      by (cases r) (simp_all add: acquire_lease_def Let_def split_beta store1_def [symmetric]
          st1_def [symmetric] started_def [symmetric] split: sum.split)
    show ?thesis
    proof (cases r)
      case (Inr u)
      moreover from this run have "ai_reaper i = None" "started \<longrightarrow> ai_start i = Ready"
        using ensure_running_raises [where started = started and i = i and st = st1] by auto
      ultimately show ?thesis using eq good own1 st2 l free owner by simp
    next
      case (Inl e)
      have "lease_path (lease_id l) = Inr (lease_id l)"
        using leases_of_ids [of "ls_files store2" l] ok2 l(2) by (simp add: store_ok_def)
      then have rel: "release (lease_id l) (rs_leases st2)
          = Inr (lease_id l \<in> fst ` set (ls_files (rs_leases st2)), unlink (lease_id l) (rs_leases st2))"
        by (simp add: release_def)
      have "store_ok (rs_leases st2)" using st2 ok2 store_ok_active [OF ok2] by auto
      moreover have "filter (\<lambda>x. session x = ?k) (leases_of (ls_files (rs_leases st2))) \<in> {[], [l]}"
        using st2 own own1 by auto
      ultimately have "filter (\<lambda>x. session x = ?k)
          (leases_of (ls_files (unlink (lease_id l) (rs_leases st2)))) = []"
        by (rule unlink_session)
      moreover have "ai_start i = NotSpawned e \<or> ai_start i = NotReady e \<or> ai_reaper i = Some e"
        using ensure_running_raises [where started = started and i = i and st = st1] run Inl by auto
      ultimately show ?thesis using eq Inl rel free owner by simp
    qed
  qed
qed

lemma acquire_lease_outcome_witness:
  "case acquire_lease idle_config idle_acquire ''hermes'' ''s1'' None idle_state of
      (Inr (l, started), st') \<Rightarrow> False
    | (Inl e, st') \<Rightarrow>
        filter (\<lambda>x. session x = (''hermes'', ''s1'')) (leases_of (ls_files (rs_leases st'))) = []"
proof -
  have names: "strip ''hermes'' = ''hermes''" "strip ''s1'' = ''s1''" by code_simp+
  have fst: "fst (acquire_lease idle_config idle_acquire ''hermes'' ''s1'' None idle_state)
      = Inl (RuntimeError ''managed Local process exited during startup'')" by code_simp
  have "store_ok (rs_leases idle_state)" "\<not> ai_updating idle_acquire" "sc_process_owner idle_config"
    "CHR ''/'' \<notin> set (ai_uuid idle_acquire)"
    "''lease-'' @ ai_uuid idle_acquire \<notin> fst ` set (ls_files (rs_leases idle_state))"
    by (simp_all add: idle_state_def new_lease_store_def store_ok_def idle_acquire_def idle_config_def)
  with acquire_lease_outcome [of idle_state "''hermes''" "''s1''" idle_acquire idle_config None] names fst
  show ?thesis
    by (cases "acquire_lease idle_config idle_acquire ''hermes'' ''s1'' None idle_state") simp
qed

end
