(* ===== verification/Strict.thy ===== *)
theory Strict
  imports Json Sha256
begin

text \<open>
  The strict structured-output contract at the Local boundary (\<^verbatim>\<open>inference/strict.py\<close>): the portable
  profile of a JSON schema, its digest, and the requirement of a semantic task.

  A mapping is a JSON object, a sequence that is not a text a JSON array. Whether \<^verbatim>\<open>re.compile\<close>
  accepts a pattern is the argument \<open>re_ok\<close>.
\<close>

section \<open>The digest of a document\<close>

definition STRICT_JSON_SCHEMA_MODE :: string where
  "STRICT_JSON_SCHEMA_MODE = ''strict_json_schema''"

definition STRICT_SCHEMA_PROFILE_VERSION :: string where
  "STRICT_SCHEMA_PROFILE_VERSION = ''ledgermind-strict-schema''"

definition PROFILE_KEYWORDS :: "string list" where
  "PROFILE_KEYWORDS = [''type'', ''properties'', ''required'', ''additionalProperties'', ''items'',
     ''minItems'', ''maxItems'', ''enum'', ''description'', ''minLength'', ''maxLength'', ''pattern'',
     ''$defs'', ''$ref'', ''oneOf'']"

text \<open>\<^verbatim>\<open>allow_nan=False\<close>: a float that is not a number cannot be written.\<close>

fun has_nan :: "json \<Rightarrow> bool" where
  "has_nan (JFloat t) = (t \<in> {''NaN'', ''Infinity'', ''-Infinity''})"
| "has_nan (JArr xs) = list_ex has_nan xs"
| "has_nan (JObj d) = list_ex (\<lambda>(k, v). has_nan v) d"
| "has_nan v = False"

definition canonical_digest :: "json \<Rightarrow> string res" where
  "canonical_digest v =
     raise_if (has_nan v) (ValueError ''Out of range float values are not JSON compliant'')
     (Inr (''sha256:'' @ sha256_hexdigest (json_dumps (sort_keys v))))"

section \<open>The schema profile\<close>

definition types :: "json \<Rightarrow> string list" where
  "types v = (case v of
     JStr s \<Rightarrow> [s]
   | JArr xs \<Rightarrow> List.map_filter (\<lambda>x. case x of JStr s \<Rightarrow> Some s | _ \<Rightarrow> None) xs
   | _ \<Rightarrow> [])"

definition KNOWN_TYPES :: "string list" where
  "KNOWN_TYPES = [''object'', ''array'', ''string'', ''integer'', ''number'', ''boolean'', ''null'']"

definition strict_error :: "string \<Rightarrow> string \<Rightarrow> string \<Rightarrow> exn" where
  "strict_error pre path post = ValueError (''strict schema '' @ pre @ path @ post)"

definition check_keywords :: "bool \<Rightarrow> string \<Rightarrow> (string \<times> json) list \<Rightarrow> unit res" where
  "check_keywords root path d =
     (let unsupported = sort (filter (\<lambda>k. k \<notin> set PROFILE_KEYWORDS) (jkeys d)) in
      raise_if (unsupported \<noteq> [])
        (strict_error ''node '' path ('' uses unsupported keywords: '' @ join '', '' unsupported))
      (raise_if (''$defs'' \<in> set (jkeys d) \<and> \<not> root)
        (strict_error ''node '' path '' may not declare $defs'')
      (Inr ())))"

text \<open>The checks of a node that is a reference; its other keywords are not looked at.\<close>

definition check_reference ::
  "(string \<times> json) list \<Rightarrow> string \<Rightarrow> (string \<times> json) list \<Rightarrow> json \<Rightarrow> unit res" where
  "check_reference definitions path d reference =
     (let local = (case reference of JStr r \<Rightarrow> prefix ''#/$defs/'' r | _ \<Rightarrow> False);
          definition_name = (case reference of JStr r \<Rightarrow> drop 8 r | _ \<Rightarrow> [])
      in raise_if (\<not> local) (strict_error ''reference at '' path '' must be local'')
        (raise_if (definition_name = [] \<or> CHR ''/'' \<in> set definition_name
             \<or> definition_name \<notin> set (jkeys definitions))
          (strict_error ''reference at '' path '' is unknown'')
        (raise_if (set (jkeys d) \<noteq> {''$ref''})
          (strict_error ''reference at '' path '' must not have siblings'')
        (Inr ()))))"

text \<open>
  \<open>bad_count\<close> is \<^verbatim>\<open>value is not None and (isinstance(value, bool) or not isinstance(value, int) or value < 0)\<close>;
  a pair of bounds is compared when both are ints.
\<close>

definition bad_count :: "json \<Rightarrow> bool" where
  "bad_count v = (case v of JNull \<Rightarrow> False | JInt i \<Rightarrow> i < 0 | _ \<Rightarrow> True)"

definition int_of :: "json \<Rightarrow> int option" where
  "int_of v = (case v of JInt i \<Rightarrow> Some i | JBool b \<Rightarrow> Some (of_bool b) | _ \<Rightarrow> None)"

definition check_bounds :: "string \<Rightarrow> string \<Rightarrow> string \<Rightarrow> (string \<times> json) list \<Rightarrow> unit res" where
  "check_bounds lo hi path d =
     raise_if (bad_count (jget d lo)) (strict_error (lo @ '' at '') path '' must be a non-negative integer'')
     (raise_if (bad_count (jget d hi)) (strict_error (hi @ '' at '') path '' must be a non-negative integer'')
     (case (int_of (jget d lo), int_of (jget d hi)) of
        (Some a, Some b) \<Rightarrow>
          raise_if (b < a) (strict_error (lo @ '' exceeds '' @ hi @ '' at '') path '''') (Inr ())
      | _ \<Rightarrow> Inr ()))"

definition check_required :: "string \<Rightarrow> (string \<times> json) list \<Rightarrow> (string \<times> json) list \<Rightarrow> unit res" where
  "check_required path d properties =
     (case jget_default d ''required'' (JArr []) of
        JArr names \<Rightarrow>
          raise_if (list_ex (\<lambda>n. case n of JStr s \<Rightarrow> s \<notin> set (jkeys properties) | _ \<Rightarrow> True) names)
            (strict_error ''required at '' path '' references an unknown property'') (Inr ())
      | _ \<Rightarrow> Inl (strict_error ''required at '' path '' must be an array''))"

definition check_enum :: "string \<Rightarrow> (string \<times> json) list \<Rightarrow> unit res" where
  "check_enum path d =
     (if ''enum'' \<in> set (jkeys d) then
        (case jget d ''enum'' of
           JArr (_ # _) \<Rightarrow> Inr ()
         | _ \<Rightarrow> Inl (strict_error ''enum at '' path '' must be a non-empty array''))
      else Inr ())"

definition check_pattern :: "(string \<Rightarrow> bool) \<Rightarrow> string \<Rightarrow> string list \<Rightarrow> (string \<times> json) list \<Rightarrow> unit res" where
  "check_pattern re_ok path ts d =
     (if ''pattern'' \<in> set (jkeys d) then
        (case jget d ''pattern'' of
           JStr (c # p) \<Rightarrow>
             raise_if (''string'' \<notin> set ts)
               (strict_error ''pattern at '' path '' requires a non-empty string type'')
             (raise_if (\<not> re_ok (c # p)) (strict_error ''pattern at '' path '' is invalid'') (Inr ()))
         | _ \<Rightarrow> Inl (strict_error ''pattern at '' path '' requires a non-empty string type''))
      else Inr ())"

lemma jget_size: "jget d k = v \<Longrightarrow> v \<noteq> JNull \<Longrightarrow> size v < size (JObj d)"
proof (induction d)
  case (Cons p d)
  then show ?case by (cases p) (auto split: if_splits)
qed simp

lemma jget_arr_size: "jget d k = JArr xs \<Longrightarrow> x \<in> set xs \<Longrightarrow> size x < size (JObj d)"
  using jget_size [of d k "JArr xs"] size_list_estimation' [of x xs "size x" size] by simp

lemma member_size: "(k, v) \<in> set ps \<Longrightarrow> size v < size (JObj ps)"
proof (induction ps)
  case (Cons p ps)
  then show ?case by (cases p) auto
qed simp

lemma jget_obj_size: "jget_default d k (JObj []) = JObj ps \<Longrightarrow> (n, v) \<in> set ps \<Longrightarrow> size v < size (JObj d)"
  using jget_size [of d k "JObj ps"] member_size [of n v ps]
  by (auto simp: jget_default_def jget_def split: option.splits)

lemma jkeys_size: "k \<in> set (jkeys d) \<Longrightarrow> size (jget d k) < size (JObj d)"
proof (induction d)
  case (Cons p d)
  then show ?case by (cases p) (fastforce simp: jkeys_def)
qed (simp add: jkeys_def)

text \<open>No recursive call depends on the result of another, so the conditions of the calls need not see it.\<close>

lemma rbind_weak_cong: "r = r' \<Longrightarrow> (\<And>x. f x = g x) \<Longrightarrow> rbind r f = rbind r' g"
  by (cases r') auto

declare rbind_cong [fundef_cong del] rbind_weak_cong [fundef_cong]

lemma enumerate_in: "(i, x) \<in> set (enumerate n xs) \<Longrightarrow> x \<in> set xs"
  by (induction xs arbitrary: n) auto

lemma jget_alternative_size:
  "jget d k = JArr (y # ys) \<Longrightarrow> (i, x) \<in> set (enumerate n ys) \<Longrightarrow> size x < size (JObj d)"
  using jget_arr_size [of d k "y # ys" x] enumerate_in [of i x n ys] by simp

text \<open>The nested function \<^verbatim>\<open>visit\<close>, in the order of its checks.\<close>

function visit :: "(string \<Rightarrow> bool) \<Rightarrow> (string \<times> json) list \<Rightarrow> bool \<Rightarrow> string \<Rightarrow> json \<Rightarrow> unit res" where
  "visit re_ok definitions root path node =
    (case node of
       JObj d \<Rightarrow>
         rbind (check_keywords root path d) (\<lambda>_.
         if jget d ''$ref'' \<noteq> JNull then check_reference definitions path d (jget d ''$ref'')
         else
           rbind (case jget d ''oneOf'' of
               JNull \<Rightarrow> Inr []
             | JArr (a # alternatives) \<Rightarrow>
                 rmap (\<lambda>(i, x). visit re_ok definitions False (path @ ''.oneOf['' @ show_nat i @ '']'') x)
                   (enumerate 0 (a # alternatives))
             | _ \<Rightarrow> Inl (strict_error ''oneOf at '' path '' must be a non-empty array'')) (\<lambda>_.
           let ts = types (jget d ''type'') in
           raise_if (ts = [] \<and> ''enum'' \<notin> set (jkeys d) \<and> jget d ''oneOf'' = JNull)
             (strict_error ''node '' path '' must declare a type'')
           (raise_if (\<exists>t\<in>set ts. t \<notin> set KNOWN_TYPES) (strict_error ''node '' path '' has an unsupported type'')
           (rbind (if ''object'' \<in> set ts then
               raise_if (jget d ''additionalProperties'' \<noteq> JBool False)
                 (strict_error ''object '' path '' must set additionalProperties=false'')
               (case jget_default d ''properties'' (JObj []) of
                  JObj properties \<Rightarrow>
                    rbind (rmap (\<lambda>(name, child). raise_if (blank name)
                        (strict_error ''property name at '' path '' is invalid'')
                        (visit re_ok definitions False (path @ ''.properties.'' @ name) child)) properties)
                      (\<lambda>_. check_required path d properties)
                | _ \<Rightarrow> Inl (strict_error ''properties at '' path '' must be an object''))
             else Inr ()) (\<lambda>_.
           rbind (if ''array'' \<in> set ts \<or> ''items'' \<in> set (jkeys d) then
               (if ''items'' \<notin> set (jkeys d) then Inl (strict_error ''array '' path '' must declare items'')
                else rbind (visit re_ok definitions False (path @ ''.items'') (jget d ''items''))
                  (\<lambda>_. check_bounds ''minItems'' ''maxItems'' path d))
             else Inr ()) (\<lambda>_.
           rbind (check_enum path d) (\<lambda>_.
           rbind (check_pattern re_ok path ts d) (\<lambda>_.
           rbind (check_bounds ''minLength'' ''maxLength'' path d) (\<lambda>_.
           raise_if (root \<and> ''object'' \<notin> set ts)
             (ValueError ''strict semantic schema root must be an object'') (Inr ()))))))))))
     | _ \<Rightarrow> Inl (strict_error ''node '' path '' must be an object''))"
  by pat_completeness auto
termination visit
  by (relation "measure (\<lambda>(_, _, _, _, node). size node)")
    (auto dest: jget_size jget_arr_size jget_obj_size jkeys_size jget_alternative_size)

declare visit.simps [simp del]

text \<open>
  The whole document: the root, then every definition. A root that is a reference would return before
  its definitions are visited.
\<close>

definition validate_strict_schema_profile :: "(string \<Rightarrow> bool) \<Rightarrow> json \<Rightarrow> (string \<times> json) list res" where
  "validate_strict_schema_profile re_ok schema =
     (case schema of
        JObj d \<Rightarrow>
          (case jget_default d ''$defs'' (JObj []) of
             JObj definitions \<Rightarrow>
               rbind (visit re_ok definitions True ''$'' schema) (\<lambda>_.
               rbind (if jget d ''$ref'' \<noteq> JNull then Inr []
                 else rmap (\<lambda>(name, node). raise_if (name = [] \<or> CHR ''/'' \<in> set name)
                     (ValueError ''strict schema definition name is invalid'')
                     (visit re_ok definitions False (''$.$defs.'' @ name) node)) definitions) (\<lambda>_.
               Inr d))
           | _ \<Rightarrow> Inl (ValueError ''strict schema $defs must be an object''))
      | _ \<Rightarrow> Inl (ValueError ''strict schema must be an object''))"

section \<open>The requirement of a semantic task\<close>

record strict_requirement =
  sr_schema_version :: json
  sr_schema :: "(string \<times> json) list"
  sr_schema_digest :: string

text \<open>The other members of the returned object are the constants of the profile.\<close>

definition requirement_json :: "strict_requirement \<Rightarrow> json" where
  "requirement_json r = JObj [(''mode'', JStr STRICT_JSON_SCHEMA_MODE),
     (''schema_version'', sr_schema_version r), (''schema'', JObj (sr_schema r)),
     (''schema_digest'', JStr (sr_schema_digest r)),
     (''schema_profile_version'', JStr STRICT_SCHEMA_PROFILE_VERSION), (''strict'', JBool True)]"

definition strict_requirement_for_contract ::
  "(string \<Rightarrow> bool) \<Rightarrow> (string \<times> json) list \<Rightarrow> strict_requirement res" where
  "strict_requirement_for_contract re_ok contract =
     (case jget contract ''json_schema'' of
        JObj d \<Rightarrow>
          rbind (validate_strict_schema_profile re_ok (JObj d)) (\<lambda>normalized.
          rbind (canonical_digest (JObj normalized)) (\<lambda>digest.
          raise_if (case jget contract ''schema_digest'' of JStr s \<Rightarrow> s \<noteq> [] \<and> s \<noteq> digest | _ \<Rightarrow> False)
            (ValueError ''output contract schema_digest does not match json_schema'')
          (Inr \<lparr>sr_schema_version = jget_default contract ''schema_version'' (JInt 1),
             sr_schema = normalized, sr_schema_digest = digest\<rparr>)))
      | _ \<Rightarrow> Inl (ValueError ''strict request requires output_contract.json_schema''))"

definition validate_strict_requirement :: "(string \<Rightarrow> bool) \<Rightarrow> json \<Rightarrow> json \<Rightarrow> strict_requirement res" where
  "validate_strict_requirement re_ok requirement contract =
     (case requirement of
        JObj r \<Rightarrow>
          raise_if (jget r ''mode'' \<noteq> JStr STRICT_JSON_SCHEMA_MODE)
            (ValueError ''structured output requirement must use strict_json_schema'')
          (raise_if (jget r ''schema_profile_version'' \<noteq> JStr STRICT_SCHEMA_PROFILE_VERSION)
            (ValueError ''unsupported LedgerMind strict schema profile'')
          (raise_if (jget r ''strict'' \<noteq> JBool True)
            (ValueError ''strict structured output requirement must set strict=true'')
          (rbind (validate_strict_schema_profile re_ok (jget r ''schema'')) (\<lambda>schema.
           rbind (canonical_digest (JObj schema)) (\<lambda>digest.
           raise_if (jget r ''schema_digest'' \<noteq> JStr digest)
             (ValueError ''strict structured output schema digest mismatch'')
           (rbind (case contract of
               JObj c \<Rightarrow> rbind (strict_requirement_for_contract re_ok c) (\<lambda>cr.
                 raise_if (sr_schema_digest cr \<noteq> digest)
                   (ValueError ''strict requirement schema differs from Core output contract'') (Inr ()))
             | _ \<Rightarrow> Inr ()) (\<lambda>_.
           Inr \<lparr>sr_schema_version = jget r ''schema_version'', sr_schema = schema,
             sr_schema_digest = digest\<rparr>)))))))
      | _ \<Rightarrow>
         (case contract of
            JObj c \<Rightarrow> strict_requirement_for_contract re_ok c
          | _ \<Rightarrow> Inl (ValueError ''strict request requires structured_output_requirement'')))"

section \<open>An example\<close>

definition example_schema :: "(string \<times> json) list" where
  "example_schema = [(''type'', JStr ''object''), (''additionalProperties'', JBool False),
     (''properties'', JObj [(''name'', JObj [(''$ref'', JStr ''#/$defs/label'')]),
        (''tags'', JObj [(''type'', JStr ''array''), (''items'', JObj [(''type'', JStr ''string'')])])]),
     (''required'', JArr [JStr ''name'']),
     (''$defs'', JObj [(''label'', JObj [(''type'', JStr ''string''), (''minLength'', JInt 1)])])]"

definition example_requirement :: "(string \<times> json) list" where
  "example_requirement = [(''mode'', JStr ''strict_json_schema''), (''schema_version'', JInt 1),
     (''schema'', JObj example_schema), (''strict'', JBool True),
     (''schema_digest'', JStr (case canonical_digest (JObj example_schema) of Inr s \<Rightarrow> s | Inl _ \<Rightarrow> [])),
     (''schema_profile_version'', JStr ''ledgermind-strict-schema'')]"

lemma example_schema_valid: "validate_strict_schema_profile (\<lambda>_. True) (JObj example_schema) = Inr example_schema"
  by code_simp

section \<open>What an accepted schema promises\<close>

text \<open>The nodes of a schema, and what holds of each node of an accepted one.\<close>

inductive subnode :: "json \<Rightarrow> json \<Rightarrow> bool" where
  alternative: "jget d ''oneOf'' = JArr xs \<Longrightarrow> x \<in> set xs \<Longrightarrow> subnode (JObj d) x"
| property: "''object'' \<in> set (types (jget d ''type'')) \<Longrightarrow>
    jget_default d ''properties'' (JObj []) = JObj ps \<Longrightarrow> (n, x) \<in> set ps \<Longrightarrow> subnode (JObj d) x"
| item: "''items'' \<in> set (jkeys d) \<Longrightarrow> subnode (JObj d) (jget d ''items'')"

inductive_cases subnodeE: "subnode (JObj d) x"

definition node_ok :: "(string \<times> json) list \<Rightarrow> (string \<times> json) list \<Rightarrow> bool" where
  "node_ok definitions d \<longleftrightarrow>
     set (jkeys d) \<subseteq> set PROFILE_KEYWORDS
     \<and> (jget d ''$ref'' \<noteq> JNull \<longrightarrow>
         (\<exists>name\<in>set (jkeys definitions). jget d ''$ref'' = JStr (''#/$defs/'' @ name)))
     \<and> (''object'' \<in> set (types (jget d ''type'')) \<longrightarrow>
         jget d ''additionalProperties'' = JBool False
         \<and> (\<exists>ps names. jget_default d ''properties'' (JObj []) = JObj ps
              \<and> jget_default d ''required'' (JArr []) = JArr names
              \<and> set names \<subseteq> JStr ` set (jkeys ps)))
     \<and> (''array'' \<in> set (types (jget d ''type'')) \<longrightarrow> ''items'' \<in> set (jkeys d))"

lemma jget_in_keys: "jget d k \<noteq> JNull \<Longrightarrow> k \<in> set (jkeys d)"
  by (auto simp: jget_def jkeys_def dest!: map_of_SomeD split: option.splits) force

lemma check_reference_ok:
  assumes "check_reference definitions path d r = Inr u"
  shows "(\<exists>name\<in>set (jkeys definitions). r = JStr (''#/$defs/'' @ name)) \<and> set (jkeys d) = {''$ref''}"
proof -
  from assms obtain t where r: "r = JStr t" and p: "prefix ''#/$defs/'' t"
    and n: "drop 8 t \<in> set (jkeys definitions)" and k: "set (jkeys d) = {''$ref''}"
    by (cases r) (simp_all add: check_reference_def Let_def res_simps)
  from p obtain name where t: "t = ''#/$defs/'' @ name" by (rule prefixE)
  with n have "name \<in> set (jkeys definitions)" by simp
  with r t k show ?thesis by blast
qed


lemma rmap_visited: "rmap f xs = Inr us \<Longrightarrow> x \<in> set xs \<Longrightarrow> \<exists>u. f x = Inr u"
  by (induction xs arbitrary: us) (auto simp: res_simps)

lemma check_required_ok:
  assumes "check_required path d ps = Inr u"
  shows "\<exists>names. jget_default d ''required'' (JArr []) = JArr names \<and> set names \<subseteq> JStr ` set (jkeys ps)"
proof -
  from assms obtain names where names: "jget_default d ''required'' (JArr []) = JArr names"
    and ok: "\<And>n. n \<in> set names \<Longrightarrow> (case n of JStr s \<Rightarrow> s \<in> set (jkeys ps) | _ \<Rightarrow> False)"
    by (cases "jget_default d ''required'' (JArr [])")
      (auto simp: check_required_def res_simps list_ex_iff split: json.splits)
  have "n \<in> JStr ` set (jkeys ps)" if "n \<in> set names" for n
    using ok [OF that] by (cases n) auto
  with names show ?thesis by blast
qed

lemma in_enumerate: "x \<in> set xs \<Longrightarrow> \<exists>i. (i, x) \<in> set (enumerate n xs)"
proof (induction xs arbitrary: n)
  case (Cons y ys)
  then show ?case by (cases "x = y") auto
qed simp

text \<open>A node whose visit succeeds has passed every group of checks.\<close>

lemma visit_groups:
  assumes ok: "visit re_ok definitions root path (JObj d) = Inr u" and ref: "jget d ''$ref'' = JNull"
  shows "check_keywords root path d = Inr ()"
    and "\<exists>us. (case jget d ''oneOf'' of
               JNull \<Rightarrow> Inr []
             | JArr (a # alternatives) \<Rightarrow>
                 rmap (\<lambda>(i, x). visit re_ok definitions False (path @ ''.oneOf['' @ show_nat i @ '']'') x)
                   (enumerate 0 (a # alternatives))
             | _ \<Rightarrow> Inl (strict_error ''oneOf at '' path '' must be a non-empty array'')) = Inr us"
    and "''object'' \<in> set (types (jget d ''type'')) \<Longrightarrow> jget d ''additionalProperties'' = JBool False
      \<and> (case jget_default d ''properties'' (JObj []) of
                  JObj properties \<Rightarrow>
                    rbind (rmap (\<lambda>(name, child). raise_if (blank name)
                        (strict_error ''property name at '' path '' is invalid'')
                        (visit re_ok definitions False (path @ ''.properties.'' @ name) child)) properties)
                      (\<lambda>_. check_required path d properties)
                | _ \<Rightarrow> Inl (strict_error ''properties at '' path '' must be an object'')) = Inr ()"
    and "''array'' \<in> set (types (jget d ''type'')) \<or> ''items'' \<in> set (jkeys d) \<Longrightarrow>
      ''items'' \<in> set (jkeys d) \<and> visit re_ok definitions False (path @ ''.items'') (jget d ''items'') = Inr ()"
  using ok unfolding visit.simps [of _ _ _ _ "JObj d"]
  by (simp_all add: ref Let_def res_simps split: if_splits)

lemma visit_keywords:
  assumes "visit re_ok definitions root path (JObj d) = Inr u"
  shows "set (jkeys d) \<subseteq> set PROFILE_KEYWORDS"
proof -
  have "check_keywords root path d = Inr ()"
    using assms unfolding visit.simps [of _ _ _ _ "JObj d"] by (simp add: res_simps)
  then have "set (sort (filter (\<lambda>k. k \<notin> set PROFILE_KEYWORDS) (jkeys d))) = {}"
    by (simp add: check_keywords_def Let_def res_simps)
  then show ?thesis by auto
qed

lemma visit_reference:
  assumes "visit re_ok definitions root path (JObj d) = Inr u" and "jget d ''$ref'' \<noteq> JNull"
  shows "check_reference definitions path d (jget d ''$ref'') = Inr ()"
  using assms unfolding visit.simps [of _ _ _ _ "JObj d"] by (simp add: res_simps)

lemma visit_node_ok:
  assumes ok: "visit re_ok definitions root path (JObj d) = Inr u"
  shows "node_ok definitions d"
proof (cases "jget d ''$ref'' = JNull")
  case True
  note groups = visit_groups [OF ok True]
  have "\<exists>ps names. jget_default d ''properties'' (JObj []) = JObj ps
      \<and> jget_default d ''required'' (JArr []) = JArr names \<and> set names \<subseteq> JStr ` set (jkeys ps)"
    if "''object'' \<in> set (types (jget d ''type''))"
    using groups(3) [OF that]
    by (cases "jget_default d ''properties'' (JObj [])") (auto simp: res_simps dest!: check_required_ok)
  with groups(3,4) visit_keywords [OF ok] True show ?thesis unfolding node_ok_def by blast
next
  case False
  note ref = check_reference_ok [OF visit_reference [OF ok False]]
  then have "jget d k = JNull" if "k \<noteq> ''$ref''" for k
    using that jget_in_keys [of d k] by auto
  then have "types (jget d ''type'') = []" by (simp add: types_def)
  with ref visit_keywords [OF ok] show ?thesis by (simp add: node_ok_def)
qed

lemma visit_subnode:
  assumes ok: "visit re_ok definitions root path (JObj d) = Inr u" and "subnode (JObj d) x"
  shows "\<exists>path'. visit re_ok definitions False path' x = Inr ()"
proof (cases "jget d ''$ref'' = JNull")
  case True
  note groups = visit_groups [OF ok True]
  from assms(2) show ?thesis
  proof cases
    case (alternative xs)
    then obtain i where "(i, x) \<in> set (enumerate 0 xs)" using in_enumerate by fast
    moreover from this have "xs \<noteq> []" by auto
    then obtain us where us: "rmap (\<lambda>(i, x). visit re_ok definitions False
        (path @ ''.oneOf['' @ show_nat i @ '']'') x) (enumerate 0 xs) = Inr us"
      using alternative groups(2) by (cases xs) auto
    ultimately show ?thesis using rmap_visited [OF us] by fastforce
  next
    case (property ps n)
    with groups(3) obtain us where "rmap (\<lambda>(name, child). raise_if (blank name)
        (strict_error ''property name at '' path '' is invalid'')
        (visit re_ok definitions False (path @ ''.properties.'' @ name) child)) ps = Inr us"
      by (auto simp: res_simps)
    from rmap_visited [OF this property(3)] show ?thesis by (auto simp: res_simps)
  next
    case item
    with groups(4) show ?thesis by blast
  qed
next
  case False
  note ref = check_reference_ok [OF visit_reference [OF ok False]]
  then have keys: "k = ''$ref''" if "k \<in> set (jkeys d)" for k using that by simp
  then have "jget d k = JNull" if "k \<noteq> ''$ref''" for k
    using that jget_in_keys [of d k] by auto
  then have "jget d ''oneOf'' = JNull" "jget d ''type'' = JNull" by auto
  with assms(2) keys show ?thesis by (auto elim!: subnodeE simp: types_def)
qed

lemma visit_reachable:
  assumes "subnode\<^sup>*\<^sup>* node x" and "visit re_ok definitions root path node = Inr u"
  shows "\<exists>d. x = JObj d \<and> node_ok definitions d"
proof -
  have "\<exists>r p. visit re_ok definitions r p x = Inr ()"
    using assms
  proof (induction rule: rtranclp_induct)
    case base
    then show ?case by auto
  next
    case (step y z)
    then obtain r p where v: "visit re_ok definitions r p y = Inr ()" by auto
    then obtain d where "y = JObj d" by (cases y) (simp_all add: visit.simps)
    with visit_subnode [of re_ok definitions r p d "()" z] v step.hyps(2) show ?case by blast
  qed
  then obtain r p where v: "visit re_ok definitions r p x = Inr ()" by blast
  then obtain d where "x = JObj d" by (cases x) (simp_all add: visit.simps)
  with v visit_node_ok show ?thesis by blast
qed


lemma validate_visits:
  assumes "validate_strict_schema_profile re_ok schema = Inr d'"
  shows "\<exists>definitions. schema = JObj d' \<and> jget_default d' ''$defs'' (JObj []) = JObj definitions
     \<and> visit re_ok definitions True ''$'' schema = Inr ()
     \<and> (\<forall>(name, node)\<in>set definitions. \<exists>p. visit re_ok definitions False p node = Inr ())"
proof -
  from assms obtain d where d: "schema = JObj d"
    by (cases schema) (auto simp: validate_strict_schema_profile_def)
  with assms obtain definitions where defs: "jget_default d ''$defs'' (JObj []) = JObj definitions"
    by (cases "jget_default d ''$defs'' (JObj [])") (auto simp: validate_strict_schema_profile_def)
  note eq = assms [unfolded d validate_strict_schema_profile_def json.case defs rbind_eq_Inr]
  then have d': "d' = d" and v: "visit re_ok definitions True ''$'' (JObj d) = Inr ()" by auto
  show ?thesis
  proof (cases "jget d ''$ref'' = JNull")
    case True
    with eq obtain us where us: "rmap (\<lambda>(name, node). raise_if (name = [] \<or> CHR ''/'' \<in> set name)
        (ValueError ''strict schema definition name is invalid'')
        (visit re_ok definitions False (''$.$defs.'' @ name) node)) definitions = Inr us" by auto
    have "\<exists>p. visit re_ok definitions False p node = Inr ()" if "(name, node) \<in> set definitions" for name node
      using rmap_visited [OF us that] by (auto simp: res_simps)
    with d d' defs v show ?thesis by auto
  next
    case False
    note ref = check_reference_ok [OF visit_reference [OF v False]]
    then have "''$defs'' \<notin> set (jkeys d)" by auto
    then have "map_of d ''$defs'' = None" by (auto simp: jkeys_def map_of_eq_None_iff)
    with defs have "definitions = []" by (simp add: jget_default_def)
    with ref show ?thesis by (auto simp: jkeys_def)
  qed
qed

lemma validate_returns: "validate_strict_schema_profile re_ok v = Inr s \<Longrightarrow> v = JObj s"
  using validate_visits [of re_ok v s] by blast

lemma contract_requirement:
  assumes "strict_requirement_for_contract re_ok c = Inr cr"
  shows "\<exists>s. jget c ''json_schema'' = JObj s \<and> validate_strict_schema_profile re_ok (JObj s) = Inr s
      \<and> canonical_digest (JObj s) = Inr (sr_schema_digest cr)"
proof -
  from assms obtain s where s: "jget c ''json_schema'' = JObj s"
    by (cases "jget c ''json_schema''") (simp_all add: strict_requirement_for_contract_def)
  with assms obtain n where n: "validate_strict_schema_profile re_ok (JObj s) = Inr n"
    and d: "canonical_digest (JObj n) = Inr (sr_schema_digest cr)"
    by (auto simp: strict_requirement_for_contract_def res_simps)
  from validate_returns [OF n] s n d show ?thesis by simp
qed

section \<open>Properties\<close>

text \<open>
  C30. A schema that the profile accepts is closed all the way down: every node that is reached from
  the root or from a definition, through alternatives, properties and items, is an object that uses
  only the keywords of the profile; an object schema forbids additional properties and requires only
  properties it declares; an array schema declares its items; and every reference names a definition
  of the document.\<close>

theorem strict_schema_closed:
  assumes "validate_strict_schema_profile re_ok schema = Inr d"
  shows "\<exists>definitions. schema = JObj d \<and> jget_default d ''$defs'' (JObj []) = JObj definitions
     \<and> (\<forall>start x. start \<in> insert schema (snd ` set definitions) \<and> subnode\<^sup>*\<^sup>* start x
          \<longrightarrow> (\<exists>dx. x = JObj dx \<and> node_ok definitions dx))"
proof -
  obtain definitions where defs: "schema = JObj d" "jget_default d ''$defs'' (JObj []) = JObj definitions"
    "visit re_ok definitions True ''$'' schema = Inr ()"
    "\<forall>(name, node)\<in>set definitions. \<exists>p. visit re_ok definitions False p node = Inr ()"
    using validate_visits [OF assms] by blast
  have "\<exists>r p. visit re_ok definitions r p start = Inr ()"
    if "start \<in> insert schema (snd ` set definitions)" for start
    using that defs(3,4) by fastforce
  with visit_reachable [of _ _ re_ok definitions] defs(1,2) show ?thesis by blast
qed

lemma strict_schema_closed_witness:
  "\<exists>dx. JObj [(''$ref'', JStr ''#/$defs/label'')] = JObj dx
     \<and> node_ok [(''label'', JObj [(''type'', JStr ''string''), (''minLength'', JInt 1)])] dx"
proof -
  have "subnode (JObj example_schema) (JObj [(''$ref'', JStr ''#/$defs/label'')])"
    by (rule property [where n = "''name''"]) (auto simp: example_schema_def types_def jget_default_def)
  moreover have "jget_default example_schema ''$defs'' (JObj [])
      = JObj [(''label'', JObj [(''type'', JStr ''string''), (''minLength'', JInt 1)])]"
    by (simp add: example_schema_def jget_default_def)
  ultimately show ?thesis
    using strict_schema_closed [OF example_schema_valid] by (metis insertI1 json.inject(6) r_into_rtranclp)
qed

text \<open>
  A strict requirement is never downgraded: one that validates asks for the strict mode and
  profile, its digest is that of the schema it carries, that schema has passed the profile, and when
  an output contract is present the schema of the contract has passed too and has the same digest.\<close>

lemma strict_requirement_bound:
  assumes "validate_strict_requirement re_ok (JObj r) contract = Inr q"
  shows "jget r ''mode'' = JStr ''strict_json_schema'' \<and> jget r ''strict'' = JBool True
     \<and> jget r ''schema'' = JObj (sr_schema q)
     \<and> validate_strict_schema_profile re_ok (JObj (sr_schema q)) = Inr (sr_schema q)
     \<and> canonical_digest (JObj (sr_schema q)) = Inr (sr_schema_digest q)
     \<and> jget r ''schema_digest'' = JStr (sr_schema_digest q)
     \<and> (\<forall>c. contract = JObj c \<longrightarrow> (\<exists>s. jget c ''json_schema'' = JObj s
          \<and> validate_strict_schema_profile re_ok (JObj s) = Inr s
          \<and> canonical_digest (JObj s) = Inr (sr_schema_digest q)))"
proof -
  from assms obtain s where s: "validate_strict_schema_profile re_ok (jget r ''schema'') = Inr s"
    and q: "sr_schema q = s" "canonical_digest (JObj s) = Inr (sr_schema_digest q)"
    and r: "jget r ''mode'' = JStr ''strict_json_schema''" "jget r ''strict'' = JBool True"
      "jget r ''schema_digest'' = JStr (sr_schema_digest q)"
    and c: "\<And>c. contract = JObj c \<Longrightarrow> \<exists>cr. strict_requirement_for_contract re_ok c = Inr cr
      \<and> sr_schema_digest cr = sr_schema_digest q"
    by (cases contract) (auto simp: validate_strict_requirement_def res_simps STRICT_JSON_SCHEMA_MODE_def)
  have "\<exists>s. jget c ''json_schema'' = JObj s \<and> validate_strict_schema_profile re_ok (JObj s) = Inr s
      \<and> canonical_digest (JObj s) = Inr (sr_schema_digest q)" if "contract = JObj c" for c
    using c [OF that] contract_requirement [of re_ok c] by auto
  with s q r validate_returns [OF s] show ?thesis by simp
qed

end
