(* ===== verification/Contracts.thy ===== *)
theory Contracts
  imports Strict
begin

text \<open>
  The execution task and its result, the two envelopes that Core and Local exchange
  (\<^verbatim>\<open>core_gateway/contracts.py\<close>, with \<^verbatim>\<open>embedding_purpose.py\<close>).

  The fields of a dataclass have the types it declares; requests, inputs and outputs are JSON objects.
  \<open>__post_init__\<close> is a check that returns nothing, \<open>from_payload\<close> reads any JSON object.
  What \<^verbatim>\<open>datetime.fromisoformat\<close> makes of a text is the argument \<open>parse_iso\<close>: \<open>None\<close> for a \<^verbatim>\<open>ValueError\<close>, otherwise
  whether the result has a time zone. \<open>re_ok\<close> is as in the strict profile.
\<close>

section \<open>Validators\<close>

definition required :: "string \<Rightarrow> string \<Rightarrow> string res" where
  "required value name = raise_if (blank value) (ValueError (name @ '' must not be empty'')) (Inr value)"

text \<open>The same on a value of any type.\<close>

definition required_value :: "json \<Rightarrow> string \<Rightarrow> string res" where
  "required_value value name =
     (case value of JStr s \<Rightarrow> required s name | _ \<Rightarrow> Inl (TypeError (name @ '' must be a string'')))"

text \<open>\<^verbatim>\<open>text.replace("Z", "+00:00")\<close>.\<close>

definition replace_z :: "string \<Rightarrow> string" where
  "replace_z s = concat (map (\<lambda>c. if c = CHR ''Z'' then ''+00:00'' else [c]) s)"

definition timestamp_check :: "(string \<Rightarrow> bool option) \<Rightarrow> string \<Rightarrow> string \<Rightarrow> string res" where
  "timestamp_check parse_iso value name =
     rbind (required value name) (\<lambda>text.
     case parse_iso (replace_z text) of
       None \<Rightarrow> Inl (ValueError (name @ '' must be an ISO-8601 timestamp''))
     | Some tz \<Rightarrow> raise_if (\<not> tz) (ValueError (name @ '' must include a timezone'')) (Inr text))"

definition strict_mapping :: "(string \<times> json) list \<Rightarrow> string list \<Rightarrow> string \<Rightarrow> unit res" where
  "strict_mapping payload allowed name =
     (let unknown = filter (\<lambda>k. k \<notin> set allowed) (jkeys payload) in
      raise_if (unknown \<noteq> [])
        (ValueError (name @ '' contains unknown fields: '' @ repr_list (sort unknown))) (Inr ()))"

definition non_negative_int :: "json \<Rightarrow> string \<Rightarrow> nat res" where
  "non_negative_int value name =
     (case value of
        JInt i \<Rightarrow> raise_if (i < 0) (ValueError (name @ '' must be a non-negative integer'')) (Inr (nat i))
      | _ \<Rightarrow> Inl (ValueError (name @ '' must be a non-negative integer'')))"

text \<open>\<^verbatim>\<open>value in {...}\<close> on a set of texts: an array or an object is unhashable.\<close>

definition in_texts :: "json \<Rightarrow> string list \<Rightarrow> bool res" where
  "in_texts value texts =
     (case value of
        JStr s \<Rightarrow> Inr (s \<in> set texts)
      | JArr _ \<Rightarrow> Inl (TypeError (''unhashable type: '' @ quoted ''list''))
      | JObj _ \<Rightarrow> Inl (TypeError (''unhashable type: '' @ quoted ''dict''))
      | _ \<Rightarrow> Inr False)"

text \<open>\<^verbatim>\<open>if value is not None and not isinstance(value, dict): raise TypeError\<close>.\<close>

definition object_or_none :: "json \<Rightarrow> string \<Rightarrow> (string \<times> json) list option res" where
  "object_or_none value name =
     (case value of
        JNull \<Rightarrow> Inr None
      | JObj d \<Rightarrow> Inr (Some d)
      | _ \<Rightarrow> Inl (TypeError (name @ '' must be an object'')))"

text \<open>\<^verbatim>\<open>_required(value, name) if value is not None else None\<close>.\<close>

definition required_or_none :: "json \<Rightarrow> string \<Rightarrow> string option res" where
  "required_or_none value name =
     (if value = JNull then Inr None else rbind (required_value value name) (\<lambda>s. Inr (Some s)))"

definition check_option :: "('a \<Rightarrow> 'b res) \<Rightarrow> 'a option \<Rightarrow> unit res" where
  "check_option f v = (case v of None \<Rightarrow> Inr () | Some x \<Rightarrow> rbind (f x) (\<lambda>_. Inr ()))"

text \<open>Members of a payload that stand for an optional field.\<close>

definition opt_obj :: "(string \<times> json) list option \<Rightarrow> json" where
  "opt_obj d = (case d of None \<Rightarrow> JNull | Some m \<Rightarrow> JObj m)"

definition opt_str :: "string option \<Rightarrow> json" where
  "opt_str s = (case s of None \<Rightarrow> JNull | Some t \<Rightarrow> JStr t)"

definition member_if :: "string \<Rightarrow> json \<Rightarrow> (string \<times> json) list" where
  "member_if k v = (if v = JNull then [] else [(k, v)])"

section \<open>The embedding purpose\<close>

definition EMBEDDING_PURPOSES :: "string list" where
  "EMBEDDING_PURPOSES = [''object_query'', ''subject_query'', ''object_mention'', ''object_card'',
     ''object_signature'', ''value_record'', ''retrieval_query'', ''facet_catalog'', ''knowledge'',
     ''object_candidate_query'', ''object_identity_passage'']"

definition validate_embedding_purpose :: "string \<Rightarrow> string res" where
  "validate_embedding_purpose value =
     raise_if (value \<notin> set EMBEDDING_PURPOSES) (ValueError ''embedding purpose is not supported'') (Inr value)"

section \<open>The execution task\<close>

record core_execution_task =
  ct_schema_version :: nat
  ct_task_id :: string
  ct_task_kind :: string
  ct_operation :: string
  ct_profile_slot :: string
  ct_memory_space_id :: string
  ct_expires_at :: string
  ct_lease :: "string option"
  ct_model_request :: "(string \<times> json) list option"
  ct_embedding_request :: "(string \<times> json) list option"
  ct_operation_input :: "(string \<times> json) list option"
  ct_structured_generation :: "(string \<times> json) list option"

definition GENERATE_KINDS :: "string list" where
  "GENERATE_KINDS = [''generate_json'', ''object_resolution'']"

definition TASK_KINDS :: "string list" where
  "TASK_KINDS = [''generate_json'', ''object_resolution'', ''embed_texts'']"

definition SEMANTIC_OPERATIONS :: "string list" where
  "SEMANTIC_OPERATIONS = [''round_semantic'', ''user_semantic'', ''execution_semantic'', ''object_resolution'']"

definition check_response_format :: "json \<Rightarrow> unit res" where
  "check_response_format response_format =
     (if response_format = JNull then Inr ()
      else rbind (case response_format of
            JStr s \<Rightarrow> Inr (s \<in> {''json_object'', ''text''})
          | JObj d \<Rightarrow> in_texts (jget d ''type'') [''json_object'', ''json_schema'']
          | _ \<Rightarrow> Inr False) (\<lambda>valid.
        raise_if (\<not> valid) (ValueError ''model_request.response_format is invalid'') (Inr ())))"

definition check_mode :: "json \<Rightarrow> unit res" where
  "check_mode mode =
     (if mode = JNull then Inr ()
      else rbind (in_texts mode [''auto'', ''strict_json_schema'', ''json_schema'', ''tool_call'',
            ''json_object'', ''prompt_only'']) (\<lambda>known.
        raise_if (\<not> known) (ValueError ''model_request mode is invalid'') (Inr ())))"

text \<open>The extra demands on a semantic operation.\<close>

definition check_semantic ::
  "(string \<Rightarrow> bool) \<Rightarrow> (string \<times> json) list option \<Rightarrow> json \<Rightarrow> json \<Rightarrow> json \<Rightarrow> unit res" where
  "check_semantic re_ok structured_generation mode requirement output_contract =
     raise_if (mode \<noteq> JStr STRICT_JSON_SCHEMA_MODE)
       (ValueError ''semantic generate_json tasks require mode=strict_json_schema'')
     (case validate_strict_requirement re_ok requirement output_contract of
        Inl _ \<Rightarrow> Inl (ValueError ''semantic generate_json task has an invalid strict requirement'')
      | Inr _ \<Rightarrow>
          let contract_digest = jget (case structured_generation of None \<Rightarrow> [] | Some d \<Rightarrow> d) ''contract_digest'';
              output_digest = (case output_contract of JObj d \<Rightarrow> jget d ''schema_digest'' | _ \<Rightarrow> JNull)
          in raise_if (\<not> is_str contract_digest \<or> contract_digest \<noteq> output_digest)
               (ValueError ''semantic task contract digest must match the strict output contract'') (Inr ()))"

definition check_message :: "json \<Rightarrow> unit res" where
  "check_message message =
     (case message of
        JObj d \<Rightarrow>
          rbind (strict_mapping d [''role'', ''content''] ''model message'') (\<lambda>_.
          rbind (required_value (jget d ''role'') ''model message role'') (\<lambda>_.
          rbind (required_value (jget d ''content'') ''model message content'') (\<lambda>_. Inr ())))
      | _ \<Rightarrow> Inl (TypeError ''model_request.messages must contain objects''))"

definition check_model_request ::
  "(string \<Rightarrow> bool) \<Rightarrow> string \<Rightarrow> (string \<times> json) list option \<Rightarrow> (string \<times> json) list \<Rightarrow> unit res" where
  "check_model_request re_ok operation structured_generation mr =
     rbind (strict_mapping mr [''messages'', ''max_output_tokens'', ''response_format'', ''output_contract'',
       ''structured_output_requirement'', ''mode'', ''structured_output_mode'', ''tool_name'', ''metadata'',
       ''seed''] ''model_request'') (\<lambda>_.
     rbind (case jget mr ''messages'' of
         JArr (m # ms) \<Rightarrow> Inr (m # ms)
       | _ \<Rightarrow> Inl (ValueError ''model_request.messages must be a non-empty array'')) (\<lambda>messages.
     raise_if (case jget mr ''max_output_tokens'' of JInt i \<Rightarrow> \<not> (1 \<le> i \<and> i \<le> 50000) | _ \<Rightarrow> True)
       (TypeError ''model_request.max_output_tokens must be an integer'')
     (rbind (check_response_format (jget mr ''response_format'')) (\<lambda>_.
     rbind (object_or_none (jget mr ''output_contract'') ''model_request.output_contract'') (\<lambda>_.
     rbind (object_or_none (jget mr ''structured_output_requirement'')
         ''model_request.structured_output_requirement'') (\<lambda>_.
     raise_if (jget mr ''response_format'' = JNull \<and> jget mr ''output_contract'' = JNull)
       (ValueError ''model_request requires output_contract or response_format'')
     (let mode = jget_default mr ''mode'' (jget mr ''structured_output_mode'') in
     rbind (check_mode mode) (\<lambda>_.
     rbind (if operation \<in> set SEMANTIC_OPERATIONS
         then check_semantic re_ok structured_generation mode (jget mr ''structured_output_requirement'')
           (jget mr ''output_contract'')
         else Inr ()) (\<lambda>_.
     rbind (required_or_none (jget mr ''tool_name'') ''model_request.tool_name'') (\<lambda>_.
     rbind (object_or_none (jget mr ''metadata'') ''model_request.metadata'') (\<lambda>_.
     raise_if (bad_count (jget mr ''seed''))
       (TypeError ''model_request.seed must be a non-negative integer'')
     (rbind (rmap check_message messages) (\<lambda>_. Inr ())))))))))))))"

text \<open>\<^verbatim>\<open>not isinstance(value, str) or not value.strip()\<close>.\<close>

definition not_text :: "json \<Rightarrow> bool" where
  "not_text v = (case v of JStr s \<Rightarrow> blank s | _ \<Rightarrow> True)"

definition check_optional_text :: "(string \<times> json) list \<Rightarrow> string \<Rightarrow> unit res" where
  "check_optional_text er key =
     raise_if (jget er key \<noteq> JNull \<and> not_text (jget er key))
       (ValueError (''embedding_request.'' @ key @ '' must be non-empty text'')) (Inr ())"

definition check_subject_refs :: "json \<Rightarrow> unit res" where
  "check_subject_refs subject_refs =
     (case subject_refs of
        JNull \<Rightarrow> Inr ()
      | JArr refs \<Rightarrow>
          raise_if (list_ex not_text refs) (ValueError ''embedding_request.subject_refs must contain strings'')
          (raise_if (\<not> distinct refs) (ValueError ''embedding_request.subject_refs must be unique'') (Inr ()))
      | _ \<Rightarrow> Inl (ValueError ''embedding_request.subject_refs must contain strings''))"

definition required_role :: "string \<Rightarrow> string option" where
  "required_role purpose = map_of [(''object_candidate_query'', ''query''),
     (''object_identity_passage'', ''passage'')] purpose"

definition check_role :: "string \<Rightarrow> json \<Rightarrow> unit res" where
  "check_role purpose role =
     rbind (if role = JNull then Inr True else in_texts role [''query'', ''passage'']) (\<lambda>known.
     raise_if (\<not> known) (ValueError ''embedding_request.role must be query or passage'')
     (case required_role purpose of
        None \<Rightarrow> Inr ()
      | Some r \<Rightarrow> raise_if (role \<noteq> JStr r)
          (ValueError (''embedding_request purpose '' @ purpose @ '' requires role='' @ r)) (Inr ())))"

definition check_cache_keys :: "json list \<Rightarrow> json \<Rightarrow> unit res" where
  "check_cache_keys texts cache_keys =
     (if cache_keys = JNull then Inr ()
      else case cache_keys of
        JArr keys \<Rightarrow>
          raise_if (length keys \<noteq> length texts)
            (ValueError ''embedding_request.cache_keys must align with texts'')
          (raise_if (list_ex not_text keys)
            (ValueError ''embedding_request.cache_keys must contain strings'') (Inr ()))
      | _ \<Rightarrow> Inl (ValueError ''embedding_request.cache_keys must align with texts''))"

definition check_embedding_request :: "(string \<times> json) list \<Rightarrow> unit res" where
  "check_embedding_request er =
     rbind (strict_mapping er [''texts'', ''purpose'', ''subject_refs'', ''dimensions'',
       ''profile_fingerprint'', ''config_fingerprint'', ''privacy_class'', ''cache_namespace'',
       ''cache_keys'', ''deadline'', ''role'', ''renderer_version''] ''embedding_request'') (\<lambda>_.
     rbind (case jget er ''texts'' of
         JArr (t # ts) \<Rightarrow> Inr (t # ts)
       | _ \<Rightarrow> Inl (ValueError ''embedding_request.texts must be a non-empty array'')) (\<lambda>texts.
     raise_if (list_ex not_text texts) (ValueError ''embedding_request.texts must contain text'')
     (rbind (check_subject_refs (jget er ''subject_refs'')) (\<lambda>_.
     rbind (rbind (required_value (jget er ''purpose'') ''embedding purpose'') validate_embedding_purpose) (\<lambda>purpose.
     rbind (check_role purpose (jget er ''role'')) (\<lambda>_.
     raise_if (case jget er ''dimensions'' of JNull \<Rightarrow> False | JInt i \<Rightarrow> \<not> (1 \<le> i \<and> i \<le> 100000) | _ \<Rightarrow> True)
       (TypeError ''embedding_request.dimensions must be a positive integer'')
     (rbind (rmap (check_optional_text er) [''profile_fingerprint'', ''config_fingerprint'',
         ''privacy_class'', ''cache_namespace'', ''deadline'', ''renderer_version'']) (\<lambda>_.
     check_cache_keys texts (jget er ''cache_keys'')))))))))"

definition task_post_init ::
  "(string \<Rightarrow> bool option) \<Rightarrow> (string \<Rightarrow> bool) \<Rightarrow> core_execution_task \<Rightarrow> unit res" where
  "task_post_init parse_iso re_ok t =
     raise_if (ct_schema_version t \<noteq> 2) (ValueError ''schema_version must be 2'')
     (rbind (required (ct_task_id t) ''task_id'') (\<lambda>_.
     rbind (required (ct_operation t) ''operation'') (\<lambda>_.
     rbind (required (ct_memory_space_id t) ''memory_space_id'') (\<lambda>_.
     rbind (timestamp_check parse_iso (ct_expires_at t) ''expires_at'') (\<lambda>_.
     rbind (check_option (\<lambda>l. timestamp_check parse_iso l ''lease'') (ct_lease t)) (\<lambda>_.
     raise_if (ct_task_kind t \<notin> set TASK_KINDS)
       (ValueError ''task_kind must be generate_json, object_resolution, or embed_texts'')
     (if ct_task_kind t \<in> set GENERATE_KINDS then
        raise_if (ct_profile_slot t \<notin> {''operational'', ''object_resolution'', ''background''})
          (ValueError ''generate_json task requires an operational, object_resolution, or background profile slot'')
        (case (ct_model_request t, ct_embedding_request t) of
           (Some mr, None) \<Rightarrow> check_model_request re_ok (ct_operation t) (ct_structured_generation t) mr
         | _ \<Rightarrow> Inl (ValueError ''generate_json task has an invalid request shape''))
      else
        raise_if (ct_profile_slot t \<noteq> ''embedding'')
          (ValueError ''embed_texts task requires the embedding profile slot'')
        (case (ct_embedding_request t, ct_model_request t) of
           (Some er, None) \<Rightarrow> check_embedding_request er
         | _ \<Rightarrow> Inl (ValueError ''embed_texts task has an invalid request shape'')))))))))"

definition task_from_payload ::
  "(string \<Rightarrow> bool option) \<Rightarrow> (string \<Rightarrow> bool) \<Rightarrow> (string \<times> json) list \<Rightarrow> core_execution_task res" where
  "task_from_payload parse_iso re_ok payload =
     rbind (strict_mapping payload [''schema_version'', ''task_id'', ''task_kind'', ''operation'',
       ''profile_slot'', ''memory_space_id'', ''expires_at'', ''lease'', ''model_request'',
       ''embedding_request'', ''operation_input'', ''structured_generation'']
       ''object-facet execution task'') (\<lambda>_.
     rbind (in_texts (jget payload ''task_kind'') TASK_KINDS) (\<lambda>known_kind.
     raise_if (\<not> known_kind) (ValueError ''task_kind must be generate_json, object_resolution, or embed_texts'')
     (rbind (in_texts (jget payload ''profile_slot'')
         [''operational'', ''object_resolution'', ''background'', ''embedding'']) (\<lambda>known_slot.
     raise_if (\<not> known_slot) (ValueError ''profile_slot is invalid'')
     (rbind (object_or_none (jget payload ''model_request'') ''model_request'') (\<lambda>model_request.
     rbind (object_or_none (jget payload ''embedding_request'') ''embedding_request'') (\<lambda>embedding_request.
     rbind (object_or_none (jget payload ''operation_input'') ''operation_input'') (\<lambda>operation_input.
     rbind (object_or_none (jget payload ''structured_generation'') ''structured_generation'') (\<lambda>structured_generation.
     rbind (non_negative_int (jget payload ''schema_version'') ''schema_version'') (\<lambda>schema_version.
     rbind (required_value (jget payload ''task_id'') ''task_id'') (\<lambda>task_id.
     rbind (required_value (jget payload ''operation'') ''operation'') (\<lambda>operation.
     rbind (required_value (jget payload ''memory_space_id'') ''memory_space_id'') (\<lambda>memory_space_id.
     rbind (required_value (jget payload ''expires_at'') ''expires_at'') (\<lambda>expires_at.
     rbind (required_or_none (jget payload ''lease'') ''lease'') (\<lambda>lease.
     let task = \<lparr>ct_schema_version = schema_version, ct_task_id = task_id,
         ct_task_kind = (case jget payload ''task_kind'' of JStr s \<Rightarrow> s | _ \<Rightarrow> []),
         ct_operation = operation,
         ct_profile_slot = (case jget payload ''profile_slot'' of JStr s \<Rightarrow> s | _ \<Rightarrow> []),
         ct_memory_space_id = memory_space_id, ct_expires_at = expires_at, ct_lease = lease,
         ct_model_request = model_request, ct_embedding_request = embedding_request,
         ct_operation_input = operation_input, ct_structured_generation = structured_generation\<rparr>
     in rbind (task_post_init parse_iso re_ok task) (\<lambda>_. Inr task))))))))))))))))"

definition task_to_payload :: "core_execution_task \<Rightarrow> (string \<times> json) list" where
  "task_to_payload t =
     [(''schema_version'', JInt (int (ct_schema_version t))), (''task_id'', JStr (ct_task_id t)),
      (''task_kind'', JStr (ct_task_kind t)), (''operation'', JStr (ct_operation t)),
      (''profile_slot'', JStr (ct_profile_slot t)), (''memory_space_id'', JStr (ct_memory_space_id t)),
      (''expires_at'', JStr (ct_expires_at t)), (''model_request'', opt_obj (ct_model_request t)),
      (''embedding_request'', opt_obj (ct_embedding_request t)),
      (''operation_input'', opt_obj (ct_operation_input t))]
     @ member_if ''structured_generation'' (opt_obj (ct_structured_generation t))
     @ member_if ''lease'' (opt_str (ct_lease t))"

section \<open>The execution result\<close>

record core_execution_result =
  cr_task_id :: string
  cr_task_kind :: string
  cr_status :: string
  cr_operation :: string
  cr_operation_input :: "(string \<times> json) list option"
  cr_output :: "(string \<times> json) list option"
  cr_embedding_result :: "(string \<times> json) list option"
  cr_egress_audit :: "(string \<times> json) list"
  cr_error_code :: "string option"
  cr_raw_model_text :: "string option"
  cr_structured_output_mode :: "string option"
  cr_contract_digest :: "string option"
  cr_tool_name :: "string option"
  cr_metadata :: "(string \<times> json) list option"

text \<open>A generated output without vectors, or vectors without an output.\<close>

definition check_result_shape :: "string \<Rightarrow> 'a option \<Rightarrow> 'b option \<Rightarrow> unit res" where
  "check_result_shape task_kind output embedding_result =
     (if task_kind \<in> set GENERATE_KINDS then
        raise_if (output = None \<or> embedding_result \<noteq> None)
          (ValueError ''generate_json result has an invalid output shape'') (Inr ())
      else
        raise_if (embedding_result = None \<or> output \<noteq> None)
          (ValueError ''embed_texts result has an invalid output shape'') (Inr ()))"

definition result_post_init :: "core_execution_result \<Rightarrow> unit res" where
  "result_post_init r =
     rbind (required (cr_task_id r) ''result.task_id'') (\<lambda>_.
     rbind (required (cr_operation r) ''result.operation'') (\<lambda>_.
     raise_if (cr_task_kind r \<notin> set TASK_KINDS) (ValueError ''result.task_kind is invalid'')
     (raise_if (cr_status r \<noteq> ''completed'') (ValueError ''result.status must be completed'')
     (rbind (check_result_shape (cr_task_kind r) (cr_output r) (cr_embedding_result r)) (\<lambda>_.
     rbind (check_option (\<lambda>s. required s ''result.error_code'') (cr_error_code r)) (\<lambda>_.
     rbind (check_option (\<lambda>s. required s ''result.structured_output_mode'') (cr_structured_output_mode r)) (\<lambda>_.
     rbind (check_option (\<lambda>s. required s ''result.contract_digest'') (cr_contract_digest r)) (\<lambda>_.
     check_option (\<lambda>s. required s ''result.tool_name'') (cr_tool_name r)))))))))"

definition result_to_payload :: "core_execution_result \<Rightarrow> (string \<times> json) list" where
  "result_to_payload r =
     [(''task_id'', JStr (cr_task_id r)), (''task_kind'', JStr (cr_task_kind r)),
      (''status'', JStr (cr_status r)), (''operation'', JStr (cr_operation r)),
      (''operation_input'', opt_obj (cr_operation_input r)), (''output'', opt_obj (cr_output r)),
      (''embedding_result'', opt_obj (cr_embedding_result r)),
      (''egress_audit'', JObj (cr_egress_audit r)), (''error_code'', opt_str (cr_error_code r))]
     @ member_if ''raw_model_text'' (opt_str (cr_raw_model_text r))
     @ member_if ''structured_output_mode'' (opt_str (cr_structured_output_mode r))
     @ member_if ''contract_digest'' (opt_str (cr_contract_digest r))
     @ member_if ''tool_name'' (opt_str (cr_tool_name r))
     @ member_if ''metadata'' (opt_obj (cr_metadata r))"

definition result_from_payload :: "(string \<times> json) list \<Rightarrow> core_execution_result res" where
  "result_from_payload payload =
     rbind (strict_mapping payload [''task_id'', ''task_kind'', ''status'', ''operation'',
       ''operation_input'', ''output'', ''embedding_result'', ''egress_audit'', ''error_code'',
       ''raw_model_text'', ''structured_output_mode'', ''contract_digest'', ''tool_name'', ''metadata'']
       ''object-facet execution result'') (\<lambda>_.
     rbind (in_texts (jget payload ''task_kind'') TASK_KINDS) (\<lambda>known_kind.
     raise_if (\<not> known_kind) (ValueError ''result.task_kind is invalid'')
     (raise_if (jget payload ''status'' \<noteq> JStr ''completed'') (ValueError ''result.status must be completed'')
     (rbind (object_or_none (jget payload ''operation_input'') ''result.operation_input'') (\<lambda>operation_input.
     rbind (object_or_none (jget payload ''output'') ''result.output'') (\<lambda>output.
     rbind (object_or_none (jget payload ''embedding_result'') ''result.embedding_result'') (\<lambda>embedding_result.
     rbind (object_or_none (jget payload ''egress_audit'') ''result.egress_audit'') (\<lambda>audit.
     rbind (case audit of None \<Rightarrow> Inl (TypeError ''result.egress_audit must be an object'') | Some d \<Rightarrow> Inr d) (\<lambda>egress_audit.
     rbind (case jget payload ''raw_model_text'' of
         JNull \<Rightarrow> Inr None
       | JStr s \<Rightarrow> Inr (Some s)
       | _ \<Rightarrow> Inl (TypeError ''result.raw_model_text must be a string'')) (\<lambda>raw_model_text.
     rbind (object_or_none (jget payload ''metadata'') ''result.metadata'') (\<lambda>metadata.
     let task_kind = (case jget payload ''task_kind'' of JStr s \<Rightarrow> s | _ \<Rightarrow> []) in
     rbind (check_result_shape task_kind output embedding_result) (\<lambda>_.
     rbind (required_value (jget payload ''task_id'') ''result.task_id'') (\<lambda>task_id.
     rbind (required_value (jget payload ''operation'') ''result.operation'') (\<lambda>operation.
     rbind (required_or_none (jget payload ''error_code'') ''result.error_code'') (\<lambda>error_code.
     rbind (required_or_none (jget payload ''structured_output_mode'') ''result.structured_output_mode'') (\<lambda>mode.
     rbind (required_or_none (jget payload ''contract_digest'') ''result.contract_digest'') (\<lambda>contract_digest.
     rbind (required_or_none (jget payload ''tool_name'') ''result.tool_name'') (\<lambda>tool_name.
     let result = \<lparr>cr_task_id = task_id, cr_task_kind = task_kind, cr_status = ''completed'',
         cr_operation = operation, cr_operation_input = operation_input, cr_output = output,
         cr_embedding_result = embedding_result, cr_egress_audit = egress_audit,
         cr_error_code = error_code, cr_raw_model_text = raw_model_text,
         cr_structured_output_mode = mode, cr_contract_digest = contract_digest,
         cr_tool_name = tool_name, cr_metadata = metadata\<rparr>
     in rbind (result_post_init result) (\<lambda>_. Inr result)))))))))))))))))))"

text \<open>A task on which every check succeeds, and the argument functions it is checked with.\<close>

definition utc_only :: "string \<Rightarrow> bool option" where
  "utc_only s = (if suffix ''+00:00'' s then Some True else None)"

definition example_task :: core_execution_task where
  "example_task = \<lparr>ct_schema_version = 2, ct_task_id = ''task-1'', ct_task_kind = ''embed_texts'',
     ct_operation = ''embed'', ct_profile_slot = ''embedding'', ct_memory_space_id = ''space-1'',
     ct_expires_at = ''2026-02-18T08:26:40Z'', ct_lease = Some ''2026-02-18T08:27:40Z'', ct_model_request = None,
     ct_embedding_request = Some [(''texts'', JArr [JStr ''hello'']),
       (''purpose'', JStr ''object_candidate_query''), (''role'', JStr ''query'')],
     ct_operation_input = None, ct_structured_generation = None\<rparr>"

definition semantic_contract :: "string \<Rightarrow> (string \<times> json) list" where
  "semantic_contract digest = [(''json_schema'', JObj example_schema), (''schema_digest'', JStr digest)]"

definition semantic_task :: "string \<Rightarrow> core_execution_task" where
  "semantic_task digest = \<lparr>ct_schema_version = 2, ct_task_id = ''task-2'', ct_task_kind = ''generate_json'',
     ct_operation = ''round_semantic'', ct_profile_slot = ''operational'', ct_memory_space_id = ''space-1'',
     ct_expires_at = ''2026-02-18T08:26:40Z'', ct_lease = None,
     ct_model_request = Some [(''messages'', JArr [JObj [(''role'', JStr ''user''), (''content'', JStr ''hi'')]]),
       (''max_output_tokens'', JInt 100), (''mode'', JStr ''strict_json_schema''),
       (''output_contract'', JObj (semantic_contract digest))],
     ct_embedding_request = None, ct_operation_input = None,
     ct_structured_generation = Some [(''contract_digest'', JStr digest)]\<rparr>"

section \<open>Reading back what was written\<close>

lemma required_value_JStr [simp]: "required_value (JStr s) name = required s name"
  by (simp add: required_value_def)

lemma required_ok: "required s name = Inr u \<longleftrightarrow> \<not> blank s \<and> u = s"
  by (auto simp: required_def res_simps)

lemma object_or_none_opt_obj [simp]: "object_or_none (opt_obj d) name = Inr d"
  by (cases d) (simp_all add: opt_obj_def object_or_none_def)

lemma required_or_none_opt_str:
  "check_option (\<lambda>s. required s name) v = Inr () \<Longrightarrow> required_or_none (opt_str v) name = Inr v"
  by (cases v) (auto simp: opt_str_def required_or_none_def check_option_def res_simps required_ok)

lemma jget_member_if [simp]: "jget (member_if k v) k' = (if k' = k then v else JNull)"
  by (simp add: member_if_def)

lemma jkeys_simps [simp]:
  "jkeys [] = []" "jkeys ((k, v) # d) = k # jkeys d" "jkeys (a @ b) = jkeys a @ jkeys b"
  by (simp_all add: jkeys_def)

lemma jget_member_if_append:
  "jget (member_if k v @ d) k' = (if k' = k \<and> v \<noteq> JNull then v else jget d k')"
  by (simp add: member_if_def)

lemma in_texts_JStr [simp]: "in_texts (JStr s) ts = Inr (s \<in> set ts)"
  by (simp add: in_texts_def)

lemma non_negative_int_int [simp]: "non_negative_int (JInt (int n)) name = Inr n"
  by (simp add: non_negative_int_def)

lemma strict_mapping_ok: "set (jkeys d) \<subseteq> set allowed \<Longrightarrow> strict_mapping d allowed name = Inr ()"
  by (auto simp: strict_mapping_def Let_def filter_empty_conv raise_if_def)

lemma strict_mapping_known: "strict_mapping d allowed name = Inr u \<Longrightarrow> set (jkeys d) \<subseteq> set allowed"
  by (auto simp: strict_mapping_def Let_def res_simps filter_empty_conv)

lemma opt_simps [simp]: "opt_str (Some s) = JStr s" "opt_str None = JNull"
    "opt_obj (Some d) = JObj d" "opt_obj None = JNull"
  by (simp_all add: opt_str_def opt_obj_def)

lemma task_payload_keys:
  "set (jkeys (task_to_payload t)) \<subseteq> set [''schema_version'', ''task_id'', ''task_kind'', ''operation'',
       ''profile_slot'', ''memory_space_id'', ''expires_at'', ''lease'', ''model_request'',
       ''embedding_request'', ''operation_input'', ''structured_generation'']"
  by (simp add: task_to_payload_def member_if_def)

lemma task_payload_get:
  "jget (task_to_payload t) ''schema_version'' = JInt (int (ct_schema_version t))"
  "jget (task_to_payload t) ''task_id'' = JStr (ct_task_id t)"
  "jget (task_to_payload t) ''task_kind'' = JStr (ct_task_kind t)"
  "jget (task_to_payload t) ''operation'' = JStr (ct_operation t)"
  "jget (task_to_payload t) ''profile_slot'' = JStr (ct_profile_slot t)"
  "jget (task_to_payload t) ''memory_space_id'' = JStr (ct_memory_space_id t)"
  "jget (task_to_payload t) ''expires_at'' = JStr (ct_expires_at t)"
  "jget (task_to_payload t) ''model_request'' = opt_obj (ct_model_request t)"
  "jget (task_to_payload t) ''embedding_request'' = opt_obj (ct_embedding_request t)"
  "jget (task_to_payload t) ''operation_input'' = opt_obj (ct_operation_input t)"
  "jget (task_to_payload t) ''structured_generation'' = opt_obj (ct_structured_generation t)"
  "jget (task_to_payload t) ''lease'' = opt_str (ct_lease t)"
  by (simp_all add: task_to_payload_def jget_member_if_append)

lemma timestamp_check_required: "timestamp_check parse_iso s name = Inr u \<Longrightarrow> required s name = Inr s"
  by (auto simp: timestamp_check_def res_simps required_ok)

text \<open>What every accepted task satisfies, before its request is looked at.\<close>

lemma task_post_init_envelope:
  assumes "task_post_init parse_iso re_ok t = Inr ()"
  shows "ct_schema_version t = 2" and "required (ct_task_id t) ''task_id'' = Inr (ct_task_id t)"
    and "required (ct_operation t) ''operation'' = Inr (ct_operation t)"
    and "required (ct_memory_space_id t) ''memory_space_id'' = Inr (ct_memory_space_id t)"
    and "required (ct_expires_at t) ''expires_at'' = Inr (ct_expires_at t)"
    and "check_option (\<lambda>l. required l ''lease'') (ct_lease t) = Inr ()"
    and "ct_task_kind t \<in> set TASK_KINDS"
    and "ct_profile_slot t \<in> {''operational'', ''object_resolution'', ''background'', ''embedding''}"
proof -
  note facts = assms [unfolded task_post_init_def res_simps]
  show "ct_schema_version t = 2" using facts by blast
  show "required (ct_task_id t) ''task_id'' = Inr (ct_task_id t)"
    "required (ct_operation t) ''operation'' = Inr (ct_operation t)"
    "required (ct_memory_space_id t) ''memory_space_id'' = Inr (ct_memory_space_id t)"
    using facts by (auto simp: required_ok)
  show "required (ct_expires_at t) ''expires_at'' = Inr (ct_expires_at t)"
    using facts timestamp_check_required by blast
  show "check_option (\<lambda>l. required l ''lease'') (ct_lease t) = Inr ()"
    using facts timestamp_check_required
    by (cases "ct_lease t") (auto simp: check_option_def res_simps)
  show "ct_task_kind t \<in> set TASK_KINDS" using facts by blast
  show "ct_profile_slot t \<in> {''operational'', ''object_resolution'', ''background'', ''embedding''}"
    using facts by (auto simp: res_simps split: if_splits)
qed

section \<open>Properties\<close>

lemma task_roundtrip:
  assumes "task_post_init parse_iso re_ok t = Inr ()"
  shows "task_from_payload parse_iso re_ok (task_to_payload t) = Inr t"
proof -
  note env = task_post_init_envelope [OF assms]
  have eta: "\<lparr>ct_schema_version = ct_schema_version t, ct_task_id = ct_task_id t,
      ct_task_kind = ct_task_kind t, ct_operation = ct_operation t, ct_profile_slot = ct_profile_slot t,
      ct_memory_space_id = ct_memory_space_id t, ct_expires_at = ct_expires_at t, ct_lease = ct_lease t,
      ct_model_request = ct_model_request t, ct_embedding_request = ct_embedding_request t,
      ct_operation_input = ct_operation_input t,
      ct_structured_generation = ct_structured_generation t\<rparr> = t" by (cases t) simp
  show ?thesis
    unfolding task_from_payload_def task_payload_get strict_mapping_ok [OF task_payload_keys]
    using env(7,8) assms required_or_none_opt_str [OF env(6)]
    by (simp add: env(2-5) Let_def eta)
qed


lemma result_payload_keys:
  "set (jkeys (result_to_payload r)) \<subseteq> set [''task_id'', ''task_kind'', ''status'', ''operation'',
       ''operation_input'', ''output'', ''embedding_result'', ''egress_audit'', ''error_code'',
       ''raw_model_text'', ''structured_output_mode'', ''contract_digest'', ''tool_name'', ''metadata'']"
  by (simp add: result_to_payload_def member_if_def)

lemma result_payload_get:
  "jget (result_to_payload r) ''task_id'' = JStr (cr_task_id r)"
  "jget (result_to_payload r) ''task_kind'' = JStr (cr_task_kind r)"
  "jget (result_to_payload r) ''status'' = JStr (cr_status r)"
  "jget (result_to_payload r) ''operation'' = JStr (cr_operation r)"
  "jget (result_to_payload r) ''operation_input'' = opt_obj (cr_operation_input r)"
  "jget (result_to_payload r) ''output'' = opt_obj (cr_output r)"
  "jget (result_to_payload r) ''embedding_result'' = opt_obj (cr_embedding_result r)"
  "jget (result_to_payload r) ''egress_audit'' = opt_obj (Some (cr_egress_audit r))"
  "jget (result_to_payload r) ''error_code'' = opt_str (cr_error_code r)"
  "jget (result_to_payload r) ''raw_model_text'' = opt_str (cr_raw_model_text r)"
  "jget (result_to_payload r) ''structured_output_mode'' = opt_str (cr_structured_output_mode r)"
  "jget (result_to_payload r) ''contract_digest'' = opt_str (cr_contract_digest r)"
  "jget (result_to_payload r) ''tool_name'' = opt_str (cr_tool_name r)"
  "jget (result_to_payload r) ''metadata'' = opt_obj (cr_metadata r)"
  by (simp_all add: result_to_payload_def jget_member_if_append)

lemma result_post_init_facts:
  assumes "result_post_init r = Inr ()"
  shows "required (cr_task_id r) ''result.task_id'' = Inr (cr_task_id r)"
    and "required (cr_operation r) ''result.operation'' = Inr (cr_operation r)"
    and "cr_task_kind r \<in> set TASK_KINDS" and "cr_status r = ''completed''"
    and "check_result_shape (cr_task_kind r) (cr_output r) (cr_embedding_result r) = Inr ()"
    and "check_option (\<lambda>s. required s ''result.error_code'') (cr_error_code r) = Inr ()"
    and "check_option (\<lambda>s. required s ''result.structured_output_mode'') (cr_structured_output_mode r) = Inr ()"
    and "check_option (\<lambda>s. required s ''result.contract_digest'') (cr_contract_digest r) = Inr ()"
    and "check_option (\<lambda>s. required s ''result.tool_name'') (cr_tool_name r) = Inr ()"
  using assms unfolding result_post_init_def res_simps by (simp_all add: required_ok)

lemma result_roundtrip:
  assumes "result_post_init r = Inr ()"
  shows "result_from_payload (result_to_payload r) = Inr r"
proof -
  note facts = result_post_init_facts [OF assms]
  have eta: "\<lparr>cr_task_id = cr_task_id r, cr_task_kind = cr_task_kind r, cr_status = ''completed'',
      cr_operation = cr_operation r, cr_operation_input = cr_operation_input r, cr_output = cr_output r,
      cr_embedding_result = cr_embedding_result r, cr_egress_audit = cr_egress_audit r,
      cr_error_code = cr_error_code r, cr_raw_model_text = cr_raw_model_text r,
      cr_structured_output_mode = cr_structured_output_mode r, cr_contract_digest = cr_contract_digest r,
      cr_tool_name = cr_tool_name r, cr_metadata = cr_metadata r\<rparr> = r"
    using facts(4) by (cases r) simp
  have raw: "(case opt_str t of JNull \<Rightarrow> Inr None | JStr s \<Rightarrow> Inr (Some s)
      | _ \<Rightarrow> Inl (TypeError ''result.raw_model_text must be a string'')) = Inr t" for t
    by (cases t) simp_all
  show ?thesis
    unfolding result_from_payload_def result_payload_get strict_mapping_ok [OF result_payload_keys]
      object_or_none_opt_obj raw facts(4)
    using facts(3) assms required_or_none_opt_str [OF facts(6)] required_or_none_opt_str [OF facts(7)]
      required_or_none_opt_str [OF facts(8)] required_or_none_opt_str [OF facts(9)]
    by (simp add: facts(1,2,5) Let_def eta)
qed

definition example_result :: core_execution_result where
  "example_result = \<lparr>cr_task_id = ''task-1'', cr_task_kind = ''generate_json'',
     cr_status = ''completed'', cr_operation = ''round_semantic'', cr_operation_input = None,
     cr_output = Some [], cr_embedding_result = None, cr_egress_audit = [], cr_error_code = None,
     cr_raw_model_text = Some [], cr_structured_output_mode = Some ''strict_json_schema'',
     cr_contract_digest = None, cr_tool_name = None, cr_metadata = Some []\<rparr>"

text \<open>
  C32. The execution envelopes survive the wire: a task, and a result, that passes its own validation is
  read back by \<open>from_payload\<close> from \<open>to_payload\<close> exactly as it was written, every optional member included. An
  empty raw text and an empty metadata object are kept apart from absent ones.\<close>

theorem execution_envelopes_roundtrip:
  "(task_post_init parse_iso re_ok t = Inr () \<longrightarrow> task_from_payload parse_iso re_ok (task_to_payload t) = Inr t)
     \<and> (result_post_init r = Inr () \<longrightarrow> result_from_payload (result_to_payload r) = Inr r)"
  using task_roundtrip result_roundtrip by blast

lemma execution_envelopes_roundtrip_witness:
  "task_from_payload utc_only (\<lambda>_. True) (task_to_payload example_task) = Inr example_task
     \<and> result_from_payload (result_to_payload example_result) = Inr example_result"
proof -
  have "task_post_init utc_only (\<lambda>_. True) example_task = Inr ()" by code_simp
  moreover have "result_post_init example_result = Inr ()" by code_simp
  ultimately show ?thesis
    using execution_envelopes_roundtrip [of utc_only "\<lambda>_. True" example_task example_result] by blast
qed

text \<open>
  A semantic operation runs only under its strict contract: a task of kind \<open>generate_json\<close> with
  such an operation is accepted only if it asks for the strict mode, has no embedding request, its
  requirement validates against its output contract, and the digest in its structured generation is
  the digest of that contract.\<close>

lemma semantic_task_strict:
  assumes "task_post_init parse_iso re_ok t = Inr ()" and "ct_task_kind t \<in> set GENERATE_KINDS"
    and "ct_operation t \<in> set SEMANTIC_OPERATIONS"
  shows "\<exists>mr oc q digest. ct_model_request t = Some mr \<and> ct_embedding_request t = None
     \<and> jget_default mr ''mode'' (jget mr ''structured_output_mode'') = JStr ''strict_json_schema''
     \<and> jget mr ''output_contract'' = JObj oc
     \<and> validate_strict_requirement re_ok (jget mr ''structured_output_requirement'') (JObj oc) = Inr q
     \<and> jget oc ''schema_digest'' = JStr digest
     \<and> (\<exists>sg. ct_structured_generation t = Some sg \<and> jget sg ''contract_digest'' = JStr digest)"
proof -
  from assms obtain mr where mr: "ct_model_request t = Some mr" "ct_embedding_request t = None"
    and ok: "check_model_request re_ok (ct_operation t) (ct_structured_generation t) mr = Inr ()"
    by (auto simp: task_post_init_def res_simps split: option.splits)
  define mode where "mode = jget_default mr ''mode'' (jget mr ''structured_output_mode'')"
  from ok assms(3) have sem: "check_semantic re_ok (ct_structured_generation t) mode
      (jget mr ''structured_output_requirement'') (jget mr ''output_contract'') = Inr ()"
    by (clarsimp simp: check_model_request_def res_simps Let_def mode_def)
  then obtain q where q: "validate_strict_requirement re_ok (jget mr ''structured_output_requirement'')
      (jget mr ''output_contract'') = Inr q" and mode: "mode = JStr ''strict_json_schema''"
    by (auto simp: check_semantic_def res_simps STRICT_JSON_SCHEMA_MODE_def split: sum.splits)
  define sg where "sg = (case ct_structured_generation t of None \<Rightarrow> [] | Some d \<Rightarrow> d)"
  define out where "out = (case jget mr ''output_contract'' of JObj d \<Rightarrow> jget d ''schema_digest'' | _ \<Rightarrow> JNull)"
  from sem q have str: "is_str (jget sg ''contract_digest'')" and eq: "jget sg ''contract_digest'' = out"
    unfolding sg_def out_def check_semantic_def by (auto simp: res_simps Let_def)
  from str obtain digest where d: "jget sg ''contract_digest'' = JStr digest"
    by (cases "jget sg ''contract_digest''") (simp_all add: is_str_def)
  with eq obtain oc where "jget mr ''output_contract'' = JObj oc" "jget oc ''schema_digest'' = JStr digest"
    by (cases "jget mr ''output_contract''") (simp_all add: out_def)
  moreover from d have "ct_structured_generation t = Some sg"
    by (cases "ct_structured_generation t") (simp_all add: sg_def)
  ultimately show ?thesis using mr q mode d unfolding mode_def by auto
qed

lemma semantic_task_valid:
  "\<exists>digest. canonical_digest (JObj example_schema) = Inr digest
     \<and> task_post_init utc_only (\<lambda>_. True) (semantic_task digest) = Inr ()"
proof -
  obtain digest where d: "canonical_digest (JObj example_schema) = Inr digest"
    by (simp add: canonical_digest_def example_schema_def)
  have facts: "timestamp_check utc_only ''2026-02-18T08:26:40Z'' ''expires_at'' = Inr ''2026-02-18T08:26:40Z''"
    "\<not> blank ''task-2''" "\<not> blank ''round_semantic''" "\<not> blank ''space-1''" "\<not> blank ''user''" "\<not> blank ''hi''"
    by code_simp+
  have "strict_requirement_for_contract (\<lambda>_. True) (semantic_contract digest)
      = Inr \<lparr>sr_schema_version = JInt 1, sr_schema = example_schema, sr_schema_digest = digest\<rparr>"
    by (simp add: strict_requirement_for_contract_def semantic_contract_def example_schema_valid d
        jget_default_def)
  then have sem: "check_semantic (\<lambda>_. True) (Some [(''contract_digest'', JStr digest)]) (JStr ''strict_json_schema'')
      JNull (JObj (semantic_contract digest)) = Inr ()"
    by (simp add: check_semantic_def validate_strict_requirement_def STRICT_JSON_SCHEMA_MODE_def
        is_str_def) (simp add: semantic_contract_def)
  have "task_post_init utc_only (\<lambda>_. True) (semantic_task digest) = Inr ()"
    by (simp add: task_post_init_def semantic_task_def required_def facts check_option_def TASK_KINDS_def
        GENERATE_KINDS_def check_model_request_def strict_mapping_def check_response_format_def
        object_or_none_def jget_default_def check_mode_def SEMANTIC_OPERATIONS_def sem required_or_none_def
        bad_count_def check_message_def Let_def)
  with d show ?thesis by blast
qed

end
