(* ===== verification/CoreTaskExecutor.thy ===== *)
theory CoreTaskExecutor
  imports Contracts
begin

text \<open>
  The task executor (\<^verbatim>\<open>inference/core_task_executor.py\<close>, with \<^verbatim>\<open>StoreBackedProfileResolver\<close> of
  \<^verbatim>\<open>inference/profile_slots.py\<close>): it dispatches on the kind of a task, calls a provider in a bounded
  thread, and turns every outcome into a result with a content-free audit record.

  The JSON provider and the embedding provider are parameters. A call of theirs is what
  \<open>run_bounded\<close> sees of it: whether the token was cancelled before it started, how the wait for the
  thread ended, and what the work returned or raised. Constraints that the pydantic models put on
  fields (lengths, ranges) are those of a third-party package and hold of the values given.
\<close>

section \<open>Tasks, results, failures\<close>

text \<open>
  What the classifier tells apart of an exception: the classes of timeout and cancellation, and for
  any other its attributes \<^verbatim>\<open>code\<close> and \<^verbatim>\<open>profile_id\<close>, where they are texts.
\<close>

datatype exec_error =
    ExecutionTimeoutError
  | ProviderTimeoutError "string option"
  | ExecutionCancelledError
  | ProviderCancelledError "string option"
  | ExecFailure "string option" "string option"

datatype wait_end = Finished | CancelSeen | DeadlinePassed

type_synonym 'a call = "bool \<times> wait_end \<times> (exec_error + 'a)"

record model_request_spec =
  mq_messages :: "(string \<times> string) list"
  mq_max_output_tokens :: nat
  mq_response_format :: "(string \<times> json) list option"
  mq_output_contract :: "(string \<times> json) list option"
  mq_structured_output_requirement :: "(string \<times> json) list option"
  mq_mode :: string
  mq_tool_name :: "string option"
  mq_metadata :: "(string \<times> json) list"
  mq_seed :: "nat option"

record embedding_request_spec =
  eq_texts :: "string list"
  eq_purpose :: string
  eq_subject_refs :: "string list option"
  eq_dimensions :: "nat option"
  eq_profile_fingerprint :: "string option"
  eq_config_fingerprint :: "string option"
  eq_privacy_class :: string
  eq_cache_namespace :: string
  eq_cache_keys :: "string list option"
  eq_deadline :: "string option"
  eq_role :: "string option"
  eq_renderer_version :: "string option"

record generic_execution_task =
  gt_task_id :: string
  gt_task_kind :: string
  gt_operation :: "string option"
  gt_profile_slot :: string
  gt_model_request :: "model_request_spec option"
  gt_embedding_request :: "embedding_request_spec option"
  gt_expires_at :: "string option"
  gt_lease :: "(string \<times> json) list option"
  gt_operation_input :: "(string \<times> json) list option"
  gt_structured_generation :: "(string \<times> json) list option"

record egress_audit_record =
  ea_task_id :: string
  ea_task_kind :: string
  ea_profile_id :: "string option"
  ea_provider :: "string option"
  ea_model :: "string option"
  ea_input_bytes :: nat
  ea_output_bytes :: nat
  ea_status :: string
  ea_input_tokens :: "int option"
  ea_output_tokens :: "int option"
  ea_total_tokens :: "int option"
  ea_usage_unknown :: bool

record embedding_batch =
  eb_vectors :: "json list list"
  eb_model :: string
  eb_model_version :: string
  eb_dimensions :: nat
  eb_purpose :: string
  eb_role :: "string option"
  eb_renderer_version :: "string option"

record generic_execution_result =
  gr_task_id :: string
  gr_task_kind :: string
  gr_operation :: "string option"
  gr_operation_input :: "(string \<times> json) list option"
  gr_status :: string
  gr_output :: "(string \<times> json) list option"
  gr_embedding_result :: "embedding_batch option"
  gr_egress_audit :: egress_audit_record
  gr_error_code :: "string option"
  gr_raw_model_text :: "string option"
  gr_structured_output_mode :: "string option"
  gr_contract_digest :: "string option"
  gr_tool_name :: "string option"
  gr_metadata :: "(string \<times> json) list"

definition new_executor_timeouts :: "int \<Rightarrow> int \<Rightarrow> (int \<times> int) res" where
  "new_executor_timeouts generate_json embed_texts =
     raise_if (generate_json \<le> 0) (ValueError ''generate_json_timeout_seconds must be positive'')
     (raise_if (embed_texts \<le> 0) (ValueError ''embed_texts_timeout_seconds must be positive'')
     (Inr (generate_json, embed_texts)))"

text \<open>
  A call whose token is cancelled before it starts does not start. A wait that ends by cancellation or
  at the deadline raises, whatever the work still does.
\<close>

definition run_bounded :: "'a call \<Rightarrow> exec_error + 'a" where
  "run_bounded c = (case c of (cancelled, wait, outcome) \<Rightarrow>
     if cancelled then Inl (ProviderCancelledError None)
     else case wait of
       CancelSeen \<Rightarrow> Inl ExecutionCancelledError
     | DeadlinePassed \<Rightarrow> Inl ExecutionTimeoutError
     | Finished \<Rightarrow> outcome)"

definition error_category :: "string \<Rightarrow> string" where
  "error_category error_code =
     (if error_code \<in> {''provider_timeout'', ''provider_transport_error'', ''provider_unavailable'',
          ''transport_error'', ''transient_provider_error'', ''timeout''} then ''transport_failure''
      else if error_code \<in> {''invalid_json_response'', ''invalid_provider_response''} then ''json_parse_failure''
      else if error_code = ''length_truncation'' then ''json_parse_failure''
      else if error_code \<in> {''invalid_model_output'', ''schema_shape_failure''} then ''schema_shape_failure''
      else if error_code \<in> {''semantic_validation_failure'', ''semantic_output_invalid'',
          ''semantic_repair_rejected''} then ''semantic_validation_failure''
      else if error_code \<in> {''language_fidelity_failure'', ''language_mismatch''} then ''language_fidelity_failure''
      else if error_code \<in> {''grounding_failure'', ''claim_grounding_failure'', ''unknown_anchor_ref'',
          ''unknown_candidate_id''} then ''grounding_failure''
      else if error_code \<in> {''authentication_error'', ''configuration_error'',
          ''provider_capability_unverified'', ''secret_missing''} then ''transport_failure''
      else if prefix ''provider_'' error_code then ''transport_failure'' else ''schema_shape_failure'')"

definition failed_result ::
  "generic_execution_task \<Rightarrow> string \<Rightarrow> nat \<Rightarrow> string option \<Rightarrow> string \<Rightarrow> generic_execution_result" where
  "failed_result t error_code input_bytes profile_id status =
     \<lparr>gr_task_id = gt_task_id t, gr_task_kind = gt_task_kind t, gr_operation = gt_operation t,
      gr_operation_input = gt_operation_input t, gr_status = status, gr_output = None,
      gr_embedding_result = None,
      gr_egress_audit = \<lparr>ea_task_id = gt_task_id t, ea_task_kind = gt_task_kind t,
        ea_profile_id = profile_id, ea_provider = None, ea_model = None, ea_input_bytes = input_bytes,
        ea_output_bytes = 0, ea_status = status, ea_input_tokens = None, ea_output_tokens = None,
        ea_total_tokens = None, ea_usage_unknown = True\<rparr>,
      gr_error_code = Some error_code, gr_raw_model_text = None, gr_structured_output_mode = None,
      gr_contract_digest = None, gr_tool_name = None,
      gr_metadata = [(''error_category'', JStr (error_category error_code))]\<rparr>"

definition unknown_kind_result :: "generic_execution_task \<Rightarrow> generic_execution_result" where
  "unknown_kind_result t = failed_result t ''unknown_task_kind'' 0 None ''unknown_task_kind''"

definition failure_result ::
  "generic_execution_task \<Rightarrow> exec_error \<Rightarrow> nat \<Rightarrow> string option \<Rightarrow> generic_execution_result" where
  "failure_result t e input_bytes profile_id =
     (case e of
        ExecutionTimeoutError \<Rightarrow> failed_result t ''timeout'' input_bytes profile_id ''timeout''
      | ProviderTimeoutError _ \<Rightarrow> failed_result t ''timeout'' input_bytes profile_id ''timeout''
      | ExecutionCancelledError \<Rightarrow> failed_result t ''cancelled'' input_bytes profile_id ''cancelled''
      | ProviderCancelledError _ \<Rightarrow> failed_result t ''cancelled'' input_bytes profile_id ''cancelled''
      | ExecFailure code _ \<Rightarrow>
          failed_result t (case code of Some c \<Rightarrow> if c = [] then ''execution_failed'' else c
            | None \<Rightarrow> ''execution_failed'') input_bytes profile_id ''failed'')"

definition resolved_profile_id :: "exec_error \<Rightarrow> string option" where
  "resolved_profile_id e =
     (let p = (case e of ProviderTimeoutError p \<Rightarrow> p | ProviderCancelledError p \<Rightarrow> p
        | ExecFailure _ p \<Rightarrow> p | _ \<Rightarrow> None)
      in case p of Some i \<Rightarrow> if i = [] then None else Some i | None \<Rightarrow> None)"

section \<open>Generation\<close>

record structured_result =
  sj_data :: "(string \<times> json) list"
  sj_raw_text :: string
  sj_profile_id :: string
  sj_provider :: string
  sj_model :: string
  sj_attempts :: nat
  sj_request_bytes :: nat
  sj_response_bytes :: nat
  sj_status_code :: nat
  sj_structured_output_mode :: string
  sj_contract_digest :: "string option"
  sj_tool_name :: "string option"
  sj_metadata :: "(string \<times> json) list"
  sj_token_usage :: "(string \<times> json) list option"
  sj_normalized_usage :: "(string \<times> json) list"

definition text_or_none :: "json \<Rightarrow> json" where
  "text_or_none v = (if is_str v \<and> truthy v then v else JNull)"

definition provider_request_id :: "structured_result \<Rightarrow> json" where
  "provider_request_id r = text_or_none
     (jget_default (sj_metadata r) ''provider_request_id'' (jget (sj_metadata r) ''request_id''))"

definition finish_reason :: "structured_result \<Rightarrow> json" where
  "finish_reason r = text_or_none (jget (sj_metadata r) ''finish_reason'')"

text \<open>The arguments of the provider that the executor computes; the others are the fields of the spec.\<close>

record generation_call =
  gc_memory_space_id :: string
  gc_spec :: model_request_spec
  gc_profile_slot :: string
  gc_operation :: "string option"
  gc_root_task_id :: json
  gc_attempt_kind :: string
  gc_attempt_index :: int
  gc_request_reason :: string
  gc_force_provider_fallback :: bool

definition memory_space_id :: "generic_execution_task \<Rightarrow> string" where
  "memory_space_id t = (case gt_lease t of
     None \<Rightarrow> [] | Some d \<Rightarrow> (case jget d ''memory_space_id'' of JStr s \<Rightarrow> s | _ \<Rightarrow> []))"

text \<open>\<^verbatim>\<open>in\<close> on a set raises on an attempt kind that is an array or an object.\<close>

definition telemetry_operation :: "generic_execution_task \<Rightarrow> string option res" where
  "telemetry_operation t =
     (case gt_structured_generation t of
        Some d \<Rightarrow> rbind (in_texts (jget d ''attempt_kind'') [''repair'', ''empty_recheck'']) (\<lambda>repair.
          Inr (if repair then Some ''semantic_repair'' else gt_operation t))
      | None \<Rightarrow> Inr (gt_operation t))"

definition generation_call_of ::
  "generic_execution_task \<Rightarrow> model_request_spec \<Rightarrow> string option \<Rightarrow> bool \<Rightarrow> generation_call" where
  "generation_call_of t spec operation force =
     (let d = (case gt_structured_generation t of None \<Rightarrow> [] | Some d \<Rightarrow> d);
          attempt_kind = (case jget d ''attempt_kind'' of JNull \<Rightarrow> ''primary'' | v \<Rightarrow> py_str v);
          root = jget d ''root_task_id''
      in \<lparr>gc_memory_space_id = memory_space_id t, gc_spec = spec, gc_profile_slot = gt_profile_slot t,
          gc_operation = operation,
          gc_root_task_id = (if truthy root then root else JStr (gt_task_id t)),
          gc_attempt_kind = attempt_kind,
          gc_attempt_index = (case int_of (jget d ''attempt_number'') of Some i \<Rightarrow> i | None \<Rightarrow> 0),
          gc_request_reason = (if attempt_kind \<in> {''repair'', ''empty_recheck''} then ''semantic_repair''
            else if operation = Some ''agent_generation'' then ''agent_generation'' else ''primary''),
          gc_force_provider_fallback = (force \<or> attempt_kind = ''empty_recheck'')\<rparr>)"

definition model_request_bytes :: "model_request_spec \<Rightarrow> nat" where
  "model_request_bytes spec = length (json_dumps (sort_keys (JObj
     [(''messages'', JArr (map (\<lambda>(role, content). JObj [(''role'', JStr role), (''content'', JStr content)])
         (mq_messages spec))),
      (''max_output_tokens'', JInt (int (mq_max_output_tokens spec))),
      (''output_contract'', opt_obj (mq_output_contract spec)), (''mode'', JStr (mq_mode spec)),
      (''tool_name'', opt_str (mq_tool_name spec))])))"

definition usage_int :: "(string \<times> json) list \<Rightarrow> string \<Rightarrow> int option" where
  "usage_int usage key = (case jget usage key of JInt i \<Rightarrow> Some i | _ \<Rightarrow> None)"

text \<open>\<^verbatim>\<open>{**d, k: v, ...}\<close>.\<close>

definition dict_merge :: "(string \<times> json) list \<Rightarrow> (string \<times> json) list \<Rightarrow> (string \<times> json) list" where
  "dict_merge d ps = foldl (\<lambda>d (k, v). AList.update k v d) d ps"

definition execute_generate_json ::
  "(generation_call \<Rightarrow> structured_result call) \<Rightarrow> bool \<Rightarrow> generic_execution_task \<Rightarrow> generic_execution_result res" where
  "execute_generate_json json_provider force t =
     (case gt_model_request t of
        None \<Rightarrow> Inr (failed_result t ''invalid_request'' 0 None ''failed'')
      | Some spec \<Rightarrow>
          rbind (telemetry_operation t) (\<lambda>operation.
          let input_bytes = model_request_bytes spec in
          Inr (case run_bounded (json_provider (generation_call_of t spec operation force)) of
            Inl e \<Rightarrow> failure_result t e input_bytes (resolved_profile_id e)
          | Inr r \<Rightarrow>
              \<lparr>gr_task_id = gt_task_id t, gr_task_kind = gt_task_kind t, gr_operation = gt_operation t,
               gr_operation_input = gt_operation_input t, gr_status = ''completed'',
               gr_output = Some (sj_data r), gr_embedding_result = None,
               gr_egress_audit = \<lparr>ea_task_id = gt_task_id t, ea_task_kind = gt_task_kind t,
                 ea_profile_id = Some (sj_profile_id r), ea_provider = Some (sj_provider r), ea_model = Some (sj_model r),
                 ea_input_bytes = input_bytes, ea_output_bytes = sj_response_bytes r, ea_status = ''completed'',
                 ea_input_tokens = usage_int (sj_normalized_usage r) ''input_tokens'',
                 ea_output_tokens = usage_int (sj_normalized_usage r) ''output_tokens'',
                 ea_total_tokens = usage_int (sj_normalized_usage r) ''total_tokens'',
                 ea_usage_unknown = truthy (jget_default (sj_normalized_usage r) ''usage_unknown'' (JBool True))\<rparr>,
               gr_error_code = None, gr_raw_model_text = Some (sj_raw_text r),
               gr_structured_output_mode = Some (sj_structured_output_mode r),
               gr_contract_digest = sj_contract_digest r, gr_tool_name = sj_tool_name r,
               gr_metadata = dict_merge (sj_metadata r) [(''parsed_json'', JObj (sj_data r)),
                 (''raw_text'', JStr (sj_raw_text r)), (''provider_request_id'', provider_request_id r),
                 (''finish_reason'', finish_reason r), (''transport_error'', JNull)]\<rparr>)))"

section \<open>Embeddings\<close>

record inference_profile =
  pf_profile_id :: string
  pf_model :: string
  pf_base_url :: "string option"
  pf_provider_kind :: string
  pf_enabled :: bool

text \<open>The resolver over the profile store, whose two lookups are arguments.\<close>

definition resolve_profile ::
  "(string \<Rightarrow> string \<Rightarrow> string option) \<Rightarrow> (string \<Rightarrow> inference_profile option) \<Rightarrow> string \<Rightarrow> string
     \<Rightarrow> exec_error + inference_profile" where
  "resolve_profile get_slot get space slot =
     (case get_slot space slot of
        None \<Rightarrow> Inl (ExecFailure (Some ''profile_missing'') None)
      | Some i \<Rightarrow>
         (case get i of
            None \<Rightarrow> Inl (ExecFailure (Some ''profile_missing'') (Some i))
          | Some p \<Rightarrow> if pf_enabled p then Inr p else Inl (ExecFailure (Some ''profile_missing'') (Some i))))"

record embedding_batch_request =
  br_texts :: "string list"
  br_profile :: inference_profile
  br_purpose :: string
  br_dimensions :: "nat option"
  br_cache_keys :: "string list option"
  br_cache_namespace :: string
  br_profile_fingerprint :: "string option"
  br_config_fingerprint :: "string option"
  br_privacy_class :: string
  br_deadline :: "string option"
  br_role :: "string option"
  br_renderer_version :: "string option"

definition batch_request_of :: "embedding_request_spec \<Rightarrow> inference_profile \<Rightarrow> embedding_batch_request" where
  "batch_request_of spec profile =
     \<lparr>br_texts = eq_texts spec, br_profile = profile, br_purpose = eq_purpose spec,
      br_dimensions = eq_dimensions spec, br_cache_keys = eq_cache_keys spec,
      br_cache_namespace = (if eq_cache_namespace spec = [] then eq_privacy_class spec else eq_cache_namespace spec),
      br_profile_fingerprint = eq_profile_fingerprint spec,
      br_config_fingerprint = eq_config_fingerprint spec, br_privacy_class = eq_privacy_class spec,
      br_deadline = eq_deadline spec, br_role = eq_role spec, br_renderer_version = eq_renderer_version spec\<rparr>"

definition text_bytes :: "embedding_request_spec \<Rightarrow> nat" where
  "text_bytes spec = sum_list (map length (eq_texts spec))"

definition embedding_bytes :: "embedding_batch \<Rightarrow> nat" where
  "embedding_bytes b = length (eb_vectors b) * eb_dimensions b * 4"

text \<open>One batch of vectors turned into the result of its task.\<close>

definition embedding_result ::
  "generic_execution_task \<Rightarrow> embedding_request_spec \<Rightarrow> inference_profile \<Rightarrow> embedding_batch \<Rightarrow> generic_execution_result" where
  "embedding_result t spec profile b =
     (if eq_dimensions spec \<noteq> None \<and> Some (eb_dimensions b) \<noteq> eq_dimensions spec
      then failed_result t ''embedding_dimension_mismatch'' (text_bytes spec) (Some (pf_profile_id profile)) ''failed''
      else \<lparr>gr_task_id = gt_task_id t, gr_task_kind = gt_task_kind t, gr_operation = gt_operation t,
         gr_operation_input = gt_operation_input t, gr_status = ''completed'', gr_output = None,
         gr_embedding_result = Some b,
         gr_egress_audit = \<lparr>ea_task_id = gt_task_id t, ea_task_kind = gt_task_kind t,
           ea_profile_id = Some (pf_profile_id profile), ea_provider = Some ''local'',
           ea_model = Some (eb_model b), ea_input_bytes = text_bytes spec,
           ea_output_bytes = embedding_bytes b, ea_status = ''completed'', ea_input_tokens = None,
           ea_output_tokens = None, ea_total_tokens = None, ea_usage_unknown = True\<rparr>,
         gr_error_code = None, gr_raw_model_text = None, gr_structured_output_mode = None,
         gr_contract_digest = None, gr_tool_name = None, gr_metadata = []\<rparr>)"

text \<open>The providers and the resolver an executor was built with.\<close>

record executor =
  ex_json_provider :: "generation_call \<Rightarrow> structured_result call"
  ex_embed_many :: "embedding_batch_request list \<Rightarrow> embedding_batch list call"
  ex_resolve :: "string \<Rightarrow> string \<Rightarrow> exec_error + inference_profile"

definition task_profile :: "executor \<Rightarrow> generic_execution_task \<Rightarrow> exec_error + inference_profile" where
  "task_profile x t = ex_resolve x (memory_space_id t) (gt_profile_slot t)"

definition execute_embed_texts :: "executor \<Rightarrow> generic_execution_task \<Rightarrow> generic_execution_result" where
  "execute_embed_texts x t =
     (case gt_embedding_request t of
        None \<Rightarrow> failed_result t ''invalid_request'' 0 None ''failed''
      | Some spec \<Rightarrow>
         (case task_profile x t of
            Inl e \<Rightarrow> failure_result t e (text_bytes spec) (resolved_profile_id e)
          | Inr profile \<Rightarrow>
             (case run_bounded (ex_embed_many x [batch_request_of spec profile]) of
                Inl e \<Rightarrow> failure_result t e (text_bytes spec)
                  (case resolved_profile_id e of Some i \<Rightarrow> Some i | None \<Rightarrow> Some (pf_profile_id profile))
              | Inr [] \<Rightarrow> failure_result t (ExecFailure None None) (text_bytes spec) (Some (pf_profile_id profile))
              | Inr (b # _) \<Rightarrow> embedding_result t spec profile b)))"

definition execute :: "executor \<Rightarrow> bool \<Rightarrow> generic_execution_task \<Rightarrow> generic_execution_result res" where
  "execute x force t =
     (if gt_task_kind t \<in> {''generate_json'', ''object_resolution''}
      then execute_generate_json (ex_json_provider x) force t
      else if gt_task_kind t = ''embed_texts'' then Inr (execute_embed_texts x t)
      else Inr (unknown_kind_result t))"

section \<open>Batches\<close>

text \<open>What two requests must agree on to share a call of the embedder.\<close>

definition batch_key where
  "batch_key profile spec = (pf_profile_id profile, pf_model profile, pf_base_url profile, pf_provider_kind profile,
     eq_profile_fingerprint spec, eq_config_fingerprint spec, eq_dimensions spec, eq_privacy_class spec,
     eq_cache_namespace spec, eq_deadline spec, eq_role spec, eq_renderer_version spec)"

text \<open>The profiles resolved before the first failure, and that failure.\<close>

fun resolve_profiles ::
  "executor \<Rightarrow> generic_execution_task list \<Rightarrow> inference_profile list \<times> exec_error option" where
  "resolve_profiles x [] = ([], None)"
| "resolve_profiles x (t # ts) =
     (case task_profile x t of
        Inl e \<Rightarrow> ([], Some e)
      | Inr p \<Rightarrow> let (ps, e) = resolve_profiles x ts in (p # ps, e))"

text \<open>
  The handler of the batch: it zips the tasks strictly with the profiles found so far, or with as many
  absent ones when there are none.
\<close>

definition batch_failure ::
  "(generic_execution_task \<times> embedding_request_spec) list \<Rightarrow> inference_profile list \<Rightarrow> exec_error
     \<Rightarrow> generic_execution_result list res" where
  "batch_failure tasks profiles e =
     (let ps = (if profiles = [] then replicate (length tasks) None else map Some profiles) in
      raise_if (length ps \<noteq> length tasks) (ValueError ''zip() argument 3 is shorter than arguments 1-2'')
      (Inr (map (\<lambda>((t, spec), p). failure_result t e (text_bytes spec) (map_option pf_profile_id p))
         (zip tasks ps))))"

text \<open>
  Tasks executed one after the other: \<open>later i\<close> is the executor as the \<open>i\<close>-th of them finds it, since a
  timeout of one cancels the token the next ones start with.
\<close>

definition execute_each :: "(nat \<Rightarrow> executor) \<Rightarrow> generic_execution_task list \<Rightarrow> generic_execution_result list res" where
  "execute_each later tasks = rmap (\<lambda>(i, t). execute (later i) False t) (enumerate 0 tasks)"

definition execute_embed_texts_batch ::
  "executor \<Rightarrow> (nat \<Rightarrow> executor) \<Rightarrow> generic_execution_task list \<Rightarrow> generic_execution_result list res" where
  "execute_embed_texts_batch x later tasks =
     (if list_ex (\<lambda>t. gt_embedding_request t = None) tasks
      then Inr (map (\<lambda>t. failed_result t ''invalid_request'' 0 None ''failed'') tasks)
      else
        let typed = map (\<lambda>t. (t, the (gt_embedding_request t))) tasks;
            (profiles, failure) = resolve_profiles x tasks
        in case failure of
          Some e \<Rightarrow> batch_failure typed profiles e
        | None \<Rightarrow>
            let keys = map2 batch_key profiles (map snd typed) in
            if list_ex (\<lambda>k. k \<noteq> hd keys) keys then execute_each later tasks
            else case run_bounded (ex_embed_many x (map2 batch_request_of (map snd typed) profiles)) of
              Inl e \<Rightarrow> batch_failure typed profiles e
            | Inr batches \<Rightarrow>
                if length batches \<noteq> length tasks then batch_failure typed profiles (ExecFailure None None)
                else Inr (map (\<lambda>(((t, spec), p), b). embedding_result t spec p b)
                  (zip (zip typed profiles) batches)))"

definition execute_batch ::
  "executor \<Rightarrow> (nat \<Rightarrow> executor) \<Rightarrow> generic_execution_task list \<Rightarrow> generic_execution_result list res" where
  "execute_batch x later tasks =
     (if tasks = [] then Inr []
      else if list_all (\<lambda>t. gt_task_kind t = ''embed_texts'') tasks then execute_embed_texts_batch x later tasks
      else execute_each later tasks)"

section \<open>Results belong to their tasks\<close>

definition identified :: "generic_execution_task \<Rightarrow> generic_execution_result \<Rightarrow> bool" where
  "identified t r \<longleftrightarrow> gr_task_id r = gt_task_id t \<and> gr_task_kind r = gt_task_kind t
     \<and> gr_operation r = gt_operation t \<and> gr_operation_input r = gt_operation_input t
     \<and> ea_task_id (gr_egress_audit r) = gt_task_id t \<and> ea_task_kind (gr_egress_audit r) = gt_task_kind t
     \<and> ea_status (gr_egress_audit r) = gr_status r"

text \<open>A result that is not a success carries a code and nothing of the provider's answer.\<close>

definition failure :: "generic_execution_result \<Rightarrow> bool" where
  "failure r \<longleftrightarrow> gr_status r \<in> {''failed'', ''timeout'', ''cancelled'', ''unknown_task_kind''}
     \<and> (\<exists>code. gr_error_code r = Some code \<and> code \<noteq> []) \<and> gr_output r = None
     \<and> gr_embedding_result r = None \<and> gr_raw_model_text r = None
     \<and> ea_output_bytes (gr_egress_audit r) = 0"

text \<open>
  The batches whose failure has no result: the first task has a profile and a later one has not.
\<close>

definition stranded :: "executor \<Rightarrow> generic_execution_task list \<Rightarrow> bool" where
  "stranded x tasks \<longleftrightarrow> list_all (\<lambda>t. gt_embedding_request t \<noteq> None) tasks
     \<and> (\<exists>t ts. tasks = t # ts \<and> (\<exists>p. task_profile x t = Inr p)
          \<and> (\<exists>u\<in>set ts. \<exists>e. task_profile x u = Inl e))"

text \<open>An executor that knows one memory space, and two tasks of which the second is in another one.\<close>

definition one_space :: executor where
  "one_space = \<lparr>ex_json_provider = (\<lambda>_. (False, DeadlinePassed, Inl ExecutionTimeoutError)),
     ex_embed_many = (\<lambda>rs. (False, Finished, Inr (map (\<lambda>r. \<lparr>eb_vectors = map (\<lambda>_. [JInt 0, JInt 1]) (br_texts r),
       eb_model = ''m'', eb_model_version = ''1'', eb_dimensions = 2, eb_purpose = br_purpose r,
       eb_role = br_role r, eb_renderer_version = br_renderer_version r\<rparr>) rs))),
     ex_resolve = (\<lambda>space slot. if space = ''known'' then Inr \<lparr>pf_profile_id = ''p'', pf_model = ''m'',
       pf_base_url = None, pf_provider_kind = ''local'', pf_enabled = True\<rparr>
       else Inl (ExecFailure (Some ''profile_missing'') None))\<rparr>"

definition embed_task :: "string \<Rightarrow> string \<Rightarrow> generic_execution_task" where
  "embed_task ident space = \<lparr>gt_task_id = ident, gt_task_kind = ''embed_texts'', gt_operation = None,
     gt_profile_slot = ''embedding'', gt_model_request = None,
     gt_embedding_request = Some \<lparr>eq_texts = [''hi''], eq_purpose = ''value_record'', eq_subject_refs = None,
       eq_dimensions = Some 2, eq_profile_fingerprint = None, eq_config_fingerprint = None,
       eq_privacy_class = ''default'', eq_cache_namespace = [], eq_cache_keys = None, eq_deadline = None,
       eq_role = None, eq_renderer_version = None\<rparr>,
     gt_expires_at = None, gt_lease = Some [(''memory_space_id'', JStr space)], gt_operation_input = None,
     gt_structured_generation = None\<rparr>"

lemma failed_result_simps [simp]:
  "identified t (failed_result t c n p s)"
  "gr_task_id (failed_result t c n p s) = gt_task_id t"
  "gr_status (failed_result t c n p s) = s"
  by (simp_all add: identified_def failed_result_def)

lemma failed_result_failure:
  "s \<in> {''failed'', ''timeout'', ''cancelled'', ''unknown_task_kind''} \<Longrightarrow> c \<noteq> [] \<Longrightarrow> failure (failed_result t c n p s)"
  by (auto simp: failure_def failed_result_def)

lemma failure_result_simps [simp]:
  "identified t (failure_result t e n p)" "failure (failure_result t e n p)"
  "gr_task_id (failure_result t e n p) = gt_task_id t"
  by (auto simp: failure_result_def intro!: failed_result_failure split: exec_error.split option.split)

lemma embedding_result_simps [simp]:
  "identified t (embedding_result t spec p b)" "gr_task_id (embedding_result t spec p b) = gt_task_id t"
  by (simp_all add: embedding_result_def identified_def) (simp_all add: failed_result_def)

lemma embedding_result_cases:
  "failure (embedding_result t spec p b)
   \<or> gr_status (embedding_result t spec p b) = ''completed'' \<and> gr_error_code (embedding_result t spec p b) = None
     \<and> gr_output (embedding_result t spec p b) = None \<and> gr_embedding_result (embedding_result t spec p b) = Some b"
  by (auto simp: embedding_result_def intro!: failed_result_failure)

lemma resolve_profiles_None:
  "resolve_profiles x ts = (ps, None) \<Longrightarrow> length ps = length ts \<and> (\<forall>t\<in>set ts. \<exists>p. task_profile x t = Inr p)"
  by (induction ts arbitrary: ps) (auto split: sum.splits prod.splits)

lemma resolve_profiles_Some:
  "resolve_profiles x ts = (ps, Some e) \<Longrightarrow> length ps < length ts
     \<and> (ps = [] \<longleftrightarrow> (\<exists>e. task_profile x (hd ts) = Inl e)) \<and> (\<exists>t\<in>set ts. \<exists>e. task_profile x t = Inl e)"
proof (induction ts arbitrary: ps)
  case (Cons t ts)
  then show ?case by (cases "task_profile x t") (fastforce split: prod.splits)+
qed simp

text \<open>The result of an embedding task: its own, and either a failure or one batch of vectors.\<close>

definition embedded :: "generic_execution_task \<Rightarrow> generic_execution_result \<Rightarrow> bool" where
  "embedded t r \<longleftrightarrow> identified t r \<and> (failure r
     \<or> gr_status r = ''completed'' \<and> gr_error_code r = None \<and> gr_output r = None \<and> gr_embedding_result r \<noteq> None)"

lemma embedded_simps [simp]:
  "embedded t (failure_result t e n p)" "embedded t (embedding_result t spec q b)"
  using embedding_result_cases [of t spec q b] by (auto simp: embedded_def)

lemma batch_failure_embedded:
  assumes "profiles = [] \<or> length profiles = length tasks"
  shows "\<exists>rs. batch_failure tasks profiles e = Inr rs \<and> list_all2 embedded (map fst tasks) rs"
proof -
  define ps where "ps = (if profiles = [] then replicate (length tasks) None else map Some profiles)"
  have len: "length tasks = length ps" using assms by (auto simp: ps_def)
  then have "list_all2 embedded (map fst tasks)
      (map (\<lambda>((t, spec), p). failure_result t e (text_bytes spec) (map_option pf_profile_id p)) (zip tasks ps))"
    by (induction tasks ps rule: list_induct2) auto
  with len show ?thesis
    unfolding batch_failure_def Let_def ps_def [symmetric] by (simp add: raise_if_def)
qed

lemma execute_embed_texts_cases:
  "identified t (execute_embed_texts x t) \<and> (failure (execute_embed_texts x t)
      \<or> gr_status (execute_embed_texts x t) = ''completed'' \<and> gr_error_code (execute_embed_texts x t) = None
        \<and> gr_output (execute_embed_texts x t) = None \<and> gr_embedding_result (execute_embed_texts x t) \<noteq> None)"
proof (cases "gt_embedding_request t")
  case None
  then show ?thesis by (simp add: execute_embed_texts_def failed_result_failure)
next
  case spec: (Some spec)
  show ?thesis
  proof (cases "task_profile x t")
    case (Inl e)
    with spec show ?thesis by (simp add: execute_embed_texts_def)
  next
    case (Inr profile)
    with spec embedding_result_cases [of t spec profile] show ?thesis
      by (simp add: execute_embed_texts_def split: sum.split list.split) fastforce
  qed
qed

lemma execute_each_embedded:
  assumes "list_all (\<lambda>t. gt_task_kind t = ''embed_texts'') tasks"
  shows "\<exists>rs. execute_each later tasks = Inr rs \<and> list_all2 embedded tasks rs"
proof -
  have "\<exists>rs. rmap (\<lambda>(i, t). execute (later i) False t) (enumerate n tasks) = Inr rs \<and> list_all2 embedded tasks rs" for n
    using assms
  proof (induction tasks arbitrary: n)
    case (Cons t ts)
    then obtain rs where "rmap (\<lambda>(i, t). execute (later i) False t) (enumerate (Suc n) ts) = Inr rs"
      "list_all2 embedded ts rs" by fastforce
    moreover from Cons.prems have "execute (later n) False t = Inr (execute_embed_texts (later n) t)"
      by (simp add: execute_def)
    moreover have "embedded t (execute_embed_texts (later n) t)"
      using execute_embed_texts_cases [of t "later n"] by (simp add: embedded_def)
    ultimately show ?case by simp
  qed simp
  then show ?thesis by (simp add: execute_each_def)
qed

text \<open>The batch once its profiles are known.\<close>

lemma resolved_batch_embedded:
  assumes ok: "list_all (\<lambda>t. gt_task_kind t = ''embed_texts'') tasks"
    and specs: "\<not> list_ex (\<lambda>t. gt_embedding_request t = None) tasks"
    and ps: "resolve_profiles x tasks = (profiles, None)"
  shows "\<exists>rs. execute_embed_texts_batch x later tasks = Inr rs \<and> list_all2 embedded tasks rs"
proof -
  define typed where "typed = map (\<lambda>t. (t, the (gt_embedding_request t))) tasks"
  have typed: "map fst typed = tasks" "length typed = length tasks"
    by (simp_all add: typed_def comp_def)
  have len: "length profiles = length typed" using resolve_profiles_None [OF ps] typed(2) by simp
  have results: "list_all2 embedded (map fst typed) (map (\<lambda>(((t, spec), p), b). embedding_result t spec p b)
      (zip (zip typed profiles) batches))"
    if "length batches = length tasks" for batches
  proof -
    have "length typed = length profiles" "length profiles = length batches"
      using len that typed(2) by simp_all
    then show ?thesis by (induction typed profiles batches rule: list_induct3) auto
  qed
  show ?thesis
    using specs ps execute_each_embedded [OF ok, of later] batch_failure_embedded [of profiles typed] len results
    unfolding execute_embed_texts_batch_def typed_def [symmetric] Let_def typed(1)
    by (auto simp: typed_def [symmetric] typed(1) split: sum.split)
qed

lemma execute_generate_json_cases:
  "case execute_generate_json provider force t of
     Inl e \<Rightarrow> telemetry_operation t = Inl e
   | Inr r \<Rightarrow> identified t r \<and> (failure r \<or> gr_status r = ''completed'' \<and> gr_error_code r = None
       \<and> gr_output r \<noteq> None \<and> gr_embedding_result r = None)"
proof (cases "gt_model_request t")
  case None
  then show ?thesis by (simp add: execute_generate_json_def failed_result_failure)
next
  case spec: (Some spec)
  show ?thesis
  proof (cases "telemetry_operation t")
    case (Inl e)
    with spec show ?thesis by (simp add: execute_generate_json_def)
  next
    case (Inr operation)
    with spec show ?thesis
      by (cases "run_bounded (provider (generation_call_of t spec operation force))")
        (simp_all add: execute_generate_json_def Let_def, simp add: identified_def)
  qed
qed

text \<open>A batch raises exactly when it is stranded.\<close>

lemma batch_outcome:
  assumes "list_all (\<lambda>t. gt_task_kind t = ''embed_texts'') tasks"
  shows "if stranded x tasks then \<exists>m. execute_batch x later tasks = Inl (ValueError m)
    else \<exists>rs. execute_batch x later tasks = Inr rs \<and> list_all2 embedded tasks rs"
proof (cases "tasks = [] \<or> list_ex (\<lambda>t. gt_embedding_request t = None) tasks")
  case True
  moreover have "embedded t (failed_result t ''invalid_request'' 0 None ''failed'')" for t
    by (simp add: embedded_def failed_result_failure)
  ultimately show ?thesis
    using assms
    by (auto simp: execute_batch_def execute_embed_texts_batch_def stranded_def list_ex_iff
        list_all_iff list_all2_map2 intro: list_all2_refl)
next
  case False
  have batch: "execute_batch x later tasks = execute_embed_texts_batch x later tasks"
    using False assms by (simp add: execute_batch_def)
  have specs: "\<not> list_ex (\<lambda>t. gt_embedding_request t = None) tasks" using False by simp
  obtain profiles failure where ps: "resolve_profiles x tasks = (profiles, failure)" by fastforce
  show ?thesis
  proof (cases failure)
    case None
    with resolved_batch_embedded [OF assms specs] ps resolve_profiles_None [of x tasks profiles] show ?thesis
      unfolding batch by (fastforce simp: stranded_def)
  next
    case (Some e)
    note r = resolve_profiles_Some [OF ps [unfolded Some]]
    define typed where "typed = map (\<lambda>t. (t, the (gt_embedding_request t))) tasks"
    have eq: "execute_embed_texts_batch x later tasks = batch_failure typed profiles e"
      using specs ps Some by (simp add: execute_embed_texts_batch_def typed_def)
    show ?thesis
    proof (cases "profiles = []")
      case True
      with r have "\<not> stranded x tasks" by (auto simp: stranded_def)
      with batch_failure_embedded [of profiles typed e] True show ?thesis
        unfolding batch eq by (simp add: typed_def comp_def)
    next
      case nonempty: False
      from False obtain t ts where ts: "tasks = t # ts" by (cases tasks) auto
      with r nonempty obtain p where p: "task_profile x t = Inr p" by (cases "task_profile x t") auto
      with r ts obtain u e' where "u \<in> set ts" "task_profile x u = Inl e'" by auto
      with p ts specs have "stranded x tasks"
        by (auto simp: stranded_def list_ex_iff list_all_iff)
      moreover have "\<exists>m. execute_embed_texts_batch x later tasks = Inl (ValueError m)"
        unfolding eq using nonempty r by (simp add: batch_failure_def typed_def raise_if_def)
      ultimately show ?thesis unfolding batch by simp
    qed
  qed
qed

section \<open>Properties\<close>

text \<open>
  C39. A batch of embedding tasks gives one terminal result per task, in the order of the tasks: each
  result carries the identity of its task and either completes with a batch of vectors or is a failure
  with a code. There is one exception: when the first task has a profile and a later one has none, the
  handler that should turn the failure into results raises a \<^verbatim>\<open>ValueError\<close> itself (its strict \<^verbatim>\<open>zip\<close> finds
  fewer profiles than tasks), so that no task of the batch has a result, the ones that could have run
  included.
\<close>

theorem batch_one_result_per_task:
  assumes "list_all (\<lambda>t. gt_task_kind t = ''embed_texts'') tasks"
  shows "if list_all (\<lambda>t. gt_embedding_request t \<noteq> None) tasks
      \<and> (\<exists>t ts p. tasks = t # ts \<and> task_profile x t = Inr p \<and> (\<exists>u\<in>set ts. \<exists>e. task_profile x u = Inl e))
    then \<exists>m. execute_batch x later tasks = Inl (ValueError m)
    else \<exists>rs. execute_batch x later tasks = Inr rs \<and> list_all2 (\<lambda>t r. identified t r
      \<and> (gr_status r = ''completed'' \<and> gr_error_code r = None \<and> gr_output r = None \<and> gr_embedding_result r \<noteq> None
       \<or> gr_status r \<in> {''failed'', ''timeout'', ''cancelled'', ''unknown_task_kind''}
         \<and> (\<exists>code. gr_error_code r = Some code \<and> code \<noteq> []) \<and> gr_output r = None \<and> gr_embedding_result r = None)) tasks rs"
proof -
  have stranded: "stranded x tasks \<longleftrightarrow> list_all (\<lambda>t. gt_embedding_request t \<noteq> None) tasks
      \<and> (\<exists>t ts p. tasks = t # ts \<and> task_profile x t = Inr p \<and> (\<exists>u\<in>set ts. \<exists>e. task_profile x u = Inl e))"
    by (auto simp: stranded_def)
  from batch_outcome [OF assms, of x later] show ?thesis
    unfolding stranded by (auto simp: embedded_def failure_def elim!: list_all2_mono split: if_splits)
qed

theorem batch_one_result_per_task_witness:
  "\<exists>m. execute_batch one_space (\<lambda>_. one_space) [embed_task ''a'' ''known'', embed_task ''b'' ''other'']
     = Inl (ValueError m)"
  using batch_one_result_per_task [of "[embed_task ''a'' ''known'', embed_task ''b'' ''other'']" one_space "\<lambda>_. one_space"]
  by (simp add: embed_task_def one_space_def task_profile_def memory_space_id_def)

text \<open>
  C40. Every task that is executed gets a result of its own: the result and its audit record carry the
  identity of the task and one status, and either the status is \<open>completed\<close>, there is no error code
  and the result has exactly the part its kind calls for, as the result envelope demands, or it is a
  failure with a code and without any part of the provider's answer. Only a generation task whose
  attempt kind cannot be hashed raises.\<close>

theorem execute_terminal:
  "case execute x force t of
     Inl e \<Rightarrow> telemetry_operation t = Inl e
   | Inr r \<Rightarrow> identified t r \<and>
       (failure r \<or> gr_status r = ''completed'' \<and> gr_error_code r = None
          \<and> check_result_shape (gr_task_kind r) (gr_output r) (gr_embedding_result r) = Inr ())"
proof -
  have unknown: "failure (unknown_kind_result t) \<and> identified t (unknown_kind_result t)"
    by (simp add: unknown_kind_result_def failed_result_failure)
  have invalid: "failure (failed_result t ''invalid_request'' 0 None ''failed'')"
    by (simp add: failed_result_failure)
  have embed: "identified t (execute_embed_texts x t) \<and> (failure (execute_embed_texts x t)
      \<or> gr_status (execute_embed_texts x t) = ''completed'' \<and> gr_error_code (execute_embed_texts x t) = None
        \<and> gr_output (execute_embed_texts x t) = None \<and> gr_embedding_result (execute_embed_texts x t) \<noteq> None)"
    by (rule execute_embed_texts_cases)
  have kind: "gr_task_kind (execute_embed_texts x t) = gt_task_kind t"
    using embed by (simp add: identified_def)
  show ?thesis
  proof (cases "gt_task_kind t \<in> {''generate_json'', ''object_resolution''}")
    case True
    then have "execute x force t = execute_generate_json (ex_json_provider x) force t"
      by (simp add: execute_def)
    with True execute_generate_json_cases [where provider = "ex_json_provider x" and force = force and t = t] show ?thesis
      by (auto simp: check_result_shape_def GENERATE_KINDS_def raise_if_def identified_def split: sum.splits)
  next
    case False
    then show ?thesis
      using unknown embed kind
      by (auto simp: execute_def check_result_shape_def GENERATE_KINDS_def raise_if_def)
  qed
qed

end
