(* ===== verification/ExecutionTaskWire.thy ===== *)
theory ExecutionTaskWire
  imports CoreTaskExecutor
begin

text \<open>
  What the execution task worker puts on and takes from the wire (\<^verbatim>\<open>scheduler/core_execution_task_worker.py\<close>):
  the conversion of a leased task, the payload of a result, and the classification of failures into
  the codes that are reported to Core.

  An exception is what the classifier can see of it: the names of its classes from its own class
  upwards, its message and the attributes \<^verbatim>\<open>code\<close>, \<^verbatim>\<open>detail\<close> and \<^verbatim>\<open>status_code\<close>. Of the pydantic models the
  field constraints are checked as the classes state them; which of several violations a message
  names is not modelled, since every one is a \<^verbatim>\<open>ValidationError\<close> and only its class matters.
\<close>

section \<open>Failures\<close>

record caught =
  ca_classes :: "string list"
  ca_code :: "string option"
  ca_detail :: "string option"
  ca_status_code :: json
  ca_message :: string

definition isinstance :: "caught \<Rightarrow> string list \<Rightarrow> bool" where
  "isinstance e classes = list_ex (\<lambda>c. c \<in> set classes) (ca_classes e)"

definition plain_error :: "string list \<Rightarrow> string \<Rightarrow> caught" where
  "plain_error classes message = \<lparr>ca_classes = classes, ca_code = None, ca_detail = None,
     ca_status_code = JNull, ca_message = message\<rparr>"

definition exn_classes :: "exn \<Rightarrow> string list" where
  "exn_classes e = (case e of
       ValueError _ \<Rightarrow> [''ValueError'']
     | TypeError _ \<Rightarrow> [''TypeError'']
     | KeyError _ \<Rightarrow> [''KeyError'', ''LookupError'']
     | IndexError \<Rightarrow> [''IndexError'', ''LookupError'']
     | RuntimeError _ \<Rightarrow> [''RuntimeError'']
     | JSONDecodeError \<Rightarrow> [''JSONDecodeError'', ''ValueError'']
     | IntegrityError _ \<Rightarrow> [''IntegrityError'', ''DatabaseError'']
     | RawRoundError _ \<Rightarrow> [''RawRoundError'', ''RuntimeError'']
     | RawRoundConflict _ \<Rightarrow> [''RawRoundConflict'', ''RawRoundError'', ''RuntimeError'']
     | RawRoundDigestMismatch _ \<Rightarrow> [''RawRoundDigestMismatch'', ''RawRoundError'', ''RuntimeError'']
     | RawRoundTooLarge _ \<Rightarrow> [''RawRoundTooLarge'', ''RawRoundError'', ''RuntimeError'']
     | SQLiteUnitOfWorkError _ \<Rightarrow> [''SQLiteUnitOfWorkError'', ''RuntimeError'']
     | SQLiteUnitOfWorkInactiveError _ \<Rightarrow> [''SQLiteUnitOfWorkInactiveError'', ''SQLiteUnitOfWorkError'', ''RuntimeError'']
     | MemorySpaceSourceClientChangedError _ \<Rightarrow> [''MemorySpaceSourceClientChangedError'', ''RuntimeError'']
     | MigrationError _ \<Rightarrow> [''MigrationError'', ''RuntimeError'']
     | MigrationVersionError _ \<Rightarrow> [''MigrationVersionError'', ''MigrationError'', ''RuntimeError'']
     | MigrationChecksumError _ \<Rightarrow> [''MigrationChecksumError'', ''MigrationError'', ''RuntimeError'']
     | UnknownMigrationError _ \<Rightarrow> [''UnknownMigrationError'', ''MigrationError'', ''RuntimeError'']
     | TransientCoreError _ \<Rightarrow> [''TransientCoreError'', ''CoreGatewayError'', ''RuntimeError'']
     | DomainRejectedError _ _ \<Rightarrow> [''DomainRejectedError'', ''CoreGatewayError'', ''RuntimeError'']
     | CoreCapabilityError _ \<Rightarrow> [''CoreCapabilityError'', ''CoreGatewayError'', ''RuntimeError'']
     | FrameTooLargeError _ \<Rightarrow> [''FrameTooLargeError'', ''FrameError'', ''ValueError'']
     | FrameTruncatedError _ \<Rightarrow> [''FrameTruncatedError'', ''FrameError'', ''ValueError'']
     | InputBudgetExceededError _ _ \<Rightarrow> [''InputBudgetExceededError'', ''RuntimeError'']
     | OtherError _ \<Rightarrow> [''Exception''])"

definition caught_of :: "exn \<Rightarrow> caught" where
  "caught_of e = \<lparr>ca_classes = exn_classes e,
     ca_code = (case e of DomainRejectedError c _ \<Rightarrow> Some c
       | InputBudgetExceededError _ _ \<Rightarrow> Some ''input_budget_exceeded'' | _ \<Rightarrow> None),
     ca_detail = (case e of DomainRejectedError _ d \<Rightarrow> Some d | _ \<Rightarrow> None),
     ca_status_code = JNull, ca_message = exn_str e\<rparr>"

definition SAFE_ERROR_CODES :: "string list" where
  "SAFE_ERROR_CODES =
    [''execution_error'', ''provider_timeout'', ''provider_transport_error'', ''provider_unavailable'',
     ''provider_configuration_error'', ''provider_secret_missing'', ''provider_error'',
     ''invalid_model_output'', ''invalid_provider_response'', ''invalid_json_response'',
     ''length_truncation'', ''schema_shape_failure'', ''semantic_validation_failure'',
     ''language_fidelity_failure'', ''grounding_failure'', ''invalid_request'',
     ''provider_capability_unverified'', ''secret_missing'', ''input_budget_exceeded'',
     ''output_budget_exceeded'', ''authentication_error'', ''configuration_error'', ''cancelled'',
     ''timeout'', ''transport_error'', ''transient_provider_error'', ''profile_not_found'',
     ''profile_disabled'', ''input_too_large'', ''embedding_provider_error'',
     ''embedding_request_error'', ''embedding_batch_too_large'', ''embedding_text_too_large'',
     ''embedding_non_finite'', ''embedding_dimension_mismatch'', ''embedding_model_error'',
     ''embedding_cache_schema_error'', ''profile_missing'', ''core_unavailable'', ''core_poll_error'',
     ''core_delivery_error'', ''core_rejected_command'', ''core_rejected_stale_execution_task'',
     ''core_rejected_version_conflict'', ''core_rejected_invalid_request'', ''core_rejected_not_found'',
     ''core_rejected_idempotency_conflict'', ''core_rejected_integrity_violation'',
     ''core_rejected_invalid_object_facet_result'', ''core_rejected_unknown_object_candidate'',
     ''core_rejected_unknown_facet'', ''core_rejected_raw_round_conflict'',
     ''core_rejected_value_consolidation_conflict'', ''core_rejected_embedding_version_mismatch'',
     ''core_rejected_object_identity_ambiguous'', ''core_rejected_object_scope_mismatch'',
     ''core_rejected_object_alias_not_in_source'', ''core_rejected_object_candidate_not_offered'',
     ''core_rejected_contour_job_stale'', ''core_rejected_round_semantic_output_shape_invalid'',
     ''core_rejected_round_semantic_user_provenance_invalid'',
     ''core_rejected_round_semantic_execution_provenance_invalid'',
     ''core_rejected_round_semantic_outcome_inconsistent'',
     ''core_rejected_round_semantic_cardinality_exceeded'',
     ''core_rejected_round_semantic_object_ref_invalid'',
     ''core_rejected_round_semantic_object_refs_duplicate'',
     ''core_rejected_round_semantic_object_label_invalid'',
     ''core_rejected_round_semantic_object_description_invalid'',
     ''core_rejected_round_semantic_object_grounding_missing'',
     ''core_rejected_round_semantic_technical_anchors_invalid'',
     ''core_rejected_round_semantic_claim_refs_duplicate'',
     ''core_rejected_round_semantic_claim_object_ref_invalid'',
     ''core_rejected_round_semantic_claim_object_unknown'',
     ''core_rejected_round_semantic_claim_content_invalid'',
     ''core_rejected_round_semantic_claim_evidence_missing'',
     ''core_rejected_round_semantic_claim_refs_invalid'',
     ''core_rejected_structured_contract_digest_missing'',
     ''core_rejected_structured_contract_digest_mismatch'',
     ''core_rejected_structured_contract_missing'', ''core_rejected_structured_contract_invalid'',
     ''core_rejected_structured_contract_mismatch'', ''core_rejected_semantic_task_input_missing'',
     ''core_rejected_semantic_task_input_invalid'', ''core_rejected_semantic_reference_map_missing'',
     ''core_rejected_semantic_reference_map_invalid'', ''core_rejected_structured_attempt_invalid'',
     ''retry_exhausted'', ''expired'', ''permanent_failure'']"

definition INVALID_REQUEST_REASON_MARKERS :: "(string \<times> string) list" where
  "INVALID_REQUEST_REASON_MARKERS =
    [(''round_semantic_user_provenance_invalid:'', ''core_rejected_round_semantic_user_provenance_invalid''),
     (''round_semantic_execution_provenance_invalid:'', ''core_rejected_round_semantic_execution_provenance_invalid''),
     (''round semantic output shape is invalid:'', ''core_rejected_round_semantic_output_shape_invalid''),
     (''round semantic outcome, abstention reason, and candidate arrays are inconsistent'', ''core_rejected_round_semantic_outcome_inconsistent''),
     (''round semantic result exceeds its bounded cardinality'', ''core_rejected_round_semantic_cardinality_exceeded''),
     (''round semantic object refs must be unique'', ''core_rejected_round_semantic_object_refs_duplicate''),
     (''round semantic object ref'', ''core_rejected_round_semantic_object_ref_invalid''),
     (''round object label'', ''core_rejected_round_semantic_object_label_invalid''),
     (''round object description'', ''core_rejected_round_semantic_object_description_invalid''),
     (''object_missing_grounding_refs:'', ''core_rejected_round_semantic_object_grounding_missing''),
     (''round technical_anchors'', ''core_rejected_round_semantic_technical_anchors_invalid''),
     (''round claim refs must be unique'', ''core_rejected_round_semantic_claim_refs_duplicate''),
     (''round claim references unknown object '', ''core_rejected_round_semantic_claim_object_unknown''),
     (''round claim object ref'', ''core_rejected_round_semantic_claim_object_ref_invalid''),
     (''round claim content'', ''core_rejected_round_semantic_claim_content_invalid''),
     (''round claim requires user or execution evidence'', ''core_rejected_round_semantic_claim_evidence_missing''),
     (''user_refs'', ''core_rejected_round_semantic_claim_refs_invalid''),
     (''execution_refs'', ''core_rejected_round_semantic_claim_refs_invalid''),
     (''user_condition_refs'', ''core_rejected_round_semantic_claim_refs_invalid''),
     (''execution_condition_refs'', ''core_rejected_round_semantic_claim_refs_invalid''),
     (''structured result must return the task contract digest'', ''core_rejected_structured_contract_digest_missing''),
     (''returned contract digest '', ''core_rejected_structured_contract_digest_mismatch''),
     (''structured task is missing output_contract'', ''core_rejected_structured_contract_missing''),
     (''structured task contract cannot be decoded:'', ''core_rejected_structured_contract_invalid''),
     (''structured task contract is invalid:'', ''core_rejected_structured_contract_invalid''),
     (''task has unexpected contract '', ''core_rejected_structured_contract_mismatch''),
     ('' task is missing model input'', ''core_rejected_semantic_task_input_missing''),
     ('' input is invalid:'', ''core_rejected_semantic_task_input_invalid''),
     ('' task is missing reference map'', ''core_rejected_semantic_reference_map_missing''),
     ('' reference map is invalid:'', ''core_rejected_semantic_reference_map_invalid''),
     (''structured generation attempt '', ''core_rejected_structured_attempt_invalid'')]"

definition safe_error_code :: "string option \<Rightarrow> string \<Rightarrow> string" where
  "safe_error_code value fallback =
     (case value of Some v \<Rightarrow> if v \<in> set SAFE_ERROR_CODES then v else fallback | None \<Rightarrow> fallback)"

text \<open>\<^verbatim>\<open>re.sub(r"[^a-z0-9]+", "_", text)\<close> and \<^verbatim>\<open>text.strip("_")\<close>.\<close>

definition code_char :: "char \<Rightarrow> bool" where
  "code_char c \<longleftrightarrow> (let n = of_char c :: nat in 97 \<le> n \<and> n \<le> 122 \<or> 48 \<le> n \<and> n \<le> 57)"

function squeeze :: "string \<Rightarrow> string" where
  "squeeze [] = []"
| "code_char c \<Longrightarrow> squeeze (c # cs) = c # squeeze cs"
| "\<not> code_char c \<Longrightarrow> squeeze (c # cs) = CHR ''_'' # squeeze (dropWhile (\<lambda>c. \<not> code_char c) cs)"
  by (auto, metis list.exhaust)
termination
  by (relation "measure length") (auto simp: less_Suc_eq_le length_dropWhile_le)

lemma squeeze_Cons [code]:
  "squeeze (c # cs) = (if code_char c then c # squeeze cs
     else CHR ''_'' # squeeze (dropWhile (\<lambda>c. \<not> code_char c) cs))"
  by simp

declare squeeze.simps(1) [code]

definition strip_underscores :: "string \<Rightarrow> string" where
  "strip_underscores s = rev (dropWhile (\<lambda>c. c = CHR ''_'') (rev (dropWhile (\<lambda>c. c = CHR ''_'') s)))"

definition core_rejection_error_code :: "string \<Rightarrow> string \<Rightarrow> string" where
  "core_rejection_error_code code detail =
     (let core_code = strip_underscores (squeeze (lower code));
          marked = (if core_code = ''invalid_request''
            then find (\<lambda>(marker, _). occurs_in marker (lower detail)) INVALID_REQUEST_REASON_MARKERS else None)
      in case marked of
        Some (_, reason_code) \<Rightarrow> reason_code
      | None \<Rightarrow> safe_error_code
          (Some (''core_rejected_'' @ (if core_code = [] then ''command'' else core_code))) ''core_rejected_command'')"

record execution_failure_classification =
  fc_error_code :: string
  fc_retryable :: bool
  fc_retry_after_seconds :: int

definition new_classification :: "string \<Rightarrow> bool \<Rightarrow> int \<Rightarrow> execution_failure_classification res" where
  "new_classification error_code retryable retry_after_seconds =
     raise_if (blank error_code) (ValueError ''error_code must not be empty'')
     (raise_if (\<not> (0 \<le> retry_after_seconds \<and> retry_after_seconds \<le> 86400))
        (ValueError ''retry_after_seconds must be between 0 and 86400'')
     (raise_if (\<not> retryable \<and> retry_after_seconds \<noteq> 0)
        (ValueError ''permanent failures must not request a retry delay'')
     (Inr \<lparr>fc_error_code = error_code, fc_retryable = retryable, fc_retry_after_seconds = retry_after_seconds\<rparr>)))"

definition temporary :: "string \<Rightarrow> execution_failure_classification res" where
  "temporary code = new_classification code True 60"

definition permanent :: "string \<Rightarrow> execution_failure_classification res" where
  "permanent code = new_classification code False 0"

definition unavailable_status :: "json \<Rightarrow> bool" where
  "unavailable_status v = (case v of JInt i \<Rightarrow> i = 429 \<or> 500 \<le> i \<and> i \<le> 599 | _ \<Rightarrow> False)"

definition classify_execution_error :: "caught \<Rightarrow> execution_failure_classification res" where
  "classify_execution_error e =
     (let error_type = (case ca_classes e of [] \<Rightarrow> [] | c # _ \<Rightarrow> c);
          message = lower (ca_message e)
      in if ca_code e = Some ''input_budget_exceeded'' then permanent ''input_budget_exceeded''
      else if ca_code e \<in> Some ` {''invalid_json_response'', ''invalid_request'',
          ''provider_capability_unverified'', ''secret_missing'', ''schema_shape_failure'',
          ''semantic_validation_failure'', ''language_fidelity_failure'', ''grounding_failure''}
        then permanent (the (ca_code e))
      else if isinstance e [''ProviderTimeoutError'', ''TimeoutError''] then temporary ''provider_timeout''
      else if isinstance e [''ProviderTransportError'', ''ConnectionError'', ''OSError'']
        then temporary ''provider_transport_error''
      else if isinstance e [''TransientProviderError''] then temporary ''provider_unavailable''
      else if error_type = ''InferenceProfileNotFoundError'' then permanent ''profile_not_found''
      else if error_type = ''InferenceProfileDisabledError'' then permanent ''profile_disabled''
      else if error_type = ''InferenceInputTooLargeError'' then permanent ''input_too_large''
      else if error_type = ''InferenceResponseValidationError'' then permanent ''invalid_model_output''
      else if isinstance e [''ProviderAuthenticationError'', ''ProviderConfigurationError'']
        then permanent ''provider_configuration_error''
      else if isinstance e [''SecretNotFoundError''] then permanent ''provider_secret_missing''
      else if isinstance e [''ProviderResponseError'', ''ValueError'', ''TypeError'']
        then permanent ''invalid_model_output''
      else if isinstance e [''TransientCoreError''] then temporary ''core_unavailable''
      else if isinstance e [''DomainRejectedError'']
        then permanent (core_rejection_error_code (case ca_code e of Some c \<Rightarrow> c | None \<Rightarrow> [])
               (case ca_detail e of Some d \<Rightarrow> d | None \<Rightarrow> []))
      else if isinstance e [''ProviderError''] then permanent ''provider_error''
      else if unavailable_status (ca_status_code e) then temporary ''provider_unavailable''
      else if list_ex (\<lambda>marker. occurs_in marker message) [''429'', ''temporar'', ''unavailable'', ''connection'']
        then temporary ''provider_unavailable''
      else if occurs_in ''timeout'' message \<or> occurs_in ''timed out'' message then temporary ''provider_timeout''
      else if isinstance e [''RuntimeError''] then permanent ''provider_error''
      else permanent ''execution_error'')"

section \<open>Results\<close>

definition opt_int :: "int option \<Rightarrow> json" where
  "opt_int v = (case v of None \<Rightarrow> JNull | Some i \<Rightarrow> JInt i)"

definition audit_dump :: "egress_audit_record \<Rightarrow> (string \<times> json) list" where
  "audit_dump a =
     [(''task_id'', JStr (ea_task_id a)), (''task_kind'', JStr (ea_task_kind a)),
      (''profile_id'', opt_str (ea_profile_id a)), (''provider'', opt_str (ea_provider a)),
      (''model'', opt_str (ea_model a)), (''input_bytes'', JInt (int (ea_input_bytes a))),
      (''output_bytes'', JInt (int (ea_output_bytes a))), (''status'', JStr (ea_status a)),
      (''input_tokens'', opt_int (ea_input_tokens a)), (''output_tokens'', opt_int (ea_output_tokens a)),
      (''total_tokens'', opt_int (ea_total_tokens a)), (''usage_unknown'', JBool (ea_usage_unknown a))]"

definition embedding_dump :: "embedding_batch \<Rightarrow> (string \<times> json) list" where
  "embedding_dump b =
     [(''vectors'', JArr (map JArr (eb_vectors b))), (''model'', JStr (eb_model b)),
      (''model_version'', JStr (eb_model_version b)), (''dimensions'', JInt (int (eb_dimensions b))),
      (''purpose'', JStr (eb_purpose b)), (''role'', opt_str (eb_role b)),
      (''renderer_version'', opt_str (eb_renderer_version b))]"

text \<open>\<^verbatim>\<open>result.model_dump(mode="json")\<close>.\<close>

definition result_dump :: "generic_execution_result \<Rightarrow> (string \<times> json) list" where
  "result_dump r =
     [(''task_id'', JStr (gr_task_id r)), (''task_kind'', JStr (gr_task_kind r)),
      (''operation'', opt_str (gr_operation r)), (''operation_input'', opt_obj (gr_operation_input r)),
      (''status'', JStr (gr_status r)), (''output'', opt_obj (gr_output r)),
      (''embedding_result'', opt_obj (map_option embedding_dump (gr_embedding_result r))),
      (''egress_audit'', JObj (audit_dump (gr_egress_audit r))), (''error_code'', opt_str (gr_error_code r)),
      (''raw_model_text'', opt_str (gr_raw_model_text r)),
      (''structured_output_mode'', opt_str (gr_structured_output_mode r)),
      (''contract_digest'', opt_str (gr_contract_digest r)), (''tool_name'', opt_str (gr_tool_name r)),
      (''metadata'', JObj (gr_metadata r))]"

definition core_result_payload :: "generic_execution_result \<Rightarrow> (string \<times> json) list" where
  "core_result_payload r =
     (let payload = result_dump r in
      if jget payload ''task_kind'' = JStr ''embed_texts'' then
        (case jget payload ''embedding_result'' of
           JObj embedding \<Rightarrow> AList.update ''embedding_result''
             (JObj (map (\<lambda>k. (k, jget embedding k)) (filter (\<lambda>k. k \<in> set (jkeys embedding))
               [''vectors'', ''model'', ''model_version'', ''dimensions'', ''purpose'']))) payload
         | _ \<Rightarrow> payload)
      else payload)"

definition execution_result_is_retryable :: "generic_execution_result \<Rightarrow> bool" where
  "execution_result_is_retryable r \<longleftrightarrow>
     gr_status r \<in> {''timeout'', ''cancelled''}
     \<or> gr_error_code r \<in> Some ` {''provider_timeout'', ''provider_transport_error'', ''provider_unavailable'',
         ''transport_error'', ''transient_provider_error'', ''timeout''}"

section \<open>Tasks\<close>

definition VALIDATION_ERROR :: caught where
  "VALIDATION_ERROR = plain_error [''ValidationError'', ''ValueError''] ''validation error''"

text \<open>A text whose length in characters is within the bounds of its field, where it is present.\<close>

definition sized :: "nat \<Rightarrow> nat \<Rightarrow> string option \<Rightarrow> bool" where
  "sized low high v = (case v of None \<Rightarrow> True | Some s \<Rightarrow> low \<le> char_count s \<and> char_count s \<le> high)"

definition chat_message :: "json \<Rightarrow> caught + (string \<times> string)" where
  "chat_message message =
     (case message of
        JObj d \<Rightarrow>
          (case (jget d ''role'', jget d ''content'') of
             (JStr role, JStr content) \<Rightarrow>
               raise_if (role \<notin> {''system'', ''user'', ''assistant''} \<or> content = []
                 \<or> \<not> set (jkeys d) \<subseteq> {''role'', ''content''}) VALIDATION_ERROR (Inr (role, content))
           | _ \<Rightarrow> Inl VALIDATION_ERROR)
      | _ \<Rightarrow> Inl VALIDATION_ERROR)"

definition obj_or_none :: "json \<Rightarrow> (string \<times> json) list option" where
  "obj_or_none v = (case v of JObj d \<Rightarrow> Some d | _ \<Rightarrow> None)"

definition py_or :: "json \<Rightarrow> json \<Rightarrow> json" where
  "py_or a b = (if truthy a then a else b)"

text \<open>\<^verbatim>\<open>str(value) if value is not None else None\<close>.\<close>

definition str_or_none :: "json \<Rightarrow> string option" where
  "str_or_none v = (if v = JNull then None else Some (py_str v))"

definition MODES :: "string list" where
  "MODES = [''auto'', ''strict_json_schema'', ''json_schema'', ''tool_call'', ''json_object'', ''prompt_only'']"

text \<open>\<^verbatim>\<open>int(value)\<close> of a decoded integer or truth value; the wire contract admits nothing else.\<close>

definition int_value :: "json \<Rightarrow> caught + int" where
  "int_value v = (case int_of v of Some i \<Rightarrow> Inr i
     | None \<Rightarrow> Inl (plain_error [''TypeError''] ''int() argument must be a number''))"

definition model_request_of :: "(string \<times> json) list \<Rightarrow> caught + model_request_spec" where
  "model_request_of mr =
     rbind (case jget_default mr ''messages'' (JArr []) of
         JArr ms \<Rightarrow> rmap chat_message ms
       | _ \<Rightarrow> Inl (plain_error [''TypeError''] ''messages'')) (\<lambda>messages.
     rbind (int_value (jget mr ''max_output_tokens'')) (\<lambda>max_output_tokens.
     let response_format = (case jget mr ''response_format'' of
           JStr s \<Rightarrow> Some [(''type'', JStr s)] | v \<Rightarrow> obj_or_none v);
         requirement = obj_or_none (jget mr ''structured_output_requirement'');
         mode = py_str (py_or (jget mr ''mode'') (py_or (jget mr ''structured_output_mode'')
           (JStr (if requirement \<noteq> None then ''strict_json_schema'' else ''auto''))));
         tool_name = str_or_none (jget mr ''tool_name'');
         metadata = (case obj_or_none (jget mr ''metadata'') of Some d \<Rightarrow> d | None \<Rightarrow> [])
     in rbind (if jget mr ''seed'' = JNull then Inr None
         else rbind (int_value (jget mr ''seed'')) (\<lambda>i. Inr (Some i))) (\<lambda>seed.
     raise_if (\<not> (1 \<le> length messages \<and> length messages \<le> 32)
         \<or> \<not> (0 < max_output_tokens \<and> max_output_tokens \<le> 50000)
         \<or> mode \<notin> set MODES \<or> \<not> sized 1 200 tool_name
         \<or> (case seed of None \<Rightarrow> False | Some i \<Rightarrow> \<not> (0 \<le> i \<and> i \<le> 2147483647))) VALIDATION_ERROR
     (Inr \<lparr>mq_messages = messages, mq_max_output_tokens = nat max_output_tokens,
        mq_response_format = response_format, mq_output_contract = obj_or_none (jget mr ''output_contract''),
        mq_structured_output_requirement = requirement, mq_mode = mode, mq_tool_name = tool_name,
        mq_metadata = metadata, mq_seed = map_option nat seed\<rparr>))))"

text \<open>\<^verbatim>\<open>_request_or_operation_input\<close>: a field of the request, or else of the operation's input.\<close>

definition request_or_operation_input ::
  "(string \<times> json) list \<Rightarrow> (string \<times> json) list \<Rightarrow> string \<Rightarrow> string list \<Rightarrow> json" where
  "request_or_operation_input er operation_input name fallback_names =
     (if jget er name \<noteq> JNull then jget er name
      else case find (\<lambda>n. jget operation_input n \<noteq> JNull) fallback_names of
        Some n \<Rightarrow> jget operation_input n | None \<Rightarrow> JNull)"

definition texts_of :: "json \<Rightarrow> string list option" where
  "texts_of v = (case v of JArr xs \<Rightarrow> Some (map py_str xs) | _ \<Rightarrow> None)"

definition bounded_list :: "'a list option \<Rightarrow> bool" where
  "bounded_list v = (case v of None \<Rightarrow> True | Some xs \<Rightarrow> length xs \<le> 512)"

definition embedding_request_of ::
  "(string \<times> json) list \<Rightarrow> (string \<times> json) list \<Rightarrow> caught + embedding_request_spec" where
  "embedding_request_of er operation_input =
     (let field = request_or_operation_input er operation_input;
          texts = (case texts_of (jget er ''texts'') of Some ts \<Rightarrow> ts | None \<Rightarrow> []);
          subject_refs = texts_of (jget er ''subject_refs'');
          cache_keys = texts_of (jget er ''cache_keys'');
          profile_fingerprint = str_or_none (field ''profile_fingerprint'' [''embedding_profile_fingerprint'']);
          config_fingerprint = str_or_none (field ''config_fingerprint'' [''embedding_config_fingerprint'']);
          privacy_class = py_str (py_or (field ''privacy_class'' []) (JStr ''default''));
          cache_namespace = py_str (py_or (field ''cache_namespace'' []) (JStr []));
          deadline = str_or_none (field ''deadline'' []);
          role = str_or_none (field ''role'' [''embedding_role'']);
          renderer_version = str_or_none (field ''renderer_version'' [])
      in rbind (case jget er ''purpose'' of
          JStr p \<Rightarrow> (case validate_embedding_purpose p of Inr q \<Rightarrow> Inr q | Inl e \<Rightarrow> Inl (caught_of e))
        | _ \<Rightarrow> Inl (plain_error [''ValueError''] ''embedding purpose is not supported'')) (\<lambda>purpose.
      rbind (if jget er ''dimensions'' = JNull then Inr None
          else rbind (int_value (jget er ''dimensions'')) (\<lambda>i. Inr (Some i))) (\<lambda>dimensions.
      raise_if (texts = [] \<or> \<not> bounded_list subject_refs \<or> \<not> bounded_list cache_keys
          \<or> (case dimensions of None \<Rightarrow> False | Some i \<Rightarrow> \<not> (0 < i \<and> i \<le> 100000))
          \<or> \<not> sized 0 200 profile_fingerprint \<or> \<not> sized 0 200 config_fingerprint
          \<or> \<not> sized 1 100 (Some privacy_class) \<or> \<not> sized 0 200 (Some cache_namespace)
          \<or> \<not> sized 0 64 deadline \<or> role \<notin> {None, Some ''query'', Some ''passage''}
          \<or> \<not> sized 1 200 renderer_version) VALIDATION_ERROR
      (Inr \<lparr>eq_texts = texts, eq_purpose = purpose, eq_subject_refs = subject_refs,
         eq_dimensions = map_option nat dimensions, eq_profile_fingerprint = profile_fingerprint,
         eq_config_fingerprint = config_fingerprint, eq_privacy_class = privacy_class,
         eq_cache_namespace = cache_namespace, eq_cache_keys = cache_keys, eq_deadline = deadline,
         eq_role = role, eq_renderer_version = renderer_version\<rparr>))))"

definition optionally :: "('a \<Rightarrow> 'e + 'b) \<Rightarrow> 'a option \<Rightarrow> 'e + 'b option" where
  "optionally f v = (case v of None \<Rightarrow> Inr None | Some x \<Rightarrow> rbind (f x) (\<lambda>y. Inr (Some y)))"

definition execution_task_from_wire ::
  "(string \<Rightarrow> bool option) \<Rightarrow> (string \<Rightarrow> bool) \<Rightarrow> (string \<times> json) list \<Rightarrow> string
     \<Rightarrow> caught + generic_execution_task" where
  "execution_task_from_wire parse_iso re_ok raw_task memory_space =
     (case task_from_payload parse_iso re_ok raw_task of
        Inl e \<Rightarrow> Inl (caught_of e)
      | Inr wire \<Rightarrow>
          raise_if (ct_memory_space_id wire \<noteq> memory_space)
            (plain_error [''ValueError''] ''execution task memory space does not match poll scope'')
          (rbind (optionally model_request_of (ct_model_request wire)) (\<lambda>model_request.
          rbind (optionally (\<lambda>er. embedding_request_of er
              (case ct_operation_input wire of Some d \<Rightarrow> d | None \<Rightarrow> [])) (ct_embedding_request wire)) (\<lambda>embedding_request.
          raise_if (\<not> sized 1 200 (Some (ct_task_id wire)) \<or> \<not> sized 1 200 (Some (ct_task_kind wire))
              \<or> \<not> sized 0 200 (Some (ct_operation wire)) \<or> \<not> sized 0 64 (Some (ct_expires_at wire))) VALIDATION_ERROR
          (Inr \<lparr>gt_task_id = ct_task_id wire, gt_task_kind = ct_task_kind wire,
             gt_operation = Some (ct_operation wire), gt_profile_slot = ct_profile_slot wire,
             gt_model_request = model_request, gt_embedding_request = embedding_request,
             gt_expires_at = Some (ct_expires_at wire),
             gt_lease = Some [(''memory_space_id'', JStr memory_space), (''value'', opt_str (ct_lease wire))],
             gt_operation_input = ct_operation_input wire,
             gt_structured_generation = ct_structured_generation wire\<rparr>)))))"

section \<open>What is shown of them\<close>

text \<open>A classification that Core may see, with the retry policy that goes with it.\<close>

definition reportable :: "execution_failure_classification res \<Rightarrow> bool" where
  "reportable r = (case r of Inl _ \<Rightarrow> False
     | Inr c \<Rightarrow> fc_error_code c \<in> set SAFE_ERROR_CODES
         \<and> fc_retry_after_seconds c = (if fc_retryable c then 60 else 0))"

text \<open>
  What is asked of the provider's answers: the names in them are not blank where they are present. The
  mode is one of a closed set and the tool name has at least one character in the provider's own model.
\<close>

definition answers_well_formed :: "executor \<Rightarrow> bool" where
  "answers_well_formed x \<longleftrightarrow> (\<forall>call j. run_bounded (ex_json_provider x call) = Inr j \<longrightarrow>
     \<not> blank (sj_structured_output_mode j) \<and> (\<forall>d. sj_contract_digest j = Some d \<longrightarrow> \<not> blank d)
     \<and> (\<forall>n. sj_tool_name j = Some n \<longrightarrow> \<not> blank n))"

definition present_texts :: "generic_execution_result \<Rightarrow> bool" where
  "present_texts r \<longleftrightarrow> (\<forall>s. gr_structured_output_mode r = Some s \<or> gr_contract_digest r = Some s
     \<or> gr_tool_name r = Some s \<longrightarrow> \<not> blank s)"

text \<open>The members of the vectors that are sent.\<close>

definition sent_embedding :: "embedding_batch \<Rightarrow> (string \<times> json) list" where
  "sent_embedding b = take 5 (embedding_dump b)"

section \<open>Only known codes are reported\<close>

lemma safe_codes_not_blank: "c \<in> set SAFE_ERROR_CODES \<Longrightarrow> \<not> blank c"
proof -
  have "list_all (\<lambda>c. \<not> blank c) SAFE_ERROR_CODES" by code_simp
  then show "c \<in> set SAFE_ERROR_CODES \<Longrightarrow> \<not> blank c" by (auto simp: list_all_iff)
qed

lemma marker_codes_safe: "(m, c) \<in> set INVALID_REQUEST_REASON_MARKERS \<Longrightarrow> c \<in> set SAFE_ERROR_CODES"
proof -
  have "list_all (\<lambda>(m, c). c \<in> set SAFE_ERROR_CODES) INVALID_REQUEST_REASON_MARKERS" by code_simp
  then show "(m, c) \<in> set INVALID_REQUEST_REASON_MARKERS \<Longrightarrow> c \<in> set SAFE_ERROR_CODES"
    by (auto simp: list_all_iff)
qed

lemma fixed_codes_safe:
  "set [''input_budget_exceeded'', ''invalid_json_response'', ''invalid_request'',
     ''provider_capability_unverified'', ''secret_missing'', ''schema_shape_failure'',
     ''semantic_validation_failure'', ''language_fidelity_failure'', ''grounding_failure'',
     ''provider_timeout'', ''provider_transport_error'', ''provider_unavailable'', ''profile_not_found'',
     ''profile_disabled'', ''input_too_large'', ''invalid_model_output'', ''provider_configuration_error'',
     ''provider_secret_missing'', ''core_unavailable'', ''core_rejected_command'', ''provider_error'',
     ''execution_error''] \<subseteq> set SAFE_ERROR_CODES"
  by code_simp

lemma safe_error_code_safe: "f \<in> set SAFE_ERROR_CODES \<Longrightarrow> safe_error_code v f \<in> set SAFE_ERROR_CODES"
  by (simp add: safe_error_code_def split: option.split)

lemma core_rejection_error_code_safe: "core_rejection_error_code code detail \<in> set SAFE_ERROR_CODES"
  using fixed_codes_safe marker_codes_safe
  by (auto simp: core_rejection_error_code_def Let_def find_Some_iff split: option.splits
      intro!: safe_error_code_safe dest!: nth_mem)

lemma reportable_simps:
  "reportable (temporary c) \<longleftrightarrow> c \<in> set SAFE_ERROR_CODES"
  "reportable (permanent c) \<longleftrightarrow> c \<in> set SAFE_ERROR_CODES"
  using safe_codes_not_blank [of c]
  by (auto simp: reportable_def temporary_def permanent_def new_classification_def raise_if_def)

lemma classify_reportable: "reportable (classify_execution_error e)"
  using fixed_codes_safe
  by (auto simp: classify_execution_error_def Let_def reportable_simps core_rejection_error_code_safe)

section \<open>Conversion keeps the contract\<close>

lemma task_from_payload_valid:
  assumes "task_from_payload parse_iso re_ok payload = Inr t"
  shows "task_post_init parse_iso re_ok t = Inr ()"
  using assms unfolding task_from_payload_def res_simps Let_def by auto

lemma from_wire_task:
  assumes "execution_task_from_wire parse_iso re_ok raw space = Inr t"
  obtains wire where "task_from_payload parse_iso re_ok raw = Inr wire" "ct_memory_space_id wire = space"
    "optionally model_request_of (ct_model_request wire) = Inr (gt_model_request t)"
    "optionally (\<lambda>er. embedding_request_of er (case ct_operation_input wire of Some d \<Rightarrow> d | None \<Rightarrow> []))
       (ct_embedding_request wire) = Inr (gt_embedding_request t)"
    "gt_task_id t = ct_task_id wire" "gt_task_kind t = ct_task_kind wire" "gt_operation t = Some (ct_operation wire)"
    "gt_structured_generation t = ct_structured_generation wire" "gt_operation_input t = ct_operation_input wire"
    "gt_lease t = Some [(''memory_space_id'', JStr space), (''value'', opt_str (ct_lease wire))]"
  using assms unfolding execution_task_from_wire_def
  by (auto simp: res_simps split: sum.splits)

lemma optionally_Some:
  "optionally f (Some x) = Inr y \<longleftrightarrow> (\<exists>z. f x = Inr z \<and> y = Some z)"
  "optionally f None = Inr y \<longleftrightarrow> y = None"
  by (auto simp: optionally_def res_simps)

lemma opt_obj_obj_or_none: "object_or_none v name = Inr d \<Longrightarrow> opt_obj (obj_or_none v) = v"
  by (auto simp: object_or_none_def opt_obj_def obj_or_none_def split: json.splits)

lemma model_request_of_fields:
  assumes "model_request_of mr = Inr spec"
  shows "mq_output_contract spec = obj_or_none (jget mr ''output_contract'')"
    and "mq_structured_output_requirement spec = obj_or_none (jget mr ''structured_output_requirement'')"
    and "mq_mode spec = py_str (py_or (jget mr ''mode'') (py_or (jget mr ''structured_output_mode'')
           (JStr (if obj_or_none (jget mr ''structured_output_requirement'') \<noteq> None then ''strict_json_schema'' else ''auto''))))"
  using assms unfolding model_request_of_def Let_def res_simps by clarsimp+

section \<open>Texts of a result\<close>

lemma failed_result_present [simp]: "present_texts (failed_result t c n p s)"
  by (simp add: present_texts_def failed_result_def)

lemma failure_result_present [simp]: "present_texts (failure_result t e n p)"
  by (simp add: failure_result_def split: exec_error.split)

lemma embedding_result_present [simp]: "present_texts (embedding_result t spec p b)"
  by (simp add: embedding_result_def) (simp add: present_texts_def)

lemma execute_embed_texts_present: "present_texts (execute_embed_texts x t)"
  by (simp add: execute_embed_texts_def split: option.split sum.split list.split)

lemma execute_generate_json_present:
  assumes "answers_well_formed x" "execute_generate_json (ex_json_provider x) force t = Inr r"
  shows "present_texts r"
proof (cases "gt_model_request t")
  case None
  with assms(2) show ?thesis by (auto simp: execute_generate_json_def)
next
  case (Some spec)
  with assms(2) obtain operation where oper: "telemetry_operation t = Inr operation"
    by (auto simp: execute_generate_json_def res_simps)
  define call where "call = generation_call_of t spec operation force"
  show ?thesis
  proof (cases "run_bounded (ex_json_provider x call)")
    case (Inl e)
    with assms(2) Some oper show ?thesis by (auto simp: execute_generate_json_def call_def Let_def)
  next
    case (Inr j)
    with assms(1) have j: "\<not> blank (sj_structured_output_mode j)" "\<And>d. sj_contract_digest j = Some d \<Longrightarrow> \<not> blank d"
      "\<And>n. sj_tool_name j = Some n \<Longrightarrow> \<not> blank n" unfolding answers_well_formed_def by blast+
    have "gr_structured_output_mode r = Some (sj_structured_output_mode j)"
      "gr_contract_digest r = sj_contract_digest j" "gr_tool_name r = sj_tool_name j"
      using assms(2) Some oper Inr by (auto simp: execute_generate_json_def call_def Let_def)
    with j show ?thesis by (auto simp: present_texts_def)
  qed
qed

lemma execute_present:
  assumes "answers_well_formed x" "execute x force t = Inr r"
  shows "present_texts r"
  using assms execute_generate_json_present [OF assms(1)] execute_embed_texts_present
  by (auto simp: execute_def unknown_kind_result_def split: if_splits)

lemma core_result_payload_get:
  "jget (core_result_payload r) ''task_id'' = JStr (gr_task_id r)"
  "jget (core_result_payload r) ''task_kind'' = JStr (gr_task_kind r)"
  "jget (core_result_payload r) ''operation'' = opt_str (gr_operation r)"
  "jget (core_result_payload r) ''operation_input'' = opt_obj (gr_operation_input r)"
  "jget (core_result_payload r) ''status'' = JStr (gr_status r)"
  "jget (core_result_payload r) ''output'' = opt_obj (gr_output r)"
  "jget (core_result_payload r) ''embedding_result'' = opt_obj (map_option
     (if gr_task_kind r = ''embed_texts'' then sent_embedding else embedding_dump) (gr_embedding_result r))"
  "jget (core_result_payload r) ''egress_audit'' = JObj (audit_dump (gr_egress_audit r))"
  "jget (core_result_payload r) ''error_code'' = opt_str (gr_error_code r)"
  "jget (core_result_payload r) ''raw_model_text'' = opt_str (gr_raw_model_text r)"
  "jget (core_result_payload r) ''structured_output_mode'' = opt_str (gr_structured_output_mode r)"
  "jget (core_result_payload r) ''contract_digest'' = opt_str (gr_contract_digest r)"
  "jget (core_result_payload r) ''tool_name'' = opt_str (gr_tool_name r)"
  "jget (core_result_payload r) ''metadata'' = JObj (gr_metadata r)"
  by (cases "gr_embedding_result r";
      simp add: core_result_payload_def result_dump_def opt_obj_def sent_embedding_def embedding_dump_def jkeys_def Let_def)+

lemma core_result_payload_keys:
  "jkeys (core_result_payload r) = [''task_id'', ''task_kind'', ''operation'', ''operation_input'', ''status'',
     ''output'', ''embedding_result'', ''egress_audit'', ''error_code'', ''raw_model_text'',
     ''structured_output_mode'', ''contract_digest'', ''tool_name'', ''metadata'']"
  by (cases "gr_embedding_result r")
    (simp_all add: core_result_payload_def result_dump_def opt_obj_def jkeys_def Let_def)

lemma execute_completed:
  assumes "execute x force t = Inr r" "gr_status r = ''completed''"
  shows "identified t r \<and> gr_error_code r = None
     \<and> check_result_shape (gr_task_kind r) (gr_output r) (gr_embedding_result r) = Inr ()"
proof -
  have nf: "\<not> failure r" using assms(2) by (simp add: failure_def)
  have gen: ?thesis if "execute_generate_json (ex_json_provider x) force t = Inr r" "gt_task_kind t \<in> set GENERATE_KINDS"
    using execute_generate_json_cases [where provider = "ex_json_provider x" and force = force and t = t] that nf
    by (auto simp: check_result_shape_def identified_def raise_if_def)
  have emb: ?thesis if "r = execute_embed_texts x t" "gt_task_kind t \<notin> set GENERATE_KINDS"
    using execute_embed_texts_cases [of t x] that nf
    by (auto simp: check_result_shape_def identified_def raise_if_def)
  have unknown: "r \<noteq> unknown_kind_result t" using assms(2) by (auto simp: unknown_kind_result_def)
  show ?thesis using assms(1) gen emb unknown by (auto simp: execute_def GENERATE_KINDS_def split: if_splits)
qed

lemma required_or_none_texts:
  "(\<And>s. v = Some s \<Longrightarrow> \<not> blank s) \<Longrightarrow> required_or_none (opt_str v) name = Inr v"
  by (cases v) (auto simp: required_or_none_def required_def)

lemma check_option_texts:
  "(\<And>s. v = Some s \<Longrightarrow> \<not> blank s) \<Longrightarrow> check_option (\<lambda>s. required s name) v = Inr ()"
  by (cases v) (auto simp: check_option_def required_def)

text \<open>A result of a known kind, with the part its kind calls for, passes the contract of the envelope.\<close>

lemma core_result_payload_accepted:
  assumes ids: "\<not> blank (gr_task_id r)" "gr_operation r = Some oper" "\<not> blank oper"
    and kind: "gr_task_kind r \<in> set TASK_KINDS" "gr_status r = ''completed''" "gr_error_code r = None"
    and shape: "check_result_shape (gr_task_kind r) (gr_output r) (gr_embedding_result r) = Inr ()"
    and texts: "present_texts r"
  shows "result_from_payload (core_result_payload r) = Inr
     \<lparr>cr_task_id = gr_task_id r, cr_task_kind = gr_task_kind r, cr_status = ''completed'', cr_operation = oper,
      cr_operation_input = gr_operation_input r, cr_output = gr_output r,
      cr_embedding_result = map_option sent_embedding (gr_embedding_result r),
      cr_egress_audit = audit_dump (gr_egress_audit r), cr_error_code = None,
      cr_raw_model_text = gr_raw_model_text r, cr_structured_output_mode = gr_structured_output_mode r,
      cr_contract_digest = gr_contract_digest r, cr_tool_name = gr_tool_name r,
      cr_metadata = Some (gr_metadata r)\<rparr>"
proof -
  define embedding where "embedding = map_option sent_embedding (gr_embedding_result r)"
  have emb: "map_option (if gr_task_kind r = ''embed_texts'' then sent_embedding else embedding_dump)
      (gr_embedding_result r) = embedding"
    using shape kind(1) by (auto simp: embedding_def check_result_shape_def TASK_KINDS_def GENERATE_KINDS_def raise_if_def
        split: if_splits)
  have shape': "check_result_shape (gr_task_kind r) (gr_output r) embedding = Inr ()"
    using shape by (auto simp: check_result_shape_def embedding_def raise_if_def split: if_splits)
  have raw: "(case opt_str v of JNull \<Rightarrow> Inr None | JStr s \<Rightarrow> Inr (Some s)
      | _ \<Rightarrow> Inl (TypeError ''result.raw_model_text must be a string'')) = Inr v" for v
    by (cases v) simp_all
  have meta: "object_or_none (JObj d) name = Inr (Some d)" for d name by (simp add: object_or_none_def)
  note texts = texts [unfolded present_texts_def, rule_format]
  have keys: "set (jkeys (core_result_payload r)) \<subseteq> set [''task_id'', ''task_kind'', ''status'', ''operation'',
       ''operation_input'', ''output'', ''embedding_result'', ''egress_audit'', ''error_code'',
       ''raw_model_text'', ''structured_output_mode'', ''contract_digest'', ''tool_name'', ''metadata'']"
    unfolding core_result_payload_keys by simp
  have none: "required_or_none JNull name = Inr None" "check_option f None = Inr ()" for name f
    by (simp_all add: required_or_none_def check_option_def)
  have req: "\<not> blank s \<Longrightarrow> required s name = Inr s" for s name by (simp add: required_def)
  show ?thesis
    unfolding result_from_payload_def core_result_payload_get strict_mapping_ok [OF keys] emb
      object_or_none_opt_obj raw meta kind(2,3) embedding_def [symmetric]
    using ids kind(1) shape'
    by (simp add: none texts required_or_none_texts check_option_texts req result_post_init_def Let_def)
qed

section \<open>Properties\<close>

text \<open>
  C34. A semantic operation reaches the executor only under its strict contract: a leased task of a
  generating kind with such an operation is converted only into a request in strict mode, whose
  requirement validates against its output contract, and whose contract digest is the one of the
  structured generation; anything weaker is refused on the way.\<close>

theorem semantic_task_stays_strict:
  assumes "execution_task_from_wire parse_iso re_ok raw space = Inr t"
    and "gt_task_kind t \<in> set GENERATE_KINDS" and "gt_operation t = Some oper" "oper \<in> set SEMANTIC_OPERATIONS"
  shows "\<exists>spec oc q digest sg. gt_model_request t = Some spec \<and> gt_embedding_request t = None
     \<and> mq_mode spec = ''strict_json_schema'' \<and> mq_output_contract spec = Some oc
     \<and> validate_strict_requirement re_ok (opt_obj (mq_structured_output_requirement spec)) (JObj oc) = Inr q
     \<and> jget oc ''schema_digest'' = JStr digest
     \<and> gt_structured_generation t = Some sg \<and> jget sg ''contract_digest'' = JStr digest"
proof -
  from from_wire_task [OF assms(1)] obtain wire
    where wire: "task_from_payload parse_iso re_ok raw = Inr wire"
      "optionally model_request_of (ct_model_request wire) = Inr (gt_model_request t)"
      "optionally (\<lambda>er. embedding_request_of er (case ct_operation_input wire of Some d \<Rightarrow> d | None \<Rightarrow> []))
         (ct_embedding_request wire) = Inr (gt_embedding_request t)"
      "gt_task_kind t = ct_task_kind wire" "gt_operation t = Some (ct_operation wire)"
      "gt_structured_generation t = ct_structured_generation wire" by metis
  note valid = task_from_payload_valid [OF wire(1)]
  from semantic_task_strict [OF valid] assms(2-4) wire(4,5) obtain mr oc q digest sg
    where mr: "ct_model_request wire = Some mr" "ct_embedding_request wire = None"
      and mode: "jget_default mr ''mode'' (jget mr ''structured_output_mode'') = JStr ''strict_json_schema''"
      and oc: "jget mr ''output_contract'' = JObj oc"
      and q: "validate_strict_requirement re_ok (jget mr ''structured_output_requirement'') (JObj oc) = Inr q"
      and digest: "jget oc ''schema_digest'' = JStr digest" "ct_structured_generation wire = Some sg"
        "jget sg ''contract_digest'' = JStr digest" by auto
  from wire(2) mr obtain spec where spec: "model_request_of mr = Inr spec" "gt_model_request t = Some spec"
    by (auto simp: optionally_Some)
  note fields = model_request_of_fields [OF spec(1)]
  have kind: "ct_task_kind wire \<in> set GENERATE_KINDS" using assms(2) wire(4) by simp
  with valid mr have "check_model_request re_ok (ct_operation wire) (ct_structured_generation wire) mr = Inr ()"
    by (auto simp: task_post_init_def res_simps)
  then obtain d where "object_or_none (jget mr ''structured_output_requirement'')
      ''model_request.structured_output_requirement'' = Inr d"
    unfolding check_model_request_def Let_def res_simps by blast
  from opt_obj_obj_or_none [OF this] q have
    "validate_strict_requirement re_ok (opt_obj (mq_structured_output_requirement spec)) (JObj oc) = Inr q"
    by (simp add: fields)
  moreover have "mq_mode spec = ''strict_json_schema''"
    using mode by (cases "map_of mr ''mode''")
      (auto simp: fields py_or_def truthy_def py_str_def jget_default_def jget_def)
  ultimately show ?thesis using spec oc digest wire mr by (auto simp: fields obj_or_none_def optionally_Some)
qed

lemma semantic_task_stays_strict_witness:
  "\<exists>digest t spec. execution_task_from_wire utc_only (\<lambda>_. True) (task_to_payload (semantic_task digest)) ''space-1'' = Inr t
     \<and> gt_model_request t = Some spec \<and> mq_mode spec = ''strict_json_schema''"
proof -
  obtain digest where valid: "task_post_init utc_only (\<lambda>_. True) (semantic_task digest) = Inr ()"
    using semantic_task_valid by blast
  have sizes: "sized (Suc 0) 200 (Some ''task-2'')" "sized (Suc 0) 200 (Some ''generate_json'')"
    "sized 0 200 (Some ''round_semantic'')" "sized 0 64 (Some ''2026-02-18T08:26:40Z'')" by code_simp+
  obtain t where t: "execution_task_from_wire utc_only (\<lambda>_. True) (task_to_payload (semantic_task digest)) ''space-1'' = Inr t"
    and kind: "gt_task_kind t = ''generate_json''" "gt_operation t = Some ''round_semantic''"
    using task_roundtrip [OF valid]
    by (auto simp: execution_task_from_wire_def semantic_task_def optionally_def model_request_of_def Let_def
        chat_message_def jget_default_def int_value_def int_of_def py_or_def truthy_def py_str_def MODES_def sized_def [of _ _ None]
        str_or_none_def obj_or_none_def raise_if_def sizes)
  have "''generate_json'' \<in> set GENERATE_KINDS" "''round_semantic'' \<in> set SEMANTIC_OPERATIONS"
    by (simp_all add: GENERATE_KINDS_def SEMANTIC_OPERATIONS_def)
  with semantic_task_stays_strict [OF t, of "''round_semantic''"] kind t show ?thesis by fastforce
qed

text \<open>
  C28. What the worker submits is never refused by the strict result envelope: a completed result that
  the executor makes of a leased task passes \<open>from_payload\<close>, and the envelope carries the identity of
  the task, its output, its vectors without Local's rendering metadata, and its contract digest. The
  provider is only required not to answer with blank names.\<close>

theorem completed_results_accepted:
  assumes "execution_task_from_wire parse_iso re_ok raw space = Inr t" and "answers_well_formed x"
    and "execute x force t = Inr r" and "gr_status r = ''completed''"
  shows "\<exists>c. result_from_payload (core_result_payload r) = Inr c \<and> cr_task_id c = gt_task_id t
     \<and> cr_task_kind c = gt_task_kind t \<and> Some (cr_operation c) = gt_operation t
     \<and> cr_output c = gr_output r \<and> cr_contract_digest c = gr_contract_digest r
     \<and> cr_embedding_result c = map_option sent_embedding (gr_embedding_result r)"
proof -
  from from_wire_task [OF assms(1)] obtain wire
    where wire: "task_from_payload parse_iso re_ok raw = Inr wire" "gt_task_id t = ct_task_id wire"
      "gt_task_kind t = ct_task_kind wire" "gt_operation t = Some (ct_operation wire)" by metis
  note env = task_post_init_envelope [OF task_from_payload_valid [OF wire(1)]]
  have r: "identified t r" "gr_error_code r = None"
    "check_result_shape (gr_task_kind r) (gr_output r) (gr_embedding_result r) = Inr ()"
    using execute_completed [OF assms(3,4)] by auto
  have "\<not> blank (gr_task_id r)" "gr_operation r = Some (ct_operation wire)" "\<not> blank (ct_operation wire)"
    "gr_task_kind r \<in> set TASK_KINDS"
    using r(1) wire env by (auto simp: identified_def required_ok)
  from core_result_payload_accepted [OF this assms(4) r(2,3) execute_present [OF assms(2,3)]] r(1) wire
  show ?thesis by (auto simp: identified_def)
qed

lemma completed_results_accepted_witness:
  "\<exists>c t r. execution_task_from_wire utc_only (\<lambda>_. True) (task_to_payload example_task) ''space-1'' = Inr t
     \<and> result_from_payload (core_result_payload r) = Inr c \<and> cr_task_id c = gt_task_id t"
proof -
  define x where "x = one_space\<lparr>ex_resolve := (\<lambda>_ _. Inr \<lparr>pf_profile_id = ''p'', pf_model = ''m'',
       pf_base_url = None, pf_provider_kind = ''local'', pf_enabled = True\<rparr>)\<rparr>"
  have x: "answers_well_formed x" by (simp add: answers_well_formed_def x_def one_space_def run_bounded_def)
  have valid: "task_post_init utc_only (\<lambda>_. True) example_task = Inr ()" by code_simp
  have facts: "sized (Suc 0) 200 (Some ''task-1'')" "sized (Suc 0) 200 (Some ''embed_texts'')" "sized 0 200 (Some ''embed'')"
    "sized 0 64 (Some ''2026-02-18T08:26:40Z'')" "sized (Suc 0) 100 (Some ''default'')" "sized 0 200 (Some [])"
    "validate_embedding_purpose ''object_candidate_query'' = Inr ''object_candidate_query''" by code_simp+
  obtain t spec where t: "execution_task_from_wire utc_only (\<lambda>_. True) (task_to_payload example_task) ''space-1'' = Inr t"
    and kind: "gt_task_kind t = ''embed_texts''" "gt_embedding_request t = Some spec" "eq_dimensions spec = None"
    using task_roundtrip [OF valid]
    by (auto simp: execution_task_from_wire_def example_task_def optionally_def embedding_request_of_def Let_def
        request_or_operation_input_def texts_of_def str_or_none_def py_or_def truthy_def py_str_def bounded_list_def
        raise_if_def facts sized_def [of _ _ None])
  define r where "r = execute_embed_texts x t"
  have "execute x False t = Inr r" by (simp add: execute_def kind r_def)
  moreover have "gr_status r = ''completed''"
    by (simp add: r_def execute_embed_texts_def kind task_profile_def x_def one_space_def run_bounded_def
        batch_request_of_def embedding_result_def)
  ultimately show ?thesis using completed_results_accepted [OF t x, of False r] t by blast
qed
end
