(* ===== verification/ControlContracts.thy ===== *)
theory ControlContracts
  imports Contracts CoreCommandWorker
begin

text \<open>
  The other command and result envelopes of \<^verbatim>\<open>core_gateway/contracts.py\<close>: the delivery of a round, the
  polling, submission and failure of tasks, retrieval and its outcome, maintenance, statistics, and
  the message of a missing capability.
\<close>

section \<open>Delivery and task commands\<close>

text \<open>The envelope that the delivery worker builds.\<close>

definition ingest_to_payload :: "ingest_raw_round_command \<Rightarrow> (string \<times> json) list" where
  "ingest_to_payload c =
     [(''command_id'', JStr (ic_command_id c)), (''idempotency_key'', JStr (ic_idempotency_key c)),
      (''memory_space_id'', JStr (ic_memory_space_id c)), (''raw_round_id'', JStr (ic_raw_round_id c)),
      (''raw_round'', ic_raw_round c)]
     @ (case ic_resolution_context c of None \<Rightarrow> [] | Some v \<Rightarrow> [(''resolution_context'', v)])
     @ (case ic_embedding_profile c of None \<Rightarrow> [] | Some v \<Rightarrow> [(''embedding_profile'', v)])"

record poll_execution_tasks_command =
  pe_request_id :: string
  pe_memory_space_id :: string
  pe_worker_id :: string
  pe_limit :: int
  pe_lease_seconds :: int

definition poll_to_payload :: "poll_execution_tasks_command \<Rightarrow> (string \<times> json) list" where
  "poll_to_payload c =
     [(''memory_space_id'', JStr (pe_memory_space_id c)), (''worker_id'', JStr (pe_worker_id c)),
      (''limit'', JInt (pe_limit c)), (''lease_seconds'', JInt (pe_lease_seconds c))]"

record submit_execution_result_command =
  se_request_id :: string
  se_task_id :: string
  se_memory_space_id :: string
  se_worker_id :: string
  se_result :: "(string \<times> json) list"

definition submit_to_payload :: "submit_execution_result_command \<Rightarrow> (string \<times> json) list" where
  "submit_to_payload c =
     [(''task_id'', JStr (se_task_id c)), (''memory_space_id'', JStr (se_memory_space_id c)),
      (''worker_id'', JStr (se_worker_id c)), (''result'', JObj (se_result c))]"

record fail_execution_task_command =
  fe_request_id :: string
  fe_task_id :: string
  fe_memory_space_id :: string
  fe_worker_id :: string
  fe_error_code :: string
  fe_retryable :: bool
  fe_retry_after_seconds :: int

definition fail_to_payload :: "fail_execution_task_command \<Rightarrow> (string \<times> json) list" where
  "fail_to_payload c =
     [(''task_id'', JStr (fe_task_id c)), (''memory_space_id'', JStr (fe_memory_space_id c)),
      (''worker_id'', JStr (fe_worker_id c)), (''error_code'', JStr (fe_error_code c)),
      (''retryable'', JBool (fe_retryable c)), (''retry_after_seconds'', JInt (fe_retry_after_seconds c))]"

section \<open>Retrieval\<close>

record retrieve_context_command =
  rc_request_id :: string
  rc_memory_space_id :: string
  rc_query_text :: string
  rc_query_embedding :: "json list"
  rc_object_query_embedding :: "json list option"
  rc_embedding_model_id :: string
  rc_embedding_model_version :: string
  rc_limit :: int
  rc_project_id :: "string option"
  rc_repository_id :: "string option"
  rc_task_id :: "string option"
  rc_conversation_id :: "string option"
  rc_query_language :: "string option"
  rc_target_id :: "string option"
  rc_target_alias :: "string option"
  rc_related_object_ids :: "string list"
  rc_requested_facets :: "string list"
  rc_explanation_level :: string

text \<open>
  One component: \<^verbatim>\<open>float(component)\<close> raises on an int that no float can hold; the bound is where the
  rounding to 53 bits leaves the range.
\<close>

definition float_overflows :: "int \<Rightarrow> bool" where
  "float_overflows i \<longleftrightarrow> 2 ^ 1024 - 2 ^ 970 \<le> \<bar>i\<bar>"

definition not_finite :: "json \<Rightarrow> bool res" where
  "not_finite component =
     (case component of
        JInt i \<Rightarrow> raise_if (float_overflows i) (OtherError ''OverflowError'') (Inr False)
      | JFloat t \<Rightarrow> Inr (t \<in> {''NaN'', ''Infinity'', ''-Infinity''})
      | _ \<Rightarrow> Inr True)"

text \<open>\<^verbatim>\<open>any(... for component in vector)\<close> stops at the first hit.\<close>

fun any_not_finite :: "json list \<Rightarrow> bool res" where
  "any_not_finite [] = Inr False"
| "any_not_finite (x # xs) = rbind (not_finite x) (\<lambda>b. if b then Inr True else any_not_finite xs)"

definition retrieve_post_init :: "retrieve_context_command \<Rightarrow> unit res" where
  "retrieve_post_init c =
     rbind (required (rc_request_id c) ''request_id'') (\<lambda>_.
     rbind (required (rc_memory_space_id c) ''memory_space_id'') (\<lambda>_.
     rbind (required (rc_query_text c) ''query_text'') (\<lambda>_.
     raise_if (rc_query_embedding c = []) (ValueError ''query_embedding must not be empty'')
     (rbind (any_not_finite (rc_query_embedding c)) (\<lambda>bad.
     raise_if bad (ValueError ''query_embedding must contain finite values'')
     (rbind (case rc_object_query_embedding c of
         None \<Rightarrow> Inr ()
       | Some v \<Rightarrow>
           raise_if (length v \<noteq> length (rc_query_embedding c))
             (ValueError ''object_query_embedding must match query_embedding dimensions'')
           (rbind (any_not_finite v) (\<lambda>bad.
            raise_if bad (ValueError ''object_query_embedding must contain finite values'') (Inr ())))) (\<lambda>_.
     rbind (required (rc_embedding_model_id c) ''embedding_model_id'') (\<lambda>_.
     rbind (required (rc_embedding_model_version c) ''embedding_model_version'') (\<lambda>_.
     rbind (check_option (\<lambda>s. required s ''query_language'') (rc_query_language c)) (\<lambda>_.
     rbind (check_option (\<lambda>s. required s ''target_id'') (rc_target_id c)) (\<lambda>_.
     rbind (check_option (\<lambda>s. required s ''target_alias'') (rc_target_alias c)) (\<lambda>_.
     raise_if (\<not> (1 \<le> rc_limit c \<and> rc_limit c \<le> 100)) (ValueError ''limit must be between 1 and 100'')
     (raise_if (rc_repository_id c \<noteq> None \<and> rc_project_id c = None)
       (ValueError ''repository_id requires project_id'')
     (raise_if (rc_explanation_level c \<notin> {''compact'', ''none''})
       (ValueError ''explanation_level must be compact or none'')
     (raise_if (\<not> distinct (rc_related_object_ids c)) (ValueError ''related_object_ids must be unique'')
     (raise_if (\<not> distinct (rc_requested_facets c)) (ValueError ''requested_facets must be unique'')
     (Inr ())))))))))))))))))"

definition retrieve_to_payload :: "retrieve_context_command \<Rightarrow> (string \<times> json) list" where
  "retrieve_to_payload c =
     [(''schema_version'', JInt 2), (''memory_space_id'', JStr (rc_memory_space_id c)),
      (''query_text'', JStr (rc_query_text c)), (''query_embedding'', JArr (rc_query_embedding c)),
      (''object_query_embedding'', case rc_object_query_embedding c of None \<Rightarrow> JNull | Some v \<Rightarrow> JArr v),
      (''embedding_model_id'', JStr (rc_embedding_model_id c)),
      (''embedding_model_version'', JStr (rc_embedding_model_version c)), (''limit'', JInt (rc_limit c)),
      (''project_id'', opt_str (rc_project_id c)), (''repository_id'', opt_str (rc_repository_id c)),
      (''task_id'', opt_str (rc_task_id c)), (''conversation_id'', opt_str (rc_conversation_id c)),
      (''query_language'', opt_str (rc_query_language c)), (''target_id'', opt_str (rc_target_id c)),
      (''target_alias'', opt_str (rc_target_alias c)),
      (''related_object_ids'', JArr (map JStr (rc_related_object_ids c))),
      (''requested_facets'', JArr (map JStr (rc_requested_facets c))),
      (''explanation_level'', JStr (rc_explanation_level c))]"

record record_retrieval_outcome_command =
  ro_request_id :: string
  ro_retrieval_request_id :: string
  ro_candidate_value_ids :: "string list"
  ro_delivered_value_ids :: "string list"

definition outcome_post_init :: "record_retrieval_outcome_command \<Rightarrow> unit res" where
  "outcome_post_init c =
     rbind (required (ro_request_id c) ''request_id'') (\<lambda>_.
     rbind (required (ro_retrieval_request_id c) ''retrieval_request_id'') (\<lambda>_.
     raise_if (ro_candidate_value_ids c = []) (ValueError ''candidate_value_ids must not be empty'')
     (raise_if (100 < length (ro_candidate_value_ids c))
       (ValueError ''candidate_value_ids must not exceed 100 entries'')
     (raise_if (100 < length (ro_delivered_value_ids c))
       (ValueError ''delivered_value_ids must not exceed 100 entries'')
     (raise_if (\<not> distinct (ro_candidate_value_ids c)) (ValueError ''candidate_value_ids must be unique'')
     (raise_if (\<not> distinct (ro_delivered_value_ids c)) (ValueError ''delivered_value_ids must be unique'')
     (raise_if (\<not> set (ro_delivered_value_ids c) \<subseteq> set (ro_candidate_value_ids c))
       (ValueError ''delivered_value_ids must be a subset of candidates'')
     (rbind (rmap (\<lambda>v. required v ''value_id'') (ro_candidate_value_ids c @ ro_delivered_value_ids c))
       (\<lambda>_. Inr ())))))))))"

definition outcome_to_payload :: "record_retrieval_outcome_command \<Rightarrow> (string \<times> json) list" where
  "outcome_to_payload c =
     [(''schema_version'', JInt 2), (''retrieval_request_id'', JStr (ro_retrieval_request_id c)),
      (''candidate_value_ids'', JArr (map JStr (ro_candidate_value_ids c))),
      (''delivered_value_ids'', JArr (map JStr (ro_delivered_value_ids c)))]"

section \<open>Maintenance\<close>

record run_control_maintenance_command =
  rm_request_id :: string
  rm_embedding_profiles :: "(string \<times> (string \<times> json) list) list option"
  rm_retry_failed_round_semantic :: bool
  rm_retry_limit :: int
  rm_retry_error_code :: "string option"
  rm_retry_memory_space_id :: "string option"
  rm_retry_only :: bool
  rm_automatic_recovery :: bool

definition check_bounded_text :: "nat \<Rightarrow> string \<Rightarrow> string \<Rightarrow> unit res" where
  "check_bounded_text n name s =
     rbind (required s name) (\<lambda>_.
     raise_if (n < char_count s)
       (ValueError (name @ '' must not exceed '' @ show_nat n @ '' characters'')) (Inr ()))"

definition maintenance_post_init :: "run_control_maintenance_command \<Rightarrow> unit res" where
  "maintenance_post_init c =
     rbind (required (rm_request_id c) ''request_id'') (\<lambda>_.
     raise_if (case rm_embedding_profiles c of None \<Rightarrow> False | Some ps \<Rightarrow> list_ex (\<lambda>(i, _). blank i) ps)
       (TypeError ''embedding_profiles must map ids to objects'')
     (raise_if (\<not> (1 \<le> rm_retry_limit c \<and> rm_retry_limit c \<le> 1000))
       (ValueError ''retry_limit must be between 1 and 1000'')
     (rbind (check_option (check_bounded_text 128 ''retry_error_code'') (rm_retry_error_code c)) (\<lambda>_.
     rbind (check_option (check_bounded_text 200 ''retry_memory_space_id'') (rm_retry_memory_space_id c)) (\<lambda>_.
     raise_if (rm_retry_only c \<and> \<not> rm_retry_failed_round_semantic c)
       (ValueError ''retry_only requires retry_failed_round_semantic'')
     (raise_if (rm_automatic_recovery c \<and> \<not> rm_retry_failed_round_semantic c)
       (ValueError ''automatic_recovery requires retry_failed_round_semantic'') (Inr ())))))))"

definition maintenance_to_payload :: "run_control_maintenance_command \<Rightarrow> (string \<times> json) list" where
  "maintenance_to_payload c =
     (case rm_embedding_profiles c of
        None \<Rightarrow> []
      | Some ps \<Rightarrow> [(''embedding_profiles'', JObj (map (\<lambda>(i, p). (i, JObj p)) ps))])
     @ (if rm_retry_failed_round_semantic c then
          [(''retry_failed_round_semantic'', JBool True), (''retry_limit'', JInt (rm_retry_limit c))]
          @ member_if ''retry_error_code'' (opt_str (rm_retry_error_code c))
          @ member_if ''retry_memory_space_id'' (opt_str (rm_retry_memory_space_id c))
          @ (if rm_retry_only c then [(''retry_only'', JBool True)] else [])
          @ (if rm_automatic_recovery c then [(''automatic_recovery'', JBool True)] else [])
        else [])"

record control_maintenance_result =
  cm_status :: string
  cm_memory_echoes_reconciled :: nat
  cm_stats_rebuilt :: nat
  cm_stale_jobs_recovered :: nat
  cm_findings_created :: nat
  cm_duplicate_object_findings :: nat
  cm_missing_card_embeddings :: nat
  cm_missing_facet_embeddings :: nat
  cm_integrity_errors :: nat
  cm_diagnostic_rows_deleted :: nat
  cm_terminal_task_rows_deleted :: nat
  cm_cleanup_candidate_count :: nat
  cm_objects_consolidated :: nat
  cm_retried_failed_round_semantic :: nat

text \<open>\<^verbatim>\<open>_non_negative_int(payload.get(name), name)\<close> and the same with a default of 0.\<close>

definition count_member :: "(string \<times> json) list \<Rightarrow> string \<Rightarrow> nat res" where
  "count_member payload name = non_negative_int (jget payload name) name"

definition count_member_0 :: "(string \<times> json) list \<Rightarrow> string \<Rightarrow> nat res" where
  "count_member_0 payload name = non_negative_int (jget_default payload name (JInt 0)) name"

definition maintenance_result_from_payload :: "(string \<times> json) list \<Rightarrow> control_maintenance_result res" where
  "maintenance_result_from_payload payload =
     rbind (strict_mapping payload [''status'', ''memory_echoes_reconciled'', ''stats_rebuilt'',
       ''stale_jobs_recovered'', ''findings_created'', ''duplicate_object_findings'', ''objects_consolidated'',
       ''missing_card_embeddings'', ''missing_facet_embeddings'', ''integrity_errors'',
       ''diagnostic_rows_deleted'', ''terminal_task_rows_deleted'', ''cleanup_candidate_count'',
       ''retried_failed_round_semantic''] ''control maintenance result'') (\<lambda>_.
     raise_if (jget payload ''status'' \<noteq> JStr ''completed'')
       (ValueError ''control maintenance status must be completed'')
     (rbind (count_member payload ''memory_echoes_reconciled'') (\<lambda>memory_echoes_reconciled.
     rbind (count_member payload ''stats_rebuilt'') (\<lambda>stats_rebuilt.
     rbind (count_member payload ''stale_jobs_recovered'') (\<lambda>stale_jobs_recovered.
     rbind (count_member payload ''findings_created'') (\<lambda>findings_created.
     rbind (count_member payload ''duplicate_object_findings'') (\<lambda>duplicate_object_findings.
     rbind (count_member_0 payload ''objects_consolidated'') (\<lambda>objects_consolidated.
     rbind (count_member_0 payload ''retried_failed_round_semantic'') (\<lambda>retried.
     rbind (count_member payload ''missing_card_embeddings'') (\<lambda>missing_card_embeddings.
     rbind (count_member payload ''missing_facet_embeddings'') (\<lambda>missing_facet_embeddings.
     rbind (count_member payload ''integrity_errors'') (\<lambda>integrity_errors.
     rbind (count_member_0 payload ''diagnostic_rows_deleted'') (\<lambda>diagnostic_rows_deleted.
     rbind (count_member_0 payload ''terminal_task_rows_deleted'') (\<lambda>terminal_task_rows_deleted.
     rbind (count_member_0 payload ''cleanup_candidate_count'') (\<lambda>cleanup_candidate_count.
     Inr \<lparr>cm_status = ''completed'', cm_memory_echoes_reconciled = memory_echoes_reconciled,
       cm_stats_rebuilt = stats_rebuilt, cm_stale_jobs_recovered = stale_jobs_recovered,
       cm_findings_created = findings_created, cm_duplicate_object_findings = duplicate_object_findings,
       cm_missing_card_embeddings = missing_card_embeddings,
       cm_missing_facet_embeddings = missing_facet_embeddings, cm_integrity_errors = integrity_errors,
       cm_diagnostic_rows_deleted = diagnostic_rows_deleted,
       cm_terminal_task_rows_deleted = terminal_task_rows_deleted,
       cm_cleanup_candidate_count = cleanup_candidate_count, cm_objects_consolidated = objects_consolidated,
       cm_retried_failed_round_semantic = retried\<rparr>)))))))))))))))"

definition maintenance_result_to_payload :: "control_maintenance_result \<Rightarrow> (string \<times> json) list" where
  "maintenance_result_to_payload r =
     [(''status'', JStr (cm_status r)),
      (''memory_echoes_reconciled'', JInt (int (cm_memory_echoes_reconciled r))),
      (''stats_rebuilt'', JInt (int (cm_stats_rebuilt r))),
      (''stale_jobs_recovered'', JInt (int (cm_stale_jobs_recovered r))),
      (''findings_created'', JInt (int (cm_findings_created r))),
      (''duplicate_object_findings'', JInt (int (cm_duplicate_object_findings r))),
      (''missing_card_embeddings'', JInt (int (cm_missing_card_embeddings r))),
      (''missing_facet_embeddings'', JInt (int (cm_missing_facet_embeddings r))),
      (''integrity_errors'', JInt (int (cm_integrity_errors r))),
      (''diagnostic_rows_deleted'', JInt (int (cm_diagnostic_rows_deleted r))),
      (''terminal_task_rows_deleted'', JInt (int (cm_terminal_task_rows_deleted r))),
      (''cleanup_candidate_count'', JInt (int (cm_cleanup_candidate_count r)))]"

section \<open>Statistics\<close>

record object_facet_statistics =
  of_object_count :: nat
  of_active_value_count :: nat
  of_superseded_value_count :: nat
  of_operational_backlog :: nat
  of_background_backlog :: nat
  of_embedding_backlog :: nat
  of_integrity_finding_count :: nat
  of_blocking_integrity_finding_count :: nat
  of_missing_card_embeddings :: "nat option"
  of_missing_facet_embeddings :: "nat option"
  of_legacy_digest_upgrade_required :: bool
  of_knowledge_row_count :: nat
  of_execution_row_count :: nat
  of_diagnostic_row_count :: nat
  of_legacy_row_count :: nat
  of_database_bytes :: nat
  of_oldest_diagnostic :: "string option"
  of_diagnostic_cleanup_candidate_count :: nat

definition optional_count :: "(string \<times> json) list \<Rightarrow> string \<Rightarrow> nat option res" where
  "optional_count payload name =
     (if jget payload name = JNull then Inr None
      else rbind (non_negative_int (jget payload name) name) (\<lambda>n. Inr (Some n)))"

definition statistics_from_payload :: "(string \<times> json) list \<Rightarrow> object_facet_statistics res" where
  "statistics_from_payload payload =
     rbind (strict_mapping payload [''object_count'', ''active_value_count'', ''superseded_value_count'',
       ''operational_backlog'', ''background_backlog'', ''embedding_backlog'', ''integrity_finding_count'',
       ''blocking_integrity_finding_count'', ''missing_card_embeddings'', ''missing_facet_embeddings'',
       ''legacy_digest_upgrade_required'', ''knowledge_row_count'', ''execution_row_count'',
       ''diagnostic_row_count'', ''legacy_row_count'', ''database_bytes'', ''oldest_diagnostic'',
       ''diagnostic_cleanup_candidate_count''] ''object-facet statistics'') (\<lambda>_.
     rbind (case jget_default payload ''legacy_digest_upgrade_required'' (JBool False) of
         JBool b \<Rightarrow> Inr b
       | _ \<Rightarrow> Inl (TypeError ''legacy_digest_upgrade_required must be a boolean'')) (\<lambda>legacy.
     rbind (count_member payload ''integrity_finding_count'') (\<lambda>integrity_finding_count.
     rbind (non_negative_int (jget_default payload ''blocking_integrity_finding_count''
         (JInt (int integrity_finding_count))) ''blocking_integrity_finding_count'') (\<lambda>blocking.
     raise_if (integrity_finding_count < blocking)
       (ValueError ''blocking_integrity_finding_count must not exceed integrity_finding_count'')
     (rbind (count_member payload ''object_count'') (\<lambda>object_count.
     rbind (count_member payload ''active_value_count'') (\<lambda>active_value_count.
     rbind (count_member payload ''superseded_value_count'') (\<lambda>superseded_value_count.
     rbind (count_member payload ''operational_backlog'') (\<lambda>operational_backlog.
     rbind (count_member payload ''background_backlog'') (\<lambda>background_backlog.
     rbind (count_member payload ''embedding_backlog'') (\<lambda>embedding_backlog.
     rbind (optional_count payload ''missing_card_embeddings'') (\<lambda>missing_card_embeddings.
     rbind (optional_count payload ''missing_facet_embeddings'') (\<lambda>missing_facet_embeddings.
     rbind (count_member_0 payload ''knowledge_row_count'') (\<lambda>knowledge_row_count.
     rbind (count_member_0 payload ''execution_row_count'') (\<lambda>execution_row_count.
     rbind (count_member_0 payload ''diagnostic_row_count'') (\<lambda>diagnostic_row_count.
     rbind (count_member_0 payload ''legacy_row_count'') (\<lambda>legacy_row_count.
     rbind (count_member_0 payload ''database_bytes'') (\<lambda>database_bytes.
     rbind (count_member_0 payload ''diagnostic_cleanup_candidate_count'') (\<lambda>cleanup.
     Inr \<lparr>of_object_count = object_count, of_active_value_count = active_value_count,
       of_superseded_value_count = superseded_value_count, of_operational_backlog = operational_backlog,
       of_background_backlog = background_backlog, of_embedding_backlog = embedding_backlog,
       of_integrity_finding_count = integrity_finding_count,
       of_blocking_integrity_finding_count = blocking,
       of_missing_card_embeddings = missing_card_embeddings,
       of_missing_facet_embeddings = missing_facet_embeddings,
       of_legacy_digest_upgrade_required = legacy, of_knowledge_row_count = knowledge_row_count,
       of_execution_row_count = execution_row_count, of_diagnostic_row_count = diagnostic_row_count,
       of_legacy_row_count = legacy_row_count, of_database_bytes = database_bytes,
       of_oldest_diagnostic = (case jget payload ''oldest_diagnostic'' of
           JNull \<Rightarrow> None | v \<Rightarrow> Some (py_str v)),
       of_diagnostic_cleanup_candidate_count = cleanup\<rparr>)))))))))))))))))))"

section \<open>Missing capabilities\<close>

text \<open>An absent or zero version prints as \<^verbatim>\<open>unavailable\<close>.\<close>

definition version_detail :: "string \<Rightarrow> nat option \<Rightarrow> nat option \<Rightarrow> string list" where
  "version_detail label advertised expected =
     (case expected of
        None \<Rightarrow> []
      | Some n \<Rightarrow> [label @ ''='' @ (case advertised of
            None \<Rightarrow> ''unavailable''
          | Some a \<Rightarrow> if a = 0 then ''unavailable'' else show_nat a)
          @ '' (required '' @ show_nat n @ '')''])"

definition capability_message ::
  "string list \<Rightarrow> string list \<Rightarrow> nat option \<Rightarrow> nat option \<Rightarrow> nat option \<Rightarrow> nat option \<Rightarrow> string" where
  "capability_message missing_operations missing_capabilities expected_schema advertised_schema
      expected_protocol advertised_protocol =
     (let details =
          (if missing_operations = [] then [] else [''operations='' @ join '','' missing_operations])
          @ (if missing_capabilities = [] then [] else [''capabilities='' @ join '','' missing_capabilities])
          @ version_detail ''schema'' advertised_schema expected_schema
          @ version_detail ''protocol'' advertised_protocol expected_protocol
      in ''Core capability validation failed: ''
         @ (if details = [] then ''no advertised support'' else join ''; '' details))"

section \<open>What maintenance reports keep\<close>

lemma count_member_int: "jget d name = JInt (int n) \<Longrightarrow> count_member d name = Inr n"
  by (simp add: count_member_def)

lemma count_member_0_int: "jget d name = JInt (int n) \<Longrightarrow> count_member_0 d name = Inr n"
  by (auto simp: count_member_0_def jget_def jget_default_def split: option.splits)

lemma count_member_0_absent: "name \<notin> set (jkeys d) \<Longrightarrow> count_member_0 d name = Inr 0"
  using non_negative_int_int [of 0 name]
  by (auto simp: count_member_0_def jget_default_def jkeys_def dest!: map_of_SomeD split: option.splits) force

lemma maintenance_payload_counts:
  "count_member (maintenance_result_to_payload r) ''memory_echoes_reconciled'' = Inr (cm_memory_echoes_reconciled r)"
  "count_member (maintenance_result_to_payload r) ''stats_rebuilt'' = Inr (cm_stats_rebuilt r)"
  "count_member (maintenance_result_to_payload r) ''stale_jobs_recovered'' = Inr (cm_stale_jobs_recovered r)"
  "count_member (maintenance_result_to_payload r) ''findings_created'' = Inr (cm_findings_created r)"
  "count_member (maintenance_result_to_payload r) ''duplicate_object_findings'' = Inr (cm_duplicate_object_findings r)"
  "count_member (maintenance_result_to_payload r) ''missing_card_embeddings'' = Inr (cm_missing_card_embeddings r)"
  "count_member (maintenance_result_to_payload r) ''missing_facet_embeddings'' = Inr (cm_missing_facet_embeddings r)"
  "count_member (maintenance_result_to_payload r) ''integrity_errors'' = Inr (cm_integrity_errors r)"
  by (rule count_member_int, simp add: maintenance_result_to_payload_def)+

lemma maintenance_payload_counts_0:
  "count_member_0 (maintenance_result_to_payload r) ''diagnostic_rows_deleted'' = Inr (cm_diagnostic_rows_deleted r)"
  "count_member_0 (maintenance_result_to_payload r) ''terminal_task_rows_deleted'' = Inr (cm_terminal_task_rows_deleted r)"
  "count_member_0 (maintenance_result_to_payload r) ''cleanup_candidate_count'' = Inr (cm_cleanup_candidate_count r)"
  by (rule count_member_0_int, simp add: maintenance_result_to_payload_def)+

lemma maintenance_payload_absent:
  "count_member_0 (maintenance_result_to_payload r) ''objects_consolidated'' = Inr 0"
  "count_member_0 (maintenance_result_to_payload r) ''retried_failed_round_semantic'' = Inr 0"
  by (rule count_member_0_absent, simp add: maintenance_result_to_payload_def)+

lemma maintenance_payload_status:
  "jget (maintenance_result_to_payload r) ''status'' = JStr (cm_status r)"
  "strict_mapping (maintenance_result_to_payload r) [''status'', ''memory_echoes_reconciled'', ''stats_rebuilt'',
       ''stale_jobs_recovered'', ''findings_created'', ''duplicate_object_findings'', ''objects_consolidated'',
       ''missing_card_embeddings'', ''missing_facet_embeddings'', ''integrity_errors'',
       ''diagnostic_rows_deleted'', ''terminal_task_rows_deleted'', ''cleanup_candidate_count'',
       ''retried_failed_round_semantic''] name = Inr ()"
  by (simp_all add: maintenance_result_to_payload_def strict_mapping_ok)

section \<open>Properties\<close>

text \<open>
  C35. The report of a maintenance run does not survive its own payload: whatever was counted, reading
  back \<open>to_payload\<close> gives the same report with no consolidated objects and no retried rounds, since
  \<open>to_payload\<close> leaves both counters out and \<open>from_payload\<close> reads an absent counter as zero.\<close>

theorem maintenance_result_payload_loses_counts:
  assumes "cm_status r = ''completed''"
  shows "maintenance_result_from_payload (maintenance_result_to_payload r)
     = Inr (r\<lparr>cm_objects_consolidated := 0, cm_retried_failed_round_semantic := 0\<rparr>)"
  using assms
  unfolding maintenance_result_from_payload_def maintenance_payload_counts maintenance_payload_counts_0
    maintenance_payload_absent maintenance_payload_status
  by (cases r) simp

lemma maintenance_result_payload_loses_counts_witness:
  "maintenance_result_from_payload (maintenance_result_to_payload \<lparr>cm_status = ''completed'',
     cm_memory_echoes_reconciled = 1, cm_stats_rebuilt = 2, cm_stale_jobs_recovered = 0,
     cm_findings_created = 0, cm_duplicate_object_findings = 0, cm_missing_card_embeddings = 0,
     cm_missing_facet_embeddings = 0, cm_integrity_errors = 0, cm_diagnostic_rows_deleted = 0,
     cm_terminal_task_rows_deleted = 0, cm_cleanup_candidate_count = 0, cm_objects_consolidated = 4,
     cm_retried_failed_round_semantic = 7\<rparr>)
   = Inr \<lparr>cm_status = ''completed'', cm_memory_echoes_reconciled = 1, cm_stats_rebuilt = 2,
     cm_stale_jobs_recovered = 0, cm_findings_created = 0, cm_duplicate_object_findings = 0,
     cm_missing_card_embeddings = 0, cm_missing_facet_embeddings = 0, cm_integrity_errors = 0,
     cm_diagnostic_rows_deleted = 0, cm_terminal_task_rows_deleted = 0, cm_cleanup_candidate_count = 0,
     cm_objects_consolidated = 0, cm_retried_failed_round_semantic = 0\<rparr>"
  by (subst maintenance_result_payload_loses_counts) simp_all

end
