(* ===== verification/Effects.thy ===== *)
theory Effects
  imports Prelude
begin

text \<open>
  Programs that change a state and may raise: the result or the exception, with the state in which it
  was raised. The combinators are the sequence, \<^verbatim>\<open>raise\<close>, \<^verbatim>\<open>try ... except\<close> and the loop over a list; the
  locale \<open>progress\<close> states what a relation between states needs so that it holds across all of them.
\<close>

named_theorems eff_simps

type_synonym ('s, 'e, 'a) eff = "'s \<Rightarrow> ('e + 'a) \<times> 's"

definition ereturn :: "'a \<Rightarrow> ('s, 'e, 'a) eff" where
  "ereturn x s = (Inr x, s)"

definition eraise :: "'e \<Rightarrow> ('s, 'e, 'a) eff" where
  "eraise e s = (Inl e, s)"

definition elift :: "'e + 'a \<Rightarrow> ('s, 'e, 'a) eff" where
  "elift r s = (r, s)"

definition ebind :: "('s, 'e, 'a) eff \<Rightarrow> ('a \<Rightarrow> ('s, 'e, 'b) eff) \<Rightarrow> ('s, 'e, 'b) eff" where
  "ebind m f s = (case m s of (Inl e, s') \<Rightarrow> (Inl e, s') | (Inr x, s') \<Rightarrow> f x s')"

definition ecatch :: "('s, 'e, 'a) eff \<Rightarrow> ('e \<Rightarrow> ('s, 'd, 'a) eff) \<Rightarrow> ('s, 'd, 'a) eff" where
  "ecatch m h s = (case m s of (Inl e, s') \<Rightarrow> h e s' | (Inr x, s') \<Rightarrow> (Inr x, s'))"

fun eforeach :: "('a \<Rightarrow> ('s, 'e, unit) eff) \<Rightarrow> 'a list \<Rightarrow> ('s, 'e, unit) eff" where
  "eforeach f [] = ereturn ()"
| "eforeach f (x # xs) = ebind (f x) (\<lambda>_. eforeach f xs)"

lemma eff_run [simp, eff_simps]:
  "ereturn x s = (Inr x, s)" "eraise e s = (Inl e, s)" "elift r s = (r, s)"
  by (simp_all add: ereturn_def eraise_def elift_def)

lemma ebind_cases:
  "ebind m f s = (r, t) \<longleftrightarrow>
     (\<exists>e. m s = (Inl e, t) \<and> r = Inl e) \<or> (\<exists>x u. m s = (Inr x, u) \<and> f x u = (r, t))"
  by (auto simp: ebind_def split: sum.splits prod.splits)

lemma ecatch_cases:
  "ecatch m h s = (r, t) \<longleftrightarrow>
     (\<exists>e u. m s = (Inl e, u) \<and> h e u = (r, t)) \<or> (\<exists>x. m s = (Inr x, t) \<and> r = Inr x)"
  by (auto simp: ecatch_def split: sum.splits prod.splits)

lemma ebind_run [eff_simps]:
  "m s = (Inl e, t) \<Longrightarrow> ebind m f s = (Inl e, t)"
  "m s = (Inr x, t) \<Longrightarrow> ebind m f s = f x t"
  by (simp_all add: ebind_def)

lemma ebind_assoc: "ebind (ebind m f) g = ebind m (\<lambda>x. ebind (f x) g)"
  by (auto simp: ebind_def fun_eq_iff split: prod.split sum.split)

lemma ecatch_run [eff_simps]:
  "m s = (Inl e, t) \<Longrightarrow> ecatch m h s = h e t"
  "m s = (Inr x, t) \<Longrightarrow> ecatch m h s = (Inr x, t)"
  by (simp_all add: ecatch_def)

section \<open>Relations across a program\<close>

text \<open>Whatever the outcome, the state afterwards is related to the state before.\<close>

definition keeps :: "('s \<Rightarrow> 's \<Rightarrow> bool) \<Rightarrow> ('s, 'e, 'a) eff \<Rightarrow> bool" where
  "keeps R m \<longleftrightarrow> (\<forall>s. R s (snd (m s)))"

lemma keepsD: "keeps R m \<Longrightarrow> m s = (r, t) \<Longrightarrow> R s t"
  by (metis keeps_def snd_conv)

locale progress =
  fixes R :: "'s \<Rightarrow> 's \<Rightarrow> bool"
  assumes refl: "R s s" and trans: "R s t \<Longrightarrow> R t u \<Longrightarrow> R s u"
begin

lemma keeps_pure: "keeps R (ereturn x)" "keeps R (eraise e)" "keeps R (elift r)"
  by (simp_all add: keeps_def refl)

lemma keeps_bind:
  assumes "keeps R m" "\<And>x. keeps R (f x)"
  shows "keeps R (ebind m f)"
  unfolding keeps_def
proof
  fix s
  obtain r t where "m s = (r, t)" by fastforce
  with assms show "R s (snd (ebind m f s))"
    by (cases r) (auto simp: keeps_def eff_simps intro: trans [OF _ assms(2) [unfolded keeps_def, rule_format]]
        dest: keepsD [OF assms(1)])
qed

lemma keeps_catch:
  assumes "keeps R m" "\<And>e. keeps R (h e)"
  shows "keeps R (ecatch m h)"
  unfolding keeps_def
proof
  fix s
  obtain r t where "m s = (r, t)" by fastforce
  with assms show "R s (snd (ecatch m h s))"
    by (cases r) (auto simp: keeps_def eff_simps intro: trans [OF _ assms(2) [unfolded keeps_def, rule_format]]
        dest: keepsD [OF assms(1)])
qed

lemma keeps_foreach: "(\<And>x. x \<in> set xs \<Longrightarrow> keeps R (f x)) \<Longrightarrow> keeps R (eforeach f xs)"
  by (induction xs) (auto intro: keeps_pure keeps_bind)

end

section \<open>Pre- and postconditions\<close>

text \<open>From a state with \<open>P\<close>, a return has \<open>Q\<close> and a raise has \<open>E\<close>.\<close>

definition hoare ::
  "('s \<Rightarrow> bool) \<Rightarrow> ('s, 'e, 'a) eff \<Rightarrow> ('a \<Rightarrow> 's \<Rightarrow> bool) \<Rightarrow> ('e \<Rightarrow> 's \<Rightarrow> bool) \<Rightarrow> bool" where
  "hoare P m Q E \<longleftrightarrow> (\<forall>s. P s \<longrightarrow> (case m s of (Inl e, t) \<Rightarrow> E e t | (Inr x, t) \<Rightarrow> Q x t))"

lemma hoareD:
  "hoare P m Q E \<Longrightarrow> P s \<Longrightarrow> m s = (Inr x, t) \<Longrightarrow> Q x t"
  "hoare P m Q E \<Longrightarrow> P s \<Longrightarrow> m s = (Inl e, t) \<Longrightarrow> E e t"
  by (force simp: hoare_def)+

lemma hoareI:
  assumes "\<And>s x t. P s \<Longrightarrow> m s = (Inr x, t) \<Longrightarrow> Q x t" "\<And>s e t. P s \<Longrightarrow> m s = (Inl e, t) \<Longrightarrow> E e t"
  shows "hoare P m Q E"
  using assms by (auto simp: hoare_def split: prod.split sum.split)

lemma hoare_pure:
  "(\<And>s. P s \<Longrightarrow> Q x s) \<Longrightarrow> hoare P (ereturn x) Q E" "(\<And>s. P s \<Longrightarrow> E e s) \<Longrightarrow> hoare P (eraise e) Q E"
  by (simp_all add: hoare_def)

lemma hoare_bind: "hoare P m R E \<Longrightarrow> (\<And>x. hoare (R x) (f x) Q E) \<Longrightarrow> hoare P (ebind m f) Q E"
  by (rule hoareI) (auto simp: ebind_cases dest: hoareD)

lemma hoare_catch: "hoare P m Q F \<Longrightarrow> (\<And>e. hoare (F e) (h e) Q E) \<Longrightarrow> hoare P (ecatch m h) Q E"
  by (rule hoareI) (auto simp: ecatch_cases dest: hoareD)

lemma hoare_if: "(c \<Longrightarrow> hoare P m Q E) \<Longrightarrow> (\<not> c \<Longrightarrow> hoare P m' Q E) \<Longrightarrow> hoare P (if c then m else m') Q E"
  by simp

lemma hoare_weaken:
  assumes "hoare P m Q E" "\<And>s. P' s \<Longrightarrow> P s" "\<And>x s. Q x s \<Longrightarrow> Q' x s" "\<And>e s. E e s \<Longrightarrow> E' e s"
  shows "hoare P' m Q' E'"
  using assms by (intro hoareI) (blast dest: hoareD)+

lemma hoare_exists: "(\<And>x. hoare (P x) m Q E) \<Longrightarrow> hoare (\<lambda>s. \<exists>x. P x s) m Q E"
  by (rule hoareI) (blast dest: hoareD)+

lemma hoare_given: "(b \<Longrightarrow> hoare P m Q E) \<Longrightarrow> hoare (\<lambda>s. b \<and> P s) m Q E"
  by (rule hoareI) (blast dest: hoareD)+

end
