(* ===== verification/CoreExecutionTaskWorker.thy ===== *)
theory CoreExecutionTaskWorker
  imports ExecutionTaskWire ControlContracts Effects "HOL-Library.Multiset"
begin

text \<open>
  The execution task worker (\<^verbatim>\<open>CoreExecutionTaskWorker\<close> of \<^verbatim>\<open>scheduler/core_execution_task_worker.py\<close>): it polls
  Core for leased tasks, runs them on the executor, submits the results, and reports what failed.

  The state is the worker with the list of the calls it has made. Everything outside the worker is the
  record \<open>surroundings\<close>: what the gateway, the executor's providers and the database do at a call may
  depend on all the calls before it, so no assumption is made on when they fail or recover.

  The worker imports the executor and its exceptions from the package \<^verbatim>\<open>ledgermind_inference\<close>, which is
  not part of the repository; it is composed here with the repository's own module of the same name,
  \<^verbatim>\<open>inference/core_task_executor.py\<close>.
\<close>

section \<open>State and surroundings\<close>

record audit_row =
  au_memory_space_id :: string
  au_profile_id :: "string option"
  au_operation :: string
  au_provider_kind :: string
  au_model :: string
  au_status :: string
  au_request_bytes :: nat
  au_response_bytes :: nat
  au_attempts :: nat
  au_error_code :: "string option"

datatype event =
    Polled poll_execution_tasks_command
  | BatchExecuted "generic_execution_task list"
  | Executed generic_execution_task bool
  | Audited audit_row
  | Submitted submit_execution_result_command "caught + bool"
  | FailReported fail_execution_task_command "caught + unit"

record execution_task_worker =
  xw_worker_id :: string
  xw_poll_limit :: int
  xw_lease_seconds :: int
  xw_closed :: bool
  xw_provider_circuit_open :: bool
  xw_calls :: "event list"

type_synonym 'a action = "(execution_task_worker, caught, 'a) eff"

record surroundings =
  en_spaces :: "event list \<Rightarrow> caught + string list"
  en_poll :: "event list \<Rightarrow> poll_execution_tasks_command \<Rightarrow> caught + (string \<times> json) list list"
  en_submit :: "event list \<Rightarrow> submit_execution_result_command \<Rightarrow> caught + bool"
  en_fail :: "event list \<Rightarrow> fail_execution_task_command \<Rightarrow> caught + unit"
  en_executor :: "event list \<Rightarrow> executor"
  en_later :: "event list \<Rightarrow> nat \<Rightarrow> executor"
  en_open :: "event list \<Rightarrow> caught + unit"
  en_record :: "event list \<Rightarrow> audit_row \<Rightarrow> bool"
  en_uuid :: "event list \<Rightarrow> string"
  en_parse_iso :: "string \<Rightarrow> bool option"
  en_re_ok :: "string \<Rightarrow> bool"

definition new_execution_task_worker :: "string \<Rightarrow> int \<Rightarrow> int \<Rightarrow> execution_task_worker res" where
  "new_execution_task_worker worker_id poll_limit lease_seconds =
     raise_if (blank worker_id) (ValueError ''worker_id must not be empty'')
     (raise_if (\<not> (1 \<le> poll_limit \<and> poll_limit \<le> 100)) (ValueError ''poll_limit must be between 1 and 100'')
     (raise_if (\<not> (1 \<le> lease_seconds \<and> lease_seconds \<le> 3600))
        (ValueError ''lease_seconds must be between 1 and 3600'')
     (Inr \<lparr>xw_worker_id = worker_id, xw_poll_limit = poll_limit, xw_lease_seconds = lease_seconds,
        xw_closed = False, xw_provider_circuit_open = False, xw_calls = []\<rparr>)))"

definition close_worker :: "execution_task_worker \<Rightarrow> execution_task_worker" where
  "close_worker w = w\<lparr>xw_closed := True\<rparr>"

definition logged :: "event \<Rightarrow> execution_task_worker \<Rightarrow> execution_task_worker" where
  "logged ev w = w\<lparr>xw_calls := xw_calls w @ [ev]\<rparr>"

definition request_id :: "surroundings \<Rightarrow> string \<Rightarrow> execution_task_worker \<Rightarrow> string" where
  "request_id env operation w = xw_worker_id w @ '':'' @ operation @ '':'' @ en_uuid env (xw_calls w)"

section \<open>Single calls\<close>

definition run_executor :: "surroundings \<Rightarrow> generic_execution_task \<Rightarrow> bool \<Rightarrow> generic_execution_result action" where
  "run_executor env t force w =
     (case execute (en_executor env (xw_calls w)) force t of
        Inl e \<Rightarrow> (Inl (caught_of e), logged (Executed t force) w)
      | Inr r \<Rightarrow> (Inr r, logged (Executed t force) w))"

definition submit_result ::
  "surroundings \<Rightarrow> generic_execution_task \<Rightarrow> generic_execution_result \<Rightarrow> string \<Rightarrow> bool action" where
  "submit_result env t r space w =
     (let command = \<lparr>se_request_id = request_id env ''submit'' w, se_task_id = gt_task_id t,
            se_memory_space_id = space, se_worker_id = xw_worker_id w, se_result = core_result_payload r\<rparr>;
          answer = en_submit env (xw_calls w) command
      in (answer, logged (Submitted command answer) w))"

definition report_failure :: "surroundings \<Rightarrow> string \<Rightarrow> string \<Rightarrow> string \<Rightarrow> bool \<Rightarrow> int \<Rightarrow> unit action" where
  "report_failure env task_id space error_code retryable retry_after_seconds w =
     (let command = \<lparr>fe_request_id = request_id env ''fail'' w, fe_task_id = task_id,
            fe_memory_space_id = space, fe_worker_id = xw_worker_id w, fe_error_code = error_code,
            fe_retryable = retryable, fe_retry_after_seconds = retry_after_seconds\<rparr>;
          answer = en_fail env (xw_calls w) command
      in (answer, logged (FailReported command answer) w))"

text \<open>\<^verbatim>\<open>value or "unknown"\<close>.\<close>

definition or_unknown :: "string option \<Rightarrow> string" where
  "or_unknown v = (case v of Some s \<Rightarrow> if s = [] then ''unknown'' else s | None \<Rightarrow> ''unknown'')"

definition audit_row_of :: "generic_execution_task \<Rightarrow> generic_execution_result \<Rightarrow> string \<Rightarrow> audit_row" where
  "audit_row_of t r space =
     (let a = gr_egress_audit r in
      \<lparr>au_memory_space_id = space, au_profile_id = ea_profile_id a,
       au_operation = (case gt_operation t of Some s \<Rightarrow> if s = [] then gt_task_kind t else s | None \<Rightarrow> gt_task_kind t),
       au_provider_kind = or_unknown (ea_provider a), au_model = or_unknown (ea_model a),
       au_status = (if ea_status a = [] then gr_status r else ea_status a),
       au_request_bytes = ea_input_bytes a, au_response_bytes = ea_output_bytes a, au_attempts = 1,
       au_error_code = gr_error_code r\<rparr>)"

text \<open>Opening the connection may raise; what goes wrong after that is swallowed.\<close>

definition record_egress_audit ::
  "surroundings \<Rightarrow> generic_execution_task \<Rightarrow> generic_execution_result \<Rightarrow> string \<Rightarrow> unit action" where
  "record_egress_audit env t r space w =
     (case en_open env (xw_calls w) of
        Inl e \<Rightarrow> (Inl e, w)
      | Inr _ \<Rightarrow>
          let row = audit_row_of t r space in
          (Inr (), if en_record env (xw_calls w) row then logged (Audited row) w else w))"

section \<open>Delivery\<close>

definition deliver_result ::
  "surroundings \<Rightarrow> generic_execution_task \<Rightarrow> generic_execution_result \<Rightarrow> string \<Rightarrow> unit action" where
  "deliver_result env t r space =
     (if gr_status r = ''completed''
      then ebind (submit_result env t r space) (\<lambda>accepted.
        if accepted then ereturn ()
        else eraise (caught_of (TransientCoreError ''Core did not accept execution result'')))
      else report_failure env (gt_task_id t) space (safe_error_code (gr_error_code r) (gr_status r))
        (execution_result_is_retryable r) (if execution_result_is_retryable r then 60 else 0))"

definition run_again ::
  "surroundings \<Rightarrow> generic_execution_task \<Rightarrow> string \<Rightarrow> generic_execution_result action" where
  "run_again env t space =
     ebind (run_executor env t True) (\<lambda>retry_result.
     ebind (record_egress_audit env t retry_result space) (\<lambda>_. ereturn retry_result))"

definition deliver_or_regenerate ::
  "surroundings \<Rightarrow> generic_execution_task \<Rightarrow> generic_execution_result \<Rightarrow> string \<Rightarrow> unit action" where
  "deliver_or_regenerate env t r space =
     ecatch (deliver_result env t r space) (\<lambda>e.
       if \<not> isinstance e [''DomainRejectedError''] \<or> gt_task_kind t \<notin> {''generate_json'', ''object_resolution''}
         \<or> ca_code e = Some ''invalid_execution_result''
       then eraise e
       else ebind (run_again env t space) (\<lambda>retry_result. deliver_result env t retry_result space))"

definition deliver_result_with_structured_retry ::
  "surroundings \<Rightarrow> generic_execution_task \<Rightarrow> generic_execution_result \<Rightarrow> string \<Rightarrow> unit action" where
  "deliver_result_with_structured_retry env t r space =
     ebind (record_egress_audit env t r space) (\<lambda>_.
     if gt_task_kind t \<in> {''generate_json'', ''object_resolution''} \<and> gr_status r = ''failed''
       \<and> gr_error_code r \<in> Some ` {''invalid_provider_response'', ''invalid_json_response'', ''invalid_model_output'',
           ''length_truncation'', ''schema_shape_failure''}
     then ebind (run_again env t space) (\<lambda>retry_result.
       if gr_status retry_result = ''completed'' then deliver_result env t retry_result space
       else deliver_or_regenerate env t retry_result space)
     else deliver_or_regenerate env t r space)"

definition fail_task :: "surroundings \<Rightarrow> string \<Rightarrow> string \<Rightarrow> caught \<Rightarrow> unit action" where
  "fail_task env task_id space e =
     (case classify_execution_error e of
        Inl err \<Rightarrow> eraise (caught_of err)
      | Inr c \<Rightarrow> report_failure env task_id space (fc_error_code c) (fc_retryable c) (fc_retry_after_seconds c))"

text \<open>\<^verbatim>\<open>str(raw_task.get("task_id", "unknown"))\<close>.\<close>

definition raw_task_id :: "(string \<times> json) list \<Rightarrow> string" where
  "raw_task_id raw_task = py_str (jget_default raw_task ''task_id'' (JStr ''unknown''))"

definition CIRCUIT_CODES :: "string list" where
  "CIRCUIT_CODES = [''authentication_failed'', ''provider_configuration_error'', ''provider_secret_missing'',
     ''secret_missing'']"

definition open_provider_circuit_on_failure :: "generic_execution_result \<Rightarrow> unit action" where
  "open_provider_circuit_on_failure r w =
     (Inr (), if gr_status r = ''failed'' \<and> gr_error_code r \<in> Some ` set CIRCUIT_CODES
        \<and> \<not> xw_provider_circuit_open w
      then w\<lparr>xw_provider_circuit_open := True\<rparr> else w)"

section \<open>Tasks\<close>

definition convert :: "surroundings \<Rightarrow> string \<Rightarrow> (string \<times> json) list \<Rightarrow> caught + generic_execution_task" where
  "convert env space raw_task = execution_task_from_wire (en_parse_iso env) (en_re_ok env) raw_task space"

definition process_task :: "surroundings \<Rightarrow> (string \<times> json) list \<Rightarrow> string \<Rightarrow> unit action" where
  "process_task env raw_task space =
     ecatch
       (ebind (elift (convert env space raw_task)) (\<lambda>t.
        ebind (run_executor env t False) (\<lambda>r.
        ebind (open_provider_circuit_on_failure r) (\<lambda>_.
        deliver_result_with_structured_retry env t r space))))
       (\<lambda>e. fail_task env (raw_task_id raw_task) space e)"

fun convert_tasks ::
  "surroundings \<Rightarrow> string \<Rightarrow> (string \<times> json) list list \<Rightarrow> generic_execution_task list action" where
  "convert_tasks env space [] = ereturn []"
| "convert_tasks env space (raw_task # raw_tasks) =
     (case convert env space raw_task of
        Inl e \<Rightarrow> ebind (fail_task env (raw_task_id raw_task) space e) (\<lambda>_. convert_tasks env space raw_tasks)
      | Inr t \<Rightarrow> ebind (convert_tasks env space raw_tasks) (\<lambda>ts. ereturn (t # ts)))"

definition settle ::
  "surroundings \<Rightarrow> string \<Rightarrow> generic_execution_task \<times> generic_execution_result \<Rightarrow> unit action" where
  "settle env space tr =
     (case tr of (t, r) \<Rightarrow>
        ebind (open_provider_circuit_on_failure r) (\<lambda>_.
        ecatch (deliver_result_with_structured_retry env t r space)
          (\<lambda>e. fail_task env (gt_task_id t) space e)))"

definition process_converted :: "surroundings \<Rightarrow> string \<Rightarrow> generic_execution_task list \<Rightarrow> unit action" where
  "process_converted env space converted w =
     (let w' = logged (BatchExecuted converted) w in
      case execute_batch (en_executor env (xw_calls w)) (en_later env (xw_calls w)) converted of
        Inl e \<Rightarrow> eforeach (\<lambda>t. fail_task env (gt_task_id t) space (caught_of e)) converted w'
      | Inr results \<Rightarrow>
          ebind (eforeach (settle env space) (zip converted results)) (\<lambda>_.
            if length results = length converted then ereturn ()
            else eraise (plain_error [''ValueError''] ''zip() arguments differ in length'')) w')"

definition process_tasks :: "surroundings \<Rightarrow> (string \<times> json) list list \<Rightarrow> string \<Rightarrow> unit action" where
  "process_tasks env raw_tasks space =
     ebind (convert_tasks env space raw_tasks) (\<lambda>converted.
     if converted = [] then ereturn () else process_converted env space converted)"

definition poll :: "surroundings \<Rightarrow> string \<Rightarrow> (string \<times> json) list list action" where
  "poll env space w =
     (let command = \<lparr>pe_request_id = request_id env ''poll'' w, pe_memory_space_id = space,
            pe_worker_id = xw_worker_id w, pe_limit = xw_poll_limit w, pe_lease_seconds = xw_lease_seconds w\<rparr>
      in (en_poll env (xw_calls w) command, logged (Polled command) w))"

fun process_spaces :: "surroundings \<Rightarrow> string list \<Rightarrow> nat \<Rightarrow> nat action" where
  "process_spaces env [] processed = ereturn processed"
| "process_spaces env (space # spaces) processed = (\<lambda>w.
     case poll env space w of
       (Inl _, w') \<Rightarrow> process_spaces env spaces processed w'
     | (Inr tasks, w') \<Rightarrow>
         ebind (process_tasks env tasks space) (\<lambda>_ w''.
           if xw_provider_circuit_open w'' then (Inr (processed + length tasks), w'')
           else process_spaces env spaces (processed + length tasks) w'') w')"

definition process_once :: "surroundings \<Rightarrow> nat action" where
  "process_once env w =
     (if xw_closed w then (Inl (plain_error [''RuntimeError''] ''Core execution task worker is closed''), w)
      else if xw_provider_circuit_open w then (Inr 0, w)
      else case en_spaces env (xw_calls w) of
        Inl e \<Rightarrow> (Inl e, w)
      | Inr spaces \<Rightarrow> process_spaces env spaces 0 w)"

section \<open>Accounting for calls\<close>

text \<open>What an action adds to the calls, by its outcome; one rule for each combinator.\<close>

definition does :: "'a action \<Rightarrow> (caught + 'a \<Rightarrow> event list \<Rightarrow> bool) \<Rightarrow> bool" where
  "does m Q \<longleftrightarrow> (\<forall>w r w'. m w = (r, w') \<longrightarrow> (\<exists>evs. xw_calls w' = xw_calls w @ evs \<and> Q r evs))"

text \<open>Which tasks an event settles: an accepted submission or a failure report that was taken.\<close>

definition settled :: "event \<Rightarrow> string list" where
  "settled ev = (case ev of
       Submitted c a \<Rightarrow> if a = Inr True then [se_task_id c] else []
     | FailReported c a \<Rightarrow> if isl a then [] else [fe_task_id c]
     | _ \<Rightarrow> [])"

definition settlements :: "event list \<Rightarrow> string list" where
  "settlements evs = concat (map settled evs)"

text \<open>An action that settles what it returns for, and nothing when it raises.\<close>

definition settles :: "'a action \<Rightarrow> ('a \<Rightarrow> string list) \<Rightarrow> bool" where
  "settles m ids \<longleftrightarrow> does m (\<lambda>r evs. settlements evs = (case r of Inl _ \<Rightarrow> [] | Inr x \<Rightarrow> ids x))"

text \<open>The total of a charge per event.\<close>

definition costs :: "(event \<Rightarrow> nat) \<Rightarrow> nat \<Rightarrow> 'a action \<Rightarrow> bool" where
  "costs charge n m \<longleftrightarrow> does m (\<lambda>_ evs. sum_list (map charge evs) \<le> n)"

definition returns :: "'a action \<Rightarrow> bool" where
  "returns m \<longleftrightarrow> (\<forall>w. \<exists>x w'. m w = (Inr x, w'))"

lemma settlements_simps [simp]:
  "settlements [] = []" "settlements (evs @ evs') = settlements evs @ settlements evs'"
  "settlements [ev] = settled ev"
  by (simp_all add: settlements_def)

lemma logged_simps [simp]:
  "xw_calls (logged ev w) = xw_calls w @ [ev]" "xw_worker_id (logged ev w) = xw_worker_id w"
  "xw_provider_circuit_open (logged ev w) = xw_provider_circuit_open w"
  by (simp_all add: logged_def)

lemma doesD: "does m Q \<Longrightarrow> m w = (r, w') \<Longrightarrow> \<exists>evs. xw_calls w' = xw_calls w @ evs \<and> Q r evs"
  by (simp add: does_def)

lemma does_pure:
  "Q (Inr x) [] \<Longrightarrow> does (ereturn x) Q" "Q (Inl e) [] \<Longrightarrow> does (eraise e) Q" "Q r [] \<Longrightarrow> does (elift r) Q"
  by (simp_all add: does_def)

lemma does_bind:
  assumes "does m P" "\<And>x. does (f x) Q" "\<And>e evs. P (Inl e) evs \<Longrightarrow> S (Inl e) evs"
    and "\<And>x evs r evs'. P (Inr x) evs \<Longrightarrow> Q r evs' \<Longrightarrow> S r (evs @ evs')"
  shows "does (ebind m f) S"
  unfolding does_def ebind_cases
proof (clarify, elim disjE exE conjE)
  fix w r w' x u
  assume "m w = (Inr x, u)" "f x u = (r, w')"
  with doesD [OF assms(1)] doesD [OF assms(2)] assms(4) show "\<exists>evs. xw_calls w' = xw_calls w @ evs \<and> S r evs"
    by (metis append.assoc)
qed (use doesD [OF assms(1)] assms(3) in blast)

lemma does_catch:
  assumes "does m P" "\<And>e. does (h e) Q" "\<And>x evs. P (Inr x) evs \<Longrightarrow> S (Inr x) evs"
    and "\<And>e evs r evs'. P (Inl e) evs \<Longrightarrow> Q r evs' \<Longrightarrow> S r (evs @ evs')"
  shows "does (ecatch m h) S"
  unfolding does_def ecatch_cases
proof (clarify, elim disjE exE conjE)
  fix w r w' e u
  assume "m w = (Inl e, u)" "h e u = (r, w')"
  with doesD [OF assms(1)] doesD [OF assms(2)] assms(4) show "\<exists>evs. xw_calls w' = xw_calls w @ evs \<and> S r evs"
    by (metis append.assoc)
qed (use doesD [OF assms(1)] assms(3) in blast)

lemma settles_pure: "settles (ereturn x) (\<lambda>_. [])" "settles (eraise e) ids"
  by (simp_all add: settles_def does_pure)

lemma settles_bind: "settles m (\<lambda>_. []) \<Longrightarrow> (\<And>x. settles (f x) ids) \<Longrightarrow> settles (ebind m f) ids"
  unfolding settles_def by (erule does_bind) auto

lemma settles_catch: "settles m ids \<Longrightarrow> (\<And>e. settles (h e) ids) \<Longrightarrow> settles (ecatch m h) ids"
  unfolding settles_def by (erule does_catch) auto

lemma costs_pure: "costs c n (ereturn x)" "costs c n (eraise e)" "costs c n (elift r)"
  by (simp_all add: costs_def does_pure)

lemma costs_bind: "costs c k m \<Longrightarrow> (\<And>x. costs c n (f x)) \<Longrightarrow> costs c (k + n) (ebind m f)"
  unfolding costs_def by (erule does_bind [where Q = "\<lambda>_ evs. sum_list (map c evs) \<le> n"]) auto

lemma costs_catch: "costs c k m \<Longrightarrow> (\<And>e. costs c n (h e)) \<Longrightarrow> costs c (k + n) (ecatch m h)"
  unfolding costs_def by (erule does_catch [where Q = "\<lambda>_ evs. sum_list (map c evs) \<le> n"]) auto

lemma costs_mono: "costs c k m \<Longrightarrow> k \<le> n \<Longrightarrow> costs c n m"
  unfolding costs_def does_def by (meson le_trans)

lemma costs_foreach: "(\<And>x. x \<in> set xs \<Longrightarrow> costs c n (f x)) \<Longrightarrow> costs c (n * length xs) (eforeach f xs)"
proof (induction xs)
  case (Cons x xs)
  then have "costs c (n + n * length xs) (ebind (f x) (\<lambda>_. eforeach f xs))" by (intro costs_bind) auto
  then show ?case by simp
qed (simp add: costs_pure)

lemma returnsD: "returns m \<Longrightarrow> \<exists>w'. m w = (Inr (), w')"
  by (simp add: returns_def)

lemma returns_catch: "(\<And>e. returns (h e)) \<Longrightarrow> returns (ecatch m h)"
  unfolding returns_def
proof
  fix w
  assume h: "\<And>e. \<forall>w. \<exists>x w'. h e w = (Inr x, w')"
  obtain r u where "m w = (r, u)" by fastforce
  with h show "\<exists>x w'. ecatch m h w = (Inr x, w')" by (cases r) (auto simp: eff_simps)
qed

lemma returns_foreach: "(\<And>x. x \<in> set xs \<Longrightarrow> returns (f x)) \<Longrightarrow> returns (eforeach f xs)"
proof (induction xs)
  case (Cons x xs)
  then have "returns (f x)" "returns (eforeach f xs)" by auto
  then show ?case unfolding returns_def eforeach.simps ebind_def by (metis (no_types, lifting) case_prod_conv old.sum.simps(6))
qed (simp add: returns_def)

text \<open>A loop whose steps settle one task each settles them all, in order.\<close>

lemma foreach_settles:
  assumes "\<And>x. x \<in> set xs \<Longrightarrow> settles (f x) (\<lambda>_. [g x])" "eforeach f xs w = (Inr (), w')"
  shows "\<exists>evs. xw_calls w' = xw_calls w @ evs \<and> settlements evs = map g xs"
  using assms
proof (induction xs arbitrary: w)
  case (Cons x xs)
  then obtain u where u: "f x w = (Inr (), u)" "eforeach f xs u = (Inr (), w')" by (auto simp: ebind_cases)
  from Cons.prems(1) have "settles (f x) (\<lambda>_. [g x])" by simp
  from doesD [OF this [unfolded settles_def] u(1)] obtain evs
    where "xw_calls u = xw_calls w @ evs" "settlements evs = [g x]" by auto
  moreover obtain evs' where "xw_calls w' = xw_calls u @ evs'" "settlements evs' = map g xs"
    using Cons.IH [OF _ u(2)] Cons.prems(1) by auto
  ultimately show ?case by (intro exI [of _ "evs @ evs'"]) simp
qed simp

section \<open>The calls of a task\<close>

lemma report_failure_does:
  "does (report_failure env i space code retryable after) (\<lambda>a evs. \<exists>c. evs = [FailReported c a] \<and> fe_task_id c = i
     \<and> fe_error_code c = code \<and> fe_retryable c = retryable \<and> fe_retry_after_seconds c = after)"
  by (auto simp: does_def report_failure_def Let_def)

lemma run_executor_does: "does (run_executor env t force) (\<lambda>a evs. evs = [Executed t force])"
  by (auto simp: does_def run_executor_def split: sum.splits)

lemma record_egress_audit_does:
  "does (record_egress_audit env t r space) (\<lambda>a evs. evs = [] \<or> (\<exists>row. evs = [Audited row]))"
  by (auto simp: does_def record_egress_audit_def Let_def split: sum.splits)

lemma open_circuit_does: "does (open_provider_circuit_on_failure r) (\<lambda>a evs. evs = [])"
  by (auto simp: does_def open_provider_circuit_on_failure_def)

lemma does_weaken: "does m P \<Longrightarrow> (\<And>r evs. P r evs \<Longrightarrow> Q r evs) \<Longrightarrow> does m Q"
  unfolding does_def by meson

lemma settles_calls:
  "settles (run_executor env t force) (\<lambda>_. [])" "settles (record_egress_audit env t r space) (\<lambda>_. [])"
  "settles (open_provider_circuit_on_failure r) (\<lambda>_. [])"
  "settles (report_failure env i space code retryable after) (\<lambda>_. [i])"
  unfolding settles_def
  by (rule does_weaken, rule run_executor_does record_egress_audit_does open_circuit_does report_failure_does,
      auto simp: settled_def split: sum.split)+

lemma deliver_result_settles: "settles (deliver_result env t r space) (\<lambda>_. [gt_task_id t])"
proof -
  have "does (ebind (submit_result env t r space) (\<lambda>accepted. if accepted then ereturn ()
        else eraise (caught_of (TransientCoreError ''Core did not accept execution result''))))
     (\<lambda>r evs. settlements evs = (case r of Inl _ \<Rightarrow> [] | Inr _ \<Rightarrow> [gt_task_id t]))"
    by (auto simp: does_def ebind_cases submit_result_def Let_def settled_def split: if_splits)
  then show ?thesis
    unfolding deliver_result_def using settles_calls(4) by (simp add: settles_def)
qed

lemma fail_task_settles: "settles (fail_task env i space e) (\<lambda>_. [i])"
  by (simp add: fail_task_def settles_calls settles_pure split: sum.split)

lemma run_again_settles: "settles (run_again env t space) (\<lambda>_. [])"
  unfolding run_again_def by (intro settles_bind settles_calls settles_pure)

lemma deliver_or_regenerate_settles: "settles (deliver_or_regenerate env t r space) (\<lambda>_. [gt_task_id t])"
  unfolding deliver_or_regenerate_def
  by (rule settles_catch [OF deliver_result_settles])
    (simp add: settles_pure settles_bind run_again_settles deliver_result_settles)

lemma deliver_with_retry_settles:
  "settles (deliver_result_with_structured_retry env t r space) (\<lambda>_. [gt_task_id t])"
  unfolding deliver_result_with_structured_retry_def
  by (rule settles_bind [OF settles_calls(2)])
    (simp add: settles_bind run_again_settles deliver_result_settles deliver_or_regenerate_settles)

lemma settle_settles: "settles (settle env space tr) (\<lambda>_. [gt_task_id (fst tr)])"
  unfolding settle_def
  by (cases tr) (simp add: settles_bind settles_calls settles_catch deliver_with_retry_settles fail_task_settles)

text \<open>When Core takes failure reports, no task stops the others.\<close>

lemma fail_task_returns:
  assumes "\<And>calls c. en_fail env calls c = Inr ()"
  shows "returns (fail_task env i space e)"
  using classify_reportable [of e]
  by (auto simp: returns_def fail_task_def report_failure_def reportable_def Let_def assms split: sum.splits)

lemma settle_returns:
  assumes "\<And>calls c. en_fail env calls c = Inr ()"
  shows "returns (settle env space tr)"
proof -
  obtain t r where tr: "tr = (t, r)" by fastforce
  have "returns (ecatch (deliver_result_with_structured_retry env t r space) (\<lambda>e. fail_task env (gt_task_id t) space e))"
    by (rule returns_catch) (rule fail_task_returns [OF assms])
  then show ?thesis
    by (simp add: settle_def tr returns_def ebind_def open_provider_circuit_on_failure_def)
qed

section \<open>Tasks and results correspond\<close>

lemma converted_task_id: "convert env space raw_task = Inr t \<Longrightarrow> gt_task_id t = raw_task_id raw_task"
proof -
  assume "convert env space raw_task = Inr t"
  from from_wire_task [OF this [unfolded convert_def]] obtain wire
    where wire: "task_from_payload (en_parse_iso env) (en_re_ok env) raw_task = Inr wire" "gt_task_id t = ct_task_id wire"
    by metis
  from wire(1) have "required_value (jget raw_task ''task_id'') ''task_id'' = Inr (ct_task_id wire)"
    unfolding task_from_payload_def res_simps Let_def by auto
  then have "jget raw_task ''task_id'' = JStr (ct_task_id wire)"
    by (auto simp: required_value_def required_ok split: json.splits)
  with wire(2) show ?thesis
    by (auto simp: raw_task_id_def jget_default_def jget_def py_str_def split: option.splits)
qed

lemma convert_tasks_settles:
  assumes "\<And>calls c. en_fail env calls c = Inr ()"
  shows "\<exists>ts w' evs. convert_tasks env space raw_tasks w = (Inr ts, w') \<and> xw_calls w' = xw_calls w @ evs
     \<and> mset (settlements evs) + mset (map gt_task_id ts) = mset (map raw_task_id raw_tasks)"
proof (induction raw_tasks arbitrary: w)
  case (Cons raw raws)
  show ?case
  proof (cases "convert env space raw")
    case (Inl e)
    obtain u where u: "fail_task env (raw_task_id raw) space e w = (Inr (), u)"
      using returnsD [OF fail_task_returns [OF assms]] by blast
    from doesD [OF fail_task_settles [unfolded settles_def] this] obtain evs
      where "xw_calls u = xw_calls w @ evs" "settlements evs = [raw_task_id raw]" by auto
    moreover obtain ts w' evs' where "convert_tasks env space raws u = (Inr ts, w')"
      "xw_calls w' = xw_calls u @ evs'"
      "mset (settlements evs') + mset (map gt_task_id ts) = mset (map raw_task_id raws)" using Cons.IH by blast
    ultimately show ?thesis using Inl u by (auto simp: ebind_def intro!: exI [of _ "evs @ evs'"])
  next
    case (Inr t)
    obtain ts w' evs where "convert_tasks env space raws w = (Inr ts, w')" "xw_calls w' = xw_calls w @ evs"
      "mset (settlements evs) + mset (map gt_task_id ts) = mset (map raw_task_id raws)" using Cons.IH by blast
    with Inr converted_task_id [OF Inr] show ?thesis by (auto simp: ebind_def)
  qed
qed simp

lemma batch_failure_length: "batch_failure tasks profiles e = Inr rs \<Longrightarrow> length rs = length tasks"
  by (auto simp: batch_failure_def Let_def res_simps)

lemma execute_batch_length: "execute_batch x later tasks = Inr rs \<Longrightarrow> length rs = length tasks"
  by (auto simp: execute_batch_def execute_embed_texts_batch_def execute_each_def Let_def
      dest!: rmap_length batch_failure_length resolve_profiles_None split: if_splits option.splits sum.splits prod.splits)

lemma process_converted_settles:
  assumes "\<And>calls c. en_fail env calls c = Inr ()"
  shows "\<exists>w' evs. process_converted env space ts w = (Inr (), w') \<and> xw_calls w' = xw_calls w @ evs
     \<and> settlements evs = map gt_task_id ts"
proof -
  define u where "u = logged (BatchExecuted ts) w"
  have u: "xw_calls u = xw_calls w @ [BatchExecuted ts]" "settled (BatchExecuted ts) = []"
    by (simp_all add: u_def settled_def)
  show ?thesis
  proof (cases "execute_batch (en_executor env (xw_calls w)) (en_later env (xw_calls w)) ts")
    case (Inl e)
    define f where "f = (\<lambda>t :: generic_execution_task. fail_task env (gt_task_id t) space (caught_of e))"
    obtain w' where w': "eforeach f ts u = (Inr (), w')"
      using returnsD [OF returns_foreach [of ts f]] fail_task_returns [OF assms] unfolding f_def by blast
    have "settles (f t) (\<lambda>_. [gt_task_id t])" for t unfolding f_def by (rule fail_task_settles)
    from foreach_settles [OF this w'] obtain evs where "xw_calls w' = xw_calls u @ evs" "settlements evs = map gt_task_id ts"
      by blast
    moreover have "process_converted env space ts w = (Inr (), w')"
      using w' Inl by (simp add: f_def process_converted_def Let_def u_def)
    ultimately show ?thesis using u by (intro exI [of _ w'] exI [of _ "BatchExecuted ts # evs"]) (simp add: settlements_def)
  next
    case (Inr rs)
    note len = execute_batch_length [OF Inr]
    obtain w' where w': "eforeach (settle env space) (zip ts rs) u = (Inr (), w')"
      using returnsD [OF returns_foreach [of "zip ts rs"]] settle_returns [OF assms] by blast
    have ids: "map (\<lambda>tr. gt_task_id (fst tr)) (zip ts rs) = map gt_task_id ts"
      using len [symmetric] by (induction ts rs rule: list_induct2) auto
    from foreach_settles [OF settle_settles w'] obtain evs
      where "xw_calls w' = xw_calls u @ evs" "settlements evs = map gt_task_id ts" unfolding ids by blast
    moreover have "process_converted env space ts w = (Inr (), w')"
      using w' Inr len by (simp add: process_converted_def Let_def u_def ebind_def)
    ultimately show ?thesis using u by (intro exI [of _ w'] exI [of _ "BatchExecuted ts # evs"]) (simp add: settlements_def)
  qed
qed

section \<open>Every task is settled\<close>

text \<open>
  C4. Every leased task is settled exactly once. When a batch of tasks is processed and Core takes
  failure reports, each task of the batch, malformed ones included, ends with one accepted submission
  or one failure report under its own id, whatever the executor, its providers, the submissions and
  the audit database do; no task stops the others.\<close>

theorem leased_tasks_settled_once:
  assumes "\<And>calls c. en_fail env calls c = Inr ()"
  shows "\<exists>w' evs. process_tasks env raw_tasks space w = (Inr (), w') \<and> xw_calls w' = xw_calls w @ evs
     \<and> mset (settlements evs) = mset (map raw_task_id raw_tasks)"
proof -
  obtain ts u evs where ts: "convert_tasks env space raw_tasks w = (Inr ts, u)" "xw_calls u = xw_calls w @ evs"
    "mset (settlements evs) + mset (map gt_task_id ts) = mset (map raw_task_id raw_tasks)"
    using convert_tasks_settles [OF assms] by blast
  obtain w' evs' where "process_converted env space ts u = (Inr (), w')" "xw_calls w' = xw_calls u @ evs'"
    "settlements evs' = map gt_task_id ts" using process_converted_settles [OF assms] by blast
  with ts show ?thesis
    by (cases "ts = []") (auto simp: process_tasks_def ebind_def)
qed
section \<open>Charges\<close>

text \<open>
  A charge with bounds for the messages to Core (\<open>g\<close>), for a repeated execution (\<open>x\<close>) and for a batch (\<open>b\<close>);
  audits are free. Every such charge is bounded over the tasks of a poll.
\<close>

locale call_charge =
  fixes c :: "event \<Rightarrow> nat" and g x b :: nat
  assumes audits: "c (Audited row) = 0" and submissions: "c (Submitted cmd a) \<le> g"
    and reports: "c (FailReported cmd' a') \<le> g" and executions: "c (Executed t force) \<le> x"
    and batches: "c (BatchExecuted ts) \<le> b"
begin

lemma costs_calls:
  "costs c x (run_executor env t force)" "costs c 0 (record_egress_audit env t r space)"
  "costs c 0 (open_provider_circuit_on_failure r)" "costs c g (report_failure env i space code retryable after)"
  unfolding costs_def
  by (rule does_weaken, rule run_executor_does record_egress_audit_does open_circuit_does report_failure_does,
      use audits reports executions in auto)+

lemma costs_submit: "costs c g (submit_result env t r space)"
  using submissions by (auto simp: costs_def does_def submit_result_def Let_def)

lemma costs_deliver_result: "costs c g (deliver_result env t r space)"
proof (cases "gr_status r = ''completed''")
  case True
  have "costs c (g + 0) (ebind (submit_result env t r space) (\<lambda>accepted. if accepted then ereturn ()
        else eraise (caught_of (TransientCoreError ''Core did not accept execution result''))))"
    by (rule costs_bind [OF costs_submit]) (split if_split, blast intro: costs_pure)
  with True show ?thesis by (simp add: deliver_result_def)
next
  case False
  then show ?thesis by (simp add: deliver_result_def costs_calls)
qed

lemma costs_run_again: "costs c x (run_again env t space)"
proof -
  have "costs c (x + (0 + 0)) (run_again env t space)"
    unfolding run_again_def by (intro costs_bind costs_calls costs_pure)
  then show ?thesis by simp
qed

lemma costs_deliver_or_regenerate: "costs c (g + (x + g)) (deliver_or_regenerate env t r space)"
  unfolding deliver_or_regenerate_def
  by (rule costs_catch [OF costs_deliver_result])
    (simp add: costs_pure costs_bind costs_run_again costs_deliver_result)

lemma costs_deliver_with_retry: "costs c (2 * x + 2 * g) (deliver_result_with_structured_retry env t r space)"
proof -
  have "costs c (0 + (x + (g + (x + g)))) (deliver_result_with_structured_retry env t r space)"
    unfolding deliver_result_with_structured_retry_def
  proof (rule costs_bind [OF costs_calls(2)])
    fix u :: unit
    have one: "costs c (x + (g + (x + g))) (ebind (run_again env t space) (\<lambda>q. if gr_status q = ''completed''
        then deliver_result env t q space else deliver_or_regenerate env t q space))"
      by (rule costs_bind [OF costs_run_again])
        (simp add: costs_mono [OF costs_deliver_result] costs_deliver_or_regenerate)
    have two: "costs c (x + (g + (x + g))) (deliver_or_regenerate env t r space)"
      by (rule costs_mono [OF costs_deliver_or_regenerate]) simp
    show "costs c (x + (g + (x + g))) (if gt_task_kind t \<in> {''generate_json'', ''object_resolution''} \<and> gr_status r = ''failed''
       \<and> gr_error_code r \<in> Some ` {''invalid_provider_response'', ''invalid_json_response'', ''invalid_model_output'',
           ''length_truncation'', ''schema_shape_failure''}
     then ebind (run_again env t space) (\<lambda>retry_result.
       if gr_status retry_result = ''completed'' then deliver_result env t retry_result space
       else deliver_or_regenerate env t retry_result space)
     else deliver_or_regenerate env t r space)"
      by (split if_split) (use one two in blast)
  qed
  then show ?thesis by (rule costs_mono) simp
qed

lemma costs_fail_task: "costs c g (fail_task env i space e)"
  by (simp add: fail_task_def costs_calls costs_pure split: sum.split)

lemma costs_settle: "costs c (2 * x + 3 * g) (settle env space tr)"
proof -
  have "costs c (0 + ((2 * x + 2 * g) + g)) (settle env space tr)"
    unfolding settle_def
    by (cases tr) (simp only: prod.case, intro costs_bind costs_calls costs_catch costs_deliver_with_retry costs_fail_task)
  then show ?thesis by (rule costs_mono) simp
qed

lemma costs_process_converted: "costs c (b + (2 * x + 3 * g) * length ts) (process_converted env space ts)"
proof -
  have batch: "costs c (b + n) (\<lambda>w. m w (logged (BatchExecuted ts) w))"
    if "\<And>w. costs c n (m w)" for n and m :: "execution_task_worker \<Rightarrow> unit action"
    unfolding costs_def does_def
  proof (intro allI impI)
    fix w r w'
    assume "m w (logged (BatchExecuted ts) w) = (r, w')"
    with that [of w] obtain evs where evs: "xw_calls w' = xw_calls (logged (BatchExecuted ts) w) @ evs" "sum_list (map c evs) \<le> n"
      unfolding costs_def does_def by blast
    show "\<exists>evs. xw_calls w' = xw_calls w @ evs \<and> sum_list (map c evs) \<le> b + n"
      using evs batches by (intro exI [of _ "BatchExecuted ts # evs"]) (simp add: add_mono)
  qed
  define m where "m = (\<lambda>w :: execution_task_worker.
     case execute_batch (en_executor env (xw_calls w)) (en_later env (xw_calls w)) ts of
        Inl e \<Rightarrow> eforeach (\<lambda>t. fail_task env (gt_task_id t) space (caught_of e)) ts
      | Inr results \<Rightarrow> ebind (eforeach (settle env space) (zip ts results)) (\<lambda>_.
            if length results = length ts then ereturn ()
            else eraise (plain_error [''ValueError''] ''zip() arguments differ in length'')))"
  have fails: "costs c ((2 * x + 3 * g) * length ts) (eforeach (\<lambda>t. fail_task env (gt_task_id t) space (caught_of e)) ts)" for e
    by (rule costs_foreach) (rule costs_mono [OF costs_fail_task], simp)
  have settled: "costs c ((2 * x + 3 * g) * length (zip ts rs) + 0) (ebind (eforeach (settle env space) (zip ts rs)) (\<lambda>_.
            if length rs = length ts then ereturn ()
            else eraise (plain_error [''ValueError''] ''zip() arguments differ in length'')))" for rs
    by (intro costs_bind costs_foreach costs_settle) (simp add: costs_pure)
  have "costs c ((2 * x + 3 * g) * length ts) (m w)" for w
    unfolding m_def using fails costs_mono [OF settled] by (simp split: sum.split)
  note bound = batch [of _ m, OF this]
  have "process_converted env space ts = (\<lambda>w. m w (logged (BatchExecuted ts) w))"
    by (rule ext) (simp add: process_converted_def m_def Let_def split: sum.split)
  with bound show ?thesis by simp
qed

lemma convert_tasks_costs:
  "does (convert_tasks env space raws) (\<lambda>r evs. case r of Inl _ \<Rightarrow> sum_list (map c evs) \<le> g * length raws
     | Inr ts \<Rightarrow> sum_list (map c evs) + g * length ts \<le> g * length raws \<and> length ts \<le> length raws)"
proof (induction raws)
  case (Cons raw raws)
  show ?case
  proof (cases "convert env space raw")
    case (Inl e)
    have "does (ebind (fail_task env (raw_task_id raw) space e) (\<lambda>_. convert_tasks env space raws))
      (\<lambda>r evs. case r of Inl _ \<Rightarrow> sum_list (map c evs) \<le> g * length (raw # raws)
       | Inr ts \<Rightarrow> sum_list (map c evs) + g * length ts \<le> g * length (raw # raws) \<and> length ts \<le> length (raw # raws))"
      by (rule does_bind [OF costs_fail_task [unfolded costs_def] Cons.IH]) (auto split: sum.splits)
    with Inl show ?thesis by simp
  next
    case (Inr t)
    have "does (ebind (convert_tasks env space raws) (\<lambda>ts. ereturn (t # ts)))
      (\<lambda>r evs. case r of Inl _ \<Rightarrow> sum_list (map c evs) \<le> g * length (raw # raws)
       | Inr ts \<Rightarrow> sum_list (map c evs) + g * length ts \<le> g * length (raw # raws) \<and> length ts \<le> length (raw # raws))"
      using Cons.IH by (fastforce simp: does_def ebind_cases split: sum.splits)
    with Inr show ?thesis by simp
  qed
qed (simp only: convert_tasks.simps, rule does_pure, simp)

lemma costs_process_tasks: "costs c (b + (2 * x + 3 * g) * length raws) (process_tasks env raws space)"
proof -
  have total: "s + k \<le> b + (2 * x + 3 * g) * length raws"
    if "s + g * n \<le> g * length raws" "n \<le> length raws" "k \<le> b + (2 * x + 3 * g) * n" for s k n
  proof -
    have "(2 * x + 2 * g) * n \<le> (2 * x + 2 * g) * length raws" using that(2) by (rule mult_le_mono2)
    with that show ?thesis by (simp add: algebra_simps)
  qed
  show ?thesis
    unfolding costs_def does_def process_tasks_def ebind_cases
  proof (clarify, elim disjE exE conjE)
    fix w r w' e assume "convert_tasks env space raws w = (Inl e, w')" "r = Inl e"
    from doesD [OF convert_tasks_costs this(1)]
    show "\<exists>evs. xw_calls w' = xw_calls w @ evs \<and> sum_list (map c evs) \<le> b + (2 * x + 3 * g) * length raws"
      by (auto simp: algebra_simps)
  next
    fix w r w' ts u
    assume ts: "convert_tasks env space raws w = (Inr ts, u)"
      and r: "(if ts = [] then ereturn () else process_converted env space ts) u = (r, w')"
    from doesD [OF convert_tasks_costs ts] obtain evs where evs: "xw_calls u = xw_calls w @ evs"
      "sum_list (map c evs) + g * length ts \<le> g * length raws" "length ts \<le> length raws" by auto
    have "costs c (b + (2 * x + 3 * g) * length ts) (if ts = [] then ereturn () else process_converted env space ts)"
      by (simp add: costs_pure costs_process_converted)
    from doesD [OF this [unfolded costs_def] r] obtain evs'
      where "xw_calls w' = xw_calls u @ evs'" "sum_list (map c evs') \<le> b + (2 * x + 3 * g) * length ts" by blast
    with evs total show "\<exists>evs. xw_calls w' = xw_calls w @ evs \<and> sum_list (map c evs) \<le> b + (2 * x + 3 * g) * length raws"
      by (intro exI [of _ "evs @ evs'"]) simp
  qed
qed

end
definition executed :: "event \<Rightarrow> bool" where
  "executed ev = (case ev of Executed _ _ \<Rightarrow> True | _ \<Rightarrow> False)"

definition to_core :: "event \<Rightarrow> bool" where
  "to_core ev = (case ev of Submitted _ _ \<Rightarrow> True | FailReported _ _ \<Rightarrow> True | _ \<Rightarrow> False)"

definition batched :: "event \<Rightarrow> bool" where
  "batched ev = (case ev of BatchExecuted _ \<Rightarrow> True | _ \<Rightarrow> False)"

interpretation executions: call_charge "\<lambda>ev. of_bool (executed ev)" 0 1 0
  by unfold_locales (simp_all add: executed_def)

interpretation messages: call_charge "\<lambda>ev. of_bool (to_core ev)" 1 0 0
  by unfold_locales (simp_all add: to_core_def)

interpretation batches: call_charge "\<lambda>ev. of_bool (batched ev)" 0 0 1
  by unfold_locales (simp_all add: batched_def)

lemma sum_of_bool: "sum_list (map (\<lambda>ev. of_bool (P ev)) evs) = length (filter P evs)"
  by (induction evs) auto

text \<open>A generating task, and a Core that rejects what is reported of it.\<close>

definition gen_task :: generic_execution_task where
  "gen_task = \<lparr>gt_task_id = ''t'', gt_task_kind = ''generate_json'', gt_operation = None,
     gt_profile_slot = ''operational'', gt_model_request = Some \<lparr>mq_messages = [(''user'', ''hi'')],
       mq_max_output_tokens = 10, mq_response_format = None, mq_output_contract = None,
       mq_structured_output_requirement = None, mq_mode = ''auto'', mq_tool_name = None, mq_metadata = [],
       mq_seed = None\<rparr>,
     gt_embedding_request = None, gt_expires_at = None, gt_lease = None, gt_operation_input = None,
     gt_structured_generation = None\<rparr>"

definition rejecting_core :: surroundings where
  "rejecting_core = \<lparr>en_spaces = (\<lambda>_. Inr []), en_poll = (\<lambda>_ _. Inr []), en_submit = (\<lambda>_ _. Inr True),
     en_fail = (\<lambda>_ _. Inl (caught_of (DomainRejectedError ''STALE_EXECUTION_TASK'' ''stale''))),
     en_executor = (\<lambda>_. one_space\<lparr>ex_json_provider :=
       (\<lambda>_. (False, Finished, Inl (ExecFailure (Some ''schema_shape_failure'') None)))\<rparr>),
     en_later = (\<lambda>_ _. one_space), en_open = (\<lambda>_. Inr ()), en_record = (\<lambda>_ _. True), en_uuid = (\<lambda>_. ''u''),
     en_parse_iso = utc_only, en_re_ok = (\<lambda>_. True)\<rparr>"

definition fresh_worker :: execution_task_worker where
  "fresh_worker = \<lparr>xw_worker_id = ''w'', xw_poll_limit = 10, xw_lease_seconds = 300, xw_closed = False,
     xw_provider_circuit_open = False, xw_calls = []\<rparr>"

lemma second_regeneration:
  "length (filter executed (xw_calls (snd (deliver_result_with_structured_retry rejecting_core gen_task
     (failed_result gen_task ''schema_shape_failure'' 0 None ''failed'') ''space'' fresh_worker)))) = 2"
  by code_simp

text \<open>
  C7. The work of a poll is bounded, whatever Core and the providers answer: processing its tasks runs
  one batch, executes at most two further generations per task, and sends at most three messages per
  task. Two further generations of one task do happen: when the repeated one fails as well and Core rejects the
  report of it.\<close>

theorem poll_work_bounded:
  "\<exists>evs. xw_calls (snd (process_tasks env raw_tasks space w)) = xw_calls w @ evs
     \<and> length (filter batched evs) \<le> 1
     \<and> length (filter executed evs) \<le> 2 * length raw_tasks
     \<and> length (filter to_core evs) \<le> 3 * length raw_tasks
     \<and> length (filter executed (xw_calls (snd (deliver_result_with_structured_retry rejecting_core gen_task
           (failed_result gen_task ''schema_shape_failure'' 0 None ''failed'') ''space'' fresh_worker)))) = 2"
proof -
  obtain r w' where run: "process_tasks env raw_tasks space w = (r, w')" by fastforce
  from doesD [OF executions.costs_process_tasks [unfolded costs_def sum_of_bool] run]
    doesD [OF messages.costs_process_tasks [unfolded costs_def sum_of_bool] run]
    doesD [OF batches.costs_process_tasks [unfolded costs_def sum_of_bool] run]
  show ?thesis using run second_regeneration by auto
qed

section \<open>What is reported\<close>

definition STATUSES :: "string list" where
  "STATUSES = [''completed'', ''failed'', ''unknown_task_kind'', ''cancelled'', ''timeout'']"

text \<open>A failure report with a code of the closed set, or else the status of the result, and the delay of its kind.\<close>

definition closed_report :: "event \<Rightarrow> bool" where
  "closed_report ev = (case ev of
       FailReported c _ \<Rightarrow> fe_error_code c \<in> set SAFE_ERROR_CODES \<union> set STATUSES
         \<and> fe_retry_after_seconds c = (if fe_retryable c then 60 else 0)
     | _ \<Rightarrow> True)"

definition reports_closed :: "'a action \<Rightarrow> bool" where
  "reports_closed m \<longleftrightarrow> does m (\<lambda>_. list_all closed_report)"

lemma reports_closed_pure: "reports_closed (ereturn x)" "reports_closed (eraise e)"
  unfolding reports_closed_def by (rule does_pure, simp)+

lemma reports_closed_if: "reports_closed m \<Longrightarrow> reports_closed m' \<Longrightarrow> reports_closed (if c then m else m')"
  by (cases c) (simp_all only: if_True if_False)

lemma reports_closed_bind: "reports_closed m \<Longrightarrow> (\<And>x. reports_closed (f x)) \<Longrightarrow> reports_closed (ebind m f)"
  unfolding reports_closed_def by (erule does_bind [where Q = "\<lambda>_. list_all closed_report"]) auto

lemma reports_closed_catch: "reports_closed m \<Longrightarrow> (\<And>e. reports_closed (h e)) \<Longrightarrow> reports_closed (ecatch m h)"
  unfolding reports_closed_def by (erule does_catch [where Q = "\<lambda>_. list_all closed_report"]) auto

lemma reports_closed_foreach: "(\<And>x. x \<in> set xs \<Longrightarrow> reports_closed (f x)) \<Longrightarrow> reports_closed (eforeach f xs)"
  by (induction xs) (simp_all only: eforeach.simps reports_closed_pure, blast intro: reports_closed_bind list.set_intros)

text \<open>A bind whose first part fixes what the second part may rely on.\<close>

lemma reports_closed_bind_that:
  assumes "reports_closed m" "\<And>w x w'. m w = (Inr x, w') \<Longrightarrow> reports_closed (f x)"
  shows "reports_closed (ebind m f)"
  unfolding reports_closed_def does_def ebind_cases
proof (clarify, elim disjE exE conjE)
  fix w r w' x u assume run: "m w = (Inr x, u)" "f x u = (r, w')"
  from doesD [OF assms(1) [unfolded reports_closed_def] run(1)]
    doesD [OF assms(2) [OF run(1), unfolded reports_closed_def] run(2)]
  show "\<exists>evs. xw_calls w' = xw_calls w @ evs \<and> list_all closed_report evs" by fastforce
qed (use doesD [OF assms(1) [unfolded reports_closed_def]] in blast)

lemma reports_closed_calls:
  "reports_closed (run_executor env t force)" "reports_closed (record_egress_audit env t r space)"
  "reports_closed (open_provider_circuit_on_failure r)"
  unfolding reports_closed_def
  by (rule does_weaken, rule run_executor_does record_egress_audit_does open_circuit_does,
      auto simp: closed_report_def)+

lemma known_status:
  "gr_status (failure_result t e n p) \<in> set STATUSES" "gr_status (embedding_result t spec q b) \<in> set STATUSES"
  "gr_status (execute_embed_texts x t) \<in> set STATUSES"
  "execute x force t = Inr r \<Longrightarrow> gr_status r \<in> set STATUSES"
proof -
  show failed: "gr_status (failure_result t e n p) \<in> set STATUSES" for t e n p
    by (simp add: failure_result_def STATUSES_def split: exec_error.split)
  show emb: "gr_status (embedding_result t spec q b) \<in> set STATUSES" for t spec q b
    using embedding_result_cases [of t spec q b] by (auto simp: STATUSES_def failure_def)
  show embed: "gr_status (execute_embed_texts x t) \<in> set STATUSES"
    using execute_embed_texts_cases [of t x] by (auto simp: STATUSES_def failure_def)
  assume r: "execute x force t = Inr r"
  show "gr_status r \<in> set STATUSES"
  proof (cases "gt_task_kind t \<in> {''generate_json'', ''object_resolution''}")
    case True
    with r have "execute_generate_json (ex_json_provider x) force t = Inr r" by (simp add: execute_def)
    with execute_generate_json_cases [where provider = "ex_json_provider x" and force = force and t = t]
    show ?thesis by (auto simp: STATUSES_def failure_def)
  next
    case False
    with r embed show ?thesis
      by (auto simp: execute_def unknown_kind_result_def STATUSES_def split: if_splits)
  qed
qed

lemma batch_failure_status: "batch_failure tasks profiles e = Inr rs \<Longrightarrow> r \<in> set rs \<Longrightarrow> gr_status r \<in> set STATUSES"
  by (auto simp: batch_failure_def Let_def res_simps known_status)

lemma rmap_member: "rmap f xs = Inr ys \<Longrightarrow> y \<in> set ys \<Longrightarrow> \<exists>x\<in>set xs. f x = Inr y"
  by (induction xs arbitrary: ys) (auto simp: res_simps)

lemma execute_each_status: "execute_each later tasks = Inr rs \<Longrightarrow> r \<in> set rs \<Longrightarrow> gr_status r \<in> set STATUSES"
  by (auto simp: execute_each_def intro: known_status dest!: rmap_member)

lemma execute_batch_status:
  assumes "execute_batch x later tasks = Inr rs" "r \<in> set rs"
  shows "gr_status r \<in> set STATUSES"
proof -
  have "r \<in> set rs \<Longrightarrow> execute_embed_texts_batch x later tasks = Inr rs \<Longrightarrow> gr_status r \<in> set STATUSES"
    by (auto simp: execute_embed_texts_batch_def Let_def known_status batch_failure_status execute_each_status
        split: if_splits option.splits sum.splits prod.splits) (simp add: STATUSES_def)
  with assms show ?thesis by (auto simp: execute_batch_def execute_each_status split: if_splits)
qed

lemma deliver_result_closed: "gr_status r \<in> set STATUSES \<Longrightarrow> reports_closed (deliver_result env t r space)"
proof (cases "gr_status r = ''completed''")
  case True
  have "does (ebind (submit_result env t r space) (\<lambda>accepted. if accepted then ereturn ()
        else eraise (caught_of (TransientCoreError ''Core did not accept execution result'')))) (\<lambda>_. list_all closed_report)"
    by (auto simp: does_def ebind_cases submit_result_def Let_def closed_report_def split: if_splits)
  with True show ?thesis by (simp add: reports_closed_def deliver_result_def)
next
  case False
  assume "gr_status r \<in> set STATUSES"
  then have "safe_error_code (gr_error_code r) (gr_status r) \<in> set SAFE_ERROR_CODES \<union> set STATUSES"
    by (auto simp: safe_error_code_def split: option.split)
  with False show ?thesis
    by (auto simp: reports_closed_def deliver_result_def closed_report_def intro!: does_weaken [OF report_failure_does])
qed

lemma fail_task_closed: "reports_closed (fail_task env i space e)"
  using classify_reportable [of e]
  by (auto simp: reports_closed_def fail_task_def reportable_def closed_report_def
      intro!: does_weaken [OF report_failure_does] split: sum.splits)

lemma run_again_result: "run_again env t space w = (Inr r, w') \<Longrightarrow> gr_status r \<in> set STATUSES"
  by (auto simp: run_again_def ebind_cases run_executor_def split: sum.splits intro: known_status)

lemma run_again_closed: "reports_closed (run_again env t space)"
  unfolding run_again_def by (intro reports_closed_bind reports_closed_calls reports_closed_pure)

lemma deliver_or_regenerate_closed:
  assumes "gr_status r \<in> set STATUSES"
  shows "reports_closed (deliver_or_regenerate env t r space)"
proof -
  have again: "reports_closed (ebind (run_again env t space) (\<lambda>q. deliver_result env t q space))"
    by (rule reports_closed_bind_that [OF run_again_closed]) (rule deliver_result_closed, erule run_again_result)
  show ?thesis
    unfolding deliver_or_regenerate_def
    by (rule reports_closed_catch [OF deliver_result_closed [OF assms]])
      (rule reports_closed_if [OF reports_closed_pure(2) again])
qed

lemma deliver_with_retry_closed:
  assumes "gr_status r \<in> set STATUSES"
  shows "reports_closed (deliver_result_with_structured_retry env t r space)"
proof -
  have retry: "reports_closed (ebind (run_again env t space) (\<lambda>q. if gr_status q = ''completed''
      then deliver_result env t q space else deliver_or_regenerate env t q space))"
    by (rule reports_closed_bind_that [OF run_again_closed])
      (intro reports_closed_if deliver_result_closed deliver_or_regenerate_closed; erule run_again_result)
  show ?thesis
    unfolding deliver_result_with_structured_retry_def
    by (rule reports_closed_bind [OF reports_closed_calls(2)])
      (rule reports_closed_if [OF retry deliver_or_regenerate_closed [OF assms]])
qed

lemma settle_closed: "gr_status r \<in> set STATUSES \<Longrightarrow> reports_closed (settle env space (t, r))"
  unfolding settle_def prod.case
  by (intro reports_closed_bind reports_closed_calls reports_closed_catch deliver_with_retry_closed fail_task_closed)

lemma convert_tasks_closed: "reports_closed (convert_tasks env space raws)"
  by (induction raws) (auto simp only: convert_tasks.simps reports_closed_pure split: sum.split
      intro!: reports_closed_bind fail_task_closed reports_closed_pure)

lemma process_converted_closed: "reports_closed (process_converted env space ts)"
  unfolding reports_closed_def does_def
proof (intro allI impI)
  fix w r w' assume run: "process_converted env space ts w = (r, w')"
  define u where "u = logged (BatchExecuted ts) w"
  obtain m :: "unit action" where m: "reports_closed m" "m u = (r, w')"
  proof (cases "execute_batch (en_executor env (xw_calls w)) (en_later env (xw_calls w)) ts")
    case (Inl e)
    show ?thesis
    proof (rule that)
      show "reports_closed (eforeach (\<lambda>t. fail_task env (gt_task_id t) space (caught_of e)) ts)"
        by (rule reports_closed_foreach) (rule fail_task_closed)
      show "eforeach (\<lambda>t. fail_task env (gt_task_id t) space (caught_of e)) ts u = (r, w')"
        using run Inl by (simp add: process_converted_def u_def Let_def)
    qed
  next
    case (Inr rs)
    show ?thesis
    proof (rule that)
      have "reports_closed (eforeach (settle env space) (zip ts rs))"
        by (rule reports_closed_foreach) (auto dest!: set_zip_rightD intro: settle_closed execute_batch_status [OF Inr])
      then show "reports_closed (ebind (eforeach (settle env space) (zip ts rs)) (\<lambda>_.
          if length rs = length ts then ereturn ()
          else eraise (plain_error [''ValueError''] ''zip() arguments differ in length'')))"
        by (intro reports_closed_bind reports_closed_if reports_closed_pure)
      show "ebind (eforeach (settle env space) (zip ts rs)) (\<lambda>_.
          if length rs = length ts then ereturn ()
          else eraise (plain_error [''ValueError''] ''zip() arguments differ in length'')) u = (r, w')"
        using run Inr by (simp add: process_converted_def u_def Let_def)
    qed
  qed
  from doesD [OF m(1) [unfolded reports_closed_def] m(2)]
  show "\<exists>evs. xw_calls w' = xw_calls w @ evs \<and> list_all closed_report evs"
    by (auto simp: u_def closed_report_def)
qed

lemma process_tasks_closed: "reports_closed (process_tasks env raws space)"
  unfolding process_tasks_def
  by (intro reports_closed_bind reports_closed_if convert_tasks_closed reports_closed_pure process_converted_closed)

lemma process_spaces_closed:
  "process_spaces env spaces n w = (r, w') \<Longrightarrow> \<exists>evs. xw_calls w' = xw_calls w @ evs \<and> list_all closed_report evs"
proof (induction spaces arbitrary: n w)
  case (Cons space spaces)
  obtain a u where poll: "poll env space w = (a, u)" by fastforce
  then have u: "\<exists>cmd. xw_calls u = xw_calls w @ [Polled cmd]" by (auto simp: poll_def Let_def)
  have polled: "closed_report (Polled cmd)" for cmd by (simp add: closed_report_def)
  show ?case
  proof (cases a)
    case (Inl e)
    with Cons.prems poll have "process_spaces env spaces n u = (r, w')" by simp
    from Cons.IH [OF this] u polled show ?thesis by fastforce
  next
    case (Inr tasks)
    obtain a' v where v: "process_tasks env tasks space u = (a', v)" by fastforce
    from doesD [OF process_tasks_closed [unfolded reports_closed_def] v] obtain evs
      where evs: "xw_calls v = xw_calls u @ evs" "list_all closed_report evs" by blast
    have "v = w' \<or> process_spaces env spaces (n + length tasks) v = (r, w')"
      using Cons.prems poll Inr v by (cases a') (auto simp: ebind_def split: if_splits)
    with Cons.IH evs u polled show ?thesis by fastforce
  qed
qed simp

text \<open>
  C18. Nothing of a failure's content leaves the machine: every failure report that a pass sends to Core,
  whatever was raised and wherever, carries a code of the worker's closed list or the status word of
  the result, and a retry delay of sixty seconds exactly when the failure is retryable.\<close>

theorem reports_content_free:
  "\<exists>evs. xw_calls (snd (process_once env w)) = xw_calls w @ evs \<and>
     list_all (\<lambda>ev. case ev of FailReported c _ \<Rightarrow> fe_error_code c \<in> set SAFE_ERROR_CODES \<union> set STATUSES
         \<and> fe_retry_after_seconds c = (if fe_retryable c then 60 else 0) | _ \<Rightarrow> True) evs"
proof -
  obtain r w' where run: "process_once env w = (r, w')" by fastforce
  then have "w' = w \<or> (\<exists>spaces. process_spaces env spaces 0 w = (r, w'))"
    by (auto simp: process_once_def split: if_splits sum.splits)
  then have "\<exists>evs. xw_calls w' = xw_calls w @ evs \<and> list_all closed_report evs"
    using process_spaces_closed by fastforce
  with run show ?thesis unfolding closed_report_def by simp
qed

section \<open>The provider circuit\<close>

text \<open>What no action undoes: the calls made, the identity and closing of the worker, an open circuit.\<close>

definition advances :: "execution_task_worker \<Rightarrow> execution_task_worker \<Rightarrow> bool" where
  "advances w w' \<longleftrightarrow> prefix (xw_calls w) (xw_calls w') \<and> xw_worker_id w' = xw_worker_id w
     \<and> xw_closed w' = xw_closed w \<and> (xw_provider_circuit_open w \<longrightarrow> xw_provider_circuit_open w')"

interpretation worker: progress advances
  by unfold_locales (auto simp: advances_def)

lemmas worker_keeps = worker.keeps_pure worker.keeps_bind worker.keeps_catch worker.keeps_foreach

lemma advances_logged: "advances w (logged ev w)"
  by (simp add: advances_def logged_def)

lemma keeps_calls:
  "keeps advances (run_executor env t force)" "keeps advances (record_egress_audit env t r space)"
  "keeps advances (open_provider_circuit_on_failure r)" "keeps advances (submit_result env t r space)"
  "keeps advances (report_failure env i space code retryable after)" "keeps advances (poll env space)"
  by (auto simp: keeps_def run_executor_def record_egress_audit_def open_provider_circuit_on_failure_def
      submit_result_def report_failure_def poll_def Let_def advances_logged worker.refl split: sum.split)
    (simp add: advances_def)

lemma keeps_if: "keeps R m \<Longrightarrow> keeps R m' \<Longrightarrow> keeps R (if c then m else m')"
  by (cases c) (simp_all only: if_True if_False)

lemma keeps_deliver:
  "keeps advances (deliver_result env t r space)"
  "keeps advances (deliver_result_with_structured_retry env t r space)"
proof -
  show deliver: "keeps advances (deliver_result env t r space)" for t r space
    unfolding deliver_result_def by (intro keeps_if worker_keeps keeps_calls)
  show "keeps advances (deliver_result_with_structured_retry env t r space)"
    unfolding deliver_result_with_structured_retry_def deliver_or_regenerate_def run_again_def
    by (intro keeps_if worker_keeps keeps_calls deliver)
qed

lemma keeps_fail_task: "keeps advances (fail_task env i space e)"
  unfolding fail_task_def by (cases "classify_execution_error e") (simp_all only: sum.case keeps_calls worker_keeps)

lemma keeps_settle: "keeps advances (settle env space tr)"
  unfolding settle_def by (cases tr) (simp only: prod.case, intro worker_keeps keeps_calls keeps_deliver keeps_fail_task)

lemma keeps_convert_tasks: "keeps advances (convert_tasks env space raws)"
proof (induction raws)
  case (Cons raw raws)
  then show ?case
    by (cases "convert env space raw") (simp only: convert_tasks.simps sum.case, intro worker_keeps keeps_fail_task, assumption?)+
qed (simp only: convert_tasks.simps worker_keeps)

lemma keeps_process_converted: "keeps advances (process_converted env space ts)"
  unfolding keeps_def
proof
  fix w
  let ?u = "logged (BatchExecuted ts) w"
  have all: "keeps advances (eforeach (\<lambda>t. fail_task env (gt_task_id t) space e) ts)"
    "keeps advances (ebind (eforeach (settle env space) (zip ts rs)) (\<lambda>_.
          if length rs = length ts then ereturn ()
          else eraise (plain_error [''ValueError''] ''zip() arguments differ in length'')))" for e rs
    by (intro keeps_if worker_keeps keeps_fail_task keeps_settle)+
  show "advances w (snd (process_converted env space ts w))"
    using worker.trans [OF advances_logged [of w "BatchExecuted ts"]]
    by (simp add: process_converted_def Let_def all [unfolded keeps_def, rule_format] split: sum.split)
qed

lemma keeps_process_tasks: "keeps advances (process_tasks env raws space)"
  unfolding process_tasks_def
  by (intro keeps_if worker_keeps keeps_convert_tasks keeps_process_converted)

lemma keeps_process_spaces: "process_spaces env spaces n w = (r, w') \<Longrightarrow> advances w w'"
proof (induction spaces arbitrary: n w)
  case (Cons space spaces)
  obtain a u where u: "poll env space w = (a, u)" by fastforce
  note polled = keepsD [OF keeps_calls(6) u]
  show ?case
  proof (cases a)
    case (Inl e)
    with Cons.prems u Cons.IH polled show ?thesis by (auto intro: worker.trans)
  next
    case (Inr tasks)
    obtain a' v where v: "process_tasks env tasks space u = (a', v)" by fastforce
    note done_tasks = keepsD [OF keeps_process_tasks v]
    have "v = w' \<or> process_spaces env spaces (n + length tasks) v = (r, w')"
      using Cons.prems u Inr v by (cases a') (auto simp: ebind_def split: if_splits)
    with Cons.IH polled done_tasks show ?thesis by (blast intro: worker.trans)
  qed
qed (simp add: worker.refl)

text \<open>Once a pass has opened the provider circuit, no later pass polls Core, whatever the surroundings.\<close>

lemma open_circuit_stops_polling:
  assumes "process_once env w = (r, w')" and "\<not> xw_closed w" and "xw_provider_circuit_open w'"
  shows "process_once env' w' = (Inr 0, w')"
proof -
  have "w' = w \<or> (\<exists>spaces. process_spaces env spaces 0 w = (r, w'))"
    using assms(1) by (auto simp: process_once_def split: if_splits sum.splits)
  then have "advances w w'" using keeps_process_spaces worker.refl by blast
  with assms(2) have "\<not> xw_closed w'" by (simp add: advances_def)
  then show ?thesis using assms(3) by (simp add: process_once_def)
qed

text \<open>Two memory spaces, a task in the first, and an embedder without its secret.\<close>

definition no_secret :: surroundings where
  "no_secret = \<lparr>en_spaces = (\<lambda>_. Inr [''space-1'', ''space-2'']),
     en_poll = (\<lambda>_ _. Inr [task_to_payload example_task]), en_submit = (\<lambda>_ _. Inr True), en_fail = (\<lambda>_ _. Inr ()),
     en_executor = (\<lambda>_. one_space\<lparr>ex_embed_many :=
         (\<lambda>_. (False, Finished, Inl (ExecFailure (Some ''secret_missing'') None))),
       ex_resolve := (\<lambda>_ _. Inr \<lparr>pf_profile_id = ''p'', pf_model = ''m'', pf_base_url = None,
         pf_provider_kind = ''local'', pf_enabled = True\<rparr>)\<rparr>),
     en_later = (\<lambda>_ _. one_space), en_open = (\<lambda>_. Inr ()), en_record = (\<lambda>_ _. True), en_uuid = (\<lambda>_. ''u''),
     en_parse_iso = utc_only, en_re_ok = (\<lambda>_. True)\<rparr>"

lemma leased_tasks_settled_once_witness:
  "\<exists>w' evs. process_tasks no_secret [[], task_to_payload example_task] ''space-1'' fresh_worker = (Inr (), w')
     \<and> xw_calls w' = evs \<and> mset (settlements evs) = mset [''unknown'', ''task-1'']"
proof -
  have "map raw_task_id [[], task_to_payload example_task] = [''unknown'', ''task-1'']" by code_simp
  with leased_tasks_settled_once [of no_secret "[[], task_to_payload example_task]" "''space-1''" fresh_worker]
  show ?thesis by (auto simp: no_secret_def fresh_worker_def)
qed
end
