(* ===== verification/CoordinatedRestore.thy ===== *)
theory CoordinatedRestore
  imports Contracts Effects
begin

text \<open>
  The journalled restore of \<^verbatim>\<open>maintenance/coordinated_restore.py\<close>: Core and the Local rounds database are
  restored together, a durable journal says how far the restore came, and a failure is compensated on
  both sides.

  The world is what survives the process: the journal, the files, and Core, whose operations and state
  are parameters. Every step outside the service asks the argument \<open>fate\<close> whether it happens, raises, or
  whether the process dies at it; \<open>Died\<close> is caught by no handler. So a run is cut at any step, or fails at
  any number of them. The content of a file is opaque; \<open>intact\<close> is what SQLite's integrity check says. The
  results of completed restores are the one part of the world that belongs to the process.
\<close>

section \<open>The journal\<close>

datatype saga_error =
    Died
  | RestoreError string bool bool
  | Failed

text \<open>\<open>RestoreError code inconsistent compensated\<close>; \<open>Failed\<close> is any other exception.\<close>

record restore_journal =
  rj_restore_id :: string
  rj_state :: string
  rj_backup_id :: string
  rj_rounds_rollback_path :: string
  rj_core_restore_token :: string
  rj_core_restore_transaction_id :: "string option"
  rj_core_relative_path :: string
  rj_core_sha256 :: string
  rj_core_size_bytes :: int
  rj_core_schema_version :: int
  rj_rounds_snapshot_path :: string
  rj_core_exchange_path :: string
  rj_staging_dir :: string

definition journal_to_payload :: "restore_journal \<Rightarrow> (string \<times> json) list" where
  "journal_to_payload j =
     [(''journal_version'', JInt 1), (''restore_id'', JStr (rj_restore_id j)), (''state'', JStr (rj_state j)),
      (''backup_id'', JStr (rj_backup_id j)), (''rounds_rollback_path'', JStr (rj_rounds_rollback_path j)),
      (''core_restore_token'', JStr (rj_core_restore_token j)),
      (''core_restore_transaction_id'', opt_str (rj_core_restore_transaction_id j)),
      (''core_relative_path'', JStr (rj_core_relative_path j)), (''core_sha256'', JStr (rj_core_sha256 j)),
      (''core_size_bytes'', JInt (rj_core_size_bytes j)), (''core_schema_version'', JInt (rj_core_schema_version j)),
      (''rounds_snapshot_path'', JStr (rj_rounds_snapshot_path j)),
      (''core_exchange_path'', JStr (rj_core_exchange_path j)), (''staging_dir'', JStr (rj_staging_dir j))]"

definition JOURNAL_FIELDS :: "string list" where
  "JOURNAL_FIELDS = [''journal_version'', ''restore_id'', ''state'', ''backup_id'', ''rounds_rollback_path'',
     ''core_restore_token'', ''core_restore_transaction_id'', ''core_relative_path'', ''core_sha256'',
     ''core_size_bytes'', ''core_schema_version'', ''rounds_snapshot_path'', ''core_exchange_path'', ''staging_dir'']"

definition CORRUPT :: saga_error where
  "CORRUPT = RestoreError ''restore_journal_corrupt'' False False"

definition required_text :: "json \<Rightarrow> saga_error + string" where
  "required_text v = (case v of JStr s \<Rightarrow> raise_if (blank s) CORRUPT (Inr s) | _ \<Rightarrow> Inl CORRUPT)"

definition safe_identifier :: "json \<Rightarrow> saga_error + string" where
  "safe_identifier v = rbind (required_text v) (\<lambda>text.
     raise_if (256 < char_count text \<or> list_ex (\<lambda>c. c \<in> {CHR ''/'', CHR 0x5C, CHR 0x00}) text) CORRUPT (Inr text))"

text \<open>\<^verbatim>\<open>Path(text).parts\<close> of a relative path: the components, without empty ones and dots.\<close>

definition path_parts :: "string \<Rightarrow> string list" where
  "path_parts text = filter (\<lambda>p. p \<noteq> [] \<and> p \<noteq> ''.'') (split_on (CHR ''/'') text)"

definition safe_exchange_path :: "json \<Rightarrow> saga_error + string" where
  "safe_exchange_path v = rbind (required_text v) (\<lambda>text.
     raise_if (CHR 0x5C \<in> set text \<or> prefix ''/'' text \<or> list_ex (\<lambda>p. p = ''..'') (path_parts text)) CORRUPT
     (raise_if (take 2 (path_parts text) \<noteq> [''exchange'', ''incoming''] \<or> length (path_parts text) < 3) CORRUPT
     (Inr text)))"

text \<open>\<open>expand\<close> is \<^verbatim>\<open>Path(text).expanduser()\<close>.\<close>

definition journal_path :: "(string \<Rightarrow> string) \<Rightarrow> json \<Rightarrow> saga_error + string" where
  "journal_path expand v = rbind (required_text v) (\<lambda>text.
     raise_if (\<not> prefix ''/'' (expand text)) CORRUPT (Inr (expand text)))"

definition journal_from_payload :: "(string \<Rightarrow> string) \<Rightarrow> (string \<times> json) list \<Rightarrow> saga_error + restore_journal" where
  "journal_from_payload expand payload =
     raise_if (\<not> set (jkeys payload) \<subseteq> set JOURNAL_FIELDS) CORRUPT
     (raise_if (int_of (jget payload ''journal_version'') \<noteq> Some 1) CORRUPT
     (rbind (safe_identifier (jget payload ''restore_id'')) (\<lambda>restore_id.
     rbind (required_text (jget payload ''state'')) (\<lambda>state.
     rbind (safe_identifier (jget payload ''backup_id'')) (\<lambda>backup_id.
     rbind (safe_identifier (jget payload ''core_restore_token'')) (\<lambda>token.
     rbind (if jget payload ''core_restore_transaction_id'' = JNull then Inr None
       else rbind (safe_identifier (jget payload ''core_restore_transaction_id'')) (\<lambda>i. Inr (Some i))) (\<lambda>transaction_id.
     rbind (safe_exchange_path (jget payload ''core_relative_path'')) (\<lambda>relative_path.
     rbind (required_text (jget payload ''core_sha256'')) (\<lambda>core_sha256.
     rbind (case (jget payload ''core_size_bytes'', jget payload ''core_schema_version'') of
         (JInt size_bytes, JInt schema_version) \<Rightarrow>
           raise_if (size_bytes < 0 \<or> schema_version \<le> 0) CORRUPT (Inr (size_bytes, schema_version))
       | _ \<Rightarrow> Inl CORRUPT) (\<lambda>(size_bytes, schema_version).
     rbind (journal_path expand (jget payload ''rounds_rollback_path'')) (\<lambda>rounds_rollback_path.
     rbind (journal_path expand (jget payload ''rounds_snapshot_path'')) (\<lambda>rounds_snapshot_path.
     rbind (journal_path expand (jget payload ''core_exchange_path'')) (\<lambda>core_exchange_path.
     rbind (journal_path expand (jget payload ''staging_dir'')) (\<lambda>staging_dir.
     Inr \<lparr>rj_restore_id = restore_id, rj_state = state, rj_backup_id = backup_id,
       rj_rounds_rollback_path = rounds_rollback_path, rj_core_restore_token = token,
       rj_core_restore_transaction_id = transaction_id, rj_core_relative_path = relative_path,
       rj_core_sha256 = core_sha256, rj_core_size_bytes = size_bytes, rj_core_schema_version = schema_version,
       rj_rounds_snapshot_path = rounds_snapshot_path, rj_core_exchange_path = core_exchange_path,
       rj_staging_dir = staging_dir\<rparr>))))))))))))))"

definition with_state :: "restore_journal \<Rightarrow> string \<Rightarrow> string option \<Rightarrow> restore_journal" where
  "with_state j state transaction_id = j\<lparr>rj_state := state, rj_core_restore_transaction_id :=
     (case transaction_id of None \<Rightarrow> rj_core_restore_transaction_id j | Some i \<Rightarrow> Some i)\<rparr>"

section \<open>The world and its steps\<close>

datatype fate = Go | Raise | Die

datatype step = StopCore | StartCore | HealthCheck | CoreCall | JournalReplace | JournalSync
  | RoundsCopy | Sidecars | Verify | Unlink | Rmtree

record begin_result =
  bg_transaction_id :: string
  bg_relative_path :: string
  bg_sha256 :: string
  bg_size_bytes :: int
  bg_schema_version :: int

record restore_result =
  rs_restore_id :: string
  rs_state :: string
  rs_transaction_id :: "string option"

record ('c, 'd) world =
  wo_tick :: nat
  wo_journal :: "(string \<times> json) list option"
  wo_files :: "string \<Rightarrow> 'd option"
  wo_core :: 'c
  wo_completed :: "(string \<times> restore_result) list"

text \<open>
  The service: its paths, how the file system resolves the components of an absolute path, and Core's three
  operations. An operation of Core answers or raises (\<open>None\<close>), and changes Core's state in either case.
\<close>

record ('c, 'd) service =
  sv_rounds_path :: string
  sv_expand :: "string \<Rightarrow> string"
  sv_journal_path :: string
  sv_rollback_root :: string
  sv_core_data_dir :: string
  sv_resolve :: "string list \<Rightarrow> string list"
  sv_begin :: "string \<Rightarrow> 'c \<Rightarrow> begin_result option \<times> 'c"
  sv_commit :: "string \<Rightarrow> 'c \<Rightarrow> restore_result option \<times> 'c"
  sv_rollback :: "string \<Rightarrow> 'c \<Rightarrow> unit option \<times> 'c"
  sv_healthy :: "nat \<Rightarrow> bool"
  sv_intact :: "'d \<Rightarrow> bool"
  sv_fate :: "step \<Rightarrow> nat \<Rightarrow> fate"

type_synonym ('c, 'd, 'a) saga = "(('c, 'd) world, saga_error, 'a) eff"

definition step :: "('c, 'd) service \<Rightarrow> step \<Rightarrow> ('c, 'd, unit) saga" where
  "step sv lab w =
     (let w' = w\<lparr>wo_tick := Suc (wo_tick w)\<rparr> in
      case sv_fate sv lab (wo_tick w) of Go \<Rightarrow> (Inr (), w') | Raise \<Rightarrow> (Inl Failed, w') | Die \<Rightarrow> (Inl Died, w'))"

definition change :: "(('c, 'd) world \<Rightarrow> ('c, 'd) world) \<Rightarrow> ('c, 'd, unit) saga" where
  "change f w = (Inr (), f w)"

text \<open>\<^verbatim>\<open>try: m except Exception as exc: h\<close>.\<close>

definition attempt :: "('c, 'd, 'a) saga \<Rightarrow> (saga_error \<Rightarrow> ('c, 'd, 'a) saga) \<Rightarrow> ('c, 'd, 'a) saga" where
  "attempt m h = ecatch m (\<lambda>e. if e = Died then eraise Died else h e)"

definition write_journal :: "('c, 'd) service \<Rightarrow> restore_journal \<Rightarrow> ('c, 'd, unit) saga" where
  "write_journal sv j =
     ebind (step sv JournalReplace) (\<lambda>_.
     ebind (change (\<lambda>w. w\<lparr>wo_journal := Some (journal_to_payload j)\<rparr>)) (\<lambda>_.
     step sv JournalSync))"

definition within :: "('c, 'd) service \<Rightarrow> string \<Rightarrow> string list \<Rightarrow> bool" where
  "within sv path root \<longleftrightarrow> prefix root (sv_resolve sv (path_parts path))"

definition core_root :: "('c, 'd) service \<Rightarrow> string list" where
  "core_root sv = sv_resolve sv (path_parts (sv_core_data_dir sv))"

definition assert_local_ownership_boundary :: "('c, 'd) service \<Rightarrow> string + unit" where
  "assert_local_ownership_boundary sv =
     raise_if (within sv (sv_rounds_path sv) (core_root sv)) ''Local rounds database must not be inside Core data directory''
     (raise_if (within sv (sv_journal_path sv) (core_root sv)) ''Local restore journal must not be inside Core data directory''
     (Inr ()))"

definition validate_journal_paths :: "('c, 'd) service \<Rightarrow> restore_journal \<Rightarrow> saga_error + unit" where
  "validate_journal_paths sv j =
     raise_if (\<not> within sv (rj_rounds_rollback_path j) (sv_resolve sv (path_parts (sv_rollback_root sv)))) CORRUPT
     (raise_if (\<not> within sv (rj_staging_dir j) (core_root sv) \<or> \<not> within sv (rj_rounds_snapshot_path j) (core_root sv)) CORRUPT
     (raise_if (\<not> within sv (rj_core_exchange_path j) (core_root sv @ [''exchange'', ''incoming''])) CORRUPT
     (raise_if (sv_resolve sv (core_root sv @ path_parts (rj_core_relative_path j))
         \<noteq> sv_resolve sv (path_parts (rj_core_exchange_path j))) CORRUPT
     (raise_if (\<not> prefix ''sha256:'' (rj_core_sha256 j) \<or> char_count (rj_core_sha256 j) \<noteq> 71) CORRUPT (Inr ())))))"

definition read_journal :: "('c, 'd) service \<Rightarrow> ('c, 'd, restore_journal) saga" where
  "read_journal sv w =
     (case wo_journal w of
        None \<Rightarrow> (Inl CORRUPT, w)
      | Some payload \<Rightarrow>
         (case journal_from_payload (sv_expand sv) payload of
            Inl e \<Rightarrow> (Inl e, w)
          | Inr j \<Rightarrow> (rbind (validate_journal_paths sv j) (\<lambda>_. Inr j), w)))"

definition read_journal_or_none :: "('c, 'd) service \<Rightarrow> ('c, 'd, restore_journal option) saga" where
  "read_journal_or_none sv w =
     (case wo_journal w of
        None \<Rightarrow> (Inr None, w)
      | Some _ \<Rightarrow> ebind (read_journal sv) (\<lambda>j. ereturn (Some j)) w)"

definition unlink :: "('c, 'd) service \<Rightarrow> string \<Rightarrow> ('c, 'd, unit) saga" where
  "unlink sv path = ebind (step sv Unlink) (\<lambda>_. change (\<lambda>w. w\<lparr>wo_files := (wo_files w)(path := None)\<rparr>))"

text \<open>\<^verbatim>\<open>shutil.rmtree(dir, ignore_errors=True)\<close>.\<close>

definition rmtree :: "('c, 'd) service \<Rightarrow> string \<Rightarrow> ('c, 'd, unit) saga" where
  "rmtree sv dir =
     attempt (ebind (step sv Rmtree) (\<lambda>_. change (\<lambda>w. w\<lparr>wo_files := (\<lambda>p.
         if prefix (dir @ ''/'') p then None else wo_files w p)\<rparr>)))
       (\<lambda>_. ereturn ())"

definition unlink_journal :: "('c, 'd) service \<Rightarrow> ('c, 'd, unit) saga" where
  "unlink_journal sv = ebind (step sv Unlink) (\<lambda>_. change (\<lambda>w. w\<lparr>wo_journal := None\<rparr>))"

definition cleanup_failed_before_begin :: "('c, 'd) service \<Rightarrow> restore_journal \<Rightarrow> ('c, 'd, unit) saga" where
  "cleanup_failed_before_begin sv j =
     ebind (unlink sv (rj_rounds_rollback_path j)) (\<lambda>_.
     ebind (unlink sv (rj_core_exchange_path j)) (\<lambda>_.
     ebind (rmtree sv (rj_staging_dir j)) (\<lambda>_. unlink_journal sv)))"

definition cleanup_success :: "('c, 'd) service \<Rightarrow> restore_journal \<Rightarrow> ('c, 'd, unit) saga" where
  "cleanup_success sv j =
     ebind (cleanup_failed_before_begin sv j) (\<lambda>_. step sv JournalSync)"

definition mark_inconsistent :: "('c, 'd) service \<Rightarrow> restore_journal \<Rightarrow> ('c, 'd, unit) saga" where
  "mark_inconsistent sv j =
     attempt (write_journal sv (with_state j ''restore_inconsistent'' None)) (\<lambda>_. ereturn ())"

definition require_healthy :: "('c, 'd) service \<Rightarrow> ('c, 'd, unit) saga" where
  "require_healthy sv w =
     ebind (step sv HealthCheck) (\<lambda>_. if sv_healthy sv (wo_tick w) then ereturn ()
       else eraise (RestoreError ''restore_health_failed'' False False)) w"

definition safe_start_after_failure :: "('c, 'd) service \<Rightarrow> ('c, 'd, unit) saga" where
  "safe_start_after_failure sv = attempt (step sv StartCore) (\<lambda>_. ereturn ())"

section \<open>The databases\<close>

definition verify_sqlite :: "('c, 'd) service \<Rightarrow> string \<Rightarrow> ('c, 'd, unit) saga" where
  "verify_sqlite sv path =
     ebind (attempt (step sv Verify) (\<lambda>_. eraise (RestoreError ''restore_rounds_corrupt'' False False))) (\<lambda>_ w.
       if (case wo_files w path of Some d \<Rightarrow> sv_intact sv d | None \<Rightarrow> False) then (Inr (), w)
       else (Inl (RestoreError ''restore_rounds_corrupt'' False False), w))"

definition verify_rounds_database :: "('c, 'd) service \<Rightarrow> ('c, 'd, unit) saga" where
  "verify_rounds_database sv = verify_sqlite sv (sv_rounds_path sv)"

definition restore_rounds_database :: "('c, 'd) service \<Rightarrow> string \<Rightarrow> ('c, 'd, unit) saga" where
  "restore_rounds_database sv source w =
     (case wo_files w source of
        None \<Rightarrow> (Inl (RestoreError ''restore_rounds_failed'' False False), w)
      | Some d \<Rightarrow>
          attempt
            (ebind (verify_sqlite sv source) (\<lambda>_.
             ebind (step sv RoundsCopy) (\<lambda>_.
             ebind (change (\<lambda>w. w\<lparr>wo_files := (wo_files w)(sv_rounds_path sv := wo_files w source)\<rparr>)) (\<lambda>_.
             step sv Sidecars))))
            (\<lambda>e. case e of RestoreError _ _ _ \<Rightarrow> eraise e
               | _ \<Rightarrow> eraise (RestoreError ''restore_rounds_failed'' False False)) w)"

definition replace_rounds_database :: "('c, 'd) service \<Rightarrow> string \<Rightarrow> ('c, 'd, unit) saga" where
  "replace_rounds_database sv source =
     ebind (restore_rounds_database sv source) (\<lambda>_. verify_rounds_database sv)"

section \<open>Core\<close>

definition core_call :: "('c, 'd) service \<Rightarrow> ('c \<Rightarrow> 'r option \<times> 'c) \<Rightarrow> ('c, 'd, 'r) saga" where
  "core_call sv operation =
     ebind (step sv CoreCall) (\<lambda>_ w.
       case operation (wo_core w) of
         (Some r, c) \<Rightarrow> (Inr r, w\<lparr>wo_core := c\<rparr>)
       | (None, c) \<Rightarrow> (Inl Failed, w\<lparr>wo_core := c\<rparr>))"

definition rollback_core :: "('c, 'd) service \<Rightarrow> restore_journal \<Rightarrow> ('c, 'd, unit) saga" where
  "rollback_core sv j =
     (case rj_core_restore_transaction_id j of
        None \<Rightarrow> eraise (RestoreError ''restore_rollback_failed'' False False)
      | Some i \<Rightarrow> core_call sv (sv_rollback sv i))"

definition commit_core :: "('c, 'd) service \<Rightarrow> restore_journal \<Rightarrow> ('c, 'd, restore_result) saga" where
  "commit_core sv j =
     (case rj_core_restore_transaction_id j of
        None \<Rightarrow> eraise (RestoreError ''restore_commit_failed'' False False)
      | Some i \<Rightarrow> attempt (core_call sv (sv_commit sv i))
          (\<lambda>_. eraise (RestoreError ''restore_commit_failed'' False False)))"

definition verify_core_manifest :: "restore_journal \<Rightarrow> ('c, 'd, unit) saga" where
  "verify_core_manifest j =
     (if rj_backup_id j \<noteq> rj_core_sha256 j \<or> rj_core_size_bytes j < 0 \<or> rj_core_schema_version j \<le> 0
      then eraise (RestoreError ''restore_manifest_mismatch'' False False) else ereturn ())"

text \<open>Whether an action failed; compensation goes on in either case.\<close>

definition failed :: "('c, 'd, unit) saga \<Rightarrow> ('c, 'd, bool) saga" where
  "failed m = attempt (ebind m (\<lambda>_. ereturn False)) (\<lambda>_. ereturn True)"

definition INCONSISTENT :: saga_error where
  "INCONSISTENT = RestoreError ''restore_inconsistent'' True False"

text \<open>Compensation ends by raising in every case.\<close>

definition compensate :: "('c, 'd) service \<Rightarrow> restore_journal \<Rightarrow> string \<Rightarrow> bool \<Rightarrow> ('c, 'd, 'a) saga" where
  "compensate sv j original_code stopped =
     (if rj_core_restore_transaction_id j = None then
        ebind (attempt (write_journal sv (with_state j ''begin_pending'' None))
          (\<lambda>_. ebind (mark_inconsistent sv j) (\<lambda>_. eraise INCONSISTENT))) (\<lambda>_.
        eraise (RestoreError original_code False True))
      else
        ebind (if stopped then ereturn False else failed (step sv StopCore)) (\<lambda>f1.
        ebind (failed (rollback_core sv j)) (\<lambda>f2.
        ebind (failed (ebind (restore_rounds_database sv (rj_rounds_rollback_path j))
          (\<lambda>_. verify_rounds_database sv))) (\<lambda>f3.
        ebind (failed (ebind (step sv StartCore) (\<lambda>_. require_healthy sv))) (\<lambda>f4.
        if f1 \<or> f2 \<or> f3 \<or> f4
        then ebind (mark_inconsistent sv j) (\<lambda>_. eraise INCONSISTENT)
        else
          ebind (write_journal sv (with_state j ''rolled_back'' None)) (\<lambda>_.
          ebind (cleanup_success sv (with_state j ''rolled_back'' None)) (\<lambda>_.
          eraise (RestoreError original_code False True))))))))"

definition begin_if_needed :: "('c, 'd) service \<Rightarrow> restore_journal \<Rightarrow> ('c, 'd, restore_journal) saga" where
  "begin_if_needed sv j =
     (case rj_core_restore_transaction_id j of
        Some _ \<Rightarrow> ereturn j
      | None \<Rightarrow>
          ebind (write_journal sv (with_state j ''begin_pending'' None)) (\<lambda>_.
          ebind (core_call sv (sv_begin sv (rj_core_restore_token j))) (\<lambda>r.
          let updated = with_state j ''applied_pending_commit'' (Some (bg_transaction_id r)) in
          ebind (write_journal sv updated) (\<lambda>_.
          if bg_relative_path r \<noteq> rj_core_relative_path j \<or> bg_sha256 r \<noteq> rj_core_sha256 j
            \<or> bg_size_bytes r \<noteq> rj_core_size_bytes j \<or> bg_schema_version r \<noteq> rj_core_schema_version j
          then compensate sv updated ''restore_manifest_mismatch'' True
          else ereturn updated))))"

section \<open>The operations of the service\<close>

text \<open>What the backup service prepared of an archive, with Core's one-time token.\<close>

record prepared_core =
  pc_staging_dir :: string
  pc_rounds_snapshot_path :: string
  pc_core_exchange_path :: string
  pc_relative_path :: string
  pc_sha256 :: string
  pc_size_bytes :: int
  pc_schema_version :: int
  pc_restore_token :: string

definition new_journal :: "string \<Rightarrow> string \<Rightarrow> prepared_core \<Rightarrow> restore_journal" where
  "new_journal restore_id rollback_path p =
     \<lparr>rj_restore_id = restore_id, rj_state = ''prepared'', rj_backup_id = pc_sha256 p,
      rj_rounds_rollback_path = rollback_path, rj_core_restore_token = pc_restore_token p,
      rj_core_restore_transaction_id = None, rj_core_relative_path = pc_relative_path p,
      rj_core_sha256 = pc_sha256 p, rj_core_size_bytes = pc_size_bytes p,
      rj_core_schema_version = pc_schema_version p, rj_rounds_snapshot_path = pc_rounds_snapshot_path p,
      rj_core_exchange_path = pc_core_exchange_path p, rj_staging_dir = pc_staging_dir p\<rparr>"

definition drop_prepared :: "('c, 'd) service \<Rightarrow> string \<Rightarrow> prepared_core \<Rightarrow> ('c, 'd, unit) saga" where
  "drop_prepared sv rollback_path p =
     ebind (unlink sv rollback_path) (\<lambda>_.
     ebind (unlink sv (pc_core_exchange_path p)) (\<lambda>_. rmtree sv (pc_staging_dir p)))"

text \<open>
  \<open>prepared\<close> is what the backup service returns or raises, with the files it leaves; \<open>restore_id\<close> is fresh.
\<close>

definition prepare_restore ::
  "('c, 'd) service \<Rightarrow> (saga_error + prepared_core) \<times> ((string \<Rightarrow> 'd option) \<Rightarrow> string \<Rightarrow> 'd option)
     \<Rightarrow> string \<Rightarrow> ('c, 'd, restore_journal) saga" where
  "prepare_restore sv prepared restore_id =
     ebind (read_journal_or_none sv) (\<lambda>existing.
     case existing of
       Some j \<Rightarrow> if rj_state j = ''restore_inconsistent'' then eraise INCONSISTENT else ereturn j
     | None \<Rightarrow>
         let rollback_path = sv_rollback_root sv @ ''/'' @ restore_id @ ''.sqlite'' in
         ebind (change (\<lambda>w. w\<lparr>wo_files := snd prepared (wo_files w)\<rparr>)) (\<lambda>_.
         case fst prepared of
           Inl e \<Rightarrow> attempt (eraise e) (\<lambda>e. ebind (unlink sv rollback_path) (\<lambda>_. eraise (case e of
               RestoreError _ _ _ \<Rightarrow> e | _ \<Rightarrow> RestoreError ''restore_prepare_failed'' False False)))
         | Inr p \<Rightarrow>
             let j = new_journal restore_id rollback_path p in
             attempt
               (ebind (step sv RoundsCopy) (\<lambda>_.
                ebind (change (\<lambda>w. w\<lparr>wo_files := (wo_files w)(rollback_path := wo_files w (sv_rounds_path sv))\<rparr>)) (\<lambda>_.
                ebind (write_journal sv j) (\<lambda>_. ereturn j))))
               (\<lambda>e. ebind (drop_prepared sv rollback_path p) (\<lambda>_. eraise (case e of RestoreError _ _ _ \<Rightarrow> e
                  | _ \<Rightarrow> RestoreError ''restore_prepare_failed'' False False)))))"

text \<open>
  The handlers of \<^verbatim>\<open>apply_restore\<close>, with the values that \<^verbatim>\<open>journal\<close>, \<^verbatim>\<open>stopped\<close> and \<^verbatim>\<open>began\<close> have where the
  exception was raised.
\<close>

definition handle :: "('c, 'd) service \<Rightarrow> restore_journal \<Rightarrow> bool \<Rightarrow> bool \<Rightarrow> saga_error \<Rightarrow> ('c, 'd, 'a) saga" where
  "handle sv j stopped began e =
     (case e of
        RestoreError code inconsistent compensated \<Rightarrow>
          if inconsistent \<or> compensated then eraise e
          else if began then compensate sv j code stopped
          else ebind (if stopped then safe_start_after_failure sv else ereturn ()) (\<lambda>_.
               ebind (cleanup_failed_before_begin sv j) (\<lambda>_. eraise e))
      | _ \<Rightarrow>
          if began then compensate sv j ''restore_apply_failed'' stopped
          else ebind (if stopped then safe_start_after_failure sv else ereturn ()) (\<lambda>_.
               ebind (cleanup_failed_before_begin sv j) (\<lambda>_.
               eraise (RestoreError ''restore_apply_failed'' False False))))"

definition guarded ::
  "('c, 'd) service \<Rightarrow> restore_journal \<Rightarrow> bool \<Rightarrow> bool \<Rightarrow> ('c, 'd, 'a) saga \<Rightarrow> ('c, 'd, 'a) saga" where
  "guarded sv j stopped began m = attempt m (handle sv j stopped began)"

definition apply_journal :: "('c, 'd) service \<Rightarrow> restore_journal \<Rightarrow> ('c, 'd, restore_result) saga" where
  "apply_journal sv j0 =
     (if rj_state j0 = ''committed'' then
        ereturn \<lparr>rs_restore_id = rj_restore_id j0, rs_state = ''committed'',
          rs_transaction_id = rj_core_restore_transaction_id j0\<rparr>
      else if rj_state j0 = ''restore_inconsistent'' then eraise INCONSISTENT
      else
        ebind (guarded sv j0 False (rj_core_restore_transaction_id j0 \<noteq> None) (step sv StopCore)) (\<lambda>_.
        ebind (guarded sv j0 True True (begin_if_needed sv j0)) (\<lambda>j1.
        ebind (guarded sv j1 True True (replace_rounds_database sv (rj_rounds_snapshot_path j0))) (\<lambda>_.
        let j2 = with_state j1 ''rounds_applied_pending_commit'' None in
        ebind (guarded sv j2 True True (write_journal sv j2)) (\<lambda>_.
        ebind (guarded sv j2 False True (ebind (step sv StartCore) (\<lambda>_.
          ebind (require_healthy sv) (\<lambda>_. verify_core_manifest j2)))) (\<lambda>_.
        let j3 = with_state j2 ''healthy_pending_commit'' None in
        ebind (guarded sv j3 False True (write_journal sv j3)) (\<lambda>_.
        ebind (guarded sv j3 False True (commit_core sv j3)) (\<lambda>commit.
        let j4 = with_state j3 ''committed'' None;
            result = \<lparr>rs_restore_id = rj_restore_id j4, rs_state = rs_state commit,
              rs_transaction_id = rs_transaction_id commit\<rparr> in
        ebind (guarded sv j4 False True
          (ebind (write_journal sv j4) (\<lambda>_.
           ebind (change (\<lambda>w. w\<lparr>wo_completed := AList.update (rj_restore_id j4) result (wo_completed w)\<rparr>)) (\<lambda>_.
           cleanup_success sv j4)))) (\<lambda>_.
        ereturn result)))))))))"

datatype restore_target = FromJournal | Prepared restore_journal | Stored restore_journal | ById string

definition apply_restore :: "('c, 'd) service \<Rightarrow> restore_target \<Rightarrow> ('c, 'd, restore_result) saga" where
  "apply_restore sv target =
     (case target of
        FromJournal \<Rightarrow> ebind (read_journal sv) (apply_journal sv)
      | Prepared j \<Rightarrow> (\<lambda>w. case map_of (wo_completed w) (rj_restore_id j) of
            Some r \<Rightarrow> (Inr r, w) | None \<Rightarrow> apply_journal sv j w)
      | Stored j \<Rightarrow> apply_journal sv j
      | ById i \<Rightarrow> ebind (read_journal sv) (\<lambda>j.
            if rj_restore_id j \<noteq> i then eraise (RestoreError ''restore_id_mismatch'' False False)
            else apply_journal sv j))"

definition rollback_journal :: "('c, 'd) service \<Rightarrow> restore_journal \<Rightarrow> ('c, 'd, restore_result option) saga" where
  "rollback_journal sv j =
     ebind (rollback_core sv j) (\<lambda>_.
     ebind (restore_rounds_database sv (rj_rounds_rollback_path j)) (\<lambda>_.
     ebind (verify_rounds_database sv) (\<lambda>_.
     ebind (step sv StartCore) (\<lambda>_.
     ebind (require_healthy sv) (\<lambda>_.
     let j' = with_state j ''rolled_back'' None in
     ebind (write_journal sv j') (\<lambda>_.
     ebind (cleanup_success sv j') (\<lambda>_.
     ereturn (Some \<lparr>rs_restore_id = rj_restore_id j', rs_state = ''rolled_back'',
       rs_transaction_id = rj_core_restore_transaction_id j'\<rparr>))))))))"

definition give_up :: "('c, 'd) service \<Rightarrow> restore_journal \<Rightarrow> saga_error \<Rightarrow> ('c, 'd, 'a) saga" where
  "give_up sv j e = ebind (mark_inconsistent sv j) (\<lambda>_. eraise INCONSISTENT)"

definition recover :: "('c, 'd) service \<Rightarrow> ('c, 'd, restore_result option) saga" where
  "recover sv =
     ebind (read_journal_or_none sv) (\<lambda>found.
     case found of
       None \<Rightarrow> ereturn None
     | Some j \<Rightarrow>
         if rj_state j = ''restore_inconsistent'' then eraise INCONSISTENT
         else if rj_state j = ''committed'' then
           ebind (cleanup_success sv j) (\<lambda>_. ereturn (Some \<lparr>rs_restore_id = rj_restore_id j,
             rs_state = ''committed'', rs_transaction_id = rj_core_restore_transaction_id j\<rparr>))
         else if rj_state j = ''prepared'' \<and> rj_core_restore_transaction_id j = None then
           ebind (cleanup_failed_before_begin sv j) (\<lambda>_. ereturn (Some \<lparr>rs_restore_id = rj_restore_id j,
             rs_state = ''rolled_back'', rs_transaction_id = None\<rparr>))
         else
           ebind (attempt (ebind (step sv StopCore) (\<lambda>_. begin_if_needed sv j)) (give_up sv j)) (\<lambda>j'.
           attempt (rollback_journal sv j') (give_up sv j')))"

end
