(* ===== verification/RestoreSafety.thy ===== *)
theory RestoreSafety
  imports CoordinatedRestore
begin

text \<open>
  A restore does not split Core from the rounds database (C22), and where it may (C23).

  The contract of Core is stated over the phase of its restore transaction. \<open>sound\<close> says what the journal
  in each of its states tells about Core, the database and the snapshot to roll back to; every operation of
  the service keeps it across failures and deaths, by the rules for pre- and postconditions of \<open>Effects\<close>.
\<close>

section \<open>Where a restore stands\<close>

datatype phase = Before | Pending | Committed | RolledBack

text \<open>
  The contract of Core's restore operations, over the phase of its restore transaction: each moves along
  its own edge or not at all, an answer means that the transaction has been begun, is committed, or is
  rolled back, and nothing leaves a phase that is final.
\<close>

definition core_contract :: "('c, 'd) service \<Rightarrow> ('c \<Rightarrow> phase) \<Rightarrow> bool" where
  "core_contract sv phase \<longleftrightarrow>
     (\<forall>i c r c'. sv_begin sv i c = (r, c') \<longrightarrow>
        (phase c' = phase c \<or> phase c = Before \<and> phase c' = Pending) \<and> (r \<noteq> None \<longrightarrow> phase c' \<noteq> Before))
     \<and> (\<forall>i c r c'. sv_commit sv i c = (r, c') \<longrightarrow>
        (phase c' = phase c \<or> phase c = Pending \<and> phase c' = Committed) \<and> (r \<noteq> None \<longrightarrow> phase c' = Committed))
     \<and> (\<forall>i c r c'. sv_rollback sv i c = (r, c') \<longrightarrow>
        (phase c' = phase c \<or> phase c = Pending \<and> phase c' = RolledBack) \<and> (r \<noteq> None \<longrightarrow> phase c' = RolledBack))"

text \<open>Removing files and syncing a directory may be cut short, but do not raise.\<close>

definition quiet_cleanup :: "('c, 'd) service \<Rightarrow> bool" where
  "quiet_cleanup sv \<longleftrightarrow> (\<forall>n. sv_fate sv Unlink n \<noteq> Raise \<and> sv_fate sv JournalSync n \<noteq> Raise)"

definition separate_paths :: "('c, 'd) service \<Rightarrow> restore_journal \<Rightarrow> bool" where
  "separate_paths sv j \<longleftrightarrow>
     (let rounds = sv_rounds_path sv; rollback = rj_rounds_rollback_path j; snapshot = rj_rounds_snapshot_path j;
          exchange = rj_core_exchange_path j; within = (\<lambda>p. prefix (rj_staging_dir j @ ''/'') p)
      in rounds \<noteq> rollback \<and> rounds \<noteq> snapshot \<and> rounds \<noteq> exchange \<and> rollback \<noteq> snapshot \<and> rollback \<noteq> exchange
         \<and> \<not> within rounds \<and> \<not> within rollback
         \<and> (\<forall>p\<in>{rollback, snapshot, exchange, rj_staging_dir j}. sv_expand sv p = p))"

text \<open>A restore: the service, the phase of Core, the prepared journal, and the data before and after.\<close>

record ('c, 'd) restore_case =
  rc_service :: "('c, 'd) service"
  rc_phase :: "'c \<Rightarrow> phase"
  rc_journal :: restore_journal
  rc_old :: 'd
  rc_new :: 'd

definition setting :: "('c, 'd) restore_case \<Rightarrow> bool" where
  "setting k \<longleftrightarrow> core_contract (rc_service k) (rc_phase k) \<and> quiet_cleanup (rc_service k)
     \<and> separate_paths (rc_service k) (rc_journal k)"

text \<open>The journal of a restore in a given state.\<close>

definition at_state :: "restore_journal \<Rightarrow> string \<Rightarrow> string option \<Rightarrow> restore_journal" where
  "at_state j0 state transaction_id = j0\<lparr>rj_state := state, rj_core_restore_transaction_id := transaction_id\<rparr>"

definition rounds_of :: "('c, 'd) restore_case \<Rightarrow> ('c, 'd) world \<Rightarrow> 'd option" where
  "rounds_of k w = wo_files w (sv_rounds_path (rc_service k))"

definition phase_of :: "('c, 'd) restore_case \<Rightarrow> ('c, 'd) world \<Rightarrow> phase" where
  "phase_of k w = rc_phase k (wo_core w)"

definition rollback_of :: "('c, 'd) restore_case \<Rightarrow> ('c, 'd) world \<Rightarrow> 'd option" where
  "rollback_of k w = wo_files w (rj_rounds_rollback_path (rc_journal k))"

text \<open>Both sides hold the restored data, or both hold the data from before.\<close>

definition sides_agree :: "('c, 'd) restore_case \<Rightarrow> ('c, 'd) world \<Rightarrow> bool" where
  "sides_agree k w \<longleftrightarrow>
     phase_of k w = Committed \<and> rounds_of k w = Some (rc_new k)
     \<or> phase_of k w \<in> {Before, RolledBack} \<and> rounds_of k w = Some (rc_old k)"

text \<open>What a journal in a state says about Core's phase, the rounds database and the rollback snapshot.\<close>

definition expected ::
  "('c, 'd) restore_case \<Rightarrow> string \<Rightarrow> string option \<Rightarrow> phase \<Rightarrow> 'd option \<Rightarrow> 'd option \<Rightarrow> bool" where
  "expected k state transaction_id ph rounds rollback \<longleftrightarrow>
     (state = ''prepared'' \<and> transaction_id = None \<and> ph = Before \<and> rounds = Some (rc_old k)
         \<and> rollback \<in> {None, Some (rc_old k)})
     \<or> (state = ''begin_pending'' \<and> transaction_id = None \<and> ph \<in> {Before, Pending, RolledBack} \<and> rounds = Some (rc_old k)
         \<and> rollback = Some (rc_old k))
     \<or> (state \<in> {''applied_pending_commit'', ''rounds_applied_pending_commit''} \<and> transaction_id \<noteq> None
         \<and> ph \<in> {Pending, RolledBack} \<and> rounds \<in> {Some (rc_old k), Some (rc_new k)} \<and> rollback = Some (rc_old k))
     \<or> (state = ''healthy_pending_commit'' \<and> transaction_id \<noteq> None \<and> ph \<in> {Pending, Committed, RolledBack}
         \<and> rounds \<in> {Some (rc_old k), Some (rc_new k)} \<and> rollback = Some (rc_old k))
     \<or> (state = ''committed'' \<and> ph = Committed \<and> rounds = Some (rc_new k) \<and> rollback \<in> {None, Some (rc_old k)})
     \<or> (state = ''rolled_back'' \<and> transaction_id \<noteq> None \<and> ph = RolledBack \<and> rounds = Some (rc_old k)
         \<and> rollback \<in> {None, Some (rc_old k)})
     \<or> state = ''restore_inconsistent''"

definition sound :: "('c, 'd) restore_case \<Rightarrow> ('c, 'd) world \<Rightarrow> bool" where
  "sound k w \<longleftrightarrow> (case wo_journal w of
       None \<Rightarrow> sides_agree k w
     | Some payload \<Rightarrow> \<exists>state transaction_id. payload = journal_to_payload (at_state (rc_journal k) state transaction_id)
         \<and> expected k state transaction_id (phase_of k w) (rounds_of k w) (rollback_of k w))"

text \<open>A journal in a state, with the possible phases and contents of the database.\<close>

definition here ::
  "('c, 'd) restore_case \<Rightarrow> bool \<Rightarrow> string \<Rightarrow> string option \<Rightarrow> phase set \<Rightarrow> 'd set \<Rightarrow> ('c, 'd) world \<Rightarrow> bool" where
  "here k staged state transaction_id phs rs w \<longleftrightarrow>
     wo_journal w = Some (journal_to_payload (at_state (rc_journal k) state transaction_id)) \<and> phase_of k w \<in> phs
     \<and> rounds_of k w \<in> Some ` rs \<and> rollback_of k w = Some (rc_old k)
     \<and> (staged \<longrightarrow> wo_files w (rj_rounds_snapshot_path (rc_journal k)) = Some (rc_new k))"

text \<open>What a raise leaves: after a death a sound world, otherwise the given assertion.\<close>

definition err ::
  "('c, 'd) restore_case \<Rightarrow> (('c, 'd) world \<Rightarrow> bool) \<Rightarrow> saga_error \<Rightarrow> ('c, 'd) world \<Rightarrow> bool" where
  "err k A e w \<longleftrightarrow> (if e = Died then sound k w else A w)"

text \<open>An exception that is not a restore error.\<close>

definition fails ::
  "('c, 'd) restore_case \<Rightarrow> (('c, 'd) world \<Rightarrow> bool) \<Rightarrow> saga_error \<Rightarrow> ('c, 'd) world \<Rightarrow> bool" where
  "fails k A e w \<longleftrightarrow> e = Died \<and> sound k w \<or> e = Failed \<and> A w"

definition timeless :: "(('c, 'd) world \<Rightarrow> bool) \<Rightarrow> bool" where
  "timeless P \<longleftrightarrow> (\<forall>w n. P (w\<lparr>wo_tick := n\<rparr>) = P w)"

text \<open>The states whose phases and contents are as expected.\<close>

definition fits :: "('c, 'd) restore_case \<Rightarrow> string \<Rightarrow> string option \<Rightarrow> phase set \<Rightarrow> 'd set \<Rightarrow> bool" where
  "fits k st tx phs rs \<longleftrightarrow> (\<forall>ph\<in>phs. \<forall>r\<in>rs. expected k st tx ph (Some r) (Some (rc_old k)))"

lemma view_tick [simp]:
  "rounds_of k (w\<lparr>wo_tick := n\<rparr>) = rounds_of k w" "phase_of k (w\<lparr>wo_tick := n\<rparr>) = phase_of k w"
  "rollback_of k (w\<lparr>wo_tick := n\<rparr>) = rollback_of k w"
  "rounds_of k (w\<lparr>wo_journal := j\<rparr>) = rounds_of k w" "phase_of k (w\<lparr>wo_journal := j\<rparr>) = phase_of k w"
  "rollback_of k (w\<lparr>wo_journal := j\<rparr>) = rollback_of k w"
  "rounds_of k (w\<lparr>wo_core := c\<rparr>) = rounds_of k w" "phase_of k (w\<lparr>wo_core := c\<rparr>) = rc_phase k c"
  "rollback_of k (w\<lparr>wo_core := c\<rparr>) = rollback_of k w" "phase_of k (w\<lparr>wo_files := f\<rparr>) = phase_of k w"
  "rounds_of k (w\<lparr>wo_completed := c'\<rparr>) = rounds_of k w" "phase_of k (w\<lparr>wo_completed := c'\<rparr>) = phase_of k w"
  "rollback_of k (w\<lparr>wo_completed := c'\<rparr>) = rollback_of k w"
  by (simp_all add: rounds_of_def phase_of_def rollback_of_def)

lemma timeless_simps [simp]: "timeless (sound k)" "timeless (here k b st tx phs rs)"
  by (simp_all add: timeless_def sound_def here_def sides_agree_def split: option.split)

lemma fails_err: "fails k A e w \<Longrightarrow> err k A e w"
  by (auto simp: fails_def err_def)

lemma fails_simps [simp]:
  "fails k A Failed = A" "fails k A Died = sound k" "fails k A (RestoreError c i r) = (\<lambda>_. False)"
  by (simp_all add: fails_def fun_eq_iff)

lemma hoare_step_fails:
  assumes "timeless P" "\<And>w. P w \<Longrightarrow> sound k w"
  shows "hoare P (step sv lab) (\<lambda>_. P) (fails k P)"
  by (rule hoareI)
    (use assms in \<open>auto simp: step_def Let_def timeless_def fails_def split: fate.splits\<close>)

lemma hoare_step:
  assumes "timeless P" "\<And>w. P w \<Longrightarrow> sound k w"
  shows "hoare P (step sv lab) (\<lambda>_. P) (err k P)"
  by (rule hoare_weaken [OF hoare_step_fails [OF assms]]) (auto intro: fails_err)

lemma hoare_quiet_step:
  assumes "quiet_cleanup sv" "lab \<in> {Unlink, JournalSync}" "timeless P" "\<And>w. P w \<Longrightarrow> sound k w"
  shows "hoare P (step sv lab) (\<lambda>_. P) (err k (\<lambda>_. False))"
  by (rule hoareI)
    (use assms in \<open>auto simp: step_def Let_def timeless_def err_def quiet_cleanup_def split: fate.splits\<close>)

lemma hoare_change: "(\<And>w. P w \<Longrightarrow> Q () (f w)) \<Longrightarrow> hoare P (change f) Q E"
  by (simp add: hoare_def change_def)

lemma hoare_attempt:
  assumes "hoare P m Q F" "\<And>w. F Died w \<Longrightarrow> E Died w" "\<And>e. e \<noteq> Died \<Longrightarrow> hoare (F e) (h e) Q E"
  shows "hoare P (attempt m h) Q E"
  unfolding attempt_def using assms(1)
proof (rule hoare_catch)
  fix e show "hoare (F e) (if e = Died then eraise Died else h e) Q E"
    using assms(2,3) by (cases "e = Died") (auto intro: hoare_pure)
qed

lemma sound_journal:
  "expected k st tx (phase_of k w) (rounds_of k w) (rollback_of k w)
     \<Longrightarrow> wo_journal w = Some (journal_to_payload (at_state (rc_journal k) st tx)) \<Longrightarrow> sound k w"
  unfolding sound_def by (simp, blast)

lemma sound_inconsistent:
  "sound k (w\<lparr>wo_journal := Some (journal_to_payload (at_state (rc_journal k) ''restore_inconsistent'' tx))\<rparr>)"
  by (rule sound_journal) (simp_all add: expected_def)

lemma here_sound: "here k b st tx phs rs w \<Longrightarrow> fits k st tx phs rs \<Longrightarrow> sound k w"
  by (rule sound_journal) (auto simp: here_def fits_def)

lemma fits_mono: "fits k st tx phs rs \<Longrightarrow> phs' \<subseteq> phs \<Longrightarrow> rs' \<subseteq> rs \<Longrightarrow> fits k st tx phs' rs'"
  unfolding fits_def by blast

lemma here_mono:
  "here k b st tx phs rs w \<Longrightarrow> phs \<subseteq> phs' \<Longrightarrow> rs \<subseteq> rs' \<Longrightarrow> (b' \<Longrightarrow> b) \<Longrightarrow> here k b' st tx phs' rs' w"
  by (auto simp: here_def)

lemma err_mono: "err k A e w \<Longrightarrow> (\<And>w. A w \<Longrightarrow> B w) \<Longrightarrow> err k B e w"
  by (simp add: err_def split: if_splits)

lemma err_simps [simp]: "err k A Died w = sound k w" "e \<noteq> Died \<Longrightarrow> err k A e = A"
  by (simp_all add: err_def fun_eq_iff)

lemma hoare_write:
  assumes "setting k" "timeless P" "timeless Q" "\<And>w. P w \<Longrightarrow> sound k w" "\<And>w. Q w \<Longrightarrow> sound k w"
    and "\<And>w. P w \<Longrightarrow> Q (w\<lparr>wo_journal := Some (journal_to_payload j)\<rparr>)"
  shows "hoare P (write_journal (rc_service k) j) (\<lambda>_. Q) (fails k P)"
  unfolding write_journal_def
proof (intro hoare_bind)
  show "hoare P (step (rc_service k) JournalReplace) (\<lambda>_. P) (fails k P)"
    by (rule hoare_step_fails [OF assms(2,4)])
  show "hoare P (change (\<lambda>w. w\<lparr>wo_journal := Some (journal_to_payload j)\<rparr>)) (\<lambda>_. Q) (fails k P)"
    by (rule hoare_change) (rule assms(6))
  have "hoare Q (step (rc_service k) JournalSync) (\<lambda>_. Q) (err k (\<lambda>_. False))"
    by (rule hoare_quiet_step) (use assms in \<open>auto simp: setting_def\<close>)
  then show "hoare Q (step (rc_service k) JournalSync) (\<lambda>_. Q) (fails k P)"
    by (rule hoare_weaken) (auto simp: err_def fails_def split: if_splits)
qed

lemma hoare_write_journal:
  assumes "setting k" "fits k st tx phs rs" "fits k st' tx' phs rs"
  shows "hoare (here k b st tx phs rs) (write_journal (rc_service k) (at_state (rc_journal k) st' tx'))
     (\<lambda>_. here k b st' tx' phs rs) (fails k (here k b st tx phs rs))"
proof (rule hoare_write [OF assms(1)])
  fix w
  show "here k b st tx phs rs w \<Longrightarrow> sound k w" by (rule here_sound [OF _ assms(2)])
  show "here k b st' tx' phs rs w \<Longrightarrow> sound k w" by (rule here_sound [OF _ assms(3)])
qed (simp_all add: here_def timeless_def)


lemma hoare_verify_sqlite:
  assumes "timeless P" "\<And>w. P w \<Longrightarrow> sound k w"
  shows "hoare P (verify_sqlite sv path) (\<lambda>_. P) (err k P)"
  unfolding verify_sqlite_def
proof (rule hoare_bind)
  show "hoare P (attempt (step sv Verify) (\<lambda>_. eraise (RestoreError ''restore_rounds_corrupt'' False False)))
      (\<lambda>_. P) (err k P)"
    by (rule hoare_attempt [OF hoare_step [OF assms]]) (auto intro: hoare_pure)
  show "hoare P (\<lambda>w. if (case wo_files w path of Some d \<Rightarrow> sv_intact sv d | None \<Rightarrow> False) then (Inr (), w)
      else (Inl (RestoreError ''restore_rounds_corrupt'' False False), w)) (\<lambda>_. P) (err k P)"
    by (simp add: hoare_def)
qed

lemma hoare_restore_rounds:
  assumes k: "setting k" and fits: "fits k st tx phs rs" "fits k st tx phs {x}"
    and source: "\<And>w rs. here k b st tx phs rs w \<Longrightarrow> wo_files w source = Some x" "source \<noteq> sv_rounds_path (rc_service k)"
  shows "hoare (here k b st tx phs rs) (restore_rounds_database (rc_service k) source)
     (\<lambda>_. here k b st tx phs {x}) (err k (here k b st tx phs (insert x rs)))"
proof -
  let ?sv = "rc_service k" and ?any = "here k b st tx phs (insert x rs)"
  have any: "fits k st tx phs (insert x rs)" using fits by (auto simp: fits_def)
  have paths: "sv_rounds_path ?sv \<noteq> rj_rounds_rollback_path (rc_journal k)" "sv_rounds_path ?sv \<noteq> rj_rounds_snapshot_path (rc_journal k)"
    using k by (simp_all add: setting_def separate_paths_def Let_def)
  have here_any: "?any w" if "here k b st tx phs rs' w" "rs' \<subseteq> insert x rs" for w rs'
    using that by (blast intro: here_mono)
  have weaken: "hoare P m Q (err k ?any)" if "hoare P m Q (err k (here k b st tx phs rs'))" "rs' \<subseteq> insert x rs"
    for P Q rs' and m :: "(_, _, unit) saga"
    using that(1) by (rule hoare_weaken) (auto elim!: err_mono intro: here_any [OF _ that(2)])
  have copied: "here k b st tx phs {x} (w\<lparr>wo_files := (wo_files w)(sv_rounds_path ?sv := wo_files w source)\<rparr>)"
    if "here k b st tx phs rs w" for w
    using that source(1) [OF that] paths by (auto simp: here_def rounds_of_def rollback_of_def)
  have body: "hoare (here k b st tx phs rs)
      (ebind (verify_sqlite ?sv source) (\<lambda>_. ebind (step ?sv RoundsCopy) (\<lambda>_.
       ebind (change (\<lambda>w. w\<lparr>wo_files := (wo_files w)(sv_rounds_path ?sv := wo_files w source)\<rparr>)) (\<lambda>_.
       step ?sv Sidecars))))
      (\<lambda>_. here k b st tx phs {x}) (err k ?any)"
  proof (intro hoare_bind)
    show "hoare (here k b st tx phs rs) (verify_sqlite ?sv source) (\<lambda>_. here k b st tx phs rs) (err k ?any)"
      by (rule weaken [OF hoare_verify_sqlite]) (auto intro: here_sound [OF _ fits(1)])
    show "hoare (here k b st tx phs rs) (step ?sv RoundsCopy) (\<lambda>_. here k b st tx phs rs) (err k ?any)"
      by (rule weaken [OF hoare_step]) (auto intro: here_sound [OF _ fits(1)])
    show "hoare (here k b st tx phs rs) (change (\<lambda>w. w\<lparr>wo_files := (wo_files w)(sv_rounds_path ?sv := wo_files w source)\<rparr>))
        (\<lambda>_. here k b st tx phs {x}) (err k ?any)"
      by (rule hoare_change) (rule copied)
    show "hoare (here k b st tx phs {x}) (step ?sv Sidecars) (\<lambda>_. here k b st tx phs {x}) (err k ?any)"
      by (rule weaken [OF hoare_step]) (auto intro: here_sound [OF _ fits(2)])
  qed
  have "hoare (here k b st tx phs rs) (attempt
      (ebind (verify_sqlite ?sv source) (\<lambda>_. ebind (step ?sv RoundsCopy) (\<lambda>_.
       ebind (change (\<lambda>w. w\<lparr>wo_files := (wo_files w)(sv_rounds_path ?sv := wo_files w source)\<rparr>)) (\<lambda>_.
       step ?sv Sidecars))))
      (\<lambda>e. case e of RestoreError _ _ _ \<Rightarrow> eraise e | _ \<Rightarrow> eraise (RestoreError ''restore_rounds_failed'' False False)))
      (\<lambda>_. here k b st tx phs {x}) (err k ?any)"
    by (rule hoare_attempt [OF body]) (auto intro: hoare_pure split: saga_error.split)
  then show ?thesis
    using source(1) unfolding hoare_def restore_rounds_database_def by (auto split: option.split)
qed

lemma hoare_core:
  assumes "timeless P" "\<And>w. P w \<Longrightarrow> sound k w" "\<And>w. P w \<Longrightarrow> A w"
    and "\<And>w r c. P w \<Longrightarrow> operation (wo_core w) = (Some r, c) \<Longrightarrow> Q (w\<lparr>wo_core := c\<rparr>)"
    and "\<And>w c. P w \<Longrightarrow> operation (wo_core w) = (None, c) \<Longrightarrow> A (w\<lparr>wo_core := c\<rparr>)"
  shows "hoare P (core_call sv operation) (\<lambda>_. Q) (fails k A)"
  unfolding core_call_def
proof (rule hoare_bind)
  show "hoare P (step sv CoreCall) (\<lambda>_. P) (fails k A)"
    by (rule hoare_weaken [OF hoare_step_fails [OF assms(1,2)]]) (auto simp: fails_def intro: assms(3))
  show "hoare P (\<lambda>w. case operation (wo_core w) of
         (Some r, c) \<Rightarrow> (Inr r, w\<lparr>wo_core := c\<rparr>) | (None, c) \<Rightarrow> (Inl Failed, w\<lparr>wo_core := c\<rparr>)) (\<lambda>_. Q) (fails k A)"
    by (rule hoareI) (use assms(4,5) in \<open>auto simp: fails_def split: option.splits prod.splits\<close>)
qed

lemma hoare_core_call:
  assumes "fits k st tx phs rs" "phs \<subseteq> phs2"
    and "\<And>c r c'. operation c = (r, c') \<Longrightarrow> rc_phase k c \<in> phs \<Longrightarrow> rc_phase k c' \<in> (if r = None then phs2 else phs1)"
  shows "hoare (here k b st tx phs rs) (core_call sv operation) (\<lambda>_. here k b st tx phs1 rs)
     (fails k (here k b st tx phs2 rs))"
proof (rule hoare_core)
  fix w assume w: "here k b st tx phs rs w"
  then show "sound k w" "here k b st tx phs2 rs w" using here_sound [OF w assms(1)] here_mono [OF w assms(2)] by auto
  have ph: "rc_phase k (wo_core w) \<in> phs" using w by (simp add: here_def phase_of_def)
  show "here k b st tx phs1 rs (w\<lparr>wo_core := c\<rparr>)" if "operation (wo_core w) = (Some r, c)" for r c
    using assms(3) [OF that ph] w by (simp add: here_def)
  show "here k b st tx phs2 rs (w\<lparr>wo_core := c\<rparr>)" if "operation (wo_core w) = (None, c)" for c
    using assms(3) [OF that ph] w by (simp add: here_def)
qed simp

text \<open>The rollback of a begun transaction, as the compensation and the recovery use it.\<close>

lemma hoare_rollback_core:
  assumes "setting k" "fits k st (Some i) phs rs" "tx = Some i"
  shows "hoare (here k b st tx phs rs) (rollback_core (rc_service k) (at_state (rc_journal k) st' tx))
     (\<lambda>_. here k b st tx {RolledBack} rs) (err k (here k b st tx (insert RolledBack phs) rs))"
proof -
  have "hoare (here k b st tx phs rs) (core_call (rc_service k) (sv_rollback (rc_service k) i))
     (\<lambda>_. here k b st tx {RolledBack} rs) (fails k (here k b st tx (insert RolledBack phs) rs))"
  proof (rule hoare_core_call)
    show "fits k st tx phs rs" using assms by simp
    fix c r c' assume "sv_rollback (rc_service k) i c = (r, c')" "rc_phase k c \<in> phs"
    with assms(1) show "rc_phase k c' \<in> (if r = None then insert RolledBack phs else {RolledBack})"
      unfolding setting_def core_contract_def by fastforce
  qed auto
  then have "hoare (here k b st tx phs rs) (core_call (rc_service k) (sv_rollback (rc_service k) i))
     (\<lambda>_. here k b st tx {RolledBack} rs) (err k (here k b st tx (insert RolledBack phs) rs))"
    by (rule hoare_weaken) (auto intro: fails_err)
  then show ?thesis using assms(3) by (simp add: rollback_core_def at_state_def)
qed

section \<open>Cleaning up\<close>

text \<open>A journal in a state in which the two sides agree for good; the snapshot may be gone.\<close>

definition settled_journal :: "('c, 'd) restore_case \<Rightarrow> phase \<Rightarrow> ('c, 'd) world \<Rightarrow> bool" where
  "settled_journal k ph w \<longleftrightarrow> phase_of k w = ph \<and> sides_agree k w \<and> rollback_of k w \<in> {None, Some (rc_old k)}
     \<and> (\<exists>st tx. wo_journal w = Some (journal_to_payload (at_state (rc_journal k) st tx))
         \<and> expected k st tx (phase_of k w) (rounds_of k w) None)"

text \<open>Removing everything leaves no journal and two sides that agree.\<close>

definition finished :: "('c, 'd) restore_case \<Rightarrow> phase \<Rightarrow> ('c, 'd) world \<Rightarrow> bool" where
  "finished k ph w \<longleftrightarrow> wo_journal w = None \<and> phase_of k w = ph \<and> sides_agree k w"

lemma settled_timeless [simp]: "timeless (settled_journal k ph)" "timeless (finished k ph)"
  by (simp_all add: timeless_def settled_journal_def finished_def sides_agree_def)

lemma expected_rollback:
  "expected k st tx ph r None \<Longrightarrow> rb \<in> {None, Some (rc_old k)} \<Longrightarrow> expected k st tx ph r rb"
  by (auto simp: expected_def)

lemma settled_journal_sound: "settled_journal k ph w \<Longrightarrow> sound k w"
  unfolding settled_journal_def by (blast intro: sound_journal expected_rollback)

lemma hoare_unlink:
  assumes "setting k" "path \<in> {rj_rounds_rollback_path (rc_journal k), rj_core_exchange_path (rc_journal k)}"
  shows "hoare (settled_journal k ph) (unlink (rc_service k) path) (\<lambda>_. settled_journal k ph) (err k (\<lambda>_. False))"
  unfolding unlink_def
proof (rule hoare_bind)
  show "hoare (settled_journal k ph) (step (rc_service k) Unlink) (\<lambda>_. settled_journal k ph) (err k (\<lambda>_. False))"
    by (rule hoare_quiet_step)
      (use assms(1) settled_journal_sound in \<open>auto simp: setting_def\<close>)
  show "hoare (settled_journal k ph) (change (\<lambda>w. w\<lparr>wo_files := (wo_files w)(path := None)\<rparr>)) (\<lambda>_. settled_journal k ph) (err k (\<lambda>_. False))"
    by (rule hoare_change)
      (use assms in \<open>auto simp: settled_journal_def sides_agree_def rounds_of_def rollback_of_def setting_def separate_paths_def Let_def\<close>)
qed

lemma hoare_rmtree:
  assumes "setting k"
  shows "hoare (settled_journal k ph) (rmtree (rc_service k) (rj_staging_dir (rc_journal k))) (\<lambda>_. settled_journal k ph) (err k (\<lambda>_. False))"
  unfolding rmtree_def
proof (rule hoare_attempt [where F = "err k (settled_journal k ph)"])
  show "hoare (settled_journal k ph) (ebind (step (rc_service k) Rmtree) (\<lambda>_. change (\<lambda>w. w\<lparr>wo_files := (\<lambda>p.
      if prefix (rj_staging_dir (rc_journal k) @ ''/'') p then None else wo_files w p)\<rparr>)))
      (\<lambda>_. settled_journal k ph) (err k (settled_journal k ph))"
  proof (rule hoare_bind)
    show "hoare (settled_journal k ph) (step (rc_service k) Rmtree) (\<lambda>_. settled_journal k ph) (err k (settled_journal k ph))"
      by (rule hoare_step) (auto intro: settled_journal_sound)
    show "hoare (settled_journal k ph) (change (\<lambda>w. w\<lparr>wo_files := (\<lambda>p.
        if prefix (rj_staging_dir (rc_journal k) @ ''/'') p then None else wo_files w p)\<rparr>))
        (\<lambda>_. settled_journal k ph) (err k (settled_journal k ph))"
      by (rule hoare_change)
        (use assms in \<open>auto simp: settled_journal_def sides_agree_def rounds_of_def rollback_of_def setting_def
          separate_paths_def Let_def\<close>)
  qed
qed (auto intro: hoare_pure)

lemma finished_sound: "finished k ph w \<Longrightarrow> sound k w"
  by (simp add: finished_def sound_def)

lemma hoare_cleanup:
  assumes "setting k"
  shows "hoare (settled_journal k ph) (cleanup_failed_before_begin (rc_service k) (at_state (rc_journal k) st tx))
      (\<lambda>_. finished k ph) (err k (\<lambda>_. False))"
    and "hoare (settled_journal k ph) (cleanup_success (rc_service k) (at_state (rc_journal k) st tx))
      (\<lambda>_. finished k ph) (err k (\<lambda>_. False))"
proof -
  have journal: "hoare (settled_journal k ph) (unlink_journal (rc_service k)) (\<lambda>_. finished k ph) (err k (\<lambda>_. False))"
    unfolding unlink_journal_def
  proof (rule hoare_bind)
    show "hoare (settled_journal k ph) (step (rc_service k) Unlink) (\<lambda>_. settled_journal k ph) (err k (\<lambda>_. False))"
      by (rule hoare_quiet_step)
        (use assms settled_journal_sound in \<open>auto simp: setting_def\<close>)
    show "hoare (settled_journal k ph) (change (\<lambda>w. w\<lparr>wo_journal := None\<rparr>)) (\<lambda>_. finished k ph) (err k (\<lambda>_. False))"
      by (rule hoare_change) (auto simp: settled_journal_def finished_def sides_agree_def)
  qed
  show all: "hoare (settled_journal k ph) (cleanup_failed_before_begin (rc_service k) (at_state (rc_journal k) st tx))
      (\<lambda>_. finished k ph) (err k (\<lambda>_. False))"
    unfolding cleanup_failed_before_begin_def
    by (rule hoare_bind [where R = "\<lambda>_. settled_journal k ph"] | rule journal
        | use hoare_unlink [OF assms] hoare_rmtree [OF assms] in \<open>simp add: at_state_def; fail\<close>)+
  show "hoare (settled_journal k ph) (cleanup_success (rc_service k) (at_state (rc_journal k) st tx))
      (\<lambda>_. finished k ph) (err k (\<lambda>_. False))"
    unfolding cleanup_success_def
  proof (rule hoare_bind [OF all])
    show "hoare (finished k ph) (step (rc_service k) JournalSync) (\<lambda>_. finished k ph) (err k (\<lambda>_. False))"
      by (rule hoare_quiet_step)
        (use assms finished_sound in \<open>auto simp: setting_def\<close>)
  qed
qed

section \<open>Compensation\<close>

lemma with_state_at [simp]:
  "with_state (at_state j st tx) st' None = at_state j st' tx"
  "with_state (at_state j st tx) st' (Some i) = at_state j st' (Some i)"
  by (simp_all add: with_state_def at_state_def split: option.split)

lemma at_state_fields [simp]:
  "rj_core_restore_transaction_id (at_state j st tx) = tx" "rj_state (at_state j st tx) = st"
  "rj_rounds_rollback_path (at_state j st tx) = rj_rounds_rollback_path j"
  "rj_rounds_snapshot_path (at_state j st tx) = rj_rounds_snapshot_path j"
  "rj_core_restore_token (at_state j st tx) = rj_core_restore_token j"
  "rj_restore_id (at_state j st tx) = rj_restore_id j"
  by (simp_all add: at_state_def)

lemma hoare_mark_inconsistent:
  assumes "setting k" "timeless P" "\<And>w. P w \<Longrightarrow> sound k w"
  shows "hoare P (mark_inconsistent (rc_service k) (at_state (rc_journal k) st tx)) (\<lambda>_. sound k) (err k (\<lambda>_. False))"
  unfolding mark_inconsistent_def with_state_at
proof (rule hoare_attempt)
  show "hoare P (write_journal (rc_service k) (at_state (rc_journal k) ''restore_inconsistent'' tx)) (\<lambda>_. sound k) (fails k P)"
    by (rule hoare_write [OF assms(1,2)]) (use assms(3) sound_inconsistent in auto)
qed (use assms(3) in \<open>auto intro!: hoare_pure simp: err_def fails_def\<close>)

text \<open>
  What a handler leaves: a compensated or inconsistent error in a sound world, or another exception with
  the given assertion.
\<close>

definition outcome ::
  "('c, 'd) restore_case \<Rightarrow> (('c, 'd) world \<Rightarrow> bool) \<Rightarrow> saga_error \<Rightarrow> ('c, 'd) world \<Rightarrow> bool" where
  "outcome k A e w \<longleftrightarrow> (case e of
       Died \<Rightarrow> sound k w
     | RestoreError _ inconsistent compensated \<Rightarrow> (inconsistent \<or> compensated) \<and> sound k w
     | Failed \<Rightarrow> A w)"

lemma outcome_simps [simp]:
  "outcome k A Died w = sound k w" "outcome k A Failed w = A w" "outcome k A INCONSISTENT w = sound k w"
  "outcome k A (RestoreError c i r) w = ((i \<or> r) \<and> sound k w)"
  by (simp_all add: outcome_def INCONSISTENT_def)

lemma outcome_err: "err k (\<lambda>_. False) e w \<Longrightarrow> outcome k A e w"
  by (simp add: err_def split: if_splits)

lemma hoare_give_up:
  assumes "setting k" "timeless P" "\<And>w. P w \<Longrightarrow> sound k w"
  shows "hoare P (ebind (mark_inconsistent (rc_service k) (at_state (rc_journal k) st tx)) (\<lambda>_. eraise INCONSISTENT)) Q (outcome k A)"
proof (rule hoare_bind)
  show "hoare P (mark_inconsistent (rc_service k) (at_state (rc_journal k) st tx)) (\<lambda>_. sound k) (outcome k A)"
    by (rule hoare_weaken [OF hoare_mark_inconsistent [OF assms]]) (auto intro: outcome_err)
qed (auto intro: hoare_pure)

lemma hoare_failed:
  assumes "hoare P m (\<lambda>_. Q) (err k A)"
  shows "hoare P (failed m) (\<lambda>f. if f then A else Q) (outcome k B)"
  unfolding failed_def
proof (rule hoare_attempt)
  show "hoare P (ebind m (\<lambda>_. ereturn False)) (\<lambda>f. if f then A else Q) (err k A)"
    by (rule hoare_bind [OF assms]) (auto intro: hoare_pure)
qed (auto intro: hoare_pure)

lemma hoare_health:
  assumes "timeless P" "\<And>w. P w \<Longrightarrow> sound k w"
  shows "hoare P (ebind (step sv StartCore) (\<lambda>_. require_healthy sv)) (\<lambda>_. P) (err k P)"
proof (rule hoare_bind [OF hoare_step [OF assms]])
  have step: "hoare P (step sv HealthCheck) (\<lambda>_. P) (err k P)" by (rule hoare_step [OF assms])
  show "hoare P (require_healthy sv) (\<lambda>_. P) (err k P)"
  proof (rule hoareI)
    fix w x w' assume "P w" "require_healthy sv w = (Inr x, w')"
    then show "P w'" using hoareD(1) [OF step] by (auto simp: require_healthy_def ebind_cases split: if_splits)
  next
    fix w e w' assume "P w" "require_healthy sv w = (Inl e, w')"
    then show "err k P e w'"
      using hoareD [OF step] by (fastforce simp: require_healthy_def ebind_cases split: if_splits)
  qed
qed

lemma finish_rolled_back:
  assumes "setting k" "fits k st (Some i) {RolledBack} {rc_old k}"
    and "\<And>u. hoare (finished k RolledBack) (f u) Q E"
    and "\<And>e w. fails k (here k b st (Some i) {RolledBack} {rc_old k}) e w \<Longrightarrow> E e w"
  shows "hoare (here k b st (Some i) {RolledBack} {rc_old k})
     (ebind (write_journal (rc_service k) (at_state (rc_journal k) ''rolled_back'' (Some i))) (\<lambda>_.
      ebind (cleanup_success (rc_service k) (at_state (rc_journal k) ''rolled_back'' (Some i))) f)) Q E"
proof (intro hoare_bind [OF _ hoare_bind [OF _ assms(3)]])
  have rolled: "fits k ''rolled_back'' (Some i) {RolledBack} {rc_old k}" by (simp add: fits_def expected_def)
  show "hoare (here k b st (Some i) {RolledBack} {rc_old k})
      (write_journal (rc_service k) (at_state (rc_journal k) ''rolled_back'' (Some i)))
      (\<lambda>_. here k b ''rolled_back'' (Some i) {RolledBack} {rc_old k}) E"
    by (rule hoare_weaken [OF hoare_write_journal [OF assms(1,2) rolled]]) (auto intro: assms(4))
  show "hoare (here k b ''rolled_back'' (Some i) {RolledBack} {rc_old k})
      (cleanup_success (rc_service k) (at_state (rc_journal k) ''rolled_back'' (Some i))) (\<lambda>_. finished k RolledBack) E"
    by (rule hoare_weaken [OF hoare_cleanup(2) [OF assms(1), where ph = RolledBack]])
      (auto simp: here_def settled_journal_def sides_agree_def expected_def err_def fails_def intro: assms(4) split: if_splits)
qed

lemma hoare_put_back:
  assumes k: "setting k" and fits: "fits k st tx ps (insert (rc_old k) rs)"
  shows "hoare (here k b st tx ps rs) (ebind (restore_rounds_database (rc_service k) (rj_rounds_rollback_path (rc_journal k)))
      (\<lambda>_. verify_rounds_database (rc_service k)))
     (\<lambda>_. here k b st tx ps {rc_old k}) (err k (here k b st tx ps (insert (rc_old k) rs)))"
proof (rule hoare_bind)
  have sub: "fits k st tx ps rs" "fits k st tx ps {rc_old k}" by (auto intro: fits_mono [OF fits])
  show "hoare (here k b st tx ps rs) (restore_rounds_database (rc_service k) (rj_rounds_rollback_path (rc_journal k)))
      (\<lambda>_. here k b st tx ps {rc_old k}) (err k (here k b st tx ps (insert (rc_old k) rs)))"
    by (rule hoare_restore_rounds [OF k sub])
      (use k in \<open>auto simp: here_def rollback_of_def setting_def separate_paths_def Let_def\<close>)
  show "hoare (here k b st tx ps {rc_old k}) (verify_rounds_database (rc_service k))
      (\<lambda>_. here k b st tx ps {rc_old k}) (err k (here k b st tx ps (insert (rc_old k) rs)))"
    unfolding verify_rounds_database_def
    by (rule hoare_weaken [OF hoare_verify_sqlite [where P = "here k b st tx ps {rc_old k}"]])
      (auto intro: here_sound [OF _ sub(2)] here_mono elim!: err_mono)
qed

lemma hoare_compensate:
  assumes k: "setting k" and fits: "fits k st (Some i) (insert RolledBack phs) (insert (rc_old k) rs)"
  shows "hoare (here k b st (Some i) phs rs) (compensate (rc_service k) (at_state (rc_journal k) st' (Some i)) code stopped)
     Q (outcome k (here k b st (Some i) {RolledBack} {rc_old k}))"
proof -
  let ?sv = "rc_service k" and ?j = "at_state (rc_journal k) st' (Some i)" and ?old = "rc_old k"
  let ?ph = "\<lambda>f. if f then insert RolledBack phs else {RolledBack}" and ?rs = "\<lambda>f. if f then insert ?old rs else {?old}"
  let ?at = "here k b st (Some i)" and ?exit = "outcome k (here k b st (Some i) {RolledBack} {?old})"
  have sub: "fits k st (Some i) ps xs" if "ps \<subseteq> insert RolledBack phs" "xs \<subseteq> insert ?old rs" for ps xs
    using fits that by (rule fits_mono)
  have sound: "sound k w" if "?at ps xs w" "ps \<subseteq> insert RolledBack phs" "xs \<subseteq> insert ?old rs" for ps xs w
    by (rule here_sound [OF that(1) sub [OF that(2,3)]])
  have stop: "hoare (?at phs rs) (if stopped then ereturn False else failed (step ?sv StopCore)) (\<lambda>_. ?at phs rs) ?exit"
    by (intro hoare_if hoare_pure hoare_weaken [OF hoare_failed [OF hoare_step]]) (auto intro: sound split: if_splits)
  have roll: "hoare (?at phs rs) (failed (rollback_core ?sv ?j)) (\<lambda>f. ?at (?ph f) rs) ?exit"
    by (rule hoare_weaken [OF hoare_failed [OF hoare_rollback_core [OF k]]]) (auto intro: sub split: if_splits)
  have copy: "hoare (?at ps rs) (failed (ebind (restore_rounds_database ?sv (rj_rounds_rollback_path (rc_journal k)))
      (\<lambda>_. verify_rounds_database ?sv))) (\<lambda>f. ?at ps (?rs f)) ?exit" if "ps \<subseteq> insert RolledBack phs" for ps
    by (rule hoare_weaken [OF hoare_failed [OF hoare_put_back [OF k sub [OF that subset_refl]]]]) (auto split: if_splits)
  have start: "hoare (?at ps xs) (failed (ebind (step ?sv StartCore) (\<lambda>_. require_healthy ?sv))) (\<lambda>_. ?at ps xs) ?exit"
    if "ps \<subseteq> insert RolledBack phs" "xs \<subseteq> insert ?old rs" for ps xs
    by (rule hoare_weaken [OF hoare_failed [OF hoare_health]]) (use that in \<open>auto intro: sound split: if_splits\<close>)
  have finish: "hoare (?at {RolledBack} {?old}) (ebind (write_journal ?sv (with_state ?j ''rolled_back'' None)) (\<lambda>_.
      ebind (cleanup_success ?sv (with_state ?j ''rolled_back'' None)) (\<lambda>_. eraise (RestoreError code False True)))) Q ?exit"
    unfolding with_state_at
    by (rule finish_rolled_back [OF k sub]) (auto intro!: hoare_pure simp: fails_def finished_sound)
  have give_up: "hoare (?at ps xs) (ebind (mark_inconsistent ?sv ?j) (\<lambda>_. eraise INCONSISTENT)) Q ?exit"
    if "ps \<subseteq> insert RolledBack phs" "xs \<subseteq> insert ?old rs" for ps xs
    by (rule hoare_give_up [OF k]) (use that in \<open>auto intro: sound\<close>)
  show ?thesis
    unfolding compensate_def at_state_fields
  proof (intro hoare_if hoare_bind [OF stop] hoare_bind [OF roll] hoare_bind [OF copy] hoare_bind [OF start])
    fix f1 f2 f3 f4
    show "hoare (?at (?ph f2) (?rs f3)) (ebind (mark_inconsistent ?sv ?j) (\<lambda>_. eraise INCONSISTENT)) Q ?exit"
      by (rule give_up) auto
    assume "\<not> (f1 \<or> f2 \<or> f3 \<or> f4)"
    then show "hoare (?at (?ph f2) (?rs f3)) (ebind (write_journal ?sv (with_state ?j ''rolled_back'' None)) (\<lambda>_.
      ebind (cleanup_success ?sv (with_state ?j ''rolled_back'' None)) (\<lambda>_. eraise (RestoreError code False True)))) Q ?exit"
      using finish by simp
  qed auto
qed

section \<open>Applying a prepared restore\<close>

text \<open>The rounds database is untouched, and Core has not committed.\<close>

definition reopened :: "('c, 'd) restore_case \<Rightarrow> ('c, 'd) world \<Rightarrow> bool" where
  "reopened k w \<longleftrightarrow> sound k w \<and> rounds_of k w = Some (rc_old k) \<and> rollback_of k w = Some (rc_old k)
     \<and> phase_of k w \<in> {Before, Pending, RolledBack}"

lemma reopened_timeless [simp]: "timeless (reopened k)"
  by (simp add: timeless_def reopened_def sound_def sides_agree_def split: option.split)

lemma reopened_here:
  "here k b st tx phs {rc_old k} w \<Longrightarrow> fits k st tx phs {rc_old k} \<Longrightarrow> phs \<subseteq> {Before, Pending, RolledBack} \<Longrightarrow> reopened k w"
  using here_sound [of k b st tx phs "{rc_old k}" w] by (auto simp: reopened_def here_def)

lemma hoare_compensate_unbegun:
  assumes "setting k"
  shows "hoare (reopened k) (compensate (rc_service k) (at_state (rc_journal k) st None) code stopped) Q
     (outcome k (\<lambda>_. False))"
proof -
  have "hoare (reopened k) (attempt (write_journal (rc_service k) (at_state (rc_journal k) ''begin_pending'' None))
      (\<lambda>_. ebind (mark_inconsistent (rc_service k) (at_state (rc_journal k) st None)) (\<lambda>_. eraise INCONSISTENT)))
      (\<lambda>_. reopened k) (outcome k (\<lambda>_. False))"
  proof (rule hoare_attempt)
    show "hoare (reopened k) (write_journal (rc_service k) (at_state (rc_journal k) ''begin_pending'' None))
        (\<lambda>_. reopened k) (fails k (reopened k))"
    proof (rule hoare_write [OF assms])
      fix w assume "reopened k w"
      then show "reopened k (w\<lparr>wo_journal := Some (journal_to_payload (at_state (rc_journal k) ''begin_pending'' None))\<rparr>)"
        unfolding reopened_def by (auto intro!: sound_journal [of k "''begin_pending''" None] simp: expected_def)
    qed (auto simp: reopened_def)
    show "hoare (fails k (reopened k) e) (ebind (mark_inconsistent (rc_service k) (at_state (rc_journal k) st None))
        (\<lambda>_. eraise INCONSISTENT)) (\<lambda>_. reopened k) (outcome k (\<lambda>_. False))" if "e \<noteq> Died" for e
      by (rule hoare_weaken [OF hoare_give_up [OF assms reopened_timeless]]) (use that in \<open>auto simp: fails_def reopened_def\<close>)
  qed (auto simp: fails_def)
  then have "hoare (reopened k) (ebind (attempt (write_journal (rc_service k) (at_state (rc_journal k) ''begin_pending'' None))
      (\<lambda>_. ebind (mark_inconsistent (rc_service k) (at_state (rc_journal k) st None)) (\<lambda>_. eraise INCONSISTENT)))
      (\<lambda>_. eraise (RestoreError code False True))) Q (outcome k (\<lambda>_. False))"
    by (rule hoare_bind) (auto intro!: hoare_pure simp: reopened_def)
  then show ?thesis by (simp add: compensate_def)
qed

lemma hoare_begin:
  assumes k: "setting k" and fits: "fits k st None phs {rc_old k}" and phs: "phs \<subseteq> {Before, Pending, RolledBack}"
  shows "hoare (here k b st None phs {rc_old k}) (begin_if_needed (rc_service k) (at_state (rc_journal k) st' None))
     (\<lambda>j w. \<exists>i. j = at_state (rc_journal k) ''applied_pending_commit'' (Some i)
        \<and> here k b ''applied_pending_commit'' (Some i) (insert Pending (phs - {Before})) {rc_old k} w)
     (outcome k (reopened k))"
proof -
  let ?sv = "rc_service k" and ?old = "{rc_old k}" and ?exit = "outcome k (reopened k)"
  let ?begun = "insert Pending (phs - {Before})"
  have pending: "fits k ''begin_pending'' None ps ?old" if "ps \<subseteq> {Before, Pending, RolledBack}" for ps
    using that by (auto simp: fits_def expected_def)
  have applied: "fits k ''applied_pending_commit'' (Some i) ps ?old" if "ps \<subseteq> {Pending, RolledBack}" for ps i
    using that by (auto simp: fits_def expected_def)
  have begun: "?begun \<subseteq> {Before, Pending, RolledBack}" "?begun \<subseteq> {Pending, RolledBack}" using phs by auto
  have ends: "?exit e w" if "fails k (here k b s tx ps ?old) e w" "fits k s tx ps ?old" "ps \<subseteq> {Before, Pending, RolledBack}" for s tx ps e w
    using that reopened_here by (auto simp: fails_def)
  have "hoare (here k b st None phs ?old) (write_journal ?sv (at_state (rc_journal k) ''begin_pending'' None))
      (\<lambda>_. here k b ''begin_pending'' None phs ?old) ?exit"
    by (rule hoare_weaken [OF hoare_write_journal [OF k fits pending [OF phs]]]) (auto intro: ends [OF _ fits phs])
  moreover have "hoare (here k b ''begin_pending'' None phs ?old) (core_call ?sv (sv_begin ?sv (rj_core_restore_token (rc_journal k))))
      (\<lambda>_. here k b ''begin_pending'' None ?begun ?old) ?exit"
  proof (rule hoare_weaken [OF hoare_core_call [OF pending [OF phs], where ?phs1.0 = ?begun and ?phs2.0 = "insert Pending phs"]])
    fix c r c' assume "sv_begin ?sv (rj_core_restore_token (rc_journal k)) c = (r, c')" "rc_phase k c \<in> phs"
    with k show "rc_phase k c' \<in> (if r = None then insert Pending phs else ?begun)"
      unfolding setting_def core_contract_def by fastforce
  next
    fix e w assume "fails k (here k b ''begin_pending'' None (insert Pending phs) ?old) e w"
    then show "?exit e w" by (rule ends) (use phs in \<open>auto intro: pending\<close>)
  qed auto
  moreover have "hoare (here k b ''begin_pending'' None ?begun ?old)
      (write_journal ?sv (at_state (rc_journal k) ''applied_pending_commit'' (Some i)))
      (\<lambda>_. here k b ''applied_pending_commit'' (Some i) ?begun ?old) ?exit" for i
    by (rule hoare_weaken [OF hoare_write_journal [OF k pending [OF begun(1)] applied [OF begun(2)]]])
      (auto intro: ends [OF _ pending [OF begun(1)] begun(1)])
  moreover have "hoare (here k b ''applied_pending_commit'' (Some i) ?begun ?old)
      (compensate ?sv (at_state (rc_journal k) ''applied_pending_commit'' (Some i)) ''restore_manifest_mismatch'' True) Q' ?exit" for i Q'
    by (rule hoare_weaken [OF hoare_compensate [OF k]])
      (use begun in \<open>auto simp: outcome_def intro: applied reopened_here [OF _ applied] split: saga_error.splits\<close>)
  ultimately show ?thesis
    unfolding begin_if_needed_def at_state_fields option.case with_state_at Let_def
    by (blast intro: hoare_bind hoare_if hoare_pure)
qed

lemma hoare_handle_begun:
  assumes "setting k" "fits k st (Some i) (insert RolledBack phs) (insert (rc_old k) rs)"
  shows "hoare (here k b st (Some i) phs rs) (handle (rc_service k) (at_state (rc_journal k) st' (Some i)) stopped True e)
     Q (\<lambda>_. sound k)"
proof -
  have small: "fits k st (Some i) phs rs" "fits k st (Some i) {RolledBack} {rc_old k}"
    by (auto intro: fits_mono [OF assms(2)])
  have "hoare (here k b st (Some i) phs rs) (compensate (rc_service k) (at_state (rc_journal k) st' (Some i)) code stopped)
      Q (\<lambda>_. sound k)" for code
    by (rule hoare_weaken [OF hoare_compensate [OF assms]])
      (auto simp: outcome_def intro: here_sound [OF _ small(2)] split: saga_error.splits)
  then show ?thesis
    unfolding handle_def if_True by (cases e) (auto intro!: hoare_if hoare_pure intro: here_sound [OF _ small(1)])
qed

lemma hoare_guarded:
  assumes "hoare P m Q (err k (here k b st (Some i) phs rs))" "setting k"
    and "fits k st (Some i) (insert RolledBack phs) (insert (rc_old k) rs)"
  shows "hoare P (guarded (rc_service k) (at_state (rc_journal k) st' (Some i)) stopped True m) Q (\<lambda>_. sound k)"
  unfolding guarded_def
  by (rule hoare_attempt [OF assms(1)]) (use hoare_handle_begun [OF assms(2,3)] in \<open>auto simp: err_def\<close>)

lemma hoare_guarded_begin:
  assumes k: "setting k" and fits: "fits k st None phs {rc_old k}" and phs: "phs \<subseteq> {Before, Pending, RolledBack}"
  shows "hoare (here k b st None phs {rc_old k}) (guarded (rc_service k) (at_state (rc_journal k) st' None) True True
       (begin_if_needed (rc_service k) (at_state (rc_journal k) st' None)))
     (\<lambda>j w. \<exists>i. j = at_state (rc_journal k) ''applied_pending_commit'' (Some i)
        \<and> here k b ''applied_pending_commit'' (Some i) (insert Pending (phs - {Before})) {rc_old k} w)
     (\<lambda>_. sound k)"
  unfolding guarded_def
proof (rule hoare_attempt [OF hoare_begin [OF k fits phs]])
  fix e Q assume "e \<noteq> Died"
  have "hoare (reopened k) (compensate (rc_service k) (at_state (rc_journal k) st' None) ''restore_apply_failed'' True) Q (\<lambda>_. sound k)"
    by (rule hoare_weaken [OF hoare_compensate_unbegun [OF k]]) (auto simp: outcome_def split: saga_error.splits)
  with \<open>e \<noteq> Died\<close> show "hoare (outcome k (reopened k) e)
      (handle (rc_service k) (at_state (rc_journal k) st' None) True True e) Q (\<lambda>_. sound k)"
    by (cases e) (auto simp: handle_def hoare_def)
qed simp

lemma handle_failed:
  "handle sv j False False Failed = ebind (cleanup_failed_before_begin sv j)
     (\<lambda>_. eraise (RestoreError ''restore_apply_failed'' False False))"
  by (rule ext) (simp add: handle_def ebind_def)

lemma hoare_guarded_stop:
  assumes k: "setting k"
  shows "hoare (here k b ''prepared'' None {Before} {rc_old k})
     (guarded (rc_service k) (at_state (rc_journal k) st' None) False False (step (rc_service k) StopCore))
     (\<lambda>_. here k b ''prepared'' None {Before} {rc_old k}) (\<lambda>_. sound k)"
  unfolding guarded_def
proof (rule hoare_attempt [OF hoare_step_fails])
  let ?at = "here k b ''prepared'' None {Before} {rc_old k}"
  have fits: "fits k ''prepared'' None {Before} {rc_old k}" by (simp add: fits_def expected_def)
  then show "?at w \<Longrightarrow> sound k w" for w by (rule here_sound [rotated])
  have "hoare ?at (ebind (cleanup_failed_before_begin (rc_service k) (at_state (rc_journal k) st' None)) (\<lambda>_. eraise e'))
      (\<lambda>_. ?at) (\<lambda>_. sound k)" for e'
  proof (rule hoare_bind)
    show "hoare ?at (cleanup_failed_before_begin (rc_service k) (at_state (rc_journal k) st' None)) (\<lambda>_. finished k Before) (\<lambda>_. sound k)"
      by (rule hoare_weaken [OF hoare_cleanup(1) [OF k, where ph = Before]])
        (auto simp: here_def settled_journal_def sides_agree_def expected_def err_def split: if_splits)
  qed (auto intro!: hoare_pure simp: finished_sound)
  then show "hoare (fails k ?at e) (handle (rc_service k) (at_state (rc_journal k) st' None) False False e) (\<lambda>_. ?at) (\<lambda>_. sound k)"
    if "e \<noteq> Died" for e
    using that by (cases e) (simp_all add: handle_failed, simp add: hoare_def)
qed (auto simp: fails_def)

lemma hoare_commit:
  assumes k: "setting k" and fits: "fits k st (Some i) {Pending, Committed} rs"
  shows "hoare (here k b st (Some i) {Pending} rs) (commit_core (rc_service k) (at_state (rc_journal k) st' (Some i)))
     (\<lambda>_. here k b st (Some i) {Committed} rs) (err k (here k b st (Some i) {Pending, Committed} rs))"
proof -
  have "hoare (here k b st (Some i) {Pending} rs) (core_call (rc_service k) (sv_commit (rc_service k) i))
      (\<lambda>_. here k b st (Some i) {Committed} rs) (fails k (here k b st (Some i) {Pending, Committed} rs))"
  proof (rule hoare_core_call)
    show "fits k st (Some i) {Pending} rs" by (rule fits_mono [OF fits]) auto
    fix c r c' assume "sv_commit (rc_service k) i c = (r, c')" "rc_phase k c \<in> {Pending}"
    with k show "rc_phase k c' \<in> (if r = None then {Pending, Committed} else {Committed})"
      unfolding setting_def core_contract_def by fastforce
  qed auto
  then show ?thesis
    unfolding commit_core_def at_state_fields option.case
    by (rule hoare_attempt) (auto intro!: hoare_pure simp: fails_def err_def)
qed

lemma hoare_manifest: "hoare P (verify_core_manifest j) (\<lambda>_. P) (err k P)"
  by (auto simp: verify_core_manifest_def hoare_def err_def)

lemma hoare_replace:
  assumes k: "setting k" and fits: "fits k st tx phs {rc_old k, rc_new k}"
  shows "hoare (here k True st tx phs {rc_old k}) (replace_rounds_database (rc_service k) (rj_rounds_snapshot_path (rc_journal k)))
     (\<lambda>_. here k True st tx phs {rc_new k}) (err k (here k True st tx phs {rc_old k, rc_new k}))"
  unfolding replace_rounds_database_def
proof (rule hoare_bind)
  have sub: "fits k st tx phs {rc_old k}" "fits k st tx phs {rc_new k}" by (auto intro: fits_mono [OF fits])
  show "hoare (here k True st tx phs {rc_old k}) (restore_rounds_database (rc_service k) (rj_rounds_snapshot_path (rc_journal k)))
      (\<lambda>_. here k True st tx phs {rc_new k}) (err k (here k True st tx phs {rc_old k, rc_new k}))"
    by (rule hoare_weaken [OF hoare_restore_rounds [OF k sub]])
      (use k in \<open>auto simp: here_def setting_def separate_paths_def Let_def insert_commute\<close>)
  show "hoare (here k True st tx phs {rc_new k}) (verify_rounds_database (rc_service k))
      (\<lambda>_. here k True st tx phs {rc_new k}) (err k (here k True st tx phs {rc_old k, rc_new k}))"
    unfolding verify_rounds_database_def
    by (rule hoare_weaken [OF hoare_verify_sqlite [where P = "here k True st tx phs {rc_new k}"]])
      (auto intro: here_sound [OF _ sub(2)] here_mono elim!: err_mono)
qed

lemma fits_table:
  "phs \<subseteq> {Pending, RolledBack} \<Longrightarrow> rs \<subseteq> {rc_old k, rc_new k} \<Longrightarrow> fits k ''applied_pending_commit'' (Some i) phs rs"
  "phs \<subseteq> {Pending, RolledBack} \<Longrightarrow> rs \<subseteq> {rc_old k, rc_new k} \<Longrightarrow> fits k ''rounds_applied_pending_commit'' (Some i) phs rs"
  "phs \<subseteq> {Pending, Committed, RolledBack} \<Longrightarrow> rs \<subseteq> {rc_old k, rc_new k} \<Longrightarrow> fits k ''healthy_pending_commit'' (Some i) phs rs"
  "fits k ''committed'' (Some i) {Committed} {rc_new k}" "fits k ''prepared'' None {Before} {rc_old k}"
  by (auto simp: fits_def expected_def)

lemma hoare_write_err:
  assumes "setting k" "fits k st tx phs rs" "fits k st' tx' phs rs"
  shows "hoare (here k b st tx phs rs) (write_journal (rc_service k) (at_state (rc_journal k) st' tx'))
     (\<lambda>_. here k b st' tx' phs rs) (err k (here k b st tx phs rs))"
  by (rule hoare_weaken [OF hoare_write_journal [OF assms]]) (auto intro: fails_err)

lemma hoare_close:
  assumes k: "setting k"
  shows "hoare (here k b ''healthy_pending_commit'' (Some i) {Committed} {rc_new k})
     (ebind (write_journal (rc_service k) (at_state (rc_journal k) ''committed'' (Some i))) (\<lambda>_.
      ebind (change (\<lambda>w. w\<lparr>wo_completed := f w\<rparr>)) (\<lambda>_.
      cleanup_success (rc_service k) (at_state (rc_journal k) ''committed'' (Some i)))))
     (\<lambda>_. finished k Committed) (err k (here k b ''healthy_pending_commit'' (Some i) {Committed} {rc_new k}))"
proof (intro hoare_bind)
  let ?at = "here k b ''committed'' (Some i) {Committed} {rc_new k}" and ?exit = "err k (here k b ''healthy_pending_commit'' (Some i) {Committed} {rc_new k})"
  show "hoare (here k b ''healthy_pending_commit'' (Some i) {Committed} {rc_new k})
      (write_journal (rc_service k) (at_state (rc_journal k) ''committed'' (Some i))) (\<lambda>_. ?at) ?exit"
    by (rule hoare_write_err [OF k]) (auto intro: fits_table)
  show "hoare ?at (change (\<lambda>w. w\<lparr>wo_completed := f w\<rparr>)) (\<lambda>_. ?at) ?exit"
    by (rule hoare_change) (simp add: here_def)
  show "hoare ?at (cleanup_success (rc_service k) (at_state (rc_journal k) ''committed'' (Some i))) (\<lambda>_. finished k Committed) ?exit"
    by (rule hoare_weaken [OF hoare_cleanup(2) [OF k, where ph = Committed]])
      (auto simp: here_def settled_journal_def sides_agree_def expected_def err_def split: if_splits)
qed

lemma hoare_start_check:
  assumes "timeless P" "\<And>w. P w \<Longrightarrow> sound k w"
  shows "hoare P (ebind (step sv StartCore) (\<lambda>_. ebind (require_healthy sv) (\<lambda>_. verify_core_manifest j))) (\<lambda>_. P) (err k P)"
  using hoare_bind [OF hoare_health [OF assms] hoare_manifest] by (simp add: hoare_def ebind_assoc)

lemma hoare_ex: "(\<And>i. x = f i \<Longrightarrow> hoare (P i) m Q E) \<Longrightarrow> hoare (\<lambda>w. \<exists>i. x = f i \<and> P i w) m Q E"
  by (rule hoareI) (blast dest: hoareD)+

lemma hoare_apply:
  assumes k: "setting k"
  shows "hoare (here k True ''prepared'' None {Before} {rc_old k}) (apply_journal (rc_service k) (at_state (rc_journal k) ''prepared'' None))
     (\<lambda>_. finished k Committed) (\<lambda>_. sound k)"
proof -
  let ?sv = "rc_service k" and ?j = "at_state (rc_journal k)" and ?exit = "\<lambda>_ :: saga_error. sound k"
  let ?at = "\<lambda>st i phs rs. here k True st (Some i) phs rs"
  note stop = hoare_guarded_stop [OF k, of True "''prepared''"]
  note begins = hoare_guarded_begin [OF k fits_table(5), of True "''prepared''", simplified]
  have replace: "hoare (?at ''applied_pending_commit'' i {Pending} {rc_old k})
      (guarded ?sv (?j ''applied_pending_commit'' (Some i)) True True (replace_rounds_database ?sv (rj_rounds_snapshot_path (rc_journal k))))
      (\<lambda>_. ?at ''applied_pending_commit'' i {Pending} {rc_new k}) ?exit" for i
    by (rule hoare_guarded [OF hoare_replace [OF k]]) (auto intro: fits_table k)
  have write2: "hoare (?at ''applied_pending_commit'' i {Pending} {rc_new k})
      (guarded ?sv (?j ''rounds_applied_pending_commit'' (Some i)) True True (write_journal ?sv (?j ''rounds_applied_pending_commit'' (Some i))))
      (\<lambda>_. ?at ''rounds_applied_pending_commit'' i {Pending} {rc_new k}) ?exit" for i
    by (rule hoare_guarded [OF hoare_write_err [OF k]]) (auto intro: fits_table k)
  have check: "hoare (?at ''rounds_applied_pending_commit'' i {Pending} {rc_new k})
      (guarded ?sv (?j ''rounds_applied_pending_commit'' (Some i)) False True (ebind (step ?sv StartCore) (\<lambda>_.
        ebind (require_healthy ?sv) (\<lambda>_. verify_core_manifest (?j ''rounds_applied_pending_commit'' (Some i))))))
      (\<lambda>_. ?at ''rounds_applied_pending_commit'' i {Pending} {rc_new k}) ?exit" for i
    by (rule hoare_guarded [OF hoare_start_check]) (auto intro: fits_table k here_sound)
  have write3: "hoare (?at ''rounds_applied_pending_commit'' i {Pending} {rc_new k})
      (guarded ?sv (?j ''healthy_pending_commit'' (Some i)) False True (write_journal ?sv (?j ''healthy_pending_commit'' (Some i))))
      (\<lambda>_. ?at ''healthy_pending_commit'' i {Pending} {rc_new k}) ?exit" for i
    by (rule hoare_guarded [OF hoare_write_err [OF k]]) (auto intro: fits_table k)
  have commit: "hoare (?at ''healthy_pending_commit'' i {Pending} {rc_new k})
      (guarded ?sv (?j ''healthy_pending_commit'' (Some i)) False True (commit_core ?sv (?j ''healthy_pending_commit'' (Some i))))
      (\<lambda>_. ?at ''healthy_pending_commit'' i {Committed} {rc_new k}) ?exit" for i
    by (rule hoare_guarded [OF hoare_commit [OF k]]) (auto intro: fits_table k)
  have close: "hoare (?at ''healthy_pending_commit'' i {Committed} {rc_new k})
      (guarded ?sv (?j ''committed'' (Some i)) False True (ebind (write_journal ?sv (?j ''committed'' (Some i))) (\<lambda>_.
        ebind (change (\<lambda>w. w\<lparr>wo_completed := f w\<rparr>)) (\<lambda>_. cleanup_success ?sv (?j ''committed'' (Some i))))))
      (\<lambda>_. finished k Committed) ?exit" for i f
    by (rule hoare_guarded [OF hoare_close [OF k]]) (auto intro: fits_table k)
  show ?thesis
    unfolding apply_journal_def at_state_fields Let_def
    by (rule hoare_if, simp, rule hoare_if, simp, rule hoare_bind, use stop in simp, rule hoare_bind [OF begins])
      (auto intro!: hoare_ex hoare_bind [OF replace] hoare_bind [OF write2] hoare_bind [OF check] hoare_bind [OF write3]
        hoare_bind [OF commit] hoare_bind [OF close] hoare_pure)
qed

section \<open>Recovering\<close>

lemma journal_gets:
  "jget (journal_to_payload j) ''journal_version'' = JInt 1"
  "jget (journal_to_payload j) ''restore_id'' = JStr (rj_restore_id j)"
  "jget (journal_to_payload j) ''state'' = JStr (rj_state j)"
  "jget (journal_to_payload j) ''backup_id'' = JStr (rj_backup_id j)"
  "jget (journal_to_payload j) ''rounds_rollback_path'' = JStr (rj_rounds_rollback_path j)"
  "jget (journal_to_payload j) ''core_restore_token'' = JStr (rj_core_restore_token j)"
  "jget (journal_to_payload j) ''core_restore_transaction_id'' = opt_str (rj_core_restore_transaction_id j)"
  "jget (journal_to_payload j) ''core_relative_path'' = JStr (rj_core_relative_path j)"
  "jget (journal_to_payload j) ''core_sha256'' = JStr (rj_core_sha256 j)"
  "jget (journal_to_payload j) ''core_size_bytes'' = JInt (rj_core_size_bytes j)"
  "jget (journal_to_payload j) ''core_schema_version'' = JInt (rj_core_schema_version j)"
  "jget (journal_to_payload j) ''rounds_snapshot_path'' = JStr (rj_rounds_snapshot_path j)"
  "jget (journal_to_payload j) ''core_exchange_path'' = JStr (rj_core_exchange_path j)"
  "jget (journal_to_payload j) ''staging_dir'' = JStr (rj_staging_dir j)"
  by (simp_all add: journal_to_payload_def)

lemma journal_decode:
  assumes "journal_from_payload expand (journal_to_payload j) = Inr j'"
    and "\<And>p. p \<in> {rj_rounds_rollback_path j, rj_rounds_snapshot_path j, rj_core_exchange_path j, rj_staging_dir j} \<Longrightarrow> expand p = p"
  shows "j' = j"
proof -
  have txt1: "required_text (JStr s) = Inr t \<Longrightarrow> t = s" for s t by (auto simp: required_text_def res_simps)
  have ident: "safe_identifier (JStr s) = Inr t \<Longrightarrow> t = s" for s t
    by (auto simp: safe_identifier_def res_simps dest: txt1)
  have exch: "safe_exchange_path (JStr s) = Inr t \<Longrightarrow> t = s" for s t
    by (auto simp: safe_exchange_path_def res_simps dest: txt1)
  have path: "journal_path expand (JStr s) = Inr t \<Longrightarrow> t = expand s" for s t
    by (auto simp: journal_path_def res_simps dest: txt1)
  have ids: "(if opt_str t = JNull then Inr None else rbind (safe_identifier (opt_str t)) (\<lambda>i. Inr (Some i))) = Inr u \<Longrightarrow> u = t" for t u
    by (cases t) (auto simp: opt_str_def res_simps dest: ident)
  show ?thesis
    using assms(1) unfolding journal_from_payload_def journal_gets json.case prod.case
    by (simp only: rbind_eq_Inr raise_if_eq_Inr, elim exE conjE)
      (drule ids, auto dest!: txt1 ident exch path simp: assms(2) res_simps)
qed

text \<open>The common part of a recovery that has to roll back.\<close>

definition undo :: "('c, 'd) service \<Rightarrow> restore_journal \<Rightarrow> ('c, 'd, restore_result option) saga" where
  "undo sv j =
     ebind (attempt (ebind (step sv StopCore) (\<lambda>_. begin_if_needed sv j)) (give_up sv j)) (\<lambda>j'.
     attempt (rollback_journal sv j') (give_up sv j'))"

text \<open>What a recovery that returns has reached, and what it reports.\<close>

definition recovered :: "('c, 'd) restore_case \<Rightarrow> restore_result option \<Rightarrow> ('c, 'd) world \<Rightarrow> bool" where
  "recovered k r w \<longleftrightarrow> wo_journal w = None \<and> sides_agree k w
     \<and> (\<forall>x. r = Some x \<longrightarrow> (rs_state x = ''committed'' \<longleftrightarrow> phase_of k w = Committed))"

lemma hoare_attempt_give_up:
  assumes "setting k" "hoare P m Q (\<lambda>_. sound k)"
  shows "hoare P (attempt m (give_up (rc_service k) (at_state (rc_journal k) st tx))) Q (\<lambda>_. sound k)"
proof (rule hoare_attempt [OF assms(2)])
  show "hoare (sound k) (give_up (rc_service k) (at_state (rc_journal k) st tx) e) Q (\<lambda>_. sound k)" for e
    unfolding give_up_def
    by (rule hoare_weaken [OF hoare_give_up [OF assms(1), where A = "\<lambda>_. False" and P = "sound k"]])
      (auto simp: outcome_def split: saga_error.splits)
qed

lemma hoare_rollback_journal:
  assumes k: "setting k" and fits: "fits k st (Some i) (insert RolledBack phs) (insert (rc_old k) rs)"
  shows "hoare (here k b st (Some i) phs rs) (rollback_journal (rc_service k) (at_state (rc_journal k) st' (Some i)))
     (recovered k) (\<lambda>_. sound k)"
proof -
  let ?sv = "rc_service k" and ?at = "here k b st (Some i)" and ?exit = "\<lambda>_ :: saga_error. sound k"
  have sub: "fits k st (Some i) ps xs" if "ps \<subseteq> insert RolledBack phs" "xs \<subseteq> insert (rc_old k) rs" for ps xs
    using fits that by (rule fits_mono)
  have err: "hoare P m Q (err k (?at ps xs)) \<Longrightarrow> hoare P m Q ?exit" if "ps \<subseteq> insert RolledBack phs" "xs \<subseteq> insert (rc_old k) rs"
    for P Q ps xs and m :: "(_, _, unit) saga"
    by (erule hoare_weaken) (auto simp: err_def intro: here_sound [OF _ sub [OF that]] split: if_splits)
  have roll: "hoare (?at phs rs) (rollback_core ?sv (at_state (rc_journal k) st' (Some i))) (\<lambda>_. ?at {RolledBack} rs) ?exit"
    by (rule err [OF _ _ hoare_rollback_core [OF k]]) (auto intro: sub)
  have copy: "hoare (?at {RolledBack} rs) (ebind (restore_rounds_database ?sv (rj_rounds_rollback_path (rc_journal k)))
      (\<lambda>_. verify_rounds_database ?sv)) (\<lambda>_. ?at {RolledBack} {rc_old k}) ?exit"
    by (rule err [OF _ _ hoare_put_back [OF k]]) (auto intro: sub)
  have start: "hoare (?at {RolledBack} {rc_old k}) (ebind (step ?sv StartCore) (\<lambda>_. require_healthy ?sv))
      (\<lambda>_. ?at {RolledBack} {rc_old k}) ?exit"
    by (rule err [OF _ _ hoare_health]) (auto intro: here_sound [OF _ sub])
  have finish: "hoare (?at {RolledBack} {rc_old k})
      (ebind (write_journal ?sv (at_state (rc_journal k) ''rolled_back'' (Some i))) (\<lambda>_.
       ebind (cleanup_success ?sv (at_state (rc_journal k) ''rolled_back'' (Some i))) (\<lambda>_. ereturn (Some \<lparr>rs_restore_id = r,
         rs_state = ''rolled_back'', rs_transaction_id = t\<rparr>)))) (recovered k) ?exit" for r t
    by (rule finish_rolled_back [OF k sub])
      (auto intro!: hoare_pure here_sound [OF _ sub] simp: fails_def recovered_def finished_def)
  show ?thesis
    using hoare_bind [OF roll hoare_bind [OF copy hoare_bind [OF start finish]]]
    by (simp add: rollback_journal_def ebind_assoc Let_def)
qed

lemma undo_begun:
  assumes k: "setting k" and fits: "fits k st (Some i) (insert RolledBack phs) (insert (rc_old k) rs)"
  shows "hoare (here k b st (Some i) phs rs) (undo (rc_service k) (at_state (rc_journal k) st (Some i))) (recovered k) (\<lambda>_. sound k)"
proof -
  let ?sv = "rc_service k" and ?j = "at_state (rc_journal k) st (Some i)" and ?at = "here k b st (Some i) phs rs"
  have "fits k st (Some i) phs rs" by (rule fits_mono [OF fits]) auto
  then have "hoare ?at (step ?sv StopCore) (\<lambda>_. ?at) (\<lambda>_. sound k)"
    by (intro hoare_weaken [OF hoare_step_fails]) (auto simp: fails_def intro: here_sound)
  then have "hoare ?at (ebind (step ?sv StopCore) (\<lambda>_. begin_if_needed ?sv ?j)) (\<lambda>j w. j = ?j \<and> ?at w) (\<lambda>_. sound k)"
    by (rule hoare_bind) (auto simp: begin_if_needed_def hoare_def)
  then have "hoare ?at (attempt (ebind (step ?sv StopCore) (\<lambda>_. begin_if_needed ?sv ?j)) (give_up ?sv ?j))
      (\<lambda>j w. j = ?j \<and> ?at w) (\<lambda>_. sound k)"
    by (rule hoare_attempt_give_up [OF k])
  moreover have "hoare (\<lambda>w. j = ?j \<and> ?at w) (attempt (rollback_journal ?sv j) (give_up ?sv j)) (recovered k) (\<lambda>_. sound k)" for j
    using hoare_attempt_give_up [OF k hoare_rollback_journal [OF k fits]] by (cases "j = ?j") (simp_all add: hoare_def)
  ultimately show ?thesis unfolding undo_def by (rule hoare_bind)
qed

lemma undo_unbegun:
  assumes k: "setting k"
  shows "hoare (here k b ''begin_pending'' None {Before, Pending, RolledBack} {rc_old k})
     (undo (rc_service k) (at_state (rc_journal k) ''begin_pending'' None)) (recovered k) (\<lambda>_. sound k)"
proof -
  let ?sv = "rc_service k" and ?j = "at_state (rc_journal k) ''begin_pending'' None"
  let ?at = "here k b ''begin_pending'' None {Before, Pending, RolledBack} {rc_old k}"
  let ?applied = "''applied_pending_commit''"
  let ?next = "\<lambda>j w. \<exists>i. j = at_state (rc_journal k) ?applied (Some i) \<and> here k b ?applied (Some i) {Pending, RolledBack} {rc_old k} w"
  have fits: "fits k ''begin_pending'' None {Before, Pending, RolledBack} {rc_old k}" by (simp add: fits_def expected_def)
  have set: "insert Pending ({Before, Pending, RolledBack} - {Before}) = {Pending, RolledBack}" by auto
  have "hoare ?at (step ?sv StopCore) (\<lambda>_. ?at) (\<lambda>_. sound k)"
    by (intro hoare_weaken [OF hoare_step_fails]) (auto simp: fails_def intro: here_sound [OF _ fits])
  moreover have "hoare ?at (begin_if_needed ?sv ?j) ?next (\<lambda>_. sound k)"
    using hoare_begin [OF k fits subset_refl, of b "''begin_pending''", unfolded set]
    by (rule hoare_weaken) (auto simp: outcome_def reopened_def split: saga_error.splits)
  ultimately have "hoare ?at (ebind (step ?sv StopCore) (\<lambda>_. begin_if_needed ?sv ?j)) ?next (\<lambda>_. sound k)"
    by (rule hoare_bind)
  then have "hoare ?at (attempt (ebind (step ?sv StopCore) (\<lambda>_. begin_if_needed ?sv ?j)) (give_up ?sv ?j)) ?next (\<lambda>_. sound k)"
    by (rule hoare_attempt_give_up [OF k])
  moreover have "hoare (?next j) (attempt (rollback_journal ?sv j) (give_up ?sv j)) (recovered k) (\<lambda>_. sound k)" for j
    by (rule hoare_ex) (auto intro!: hoare_attempt_give_up [OF k] hoare_rollback_journal [OF k] fits_table)
  ultimately show ?thesis unfolding undo_def by (rule hoare_bind)
qed

text \<open>The process died while it removed the files of a restore that had been rolled back.\<close>

definition stripped :: "('c, 'd) restore_case \<Rightarrow> string \<Rightarrow> ('c, 'd) world \<Rightarrow> bool" where
  "stripped k i w \<longleftrightarrow> wo_journal w = Some (journal_to_payload (at_state (rc_journal k) ''rolled_back'' (Some i)))
     \<and> phase_of k w = RolledBack \<and> rounds_of k w = Some (rc_old k) \<and> rollback_of k w = None"

lemma stripped_sound: "stripped k i w \<Longrightarrow> sound k w"
  by (rule sound_journal [of k "''rolled_back''" "Some i"]) (auto simp: stripped_def expected_def)

lemma undo_stripped:
  assumes k: "setting k"
  shows "hoare (stripped k i) (undo (rc_service k) (at_state (rc_journal k) ''rolled_back'' (Some i))) (recovered k) (\<lambda>_. sound k)"
proof -
  let ?sv = "rc_service k" and ?j = "at_state (rc_journal k) ''rolled_back'' (Some i)"
  have no_copy: "hoare (stripped k i) (restore_rounds_database ?sv (rj_rounds_rollback_path (rc_journal k))) (\<lambda>_ _. False) (\<lambda>_. sound k)"
    unfolding hoare_def using stripped_sound [of k i] by (simp add: restore_rounds_database_def stripped_def rollback_of_def)
  have timeless: "timeless (stripped k i)" by (simp add: timeless_def stripped_def)
  have "hoare (stripped k i) (core_call ?sv (sv_rollback ?sv i)) (\<lambda>_. stripped k i) (fails k (stripped k i))"
  proof (rule hoare_core [OF timeless stripped_sound])
    have keep: "stripped k i (w\<lparr>wo_core := c\<rparr>)" if "stripped k i w" "sv_rollback ?sv i (wo_core w) = (r, c)" for w r c
    proof -
      have "rc_phase k c = RolledBack"
        using k that unfolding setting_def core_contract_def stripped_def phase_of_def by fastforce
      with that(1) show ?thesis by (simp add: stripped_def)
    qed
    show "stripped k i w \<Longrightarrow> sv_rollback ?sv i (wo_core w) = (Some r, c) \<Longrightarrow> stripped k i (w\<lparr>wo_core := c\<rparr>)"
      "stripped k i w \<Longrightarrow> sv_rollback ?sv i (wo_core w) = (None, c) \<Longrightarrow> stripped k i (w\<lparr>wo_core := c\<rparr>)" for w r c
      by (rule keep; assumption)+
  qed auto
  then have "hoare (stripped k i) (rollback_core ?sv ?j) (\<lambda>_. stripped k i) (\<lambda>_. sound k)"
    unfolding rollback_core_def at_state_fields option.case
    by (rule hoare_weaken) (auto simp: fails_def intro: stripped_sound)
  then have "hoare (stripped k i) (rollback_journal ?sv ?j) (recovered k) (\<lambda>_. sound k)"
    unfolding rollback_journal_def at_state_fields
    by (rule hoare_bind) (rule hoare_bind [OF no_copy], simp add: hoare_def)
  note roll = hoare_attempt_give_up [OF k this, of "''rolled_back''" "Some i"]
  have "hoare (stripped k i) (step ?sv StopCore) (\<lambda>_. stripped k i) (\<lambda>_. sound k)"
    by (rule hoare_weaken [OF hoare_step_fails [OF timeless stripped_sound]]) (auto simp: fails_def intro: stripped_sound)
  then have "hoare (stripped k i) (ebind (step ?sv StopCore) (\<lambda>_. begin_if_needed ?sv ?j))
      (\<lambda>j w. j = ?j \<and> stripped k i w) (\<lambda>_. sound k)"
    by (rule hoare_bind) (auto simp: begin_if_needed_def hoare_def)
  then have "hoare (stripped k i) (attempt (ebind (step ?sv StopCore) (\<lambda>_. begin_if_needed ?sv ?j)) (give_up ?sv ?j))
      (\<lambda>j w. j = ?j \<and> stripped k i w) (\<lambda>_. sound k)"
    by (rule hoare_attempt_give_up [OF k])
  moreover have "hoare (\<lambda>w. j = ?j \<and> stripped k i w) (attempt (rollback_journal ?sv j) (give_up ?sv j)) (recovered k) (\<lambda>_. sound k)" for j
    using roll by (cases "j = ?j") (simp_all add: hoare_def)
  ultimately show ?thesis unfolding undo_def by (rule hoare_bind)
qed

definition resume :: "('c, 'd) service \<Rightarrow> restore_journal \<Rightarrow> ('c, 'd, restore_result option) saga" where
  "resume sv j =
     (if rj_state j = ''restore_inconsistent'' then eraise INCONSISTENT
      else if rj_state j = ''committed'' then
        ebind (cleanup_success sv j) (\<lambda>_. ereturn (Some \<lparr>rs_restore_id = rj_restore_id j,
          rs_state = ''committed'', rs_transaction_id = rj_core_restore_transaction_id j\<rparr>))
      else if rj_state j = ''prepared'' \<and> rj_core_restore_transaction_id j = None then
        ebind (cleanup_failed_before_begin sv j) (\<lambda>_. ereturn (Some \<lparr>rs_restore_id = rj_restore_id j,
          rs_state = ''rolled_back'', rs_transaction_id = None\<rparr>))
      else undo sv j)"

lemma resume_states:
  "resume sv (at_state j ''restore_inconsistent'' tx) = eraise INCONSISTENT"
  "resume sv (at_state j ''committed'' tx) = ebind (cleanup_success sv (at_state j ''committed'' tx)) (\<lambda>_. ereturn (Some
     \<lparr>rs_restore_id = rj_restore_id j, rs_state = ''committed'', rs_transaction_id = tx\<rparr>))"
  "resume sv (at_state j ''prepared'' None) = ebind (cleanup_failed_before_begin sv (at_state j ''prepared'' None)) (\<lambda>_. ereturn (Some
     \<lparr>rs_restore_id = rj_restore_id j, rs_state = ''rolled_back'', rs_transaction_id = None\<rparr>))"
  "st \<in> {''begin_pending'', ''applied_pending_commit'', ''rounds_applied_pending_commit'', ''healthy_pending_commit'', ''rolled_back''}
     \<Longrightarrow> resume sv (at_state j st tx) = undo sv (at_state j st tx)"
  unfolding resume_def at_state_fields by auto

lemma resume_settled:
  assumes "setting k"
  shows "hoare (settled_journal k Committed) (resume (rc_service k) (at_state (rc_journal k) ''committed'' tx)) (recovered k) (\<lambda>_. sound k)"
    and "hoare (settled_journal k Before) (resume (rc_service k) (at_state (rc_journal k) ''prepared'' None)) (recovered k) (\<lambda>_. sound k)"
proof -
  have err: "err k (\<lambda>_. False) e w \<Longrightarrow> sound k w" for e w by (simp add: err_def split: if_splits)
  show "hoare (settled_journal k Committed) (resume (rc_service k) (at_state (rc_journal k) ''committed'' tx)) (recovered k) (\<lambda>_. sound k)"
    unfolding resume_states
    by (rule hoare_bind [OF hoare_weaken [OF hoare_cleanup(2) [OF assms]] hoare_pure(1)])
      (auto intro: err simp: recovered_def finished_def)
  show "hoare (settled_journal k Before) (resume (rc_service k) (at_state (rc_journal k) ''prepared'' None)) (recovered k) (\<lambda>_. sound k)"
    unfolding resume_states
    by (rule hoare_bind [OF hoare_weaken [OF hoare_cleanup(1) [OF assms]] hoare_pure(1)])
      (auto intro: err simp: recovered_def finished_def)
qed

definition safe :: "('c, 'd) restore_case \<Rightarrow> ('c, 'd, restore_result option) saga \<Rightarrow> ('c, 'd) world \<Rightarrow> bool" where
  "safe k m w \<longleftrightarrow> (case m w of (Inl e, t) \<Rightarrow> sound k t | (Inr x, t) \<Rightarrow> recovered k x t)"

lemma safeI: "hoare P m (recovered k) (\<lambda>_. sound k) \<Longrightarrow> P w \<Longrightarrow> safe k m w"
  by (simp add: hoare_def safe_def)

lemma resume_begun:
  assumes "setting k" "wo_journal w = Some (journal_to_payload (at_state (rc_journal k) st (Some i)))" "rollback_of k w = Some (rc_old k)"
    and "phase_of k w \<in> phs" "rounds_of k w \<in> Some ` rs" "fits k st (Some i) (insert RolledBack phs) (insert (rc_old k) rs)"
    and "st \<in> {''applied_pending_commit'', ''rounds_applied_pending_commit'', ''healthy_pending_commit'', ''rolled_back''}"
  shows "safe k (resume (rc_service k) (at_state (rc_journal k) st (Some i))) w"
proof -
  have "here k False st (Some i) phs rs w" using assms(2-5) by (simp add: here_def)
  with safeI [OF undo_begun [OF assms(1,6)]] resume_states(4) [of st "rc_service k"] assms(7) show ?thesis by auto
qed

lemma resume_rolled_back:
  assumes "setting k" "wo_journal w = Some (journal_to_payload (at_state (rc_journal k) ''rolled_back'' (Some i)))"
    and "phase_of k w = RolledBack" "rounds_of k w = Some (rc_old k)" "rollback_of k w \<in> {None, Some (rc_old k)}"
  shows "safe k (resume (rc_service k) (at_state (rc_journal k) ''rolled_back'' (Some i))) w"
proof (cases "rollback_of k w")
  case None
  then have "stripped k i w" using assms by (simp add: stripped_def)
  with safeI [OF undo_stripped [OF assms(1)]] resume_states(4) [of "''rolled_back''" "rc_service k"] show ?thesis by simp
next
  case (Some d)
  then show ?thesis
    using assms by (intro resume_begun [where phs = "{RolledBack}" and rs = "{rc_old k}"]) (auto simp: fits_def expected_def)
qed

lemma resume_sound:
  assumes k: "setting k" and expected: "expected k st tx (phase_of k w) (rounds_of k w) (rollback_of k w)"
    and journal: "wo_journal w = Some (journal_to_payload (at_state (rc_journal k) st tx))"
  shows "safe k (resume (rc_service k) (at_state (rc_journal k) st tx)) w"
proof -
  let ?old = "rc_old k" and ?both = "{rc_old k, rc_new k}"
  have settled: "settled_journal k ph w"
    if "phase_of k w = ph" "sides_agree k w" "rollback_of k w \<in> {None, Some ?old}" "expected k st tx (phase_of k w) (rounds_of k w) None" for ph
    using that journal unfolding settled_journal_def by blast
  from expected [unfolded expected_def] show ?thesis
  proof (elim disjE conjE)
    assume a: "st = ''prepared''" "tx = None" "phase_of k w = Before" "rounds_of k w = Some ?old" "rollback_of k w \<in> {None, Some ?old}"
    then have "settled_journal k Before w" by (intro settled) (simp_all add: sides_agree_def expected_def)
    with safeI [OF resume_settled(2) [OF k]] a(1,2) show ?thesis by simp
  next
    assume a: "st = ''begin_pending''" "tx = None" "phase_of k w \<in> {Before, Pending, RolledBack}" "rounds_of k w = Some ?old" "rollback_of k w = Some ?old"
    then have "here k False st tx {Before, Pending, RolledBack} {?old} w" using journal by (simp add: here_def)
    with safeI [OF undo_unbegun [OF k]] resume_states(4) [of st "rc_service k"] a(1,2) show ?thesis by simp
  next
    assume a: "st \<in> {''applied_pending_commit'', ''rounds_applied_pending_commit''}" "tx \<noteq> None" "phase_of k w \<in> {Pending, RolledBack}"
      "rounds_of k w \<in> {Some ?old, Some (rc_new k)}" "rollback_of k w = Some ?old"
    then show ?thesis
      using k journal by (auto intro!: resume_begun [where phs = "{Pending, RolledBack}" and rs = ?both] fits_table)
  next
    assume a: "st = ''healthy_pending_commit''" "tx \<noteq> None" "phase_of k w \<in> {Pending, Committed, RolledBack}"
      "rounds_of k w \<in> {Some ?old, Some (rc_new k)}" "rollback_of k w = Some ?old"
    then show ?thesis
      using k journal by (auto intro!: resume_begun [where phs = "{Pending, Committed, RolledBack}" and rs = ?both] fits_table)
  next
    assume a: "st = ''committed''" "phase_of k w = Committed" "rounds_of k w = Some (rc_new k)" "rollback_of k w \<in> {None, Some ?old}"
    then have "settled_journal k Committed w" by (intro settled) (simp_all add: sides_agree_def expected_def)
    with safeI [OF resume_settled(1) [OF k]] a(1) show ?thesis by simp
  next
    assume "st = ''rolled_back''" "tx \<noteq> None" "phase_of k w = RolledBack" "rounds_of k w = Some ?old" "rollback_of k w \<in> {None, Some ?old}"
    then show ?thesis using k journal by (auto intro!: resume_rolled_back)
  next
    assume "st = ''restore_inconsistent''"
    then show ?thesis using sound_journal [OF expected journal] by (simp add: resume_states safe_def)
  qed
qed

lemma recover_resume:
  "recover sv = ebind (read_journal_or_none sv) (\<lambda>found. case found of None \<Rightarrow> ereturn None | Some j \<Rightarrow> resume sv j)"
  by (simp only: recover_def resume_def undo_def)

lemma read_journal_back:
  assumes "setting k" "wo_journal w = Some (journal_to_payload (at_state (rc_journal k) st tx))"
  shows "read_journal (rc_service k) w = (Inr (at_state (rc_journal k) st tx), w) \<or> (\<exists>e. read_journal (rc_service k) w = (Inl e, w))"
proof (cases "journal_from_payload (sv_expand (rc_service k)) (journal_to_payload (at_state (rc_journal k) st tx))")
  case (Inr j)
  then have "j = at_state (rc_journal k) st tx"
    by (rule journal_decode) (use assms(1) in \<open>auto simp: setting_def separate_paths_def Let_def at_state_def\<close>)
  with Inr assms(2) show ?thesis
    by (cases "validate_journal_paths (rc_service k) j") (simp_all add: read_journal_def)
qed (use assms(2) in \<open>simp add: read_journal_def\<close>)

lemma hoare_recover:
  assumes k: "setting k"
  shows "hoare (sound k) (recover (rc_service k)) (recovered k) (\<lambda>_. sound k)"
proof -
  let ?sv = "rc_service k"
  have "safe k (recover ?sv) w" if w: "sound k w" for w
  proof (cases "wo_journal w")
    case None
    then show ?thesis using w
      by (simp add: safe_def recover_resume ebind_def read_journal_or_none_def sound_def recovered_def)
  next
    case (Some payload)
    then obtain st tx where journal: "wo_journal w = Some (journal_to_payload (at_state (rc_journal k) st tx))"
      and expected: "expected k st tx (phase_of k w) (rounds_of k w) (rollback_of k w)"
      using w unfolding sound_def by auto
    from read_journal_back [OF k journal] resume_sound [OF k expected journal] w Some show ?thesis
      by (auto simp: safe_def recover_resume read_journal_or_none_def ebind_def)
  qed
  then show ?thesis by (simp add: hoare_def safe_def)
qed

section \<open>The restore as a whole\<close>

text \<open>A Core whose state is the phase of its transaction, and a restore on it, for examples.\<close>

definition demo_digest :: string where
  "demo_digest = ''sha256:'' @ replicate 64 (CHR ''a'')"

definition demo_service :: "(step \<Rightarrow> nat \<Rightarrow> fate) \<Rightarrow> (phase, string) service" where
  "demo_service fate =
     \<lparr>sv_rounds_path = ''/r'', sv_expand = (\<lambda>p. p), sv_journal_path = ''/j'', sv_rollback_root = ''/b'',
      sv_core_data_dir = ''/c'', sv_resolve = (\<lambda>p. p),
      sv_begin = (\<lambda>i c. (Some \<lparr>bg_transaction_id = ''t'', bg_relative_path = ''exchange/incoming/c'', bg_sha256 = demo_digest,
          bg_size_bytes = 1, bg_schema_version = 1\<rparr>, if c = Before then Pending else c)),
      sv_commit = (\<lambda>i c. if c = Pending \<or> c = Committed
          then (Some \<lparr>rs_restore_id = ''i'', rs_state = ''committed'', rs_transaction_id = Some i\<rparr>, Committed) else (None, c)),
      sv_rollback = (\<lambda>i c. if c = Pending \<or> c = RolledBack then (Some (), RolledBack) else (None, c)),
      sv_healthy = (\<lambda>_. True), sv_intact = (\<lambda>_. True), sv_fate = fate\<rparr>"

definition demo_journal :: restore_journal where
  "demo_journal =
     \<lparr>rj_restore_id = ''i'', rj_state = ''prepared'', rj_backup_id = demo_digest, rj_rounds_rollback_path = ''/b/i'',
      rj_core_restore_token = ''k'', rj_core_restore_transaction_id = None, rj_core_relative_path = ''exchange/incoming/c'',
      rj_core_sha256 = demo_digest, rj_core_size_bytes = 1, rj_core_schema_version = 1, rj_rounds_snapshot_path = ''/c/s/n'',
      rj_core_exchange_path = ''/c/exchange/incoming/c'', rj_staging_dir = ''/c/s''\<rparr>"

definition demo_world :: "(phase, string) world" where
  "demo_world =
     \<lparr>wo_tick = 0, wo_journal = Some (journal_to_payload demo_journal),
      wo_files = (\<lambda>p. if p = ''/r'' \<or> p = ''/b/i'' then Some ''old'' else if p = ''/c/s/n'' then Some ''new'' else None),
      wo_core = Before, wo_completed = []\<rparr>"

text \<open>The faults: the listed ticks raise, or kill the process.\<close>

definition faults :: "nat list \<Rightarrow> nat list \<Rightarrow> step \<Rightarrow> nat \<Rightarrow> fate" where
  "faults raises deaths lab n = (if n \<in> set deaths then Die else if n \<in> set raises then Raise else Go)"

fun recoveries :: "('c, 'd) service \<Rightarrow> nat \<Rightarrow> ('c, 'd) world \<Rightarrow> ('c, 'd) world" where
  "recoveries sv 0 w = w"
| "recoveries sv (Suc n) w = recoveries sv n (snd (recover sv w))"

text \<open>What \<^verbatim>\<open>prepare_restore\<close> leaves: the journal, a copy of the database, and the staged snapshot.\<close>

definition prepared_world :: "('c, 'd) restore_case \<Rightarrow> ('c, 'd) world \<Rightarrow> bool" where
  "prepared_world k w \<longleftrightarrow> (let j = rc_journal k in
     rj_state j = ''prepared'' \<and> rj_core_restore_transaction_id j = None
     \<and> wo_journal w = Some (journal_to_payload j) \<and> map_of (wo_completed w) (rj_restore_id j) = None
     \<and> phase_of k w = Before \<and> rounds_of k w = Some (rc_old k) \<and> rollback_of k w = Some (rc_old k)
     \<and> wo_files w (rj_rounds_snapshot_path j) = Some (rc_new k))"

text \<open>A journal that is read back names no path that is the rounds database.\<close>

lemma journal_paths_outside:
  assumes "assert_local_ownership_boundary sv = Inr ()" "validate_journal_paths sv j = Inr ()"
  shows "sv_rounds_path sv \<noteq> rj_rounds_snapshot_path j \<and> sv_rounds_path sv \<noteq> rj_core_exchange_path j
     \<and> sv_rounds_path sv \<noteq> rj_staging_dir j"
  using assms
  by (auto simp: assert_local_ownership_boundary_def validate_journal_paths_def within_def res_simps
      dest: append_prefixD)

text \<open>A preparation that returns leaves a prepared world.\<close>

lemma prepare_restore_leaves:
  assumes "setting k" "prepare_restore (rc_service k) (Inr p, files) i w = (Inr j, w')" "j = rc_journal k"
    and "wo_journal w = None" "map_of (wo_completed w) i = None" "phase_of k w = Before"
    and "files (wo_files w) (sv_rounds_path (rc_service k)) = Some (rc_old k)"
    and "files (wo_files w) (pc_rounds_snapshot_path p) = Some (rc_new k)"
  shows "prepared_world k w'"
proof -
  let ?b = "sv_rollback_root (rc_service k) @ ''/'' @ i @ ''.sqlite''" and ?sv = "rc_service k"
  have j: "rc_journal k = new_journal i ?b p"
    and w': "wo_files w' = (files (wo_files w))(?b := Some (rc_old k))" "wo_journal w' = Some (journal_to_payload (rc_journal k))"
      "wo_completed w' = wo_completed w" "wo_core w' = wo_core w"
    using assms(2-4,7)
    by (auto simp: prepare_restore_def read_journal_or_none_def ebind_cases change_def attempt_def ecatch_cases Let_def
        write_journal_def step_def split: fate.splits if_splits saga_error.splits)
  then show ?thesis
    using assms(1,5,6,7,8)
    by (auto simp: prepared_world_def phase_of_def rounds_of_def rollback_of_def new_journal_def setting_def separate_paths_def Let_def)
qed

lemma prepared_here:
  assumes "prepared_world k w"
  shows "at_state (rc_journal k) ''prepared'' None = rc_journal k" "here k True ''prepared'' None {Before} {rc_old k} w"
proof -
  show "at_state (rc_journal k) ''prepared'' None = rc_journal k"
    using assms by (cases "rc_journal k") (simp add: prepared_world_def at_state_def Let_def)
  then show "here k True ''prepared'' None {Before} {rc_old k} w"
    using assms by (simp add: prepared_world_def here_def Let_def)
qed

lemma recovered_sound: "recovered k r w \<Longrightarrow> sound k w"
  by (simp add: recovered_def sound_def)

lemma sound_closed: "sound k w \<Longrightarrow> wo_journal w = None \<Longrightarrow> sides_agree k w"
  by (simp add: sound_def)

lemma recoveries_sound: "setting k \<Longrightarrow> sound k w \<Longrightarrow> sound k (recoveries (rc_service k) n w)"
proof (induction n arbitrary: w)
  case (Suc n)
  have "sound k (snd (recover (rc_service k) w))"
    using hoareD [OF hoare_recover [OF Suc.prems(1)] Suc.prems(2)] recovered_sound
    by (cases "recover (rc_service k) w"; cases "fst (recover (rc_service k) w)") auto
  with Suc show ?case by simp
qed simp

definition targets :: "restore_journal \<Rightarrow> restore_target set" where
  "targets j = {FromJournal, Prepared j, Stored j, ById (rj_restore_id j)}"

lemma apply_restore_sound:
  assumes "setting k" "prepared_world k w" "target \<in> targets (rc_journal k)" "apply_restore (rc_service k) target w = (r, w')"
  shows "case r of Inl e \<Rightarrow> sound k w' | Inr x \<Rightarrow> finished k Committed w'"
proof -
  note same = prepared_here(1) [OF assms(2)] and here = prepared_here(2) [OF assms(2)]
  have sound: "sound k w" by (rule here_sound [OF here fits_table(5)])
  have run: "case apply_journal (rc_service k) (rc_journal k) w of (Inl e, t) \<Rightarrow> sound k t | (Inr x, t) \<Rightarrow> finished k Committed t"
    using hoare_apply [OF assms(1)] here unfolding same by (simp add: hoare_def)
  have "read_journal (rc_service k) w = (Inr (rc_journal k), w) \<or> (\<exists>e. read_journal (rc_service k) w = (Inl e, w))"
    using read_journal_back [OF assms(1), of w "''prepared''" None] assms(2) unfolding same
    by (simp add: prepared_world_def Let_def)
  moreover have "map_of (wo_completed w) (rj_restore_id (rc_journal k)) = None"
    using assms(2) by (simp add: prepared_world_def Let_def)
  ultimately show ?thesis
    using assms(3,4) run sound by (auto simp: targets_def apply_restore_def ebind_def split: prod.splits sum.splits)
qed

text \<open>
  C22. A restore never splits Core from the rounds database. Core keeps its contract, and no removal of a
  file and no sync of a directory raises; every other step may fail, and the process may die at any step,
  during the application of a prepared restore and any number of recoveries after it. Once no journal is
  left, either Core has committed and the database holds the restored data, or Core has not and
  the database holds the data from before. An application that returns has committed on both sides, and a
  recovery that returns leaves no journal and reports the side that both are on.
\<close>

theorem restore_never_splits:
  assumes "setting k" "prepared_world k w" "target \<in> targets (rc_journal k)"
    and "apply_restore (rc_service k) target w = (r, w1)" "w2 = recoveries (rc_service k) n w1"
  shows "(wo_journal w2 = None \<longrightarrow> sides_agree k w2)
     \<and> (\<forall>x. r = Inr x \<longrightarrow> wo_journal w1 = None \<and> phase_of k w1 = Committed \<and> rounds_of k w1 = Some (rc_new k))
     \<and> (\<forall>y w3. recover (rc_service k) w2 = (Inr y, w3) \<longrightarrow> recovered k y w3)"
proof (intro conjI allI impI)
  have w1: "case r of Inl e \<Rightarrow> sound k w1 | Inr x \<Rightarrow> finished k Committed w1" by (rule apply_restore_sound [OF assms(1-4)])
  then have "sound k w1" by (auto simp: finished_sound split: sum.splits)
  then have w2: "sound k w2" using recoveries_sound [OF assms(1)] assms(5) by simp
  then show "wo_journal w2 = None \<Longrightarrow> sides_agree k w2" by (rule sound_closed)
  show "recover (rc_service k) w2 = (Inr y, w3) \<Longrightarrow> recovered k y w3" for y w3
    by (rule hoareD(1) [OF hoare_recover [OF assms(1)] w2])
  show "wo_journal w1 = None" "phase_of k w1 = Committed" "rounds_of k w1 = Some (rc_new k)" if "r = Inr x" for x
    using w1 that by (auto simp: finished_def sides_agree_def)
qed

definition demo_case :: "(step \<Rightarrow> nat \<Rightarrow> fate) \<Rightarrow> (phase, string) restore_case" where
  "demo_case fate = \<lparr>rc_service = demo_service fate, rc_phase = (\<lambda>c. c), rc_journal = demo_journal,
     rc_old = ''old'', rc_new = ''new''\<rparr>"

lemma demo_setting: "(\<And>n. fate Unlink n \<noteq> Raise \<and> fate JournalSync n \<noteq> Raise) \<Longrightarrow> setting (demo_case fate)"
  unfolding setting_def core_contract_def quiet_cleanup_def separate_paths_def demo_case_def demo_service_def demo_journal_def
  by (auto simp: Let_def split: if_splits)

lemma demo_prepared: "prepared_world (demo_case fate) demo_world"
  by (simp add: prepared_world_def demo_case_def demo_world_def demo_journal_def demo_service_def Let_def
      phase_of_def rounds_of_def rollback_of_def)

lemma demo_run:
  "let k = demo_case (faults [] [12]); (r, w1) = apply_restore (rc_service k) FromJournal demo_world;
       w2 = recoveries (rc_service k) (Suc 0) w1
   in r = Inl Died \<and> wo_journal w2 = None \<and> rounds_of k w1 = Some (rc_new k) \<and> rounds_of k w2 = Some (rc_old k)"
  by code_simp

text \<open>The process dies before Core is started on the restored database; the recovery puts both sides back.\<close>

theorem restore_never_splits_witness:
  "let k = demo_case (faults [] [12]); (r, w1) = apply_restore (rc_service k) FromJournal demo_world;
       w2 = recoveries (rc_service k) (Suc 0) w1
   in setting k \<and> prepared_world k demo_world \<and> r = Inl Died \<and> rounds_of k w1 = Some (rc_new k)
      \<and> wo_journal w2 = None \<and> sides_agree k w2 \<and> rounds_of k w2 = Some (rc_old k)"
proof -
  let ?k = "demo_case (faults [] [12])"
  have k: "setting ?k" by (rule demo_setting) (simp add: faults_def)
  have "FromJournal \<in> targets (rc_journal ?k)" by (simp add: targets_def)
  from restore_never_splits [OF k demo_prepared this surjective_pairing refl, of "Suc 0"] demo_run k demo_prepared
  show ?thesis unfolding Let_def by (simp add: case_prod_beta)
qed

text \<open>
  What a restore does not survive, each on a run of the example. (1) The process dies after Core began,
  the restore is applied again and stopping Core fails: the journal is removed while Core's transaction is
  pending. (2) A file cannot be removed after both sides have committed: the compensation puts the old
  database back under the committed Core, and after a death the recovery reports the restore as committed.
  (3) The process dies while it removes the files of a restore that has been rolled back on both sides: the
  recovery calls it inconsistent.
\<close>

lemma restore_gaps:
  "(let sv = demo_service (faults [5] [4]); w = snd (apply_restore sv FromJournal (snd (apply_restore sv FromJournal demo_world)))
    in wo_journal w = None \<and> wo_core w = Pending)
   \<and> (let sv = demo_service (faults [19] [25]); (r, w) = recover sv (snd (apply_restore sv FromJournal demo_world))
    in map_sum (\<lambda>_. ()) (map_option rs_state) r = Inr (Some ''committed'') \<and> wo_journal w = None \<and> wo_core w = Committed
       \<and> wo_files w ''/r'' = Some ''old'')
   \<and> (let sv = demo_service (faults [6] [17]); w1 = snd (apply_restore sv FromJournal demo_world); (r, w) = recover sv w1
    in wo_core w1 = RolledBack \<and> wo_files w1 ''/r'' = Some ''old'' \<and> r = Inl INCONSISTENT)"
  by code_simp

end
