(* ===== verification/Migrations.thy ===== *)
theory Migrations
  imports Effects Sha256
begin

text \<open>
  The migrations of the rounds database (\<^verbatim>\<open>persistence/migrations.py\<close>, \<^verbatim>\<open>rounds_migrations.py\<close>).

  A connection has the state on disk and, in a transaction, the state it works on. What a statement does
  is the argument \<open>execute\<close>; the history table is kept apart from the rest of the database because the
  code reads and writes it. Every call of the connection may also fail, and a failure may end the
  transaction, as SQLite does on a full disk. A run applies whole migrations only and continues where an
  earlier one stopped (C33).
\<close>

section \<open>The packaged migrations\<close>

record migration =
  mg_version :: nat
  mg_name :: string
  mg_checksum :: string
  mg_sql :: string

datatype migration_error =
    MigrationError "nat list"
  | UnknownMigrationError "nat option"
  | MigrationVersionError "nat list"
  | MigrationChecksumError string
  | SqliteError

text \<open>An entry of the directory: its name, whether it is a file, and its text.\<close>

type_synonym dir_entry = "string \<times> bool \<times> string"

text \<open>The file name \<^verbatim>\<open>^(?P<version>\d{4})_.*\.sql$\<close>, and the number in it.\<close>

definition decimal :: "string \<Rightarrow> nat" where
  "decimal ds = foldl (\<lambda>n c. 10 * n + (of_char c - 48)) 0 ds"

definition migration_file_version :: "string \<Rightarrow> nat option" where
  "migration_file_version name =
     (if list_all (\<lambda>c. c \<in> set ''0123456789'') (take 4 name) \<and> prefix ''_'' (drop 4 name)
         \<and> suffix ''.sql'' (drop 5 name) \<and> CHR 0x0A \<notin> set name
      then Some (decimal (take 4 name)) else None)"

definition migration_checksum :: "string \<Rightarrow> string" where
  "migration_checksum sql = sha256_hexdigest sql"

definition discover_migrations :: "dir_entry list option \<Rightarrow> migration list" where
  "discover_migrations dir =
     (case dir of
        None \<Rightarrow> []
      | Some entries \<Rightarrow> sort_key mg_version (List.map_filter (\<lambda>(name, is_file, sql).
          case migration_file_version name of
            None \<Rightarrow> None
          | Some version \<Rightarrow>
              if is_file then Some \<lparr>mg_version = version, mg_name = name, mg_checksum = migration_checksum sql, mg_sql = sql\<rparr>
              else None) entries))"

definition load_migrations :: "dir_entry list option \<Rightarrow> migration_error + migration list" where
  "load_migrations dir =
     (let loaded = discover_migrations dir; versions = map mg_version loaded in
      raise_if (\<not> distinct versions) (MigrationError (sort (remdups (filter (\<lambda>v. 1 < count_list versions v) versions))))
      (Inr loaded))"

section \<open>The database\<close>

text \<open>A row of \<^verbatim>\<open>schema_migrations\<close>: version, name, checksum and time; no table before the first migration.\<close>

type_synonym history_row = "nat \<times> string \<times> string \<times> string"

record 'd sqldb =
  sd_history :: "history_row list option"
  sd_rest :: 'd

record 'd conn =
  cn_disk :: "'d sqldb"
  cn_work :: "'d sqldb"
  cn_in_transaction :: bool
  cn_foreign_keys :: bool
  cn_calls :: nat

datatype call_fate = Works | Fails | Aborts

record 'd sqlite =
  sq_execute :: "string \<Rightarrow> 'd sqldb \<Rightarrow> 'd sqldb option"
  sq_fate :: "nat \<Rightarrow> call_fate"
  sq_now :: "nat \<Rightarrow> string"

type_synonym ('d, 'a) sql = "('d conn, migration_error, 'a) eff"

definition sql_call :: "'d sqlite \<Rightarrow> ('d, 'a) sql \<Rightarrow> ('d, 'a) sql" where
  "sql_call sq m c =
     (let c' = c\<lparr>cn_calls := Suc (cn_calls c)\<rparr> in
      case sq_fate sq (cn_calls c) of
        Works \<Rightarrow> m c'
      | Fails \<Rightarrow> (Inl SqliteError, c')
      | Aborts \<Rightarrow> (Inl SqliteError, c'\<lparr>cn_in_transaction := False\<rparr>))"

text \<open>What the connection reads.\<close>

definition current :: "'d conn \<Rightarrow> 'd sqldb" where
  "current c = (if cn_in_transaction c then cn_work c else cn_disk c)"

definition begin_immediate :: "'d sqlite \<Rightarrow> ('d, unit) sql" where
  "begin_immediate sq = sql_call sq (\<lambda>c. (Inr (), c\<lparr>cn_work := cn_disk c, cn_in_transaction := True\<rparr>))"

definition execute_statement :: "'d sqlite \<Rightarrow> string \<Rightarrow> ('d, unit) sql" where
  "execute_statement sq statement = sql_call sq (\<lambda>c.
     case sq_execute sq statement (cn_work c) of
       None \<Rightarrow> (Inl SqliteError, c)
     | Some d \<Rightarrow> (Inr (), c\<lparr>cn_work := d\<rparr>))"

definition insert_history :: "migration \<Rightarrow> string \<Rightarrow> 'd sqldb \<Rightarrow> 'd sqldb option" where
  "insert_history m now d =
     (case sd_history d of
        None \<Rightarrow> None
      | Some rows \<Rightarrow>
          if mg_version m \<in> fst ` set rows then None
          else Some (d\<lparr>sd_history := Some (rows @ [(mg_version m, mg_name m, mg_checksum m, now)])\<rparr>))"

definition record_migration :: "'d sqlite \<Rightarrow> migration \<Rightarrow> ('d, unit) sql" where
  "record_migration sq m = sql_call sq (\<lambda>c.
     case insert_history m (sq_now sq (cn_calls c)) (cn_work c) of
       None \<Rightarrow> (Inl SqliteError, c)
     | Some d \<Rightarrow> (Inr (), c\<lparr>cn_work := d\<rparr>))"

definition commit_transaction :: "'d sqlite \<Rightarrow> ('d, unit) sql" where
  "commit_transaction sq = sql_call sq (\<lambda>c.
     (Inr (), if cn_in_transaction c then c\<lparr>cn_disk := cn_work c, cn_in_transaction := False\<rparr> else c))"

definition rollback_transaction :: "'d sqlite \<Rightarrow> ('d, unit) sql" where
  "rollback_transaction sq = sql_call sq (\<lambda>c. (Inr (), c\<lparr>cn_in_transaction := False\<rparr>))"

text \<open>The pragma does nothing in a transaction.\<close>

definition set_foreign_keys :: "'d sqlite \<Rightarrow> bool \<Rightarrow> ('d, unit) sql" where
  "set_foreign_keys sq on = sql_call sq (\<lambda>c.
     (Inr (), if cn_in_transaction c then c else c\<lparr>cn_foreign_keys := on\<rparr>))"

section \<open>Applying migrations\<close>

definition applied_rows :: "'d conn \<Rightarrow> history_row list" where
  "applied_rows c = (case sd_history (current c) of None \<Rightarrow> [] | Some rows \<Rightarrow> rows)"

text \<open>\<open>applied\<close> is the dict from version to checksum, in the order of the versions.\<close>

definition load_applied_versions :: "'d sqlite \<Rightarrow> ('d, (nat \<times> string) list) sql" where
  "load_applied_versions sq =
     ebind (sql_call sq (\<lambda>c. (Inr (sd_history (current c) \<noteq> None), c))) (\<lambda>exists.
     if \<not> exists then ereturn []
     else sql_call sq (\<lambda>c. (Inr (map (\<lambda>(v, _, checksum, _). (v, checksum)) (sort_key fst (applied_rows c))), c)))"

definition check_history :: "(nat \<times> string) list \<Rightarrow> migration list \<Rightarrow> migration_error + nat" where
  "check_history applied migrations =
     (if applied = [] then Inr 0
      else
        let available = map_of (map (\<lambda>m. (mg_version m, m)) migrations);
            available_versions = sort (map mg_version migrations);
            applied_versions = sort (map fst applied)
        in if available_versions = [] then Inl (UnknownMigrationError None)
        else
          let unknown = filter (\<lambda>v. available v = None) applied_versions in
          if unknown \<noteq> [] then
            (if last available_versions < last unknown then Inl (UnknownMigrationError (Some (last unknown)))
             else Inl (MigrationVersionError unknown))
          else if applied_versions \<noteq> filter (\<lambda>v. v \<le> Max (set applied_versions)) available_versions
          then Inl (MigrationVersionError applied_versions)
          else
            (case find (\<lambda>v. map_of applied v \<noteq> map_option mg_checksum (available v)) applied_versions of
               Some v \<Rightarrow> Inl (MigrationChecksumError (case available v of Some m \<Rightarrow> mg_name m | None \<Rightarrow> []))
             | None \<Rightarrow> Inr (last applied_versions)))"

definition validate_applied_state :: "'d sqlite \<Rightarrow> migration list \<Rightarrow> ('d, nat) sql" where
  "validate_applied_state sq migrations =
     ebind (load_applied_versions sq) (\<lambda>applied. elift (check_history applied migrations))"

text \<open>The handler of \<^verbatim>\<open>_apply_single_migration\<close>, with the value of \<^verbatim>\<open>restore_foreign_keys\<close> at that point.\<close>

definition undo_migration :: "'d sqlite \<Rightarrow> bool \<Rightarrow> migration_error \<Rightarrow> ('d, 'a) sql" where
  "undo_migration sq restore_foreign_keys e =
     ebind (\<lambda>c. if cn_in_transaction c then rollback_transaction sq c else (Inr (), c)) (\<lambda>_.
     ebind (if restore_foreign_keys then set_foreign_keys sq True else ereturn ()) (\<lambda>_. eraise e))"

definition statements :: "migration \<Rightarrow> string list" where
  "statements m = filter (\<lambda>s. \<not> blank s) (split_on (CHR '';'') (mg_sql m))"

definition run_migration :: "'d sqlite \<Rightarrow> migration \<Rightarrow> bool \<Rightarrow> bool \<Rightarrow> ('d, unit) sql" where
  "run_migration sq m owns_transaction restore_foreign_keys =
     ebind (eforeach (execute_statement sq) (statements m)) (\<lambda>_.
     ebind (record_migration sq m) (\<lambda>_.
     ebind (if owns_transaction then commit_transaction sq else ereturn ()) (\<lambda>_.
     if restore_foreign_keys then set_foreign_keys sq True else ereturn ())))"

definition apply_single_migration :: "'d sqlite \<Rightarrow> migration \<Rightarrow> ('d, unit) sql" where
  "apply_single_migration sq m =
     ebind (if prefix ''PRAGMA foreign_keys = OFF'' (lstrip (mg_sql m))
       then ecatch (sql_call sq (\<lambda>c. (Inr (cn_foreign_keys c), c))) (undo_migration sq False)
       else ereturn False) (\<lambda>restore_foreign_keys.
     ecatch
       (ebind (if restore_foreign_keys then set_foreign_keys sq False else ereturn ()) (\<lambda>_ c.
          if cn_in_transaction c then run_migration sq m False restore_foreign_keys c
          else ebind (begin_immediate sq) (\<lambda>_. run_migration sq m True restore_foreign_keys) c))
       (undo_migration sq restore_foreign_keys))"

definition apply_migrations :: "'d sqlite \<Rightarrow> dir_entry list option \<Rightarrow> ('d, migration list) sql" where
  "apply_migrations sq dir =
     ebind (elift (load_migrations dir)) (\<lambda>migrations.
     ebind (validate_applied_state sq migrations) (\<lambda>current_version.
     let pending = filter (\<lambda>m. current_version < mg_version m) migrations in
     ebind (eforeach (apply_single_migration sq) pending) (\<lambda>_. ereturn pending)))"

section \<open>What a migration does to the database\<close>

fun run_script :: "'d sqlite \<Rightarrow> string list \<Rightarrow> 'd sqldb \<Rightarrow> 'd sqldb option" where
  "run_script sq [] d = Some d"
| "run_script sq (s # ss) d = (case sq_execute sq s d of None \<Rightarrow> None | Some d' \<Rightarrow> run_script sq ss d')"

definition migrated :: "'d sqlite \<Rightarrow> migration \<Rightarrow> 'd sqldb \<Rightarrow> 'd sqldb \<Rightarrow> bool" where
  "migrated sq m d d' \<longleftrightarrow> (\<exists>e now. run_script sq (statements m) d = Some e \<and> insert_history m now e = Some d')"

fun migrated_all :: "'d sqlite \<Rightarrow> migration list \<Rightarrow> 'd sqldb \<Rightarrow> 'd sqldb \<Rightarrow> bool" where
  "migrated_all sq [] d d' \<longleftrightarrow> d' = d"
| "migrated_all sq (m # ms) d d' \<longleftrightarrow> (\<exists>e. migrated sq m d e \<and> migrated_all sq ms e d')"

text \<open>A connection outside a transaction, and one inside, with the state it works on.\<close>

definition idle :: "'d sqldb \<Rightarrow> bool \<Rightarrow> 'd conn \<Rightarrow> bool" where
  "idle d fk c \<longleftrightarrow> \<not> cn_in_transaction c \<and> cn_disk c = d \<and> cn_foreign_keys c = fk"

definition working :: "'d sqldb \<Rightarrow> 'd sqldb \<Rightarrow> bool \<Rightarrow> 'd conn \<Rightarrow> bool" where
  "working d e fk c \<longleftrightarrow> cn_in_transaction c \<and> cn_disk c = d \<and> cn_work c = e \<and> cn_foreign_keys c = fk"

definition on_disk :: "'d sqldb \<Rightarrow> 'd conn \<Rightarrow> bool" where
  "on_disk d c \<longleftrightarrow> cn_disk c = d"

text \<open>A call: what it does when it works; when it fails the disk is as before.\<close>

lemma hoare_sql_call:
  assumes "\<And>c. P c \<Longrightarrow> P (c\<lparr>cn_calls := Suc (cn_calls c)\<rparr>)" "\<And>c. P c \<Longrightarrow> on_disk d c" "hoare P m Q (\<lambda>_. on_disk d)"
  shows "hoare P (sql_call sq m) Q (\<lambda>_. on_disk d)"
  by (rule hoareI)
    (use assms(1,2) in \<open>auto simp: sql_call_def Let_def on_disk_def split: call_fate.splits
       dest: hoareD(1) [OF assms(3)] hoareD(2) [OF assms(3), unfolded on_disk_def]\<close>)

lemma hoare_statement:
  "hoare (working d e fk) (execute_statement sq s) (\<lambda>_ c. \<exists>e'. sq_execute sq s e = Some e' \<and> working d e' fk c) (\<lambda>_. on_disk d)"
  unfolding execute_statement_def
  by (rule hoare_sql_call) (auto simp: working_def on_disk_def hoare_def split: option.split)

lemma hoare_script:
  "hoare (working d e fk) (eforeach (execute_statement sq) ss) (\<lambda>_ c. \<exists>e'. run_script sq ss e = Some e' \<and> working d e' fk c)
     (\<lambda>_. on_disk d)"
proof (induction ss arbitrary: e)
  case (Cons s ss)
  show ?case unfolding eforeach.simps
  proof (rule hoare_bind [OF hoare_statement])
    show "hoare (\<lambda>c. \<exists>e'. sq_execute sq s e = Some e' \<and> working d e' fk c) (eforeach (execute_statement sq) ss)
        (\<lambda>_ c. \<exists>e'. run_script sq (s # ss) e = Some e' \<and> working d e' fk c) (\<lambda>_. on_disk d)"
      by (intro hoare_exists hoare_given hoare_weaken [OF Cons]) auto
  qed
qed (auto intro!: hoare_pure)

lemma hoare_record:
  "hoare (working d e fk) (record_migration sq m) (\<lambda>_ c. \<exists>now e'. insert_history m now e = Some e' \<and> working d e' fk c) (\<lambda>_. on_disk d)"
  unfolding record_migration_def
  by (rule hoare_sql_call) (auto simp: working_def on_disk_def hoare_def split: option.split)

lemma hoare_commit_transaction: "hoare (working d e fk) (commit_transaction sq) (\<lambda>_. idle e fk) (\<lambda>_. on_disk d)"
  unfolding commit_transaction_def
  by (rule hoare_sql_call) (auto simp: working_def idle_def on_disk_def hoare_def)

lemma hoare_begin_immediate: "hoare (idle d fk) (begin_immediate sq) (\<lambda>_. working d d fk) (\<lambda>_. on_disk d)"
  unfolding begin_immediate_def
  by (rule hoare_sql_call) (auto simp: working_def idle_def on_disk_def hoare_def)

lemma hoare_foreign_keys: "hoare (idle d fk) (set_foreign_keys sq on) (\<lambda>_. idle d on) (\<lambda>_. on_disk d)"
  unfolding set_foreign_keys_def
  by (rule hoare_sql_call) (auto simp: idle_def on_disk_def hoare_def)

lemma hoare_disk_calls:
  "hoare (on_disk d) (rollback_transaction sq) (\<lambda>_. on_disk d) (\<lambda>_. on_disk d)"
  "hoare (on_disk d) (set_foreign_keys sq on) (\<lambda>_. on_disk d) (\<lambda>_. on_disk d)"
  unfolding rollback_transaction_def set_foreign_keys_def
  by (rule hoare_sql_call; auto simp: on_disk_def hoare_def)+

lemma hoare_undo: "hoare (on_disk d) (undo_migration sq restore e) Q (\<lambda>_. on_disk d)"
  unfolding undo_migration_def
proof (intro hoare_bind)
  show "hoare (on_disk d) (\<lambda>c. if cn_in_transaction c then rollback_transaction sq c else (Inr (), c)) (\<lambda>_. on_disk d) (\<lambda>_. on_disk d)"
    using hoare_disk_calls(1) [of d sq] by (simp add: hoare_def)
  show "hoare (on_disk d) (if restore then set_foreign_keys sq True else ereturn ()) (\<lambda>_. on_disk d) (\<lambda>_. on_disk d)"
    by (intro hoare_if hoare_disk_calls(2) hoare_pure)
qed (auto intro: hoare_pure)

text \<open>A single migration: it is applied as a whole, or the disk is as before.\<close>

definition step_done :: "'d sqlite \<Rightarrow> migration \<Rightarrow> 'd sqldb \<Rightarrow> bool \<Rightarrow> 'd conn \<Rightarrow> bool" where
  "step_done sq m d fk c \<longleftrightarrow> (\<exists>e. migrated sq m d e \<and> idle e fk c)"

definition step_cut :: "'d sqlite \<Rightarrow> migration \<Rightarrow> 'd sqldb \<Rightarrow> 'd conn \<Rightarrow> bool" where
  "step_cut sq m d c \<longleftrightarrow> on_disk d c \<or> (\<exists>e. migrated sq m d e \<and> on_disk e c)"

lemma hoare_cut: "hoare (step_cut sq m d) (undo_migration sq restore e) Q (\<lambda>_. step_cut sq m d)"
  by (rule hoareI) (auto simp: step_cut_def dest: hoareD [OF hoare_undo])

lemma cut_disk: "hoare P n Q (\<lambda>_. on_disk d) \<Longrightarrow> hoare P n Q (\<lambda>_. step_cut sq m d)"
  by (erule hoare_weaken) (auto simp: step_cut_def)

lemma hoare_run:
  "hoare (working d d fk) (run_migration sq m True restore) (\<lambda>_. step_done sq m d (fk \<or> restore)) (\<lambda>_. step_cut sq m d)"
  unfolding run_migration_def if_True
proof (intro hoare_bind)
  let ?fail = "\<lambda>_ :: migration_error. step_cut sq m d"
  show "hoare (working d d fk) (eforeach (execute_statement sq) (statements m))
      (\<lambda>_ c. \<exists>e. run_script sq (statements m) d = Some e \<and> working d e fk c) ?fail"
    by (rule cut_disk [OF hoare_script])
  show "hoare (\<lambda>c. \<exists>e. run_script sq (statements m) d = Some e \<and> working d e fk c) (record_migration sq m)
      (\<lambda>_ c. \<exists>e. migrated sq m d e \<and> working d e fk c) ?fail"
    by (intro hoare_exists hoare_given hoare_weaken [OF cut_disk [OF hoare_record]]) (auto simp: migrated_def)
  show "hoare (\<lambda>c. \<exists>e. migrated sq m d e \<and> working d e fk c) (commit_transaction sq) (\<lambda>_. step_done sq m d fk) ?fail"
    by (intro hoare_exists hoare_given hoare_weaken [OF cut_disk [OF hoare_commit_transaction]]) (auto simp: step_done_def)
  show "hoare (step_done sq m d fk) (if restore then set_foreign_keys sq True else ereturn ()) (\<lambda>_. step_done sq m d (fk \<or> restore)) ?fail"
  proof (intro hoare_if)
    show "hoare (step_done sq m d fk) (set_foreign_keys sq True) (\<lambda>_. step_done sq m d (fk \<or> restore)) ?fail" if restore
      unfolding step_done_def using that
      by (intro hoare_exists hoare_given hoare_weaken [OF hoare_foreign_keys]) (auto simp: step_cut_def)
  qed (auto intro: hoare_pure)
qed

lemma hoare_single: "hoare (idle d fk) (apply_single_migration sq m) (\<lambda>_. step_done sq m d fk) (\<lambda>_. step_cut sq m d)"
  unfolding apply_single_migration_def
proof (rule hoare_bind)
  let ?fail = "\<lambda>_ :: migration_error. step_cut sq m d"
  have ask: "hoare (idle d fk) (sql_call sq (\<lambda>c. (Inr (cn_foreign_keys c), c))) (\<lambda>r c. (r \<longrightarrow> fk) \<and> idle d fk c) (\<lambda>_. on_disk d)"
    by (rule hoare_sql_call) (auto simp: idle_def on_disk_def hoare_def)
  show "hoare (idle d fk) (if prefix ''PRAGMA foreign_keys = OFF'' (lstrip (mg_sql m))
      then ecatch (sql_call sq (\<lambda>c. (Inr (cn_foreign_keys c), c))) (undo_migration sq False) else ereturn False)
      (\<lambda>r c. (r \<longrightarrow> fk) \<and> idle d fk c) ?fail"
    by (intro hoare_if cut_disk hoare_catch [OF ask] hoare_undo hoare_pure) auto
  fix restore
  let ?mid = "idle d (fk \<and> \<not> restore)"
  have off: "hoare (\<lambda>c. (restore \<longrightarrow> fk) \<and> idle d fk c) (if restore then set_foreign_keys sq False else ereturn ()) (\<lambda>_. ?mid) ?fail"
    by (intro hoare_if hoare_weaken [OF cut_disk [OF hoare_foreign_keys]] hoare_pure) auto
  have run: "hoare ?mid (ebind (begin_immediate sq) (\<lambda>_. run_migration sq m True restore)) (\<lambda>_. step_done sq m d (fk \<or> restore)) ?fail"
    using hoare_run [of d "fk \<and> \<not> restore" sq m restore]
    by (intro hoare_bind [OF cut_disk [OF hoare_begin_immediate]]) (cases restore; simp)
  have "hoare ?mid (\<lambda>c. if cn_in_transaction c then run_migration sq m False restore c
      else ebind (begin_immediate sq) (\<lambda>_. run_migration sq m True restore) c) (\<lambda>_. step_done sq m d (fk \<or> restore)) ?fail"
    using run by (simp add: hoare_def idle_def)
  from hoare_catch [OF hoare_bind [OF off this] hoare_cut]
  show "hoare (\<lambda>c. (restore \<longrightarrow> fk) \<and> idle d fk c) (ecatch (ebind (if restore then set_foreign_keys sq False else ereturn ()) (\<lambda>_ c.
      if cn_in_transaction c then run_migration sq m False restore c
      else ebind (begin_immediate sq) (\<lambda>_. run_migration sq m True restore) c)) (undo_migration sq restore))
      (\<lambda>_. step_done sq m d fk) ?fail"
    by (cases restore; cases fk) (simp_all add: hoare_def)
qed

lemma hoare_pending:
  "hoare (idle d fk) (eforeach (apply_single_migration sq) ms) (\<lambda>_ c. \<exists>e. migrated_all sq ms d e \<and> idle e fk c)
     (\<lambda>_ c. \<exists>k. migrated_all sq (take k ms) d (cn_disk c))"
proof (induction ms arbitrary: d)
  case (Cons m ms)
  show ?case unfolding eforeach.simps
  proof (rule hoare_bind)
    have cut: "\<exists>k. migrated_all sq (take k (m # ms)) d (cn_disk c)" if "step_cut sq m d c" for c
      using that by (auto simp: step_cut_def on_disk_def intro: exI [of _ 0] exI [of _ "Suc 0"])
    show "hoare (idle d fk) (apply_single_migration sq m) (\<lambda>_. step_done sq m d fk)
        (\<lambda>_ c. \<exists>k. migrated_all sq (take k (m # ms)) d (cn_disk c))"
      by (rule hoare_weaken [OF hoare_single]) (auto intro: cut)
    have more: "\<exists>k. migrated_all sq (take k (m # ms)) d c" if "migrated sq m d e" "migrated_all sq (take k ms) e c" for e k c
      using that by (auto intro!: exI [of _ "Suc k"])
    show "hoare (step_done sq m d fk) (eforeach (apply_single_migration sq) ms) (\<lambda>_ c. \<exists>e. migrated_all sq (m # ms) d e \<and> idle e fk c)
        (\<lambda>_ c. \<exists>k. migrated_all sq (take k (m # ms)) d (cn_disk c))"
      unfolding step_done_def by (intro hoare_exists hoare_given hoare_weaken [OF Cons]) (auto intro: more)
  qed
qed (auto intro!: hoare_pure simp: idle_def)

section \<open>The history\<close>

definition applied_of :: "'d sqldb \<Rightarrow> (nat \<times> string) list" where
  "applied_of d = map (\<lambda>(v, _, checksum, _). (v, checksum)) (sort_key fst (case sd_history d of None \<Rightarrow> [] | Some rows \<Rightarrow> rows))"

text \<open>The history records the given migrations, with their checksums.\<close>

definition history_is :: "'d sqldb \<Rightarrow> migration list \<Rightarrow> bool" where
  "history_is d ms \<longleftrightarrow> applied_of d = map (\<lambda>m. (mg_version m, mg_checksum m)) ms"

definition primary_key :: "'d sqldb \<Rightarrow> bool" where
  "primary_key d \<longleftrightarrow> (case sd_history d of None \<Rightarrow> True | Some rows \<Rightarrow> distinct (map fst rows))"

text \<open>The scripts leave the history alone; the first of them creates its table.\<close>

definition keeps_history :: "'d sqlite \<Rightarrow> bool" where
  "keeps_history sq \<longleftrightarrow> (\<forall>s d d'. sq_execute sq s d = Some d' \<longrightarrow>
     sd_history d' = sd_history d \<or> sd_history d = None \<and> sd_history d' = Some [])"

lemma insort_key_snoc: "f x \<le> f r \<Longrightarrow> insort_key f x (ys @ [r]) = insort_key f x ys @ [r]"
  by (induction ys) auto

lemma sort_key_snoc: "(\<And>x. x \<in> set xs \<Longrightarrow> f x \<le> f r) \<Longrightarrow> sort_key f (xs @ [r]) = sort_key f xs @ [r]"
  by (induction xs) (auto simp: insort_key_snoc)

definition versions_ok :: "migration list \<Rightarrow> bool" where
  "versions_ok ms \<longleftrightarrow> sorted (map mg_version ms) \<and> distinct (map mg_version ms) \<and> (\<forall>m\<in>set ms. 0 < mg_version m)"

lemma load_migrations_ok: "load_migrations dir = Inr ms \<Longrightarrow> sorted (map mg_version ms) \<and> distinct (map mg_version ms)"
  by (auto simp: load_migrations_def Let_def discover_migrations_def res_simps split: option.splits)

lemma run_script_history:
  assumes "keeps_history sq" "run_script sq ss d = Some d'"
  shows "sd_history d' = sd_history d \<or> sd_history d = None \<and> sd_history d' = Some []"
  using assms(2)
proof (induction ss arbitrary: d)
  case (Cons s ss)
  then obtain e where e: "sq_execute sq s d = Some e" "run_script sq ss e = Some d'" by (auto split: option.splits)
  then have "sd_history e = sd_history d \<or> sd_history d = None \<and> sd_history e = Some []"
    using assms(1) unfolding keeps_history_def by blast
  with Cons.IH [OF e(2)] show ?case by auto
qed simp

lemma migrated_history:
  assumes "keeps_history sq" "migrated sq m d d'" "history_is d ms" "\<And>x. x \<in> set ms \<Longrightarrow> mg_version x < mg_version m"
  shows "history_is d' (ms @ [m])"
proof -
  let ?rows = "case sd_history d of None \<Rightarrow> [] | Some rows \<Rightarrow> rows"
  obtain now where d': "sd_history d' = Some (?rows @ [(mg_version m, mg_name m, mg_checksum m, now)])"
    using assms(2) run_script_history [OF assms(1)]
    by (fastforce simp: migrated_def insert_history_def split: option.splits if_splits)
  have "map fst (sort_key fst ?rows) = map mg_version ms"
    using arg_cong [OF assms(3) [unfolded history_is_def applied_of_def], of "map fst"] by (simp add: comp_def split_beta)
  from arg_cong [OF this, of set] have "fst ` set ?rows = mg_version ` set ms" by simp
  then have "fst r \<le> mg_version m" if "r \<in> set ?rows" for r
    using that assms(4) by (metis (no_types, lifting) imageE imageI less_imp_le)
  then have "sort_key fst (?rows @ [(mg_version m, mg_name m, mg_checksum m, now)]) = sort_key fst ?rows @ [(mg_version m, mg_name m, mg_checksum m, now)]"
    by (intro sort_key_snoc) simp
  then show ?thesis using assms(3) d' by (simp add: history_is_def applied_of_def)
qed

lemma migrated_all_history:
  assumes "keeps_history sq" "sorted (map mg_version (ms @ ns))" "distinct (map mg_version (ms @ ns))"
    and "history_is d ms" "migrated_all sq ns d d'"
  shows "history_is d' (ms @ ns)"
  using assms(2-)
proof (induction ns arbitrary: ms d)
  case (Cons n ns)
  then obtain e where e: "migrated sq n d e" "migrated_all sq ns e d'" by auto
  have "mg_version x < mg_version n" if "x \<in> set ms" for x
  proof -
    have "mg_version x \<le> mg_version n" using Cons.prems(1) that by (simp add: sorted_append)
    moreover have "mg_version x \<noteq> mg_version n" using Cons.prems(2) imageI [OF that, of mg_version] by auto
    ultimately show ?thesis by simp
  qed
  then have "history_is e (ms @ [n])" by (rule migrated_history [OF assms(1) e(1) Cons.prems(3)])
  from Cons.IH [OF _ _ this e(2)] Cons.prems show ?case by simp
qed simp

text \<open>The check accepts exactly the histories that are a prefix of the packaged migrations.\<close>

definition version_at :: "migration list \<Rightarrow> nat \<Rightarrow> nat" where
  "version_at ms n = (if n = 0 then 0 else mg_version (ms ! (n - 1)))"

abbreviation entry :: "migration \<Rightarrow> nat \<times> string" where
  "entry \<equiv> \<lambda>m. (mg_version m, mg_checksum m)"

lemma split_at:
  fixes f :: "'a \<Rightarrow> nat"
  assumes "sorted_wrt (<) (map f xs)" "0 < n" "n \<le> length xs"
  shows "\<And>x. x \<in> set (take n xs) \<Longrightarrow> f x \<le> f (xs ! (n - 1))" "\<And>x. x \<in> set (drop n xs) \<Longrightarrow> f (xs ! (n - 1)) < f x"
proof -
  have "take n xs \<noteq> []" using assms(2,3) by auto
  then have last: "xs ! (n - 1) = last (take n xs)" "take n xs \<noteq> []"
    using assms(2,3) by (simp_all add: last_conv_nth min_absorb2)
  have parts: "sorted_wrt (<) (map f (take n xs) @ map f (drop n xs))"
    using assms(1) by (simp flip: map_append)
  then show "\<And>x. x \<in> set (drop n xs) \<Longrightarrow> f (xs ! (n - 1)) < f x"
    using last by (auto simp: sorted_wrt_append)
  have ends: "sorted (map f (butlast (take n xs)) @ [f (last (take n xs))])"
    using parts last(2) strict_sorted_imp_sorted [of "map f (take n xs)"]
    by (metis append_butlast_last_id list.simps(8,9) map_append sorted_wrt_append)
  show "f x \<le> f (xs ! (n - 1))" if "x \<in> set (take n xs)" for x
  proof -
    have "x \<in> insert (last (take n xs)) (set (butlast (take n xs)))"
      using that arg_cong [OF append_butlast_last_id [OF last(2)], of set] by simp
    with ends last(1) show ?thesis by (auto simp: sorted_append)
  qed
qed

lemma versions_sorted: "versions_ok ms \<Longrightarrow> sorted_wrt (<) (map mg_version ms)"
  by (simp add: versions_ok_def strict_sorted_iff)

lemma pending_drop:
  assumes "versions_ok ms" "n \<le> length ms"
  shows "filter (\<lambda>m. version_at ms n < mg_version m) ms = drop n ms"
proof (cases "n = 0")
  case True
  then show ?thesis using assms(1) by (simp add: version_at_def versions_ok_def)
next
  case False
  note at = split_at [OF versions_sorted [OF assms(1)], of n] assms(2) False
  have "filter (\<lambda>m. version_at ms n < mg_version m) (take n ms @ drop n ms) = drop n ms"
    unfolding filter_append using at by (fastforce simp: version_at_def filter_empty_conv)
  then show ?thesis by simp
qed

lemma known_versions:
  assumes "versions_ok ms" "m \<in> set ms"
  shows "map_of (map (\<lambda>m. (mg_version m, m)) ms) (mg_version m) = Some m"
  using assms by (intro map_of_is_SomeI) (auto simp: versions_ok_def comp_def)

lemma check_history_prefix:
  assumes ok: "versions_ok ms" and n: "n \<le> length ms"
  shows "check_history (map entry (take n ms)) ms = Inr (version_at ms n)"
proof (cases "n = 0")
  case False
  let ?vs = "map mg_version (take n ms)"
  have ne: "take n ms \<noteq> []" "ms \<noteq> []" using False n by auto
  have sorted: "sort (map mg_version ms) = map mg_version ms" "sort ?vs = ?vs"
    using ok by (auto simp: versions_ok_def sorted_sort_id take_map [symmetric] sorted_wrt_take)
  have last: "last ?vs = version_at ms n"
    using False n ne by (simp add: last_map version_at_def last_conv_nth min_absorb2)
  note at = split_at [OF versions_sorted [OF ok], of n]
  have max: "Max (set ?vs) = version_at ms n"
  proof (rule Max_eqI)
    show "version_at ms n \<in> set ?vs" using last ne last_in_set [of ?vs] by simp
  qed (use at(1) False n in \<open>auto simp: version_at_def\<close>)
  have prefix: "filter (\<lambda>v. v \<le> version_at ms n) (map mg_version ms) = ?vs"
  proof -
    have "filter (\<lambda>m. mg_version m \<le> version_at ms n) (take n ms @ drop n ms) = take n ms"
      unfolding filter_append using at False n by (fastforce simp: version_at_def filter_empty_conv filter_id_conv)
    then show ?thesis by (simp add: filter_map comp_def)
  qed
  have known: "map_of (map (\<lambda>m. (mg_version m, m)) ms) v \<noteq> None" "map_of (map entry (take n ms)) v
      = map_option mg_checksum (map_of (map (\<lambda>m. (mg_version m, m)) ms) v)" if "v \<in> set ?vs" for v
  proof -
    from that obtain m where m: "m \<in> set (take n ms)" "v = mg_version m" by auto
    have "distinct ?vs" using ok by (simp add: versions_ok_def take_map [symmetric])
    then have "map_of (map entry (take n ms)) v = Some (mg_checksum m)"
      using m by (intro map_of_is_SomeI) (auto simp: comp_def)
    with known_versions [OF ok in_set_takeD [OF m(1)]] m(2)
    show "map_of (map (\<lambda>m. (mg_version m, m)) ms) v \<noteq> None" "map_of (map entry (take n ms)) v
      = map_option mg_checksum (map_of (map (\<lambda>m. (mg_version m, m)) ms) v)" by simp_all
  qed
  have "filter (\<lambda>v. map_of (map (\<lambda>m. (mg_version m, m)) ms) v = None) ?vs = []" using known(1) by (simp add: filter_empty_conv)
  moreover have "find (\<lambda>v. map_of (map entry (take n ms)) v
      \<noteq> map_option mg_checksum (map_of (map (\<lambda>m. (mg_version m, m)) ms) v)) ?vs = None"
    using known(2) by (simp add: find_None_iff)
  ultimately show ?thesis
    using ne sorted prefix last max by (simp add: check_history_def Let_def comp_def)
qed (simp add: check_history_def version_at_def)

lemma filter_takeWhile_sorted:
  "sorted (map f xs) \<Longrightarrow> filter (\<lambda>x. f x \<le> (M :: nat)) xs = takeWhile (\<lambda>x. f x \<le> M) xs"
proof (induction xs)
  case (Cons x xs)
  have "filter (\<lambda>y. f y \<le> M) xs = []" if "M < f x" using Cons.prems that by (fastforce simp: filter_empty_conv)
  with Cons show ?case by (auto simp: not_le)
qed simp

lemma check_history_only:
  assumes ok: "versions_ok ms" and applied: "sorted (map fst applied)" "distinct (map fst applied)"
    and check: "check_history applied ms = Inr v"
  shows "\<exists>n\<le>length ms. applied = map entry (take n ms)"
proof (cases "applied = []")
  case False
  let ?av = "map_of (map (\<lambda>m. (mg_version m, m)) ms)" and ?vs = "map fst applied"
  have sorted: "sort ?vs = ?vs" "sort (map mg_version ms) = map mg_version ms"
    using applied(1) ok by (auto simp: versions_ok_def sorted_sort_id)
  have vs: "?vs = filter (\<lambda>v. v \<le> Max (set ?vs)) (map mg_version ms)"
    and known: "filter (\<lambda>v. ?av v = None) ?vs = []"
    and sums: "find (\<lambda>v. map_of applied v \<noteq> map_option mg_checksum (?av v)) ?vs = None"
    using check False unfolding check_history_def sorted Let_def by (auto split: if_splits option.splits)
  define M where "M = Max (set ?vs)"
  let ?top = "takeWhile (\<lambda>m. mg_version m \<le> M) ms"
  have "filter (\<lambda>m. mg_version m \<le> M) ms = ?top"
    using ok by (intro filter_takeWhile_sorted) (simp add: versions_ok_def)
  then have top: "?vs = map mg_version ?top" using vs unfolding M_def [symmetric] by (simp add: filter_map comp_def)
  have entries: "map_of applied (mg_version m) = Some (mg_checksum m)" if "m \<in> set ?top" for m
  proof -
    have "mg_version m \<in> set ?vs" unfolding top using that by simp
    with sums have "map_of applied (mg_version m) = map_option mg_checksum (?av (mg_version m))" by (auto simp: find_None_iff)
    with known_versions [OF ok set_takeWhileD [OF that, THEN conjunct1]] show ?thesis by simp
  qed
  have "applied = map (\<lambda>v. (v, the (map_of applied v))) ?vs"
    using applied(2) by (auto simp: comp_def intro!: map_idI [symmetric])
  also have "\<dots> = map entry ?top" unfolding top using entries by simp
  finally have "applied = map entry (take (length ?top) ms)" unfolding takeWhile_eq_take [symmetric] .
  moreover have "length ?top \<le> length ms" by (rule length_takeWhile_le)
  ultimately show ?thesis by blast
qed (auto intro: exI [of _ 0])

lemma applied_of_keys:
  assumes "primary_key d"
  shows "sorted (map fst (applied_of d))" "distinct (map fst (applied_of d))"
proof -
  have "map fst (applied_of d) = map fst (sort_key fst (case sd_history d of None \<Rightarrow> [] | Some rows \<Rightarrow> rows))"
    by (simp add: applied_of_def comp_def split_beta)
  then show "sorted (map fst (applied_of d))" "distinct (map fst (applied_of d))"
    using assms by (auto simp: primary_key_def distinct_map split: option.splits)
qed

lemma hoare_validate:
  "hoare (idle d fk) (validate_applied_state sq ms) (\<lambda>v c. check_history (applied_of d) ms = Inr v \<and> idle d fk c) (\<lambda>_. on_disk d)"
  unfolding validate_applied_state_def
proof (rule hoare_bind)
  have "hoare (idle d fk) (sql_call sq (\<lambda>c. (Inr (sd_history (current c) \<noteq> None), c)))
      (\<lambda>r c. r = (sd_history d \<noteq> None) \<and> idle d fk c) (\<lambda>_. on_disk d)"
    by (rule hoare_sql_call) (auto simp: idle_def on_disk_def hoare_def current_def)
  moreover have "hoare (idle d fk) (sql_call sq (\<lambda>c. (Inr (map (\<lambda>(v, _, checksum, _). (v, checksum)) (sort_key fst (applied_rows c))), c)))
      (\<lambda>r c. r = applied_of d \<and> idle d fk c) (\<lambda>_. on_disk d)"
    by (rule hoare_sql_call) (auto simp: idle_def on_disk_def hoare_def current_def applied_rows_def applied_of_def)
  ultimately show "hoare (idle d fk) (load_applied_versions sq) (\<lambda>r c. r = applied_of d \<and> idle d fk c) (\<lambda>_. on_disk d)"
    unfolding load_applied_versions_def
    by (auto intro!: hoare_bind hoare_given hoare_if hoare_pure simp: applied_of_def)
qed (auto intro!: hoare_given simp: hoare_def idle_def on_disk_def split: sum.split)

lemma apply_migrations_loaded:
  assumes "load_migrations dir = Inr ms"
  shows "apply_migrations sq dir = ebind (validate_applied_state sq ms) (\<lambda>v.
     ebind (eforeach (apply_single_migration sq) (filter (\<lambda>m. v < mg_version m) ms)) (\<lambda>_. ereturn (filter (\<lambda>m. v < mg_version m) ms)))"
  by (rule ext) (simp add: apply_migrations_def assms ebind_def Let_def)

lemma hoare_apply_migrations:
  assumes "load_migrations dir = Inr ms" "versions_ok ms" "n \<le> length ms" "history_is d (take n ms)"
  shows "hoare (idle d fk) (apply_migrations sq dir) (\<lambda>applied c. applied = drop n ms \<and> (\<exists>e. migrated_all sq (drop n ms) d e \<and> idle e fk c))
     (\<lambda>_ c. \<exists>j. migrated_all sq (take j (drop n ms)) d (cn_disk c))"
  unfolding apply_migrations_loaded [OF assms(1)]
proof (intro hoare_bind)
  have check: "check_history (applied_of d) ms = Inr (version_at ms n)"
    using check_history_prefix [OF assms(2,3)] assms(4) by (simp add: history_is_def)
  show "hoare (idle d fk) (validate_applied_state sq ms) (\<lambda>v c. v = version_at ms n \<and> idle d fk c)
      (\<lambda>_ c. \<exists>j. migrated_all sq (take j (drop n ms)) d (cn_disk c))"
    by (rule hoare_weaken [OF hoare_validate]) (auto simp: check on_disk_def intro: exI [of _ 0])
  show "hoare (\<lambda>c. v = version_at ms n \<and> idle d fk c) (eforeach (apply_single_migration sq) (filter (\<lambda>m. v < mg_version m) ms))
      (\<lambda>_ c. v = version_at ms n \<and> (\<exists>e. migrated_all sq (drop n ms) d e \<and> idle e fk c))
      (\<lambda>_ c. \<exists>j. migrated_all sq (take j (drop n ms)) d (cn_disk c))" for v
    using hoare_pending [of d fk sq "drop n ms"] by (intro hoare_given) (simp add: pending_drop [OF assms(2,3)])
qed (auto intro!: hoare_pure simp: pending_drop [OF assms(2,3)])

lemma resumed_prefix:
  assumes "keeps_history sq" "versions_ok ms" "n \<le> length ms" "history_is d (take n ms)" "migrated_all sq (take j (drop n ms)) d d'"
  shows "\<exists>k. n \<le> k \<and> k \<le> length ms \<and> migrated_all sq (drop n (take k ms)) d d' \<and> history_is d' (take k ms)"
proof -
  let ?k = "min (n + j) (length ms)"
  have "take ?k ms = take (n + j) ms" by (simp add: min_def)
  then have take: "take n ms @ take j (drop n ms) = take ?k ms" "take j (drop n ms) = drop n (take ?k ms)"
    by (simp_all only: take_add, simp add: take_drop add.commute)
  have "sorted (map mg_version (take ?k ms))" "distinct (map mg_version (take ?k ms))"
    using assms(2) by (auto simp: versions_ok_def take_map [symmetric] sorted_wrt_take)
  then have "history_is d' (take ?k ms)"
    using migrated_all_history [OF assms(1) _ _ assms(4,5)] take(1) by simp
  with assms(3,5) take(2) show ?thesis by (intro exI [of _ ?k]) auto
qed

text \<open>
  C33. Migrations are atomic and resume where they stopped. From a connection outside a transaction, whatever
  call of the connection fails: if the history on disk is not a prefix of the packaged migrations, with
  their checksums, the run raises and the disk is as before. Otherwise the disk afterwards is what a prefix
  of the missing migrations makes of it, each as a whole and recorded in the history, so that the history
  is again such a prefix and the next run continues with the rest. A run that returns has applied all that
  were missing, in the order of their versions, has ended its transaction, and has foreign keys as before.
\<close>

theorem migrations_atomic:
  assumes "keeps_history sq" "load_migrations dir = Inr ms" "\<forall>m\<in>set ms. 0 < mg_version m"
    and "\<not> cn_in_transaction c" "primary_key (cn_disk c)" "apply_migrations sq dir c = (r, c')"
  shows "(\<exists>n k. n \<le> k \<and> k \<le> length ms \<and> history_is (cn_disk c) (take n ms)
        \<and> migrated_all sq (drop n (take k ms)) (cn_disk c) (cn_disk c') \<and> history_is (cn_disk c') (take k ms)
        \<and> (\<forall>applied. r = Inr applied \<longrightarrow> applied = drop n ms \<and> k = length ms
             \<and> \<not> cn_in_transaction c' \<and> cn_foreign_keys c' = cn_foreign_keys c))
     \<or> (\<forall>n. \<not> history_is (cn_disk c) (take n ms)) \<and> cn_disk c' = cn_disk c \<and> (\<exists>e. r = Inl e)"
proof -
  let ?d = "cn_disk c" and ?fk = "cn_foreign_keys c"
  have ok: "versions_ok ms" using load_migrations_ok [OF assms(2)] assms(3) by (simp add: versions_ok_def)
  have c: "idle ?d ?fk c" using assms(4) by (simp add: idle_def)
  show ?thesis
  proof (cases "\<exists>n\<le>length ms. history_is ?d (take n ms)")
    case True
    then obtain n where n: "n \<le> length ms" "history_is ?d (take n ms)" by blast
    note resumed = resumed_prefix [OF assms(1) ok n]
    note spec = hoareD [OF hoare_apply_migrations [OF assms(2) ok n] c]
    show ?thesis
    proof (cases r)
      case (Inl e)
      with spec(2) assms(6) obtain j where "migrated_all sq (take j (drop n ms)) ?d (cn_disk c')" by blast
      from resumed [OF this] obtain k where "n \<le> k" "k \<le> length ms"
        "migrated_all sq (drop n (take k ms)) ?d (cn_disk c')" "history_is (cn_disk c') (take k ms)" by blast
      with Inl n(2) show ?thesis by (intro disjI1 exI [of _ n] exI [of _ k]) auto
    next
      case (Inr applied)
      with spec(1) assms(6) obtain e where e: "applied = drop n ms" "migrated_all sq (drop n ms) ?d e" "idle e ?fk c'" by blast
      then have "history_is e ms"
        using migrated_all_history [OF assms(1) _ _ n(2), of "drop n ms" e] ok by (simp add: versions_ok_def)
      with e Inr n show ?thesis by (intro disjI1 exI [of _ n] exI [of _ "length ms"]) (auto simp: idle_def)
    qed
  next
    case False
    then have none: "\<not> history_is ?d (take n ms)" for n by (metis linear take_all_iff take_all)
    have "check_history (applied_of ?d) ms \<noteq> Inr v" for v
      using check_history_only [OF ok applied_of_keys [OF assms(5)]] False by (auto simp: history_is_def)
    then have "hoare (idle ?d ?fk) (apply_migrations sq dir) (\<lambda>_ _. False) (\<lambda>_. on_disk ?d)"
      unfolding apply_migrations_loaded [OF assms(2)] by (intro hoare_bind [OF hoare_validate]) (simp add: hoare_def)
    from hoareD [OF this c] assms(6) none show ?thesis by (cases r) (auto simp: on_disk_def)
  qed
qed

section \<open>When nothing fails\<close>

text \<open>The scripts run, whatever time the history records.\<close>

fun runnable :: "'d sqlite \<Rightarrow> migration list \<Rightarrow> 'd sqldb \<Rightarrow> bool" where
  "runnable sq [] d \<longleftrightarrow> True"
| "runnable sq (m # ms) d \<longleftrightarrow> (\<exists>e. run_script sq (statements m) d = Some e
     \<and> (\<forall>now. \<exists>d'. insert_history m now e = Some d' \<and> runnable sq ms d'))"

definition reliable :: "'d sqlite \<Rightarrow> bool" where
  "reliable sq \<longleftrightarrow> (\<forall>n. sq_fate sq n = Works)"

abbreviation never :: "migration_error \<Rightarrow> 'd conn \<Rightarrow> bool" where
  "never \<equiv> \<lambda>_ _. False"

lemma sure_call:
  assumes "reliable sq" "\<And>c. P c \<Longrightarrow> P (c\<lparr>cn_calls := Suc (cn_calls c)\<rparr>)" "hoare P m Q never"
  shows "hoare P (sql_call sq m) Q never"
  using assms by (simp add: hoare_def sql_call_def Let_def reliable_def)

lemma sure_script:
  assumes "reliable sq"
  shows "run_script sq ss e = Some e' \<Longrightarrow> hoare (working d e fk) (eforeach (execute_statement sq) ss) (\<lambda>_. working d e' fk) never"
proof (induction ss arbitrary: e)
  case (Cons s ss)
  then obtain e1 where e1: "sq_execute sq s e = Some e1" "run_script sq ss e1 = Some e'" by (auto split: option.splits)
  have "hoare (working d e fk) (execute_statement sq s) (\<lambda>_. working d e1 fk) never"
    unfolding execute_statement_def by (rule sure_call [OF assms]) (auto simp: working_def hoare_def e1(1))
  from hoare_bind [OF this Cons.IH [OF e1(2)]] show ?case by simp
qed (auto intro!: hoare_pure)

lemma sure_run:
  assumes "reliable sq" "runnable sq (m # ms) d"
  shows "hoare (working d d fk) (run_migration sq m True restore) (\<lambda>_ c. \<exists>e. runnable sq ms e \<and> idle e (fk \<or> restore) c) never"
proof -
  obtain e where e: "run_script sq (statements m) d = Some e" "\<And>now. \<exists>d'. insert_history m now e = Some d' \<and> runnable sq ms d'"
    using assms(2) by auto
  have "hoare (working d e fk) (record_migration sq m) (\<lambda>_ c. \<exists>d'. runnable sq ms d' \<and> working d d' fk c) never"
    unfolding record_migration_def
  proof (rule sure_call [OF assms(1)])
    show "hoare (working d e fk) (\<lambda>c. case insert_history m (sq_now sq (cn_calls c)) (cn_work c) of None \<Rightarrow> (Inl SqliteError, c)
        | Some d' \<Rightarrow> (Inr (), c\<lparr>cn_work := d'\<rparr>)) (\<lambda>_ c. \<exists>d'. runnable sq ms d' \<and> working d d' fk c) never"
    proof (rule hoareI)
      fix c u t assume "working d e fk c" "(case insert_history m (sq_now sq (cn_calls c)) (cn_work c) of
          None \<Rightarrow> (Inl SqliteError, c) | Some d' \<Rightarrow> (Inr (), c\<lparr>cn_work := d'\<rparr>)) = (Inr u, t)"
      then show "\<exists>d'. runnable sq ms d' \<and> working d d' fk t"
        using e(2) [of "sq_now sq (cn_calls c)"] by (auto simp: working_def)
    next
      fix c x t assume "working d e fk c" "(case insert_history m (sq_now sq (cn_calls c)) (cn_work c) of
          None \<Rightarrow> (Inl SqliteError, c) | Some d' \<Rightarrow> (Inr (), c\<lparr>cn_work := d'\<rparr>)) = (Inl x, t)"
      then show False using e(2) [of "sq_now sq (cn_calls c)"] by (auto simp: working_def)
    qed
  qed (simp add: working_def)
  moreover have "hoare (\<lambda>c. \<exists>d'. runnable sq ms d' \<and> working d d' fk c) (commit_transaction sq) (\<lambda>_ c. \<exists>d'. runnable sq ms d' \<and> idle d' fk c) never"
    unfolding commit_transaction_def by (rule sure_call [OF assms(1)]) (auto simp: working_def idle_def hoare_def)
  moreover have "hoare (\<lambda>c. \<exists>d'. runnable sq ms d' \<and> idle d' fk c) (if restore then set_foreign_keys sq True else ereturn ())
      (\<lambda>_ c. \<exists>e. runnable sq ms e \<and> idle e (fk \<or> restore) c) never"
    unfolding set_foreign_keys_def
    by (intro hoare_if sure_call [OF assms(1)] hoare_pure) (auto simp: idle_def hoare_def)
  ultimately show ?thesis
    unfolding run_migration_def if_True using sure_script [OF assms(1) e(1), of d fk] by (blast intro: hoare_bind)
qed

lemma sure_single:
  assumes "reliable sq" "runnable sq (m # ms) d"
  shows "hoare (idle d fk) (apply_single_migration sq m) (\<lambda>_ c. \<exists>e. runnable sq ms e \<and> idle e fk c) never"
  unfolding apply_single_migration_def
proof (rule hoare_bind)
  have ask: "hoare (idle d fk) (sql_call sq (\<lambda>c. (Inr (cn_foreign_keys c), c))) (\<lambda>r c. (r \<longrightarrow> fk) \<and> idle d fk c) never"
    by (rule sure_call [OF assms(1)]) (auto simp: idle_def hoare_def)
  show "hoare (idle d fk) (if prefix ''PRAGMA foreign_keys = OFF'' (lstrip (mg_sql m))
      then ecatch (sql_call sq (\<lambda>c. (Inr (cn_foreign_keys c), c))) (undo_migration sq False) else ereturn False)
      (\<lambda>r c. (r \<longrightarrow> fk) \<and> idle d fk c) never"
    by (intro hoare_if hoare_catch [OF ask] hoare_pure) (auto simp: hoare_def)
  fix restore
  let ?mid = "idle d (fk \<and> \<not> restore)" and ?next = "\<lambda>_ c. \<exists>e. runnable sq ms e \<and> idle e (fk \<or> restore) c"
  have off: "hoare (\<lambda>c. (restore \<longrightarrow> fk) \<and> idle d fk c) (if restore then set_foreign_keys sq False else ereturn ()) (\<lambda>_. ?mid) never"
    unfolding set_foreign_keys_def by (intro hoare_if sure_call [OF assms(1)] hoare_pure) (auto simp: idle_def hoare_def)
  have "hoare ?mid (begin_immediate sq) (\<lambda>_. working d d (fk \<and> \<not> restore)) never"
    unfolding begin_immediate_def by (rule sure_call [OF assms(1)]) (auto simp: idle_def working_def hoare_def)
  then have "hoare ?mid (ebind (begin_immediate sq) (\<lambda>_. run_migration sq m True restore)) ?next never"
  proof (rule hoare_bind)
    show "hoare (working d d (fk \<and> \<not> restore)) (run_migration sq m True restore) ?next never"
      using sure_run [OF assms, of "fk \<and> \<not> restore" restore] by (cases restore) simp_all
  qed
  then have "hoare ?mid (\<lambda>c. if cn_in_transaction c then run_migration sq m False restore c
      else ebind (begin_immediate sq) (\<lambda>_. run_migration sq m True restore) c) ?next never"
    by (simp add: hoare_def idle_def)
  then have "hoare (\<lambda>c. (restore \<longrightarrow> fk) \<and> idle d fk c) (ecatch (ebind (if restore then set_foreign_keys sq False else ereturn ()) (\<lambda>_ c.
      if cn_in_transaction c then run_migration sq m False restore c
      else ebind (begin_immediate sq) (\<lambda>_. run_migration sq m True restore) c)) (undo_migration sq restore)) ?next never"
    by (intro hoare_catch [OF hoare_bind [OF off]]) (simp_all add: hoare_def)
  then show "hoare (\<lambda>c. (restore \<longrightarrow> fk) \<and> idle d fk c) (ecatch (ebind (if restore then set_foreign_keys sq False else ereturn ()) (\<lambda>_ c.
      if cn_in_transaction c then run_migration sq m False restore c
      else ebind (begin_immediate sq) (\<lambda>_. run_migration sq m True restore) c)) (undo_migration sq restore))
      (\<lambda>_ c. \<exists>e. runnable sq ms e \<and> idle e fk c) never"
    by (cases restore; cases fk) (simp_all add: hoare_def)
qed

lemma sure_pending:
  assumes "reliable sq"
  shows "runnable sq ms d \<Longrightarrow> hoare (idle d fk) (eforeach (apply_single_migration sq) ms) (\<lambda>_ _. True) never"
proof (induction ms arbitrary: d)
  case (Cons m ms)
  show ?case unfolding eforeach.simps
    by (rule hoare_bind [OF sure_single [OF assms Cons.prems]]) (intro hoare_exists hoare_given Cons.IH)
qed (auto intro!: hoare_pure)

text \<open>When no call fails and the scripts run, the migrations return.\<close>

lemma migrations_return:
  assumes "reliable sq" "load_migrations dir = Inr ms" "\<forall>m\<in>set ms. 0 < mg_version m" "\<not> cn_in_transaction c"
    and "n \<le> length ms" "history_is (cn_disk c) (take n ms)" "runnable sq (drop n ms) (cn_disk c)"
  shows "\<exists>c'. apply_migrations sq dir c = (Inr (drop n ms), c')"
proof -
  let ?d = "cn_disk c" and ?fk = "cn_foreign_keys c"
  have ok: "versions_ok ms" using load_migrations_ok [OF assms(2)] assms(3) by (simp add: versions_ok_def)
  have check: "check_history (applied_of ?d) ms = Inr (version_at ms n)"
    using check_history_prefix [OF ok assms(5)] assms(6) by (simp add: history_is_def)
  have "\<exists>c1. validate_applied_state sq ms c = (Inr (version_at ms n), c1) \<and> idle ?d ?fk c1"
    using assms(1,4) check
    by (auto simp: validate_applied_state_def load_applied_versions_def ebind_def sql_call_def reliable_def Let_def
        current_def applied_rows_def applied_of_def idle_def split: option.splits)
  then obtain c1 where c1: "validate_applied_state sq ms c = (Inr (version_at ms n), c1)" "idle ?d ?fk c1" by blast
  obtain u c2 where "eforeach (apply_single_migration sq) (drop n ms) c1 = (Inr u, c2)"
    using sure_pending [OF assms(1,7), of ?fk] c1(2)
    by (cases "eforeach (apply_single_migration sq) (drop n ms) c1"; cases "fst (eforeach (apply_single_migration sq) (drop n ms) c1)")
      (auto dest: hoareD)
  then show ?thesis
    using c1(1) by (simp add: apply_migrations_loaded [OF assms(2)] ebind_def pending_drop [OF ok assms(5)])
qed

text \<open>Two migrations over a database that lists its statements.\<close>

definition demo_sqlite :: "nat list \<Rightarrow> string list sqlite" where
  "demo_sqlite failing =
     \<lparr>sq_execute = (\<lambda>s d. Some (d\<lparr>sd_rest := sd_rest d @ [s],
          sd_history := (case sd_history d of None \<Rightarrow> Some [] | Some rows \<Rightarrow> Some rows)\<rparr>)),
      sq_fate = (\<lambda>n. if n \<in> set failing then Fails else Works), sq_now = (\<lambda>_. ''now'')\<rparr>"

definition demo_dir :: "dir_entry list option" where
  "demo_dir = Some [(''0002_b.sql'', True, ''B;C;''), (''notes'', True, []), (''0001_a.sql'', True, ''A'')]"

definition demo_conn :: "string list conn" where
  "demo_conn = \<lparr>cn_disk = \<lparr>sd_history = None, sd_rest = []\<rparr>, cn_work = \<lparr>sd_history = None, sd_rest = []\<rparr>,
     cn_in_transaction = False, cn_foreign_keys = True, cn_calls = 0\<rparr>"

definition demo_migrations :: "migration list" where
  "demo_migrations =
     [\<lparr>mg_version = 1, mg_name = ''0001_a.sql'', mg_checksum = sha256_hexdigest ''A'', mg_sql = ''A''\<rparr>,
      \<lparr>mg_version = 2, mg_name = ''0002_b.sql'', mg_checksum = sha256_hexdigest ''B;C;'', mg_sql = ''B;C;''\<rparr>]"

lemma demo_load: "load_migrations demo_dir = Inr demo_migrations"
  by (simp add: load_migrations_def discover_migrations_def demo_dir_def demo_migrations_def migration_file_version_def
      decimal_def migration_checksum_def List.map_filter_def suffix_def Let_def)

lemma demo_returns: "\<exists>c'. apply_migrations (demo_sqlite []) demo_dir demo_conn = (Inr demo_migrations, c')"
proof -
  have "runnable (demo_sqlite []) demo_migrations (cn_disk demo_conn)"
    by (simp add: demo_migrations_def statements_def demo_sqlite_def demo_conn_def insert_history_def blank_iff ascii_space_def)
  then show ?thesis
    using migrations_return [OF _ demo_load, of "demo_sqlite []" demo_conn 0]
    by (simp add: reliable_def demo_sqlite_def demo_conn_def demo_migrations_def history_is_def applied_of_def)
qed

theorem migrations_atomic_witness:
  "\<exists>c'. apply_migrations (demo_sqlite []) demo_dir demo_conn = (Inr demo_migrations, c')
     \<and> history_is (cn_disk c') demo_migrations \<and> \<not> cn_in_transaction c'"
proof -
  obtain c' where run: "apply_migrations (demo_sqlite []) demo_dir demo_conn = (Inr demo_migrations, c')"
    using demo_returns by blast
  have start: "history_is (cn_disk demo_conn) (take 0 demo_migrations)" by (simp add: history_is_def applied_of_def demo_conn_def)
  have "keeps_history (demo_sqlite [])" by (auto simp: keeps_history_def demo_sqlite_def split: option.splits)
  from migrations_atomic [OF this demo_load _ _ _ run] start
  have "history_is (cn_disk c') demo_migrations \<and> \<not> cn_in_transaction c'"
    by (auto simp: demo_migrations_def demo_conn_def primary_key_def)
  with run show ?thesis by blast
qed

end
