(* ===== verification/Profiles.thy ===== *)
theory Profiles
  imports Strict
begin

text \<open>
  The profiles of generation providers and what probes recorded about them (\<^verbatim>\<open>inference/profiles.py\<close>): the
  validation of a profile, its secret-free fingerprint, and the capabilities with their downgrade after a
  fallback.

  A duration is a whole number of milliseconds. Of \<^verbatim>\<open>urlparse\<close> the parts are modelled for a URL without a
  bracketed host.
\<close>

section \<open>URLs\<close>

record url =
  url_scheme :: string
  url_netloc :: string
  url_path :: string

definition rstrip_char :: "char \<Rightarrow> string \<Rightarrow> string" where
  "rstrip_char c s = rev (dropWhile (\<lambda>x. x = c) (rev s))"

definition alpha_char :: "char \<Rightarrow> bool" where
  "alpha_char c \<longleftrightarrow> (let n = of_char (ascii_lower c) :: nat in 97 \<le> n \<and> n \<le> 122)"

definition split_scheme :: "string \<Rightarrow> string \<times> string" where
  "split_scheme u =
     (let s = takeWhile (\<lambda>c. c \<noteq> CHR '':'') u in
      if CHR '':'' \<in> set u \<and> s \<noteq> [] \<and> alpha_char (hd s)
        \<and> list_all (\<lambda>c. alpha_char c \<or> is_digit c \<or> c \<in> set ''+-.'') s
      then (lower s, drop (length s + 1) u) else ([], u))"

text \<open>Tabs and line ends are removed first; the query and the fragment are not used.\<close>

definition urlparse :: "string \<Rightarrow> url" where
  "urlparse text =
     (let u = filter (\<lambda>c. c \<notin> {CHR 0x09, CHR 0x0A, CHR 0x0D}) (dropWhile (\<lambda>c. (of_char c :: nat) \<le> 32) text);
          (scheme, u) = split_scheme u;
          (netloc, u) = (if prefix ''//'' u
             then (takeWhile (\<lambda>c. c \<notin> set ''/?#'') (drop 2 u), dropWhile (\<lambda>c. c \<notin> set ''/?#'') (drop 2 u))
             else ([], u))
      in \<lparr>url_scheme = scheme, url_netloc = netloc, url_path = takeWhile (\<lambda>c. c \<notin> set ''?#'') u\<rparr>)"

definition hostname :: "url \<Rightarrow> string option" where
  "hostname u =
     (let h = takeWhile (\<lambda>c. c \<noteq> CHR '':'') (rev (takeWhile (\<lambda>c. c \<noteq> CHR ''@'') (rev (url_netloc u)))) in
      if h = [] then None
      else Some (lower (takeWhile (\<lambda>c. c \<noteq> CHR ''%'') h) @ dropWhile (\<lambda>c. c \<noteq> CHR ''%'') h))"

definition absolute_http :: "url \<Rightarrow> bool" where
  "absolute_http u \<longleftrightarrow> url_scheme u \<in> {''http'', ''https''} \<and> url_netloc u \<noteq> []"

text \<open>
  \<^verbatim>\<open>_replace(query='', fragment='').geturl()\<close> of an absolute URL. The parameters of the last segment are split
  off and put back, so that a semicolon with nothing behind it is lost.
\<close>

definition without_empty_params :: "string \<Rightarrow> string" where
  "without_empty_params path =
     (let last = rev (takeWhile (\<lambda>c. c \<noteq> CHR ''/'') (rev path)) in
      if last \<noteq> [] \<and> dropWhile (\<lambda>c. c \<noteq> CHR '';'') last = '';'' then butlast path else path)"

definition geturl :: "url \<Rightarrow> string" where
  "geturl u = url_scheme u @ ''://'' @ url_netloc u @ without_empty_params (url_path u)"

section \<open>Profiles\<close>

record generation_profile =
  gp_profile_id :: string
  gp_provider_kind :: string
  gp_base_url :: string
  gp_model :: string
  gp_secret_ref :: string
  gp_timeout_ms :: nat
  gp_max_retries :: nat
  gp_max_input_tokens :: int
  gp_max_output_tokens :: int
  gp_extra_body :: "(string \<times> json) list"
  gp_structured_output_preference :: string
  gp_token_parameter :: string
  gp_supports_system_role :: bool
  gp_supports_seed :: bool
  gp_enabled :: bool

definition required_text :: "string \<Rightarrow> string \<Rightarrow> string res" where
  "required_text value field_name =
     raise_if (strip value = []) (ValueError (field_name @ '' must not be empty'')) (Inr (strip value))"

definition validate_base_url :: "string \<Rightarrow> string res" where
  "validate_base_url value =
     rbind (required_text value ''base_url'') (\<lambda>text.
     let normalized = rstrip_char (CHR ''/'') text in
     raise_if (\<not> absolute_http (urlparse normalized)) (ValueError ''base_url must be an absolute http(s) URL'')
     (Inr normalized))"

definition SENSITIVE_CONFIG_PARTS :: "string list" where
  "SENSITIVE_CONFIG_PARTS = [''api_key'', ''access_key'', ''auth'', ''authorization'', ''credential'', ''password'',
     ''private_key'', ''secret'', ''token'']"

definition is_sensitive_config_key :: "string \<Rightarrow> bool" where
  "is_sensitive_config_key key =
     (let normalized = map (\<lambda>c. if c = CHR ''-'' then CHR ''_'' else c) (lower key) in
      list_ex (\<lambda>part. occurs_in part normalized) SENSITIVE_CONFIG_PARTS)"

text \<open>The nested \<^verbatim>\<open>walk\<close>: the first error in the order of the document.\<close>

fun walk :: "json \<Rightarrow> unit res" where
  "walk (JObj d) = rbind (rmap (\<lambda>(key, child).
       raise_if (blank key) (ValueError ''extra_body keys must be non-empty strings'')
       (raise_if (is_sensitive_config_key key) (ValueError ''extra_body must not contain secret-like keys'')
       (walk child))) d) (\<lambda>_. Inr ())"
| "walk (JArr xs) = rbind (rmap walk xs) (\<lambda>_. Inr ())"
| "walk v = Inr ()"

definition validate_provider_extra_body :: "json \<Rightarrow> (string \<times> json) list res" where
  "validate_provider_extra_body value =
     (case value of
        JObj d \<Rightarrow>
          rbind (walk value) (\<lambda>_.
          raise_if (has_nan value) (ValueError ''extra_body must contain JSON-compatible values'')
          (raise_if (100000 < length (json_dumps (sort_keys value))) (ValueError ''extra_body is too large'')
          (Inr d)))
      | _ \<Rightarrow> Inl (TypeError ''extra_body must be a mapping''))"

definition supports_prompt_cache_key :: "generation_profile \<Rightarrow> bool" where
  "supports_prompt_cache_key p =
     (let host = rstrip_char (CHR ''.'') (lower (case hostname (urlparse (gp_base_url p)) of None \<Rightarrow> [] | Some h \<Rightarrow> h)) in
      host = ''runinfra.ai'' \<or> suffix ''.runinfra.ai'' host)"

section \<open>The fingerprint\<close>

text \<open>The literal of a duration in seconds.\<close>

definition seconds_text :: "nat \<Rightarrow> string" where
  "seconds_text ms =
     (let frac = rstrip_char (CHR ''0'') (tl (show_nat (1000 + ms mod 1000))) in
      show_nat (ms div 1000) @ ''.'' @ (if frac = [] then ''0'' else frac))"

definition fingerprint_material :: "generation_profile \<Rightarrow> string option \<Rightarrow> json" where
  "fingerprint_material p structured_output_override = JObj
     [(''schema_version'', JInt 1), (''provider_kind'', JStr (gp_provider_kind p)),
      (''transport'', JStr (gp_provider_kind p)),
      (''endpoint'', JStr (rstrip_char (CHR ''/'')
         (geturl (urlparse (rstrip_char (CHR ''/'') (strip (gp_base_url p))))))),
      (''model'', JStr (strip (gp_model p))), (''timeout_seconds'', JFloat (seconds_text (gp_timeout_ms p))),
      (''max_retries'', JInt (int (gp_max_retries p))), (''max_input_tokens'', JInt (gp_max_input_tokens p)),
      (''max_output_tokens'', JInt (gp_max_output_tokens p)), (''extra_body'', JObj (gp_extra_body p)),
      (''structured_output_preference'', JStr (case structured_output_override of
         Some (c # m) \<Rightarrow> c # m | _ \<Rightarrow> gp_structured_output_preference p)),
      (''token_parameter'', JStr (gp_token_parameter p)),
      (''supports_system_role'', JBool (gp_supports_system_role p)), (''supports_seed'', JBool (gp_supports_seed p))]"

definition generation_profile_fingerprint :: "generation_profile \<Rightarrow> string option \<Rightarrow> string" where
  "generation_profile_fingerprint p structured_output_override =
     ''sha256:'' @ sha256_hexdigest (json_dumps (sort_keys (fingerprint_material p structured_output_override)))"

section \<open>Capabilities\<close>

record provider_capabilities =
  cap_profile_id :: string
  cap_profile_fingerprint :: string
  cap_structured_output_mode :: string
  cap_json_schema_supported :: bool
  cap_tool_call_supported :: bool
  cap_json_object_supported :: bool
  cap_prompt_only_supported :: bool
  cap_structured_json_schema :: bool
  cap_structured_json_object :: bool
  cap_tool_calling :: bool
  cap_plain_json_prompt :: bool
  cap_native_schema_strictness :: bool
  cap_detected_capabilities :: "(string \<times> json) list"
  cap_probe_status :: string
  cap_last_error_code :: "string option"
  cap_probe_result :: string
  cap_last_error :: "string option"

definition supports :: "provider_capabilities \<Rightarrow> string \<Rightarrow> bool" where
  "supports c mode =
     (if mode = ''strict_json_schema'' then cap_structured_json_schema c \<and> cap_native_schema_strictness c
      else if mode = ''json_schema'' then cap_json_schema_supported c \<or> cap_structured_json_schema c
      else if mode = ''tool_call'' then cap_tool_call_supported c \<or> cap_tool_calling c
      else if mode = ''json_object'' then cap_json_object_supported c \<or> cap_structured_json_object c
      else if mode = ''prompt_only'' then cap_prompt_only_supported c \<or> cap_plain_json_prompt c
      else False)"

definition is_fresh :: "provider_capabilities \<Rightarrow> string \<Rightarrow> bool" where
  "is_fresh c fingerprint \<longleftrightarrow>
     \<not> (fingerprint = [] \<or> (cap_profile_fingerprint c \<noteq> [] \<and> cap_profile_fingerprint c \<noteq> fingerprint))
     \<and> (cap_probe_result c = ''passed'' \<or> cap_probe_status c = ''passed'')"

text \<open>\<^verbatim>\<open>for field in mode_fields[mode]: values[field] = flag\<close>; a mode without fields is a \<^verbatim>\<open>KeyError\<close>.\<close>

definition set_mode_fields :: "string \<Rightarrow> bool \<Rightarrow> provider_capabilities \<Rightarrow> provider_capabilities res" where
  "set_mode_fields mode flag c =
     (if mode = ''json_schema'' then Inr (c\<lparr>cap_json_schema_supported := flag, cap_structured_json_schema := flag\<rparr>)
      else if mode = ''tool_call'' then Inr (c\<lparr>cap_tool_call_supported := flag, cap_tool_calling := flag\<rparr>)
      else if mode = ''json_object'' then Inr (c\<lparr>cap_json_object_supported := flag, cap_structured_json_object := flag\<rparr>)
      else if mode = ''prompt_only'' then Inr (c\<lparr>cap_prompt_only_supported := flag, cap_plain_json_prompt := flag\<rparr>)
      else Inl (KeyError mode))"

definition detected_capabilities :: "provider_capabilities \<Rightarrow> (string \<times> json) list" where
  "detected_capabilities c = foldl (\<lambda>d (k, b). AList.update k (JBool b) d) (cap_detected_capabilities c)
     [(''structured_json_schema'', cap_structured_json_schema c), (''structured_json_object'', cap_structured_json_object c),
      (''tool_calling'', cap_tool_calling c), (''plain_json_prompt'', cap_plain_json_prompt c),
      (''native_schema_strictness'', cap_native_schema_strictness c)]"

definition after_successful_fallback ::
  "string \<Rightarrow> string \<Rightarrow> string \<Rightarrow> provider_capabilities \<Rightarrow> provider_capabilities res" where
  "after_successful_fallback failed_mode successful_mode error_code c =
     raise_if (failed_mode = ''auto'' \<or> successful_mode = ''auto'') (ValueError ''fallback modes must be concrete'')
     (raise_if (failed_mode = successful_mode) (ValueError ''fallback modes must be different'')
     (rbind (set_mode_fields failed_mode False c) (\<lambda>c.
      rbind (set_mode_fields successful_mode True c) (\<lambda>c.
      let c = (if failed_mode = ''json_schema'' then c\<lparr>cap_native_schema_strictness := False\<rparr>
           else if successful_mode = ''json_schema'' then c\<lparr>cap_native_schema_strictness := True\<rparr> else c);
          reason = ''capability_execution_failed:'' @ failed_mode @ '':'' @ error_code
      in Inr (c\<lparr>cap_detected_capabilities := detected_capabilities c, cap_structured_output_mode := successful_mode,
           cap_last_error_code := Some reason, cap_last_error := Some reason\<rparr>)))))"

end
