(* ===== verification/OpenAICompatible.thy ===== *)
theory OpenAICompatible
  imports Profiles Effects
begin

text \<open>
  The OpenAI-compatible transport (\<^verbatim>\<open>inference/providers/openai_compatible.py\<close>) with the request, response and
  error types it shares with the other providers (\<^verbatim>\<open>providers/base.py\<close>): how a request becomes a payload, how
  an HTTP response becomes an answer, and the bounded retries in between.

  The HTTP client is a parameter: what the \<open>i\<close>-th post of a request brings. So is the cancellation token: what
  each of its queries sees. \<^verbatim>\<open>response.json()\<close> is \<open>json_loads\<close> of the body. Durations are milliseconds.
\<close>

section \<open>Requests, responses, errors\<close>

record completion_request =
  cq_model :: string
  cq_messages :: "(string \<times> string) list"
  cq_max_output_tokens :: int
  cq_response_format :: "(string \<times> json) list option"
  cq_output_contract :: "(string \<times> json) list option"
  cq_structured_output_requirement :: "(string \<times> json) list option"
  cq_mode :: string
  cq_tool_name :: "string option"
  cq_metadata :: "(string \<times> json) list"
  cq_token_parameter :: "string option"
  cq_supports_system_role :: "bool option"
  cq_supports_seed :: "bool option"
  cq_seed :: "int option"

text \<open>The declared bounds of the fields; the model name is stripped.\<close>

definition new_completion_request :: "completion_request \<Rightarrow> completion_request res" where
  "new_completion_request q =
     raise_if (\<not> (1 \<le> char_count (cq_model q) \<and> char_count (cq_model q) \<le> 500)
         \<or> \<not> (1 \<le> length (cq_messages q) \<and> length (cq_messages q) \<le> 32)
         \<or> \<not> (0 < cq_max_output_tokens q \<and> cq_max_output_tokens q \<le> 50000)
         \<or> cq_mode q \<notin> {''auto'', ''strict_json_schema'', ''json_schema'', ''tool_call'', ''json_object'', ''prompt_only''}
         \<or> (case cq_tool_name q of None \<Rightarrow> False | Some t \<Rightarrow> \<not> (1 \<le> char_count t \<and> char_count t \<le> 200))
         \<or> (case cq_seed q of None \<Rightarrow> False | Some s \<Rightarrow> \<not> (0 \<le> s \<and> s \<le> 2147483647)))
       (ValueError ''validation error'')
     (raise_if (strip (cq_model q) = []) (ValueError ''model must not be empty'')
     (Inr (q\<lparr>cq_model := strip (cq_model q)\<rparr>)))"

record completion_response =
  pa_content :: string
  pa_model :: string
  pa_attempts :: nat
  pa_request_bytes :: nat
  pa_response_bytes :: nat
  pa_status_code :: nat
  pa_output_contract :: "(string \<times> json) list option"
  pa_mode :: string
  pa_tool_name :: "string option"
  pa_metadata :: "(string \<times> json) list"
  pa_raw_text :: "string option"

text \<open>The last constructor is an exception of another class, with its \<^verbatim>\<open>code\<close> where that is a text.\<close>

datatype provider_error =
    ProviderConfigurationError string
  | ProviderAuthenticationError string
  | ProviderTimeoutError string
  | ProviderCancelledError
  | ProviderTransportError string
  | TransientProviderError string
  | ProviderResponseError string
  | ProviderLengthTruncationError string
  | ForeignError "string option"

definition error_code :: "provider_error \<Rightarrow> string" where
  "error_code e = (case e of
     ProviderConfigurationError _ \<Rightarrow> ''configuration_error'' | ProviderAuthenticationError _ \<Rightarrow> ''authentication_error''
   | ProviderTimeoutError _ \<Rightarrow> ''timeout'' | ProviderCancelledError \<Rightarrow> ''cancelled''
   | ProviderTransportError _ \<Rightarrow> ''transport_error'' | TransientProviderError _ \<Rightarrow> ''transient_provider_error''
   | ProviderResponseError _ \<Rightarrow> ''invalid_provider_response'' | ProviderLengthTruncationError _ \<Rightarrow> ''length_truncation''
   | ForeignError c \<Rightarrow> (case c of None \<Rightarrow> ''provider_error'' | Some s \<Rightarrow> if blank s then ''provider_error'' else s))"

text \<open>\<^verbatim>\<open>isinstance(e, ProviderResponseError)\<close>; a truncation is one.\<close>

definition is_response_error :: "provider_error \<Rightarrow> bool" where
  "is_response_error e = (case e of ProviderResponseError _ \<Rightarrow> True | ProviderLengthTruncationError _ \<Rightarrow> True | _ \<Rightarrow> False)"

section \<open>Usage\<close>

text \<open>An int that is no bool and not negative.\<close>

definition count_of :: "json \<Rightarrow> int option" where
  "count_of v = (case v of JInt i \<Rightarrow> if 0 \<le> i then Some i else None | _ \<Rightarrow> None)"

text \<open>\<^verbatim>\<open>value >= 0\<close> for a float literal: not for a NaN, and for a negative one only when it is zero.\<close>

definition float_nonneg :: "string \<Rightarrow> bool" where
  "float_nonneg t \<longleftrightarrow> t \<noteq> ''NaN'' \<and> (\<not> prefix ''-'' t \<or> zero_literal t)"

fun first_count :: "(string \<times> json) list \<Rightarrow> string list \<Rightarrow> int option" where
  "first_count usage [] = None"
| "first_count usage (n # ns) = (case count_of (jget usage n) of Some i \<Rightarrow> Some i | None \<Rightarrow> first_count usage ns)"

definition USAGE_ALIASES :: "(string \<times> string list) list" where
  "USAGE_ALIASES =
     [(''input_tokens'', [''input_tokens'', ''prompt_tokens'', ''input_token_count'']),
      (''output_tokens'', [''output_tokens'', ''completion_tokens'', ''output_token_count'']),
      (''total_tokens'', [''total_tokens'', ''total_token_count'']),
      (''cached_input_tokens'', [''cached_input_tokens'', ''cache_read_input_tokens''])]"

definition cached_details :: "(string \<times> json) list \<Rightarrow> int option" where
  "cached_details usage =
     (let detail = (\<lambda>(container, field). case jget usage container of JObj d \<Rightarrow> count_of (jget d field) | _ \<Rightarrow> None) in
      case List.map_filter detail [(''prompt_tokens_details'', ''cached_tokens''),
          (''input_tokens_details'', ''cached_tokens''), (''runinfra'', ''cached_input_tokens'')] of
        [] \<Rightarrow> None
      | i # _ \<Rightarrow> Some i)"

text \<open>\<open>float_text i\<close> is the literal of \<^verbatim>\<open>float(i)\<close>.\<close>

definition reported_cost :: "(int \<Rightarrow> string) \<Rightarrow> (string \<times> json) list \<Rightarrow> json option" where
  "reported_cost float_text usage =
     (let cost = (\<lambda>name. case jget usage name of
            JInt i \<Rightarrow> if 0 \<le> i then Some (JFloat (float_text i)) else None
          | JFloat t \<Rightarrow> if float_nonneg t then Some (JFloat t) else None
          | _ \<Rightarrow> None)
      in case List.map_filter cost [''reported_cost'', ''cost'', ''cost_usd''] of [] \<Rightarrow> None | c # _ \<Rightarrow> Some c)"

definition normalize_usage :: "(int \<Rightarrow> string) \<Rightarrow> (string \<times> json) list \<Rightarrow> (string \<times> json) list" where
  "normalize_usage float_text metadata =
     (let usage = (case jget metadata ''usage'' of JObj d \<Rightarrow> d | _ \<Rightarrow> metadata);
          counts = List.map_filter (\<lambda>(target, names). map_option (Pair target) (first_count usage names)) USAGE_ALIASES;
          counts = (if ''cached_input_tokens'' \<in> set (map fst counts) then counts
             else case cached_details usage of None \<Rightarrow> counts | Some i \<Rightarrow> counts @ [(''cached_input_tokens'', i)]);
          cost = (case reported_cost float_text usage of None \<Rightarrow> [] | Some c \<Rightarrow> [(''reported_cost'', c)]);
          total = (case (map_of counts ''input_tokens'', map_of counts ''output_tokens'', map_of counts ''total_tokens'') of
             (Some i, Some j, None) \<Rightarrow> [(''total_tokens'', JInt (i + j))] | _ \<Rightarrow> []);
          normalized = map (\<lambda>(k, i). (k, JInt i)) counts @ cost @ total
      in normalized @ [(''usage_unknown'', JBool
           (\<not> list_ex (\<lambda>k. k \<in> set (jkeys normalized)) [''input_tokens'', ''output_tokens'', ''total_tokens'']))])"

section \<open>Payloads\<close>

definition DEFAULT_TOOL_NAME :: string where
  "DEFAULT_TOOL_NAME = ''submit_structured_result''"

definition PROMPT_ONLY_SUFFIX :: string where
  "PROMPT_ONLY_SUFFIX = [CHR 0x0A, CHR 0x0A]
     @ ''Return only one JSON object. Do not use Markdown. Do not add explanations.''"

definition provider_request_headers :: "string \<Rightarrow> string \<Rightarrow> (string \<times> string) list" where
  "provider_request_headers endpoint api_key =
     (let host = rstrip_char (CHR ''.'') (lower (case hostname (urlparse endpoint) of None \<Rightarrow> [] | Some h \<Rightarrow> h)) in
      [(''Authorization'', ''Bearer '' @ api_key), (''Content-Type'', ''application/json'')]
      @ (if host \<in> {''openrouter.ai'', ''www.openrouter.ai''}
         then [(''HTTP-Referer'', ''https://ledgermind.org''), (''X-Title'', ''LedgerMind'')] else []))"

definition contract_schema :: "completion_request \<Rightarrow> provider_error + (string \<times> json) list" where
  "contract_schema q =
     (let schema = (case cq_output_contract q of Some c \<Rightarrow> jget c ''json_schema'' | None \<Rightarrow> JNull);
          schema = (if is_obj schema then schema
            else case cq_response_format q of
                None \<Rightarrow> schema
              | Some f \<Rightarrow> (case jget f ''json_schema'' of JObj s \<Rightarrow> jget s ''schema'' | _ \<Rightarrow> schema))
      in case schema of
           JObj d \<Rightarrow> Inr d
         | _ \<Rightarrow> Inl (ProviderConfigurationError ''json_schema mode requires an output contract schema''))"

definition visible_name :: "json \<Rightarrow> string option" where
  "visible_name v = (case v of JStr s \<Rightarrow> if blank s then None else Some (strip s) | _ \<Rightarrow> None)"

definition contract_name :: "completion_request \<Rightarrow> string" where
  "contract_name q =
     (case (case cq_output_contract q of Some c \<Rightarrow> visible_name (jget c ''contract_name'') | None \<Rightarrow> None) of
        Some n \<Rightarrow> n
      | None \<Rightarrow>
         (case (case cq_response_format q of
              Some f \<Rightarrow> (case jget f ''json_schema'' of JObj s \<Rightarrow> visible_name (jget s ''name'') | _ \<Rightarrow> None)
            | None \<Rightarrow> None) of
            Some n \<Rightarrow> n
          | None \<Rightarrow> ''structured_result''))"

definition token_parameter :: "completion_request \<Rightarrow> string" where
  "token_parameter q = (case cq_token_parameter q of Some (c # p) \<Rightarrow> c # p | _ \<Rightarrow> ''max_tokens'')"

definition message_json :: "string \<times> string \<Rightarrow> json" where
  "message_json m = JObj [(''role'', JStr (fst m)), (''content'', JStr (snd m))]"

definition messages_payload :: "completion_request \<Rightarrow> bool \<Rightarrow> provider_error + json list" where
  "messages_payload q prompt_only =
     (let supports_system_role = (cq_supports_system_role q \<noteq> Some False);
          messages = map (\<lambda>(role, content).
            (if role = ''system'' \<and> \<not> supports_system_role then ''user'' else role, content)) (cq_messages q)
      in if prompt_only then
           (if messages = [] then Inl (ProviderConfigurationError ''prompt_only mode requires messages'')
            else Inr (map message_json (butlast messages @ [map_prod id (\<lambda>c. c @ PROMPT_ONLY_SUFFIX) (last messages)])))
         else Inr (map message_json messages))"

definition base_payload :: "completion_request \<Rightarrow> bool \<Rightarrow> provider_error + (string \<times> json) list" where
  "base_payload q prompt_only =
     rbind (messages_payload q prompt_only) (\<lambda>messages.
     let payload = AList.update (token_parameter q) (JInt (cq_max_output_tokens q))
           [(''model'', JStr (cq_model q)), (''messages'', JArr messages)]
     in Inr (case cq_seed q of
          Some s \<Rightarrow> if cq_supports_seed q = Some True then AList.update ''seed'' (JInt s) payload else payload
        | None \<Rightarrow> payload))"

definition build_payload_json_schema :: "completion_request \<Rightarrow> provider_error + (string \<times> json) list" where
  "build_payload_json_schema q =
     rbind (base_payload q False) (\<lambda>payload.
     rbind (contract_schema q) (\<lambda>schema.
     Inr (AList.update ''response_format'' (JObj [(''type'', JStr ''json_schema''),
       (''json_schema'', JObj [(''name'', JStr (contract_name q)), (''strict'', JBool True), (''schema'', JObj schema)])]) payload)))"

definition requested_tool :: "completion_request \<Rightarrow> string" where
  "requested_tool q = (case cq_tool_name q of Some (c # t) \<Rightarrow> c # t | _ \<Rightarrow> DEFAULT_TOOL_NAME)"

definition build_payload_tool_call :: "completion_request \<Rightarrow> provider_error + (string \<times> json) list" where
  "build_payload_tool_call q =
     rbind (base_payload q False) (\<lambda>payload.
     let tool_name = requested_tool q;
         parameters = (case cq_output_contract q of
             Some c \<Rightarrow> (case jget c ''json_schema'' of JObj s \<Rightarrow> s | _ \<Rightarrow> []) | None \<Rightarrow> [])
     in Inr (AList.update ''tool_choice''
          (JObj [(''type'', JStr ''function''), (''function'', JObj [(''name'', JStr tool_name)])])
        (AList.update ''tools'' (JArr [JObj [(''type'', JStr ''function''), (''function'', JObj
          [(''name'', JStr tool_name), (''description'', JStr ''Return the requested structured result''),
           (''parameters'', JObj parameters)])]]) payload)))"

definition build_payload_json_object :: "completion_request \<Rightarrow> provider_error + (string \<times> json) list" where
  "build_payload_json_object q =
     rbind (base_payload q False) (\<lambda>payload.
     Inr (AList.update ''response_format'' (JObj [(''type'', JStr ''json_object'')]) payload))"

definition build_payload_prompt_only :: "completion_request \<Rightarrow> provider_error + (string \<times> json) list" where
  "build_payload_prompt_only q = base_payload q True"

definition build_payload :: "completion_request \<Rightarrow> provider_error + (string \<times> json) list" where
  "build_payload q =
     (case cq_response_format q of
        Some f \<Rightarrow>
          if jget f ''type'' = JStr ''json_object'' then build_payload_json_object q
          else if jget f ''type'' = JStr ''json_schema'' then build_payload_json_schema q
          else Inl (ProviderConfigurationError ''unsupported response format'')
      | None \<Rightarrow>
          if cq_mode q \<in> {STRICT_JSON_SCHEMA_MODE, ''json_schema''} then build_payload_json_schema q
          else if cq_mode q = ''tool_call'' then build_payload_tool_call q
          else if cq_mode q = ''prompt_only'' then build_payload_prompt_only q
          else build_payload_json_object q)"

section \<open>Answers\<close>

definition choice_finish_reason :: "(string \<times> json) list \<Rightarrow> string option" where
  "choice_finish_reason response =
     (case jget response ''choices'' of
        JArr (JObj c # _) \<Rightarrow> (case jget c ''finish_reason'' of JStr s \<Rightarrow> Some s | _ \<Rightarrow> None)
      | _ \<Rightarrow> None)"

definition message_from_response :: "(string \<times> json) list \<Rightarrow> provider_error + (string \<times> json) list" where
  "message_from_response response =
     (case jget response ''choices'' of
        JArr (first_choice # _) \<Rightarrow>
          (case first_choice of
             JObj c \<Rightarrow>
               (case jget c ''message'' of
                  JObj m \<Rightarrow> Inr m
                | _ \<Rightarrow> Inl (ProviderResponseError ''provider response message is invalid''))
           | _ \<Rightarrow> Inl (ProviderResponseError ''provider response choice is invalid''))
      | _ \<Rightarrow> Inl (ProviderResponseError ''provider response has no choices''))"

definition parse_content_response :: "(string \<times> json) list \<Rightarrow> provider_error + string" where
  "parse_content_response response =
     rbind (message_from_response response) (\<lambda>message.
     case jget message ''content'' of
       JStr content \<Rightarrow> raise_if (blank content) (ProviderResponseError ''provider response content is missing'') (Inr content)
     | _ \<Rightarrow> Inl (ProviderResponseError ''provider response content is missing''))"

definition parse_tool_call_response :: "(string \<times> json) list \<Rightarrow> string option \<Rightarrow> provider_error + string" where
  "parse_tool_call_response response expected_tool_name =
     rbind (message_from_response response) (\<lambda>message.
     case jget message ''tool_calls'' of
       JArr (first_call # _) \<Rightarrow>
         (case first_call of
            JObj c \<Rightarrow>
              (case jget c ''function'' of
                 JObj f \<Rightarrow>
                   raise_if (case expected_tool_name of None \<Rightarrow> False | Some t \<Rightarrow> jget f ''name'' \<noteq> JStr t)
                     (ProviderResponseError ''provider returned an unexpected tool name'')
                   (case jget f ''arguments'' of
                      JObj a \<Rightarrow> Inr (json_dumps (sort_keys (JObj a)))
                    | JStr a \<Rightarrow> raise_if (blank a) (ProviderResponseError ''provider tool arguments are missing'') (Inr a)
                    | _ \<Rightarrow> Inl (ProviderResponseError ''provider tool arguments are missing''))
               | _ \<Rightarrow> Inl (ProviderResponseError ''provider tool call function is invalid''))
          | _ \<Rightarrow> Inl (ProviderResponseError ''provider tool call is invalid''))
     | _ \<Rightarrow> Inl (ProviderResponseError ''provider response has no tool calls''))"

text \<open>
  \<^verbatim>\<open>str.splitlines\<close>: beside the line ends, also the vertical tab, the form feed, the separators 1C to 1E, and the
  characters U+0085, U+2028 and U+2029, given by their UTF-8 bytes.
\<close>

definition line_break :: "string \<Rightarrow> nat" where
  "line_break s =
     (if prefix [CHR 0x0D, CHR 0x0A] s then 2
      else if s \<noteq> [] \<and> hd s \<in> {CHR 0x0A, CHR 0x0B, CHR 0x0C, CHR 0x0D, CHR 0x1C, CHR 0x1D, CHR 0x1E} then 1
      else if prefix [CHR 0xC2, CHR 0x85] s then 2
      else if prefix [CHR 0xE2, CHR 0x80, CHR 0xA8] s \<or> prefix [CHR 0xE2, CHR 0x80, CHR 0xA9] s then 3
      else 0)"

function splitlines :: "string \<Rightarrow> string list" where
  "splitlines [] = []"
| "splitlines (c # s) =
     (if 0 < line_break (c # s) then [] # splitlines (drop (line_break (c # s)) (c # s))
      else case splitlines s of [] \<Rightarrow> [[c]] | l # ls \<Rightarrow> (c # l) # ls)"
  by pat_completeness auto
termination splitlines
  by (relation "measure length") auto

definition FENCE :: string where
  "FENCE = ''```''"

definition strip_json_fence :: "string \<Rightarrow> provider_error + string" where
  "strip_json_fence content =
     (let normalized = strip content in
      if \<not> prefix FENCE normalized then Inr normalized
      else
        let lines = splitlines normalized in
        raise_if (length lines < 3 \<or> strip (last lines) \<noteq> FENCE)
          (ProviderResponseError ''provider JSON fence is incomplete'')
        (let language = lower (strip (drop 3 (strip (hd lines)))) in
         raise_if (language \<notin> {'''', ''json''}) (ProviderResponseError ''provider returned an unsupported code fence'')
         (let inner = strip (join [CHR 0x0A] (butlast (tl lines))) in
          raise_if (inner = []) (ProviderResponseError ''provider JSON content is empty'') (Inr inner))))"

definition decode_json_content :: "string \<Rightarrow> provider_error + json" where
  "decode_json_content content =
     rbind (strip_json_fence content) (\<lambda>normalized.
     case json_loads normalized of
       Some v \<Rightarrow> Inr v
     | None \<Rightarrow> Inl (ProviderResponseError ''provider returned invalid JSON content''))"

record http_response =
  hr_status_code :: nat
  hr_x_request_id :: "string option"
  hr_request_id :: "string option"
  hr_content :: string

text \<open>\<^verbatim>\<open>a or b\<close> for two texts that may be absent.\<close>

definition text_or :: "string option \<Rightarrow> string option \<Rightarrow> string option" where
  "text_or a b = (case a of Some (c # s) \<Rightarrow> a | _ \<Rightarrow> b)"

definition safe_usage :: "(string \<times> json) list \<Rightarrow> (string \<times> json) list" where
  "safe_usage usage = filter (\<lambda>(key, value). case value of
       JInt _ \<Rightarrow> True
     | JFloat t \<Rightarrow> key \<in> {''reported_cost'', ''cost'', ''cost_usd''} \<and> float_nonneg t
     | _ \<Rightarrow> False) usage"

definition safe_metadata :: "(string \<times> json) list \<Rightarrow> http_response \<Rightarrow> (string \<times> json) list" where
  "safe_metadata envelope response =
     (case text_or (hr_x_request_id response) (hr_request_id response) of
        Some (c # i) \<Rightarrow> [(''request_id'', JStr (c # i))] | _ \<Rightarrow> [])
     @ List.map_filter (\<lambda>key. case jget envelope key of
          JStr s \<Rightarrow> Some (key, JStr s) | JInt i \<Rightarrow> Some (key, JInt i) | _ \<Rightarrow> None)
        [''id'', ''created'', ''system_fingerprint'', ''provider'']
     @ (case jget envelope ''usage'' of
          JObj u \<Rightarrow> if safe_usage u = [] then [] else [(''usage'', JObj (safe_usage u))] | _ \<Rightarrow> [])
     @ (case choice_finish_reason envelope of Some r \<Rightarrow> [(''finish_reason'', JStr r)] | None \<Rightarrow> [])"

definition parse_response ::
  "http_response \<Rightarrow> completion_request \<Rightarrow> nat \<Rightarrow> nat \<Rightarrow> provider_error + completion_response" where
  "parse_response response q attempts request_bytes =
     (case json_loads (hr_content response) of
        None \<Rightarrow> Inl (ProviderResponseError ''provider returned invalid response JSON'')
      | Some (JObj envelope) \<Rightarrow>
          rbind (if cq_mode q = ''tool_call''
            then parse_tool_call_response envelope (Some (requested_tool q))
            else parse_content_response envelope) (\<lambda>content.
          rbind (case decode_json_content content of
              Inr v \<Rightarrow> Inr v
            | Inl e \<Rightarrow>
                if is_response_error e \<and> choice_finish_reason envelope = Some ''length''
                then Inl (ProviderLengthTruncationError ''provider output truncated at token limit'') else Inl e) (\<lambda>decoded.
          raise_if (\<not> is_obj decoded \<and> \<not> is_arr decoded)
            (ProviderResponseError ''provider JSON content must be an object or array'')
          (Inr \<lparr>pa_content = content,
             pa_model = (case jget_default envelope ''model'' (JStr (cq_model q)) of JStr (c # m) \<Rightarrow> c # m | _ \<Rightarrow> cq_model q),
             pa_attempts = attempts, pa_request_bytes = request_bytes, pa_response_bytes = length (hr_content response),
             pa_status_code = hr_status_code response, pa_output_contract = cq_output_contract q, pa_mode = cq_mode q,
             pa_tool_name = (case cq_tool_name q of Some (c # t) \<Rightarrow> Some (c # t)
               | _ \<Rightarrow> if cq_mode q = ''tool_call'' then Some DEFAULT_TOOL_NAME else None),
             pa_metadata = safe_metadata envelope response, pa_raw_text = Some content\<rparr>)))
      | Some _ \<Rightarrow> Inl (ProviderResponseError ''provider response envelope is invalid''))"

section \<open>The provider\<close>

record openai_provider =
  op_base_url :: string
  op_api_key :: string
  op_max_retries :: nat
  op_max_response_bytes :: nat
  op_retry_delay_ms :: nat
  op_token_parameter :: string
  op_supports_system_role :: bool
  op_supports_seed :: bool
  op_extra_body :: "(string \<times> json) list"
  op_strict_transport :: "string option"
  op_profile_fingerprint :: "string option"

text \<open>The four special timeouts default to the general one.\<close>

definition timeout_ok :: "int \<Rightarrow> bool" where
  "timeout_ok ms \<longleftrightarrow> 0 < ms \<and> ms \<le> 600000"

definition new_openai_provider ::
  "string \<Rightarrow> string \<Rightarrow> int \<Rightarrow> int \<Rightarrow> int \<Rightarrow> int \<Rightarrow> (string \<times> int option) list \<Rightarrow> string \<Rightarrow> bool \<Rightarrow> bool
     \<Rightarrow> (string \<times> json) list option \<Rightarrow> string option \<Rightarrow> string option \<Rightarrow> provider_error + openai_provider" where
  "new_openai_provider base_url api_key timeout_ms max_retries max_response_bytes retry_delay_ms special_timeouts
       token_param supports_system_role supports_seed extra_body strict_transport profile_fingerprint =
     (let normalized_url = rstrip_char (CHR ''/'') (strip base_url) in
      raise_if (\<not> absolute_http (urlparse normalized_url))
        (ProviderConfigurationError ''base_url must be an absolute http(s) URL'')
      (raise_if (api_key = []) (ProviderConfigurationError ''provider secret is not configured'')
      (raise_if (\<not> timeout_ok timeout_ms) (ProviderConfigurationError ''timeout_seconds is outside the supported range'')
      (raise_if (max_retries < 0 \<or> 5 < max_retries) (ProviderConfigurationError ''max_retries is outside the supported range'')
      (raise_if (max_response_bytes \<le> 0) (ProviderConfigurationError ''max_response_bytes must be positive'')
      (raise_if (retry_delay_ms < 0 \<or> 30000 < retry_delay_ms)
        (ProviderConfigurationError ''retry_delay_seconds is outside the supported range'')
      (raise_if (token_param \<notin> {''max_tokens'', ''max_completion_tokens''})
        (ProviderConfigurationError ''unsupported token parameter'')
      (rbind (rmap (\<lambda>(name, t). raise_if (\<not> timeout_ok (case t of None \<Rightarrow> timeout_ms | Some ms \<Rightarrow> ms))
          (ProviderConfigurationError (name @ '' is outside the supported range'')) (Inr ())) special_timeouts) (\<lambda>_.
      raise_if (case strict_transport of None \<Rightarrow> False | Some t \<Rightarrow> t \<noteq> ''nvidia_guided_json'')
        (ProviderConfigurationError ''unsupported strict provider adapter'')
      (Inr \<lparr>op_base_url = normalized_url, op_api_key = api_key, op_max_retries = nat max_retries,
         op_max_response_bytes = nat max_response_bytes, op_retry_delay_ms = nat retry_delay_ms,
         op_token_parameter = token_param, op_supports_system_role = supports_system_role,
         op_supports_seed = supports_seed, op_extra_body = (case extra_body of None \<Rightarrow> [] | Some d \<Rightarrow> d),
         op_strict_transport = strict_transport, op_profile_fingerprint = profile_fingerprint\<rparr>))))))))))"

definition prepare_request :: "openai_provider \<Rightarrow> completion_request \<Rightarrow> completion_request" where
  "prepare_request p q =
     (let format_type = (case cq_response_format q of Some f \<Rightarrow> jget f ''type'' | None \<Rightarrow> JNull);
          mode = (if cq_response_format q \<noteq> None \<and> format_type = JStr ''json_object'' then ''json_object''
            else if cq_response_format q \<noteq> None \<and> format_type = JStr ''json_schema'' \<and> cq_mode q \<noteq> STRICT_JSON_SCHEMA_MODE
            then ''json_schema''
            else if cq_mode q = ''auto'' \<and> cq_response_format q = None then ''json_object''
            else cq_mode q)
      in q\<lparr>cq_token_parameter := (case cq_token_parameter q of None \<Rightarrow> Some (op_token_parameter p) | t \<Rightarrow> t),
           cq_supports_system_role := (case cq_supports_system_role q of None \<Rightarrow> Some (op_supports_system_role p) | b \<Rightarrow> b),
           cq_supports_seed := (case cq_supports_seed q of None \<Rightarrow> Some (op_supports_seed p) | b \<Rightarrow> b),
           cq_mode := mode\<rparr>)"

text \<open>The options of the profile fill what the payload leaves open.\<close>

definition add_extra_body :: "(string \<times> json) list \<Rightarrow> (string \<times> json) list \<Rightarrow> (string \<times> json) list" where
  "add_extra_body extra_body payload =
     foldl (\<lambda>d (key, value). if key \<in> set (jkeys d) then d else d @ [(key, value)]) payload extra_body"

definition wire_payload :: "openai_provider \<Rightarrow> completion_request \<Rightarrow> provider_error + (string \<times> json) list" where
  "wire_payload p prepared =
     rbind (if cq_mode prepared = STRICT_JSON_SCHEMA_MODE \<and> op_strict_transport p = Some ''nvidia_guided_json''
       then rbind (build_payload_json_schema prepared) (\<lambda>payload.
            rbind (contract_schema prepared) (\<lambda>schema.
            Inr (AList.update ''guided_json'' (JObj schema) (AList.delete ''response_format'' payload))))
       else build_payload prepared) (\<lambda>payload.
     Inr (add_extra_body (op_extra_body p) payload))"

section \<open>The attempts of a request\<close>

datatype http_outcome =
    HttpTimeout
  | HttpRequestError
  | HttpResponse http_response
  | HttpRaises provider_error

text \<open>What the queries of a token see: at the start, before attempt \<open>i\<close>, and before and during the wait after it.\<close>

record token_view =
  tv_start :: bool
  tv_before :: "nat \<Rightarrow> bool"
  tv_sleep :: "nat \<Rightarrow> bool"
  tv_wait :: "nat \<Rightarrow> bool"

text \<open>Of an entry of the telemetry: its status, the HTTP status, the index of the retry, and the usage of an answer.\<close>

record http_attempt =
  ha_status :: string
  ha_http_status :: "nat option"
  ha_retry_index :: nat
  ha_usage :: "(string \<times> json) list"

record transport_log =
  tl_posts :: "(string \<times> (string \<times> string) list \<times> (string \<times> json) list) list"
  tl_attempts :: "http_attempt list"
  tl_waits :: "nat list"

type_synonym 'a transport = "(transport_log, provider_error, 'a) eff"

definition cancel_if :: "bool \<Rightarrow> unit transport" where
  "cancel_if b = (if b then eraise ProviderCancelledError else ereturn ())"

definition post :: "(nat \<Rightarrow> http_outcome) \<Rightarrow> openai_provider \<Rightarrow> (string \<times> json) list \<Rightarrow> nat \<Rightarrow> http_outcome transport" where
  "post client p payload attempt st =
     (Inr (client attempt), st\<lparr>tl_posts := tl_posts st @
        [(op_base_url p @ ''/chat/completions'', provider_request_headers (op_base_url p) (op_api_key p), payload)]\<rparr>)"

definition record_http_attempt :: "string \<Rightarrow> nat option \<Rightarrow> nat \<Rightarrow> (string \<times> json) list \<Rightarrow> unit transport" where
  "record_http_attempt status http_status retry_index usage st =
     (Inr (), st\<lparr>tl_attempts := tl_attempts st @ [\<lparr>ha_status = status, ha_http_status = http_status,
        ha_retry_index = retry_index, ha_usage = usage\<rparr>]\<rparr>)"

definition wait_ms :: "nat \<Rightarrow> unit transport" where
  "wait_ms ms st = (Inr (), st\<lparr>tl_waits := tl_waits st @ [ms]\<rparr>)"

definition sleep_before_retry :: "openai_provider \<Rightarrow> token_view option \<Rightarrow> nat \<Rightarrow> unit transport" where
  "sleep_before_retry p token attempt =
     (let delay = min (op_retry_delay_ms p * attempt) 30000 in
      case token of
        Some t \<Rightarrow> ebind (cancel_if (tv_sleep t attempt)) (\<lambda>_.
          ebind (wait_ms delay) (\<lambda>_. cancel_if (tv_wait t attempt)))
      | None \<Rightarrow> if delay \<noteq> 0 then wait_ms delay else ereturn ())"

definition is_temporary :: "nat \<Rightarrow> bool" where
  "is_temporary status \<longleftrightarrow> status = 429 \<or> 500 \<le> status \<and> status \<le> 599"

text \<open>A response that is not temporary: what follows the checks of its status.\<close>

definition settle_response ::
  "(int \<Rightarrow> string) \<Rightarrow> openai_provider \<Rightarrow> completion_request \<Rightarrow> nat \<Rightarrow> nat \<Rightarrow> http_response \<Rightarrow> completion_response transport" where
  "settle_response float_text p prepared request_bytes attempt response =
     (let status = hr_status_code response in
      if op_max_response_bytes p < length (hr_content response) then
        ebind (record_http_attempt ''failed'' (Some status) (attempt - 1) []) (\<lambda>_.
        eraise (ProviderResponseError ''provider response exceeds size limit''))
      else case parse_response response prepared attempt request_bytes of
        Inl e \<Rightarrow> ebind (record_http_attempt ''invalid_response'' (Some status) (attempt - 1) []) (\<lambda>_. eraise e)
      | Inr result \<Rightarrow>
          ebind (record_http_attempt ''completed'' (Some status) (attempt - 1)
            (normalize_usage float_text (pa_metadata result))) (\<lambda>_. ereturn result))"

text \<open>The loop over the attempts, which are numbered from 1.\<close>

fun attempt_loop ::
  "(int \<Rightarrow> string) \<Rightarrow> (nat \<Rightarrow> http_outcome) \<Rightarrow> openai_provider \<Rightarrow> token_view option \<Rightarrow> completion_request
     \<Rightarrow> (string \<times> json) list \<Rightarrow> nat list \<Rightarrow> completion_response transport" where
  "attempt_loop float_text client p token prepared payload [] =
     eraise (ProviderTransportError ''provider request did not complete'')"
| "attempt_loop float_text client p token prepared payload (attempt # attempts) =
     (let retry_or = (\<lambda>e. if attempt \<le> op_max_retries p
            then ebind (sleep_before_retry p token attempt) (\<lambda>_. attempt_loop float_text client p token prepared payload attempts)
            else eraise e)
      in ebind (cancel_if (case token of None \<Rightarrow> False | Some t \<Rightarrow> tv_before t attempt)) (\<lambda>_.
      ebind (post client p payload attempt) (\<lambda>outcome.
      case outcome of
        HttpTimeout \<Rightarrow> ebind (record_http_attempt ''timeout'' None (attempt - 1) []) (\<lambda>_.
          retry_or (ProviderTimeoutError ''provider request timed out''))
      | HttpRequestError \<Rightarrow> ebind (record_http_attempt ''transport_error'' None (attempt - 1) []) (\<lambda>_.
          retry_or (ProviderTransportError ''provider transport failed''))
      | HttpRaises e \<Rightarrow> eraise e
      | HttpResponse response \<Rightarrow>
          let status = hr_status_code response in
          ebind (if 400 \<le> status then record_http_attempt ''failed'' (Some status) (attempt - 1) [] else ereturn ()) (\<lambda>_.
          if status \<in> {401, 403} then eraise (ProviderAuthenticationError ''provider authentication failed'')
          else if is_temporary status then
            retry_or (TransientProviderError (''provider returned temporary HTTP status '' @ show_nat status))
          else if 400 \<le> status then eraise (ProviderResponseError (''provider returned HTTP status '' @ show_nat status))
          else settle_response float_text p prepared (length (json_dumps (sort_keys (JObj payload)))) attempt response))))"

definition openai_request ::
  "(int \<Rightarrow> string) \<Rightarrow> (nat \<Rightarrow> http_outcome) \<Rightarrow> openai_provider \<Rightarrow> token_view option \<Rightarrow> completion_request
     \<Rightarrow> completion_response transport" where
  "openai_request float_text client p token q =
     ebind (cancel_if (case token of None \<Rightarrow> False | Some t \<Rightarrow> tv_start t)) (\<lambda>_.
     let prepared = prepare_request p q in
     ebind (elift (wire_payload p prepared)) (\<lambda>payload.
     attempt_loop float_text client p token prepared payload [1..<op_max_retries p + 2]))"

section \<open>What one attempt brings\<close>

definition retryable :: "http_outcome \<Rightarrow> bool" where
  "retryable outcome = (case outcome of
     HttpTimeout \<Rightarrow> True | HttpRequestError \<Rightarrow> True | HttpResponse r \<Rightarrow> is_temporary (hr_status_code r) | HttpRaises _ \<Rightarrow> False)"

text \<open>The outcome of a request whose last attempt is \<open>a\<close>, and the entries of that attempt.\<close>

definition verdict ::
  "openai_provider \<Rightarrow> completion_request \<Rightarrow> (string \<times> json) list \<Rightarrow> nat \<Rightarrow> http_outcome \<Rightarrow> provider_error + completion_response" where
  "verdict p prepared payload a outcome = (case outcome of
     HttpTimeout \<Rightarrow> Inl (ProviderTimeoutError ''provider request timed out'')
   | HttpRequestError \<Rightarrow> Inl (ProviderTransportError ''provider transport failed'')
   | HttpRaises e \<Rightarrow> Inl e
   | HttpResponse r \<Rightarrow>
       if hr_status_code r \<in> {401, 403} then Inl (ProviderAuthenticationError ''provider authentication failed'')
       else if is_temporary (hr_status_code r)
       then Inl (TransientProviderError (''provider returned temporary HTTP status '' @ show_nat (hr_status_code r)))
       else if 400 \<le> hr_status_code r
       then Inl (ProviderResponseError (''provider returned HTTP status '' @ show_nat (hr_status_code r)))
       else if op_max_response_bytes p < length (hr_content r)
       then Inl (ProviderResponseError ''provider response exceeds size limit'')
       else parse_response r prepared a (length (json_dumps (sort_keys (JObj payload)))))"

definition entries ::
  "(int \<Rightarrow> string) \<Rightarrow> openai_provider \<Rightarrow> completion_request \<Rightarrow> (string \<times> json) list \<Rightarrow> nat \<Rightarrow> http_outcome \<Rightarrow> http_attempt list" where
  "entries float_text p prepared payload a outcome =
     (let entry = (\<lambda>status code usage. [\<lparr>ha_status = status, ha_http_status = code, ha_retry_index = a - 1, ha_usage = usage\<rparr>])
      in case outcome of
           HttpTimeout \<Rightarrow> entry ''timeout'' None []
         | HttpRequestError \<Rightarrow> entry ''transport_error'' None []
         | HttpRaises e \<Rightarrow> []
         | HttpResponse r \<Rightarrow>
             if 400 \<le> hr_status_code r \<or> op_max_response_bytes p < length (hr_content r)
             then entry ''failed'' (Some (hr_status_code r)) []
             else (case verdict p prepared payload a outcome of
               Inl _ \<Rightarrow> entry ''invalid_response'' (Some (hr_status_code r)) []
             | Inr x \<Rightarrow> entry ''completed'' (Some (hr_status_code r)) (normalize_usage float_text (pa_metadata x))))"

definition the_post :: "openai_provider \<Rightarrow> (string \<times> json) list \<Rightarrow> string \<times> (string \<times> string) list \<times> (string \<times> json) list" where
  "the_post p payload = (op_base_url p @ ''/chat/completions'', provider_request_headers (op_base_url p) (op_api_key p), payload)"

definition cancelled_before :: "token_view option \<Rightarrow> nat \<Rightarrow> bool" where
  "cancelled_before token a = (case token of None \<Rightarrow> False | Some t \<Rightarrow> tv_before t a)"

lemma temporary_is_error: "is_temporary n \<Longrightarrow> 400 \<le> n \<and> n \<noteq> 401 \<and> n \<noteq> 403"
  by (auto simp: is_temporary_def)

lemmas transport_defs = ebind_def post_def record_http_attempt_def the_post_def cancelled_before_def cancel_if_def Let_def

lemma attempt_settles:
  assumes "\<not> cancelled_before token a" "\<not> retryable (client a) \<or> op_max_retries p < a"
  shows "attempt_loop fl client p token prepared payload (a # as) st =
    (verdict p prepared payload a (client a), st\<lparr>tl_posts := tl_posts st @ [the_post p payload],
       tl_attempts := tl_attempts st @ entries fl p prepared payload a (client a)\<rparr>)"
proof (cases "client a")
  case (HttpResponse r)
  show ?thesis
  proof (cases "400 \<le> hr_status_code r")
    case True
    then show ?thesis using assms HttpResponse temporary_is_error [of "hr_status_code r"]
      by (auto simp: transport_defs retryable_def verdict_def entries_def)
  next
    case False
    then have "\<not> is_temporary (hr_status_code r)" "hr_status_code r \<noteq> 401" "hr_status_code r \<noteq> 403"
      using temporary_is_error [of "hr_status_code r"] by auto
    then show ?thesis using False assms HttpResponse
      by (auto simp: transport_defs verdict_def entries_def settle_response_def split: sum.split)
  qed
qed (use assms in \<open>auto simp: transport_defs retryable_def verdict_def entries_def\<close>)

lemma attempt_retries:
  assumes "\<not> cancelled_before token a" "retryable (client a)" "a \<le> op_max_retries p"
  shows "attempt_loop fl client p token prepared payload (a # as) st =
    ebind (sleep_before_retry p token a) (\<lambda>_. attempt_loop fl client p token prepared payload as)
      (st\<lparr>tl_posts := tl_posts st @ [the_post p payload],
         tl_attempts := tl_attempts st @ entries fl p prepared payload a (client a)\<rparr>)"
  using assms by (auto simp: transport_defs retryable_def entries_def dest: temporary_is_error split: http_outcome.splits)

lemma attempt_cancelled:
  "cancelled_before token a \<Longrightarrow> attempt_loop fl client p token prepared payload (a # as) st = (Inl ProviderCancelledError, st)"
  by (simp add: transport_defs)

lemma retryable_no_answer: "retryable (client a) \<Longrightarrow> \<not> isl (verdict p prepared payload a (client a)) \<Longrightarrow> False"
  by (auto simp: retryable_def verdict_def dest: temporary_is_error split: http_outcome.splits if_splits)

lemma parse_response_attempts: "parse_response r q n b = Inr x \<Longrightarrow> pa_attempts x = n"
  by (auto simp: parse_response_def res_simps split: option.splits json.splits)

lemma verdict_attempts: "verdict p prepared payload a outcome = Inr x \<Longrightarrow> pa_attempts x = a"
  by (auto simp: verdict_def dest: parse_response_attempts split: http_outcome.splits if_splits)

declare attempt_loop.simps(2) [simp del]

lemma sleep_keeps:
  "sleep_before_retry p token a st = (r, st') \<Longrightarrow> tl_posts st' = tl_posts st \<and> tl_attempts st' = tl_attempts st"
  by (auto simp: sleep_before_retry_def transport_defs wait_ms_def split: option.splits if_splits)

lemma attempts_Cons: "a \<le> op_max_retries p + 1 \<Longrightarrow> [a..<op_max_retries p + 2] = a # [Suc a..<op_max_retries p + 2]"
  by (simp add: upt_rec)

definition retry_delay :: "openai_provider \<Rightarrow> nat \<Rightarrow> nat" where
  "retry_delay p a = min (op_retry_delay_ms p * a) 30000"

lemma loop_reference:
  assumes "1 \<le> a" "a \<le> op_max_retries p + 1"
  shows "\<exists>k st'. a \<le> k \<and> k \<le> op_max_retries p + 1 \<and> (\<forall>i. a \<le> i \<and> i < k \<longrightarrow> retryable (client i))
    \<and> (k \<le> op_max_retries p \<longrightarrow> \<not> retryable (client k))
    \<and> attempt_loop fl client p None prepared payload [a..<op_max_retries p + 2] st = (verdict p prepared payload k (client k), st')
    \<and> tl_posts st' = tl_posts st @ replicate (Suc k - a) (the_post p payload)
    \<and> tl_attempts st' = tl_attempts st @ concat (map (\<lambda>i. entries fl p prepared payload i (client i)) [a..<Suc k])
    \<and> tl_waits st' = tl_waits st @ filter (\<lambda>d. d \<noteq> 0) (map (retry_delay p) [a..<k])"
  using assms
proof (induction "op_max_retries p + 1 - a" arbitrary: a st)
  case 0
  then have a: "a = op_max_retries p + 1" by simp
  then have loop: "attempt_loop fl client p None prepared payload [a..<op_max_retries p + 2] st =
      (verdict p prepared payload a (client a), st\<lparr>tl_posts := tl_posts st @ [the_post p payload],
       tl_attempts := tl_attempts st @ entries fl p prepared payload a (client a)\<rparr>)"
    by (subst attempts_Cons) (simp_all add: attempt_settles cancelled_before_def)
  then show ?case by (intro exI [of _ a] exI) (use a in auto)
next
  case (Suc n)
  show ?case
  proof (cases "retryable (client a)")
    case False
    then have "attempt_loop fl client p None prepared payload [a..<op_max_retries p + 2] st =
      (verdict p prepared payload a (client a), st\<lparr>tl_posts := tl_posts st @ [the_post p payload],
       tl_attempts := tl_attempts st @ entries fl p prepared payload a (client a)\<rparr>)"
      using Suc.prems by (subst attempts_Cons) (simp_all add: attempt_settles cancelled_before_def)
    then show ?thesis by (intro exI [of _ a] exI) (use Suc.prems False in auto)
  next
    case True
    define st1 where "st1 = st\<lparr>tl_posts := tl_posts st @ [the_post p payload],
      tl_attempts := tl_attempts st @ entries fl p prepared payload a (client a),
      tl_waits := tl_waits st @ filter (\<lambda>d. d \<noteq> 0) [retry_delay p a]\<rparr>"
    have less: "a \<le> op_max_retries p" using Suc.hyps(2) by simp
    have step: "attempt_loop fl client p None prepared payload [a..<op_max_retries p + 2] st =
        attempt_loop fl client p None prepared payload [Suc a..<op_max_retries p + 2] st1"
      using Suc.prems less True by (subst attempts_Cons)
        (simp_all add: attempt_retries cancelled_before_def sleep_before_retry_def Let_def wait_ms_def ebind_def st1_def retry_delay_def)
    have hyps: "n = op_max_retries p + 1 - Suc a" "1 \<le> Suc a" "Suc a \<le> op_max_retries p + 1" using Suc.hyps(2) less by auto
    from Suc.hyps(1) [OF hyps, of st1] obtain k st' where k: "Suc a \<le> k" "k \<le> op_max_retries p + 1"
      "\<forall>i. Suc a \<le> i \<and> i < k \<longrightarrow> retryable (client i)" "k \<le> op_max_retries p \<longrightarrow> \<not> retryable (client k)"
      and run: "attempt_loop fl client p None prepared payload [Suc a..<op_max_retries p + 2] st1 = (verdict p prepared payload k (client k), st')"
      and log: "tl_posts st' = tl_posts st1 @ replicate (Suc k - Suc a) (the_post p payload)"
        "tl_attempts st' = tl_attempts st1 @ concat (map (\<lambda>i. entries fl p prepared payload i (client i)) [Suc a..<Suc k])"
        "tl_waits st' = tl_waits st1 @ filter (\<lambda>d. d \<noteq> 0) (map (retry_delay p) [Suc a..<k])"
      by blast
    have "[a..<Suc k] = a # [Suc a..<Suc k]" "[a..<k] = a # [Suc a..<k]" "Suc k - a = Suc (Suc k - Suc a)"
      using k(1) by (simp_all add: upt_rec [of a] Suc_diff_le)
    with log have "tl_posts st' = tl_posts st @ replicate (Suc k - a) (the_post p payload)"
      "tl_attempts st' = tl_attempts st @ concat (map (\<lambda>i. entries fl p prepared payload i (client i)) [a..<Suc k])"
      "tl_waits st' = tl_waits st @ filter (\<lambda>d. d \<noteq> 0) (map (retry_delay p) [a..<k])"
      by (simp_all add: st1_def)
    moreover have "\<forall>i. a \<le> i \<and> i < k \<longrightarrow> retryable (client i)"
      using k(3) True by (metis Suc_leI le_neq_implies_less)
    ultimately show ?thesis using k run step by (intro exI [of _ k] exI [of _ st']) auto
  qed
qed

lemma loop_bounded:
  assumes "1 \<le> a" "a \<le> op_max_retries p + 1" "attempt_loop fl client p token prepared payload [a..<op_max_retries p + 2] st = (r, st')"
  shows "\<exists>m. tl_posts st' = tl_posts st @ replicate m (the_post p payload) \<and> a + m \<le> op_max_retries p + 2
    \<and> (\<forall>x. r = Inr x \<longrightarrow> pa_attempts x + 1 = a + m) \<and> (\<forall>i\<ge>a. cancelled_before token i \<longrightarrow> a + m \<le> i)"
  using assms
proof (induction "op_max_retries p + 1 - a" arbitrary: a st)
  case 0
  then have a: "a = op_max_retries p + 1" by simp
  show ?case
  proof (cases "cancelled_before token a")
    case True
    then have "r = Inl ProviderCancelledError \<and> st' = st"
      using 0 by (subst (asm) attempts_Cons) (simp_all add: attempt_cancelled)
    then show ?thesis by (intro exI [of _ 0]) (use 0 in auto)
  next
    case False
    then have "r = verdict p prepared payload a (client a) \<and> tl_posts st' = tl_posts st @ [the_post p payload]"
      using 0 a by (subst (asm) attempts_Cons) (auto simp add: attempt_settles)
    then show ?thesis by (intro exI [of _ 1]) (use 0 False a in \<open>auto dest: verdict_attempts simp: le_less Suc_le_eq\<close>)
  qed
next
  case (Suc n)
  consider (cancelled) "cancelled_before token a" | (settled) "\<not> cancelled_before token a" "\<not> retryable (client a)"
    | (retried) "\<not> cancelled_before token a" "retryable (client a)" by blast
  then show ?case
  proof cases
    case cancelled
    then have "r = Inl ProviderCancelledError \<and> st' = st"
      using Suc.prems by (subst (asm) attempts_Cons) (simp_all add: attempt_cancelled)
    then show ?thesis by (intro exI [of _ 0]) (use Suc.prems in auto)
  next
    case settled
    then have "r = verdict p prepared payload a (client a) \<and> tl_posts st' = tl_posts st @ [the_post p payload]"
      using Suc.prems by (subst (asm) attempts_Cons) (auto simp add: attempt_settles)
    then show ?thesis by (intro exI [of _ 1]) (use Suc.prems settled in \<open>auto dest: verdict_attempts simp: le_less Suc_le_eq\<close>)
  next
    case retried
    have less: "a \<le> op_max_retries p" using Suc.hyps(2) by simp
    let ?st = "st\<lparr>tl_posts := tl_posts st @ [the_post p payload],
      tl_attempts := tl_attempts st @ entries fl p prepared payload a (client a)\<rparr>"
    have run: "ebind (sleep_before_retry p token a)
        (\<lambda>_. attempt_loop fl client p token prepared payload [Suc a..<op_max_retries p + 2]) ?st = (r, st')"
      using Suc.prems retried less by (subst (asm) attempts_Cons) (simp_all add: attempt_retries)
    show ?thesis
    proof (cases "sleep_before_retry p token a ?st")
      case (Pair s u)
      note sleep = sleep_keeps [OF Pair]
      show ?thesis
      proof (cases s)
        case (Inl e)
        then have "r = Inl e \<and> st' = u" using run Pair by (simp add: eff_simps)
        then show ?thesis using sleep less retried by (intro exI [of _ 1]) (auto simp: le_less Suc_le_eq)
      next
        case (Inr y)
        then have "attempt_loop fl client p token prepared payload [Suc a..<op_max_retries p + 2] u = (r, st')"
          using run Pair by (simp add: eff_simps)
        moreover have "n = op_max_retries p + 1 - Suc a" "1 \<le> Suc a" "Suc a \<le> op_max_retries p + 1" using Suc.hyps(2) less by auto
        ultimately obtain m where "tl_posts st' = tl_posts u @ replicate m (the_post p payload)" "Suc a + m \<le> op_max_retries p + 2"
          "\<forall>x. r = Inr x \<longrightarrow> pa_attempts x + 1 = Suc a + m" "\<forall>i\<ge>Suc a. cancelled_before token i \<longrightarrow> Suc a + m \<le> i"
          using Suc.hyps(1) by blast
        moreover from this(4) have "\<forall>i\<ge>a. cancelled_before token i \<longrightarrow> a + Suc m \<le> i"
          using retried(1) by (metis Suc_leI add_Suc_shift le_neq_implies_less)
        ultimately show ?thesis using sleep by (intro exI [of _ "Suc m"]) auto
      qed
    qed
  qed
qed

section \<open>What the options of a profile can change\<close>

lemma add_extra_body_keeps: "k \<in> set (jkeys d) \<Longrightarrow> map_of (add_extra_body extra d) k = map_of d k"
proof (induction extra arbitrary: d)
  case (Cons e extra)
  obtain key v where e: "e = (key, v)" by (cases e)
  have "map_of d k \<noteq> None" using Cons.prems by (simp add: jkeys_def map_of_eq_None_iff)
  then have "map_of (d @ [(key, v)]) k = map_of d k" by (auto simp: map_add_def)
  then show ?case using Cons.IH [of d] Cons.IH [of "d @ [(key, v)]"] Cons.prems e
    by (auto simp: add_extra_body_def jkeys_def)
qed (simp add: add_extra_body_def)

lemma add_extra_body_keys: "set (jkeys (add_extra_body extra d)) = set (jkeys d) \<union> set (jkeys extra)"
proof (induction extra arbitrary: d)
  case (Cons e extra)
  obtain key v where e: "e = (key, v)" by (cases e)
  show ?case using Cons.IH [of d] Cons.IH [of "d @ [(key, v)]"] e by (auto simp: add_extra_body_def jkeys_def)
qed (simp add: add_extra_body_def jkeys_def)

lemma extra_body_insensitive:
  assumes "validate_provider_extra_body (JObj d) = Inr d'" "k \<in> set (jkeys d)"
  shows "\<not> is_sensitive_config_key k"
  using assms by (auto simp: validate_provider_extra_body_def res_simps rmap_Inr_iff jkeys_def list_all2_conv_all_nth in_set_conv_nth split: prod.splits)

lemma token_keys_sensitive: "is_sensitive_config_key ''max_tokens''" "is_sensitive_config_key ''max_completion_tokens''"
  by code_simp+

lemma jkeys_update [simp]: "set (jkeys (AList.update k v d)) = insert k (set (jkeys d))"
  by (simp add: jkeys_def dom_update)

lemma jget_update: "jget (AList.update k v d) x = (if x = k then v else jget d x)"
  by (simp add: jget_def update_conv)

text \<open>A field of a payload, and that it stays when the options are added.\<close>

definition has_field :: "(string \<times> json) list \<Rightarrow> string \<Rightarrow> json \<Rightarrow> bool" where
  "has_field d k v \<longleftrightarrow> map_of d k = Some v"

lemma has_field_jget: "has_field d k v \<longleftrightarrow> k \<in> set (jkeys d) \<and> jget d k = v"
proof
  show "has_field d k v \<Longrightarrow> k \<in> set (jkeys d) \<and> jget d k = v"
    by (force simp: has_field_def jget_def jkeys_def dest: map_of_SomeD)
  show "k \<in> set (jkeys d) \<and> jget d k = v \<Longrightarrow> has_field d k v"
    by (cases "map_of d k") (auto simp: has_field_def jget_def jkeys_def map_of_eq_None_iff)
qed

lemma has_field_extra: "has_field d k v \<Longrightarrow> has_field (add_extra_body extra d) k v"
  using add_extra_body_keeps [of k d extra] by (simp add: has_field_jget) (simp add: has_field_def jget_def add_extra_body_keys)

definition carries_schema :: "openai_provider \<Rightarrow> completion_request \<Rightarrow> (string \<times> json) list \<Rightarrow> bool" where
  "carries_schema p q payload \<longleftrightarrow> (\<exists>schema. contract_schema q = Inr schema \<and>
     (if cq_mode q = STRICT_JSON_SCHEMA_MODE \<and> op_strict_transport p = Some ''nvidia_guided_json''
      then has_field payload ''guided_json'' (JObj schema)
      else has_field payload ''response_format'' (JObj [(''type'', JStr ''json_schema''), (''json_schema'',
        JObj [(''name'', JStr (contract_name q)), (''strict'', JBool True), (''schema'', JObj schema)])])))"

lemma carries_schema_extra: "carries_schema p q d \<Longrightarrow> carries_schema p q (add_extra_body extra d)"
  by (auto simp: carries_schema_def intro: has_field_extra split: if_splits)

lemma has_field_update: "has_field (AList.update k v d) x w \<longleftrightarrow> (if x = k then w = v else has_field d x w)"
  by (auto simp: has_field_def update_conv)

lemma has_field_delete: "x \<noteq> k \<Longrightarrow> has_field (AList.delete k d) x w \<longleftrightarrow> has_field d x w"
  by (simp add: has_field_def delete_conv')


text \<open>The fields every payload has, before the options are added.\<close>

lemma base_payload_fields:
  assumes "base_payload q b = Inr d" "token_parameter q \<in> {''max_tokens'', ''max_completion_tokens''}"
  shows "has_field d ''model'' (JStr (cq_model q))" "has_field d (token_parameter q) (JInt (cq_max_output_tokens q))"
    "k \<in> {''max_tokens'', ''max_completion_tokens''} \<Longrightarrow> k \<noteq> token_parameter q \<Longrightarrow> k \<notin> set (jkeys d)"
  using assms by (auto simp: base_payload_def res_simps Let_def has_field_def update_conv jkeys_def dom_update split: option.splits if_splits)

lemma payload_fields:
  assumes "build_payload_json_schema q = Inr d \<or> build_payload_tool_call q = Inr d
      \<or> build_payload_json_object q = Inr d \<or> build_payload_prompt_only q = Inr d"
    and "token_parameter q \<in> {''max_tokens'', ''max_completion_tokens''}"
  shows "has_field d ''model'' (JStr (cq_model q))" "has_field d (token_parameter q) (JInt (cq_max_output_tokens q))"
    "k \<in> {''max_tokens'', ''max_completion_tokens''} \<Longrightarrow> k \<noteq> token_parameter q \<Longrightarrow> k \<notin> set (jkeys d)"
proof -
  let ?new = "{''response_format'', ''tools'', ''tool_choice''}"
  obtain b e where base: "base_payload q b = Inr e"
    and field: "\<And>x v. x \<notin> ?new \<Longrightarrow> has_field d x v = has_field e x v"
    and keys: "set (jkeys d) \<subseteq> ?new \<union> set (jkeys e)"
  proof -
    show thesis if "\<And>b e. base_payload q b = Inr e \<Longrightarrow> (\<And>x v. x \<notin> ?new \<Longrightarrow> has_field d x v = has_field e x v)
        \<Longrightarrow> set (jkeys d) \<subseteq> ?new \<union> set (jkeys e) \<Longrightarrow> thesis"
      using assms(1)
      by (elim disjE) (auto simp: build_payload_json_schema_def build_payload_tool_call_def build_payload_json_object_def
          build_payload_prompt_only_def res_simps Let_def has_field_update intro!: that split: if_splits)
  qed
  note fields = base_payload_fields [OF base assms(2)]
  have token: "token_parameter q \<notin> ?new" using assms(2) by auto
  show "has_field d ''model'' (JStr (cq_model q))" using fields(1) field [of "''model''"] by simp
  show "has_field d (token_parameter q) (JInt (cq_max_output_tokens q))" using fields(2) field [OF token] by simp
  show "k \<notin> set (jkeys d)" if "k \<in> {''max_tokens'', ''max_completion_tokens''}" "k \<noteq> token_parameter q"
  proof
    assume "k \<in> set (jkeys d)"
    then have "k \<in> ?new \<union> set (jkeys e)" using keys by (rule rev_subsetD)
    then show False using that fields(3) [OF that] by auto
  qed
qed

lemma jkeys_delete: "set (jkeys (AList.delete k d)) = set (jkeys d) - {k}"
  unfolding jkeys_def delete_keys by simp

lemma prepared_fields:
  "cq_model (prepare_request p q) = cq_model q" "cq_max_output_tokens (prepare_request p q) = cq_max_output_tokens q"
  "cq_response_format (prepare_request p q) = cq_response_format q" "cq_output_contract (prepare_request p q) = cq_output_contract q"
  by (simp_all add: prepare_request_def Let_def)

lemma prepared_names:
  "contract_schema (prepare_request p q) = contract_schema q" "contract_name (prepare_request p q) = contract_name q"
  unfolding contract_schema_def contract_name_def prepared_fields by (rule refl)+

lemmas prepared_contract = prepared_names prepared_fields

text \<open>The payload before the options.\<close>

lemma wire_payload_built:
  assumes "wire_payload p (prepare_request p q) = Inr payload"
    and token: "token_parameter (prepare_request p q) \<in> {''max_tokens'', ''max_completion_tokens''}"
  shows "\<exists>built. payload = add_extra_body (op_extra_body p) built
    \<and> has_field built ''model'' (JStr (cq_model q))
    \<and> has_field built (token_parameter (prepare_request p q)) (JInt (cq_max_output_tokens q))
    \<and> (\<forall>k\<in>{''max_tokens'', ''max_completion_tokens''}. k \<noteq> token_parameter (prepare_request p q) \<longrightarrow> k \<notin> set (jkeys built))
    \<and> (cq_response_format q = None \<and> cq_mode q \<in> {STRICT_JSON_SCHEMA_MODE, ''json_schema''} \<longrightarrow> carries_schema p q built)"
proof -
  let ?q = "prepare_request p q"
  have mode: "cq_mode ?q = cq_mode q" if "cq_response_format q = None" "cq_mode q \<in> {STRICT_JSON_SCHEMA_MODE, ''json_schema''}"
    using that by (auto simp: prepare_request_def STRICT_JSON_SCHEMA_MODE_def Let_def)
  show ?thesis
  proof (cases "cq_mode ?q = STRICT_JSON_SCHEMA_MODE \<and> op_strict_transport p = Some ''nvidia_guided_json''")
    case True
    then obtain d schema where d: "build_payload_json_schema ?q = Inr d" "contract_schema ?q = Inr schema"
      "payload = add_extra_body (op_extra_body p) (AList.update ''guided_json'' (JObj schema) (AList.delete ''response_format'' d))"
      using assms(1) by (auto simp: wire_payload_def res_simps)
    note fields = payload_fields [OF disjI1 [OF d(1)] token]
    let ?built = "AList.update ''guided_json'' (JObj schema) (AList.delete ''response_format'' d)"
    show ?thesis
    proof (intro exI [of _ ?built] conjI ballI impI)
      show "has_field ?built ''model'' (JStr (cq_model q))"
        using fields(1) by (simp add: has_field_update has_field_delete prepared_contract)
      show "has_field ?built (token_parameter ?q) (JInt (cq_max_output_tokens q))"
        using fields(2) token by (auto simp: has_field_update has_field_delete prepared_contract)
      show "k \<notin> set (jkeys ?built)" if "k \<in> {''max_tokens'', ''max_completion_tokens''}" "k \<noteq> token_parameter ?q" for k
        using fields(3) [OF that] that by (auto simp: jkeys_delete)
      show "carries_schema p q ?built"
        if "cq_response_format q = None \<and> cq_mode q \<in> {STRICT_JSON_SCHEMA_MODE, ''json_schema''}"
        using True mode [OF conjunct1 [OF that] conjunct2 [OF that]] d(2)
        by (auto simp: carries_schema_def has_field_update prepared_contract)
    qed (rule d(3))
  next
    case False
    then obtain d where d: "build_payload ?q = Inr d" "payload = add_extra_body (op_extra_body p) d"
      using assms(1) by (auto simp: wire_payload_def res_simps)
    then have "build_payload_json_schema ?q = Inr d \<or> build_payload_tool_call ?q = Inr d
      \<or> build_payload_json_object ?q = Inr d \<or> build_payload_prompt_only ?q = Inr d"
      by (auto simp: build_payload_def split: option.splits if_splits)
    note fields = payload_fields [OF this token]
    have "carries_schema p q d"
      if q: "cq_response_format q = None" "cq_mode q \<in> {STRICT_JSON_SCHEMA_MODE, ''json_schema''}"
    proof -
      have "build_payload_json_schema ?q = Inr d" using d(1) q mode [OF q] by (auto simp: build_payload_def prepared_contract)
      then show ?thesis using False mode [OF q]
        by (auto simp: carries_schema_def build_payload_json_schema_def res_simps has_field_update prepared_contract)
    qed
    then show ?thesis using d(2) fields by (intro exI [of _ d]) (simp add: prepared_contract)
  qed
qed

section \<open>Fences\<close>

text \<open>No character of a text ends a line.\<close>

fun unbroken :: "string \<Rightarrow> bool" where
  "unbroken [] = True"
| "unbroken (c # s) \<longleftrightarrow> line_break (c # s) = 0 \<and> unbroken s"

lemma line_break_append: "s \<noteq> [] \<Longrightarrow> line_break s = 0 \<Longrightarrow> line_break (s @ CHR 0x0A # t) = 0"
proof -
  assume "s \<noteq> []" "line_break s = 0"
  then consider c where "s = [c]" | c d where "s = [c, d]" | c d e u where "s = c # d # e # u"
    by (metis list.exhaust)
  then show ?thesis using \<open>line_break s = 0\<close> by cases (auto simp: line_break_def split: if_splits)
qed

lemma splitlines_line: "unbroken s \<Longrightarrow> splitlines (s @ CHR 0x0A # t) = s # splitlines t"
proof (induction s)
  case Nil
  then show ?case by (simp add: line_break_def)
next
  case (Cons c s)
  then have "line_break ((c # s) @ CHR 0x0A # t) = 0" by (intro line_break_append) auto
  then show ?case using Cons by simp
qed

lemma splitlines_last: "unbroken s \<Longrightarrow> s \<noteq> [] \<Longrightarrow> splitlines s = [s]"
proof (induction s)
  case (Cons c s)
  then show ?case by (cases s) auto
qed simp

lemma strip_visible: "s \<noteq> [] \<Longrightarrow> \<not> ascii_space (hd s) \<Longrightarrow> \<not> ascii_space (last s) \<Longrightarrow> strip s = s"
proof -
  assume s: "s \<noteq> []" "\<not> ascii_space (hd s)" "\<not> ascii_space (last s)"
  then have "dropWhile ascii_space (rev s) = rev s" by (simp add: dropWhile_eq_self_iff hd_rev)
  then have "rstrip s = s" by (simp add: rstrip_def)
  moreover have "lstrip s = s" using s by (cases s) (simp_all add: lstrip_def)
  ultimately show ?thesis by (simp add: strip_def)
qed

definition fenced :: "string \<Rightarrow> string" where
  "fenced text = FENCE @ ''json'' @ CHR 0x0A # text @ CHR 0x0A # FENCE"

lemma strip_json_fence_fenced:
  assumes "unbroken text" "strip text = text" "text \<noteq> []"
  shows "strip_json_fence (fenced text) = Inr text"
proof -
  have "strip (fenced text) = fenced text"
    by (rule strip_visible) (simp_all add: fenced_def FENCE_def ascii_space_def)
  moreover have "splitlines (fenced text) = [FENCE @ ''json'', text, FENCE]"
  proof -
    have "unbroken (FENCE @ ''json'')" "unbroken FENCE" by code_simp+
    then show ?thesis using splitlines_line [of "FENCE @ ''json''" "text @ CHR 0x0A # FENCE"] splitlines_line [OF assms(1), of FENCE]
        splitlines_last [of FENCE] by (simp add: fenced_def FENCE_def)
  qed
  moreover have "strip (FENCE @ ''json'') = FENCE @ ''json''" "strip FENCE = FENCE" "strip ''json'' = ''json''" "lower ''json'' = ''json''"
    by code_simp+
  moreover have "prefix FENCE (fenced text)" by (simp add: fenced_def)
  ultimately show ?thesis using assms by (simp add: strip_json_fence_def Let_def FENCE_def)
qed

lemma dumps_obj_ends: "strip (json_dumps (JObj d)) = json_dumps (JObj d)" "json_dumps (JObj d) \<noteq> []"
  "\<not> prefix FENCE (json_dumps (JObj d))"
  by (auto intro!: strip_visible simp: ascii_space_def FENCE_def)

text \<open>The posts of a request.\<close>

lemma openai_run:
  assumes "openai_request fl client p token q st = (r, st')"
  shows "\<exists>payload m. tl_posts st' = tl_posts st @ replicate m (the_post p payload) \<and> m \<le> op_max_retries p + 1
    \<and> (\<forall>x. r = Inr x \<longrightarrow> pa_attempts x = m) \<and> (\<forall>i\<ge>1. cancelled_before token i \<longrightarrow> m < i)"
proof (cases "(\<exists>t. token = Some t \<and> tv_start t) \<or> isl (wire_payload p (prepare_request p q))")
  case True
  then have "isl r \<and> st' = st"
    using assms by (auto simp: openai_request_def cancel_if_def ebind_def Let_def split: if_splits sum.splits)
  then show ?thesis by (intro exI [of _ "[]"] exI [of _ 0]) auto
next
  case False
  then obtain payload where payload: "wire_payload p (prepare_request p q) = Inr payload"
    by (cases "wire_payload p (prepare_request p q)") auto
  then have "attempt_loop fl client p token (prepare_request p q) payload [1..<op_max_retries p + 2] st = (r, st')"
    using assms False by (auto simp: openai_request_def cancel_if_def ebind_def Let_def split: option.splits)
  from loop_bounded [OF _ _ this] show ?thesis by (intro exI [of _ payload]) (auto simp: Suc_le_eq)
qed

lemma openai_posts:
  "openai_request fl client p token q st = (r, st') \<Longrightarrow> length (tl_posts st') \<le> length (tl_posts st) + (op_max_retries p + 1)"
  using openai_run [of fl client p token q st r st'] by auto

section \<open>Theorems\<close>

definition example_provider :: openai_provider where
  "example_provider = \<lparr>op_base_url = ''https://api.example'', op_api_key = ''k'', op_max_retries = 2, op_max_response_bytes = 1000,
     op_retry_delay_ms = 250, op_token_parameter = ''max_tokens'', op_supports_system_role = True, op_supports_seed = False,
     op_extra_body = [(''temperature'', JInt 0), (''model'', JStr ''other'')], op_strict_transport = None,
     op_profile_fingerprint = None\<rparr>"

definition example_request :: completion_request where
  "example_request = \<lparr>cq_model = ''m'', cq_messages = [(''user'', ''hi'')], cq_max_output_tokens = 10, cq_response_format = None,
     cq_output_contract = Some [(''json_schema'', JObj [(''type'', JStr ''object'')])], cq_structured_output_requirement = None,
     cq_mode = ''json_schema'', cq_tool_name = None, cq_metadata = [], cq_token_parameter = None, cq_supports_system_role = None,
     cq_supports_seed = None, cq_seed = None\<rparr>"

text \<open>
  C14. The retries of a request. Without a cancellation token, a request that has a payload ends with one of
  its at most \<open>max_retries + 1\<close> attempts: the first whose outcome is not temporary (a timeout, a transport
  failure, the statuses 429 and 5xx), or the last one allowed. Its outcome is that attempt's outcome and no
  other's; every attempt posts the same document to the same address; each leaves its own entries in the
  telemetry; and between them the code waits longer each time, never more than thirty seconds.
\<close>

theorem openai_request_reference:
  assumes "wire_payload p (prepare_request p q) = Inr payload"
  shows "\<exists>k st'. 1 \<le> k \<and> k \<le> op_max_retries p + 1 \<and> (\<forall>i. 1 \<le> i \<and> i < k \<longrightarrow> retryable (client i))
    \<and> (k \<le> op_max_retries p \<longrightarrow> \<not> retryable (client k))
    \<and> openai_request fl client p None q st = (verdict p (prepare_request p q) payload k (client k), st')
    \<and> tl_posts st' = tl_posts st @ replicate k (the_post p payload)
    \<and> tl_attempts st' = tl_attempts st
        @ concat (map (\<lambda>i. entries fl p (prepare_request p q) payload i (client i)) [1..<Suc k])
    \<and> tl_waits st' = tl_waits st @ filter (\<lambda>d. d \<noteq> 0) (map (\<lambda>i. min (op_retry_delay_ms p * i) 30000) [1..<k])"
proof -
  have "openai_request fl client p None q st =
      attempt_loop fl client p None (prepare_request p q) payload [1..<op_max_retries p + 2] st"
    by (simp add: openai_request_def assms cancel_if_def Let_def ebind_def)
  moreover have "retry_delay p = (\<lambda>i. min (op_retry_delay_ms p * i) 30000)" by (simp add: retry_delay_def fun_eq_iff)
  ultimately show ?thesis using loop_reference [of 1 p client fl "prepare_request p q" payload st] by simp
qed

lemma openai_request_reference_witness:
  "\<exists>payload k st'. 1 \<le> k \<and> k \<le> op_max_retries example_provider + 1 \<and> (\<forall>i. 1 \<le> i \<and> i < k \<longrightarrow> retryable HttpTimeout)
    \<and> (k \<le> op_max_retries example_provider \<longrightarrow> \<not> retryable HttpTimeout)
    \<and> openai_request (\<lambda>_. []) (\<lambda>_. HttpTimeout) example_provider None example_request
        \<lparr>tl_posts = [], tl_attempts = [], tl_waits = []\<rparr>
      = (verdict example_provider (prepare_request example_provider example_request) payload k HttpTimeout, st')
    \<and> length (tl_posts st') = k"
proof -
  have "isl (wire_payload example_provider (prepare_request example_provider example_request)) = False" by code_simp
  then obtain payload where payload: "wire_payload example_provider (prepare_request example_provider example_request) = Inr payload"
    by (cases "wire_payload example_provider (prepare_request example_provider example_request)") auto
  show ?thesis
    using openai_request_reference [OF payload, of "\<lambda>_. HttpTimeout" "\<lambda>_. []" "\<lparr>tl_posts = [], tl_attempts = [], tl_waits = []\<rparr>"]
    by fastforce
qed

text \<open>
  Cancellation and the bound. With any token, or none, and whatever the endpoint does, a request makes at most
  \<open>max_retries + 1\<close> posts, all of them the same; an answer that it returns counts the posts that were made;
  and once the token is seen cancelled before attempt \<open>i\<close>, neither that attempt nor a later one is made. A
  token that is cancelled at the start makes the request post nothing and raise the cancellation.
\<close>

lemma openai_request_bounded:
  assumes "openai_request fl client p token q st = (r, st')"
  shows "\<exists>payload m. tl_posts st' = tl_posts st @ replicate m (the_post p payload) \<and> m \<le> op_max_retries p + 1
    \<and> (\<forall>x. r = Inr x \<longrightarrow> pa_attempts x = m) \<and> (\<forall>i\<ge>1. cancelled_before token i \<longrightarrow> m < i)
    \<and> (\<forall>t. token = Some t \<and> tv_start t \<longrightarrow> m = 0 \<and> r = Inl ProviderCancelledError)"
proof (cases "\<exists>t. token = Some t \<and> tv_start t")
  case True
  then have "r = Inl ProviderCancelledError \<and> st' = st"
    using assms by (auto simp: openai_request_def cancel_if_def ebind_def)
  then show ?thesis by (intro exI [of _ "[]"] exI [of _ 0]) auto
next
  case False
  with openai_run [OF assms] show ?thesis by blast
qed

text \<open>
  C31. The contract of a request is authoritative on the wire. The payload that is posted names the model of the
  request and its token limit, and carries the schema of the contract when a schema mode asks for it, in the
  response format or, for the guided transport, as the guided schema. No option that a profile may carry changes
  any of this: it only fills what is left open, and since a validated profile names no token in its options, it
  cannot set the other token limit either.
\<close>

theorem wire_payload_authoritative:
  assumes "wire_payload p (prepare_request p q) = Inr payload"
    and "validate_provider_extra_body (JObj (op_extra_body p)) = Inr extra"
    and "token_parameter (prepare_request p q) \<in> {''max_tokens'', ''max_completion_tokens''}"
  shows "has_field payload ''model'' (JStr (cq_model q))
    \<and> has_field payload (token_parameter (prepare_request p q)) (JInt (cq_max_output_tokens q))
    \<and> (\<forall>k\<in>{''max_tokens'', ''max_completion_tokens''}. k \<noteq> token_parameter (prepare_request p q) \<longrightarrow> k \<notin> set (jkeys payload))
    \<and> (cq_response_format q = None \<and> cq_mode q \<in> {STRICT_JSON_SCHEMA_MODE, ''json_schema''} \<longrightarrow> carries_schema p q payload)"
proof -
  obtain built where payload: "payload = add_extra_body (op_extra_body p) built"
    and built: "has_field built ''model'' (JStr (cq_model q))"
      "has_field built (token_parameter (prepare_request p q)) (JInt (cq_max_output_tokens q))"
      "\<And>k. k \<in> {''max_tokens'', ''max_completion_tokens''} \<Longrightarrow> k \<noteq> token_parameter (prepare_request p q) \<Longrightarrow> k \<notin> set (jkeys built)"
      "cq_response_format q = None \<Longrightarrow> cq_mode q \<in> {STRICT_JSON_SCHEMA_MODE, ''json_schema''} \<Longrightarrow> carries_schema p q built"
    using wire_payload_built [OF assms(1, 3)] by blast
  have "k \<notin> set (jkeys payload)"
    if "k \<in> {''max_tokens'', ''max_completion_tokens''}" "k \<noteq> token_parameter (prepare_request p q)" for k
  proof -
    have "k \<notin> set (jkeys (op_extra_body p))"
      using that(1) extra_body_insensitive [OF assms(2), of k] token_keys_sensitive by auto
    then show ?thesis using built(3) [OF that] payload by (simp add: add_extra_body_keys)
  qed
  then show ?thesis using built payload by (auto intro: has_field_extra carries_schema_extra)
qed

lemma wire_payload_authoritative_witness:
  "\<exists>payload. wire_payload example_provider (prepare_request example_provider example_request) = Inr payload
    \<and> has_field payload ''model'' (JStr ''m'') \<and> carries_schema example_provider example_request payload"
proof -
  have "isl (wire_payload example_provider (prepare_request example_provider example_request)) = False" by code_simp
  then obtain payload where payload: "wire_payload example_provider (prepare_request example_provider example_request) = Inr payload"
    by (cases "wire_payload example_provider (prepare_request example_provider example_request)") auto
  have "walk (JObj (op_extra_body example_provider)) = Inr ()" "\<not> has_nan (JObj (op_extra_body example_provider))"
    "length (json_dumps (sort_keys (JObj (op_extra_body example_provider)))) < 50" by code_simp+
  then have valid: "validate_provider_extra_body (JObj (op_extra_body example_provider)) = Inr (op_extra_body example_provider)"
    by (simp add: validate_provider_extra_body_def del: walk.simps has_nan.simps json_dumps.simps sort_keys.simps)
  have token: "token_parameter (prepare_request example_provider example_request) \<in> {''max_tokens'', ''max_completion_tokens''}"
    and mode: "cq_response_format example_request = None \<and> cq_mode example_request \<in> {STRICT_JSON_SCHEMA_MODE, ''json_schema''}"
    by code_simp+
  note authoritative = wire_payload_authoritative [OF payload valid token]
  have "has_field payload ''model'' (JStr ''m'')" using conjunct1 [OF authoritative] by (simp add: example_request_def)
  moreover have "carries_schema example_provider example_request payload"
    by (rule mp [OF conjunct2 [OF conjunct2 [OF conjunct2 [OF authoritative]]] mode])
  ultimately show ?thesis using payload by (intro exI conjI)
qed

text \<open>
  C26. A fence around a JSON object is taken off, with one exception. The object as it is printed is decoded to
  itself, and so is the same text between the lines of a fence when no character of it ends a line; but a text
  may hold such a character that is not escaped in JSON, U+2028 for one, and then the fenced document is
  refused as invalid although the same document without its fence is accepted.
\<close>

theorem fenced_json:
  "(\<forall>d. wf_json (JObj d) \<longrightarrow> decode_json_content (json_dumps (JObj d)) = Inr (JObj d)
      \<and> (unbroken (json_dumps (JObj d)) \<longrightarrow> decode_json_content (fenced (json_dumps (JObj d))) = Inr (JObj d)))
    \<and> wf_json (JObj [(''a'', JStr [CHR 0xE2, CHR 0x80, CHR 0xA8])])
    \<and> decode_json_content (fenced (json_dumps (JObj [(''a'', JStr [CHR 0xE2, CHR 0x80, CHR 0xA8])])))
      = Inl (ProviderResponseError ''provider returned invalid JSON content'')"
proof (intro conjI allI impI)
  fix d
  assume wf: "wf_json (JObj d)"
  have "strip_json_fence (json_dumps (JObj d)) = Inr (json_dumps (JObj d))"
    using dumps_obj_ends [of d] by (simp add: strip_json_fence_def Let_def del: json_dumps.simps)
  then show "decode_json_content (json_dumps (JObj d)) = Inr (JObj d)"
    by (simp add: decode_json_content_def json_loads_dumps [OF wf] del: json_dumps.simps)
  show "decode_json_content (fenced (json_dumps (JObj d))) = Inr (JObj d)" if "unbroken (json_dumps (JObj d))"
    using strip_json_fence_fenced [OF that dumps_obj_ends(1, 2)]
    by (simp add: decode_json_content_def json_loads_dumps [OF wf] del: json_dumps.simps)
qed (simp, code_simp)

lemma fenced_json_witness: "decode_json_content (fenced (json_dumps (JObj [(''a'', JInt 1)]))) = Inr (JObj [(''a'', JInt 1)])"
proof -
  have "unbroken (json_dumps (JObj [(''a'', JInt 1)]))" by code_simp
  then show ?thesis using fenced_json by (simp del: json_dumps.simps)
qed

end
