(* ===== verification/SchemaIssues.thy ===== *)
theory SchemaIssues
  imports Strict
begin

text \<open>
  The structural check of a provider's answer against the schema it was asked for
  (\<^verbatim>\<open>_advisory_schema_issues\<close> of \<^verbatim>\<open>inference/structured_json_provider.py\<close>).

  The code recurses into the value, into the alternatives of a schema, and through references, which may
  lead back to themselves; so the check takes fuel, and \<open>None\<close> is a recursion that has not ended. A float
  is kept as its literal; \<open>feq\<close> is Python's comparison of two numbers of which one is a float.
\<close>

section \<open>Comparing documents\<close>

definition is_number :: "json \<Rightarrow> bool" where
  "is_number v = (case v of JBool _ \<Rightarrow> True | JInt _ \<Rightarrow> True | JFloat _ \<Rightarrow> True | _ \<Rightarrow> False)"

text \<open>\<^verbatim>\<open>a == b\<close>: a bool is a number, and dicts are compared without their order.\<close>

fun json_eq :: "(json \<Rightarrow> json \<Rightarrow> bool) \<Rightarrow> json \<Rightarrow> json \<Rightarrow> bool"
  and elements_eq :: "(json \<Rightarrow> json \<Rightarrow> bool) \<Rightarrow> json list \<Rightarrow> json list \<Rightarrow> bool"
  and members_eq :: "(json \<Rightarrow> json \<Rightarrow> bool) \<Rightarrow> (string \<times> json) list \<Rightarrow> (string \<times> json) list \<Rightarrow> bool" where
  "json_eq feq (JArr xs) w = (case w of JArr ys \<Rightarrow> elements_eq feq xs ys | _ \<Rightarrow> False)"
| "json_eq feq (JObj d) w = (case w of JObj e \<Rightarrow> length d = length e \<and> members_eq feq d e | _ \<Rightarrow> False)"
| "json_eq feq (JStr s) w = (w = JStr s)"
| "json_eq feq JNull w = (w = JNull)"
| "json_eq feq v w =
     (case (int_of v, int_of w) of
        (Some i, Some j) \<Rightarrow> i = j
      | _ \<Rightarrow> is_number w \<and> feq v w)"
| "elements_eq feq [] ys = (ys = [])"
| "elements_eq feq (x # xs) ys = (case ys of [] \<Rightarrow> False | y # zs \<Rightarrow> json_eq feq x y \<and> elements_eq feq xs zs)"
| "members_eq feq [] e = True"
| "members_eq feq ((k, x) # d) e = (k \<in> set (jkeys e) \<and> json_eq feq x (jget e k) \<and> members_eq feq d e)"

section \<open>The check\<close>

type_synonym issue = "string \<times> string \<times> string"

text \<open>\<^verbatim>\<open>s.replace(ab, c)\<close> for a pattern of two characters.\<close>

fun replace2 :: "char \<Rightarrow> char \<Rightarrow> string \<Rightarrow> string \<Rightarrow> string" where
  "replace2 a b c (x # y # s) = (if x = a \<and> y = b then c @ replace2 a b c s else x # replace2 a b c (y # s))"
| "replace2 a b c s = s"

fun follow :: "json \<Rightarrow> string list \<Rightarrow> json option" where
  "follow v [] = Some v"
| "follow v (raw_part # parts) =
     (let part = replace2 (CHR ''~'') (CHR ''0'') ''~'' (replace2 (CHR ''~'') (CHR ''1'') ''/'' raw_part) in
      case v of
        JObj d \<Rightarrow> (case map_of d part of None \<Rightarrow> None | Some w \<Rightarrow> follow w parts)
      | _ \<Rightarrow> None)"

definition local_reference :: "(string \<times> json) list \<Rightarrow> string option" where
  "local_reference d = (case jget d ''$ref'' of JStr r \<Rightarrow> if prefix ''#/'' r then Some (drop 2 r) else None | _ \<Rightarrow> None)"

definition resolve_reference :: "json \<Rightarrow> string \<Rightarrow> json option" where
  "resolve_reference root reference = follow root (split_on (CHR ''/'') reference)"

text \<open>The type a value fails to have, for the types that the check knows.\<close>

definition type_issue :: "(string \<times> json) list \<Rightarrow> json \<Rightarrow> string option" where
  "type_issue d value =
     (let t = jget d ''type'' in
      if t = JStr ''object'' \<and> \<not> is_obj value then Some ''expected object''
      else if t = JStr ''array'' \<and> \<not> is_arr value then Some ''expected array''
      else if t = JStr ''string'' \<and> \<not> is_str value then Some ''expected string''
      else if t = JStr ''boolean'' \<and> (case value of JBool _ \<Rightarrow> False | _ \<Rightarrow> True) then Some ''expected boolean''
      else if t = JStr ''integer'' \<and> (case value of JInt _ \<Rightarrow> False | _ \<Rightarrow> True) then Some ''expected integer''
      else None)"

text \<open>The nested \<^verbatim>\<open>add\<close>, and a loop of it.\<close>

definition add_issue :: "nat \<Rightarrow> issue list \<Rightarrow> issue \<Rightarrow> issue list" where
  "add_issue limit issues i = (if length issues < limit then issues @ [i] else issues)"

definition add_issues :: "nat \<Rightarrow> issue list \<Rightarrow> issue list \<Rightarrow> issue list" where
  "add_issues limit issues new = foldl (add_issue limit) issues new"

text \<open>The issues of the node itself, without its children.\<close>

definition value_issues :: "(json \<Rightarrow> json \<Rightarrow> bool) \<Rightarrow> (string \<times> json) list \<Rightarrow> json \<Rightarrow> string \<Rightarrow> issue list" where
  "value_issues feq d value path =
     (if ''const'' \<in> set (jkeys d) \<and> \<not> json_eq feq value (jget d ''const'')
      then [(path, ''const'', ''value does not match const'')] else [])
     @ (case jget d ''enum'' of
          JArr xs \<Rightarrow> if list_ex (json_eq feq value) xs then [] else [(path, ''enum'', ''value is not in enum'')]
        | _ \<Rightarrow> [])"

definition bound_issue :: "(string \<times> json) list \<Rightarrow> string \<Rightarrow> (int \<Rightarrow> bool) \<Rightarrow> string \<Rightarrow> string \<Rightarrow> issue list" where
  "bound_issue d key broken path message =
     (case int_of (jget d key) of Some i \<Rightarrow> if broken i then [(path, key, message)] else [] | None \<Rightarrow> [])"

definition member_issues :: "(string \<times> json) list \<Rightarrow> (string \<times> json) list \<Rightarrow> string \<Rightarrow> issue list" where
  "member_issues d members path =
     (case jget d ''required'' of
        JArr keys \<Rightarrow> List.map_filter (\<lambda>k. case k of
            JStr key \<Rightarrow> if key \<notin> set (jkeys members) then Some (path @ ''.'' @ key, ''required'', ''required field is missing'') else None
          | _ \<Rightarrow> None) keys
      | _ \<Rightarrow> [])
     @ (case jget d ''properties'' of
          JObj properties \<Rightarrow>
            if jget d ''additionalProperties'' = JBool False then
              map (\<lambda>key. (path @ ''.'' @ key, ''additionalProperties'', ''unknown field is not allowed''))
                (filter (\<lambda>key. key \<notin> set (jkeys properties)) (jkeys members))
            else []
        | _ \<Rightarrow> [])"

text \<open>What is checked below a node: the value, its schema and its path.\<close>

definition child_checks :: "(string \<times> json) list \<Rightarrow> json \<Rightarrow> string \<Rightarrow> (json \<times> json \<times> string) list" where
  "child_checks d value path =
     (case value of
        JObj members \<Rightarrow>
          (case jget d ''properties'' of
             JObj properties \<Rightarrow>
               map (\<lambda>(key, child). (jget members key, child, path @ ''.'' @ key))
                 (filter (\<lambda>(key, _). key \<in> set (jkeys members)) properties)
           | _ \<Rightarrow> [])
      | JArr xs \<Rightarrow>
          if jget d ''items'' \<noteq> JNull then
            map (\<lambda>(i, x). (x, jget d ''items'', path @ ''['' @ show_nat i @ '']'')) (enumerate 0 xs)
          else []
      | _ \<Rightarrow> [])"

definition own_issues :: "(json \<Rightarrow> json \<Rightarrow> bool) \<Rightarrow> (string \<times> json) list \<Rightarrow> json \<Rightarrow> string \<Rightarrow> issue list" where
  "own_issues feq d value path =
     value_issues feq d value path
     @ (case value of
          JObj members \<Rightarrow> member_issues d members path
        | JArr xs \<Rightarrow>
            bound_issue d ''minItems'' (\<lambda>i. int (length xs) < i) path ''array has fewer items than allowed''
            @ bound_issue d ''maxItems'' (\<lambda>i. i < int (length xs)) path ''array has more items than allowed''
        | JStr s \<Rightarrow>
            bound_issue d ''minLength'' (\<lambda>i. int (char_count s) < i) path ''string is shorter than allowed''
            @ bound_issue d ''maxLength'' (\<lambda>i. i < int (char_count s)) path ''string is longer than allowed''
        | _ \<Rightarrow> [])"

text \<open>The loop over the children: it stops when the limit is reached.\<close>

fun extend_issues :: "('x \<Rightarrow> nat \<Rightarrow> issue list option) \<Rightarrow> nat \<Rightarrow> issue list \<Rightarrow> 'x list \<Rightarrow> issue list option" where
  "extend_issues f limit issues [] = Some issues"
| "extend_issues f limit issues (x # xs) =
     (case f x (limit - length issues) of
        None \<Rightarrow> None
      | Some found \<Rightarrow>
          if limit \<le> length (issues @ found) then Some (issues @ found)
          else extend_issues f limit (issues @ found) xs)"

text \<open>How many alternatives a value matches.\<close>

fun count_matches :: "('x \<Rightarrow> issue list option) \<Rightarrow> 'x list \<Rightarrow> nat option" where
  "count_matches f [] = Some 0"
| "count_matches f (x # xs) =
     (case f x of
        None \<Rightarrow> None
      | Some issues \<Rightarrow> map_option (\<lambda>n. if issues = [] then n + 1 else n) (count_matches f xs))"

primrec advisory_schema_issues ::
  "(json \<Rightarrow> json \<Rightarrow> bool) \<Rightarrow> json \<Rightarrow> nat \<Rightarrow> json \<Rightarrow> json \<Rightarrow> string \<Rightarrow> nat \<Rightarrow> issue list option" where
  "advisory_schema_issues feq root 0 = (\<lambda>value schema path limit. None)"
| "advisory_schema_issues feq root (Suc n) = (\<lambda>value schema path limit.
     case schema of
       JObj d \<Rightarrow>
         (case local_reference d of
            Some reference \<Rightarrow>
              (case resolve_reference root reference of
                 None \<Rightarrow> Some (add_issue limit [] (path, ''$ref'', ''local schema reference cannot be resolved''))
               | Some resolved \<Rightarrow> advisory_schema_issues feq root n value resolved path limit)
          | None \<Rightarrow>
              (case jget d ''oneOf'' of
                 JArr alternatives \<Rightarrow>
                   map_option (\<lambda>matches. if matches \<noteq> 1
                       then add_issue limit [] (path, ''oneOf'', ''value must match exactly one schema alternative'') else [])
                     (count_matches (\<lambda>alternative. advisory_schema_issues feq root n value alternative path 1) alternatives)
               | _ \<Rightarrow>
                   (case type_issue d value of
                      Some message \<Rightarrow> Some (add_issue limit [] (path, ''type'', message))
                    | None \<Rightarrow>
                        map_option (take limit)
                          (extend_issues (\<lambda>(v, child, p) limit. advisory_schema_issues feq root n v child p limit) limit
                            (add_issues limit [] (own_issues feq d value path)) (child_checks d value path)))))
     | _ \<Rightarrow> Some [])"


section \<open>The reference\<close>

text \<open>
  Whether a value has the shape of a schema, without paths and limits: all children are looked at, and a
  \<open>oneOf\<close> needs exactly one alternative.
\<close>

primrec conforms :: "(json \<Rightarrow> json \<Rightarrow> bool) \<Rightarrow> json \<Rightarrow> nat \<Rightarrow> json \<Rightarrow> json \<Rightarrow> bool option" where
  "conforms feq root 0 = (\<lambda>value schema. None)"
| "conforms feq root (Suc n) = (\<lambda>value schema.
     case schema of
       JObj d \<Rightarrow>
         (case local_reference d of
            Some reference \<Rightarrow>
              (case resolve_reference root reference of
                 None \<Rightarrow> Some False
               | Some resolved \<Rightarrow> conforms feq root n value resolved)
          | None \<Rightarrow>
              (case jget d ''oneOf'' of
                 JArr alternatives \<Rightarrow>
                   map_option (\<lambda>bs. length (filter id bs) = 1) (those (map (conforms feq root n value) alternatives))
               | _ \<Rightarrow>
                   if type_issue d value \<noteq> None then Some False
                   else map_option (\<lambda>bs. own_issues feq d value [] = [] \<and> False \<notin> set bs)
                     (those (map (\<lambda>(v, child, _). conforms feq root n v child) (child_checks d value [])))))
     | _ \<Rightarrow> Some True)"

section \<open>The check agrees with the reference\<close>

lemma add_issues_empty: "0 < limit \<Longrightarrow> add_issues limit issues new = [] \<longleftrightarrow> issues = [] \<and> new = []"
proof -
  have grows: "issues \<noteq> [] \<Longrightarrow> foldl (add_issue limit) issues new \<noteq> []" for issues new
  proof (induction new arbitrary: issues)
    case (Cons i new)
    then show ?case by (simp add: add_issue_def)
  qed simp
  show "0 < limit \<Longrightarrow> add_issues limit issues new = [] \<longleftrightarrow> issues = [] \<and> new = []"
    unfolding add_issues_def using grows by (cases new; cases "issues = []") (auto simp: add_issue_def)
qed

text \<open>At most \<open>limit\<close> issues are reported.\<close>

lemma issues_length: "advisory_schema_issues feq root n value schema path limit = Some is \<Longrightarrow> length is \<le> limit"
proof (induction n arbitrary: "value" schema path limit "is")
  case (Suc n)
  then show ?case
    by (auto simp: add_issue_def split: json.splits option.splits if_splits)
qed simp

text \<open>A check agrees with a verdict: it ends, and without a limit of zero it is silent exactly on what conforms.\<close>

definition agrees :: "(nat \<Rightarrow> issue list option) \<Rightarrow> bool \<Rightarrow> bool" where
  "agrees check verdict \<longleftrightarrow> (\<forall>limit. \<exists>is. check limit = Some is \<and> (0 < limit \<longrightarrow> (is = [] \<longleftrightarrow> verdict)))"

lemma extend_issues_agrees:
  assumes "list_all2 (\<lambda>x b. agrees (f x) b) xs bs" "0 < limit"
  shows "\<exists>r. extend_issues f limit issues xs = Some r \<and> (r = [] \<longleftrightarrow> issues = [] \<and> False \<notin> set bs)"
  using assms(1)
proof (induction xs bs arbitrary: issues rule: list_all2_induct)
  case (Cons x xs b bs)
  from Cons.hyps(1) obtain found where found: "f x (limit - length issues) = Some found"
    "0 < limit - length issues \<longrightarrow> (found = [] \<longleftrightarrow> b)"
    unfolding agrees_def by blast
  show ?case
  proof (cases "limit \<le> length (issues @ found)")
    case True
    then show ?thesis using found assms(2) by auto
  next
    case False
    from Cons.IH [of "issues @ found"] obtain r where "extend_issues f limit (issues @ found) xs = Some r"
      "r = [] \<longleftrightarrow> issues @ found = [] \<and> False \<notin> set bs" by blast
    with False found assms(2) show ?thesis by (cases "issues = []") auto
  qed
qed simp

lemma extend_issues_defined:
  assumes "list_all2 (\<lambda>x b. agrees (f x) b) xs bs"
  shows "\<exists>r. extend_issues f limit issues xs = Some r"
  using assms
proof (induction xs bs arbitrary: issues rule: list_all2_induct)
  case (Cons x xs b bs)
  from Cons.hyps(1) obtain found where "f x (limit - length issues) = Some found" unfolding agrees_def by blast
  with Cons.IH [of "issues @ found"] show ?case by auto
qed simp

lemma count_matches_agrees:
  assumes "list_all2 (\<lambda>x b. agrees (f x) b) xs bs"
  shows "count_matches (\<lambda>x. f x 1) xs = Some (length (filter id bs))"
  using assms
proof (induction xs bs rule: list_all2_induct)
  case (Cons x xs b bs)
  from Cons.hyps(1) obtain found where "f x 1 = Some found" "found = [] \<longleftrightarrow> b"
    unfolding agrees_def by (metis zero_less_one)
  with Cons.IH show ?case by auto
qed simp

lemma those_all2: "those (map g xs) = Some bs \<Longrightarrow> (\<And>x b. x \<in> set xs \<Longrightarrow> g x = Some b \<Longrightarrow> P x b) \<Longrightarrow> list_all2 P xs bs"
  by (induction xs arbitrary: bs) (auto split: option.splits)

lemma value_issues_path: "value_issues feq d value path = [] \<longleftrightarrow> value_issues feq d value [] = []"
  by (simp add: value_issues_def split: json.split)

lemma bound_issue_path: "bound_issue d key broken path message = [] \<longleftrightarrow> bound_issue d key broken [] message = []"
  by (simp add: bound_issue_def split: option.split)

lemma member_issues_path: "member_issues d members path = [] \<longleftrightarrow> member_issues d members [] = []"
proof -
  have "(case k of JStr key \<Rightarrow> if key \<notin> set (jkeys members) then Some (f key) else None | _ \<Rightarrow> None) = None
      \<longleftrightarrow> (case k of JStr key \<Rightarrow> key \<in> set (jkeys members) | _ \<Rightarrow> True)" for k and f :: "string \<Rightarrow> issue"
    by (simp split: json.split)
  then show ?thesis by (simp add: member_issues_def List.map_filter_def filter_empty_conv split: json.split)
qed

lemma own_issues_path: "own_issues feq d value path = [] \<longleftrightarrow> own_issues feq d value [] = []"
  unfolding own_issues_def using value_issues_path [of feq d "value" path] member_issues_path [of d _ path]
    bound_issue_path [of d _ _ path] by (simp split: json.split)

lemma child_checks_path:
  "map (\<lambda>(v, child, _). h v child) (child_checks d value path) = map (\<lambda>(v, child, _). h v child) (child_checks d value [])"
  by (auto simp: child_checks_def split: json.split)

lemma node_agrees:
  assumes "list_all2 (\<lambda>x b. agrees (f x) b) xs bs" "b \<longleftrightarrow> own = [] \<and> False \<notin> set bs"
  shows "agrees (\<lambda>limit. map_option (take limit) (extend_issues f limit (add_issues limit [] own) xs)) b"
  unfolding agrees_def
proof
  fix limit :: nat
  show "\<exists>is. map_option (take limit) (extend_issues f limit (add_issues limit [] own) xs) = Some is
      \<and> (0 < limit \<longrightarrow> (is = [] \<longleftrightarrow> b))"
  proof (cases "0 < limit")
    case True
    from extend_issues_agrees [OF assms(1) this, of "add_issues limit [] own"] show ?thesis
      using add_issues_empty [OF True, of "[]" own] assms(2) True by auto
  next
    case False
    then show ?thesis using extend_issues_defined [OF assms(1), of limit "add_issues limit [] own"] by auto
  qed
qed

lemma conforms_agrees:
  "conforms feq root n value schema = Some b \<Longrightarrow> agrees (advisory_schema_issues feq root n value schema path) b"
proof (induction n arbitrary: "value" schema b path)
  case (Suc n)
  show ?case
  proof (cases schema)
    case (JObj d)
    show ?thesis
    proof (cases "local_reference d")
      case (Some reference)
      note reference = Some
      show ?thesis
      proof (cases "resolve_reference root reference")
        case None
        then show ?thesis using Suc.prems JObj reference by (simp add: agrees_def add_issue_def)
      next
        case (Some resolved)
        then have "conforms feq root n value resolved = Some b" using Suc.prems JObj reference by simp
        from Suc.IH [OF this] show ?thesis using Some JObj reference by (simp add: agrees_def)
      qed
    next
      case None
      note no_reference = None
      show ?thesis
      proof (cases "\<exists>alternatives. jget d ''oneOf'' = JArr alternatives")
        case True
        then obtain alternatives where alternatives: "jget d ''oneOf'' = JArr alternatives" by blast
        then obtain bs where bs: "those (map (conforms feq root n value) alternatives) = Some bs" "b \<longleftrightarrow> length (filter id bs) = 1"
          using Suc.prems JObj no_reference by auto
        have "list_all2 (\<lambda>x b. agrees (advisory_schema_issues feq root n value x path) b) alternatives bs"
          by (rule those_all2 [OF bs(1)]) (rule Suc.IH)
        from count_matches_agrees [OF this] show ?thesis
          using JObj no_reference alternatives bs(2) by (simp add: agrees_def add_issue_def)
      next
        case False
        then have other: "(case jget d ''oneOf'' of JArr alternatives \<Rightarrow> f alternatives | _ \<Rightarrow> g) = g" for f and g :: 'x
          by (auto split: json.split)
        show ?thesis
        proof (cases "type_issue d value")
          case (Some message)
          then show ?thesis using Suc.prems JObj no_reference by (simp add: other agrees_def add_issue_def)
        next
          case None
          let ?f = "\<lambda>(v, child, p). advisory_schema_issues feq root n v child p"
          obtain bs where bs: "those (map (\<lambda>(v, child, _). conforms feq root n v child) (child_checks d value path)) = Some bs"
            "b \<longleftrightarrow> own_issues feq d value [] = [] \<and> False \<notin> set bs"
            using Suc.prems JObj no_reference None by (auto simp: other child_checks_path [where path = path])
          have children: "list_all2 (\<lambda>x b. agrees (?f x) b) (child_checks d value path) bs"
            by (rule those_all2 [OF bs(1)]) (auto intro: Suc.IH)
          have "agrees (\<lambda>limit. map_option (take limit) (extend_issues ?f limit
              (add_issues limit [] (own_issues feq d value path)) (child_checks d value path))) b"
            by (rule node_agrees [OF children]) (use bs(2) own_issues_path [of feq d "value" path] in simp)
          then show ?thesis using JObj no_reference None by (simp add: other split_def)
        qed
      qed
    qed
  qed (use Suc.prems in \<open>auto simp: agrees_def\<close>)
qed simp

section \<open>When the check ends\<close>

text \<open>Every node of a document.\<close>

fun nodes :: "json \<Rightarrow> json list" where
  "nodes (JArr xs) = JArr xs # concat (map nodes xs)"
| "nodes (JObj d) = JObj d # concat (map (\<lambda>(k, v). nodes v) d)"
| "nodes v = [v]"

text \<open>How deep the containers of a value are nested.\<close>

fun height :: "json \<Rightarrow> nat" where
  "height (JArr xs) = Suc (foldr (\<lambda>x. max (height x)) xs 0)"
| "height (JObj d) = Suc (foldr (\<lambda>(k, v). max (height v)) d 0)"
| "height v = 0"

text \<open>
  The references and alternatives that are followed without looking into the value end within \<open>k\<close> steps;
  a schema is guarded by \<open>k\<close> when this holds for each of its nodes.
\<close>

primrec chain_ends :: "json \<Rightarrow> nat \<Rightarrow> json \<Rightarrow> bool" where
  "chain_ends root 0 = (\<lambda>schema. False)"
| "chain_ends root (Suc k) = (\<lambda>schema.
     case schema of
       JObj d \<Rightarrow>
         (case local_reference d of
            Some reference \<Rightarrow>
              (case resolve_reference root reference of None \<Rightarrow> True | Some resolved \<Rightarrow> chain_ends root k resolved)
          | None \<Rightarrow> (case jget d ''oneOf'' of JArr alternatives \<Rightarrow> list_all (chain_ends root k) alternatives | _ \<Rightarrow> True))
     | _ \<Rightarrow> True)"

definition guarded :: "nat \<Rightarrow> json \<Rightarrow> bool" where
  "guarded k root = list_all (chain_ends root k) (nodes root)"

lemma nodes_self [simp]: "v \<in> set (nodes v)"
  by (cases v) auto

lemma nodes_obj: "set (nodes (JObj d)) = insert (JObj d) (\<Union>v\<in>snd ` set d. set (nodes v))"
  by force

lemma nodes_trans: "w \<in> set (nodes v) \<Longrightarrow> set (nodes w) \<subseteq> set (nodes v)"
proof (induction v rule: nodes.induct)
  case (2 d)
  then show ?case by (force simp: nodes_obj simp del: nodes.simps(2))
qed auto

lemma nodes_member: "(k, w) \<in> set d \<Longrightarrow> w \<in> set (nodes (JObj d))"
  by force

lemma nodes_jget: "jget d k \<noteq> JNull \<Longrightarrow> jget d k \<in> set (nodes (JObj d))"
  by (auto simp: jget_def dest!: map_of_SomeD intro: nodes_member split: option.splits simp del: nodes.simps)

lemma follow_nodes: "follow v parts = Some w \<Longrightarrow> w \<in> set (nodes v)"
proof (induction v parts rule: follow.induct)
  case (2 v raw_part parts)
  let ?part = "replace2 (CHR ''~'') (CHR ''0'') ''~'' (replace2 (CHR ''~'') (CHR ''1'') ''/'' raw_part)"
  obtain d x where "v = JObj d" and x: "map_of d ?part = Some x" "follow x parts = Some w"
    using "2.prems" by (auto simp: Let_def split: json.splits option.splits)
  moreover from this "2.IH" have "w \<in> set (nodes x)" by blast
  ultimately show ?case using nodes_trans [OF nodes_member [OF map_of_SomeD [OF x(1)]]] by blast
qed simp

lemma height_element: "x \<in> set xs \<Longrightarrow> height x < height (JArr xs)"
  by (induction xs) (auto simp: less_Suc_eq_le le_max_iff_disj)

lemma height_member: "(k, v) \<in> set d \<Longrightarrow> height v < height (JObj d)"
  by (induction d) (auto simp: less_Suc_eq_le le_max_iff_disj)

lemma child_checks_in:
  assumes "(v, child, p) \<in> set (child_checks d value path)"
  shows "height v < height value" and "child \<in> set (nodes (JObj d))"
proof -
  have member: "height (jget ms k) < height (JObj ms)" if "k \<in> set (jkeys ms)" for k ms
  proof -
    from that have "map_of ms k \<noteq> None" by (simp add: jkeys_def map_of_eq_None_iff)
    then obtain x where "map_of ms k = Some x" by blast
    then show ?thesis using height_member [OF map_of_SomeD] by (simp add: jget_def)
  qed
  have properties: "w \<in> set (nodes (JObj d))" if "JObj ps = jget d ''properties''" "(k, w) \<in> set ps" for ps k w
    using nodes_trans [OF nodes_jget [of d "''properties''"]] nodes_member [OF that(2)] that(1) [symmetric] by auto
  show "height v < height value"
    using assms by (auto simp: child_checks_def member simp del: height.simps split: json.splits if_splits
        dest!: enumerate_in intro: height_element)
  show "child \<in> set (nodes (JObj d))"
    using assms properties by (auto simp: child_checks_def nodes_jget simp del: nodes.simps split: json.splits if_splits)
qed

lemma those_defined: "(\<And>x. x \<in> set xs \<Longrightarrow> g x \<noteq> None) \<Longrightarrow> those (map g xs) \<noteq> None"
  by (induction xs) (auto split: option.split)

text \<open>The recursion is never deeper than a chain for each level of the value.\<close>

lemma conforms_defined:
  assumes guarded: "guarded k root"
  shows "chain_ends root j schema \<Longrightarrow> schema \<in> set (nodes root) \<Longrightarrow> j + k * height value \<le> fuel
    \<Longrightarrow> conforms feq root fuel value schema \<noteq> None"
proof (induction fuel arbitrary: j schema "value")
  case 0
  then show ?case by (cases j) auto
next
  case (Suc n)
  from Suc.prems(1) obtain i where j: "j = Suc i" by (cases j) auto
  note step = Suc.prems(1) [unfolded j]
  show ?case
  proof (cases schema)
    case (JObj d)
    show ?thesis
    proof (cases "local_reference d")
      case (Some reference)
      show ?thesis
      proof (cases "resolve_reference root reference")
        case None
        then show ?thesis using JObj Some by simp
      next
        case resolved: (Some resolved)
        then have "resolved \<in> set (nodes root)" by (simp add: resolve_reference_def follow_nodes)
        then show ?thesis using Suc.IH [of i resolved "value"] Suc.prems(3) step JObj Some resolved j by simp
      qed
    next
      case None
      show ?thesis
      proof (cases "\<exists>alternatives. jget d ''oneOf'' = JArr alternatives")
        case True
        then obtain alternatives where alternatives: "jget d ''oneOf'' = JArr alternatives" by blast
        have "conforms feq root n value x \<noteq> None" if "x \<in> set alternatives" for x
        proof (rule Suc.IH [of i])
          show "chain_ends root i x" using step that JObj None alternatives by (simp add: list_all_iff)
          have "JArr alternatives \<in> set (nodes (JObj d))"
            using nodes_jget [of d "''oneOf''"] by (simp add: alternatives del: nodes.simps)
          moreover have "x \<in> set (nodes (JArr alternatives))" using that by (auto intro!: bexI [of _ x])
          ultimately have "x \<in> set (nodes (JObj d))" using nodes_trans by blast
          then show "x \<in> set (nodes root)" using nodes_trans [OF Suc.prems(2)] JObj by blast
        qed (use Suc.prems(3) j in simp)
        from those_defined [OF this] show ?thesis using JObj None alternatives by simp
      next
        case False
        then have other: "(case jget d ''oneOf'' of JArr alternatives \<Rightarrow> f alternatives | _ \<Rightarrow> g) = g" for f and g :: 'x
          by (auto split: json.split)
        have "(case x of (v, child, _) \<Rightarrow> conforms feq root n v child) \<noteq> None" if x: "x \<in> set (child_checks d value [])" for x
        proof -
          obtain v child p where x': "x = (v, child, p)" by (cases x)
          note child = child_checks_in [OF x [unfolded x']]
          have "k + k * height v \<le> k * height value"
            using mult_le_mono2 [of "Suc (height v)" "height value" k] child(1) by simp
          moreover have "child \<in> set (nodes root)" using nodes_trans [OF Suc.prems(2)] child(2) JObj by blast
          moreover from this have "chain_ends root k child" using guarded by (auto simp: guarded_def list_all_iff)
          ultimately show ?thesis using Suc.IH [of k child v] Suc.prems(3) j x' by simp
        qed
        then have "those (map (\<lambda>(v, child, _). conforms feq root n v child) (child_checks d value [])) \<noteq> None"
          by (rule those_defined)
        then show ?thesis using JObj None by (auto simp add: other)
      qed
    qed
  qed (use Suc.prems in auto)
qed

text \<open>More fuel changes nothing.\<close>

lemma extend_issues_mono:
  assumes "\<And>x l r. x \<in> set xs \<Longrightarrow> f x l = Some r \<Longrightarrow> g x l = Some r"
  shows "extend_issues f limit issues xs = Some r \<Longrightarrow> extend_issues g limit issues xs = Some r"
  using assms
proof (induction xs arbitrary: issues)
  case (Cons x xs)
  then obtain found where found: "f x (limit - length issues) = Some found" by (auto split: option.splits)
  then have "g x (limit - length issues) = Some found" using Cons.prems(2) [of x] by simp
  moreover have "extend_issues f limit is xs = Some r \<Longrightarrow> extend_issues g limit is xs = Some r" for "is"
    by (rule Cons.IH) (use Cons.prems(2) in auto)
  ultimately show ?case using Cons.prems(1) found by (auto split: if_splits)
qed simp

lemma count_matches_mono:
  assumes "\<And>x r. x \<in> set xs \<Longrightarrow> f x = Some r \<Longrightarrow> g x = Some r"
  shows "count_matches f xs = Some r \<Longrightarrow> count_matches g xs = Some r"
  using assms
proof (induction xs arbitrary: r)
  case (Cons x xs)
  then obtain found m where "f x = Some found" "count_matches f xs = Some m" by (auto split: option.splits)
  moreover from this have "g x = Some found" "count_matches g xs = Some m"
    using Cons.prems(2) [of x] Cons.IH [of m] Cons.prems(2) by auto
  ultimately show ?case using Cons.prems(1) by simp
qed simp

lemma advisory_schema_issues_Suc:
  "advisory_schema_issues feq root n value schema path limit = Some r
    \<Longrightarrow> advisory_schema_issues feq root (Suc n) value schema path limit = Some r"
proof (induction n arbitrary: "value" schema path limit r)
  case (Suc n)
  note IH = Suc.IH
  show ?case
  proof (cases schema)
    case (JObj d)
    show ?thesis
    proof (cases "local_reference d")
      case (Some reference)
      show ?thesis
      proof (cases "resolve_reference root reference")
        case resolved: (Some resolved)
        then show ?thesis
          using Suc.prems IH [of "value" resolved path limit r] JObj Some by (simp del: advisory_schema_issues.simps add: advisory_schema_issues.simps(2) [of _ _ n] advisory_schema_issues.simps(2) [of _ _ "Suc n"])
      qed (use Suc.prems JObj Some in simp)
    next
      case None
      show ?thesis
      proof (cases "\<exists>alternatives. jget d ''oneOf'' = JArr alternatives")
        case True
        then obtain alternatives where alternatives: "jget d ''oneOf'' = JArr alternatives" by blast
        have "count_matches (\<lambda>x. advisory_schema_issues feq root (Suc n) value x path 1) alternatives = Some m"
          if "count_matches (\<lambda>x. advisory_schema_issues feq root n value x path 1) alternatives = Some m" for m
          by (rule count_matches_mono [OF _ that]) (rule IH)
        then show ?thesis using Suc.prems JObj None alternatives
          by (auto simp del: advisory_schema_issues.simps simp add: advisory_schema_issues.simps(2) [of _ _ n] advisory_schema_issues.simps(2) [of _ _ "Suc n"])
      next
        case False
        then have other: "(case jget d ''oneOf'' of JArr alternatives \<Rightarrow> f alternatives | _ \<Rightarrow> g) = g" for f and g :: 'x
          by (auto split: json.split)
        let ?f = "\<lambda>n (v, child, p) limit. advisory_schema_issues feq root n v child p limit"
        have "extend_issues (?f (Suc n)) limit issues xs = Some m" if "extend_issues (?f n) limit issues xs = Some m" for m issues xs
          by (rule extend_issues_mono [OF _ that]) (auto simp del: advisory_schema_issues.simps intro: IH)
        then show ?thesis using Suc.prems JObj None
          by (auto simp: other simp del: advisory_schema_issues.simps simp add: advisory_schema_issues.simps(2) [of _ _ n] advisory_schema_issues.simps(2) [of _ _ "Suc n"] split: option.splits)
      qed
    qed
  qed (use Suc.prems in auto)
qed simp

lemma advisory_schema_issues_mono:
  assumes "advisory_schema_issues feq root n value schema path limit = Some r" "n \<le> m"
  shows "advisory_schema_issues feq root m value schema path limit = Some r"
  using assms(2, 1) by (induction rule: dec_induct) (auto intro: advisory_schema_issues_Suc simp del: advisory_schema_issues.simps)

section \<open>Theorems\<close>

text \<open>
  A schema that names itself: its only property is a reference to a definition that is a reference to
  itself.
\<close>

definition endless_schema :: json where
  "endless_schema = JObj [(''type'', JStr ''object''), (''additionalProperties'', JBool False),
     (''properties'', JObj [(''a'', JObj [(''$ref'', JStr ''#/$defs/A'')])]),
     (''$defs'', JObj [(''A'', JObj [(''$ref'', JStr ''#/$defs/A'')])])]"

text \<open>A schema with a reference, alternatives, bounds and a closed list of properties.\<close>

definition person_schema :: json where
  "person_schema = JObj [(''type'', JStr ''object''), (''additionalProperties'', JBool False),
     (''required'', JArr [JStr ''name'']),
     (''properties'', JObj [(''name'', JObj [(''$ref'', JStr ''#/$defs/text'')]),
       (''tags'', JObj [(''type'', JStr ''array''), (''items'', JObj [(''oneOf'', JArr [JObj [(''$ref'', JStr ''#/$defs/text'')],
          JObj [(''type'', JStr ''integer'')]])]), (''maxItems'', JInt 2)])]),
     (''$defs'', JObj [(''text'', JObj [(''type'', JStr ''string''), (''minLength'', JInt 1)])])]"

text \<open>
  C8. The bounded check of an answer says what the reference says. Whenever the reference reaches a verdict,
  the check, started at any path and with any limit, ends; it reports at most \<open>limit\<close> issues; and when it may
  report any, it reports none exactly when the value conforms. So the early exits at the limit, and the limit
  of one inside a \<^verbatim>\<open>oneOf\<close>, never hide a violation nor invent one.
\<close>

theorem schema_check_reference:
  assumes "conforms feq root fuel value schema = Some b"
  shows "\<exists>is. advisory_schema_issues feq root fuel value schema path limit = Some is \<and> length is \<le> limit
    \<and> (0 < limit \<longrightarrow> (is = [] \<longleftrightarrow> b))"
  using conforms_agrees [OF assms, of path] issues_length unfolding agrees_def by meson

lemma schema_check_reference_witness:
  "\<exists>is. advisory_schema_issues (=) person_schema 9 (JObj [(''name'', JStr ''''), (''x'', JNull), (''tags'', JArr [JInt 1, JStr ''a'', JNull])])
      person_schema ''$'' 3 = Some is \<and> length is \<le> 3 \<and> (0 < (3::nat) \<longrightarrow> (is = [] \<longleftrightarrow> False))"
  by (rule schema_check_reference) code_simp

text \<open>A schema whose references and alternatives end.\<close>

lemma guarded_check_ends:
  assumes "guarded k root"
  shows "\<exists>is. length is \<le> limit \<and> (\<forall>fuel. k * (height value + 1) \<le> fuel
    \<longrightarrow> advisory_schema_issues feq root fuel value root path limit = Some is)"
proof -
  let ?depth = "k * (height value + 1)"
  have "chain_ends root k root" using assms by (simp add: guarded_def list_all_iff)
  from conforms_defined [OF assms this, of "value" ?depth feq] obtain b
    where "conforms feq root ?depth value root = Some b" by auto
  from conforms_agrees [OF this, of path] obtain "is"
    where "advisory_schema_issues feq root ?depth value root path limit = Some is"
    unfolding agrees_def by blast
  with advisory_schema_issues_mono issues_length show ?thesis by meson
qed

text \<open>
  C12. The check returns for a guarded schema, and only the guard makes it. If the references and alternatives of every
  node of the schema end within \<open>k\<close> steps, the check of any value against it returns one and the same report, of at
  most \<open>limit\<close> issues, for every recursion depth of at least \<open>k\<close> for each level of the value. The strict
  profile does not ask for that: a schema in which a definition is a reference to itself passes the profile, is
  guarded by no \<open>k\<close>, and the check of an answer with the property that leads there never returns: no
  recursion depth is enough.
\<close>

theorem schema_check_ends:
  "(\<forall>k. guarded k root \<longrightarrow> (\<exists>is. length is \<le> limit \<and> (\<forall>fuel. k * (height value + 1) \<le> fuel
      \<longrightarrow> advisory_schema_issues feq root fuel value root path limit = Some is)))
    \<and> (\<exists>d. validate_strict_schema_profile re_ok endless_schema = Inr d)
    \<and> (\<forall>k. \<not> guarded k endless_schema)
    \<and> (\<forall>fuel limit. 0 < limit \<longrightarrow> advisory_schema_issues feq endless_schema fuel (JObj [(''a'', v)]) endless_schema path limit = None)"
proof (intro conjI allI impI)
  show "\<exists>is. length is \<le> limit \<and> (\<forall>fuel. k * (height value + 1) \<le> fuel
      \<longrightarrow> advisory_schema_issues feq root fuel value root path limit = Some is)" if "guarded k root" for k
    by (rule guarded_check_ends [OF that])
  let ?loop = "JObj [(''$ref'', JStr ''#/$defs/A'')]"
  have reference: "local_reference [(''$ref'', JStr ''#/$defs/A'')] = Some ''$defs/A''"
    and resolved: "resolve_reference endless_schema ''$defs/A'' = Some ?loop"
    by (code_simp, code_simp)
  have loop: "advisory_schema_issues feq endless_schema fuel v ?loop path limit = None" for fuel v path limit
    by (induction fuel) (simp_all add: reference resolved)
  have chain: "\<not> chain_ends endless_schema k ?loop" for k
    by (induction k) (simp_all add: reference resolved)
  have "isl (validate_strict_schema_profile re_ok endless_schema) = False" by code_simp
  then show "\<exists>d. validate_strict_schema_profile re_ok endless_schema = Inr d"
    by (cases "validate_strict_schema_profile re_ok endless_schema") simp_all
  show "\<not> guarded k endless_schema" for k
    using chain [of k] by (simp add: guarded_def endless_schema_def)
  show "advisory_schema_issues feq endless_schema fuel (JObj [(''a'', v)]) endless_schema path limit = None"
    if "0 < limit" for fuel limit
    using loop that by (cases fuel) (simp_all add: endless_schema_def local_reference_def type_issue_def is_obj_def
      child_checks_def own_issues_def value_issues_def member_issues_def add_issues_def jkeys_def)
qed

lemma schema_check_ends_witness:
  "\<exists>is. length is \<le> 16 \<and> (\<forall>fuel. 3 * (height (JObj [(''tags'', JArr [])]) + 1) \<le> fuel
    \<longrightarrow> advisory_schema_issues (=) person_schema fuel (JObj [(''tags'', JArr [])]) person_schema ''$'' 16 = Some is)"
proof -
  have "guarded 3 person_schema" by code_simp
  then show ?thesis by (rule schema_check_ends [THEN conjunct1, rule_format])
qed

end
