(* ===== verification/StructuredJsonProvider.thy ===== *)
theory StructuredJsonProvider
  imports OpenAICompatible SchemaIssues TokenBudget CoreTaskExecutor
begin

text \<open>
  Structured generation (\<^verbatim>\<open>inference/structured_json_provider.py\<close>): from a profile and a contract to one
  provider request, at most one fallback in a less specialised mode, and a JSON object with its metadata.

  Parameters, in \<open>sj_env\<close>: the profile resolver, the secret store, the capability stores, the provider with its
  factory (its calls change a world \<open>'w\<close>), the comparison of floats, and the depth of recursion that the
  interpreter has left for the schema check. The contexts of the telemetry are not modelled. The default
  factory puts the OpenAI-compatible transport behind this interface.
\<close>

section \<open>Errors and the state\<close>

datatype sj_error =
    OutputBudgetExceeded int int string
  | InputBudgetExceeded nat nat string
  | StructuredJsonRequestError string
  | StructuredJsonCapabilityError string
  | StructuredJsonSecretError string
  | StructuredJsonResponseError string
  | StructuredJsonSchemaError string
  | RecursionError
  | FromProvider provider_error
  | FromResolver exec_error
  | FromPython exn

text \<open>\<^verbatim>\<open>normalize_error(exc)["code"]\<close> of the two classes that are caught.\<close>

definition sj_error_code :: "sj_error \<Rightarrow> string" where
  "sj_error_code e = (case e of
     FromProvider p \<Rightarrow> error_code p | StructuredJsonResponseError _ \<Rightarrow> ''invalid_json_response'' | _ \<Rightarrow> ''provider_error'')"

definition falls_back :: "sj_error \<Rightarrow> bool" where
  "falls_back e = (case e of FromProvider p \<Rightarrow> is_response_error p | StructuredJsonResponseError _ \<Rightarrow> True | _ \<Rightarrow> False)"

text \<open>A store as the loader sees it: the methods it has.\<close>

record capability_store =
  cs_for_profile :: "(generation_profile \<Rightarrow> provider_capabilities option) option"
  cs_get :: "(string \<Rightarrow> provider_capabilities option) option"

record ('p, 'w) sj_env =
  env_resolve :: "string \<Rightarrow> string \<Rightarrow> exec_error + generation_profile"
  env_secret :: "string \<Rightarrow> exn + string"
  env_stores :: "capability_store list"
  env_database :: "capability_store option"
  env_factory :: "generation_profile \<Rightarrow> string \<Rightarrow> provider_error + 'p"
  env_complete :: "'p \<Rightarrow> completion_request \<Rightarrow> ('w, provider_error, completion_response) eff"
  env_record :: "string \<times> string \<times> string \<times> string \<Rightarrow> exn option"
  env_max_output_bytes :: nat
  env_max_chars :: nat
  env_re_ok :: "string \<Rightarrow> bool"
  env_feq :: "json \<Rightarrow> json \<Rightarrow> bool"
  env_float_text :: "int \<Rightarrow> string"
  env_depth :: nat

record 'w sj_state =
  ss_world :: 'w
  ss_secrets :: "string list"
  ss_opened :: nat
  ss_closed :: nat
  ss_calls :: "completion_request list"
  ss_fallbacks :: "(string \<times> string \<times> string \<times> string) list"

type_synonym ('w, 'a) sj = "('w sj_state, sj_error, 'a) eff"

text \<open>The arguments of \<^verbatim>\<open>generate_json\<close> that matter to the result.\<close>

record generate_args =
  ga_memory_space_id :: string
  ga_messages :: "(string \<times> string) list"
  ga_max_output_tokens :: int
  ga_profile_slot :: string
  ga_response_format :: "(string \<times> json) list option"
  ga_output_contract :: "(string \<times> json) list option"
  ga_structured_output_requirement :: "(string \<times> json) list option"
  ga_mode :: "string option"
  ga_structured_output_mode :: "string option"
  ga_tool_name :: "string option"
  ga_metadata :: "(string \<times> json) list"
  ga_seed :: "int option"
  ga_force_provider_fallback :: bool

section \<open>Profiles and modes\<close>

definition MODE_ORDER :: "string list" where
  "MODE_ORDER = [STRICT_JSON_SCHEMA_MODE, ''json_schema'', ''tool_call'', ''json_object'', ''prompt_only'']"

definition route_names :: "json list \<Rightarrow> string list" where
  "route_names order = List.map_filter (\<lambda>r. case r of JStr s \<Rightarrow> if blank s then None else Some (strip s) | _ \<Rightarrow> None) order"

definition forced_fallback_profile :: "generation_profile \<Rightarrow> generation_profile \<times> string option" where
  "forced_fallback_profile p =
     (case jget (gp_extra_body p) ''provider'' of
        JObj options \<Rightarrow>
          (case jget options ''order'' of
             JArr order \<Rightarrow>
               (case route_names order of
                  _ # route # routes \<Rightarrow>
                    let fallback_routes = JArr (map JStr (route # routes));
                        narrowed = dict_merge options [(''order'', fallback_routes), (''only'', fallback_routes),
                          (''allow_fallbacks'', JBool (routes \<noteq> []))]
                    in (p\<lparr>gp_extra_body := AList.update ''provider'' (JObj narrowed) (gp_extra_body p)\<rparr>, Some route)
                | _ \<Rightarrow> (p, None))
           | _ \<Rightarrow> (p, None))
      | _ \<Rightarrow> (p, None))"

fun first_capabilities :: "generation_profile \<Rightarrow> string \<Rightarrow> capability_store list \<Rightarrow> provider_capabilities option" where
  "first_capabilities p fingerprint [] = None"
| "first_capabilities p fingerprint (s # stores) =
     (case (case cs_for_profile s of Some f \<Rightarrow> f p | None \<Rightarrow> None) of
        Some c \<Rightarrow> Some c
      | None \<Rightarrow>
         (case (case cs_get s of Some g \<Rightarrow> g (gp_profile_id p) | None \<Rightarrow> None) of
            Some c \<Rightarrow> if cap_profile_fingerprint c \<noteq> [] \<and> \<not> is_fresh c fingerprint
              then first_capabilities p fingerprint stores else Some c
          | None \<Rightarrow> first_capabilities p fingerprint stores))"

definition load_capabilities ::
  "('p, 'w) sj_env \<Rightarrow> generation_profile \<Rightarrow> string option \<Rightarrow> provider_capabilities option" where
  "load_capabilities env p structured_output_override =
     (case first_capabilities p (generation_profile_fingerprint p structured_output_override) (env_stores env) of
        Some c \<Rightarrow> Some c
      | None \<Rightarrow>
         (case env_database env of
            None \<Rightarrow> None
          | Some s \<Rightarrow>
             (case cs_for_profile s of
                Some f \<Rightarrow> f p
              | None \<Rightarrow> (case cs_get s of Some g \<Rightarrow> g (gp_profile_id p) | None \<Rightarrow> None))))"

definition normalize_contract_and_mode ::
  "generate_args \<Rightarrow> sj_error + ((string \<times> json) list option \<times> string option)" where
  "normalize_contract_and_mode a =
     raise_if (case (ga_mode a, ga_structured_output_mode a) of (Some m, Some n) \<Rightarrow> m \<noteq> n | _ \<Rightarrow> False)
       (StructuredJsonRequestError ''conflicting structured output modes'')
     (let selected = text_or (ga_mode a) (ga_structured_output_mode a); contract = ga_output_contract a in
      case ga_response_format a of
        None \<Rightarrow> Inr (contract, selected)
      | Some f \<Rightarrow>
          if jget f ''type'' = JStr ''json_object'' then Inr (contract, Some ''json_object'')
          else if jget f ''type'' = JStr ''json_schema'' then
            Inr ((case jget f ''json_schema'' of
                JObj sc \<Rightarrow>
                  (case jget sc ''schema'' of
                     JObj d \<Rightarrow> Some [(''contract_name'', jget_default sc ''name'' (JStr ''structured_result'')), (''json_schema'', JObj d)]
                   | _ \<Rightarrow> Some sc)
              | _ \<Rightarrow> contract), Some ''json_schema'')
          else Inl (StructuredJsonRequestError ''response_format must be json_object or json_schema''))"

text \<open>The strict requirement, where one is given or the strict mode is asked for.\<close>

definition validated_requirement ::
  "('p, 'w) sj_env \<Rightarrow> generate_args \<Rightarrow> (string \<times> json) list option \<Rightarrow> string option
     \<Rightarrow> sj_error + ((string \<times> json) list option \<times> string option)" where
  "validated_requirement env a contract requested_mode =
     (if ga_structured_output_requirement a \<noteq> None \<or> requested_mode = Some STRICT_JSON_SCHEMA_MODE then
        raise_if (requested_mode \<notin> {None, Some ''auto'', Some STRICT_JSON_SCHEMA_MODE})
          (StructuredJsonRequestError ''strict structured output cannot be combined with a legacy mode'')
        (case validate_strict_requirement (env_re_ok env) (opt_obj (ga_structured_output_requirement a)) (opt_obj contract) of
           Inl _ \<Rightarrow> Inl (StructuredJsonRequestError ''strict structured output requirement is invalid'')
         | Inr r \<Rightarrow> Inr (case requirement_json r of JObj d \<Rightarrow> Some d | _ \<Rightarrow> None, Some STRICT_JSON_SCHEMA_MODE))
      else Inr (None, requested_mode))"

definition select_mode ::
  "('p, 'w) sj_env \<Rightarrow> generation_profile \<Rightarrow> string option \<Rightarrow> (string \<times> json) list option \<Rightarrow> sj_error + string" where
  "select_mode env p requested_mode response_format =
     (if (case response_format of None \<Rightarrow> False | Some f \<Rightarrow> jget f ''type'' = JStr ''json_object'') then Inr ''json_object''
      else
        let candidate = (case requested_mode of Some (c # m) \<Rightarrow> c # m | _ \<Rightarrow> gp_structured_output_preference p) in
        if candidate \<noteq> ''auto'' then Inr candidate
        else case load_capabilities env p None of
            None \<Rightarrow> Inr ''json_object''
          | Some c \<Rightarrow>
             (case find (supports c) MODE_ORDER of
                Some mode \<Rightarrow> Inr mode
              | None \<Rightarrow>
                  raise_if (cap_probe_status c = ''passed'')
                    (StructuredJsonRequestError ''provider has no persisted structured output capability'')
                  (Inr ''json_object'')))"

definition automatic_fallback_mode ::
  "generation_profile \<Rightarrow> string option \<Rightarrow> (string \<times> json) list option \<Rightarrow> string \<Rightarrow> string option" where
  "automatic_fallback_mode p requested_mode response_format selected_mode =
     (if response_format \<noteq> None then None
      else if requested_mode \<notin> {None, Some ''auto''} then None
      else if gp_structured_output_preference p \<noteq> ''auto'' then None
      else if selected_mode \<in> {''json_schema'', ''tool_call''} then Some ''json_object''
      else if selected_mode = ''json_object'' then Some ''prompt_only''
      else None)"

definition build_request ::
  "generation_profile \<Rightarrow> generate_args \<Rightarrow> (string \<times> json) list option \<Rightarrow> (string \<times> json) list option \<Rightarrow> string
     \<Rightarrow> sj_error + completion_request" where
  "build_request p a contract requirement mode =
     raise_if (ga_messages a = []) (StructuredJsonRequestError ''messages must not be empty'')
     (raise_if (mode \<in> {''strict_json_schema'', ''json_schema''}
         \<and> \<not> (case contract of None \<Rightarrow> False | Some c \<Rightarrow> is_obj (jget c ''json_schema'')))
       (StructuredJsonRequestError ''json_schema mode requires an output contract schema'')
     (case new_completion_request
         \<lparr>cq_model = gp_model p, cq_messages = ga_messages a, cq_max_output_tokens = ga_max_output_tokens a,
          cq_response_format = None, cq_output_contract = contract, cq_structured_output_requirement = requirement,
          cq_mode = mode, cq_tool_name = ga_tool_name a, cq_metadata = ga_metadata a,
          cq_token_parameter = Some (gp_token_parameter p), cq_supports_system_role = Some (gp_supports_system_role p),
          cq_supports_seed = Some (gp_supports_seed p), cq_seed = ga_seed a\<rparr> of
        Inl _ \<Rightarrow> Inl (StructuredJsonRequestError ''model request is invalid'')
      | Inr q \<Rightarrow> Inr q))"

text \<open>What the estimator reads of a request, and the budget check with the profile set on its error.\<close>

definition estimated_request :: "completion_request \<Rightarrow> model_request" where
  "estimated_request q = \<lparr>mr_contents = map snd (cq_messages q), mr_response_format = cq_response_format q,
     mr_output_contract = cq_output_contract q, mr_tool_name = cq_tool_name q\<rparr>"

definition ensure_input_budget :: "('p, 'w) sj_env \<Rightarrow> generation_profile \<Rightarrow> completion_request \<Rightarrow> sj_error + nat" where
  "ensure_input_budget env p q =
     (case ensure_within (env_max_chars env) (estimated_request q) (gp_max_input_tokens p) of
        Inr n \<Rightarrow> Inr n
      | Inl (InputBudgetExceededError n m) \<Rightarrow> Inl (InputBudgetExceeded n m (gp_profile_id p))
      | Inl e \<Rightarrow> Inl (FromPython e))"

section \<open>The result\<close>

definition contract_digest :: "(string \<times> json) list option \<Rightarrow> string option" where
  "contract_digest contract =
     (case contract of
        None \<Rightarrow> None
      | Some c \<Rightarrow>
         (case (if jget c ''schema_digest'' = JNull then jget c ''contract_digest'' else jget c ''schema_digest'') of
            JStr (x # d) \<Rightarrow> Some (x # d) | _ \<Rightarrow> None))"

definition issue_json :: "issue \<Rightarrow> json" where
  "issue_json i = (case i of (path, code, message) \<Rightarrow>
     JObj [(''path'', JStr path), (''code'', JStr code), (''message'', JStr message)])"

definition result_metadata ::
  "(int \<Rightarrow> string) \<Rightarrow> completion_response \<Rightarrow> (string \<times> json) list \<Rightarrow> string \<Rightarrow> issue list \<Rightarrow> (string \<times> json) list" where
  "result_metadata float_text r parsed raw_text issues =
     (let m = dict_merge (pa_metadata r) [(''normalized_usage'', JObj (normalize_usage float_text (pa_metadata r))),
            (''parsed_json'', JObj parsed), (''raw_text'', JStr raw_text)];
          m = (case jget m ''request_id'' of
                 JStr (c # i) \<Rightarrow> AList.update ''provider_request_id'' (JStr (c # i)) m | _ \<Rightarrow> m);
          m = (if is_str (jget m ''finish_reason'') then m else AList.update ''finish_reason'' JNull m)
      in dict_merge m [(''transport_error'', JNull), (''local_validation_issues'', JArr (map issue_json issues))])"

definition to_result ::
  "('p, 'w) sj_env \<Rightarrow> generation_profile \<Rightarrow> completion_response \<Rightarrow> (string \<times> json) list option \<Rightarrow> string \<Rightarrow> string option
     \<Rightarrow> sj_error + structured_result" where
  "to_result env p r contract selected_mode tool_name =
     raise_if (env_max_output_bytes env < pa_response_bytes r)
       (StructuredJsonResponseError ''provider response exceeds size limit'')
     (case decode_json_content (pa_content r) of
        Inl _ \<Rightarrow> Inl (StructuredJsonResponseError ''provider response is not valid JSON'')
      | Inr (JObj parsed) \<Rightarrow>
          let schema = (case contract of Some c \<Rightarrow> jget c ''json_schema'' | None \<Rightarrow> JNull);
              raw_text = (case pa_raw_text r of Some (c # t) \<Rightarrow> c # t | _ \<Rightarrow> pa_content r)
          in (case advisory_schema_issues (env_feq env) schema (env_depth env) (JObj parsed) schema ''$'' 16 of
                None \<Rightarrow> Inl RecursionError
              | Some issues \<Rightarrow>
                  raise_if (case contract_digest contract of None \<Rightarrow> False | Some d \<Rightarrow> 200 < char_count d)
                    (FromPython (ValueError ''validation error''))
                  (Inr \<lparr>sj_data = parsed, sj_raw_text = raw_text, sj_profile_id = gp_profile_id p,
                     sj_provider = gp_provider_kind p, sj_model = pa_model r, sj_attempts = pa_attempts r,
                     sj_request_bytes = pa_request_bytes r, sj_response_bytes = pa_response_bytes r,
                     sj_status_code = pa_status_code r, sj_structured_output_mode = selected_mode,
                     sj_contract_digest = contract_digest contract,
                     sj_tool_name = text_or (text_or tool_name (pa_tool_name r))
                       (if selected_mode = ''tool_call'' then Some DEFAULT_TOOL_NAME else None),
                     sj_metadata = result_metadata (env_float_text env) r parsed raw_text issues,
                     sj_token_usage = (case jget (pa_metadata r) ''usage'' of JObj u \<Rightarrow> Some u | _ \<Rightarrow> None),
                     sj_normalized_usage = normalize_usage (env_float_text env) (pa_metadata r)\<rparr>))
      | Inr _ \<Rightarrow> Inl (StructuredJsonResponseError ''provider response must be a JSON object''))"

definition native_schema_valid :: "structured_result \<Rightarrow> bool" where
  "native_schema_valid r = (case jget (sj_metadata r) ''local_validation_issues'' of JArr xs \<Rightarrow> xs = [] | _ \<Rightarrow> True)"

definition add_metadata :: "(string \<times> json) list \<Rightarrow> structured_result \<Rightarrow> structured_result" where
  "add_metadata ps r = r\<lparr>sj_metadata := dict_merge (sj_metadata r) ps\<rparr>"

section \<open>The call\<close>

definition read_secret :: "('p, 'w) sj_env \<Rightarrow> string \<Rightarrow> ('w, string) sj" where
  "read_secret env secret_ref st =
     (case env_secret env secret_ref of
        Inr s \<Rightarrow> Inr s
      | Inl (KeyError _) \<Rightarrow> Inl (StructuredJsonSecretError ''configured provider secret is not present'')
      | Inl e \<Rightarrow> Inl (FromPython e),
      st\<lparr>ss_secrets := ss_secrets st @ [secret_ref]\<rparr>)"

definition open_provider :: "('p, 'w) sj_env \<Rightarrow> generation_profile \<Rightarrow> string \<Rightarrow> ('w, 'p) sj" where
  "open_provider env p secret st =
     (case env_factory env p secret of
        Inl e \<Rightarrow> (Inl (FromProvider e), st)
      | Inr provider \<Rightarrow> (Inr provider, st\<lparr>ss_opened := ss_opened st + 1\<rparr>))"

definition call_provider :: "('p, 'w) sj_env \<Rightarrow> 'p \<Rightarrow> completion_request \<Rightarrow> ('w, completion_response) sj" where
  "call_provider env provider q st =
     (let (r, w) = env_complete env provider q (ss_world st) in
      (case r of Inl e \<Rightarrow> Inl (FromProvider e) | Inr x \<Rightarrow> Inr x,
       st\<lparr>ss_world := w, ss_calls := ss_calls st @ [q]\<rparr>))"

definition close_provider :: "('w, unit) sj" where
  "close_provider st = (Inr (), st\<lparr>ss_closed := ss_closed st + 1\<rparr>)"

definition record_capability_fallback ::
  "('p, 'w) sj_env \<Rightarrow> string \<Rightarrow> string \<Rightarrow> string \<Rightarrow> string \<Rightarrow> ('w, unit) sj" where
  "record_capability_fallback env profile_id failed_mode successful_mode code st =
     (case env_record env (profile_id, failed_mode, successful_mode, code) of None \<Rightarrow> Inr () | Some e \<Rightarrow> Inl (FromPython e),
      st\<lparr>ss_fallbacks := ss_fallbacks st @ [(profile_id, failed_mode, successful_mode, code)]\<rparr>)"

text \<open>\<^verbatim>\<open>try ... finally\<close>.\<close>

definition efinally :: "('s, 'e, 'a) eff \<Rightarrow> ('s, 'e, unit) eff \<Rightarrow> ('s, 'e, 'a) eff" where
  "efinally m f = ebind (ecatch m (\<lambda>e. ebind f (\<lambda>_. eraise e))) (\<lambda>x. ebind f (\<lambda>_. ereturn x))"

definition execute_and_parse ::
  "('p, 'w) sj_env \<Rightarrow> 'p \<Rightarrow> generation_profile \<Rightarrow> generate_args \<Rightarrow> (string \<times> json) list option \<Rightarrow> completion_request
     \<Rightarrow> string \<Rightarrow> ('w, structured_result) sj" where
  "execute_and_parse env provider p a contract q mode =
     ebind (call_provider env provider q) (\<lambda>response. elift (to_result env p response contract mode (ga_tool_name a)))"

text \<open>The first call, and the one fallback after an answer that cannot be used.\<close>

definition fallback_metadata :: "string \<Rightarrow> string \<Rightarrow> sj_error \<Rightarrow> (string \<times> json) list" where
  "fallback_metadata selected_mode fallback_mode e =
     [(''structured_output_fallback'', JBool True), (''structured_output_fallback_from'', JStr selected_mode),
      (''structured_output_fallback_to'', JStr fallback_mode), (''structured_output_fallback_error_code'', JStr (sj_error_code e))]"

definition run_with_fallback ::
  "('p, 'w) sj_env \<Rightarrow> 'p \<Rightarrow> generation_profile \<Rightarrow> generate_args \<Rightarrow> (string \<times> json) list option \<Rightarrow> (string \<times> json) list option
     \<Rightarrow> string option \<Rightarrow> string \<Rightarrow> completion_request \<Rightarrow> ('w, structured_result \<times> (string \<times> json) list) sj" where
  "run_with_fallback env provider p a contract requirement requested_mode selected_mode q =
     ecatch (ebind (execute_and_parse env provider p a contract q selected_mode) (\<lambda>r. ereturn (r, [])))
     (\<lambda>e.
        if \<not> falls_back e then eraise e
        else case automatic_fallback_mode p requested_mode (ga_response_format a) selected_mode of
            None \<Rightarrow> eraise e
          | Some fallback_mode \<Rightarrow>
              ebind (elift (build_request p a contract requirement fallback_mode)) (\<lambda>fallback_request.
              ebind (elift (ensure_input_budget env p fallback_request)) (\<lambda>_.
              ebind (execute_and_parse env provider p a contract fallback_request fallback_mode) (\<lambda>r.
              ebind (record_capability_fallback env (gp_profile_id p) selected_mode fallback_mode (sj_error_code e)) (\<lambda>_.
              ereturn (r, fallback_metadata selected_mode fallback_mode e))))))"

text \<open>The part of \<^verbatim>\<open>generate_json\<close> from the secret on, then the whole.\<close>

definition generate_planned ::
  "('p, 'w) sj_env \<Rightarrow> generate_args \<Rightarrow> generation_profile \<Rightarrow> (string \<times> json) list option \<Rightarrow> (string \<times> json) list option
     \<Rightarrow> string option \<Rightarrow> string \<Rightarrow> completion_request \<Rightarrow> ('w, structured_result) sj" where
  "generate_planned env a p contract requirement requested_mode selected_mode q =
     ebind (read_secret env (gp_secret_ref p)) (\<lambda>secret.
     let capabilities = load_capabilities env p requested_mode;
         strict_request = (requested_mode = Some STRICT_JSON_SCHEMA_MODE \<or> requirement \<noteq> None)
     in if strict_request \<and> (case capabilities of
             None \<Rightarrow> True
           | Some c \<Rightarrow> \<not> is_fresh c (generation_profile_fingerprint p requested_mode) \<or> \<not> supports c STRICT_JSON_SCHEMA_MODE)
        then eraise (StructuredJsonCapabilityError
          ''strict provider/model capability has not been verified by a successful probe'')
        else
          let (transport_profile, forced_route) = (if ga_force_provider_fallback a then forced_fallback_profile p else (p, None))
          in ebind (open_provider env transport_profile secret) (\<lambda>provider.
             ebind (efinally (run_with_fallback env provider p a contract requirement requested_mode selected_mode q) close_provider)
               (\<lambda>(r, fallback).
             let r = (if fallback = [] then r else add_metadata fallback r);
                 r = (case forced_route of None \<Rightarrow> r | Some route \<Rightarrow> add_metadata
                   [(''forced_provider_fallback'', JBool True), (''forced_provider_route'', JStr route)] r)
             in if strict_request \<and> \<not> native_schema_valid r
                then eraise (StructuredJsonSchemaError ''provider response violates the requested strict JSON Schema'')
                else ereturn r)))"

definition generate_json :: "('p, 'w) sj_env \<Rightarrow> generate_args \<Rightarrow> ('w, structured_result) sj" where
  "generate_json env a =
     ebind (elift (map_sum FromResolver id (env_resolve env (ga_memory_space_id a) (ga_profile_slot a)))) (\<lambda>p.
     if gp_max_output_tokens p < ga_max_output_tokens a
     then eraise (OutputBudgetExceeded (ga_max_output_tokens a) (gp_max_output_tokens p) (gp_profile_id p))
     else
     ebind (elift (normalize_contract_and_mode a)) (\<lambda>(contract, mode).
     ebind (elift (validated_requirement env a contract mode)) (\<lambda>(requirement, requested_mode).
     ebind (elift (select_mode env p requested_mode (ga_response_format a))) (\<lambda>selected_mode.
     ebind (elift (build_request p a contract requirement selected_mode)) (\<lambda>q.
     ebind (elift (ensure_input_budget env p q)) (\<lambda>_.
     generate_planned env a p contract requirement requested_mode selected_mode q))))))"

section \<open>The default provider\<close>

datatype transport_provider = GoogleTransport | OpenAITransport openai_provider

definition default_provider_factory :: "generation_profile \<Rightarrow> string \<Rightarrow> provider_error + transport_provider" where
  "default_provider_factory p secret =
     (if gp_provider_kind p = ''google_genai'' then Inr GoogleTransport
      else if gp_provider_kind p \<in> {''openai_compatible'', ''nvidia_nim''} then
        map_sum id OpenAITransport (new_openai_provider (gp_base_url p) secret (int (gp_timeout_ms p)) (int (gp_max_retries p))
          2000000 250 [(''connect_timeout_seconds'', None), (''read_timeout_seconds'', None), (''write_timeout_seconds'', None),
            (''pool_timeout_seconds'', None)]
          (gp_token_parameter p) (gp_supports_system_role p) (gp_supports_seed p) (Some (gp_extra_body p))
          (if gp_provider_kind p = ''nvidia_nim'' then Some ''nvidia_guided_json'' else None)
          (Some (generation_profile_fingerprint p None)))
      else Inl (ProviderConfigurationError ''unsupported inference provider kind''))"

text \<open>
  The \<open>i\<close>-th post of a request asks the network for its next answer; a Google transport is not configured.
\<close>

definition complete_json ::
  "(int \<Rightarrow> string) \<Rightarrow> (nat \<Rightarrow> http_outcome) \<Rightarrow> token_view option \<Rightarrow> transport_provider \<Rightarrow> completion_request
     \<Rightarrow> completion_response transport" where
  "complete_json float_text network token provider q =
     (case provider of
        GoogleTransport \<Rightarrow> eraise (ProviderConfigurationError
          ''Google Generative Language transport is not configured in this Local build'')
      | OpenAITransport p \<Rightarrow>
          (\<lambda>st. openai_request float_text (\<lambda>i. network (length (tl_posts st) + i)) p token q st))"

section \<open>The parts of a call\<close>

lemma efinally_cases:
  "efinally m close_provider st = (r, st') \<longleftrightarrow> (\<exists>u. m st = (r, u) \<and> st' = u\<lparr>ss_closed := ss_closed u + 1\<rparr>)"
  by (cases "m st"; cases "fst (m st)") (auto simp: efinally_def ebind_def ecatch_def close_provider_def)

lemma new_completion_request_same:
  "new_completion_request q = Inr q' \<Longrightarrow> q' = q\<lparr>cq_model := strip (cq_model q)\<rparr>"
  by (simp add: new_completion_request_def res_simps)

lemma build_request_fields:
  assumes "build_request p a contract requirement mode = Inr q"
  shows "cq_mode q = mode" "cq_messages q = ga_messages a" "cq_output_contract q = contract"
    "cq_structured_output_requirement q = requirement" "cq_response_format q = None" "cq_tool_name q = ga_tool_name a"
    "mode \<in> {''strict_json_schema'', ''json_schema''} \<Longrightarrow> \<exists>c d. contract = Some c \<and> jget c ''json_schema'' = JObj d"
  using assms by (auto simp: build_request_def res_simps is_obj_def dest!: new_completion_request_same split: sum.splits option.splits json.splits)

lemma estimated_request_mode:
  assumes "build_request p a contract requirement m = Inr q" "build_request p a contract requirement' m' = Inr q'"
  shows "estimated_request q' = estimated_request q"
  using build_request_fields [OF assms(1)] build_request_fields [OF assms(2)] by (simp add: estimated_request_def)

lemma ensure_input_budget_Inr:
  "ensure_input_budget env p q = Inr n \<Longrightarrow> int (fst (estimate_request (env_max_chars env) (estimated_request q))) \<le> gp_max_input_tokens p"
  by (auto simp: ensure_input_budget_def ensure_within_def Let_def res_simps split: sum.splits exn.splits)

text \<open>The worlds that a sequence of calls leads through.\<close>

fun after_calls ::
  "('p \<Rightarrow> completion_request \<Rightarrow> ('w, provider_error, completion_response) eff) \<Rightarrow> 'p \<Rightarrow> completion_request list \<Rightarrow> 'w \<Rightarrow> 'w" where
  "after_calls complete provider [] w = w"
| "after_calls complete provider (q # qs) w = after_calls complete provider qs (snd (complete provider q w))"

text \<open>
  What a client may rely on in a transport whose calls have a bounded cost: any number of calls costs at most
  that many times the limit.
\<close>

locale bounded_transport =
  fixes complete :: "'p \<Rightarrow> completion_request \<Rightarrow> ('w, provider_error, completion_response) eff"
    and cost :: "'w \<Rightarrow> nat"
    and limit :: "'p \<Rightarrow> nat"
  assumes call_cost: "cost (snd (complete provider q w)) \<le> cost w + limit provider"
begin

lemma calls_cost: "cost (after_calls complete provider cs w) \<le> cost w + length cs * limit provider"
proof (induction cs arbitrary: w)
  case (Cons q cs)
  show ?case using Cons [of "snd (complete provider q w)"] call_cost [of provider q w] by simp
qed simp

end

lemma execute_and_parse_cases:
  assumes "execute_and_parse env provider p a contract q mode st = (r, st')"
  shows "st' = st\<lparr>ss_world := after_calls (env_complete env) provider [q] (ss_world st), ss_calls := ss_calls st @ [q]\<rparr>"
    "r = Inr x \<Longrightarrow> \<exists>response. to_result env p response contract mode (ga_tool_name a) = Inr x"
proof -
  have "st' = st\<lparr>ss_world := after_calls (env_complete env) provider [q] (ss_world st), ss_calls := ss_calls st @ [q]\<rparr>
      \<and> (r = Inr x \<longrightarrow> (\<exists>response. to_result env p response contract mode (ga_tool_name a) = Inr x))"
    using assms by (auto simp: execute_and_parse_def call_provider_def ebind_def Let_def split: prod.splits sum.splits)
  then show "st' = st\<lparr>ss_world := after_calls (env_complete env) provider [q] (ss_world st), ss_calls := ss_calls st @ [q]\<rparr>"
    "r = Inr x \<Longrightarrow> \<exists>response. to_result env p response contract mode (ga_tool_name a) = Inr x" by auto
qed

lemma automatic_fallback_mode_Some:
  "automatic_fallback_mode p requested_mode response_format m = Some m' \<Longrightarrow>
     response_format = None \<and> requested_mode \<in> {None, Some ''auto''} \<and> gp_structured_output_preference p = ''auto''
     \<and> (m, m') \<in> {(''json_schema'', ''json_object''), (''tool_call'', ''json_object''), (''json_object'', ''prompt_only'')}"
  by (auto simp: automatic_fallback_mode_def split: if_splits)

text \<open>What a run of the provider did, whatever its outcome.\<close>

lemma run_with_fallback_calls:
  assumes "run_with_fallback env provider p a contract requirement requested_mode selected_mode q st = (r, st')"
  shows "\<exists>cs. cs \<in> {[q]} \<union> {[q, q'] | q'. \<exists>m n. automatic_fallback_mode p requested_mode (ga_response_format a) selected_mode = Some m
         \<and> build_request p a contract requirement m = Inr q' \<and> ensure_input_budget env p q' = Inr n}
    \<and> ss_calls st' = ss_calls st @ cs \<and> ss_world st' = after_calls (env_complete env) provider cs (ss_world st)
    \<and> ss_opened st' = ss_opened st \<and> ss_closed st' = ss_closed st \<and> ss_secrets st' = ss_secrets st"
proof -
  obtain r1 s1 where first: "execute_and_parse env provider p a contract q selected_mode st = (r1, s1)" by fastforce
  note s1 = execute_and_parse_cases(1) [OF first]
  show ?thesis
  proof (cases "r1")
    case (Inr x)
    then have "st' = s1" using assms first by (auto simp: run_with_fallback_def ebind_def ecatch_def)
    then show ?thesis using s1 by (intro exI [of _ "[q]"]) simp
  next
    case (Inl e)
    show ?thesis
    proof (cases "\<exists>m q' n. falls_back e \<and> automatic_fallback_mode p requested_mode (ga_response_format a) selected_mode = Some m
         \<and> build_request p a contract requirement m = Inr q' \<and> ensure_input_budget env p q' = Inr n")
      case True
      then obtain m q' n where m: "falls_back e" "automatic_fallback_mode p requested_mode (ga_response_format a) selected_mode = Some m"
        "build_request p a contract requirement m = Inr q'" "ensure_input_budget env p q' = Inr n" by blast
      obtain r2 s2 where second: "execute_and_parse env provider p a contract q' m s1 = (r2, s2)" by fastforce
      have "ss_calls st' = ss_calls s2 \<and> ss_world st' = ss_world s2 \<and> ss_opened st' = ss_opened s2
          \<and> ss_closed st' = ss_closed s2 \<and> ss_secrets st' = ss_secrets s2"
        using assms first Inl m second
        by (cases r2) (auto simp: run_with_fallback_def ebind_def ecatch_def record_capability_fallback_def split: option.splits)
      with execute_and_parse_cases(1) [OF second] s1 m show ?thesis by (intro exI [of _ "[q, q']"]) auto
    next
      case False
      then have "st' = s1" using assms first Inl
        by (auto simp: run_with_fallback_def ebind_def ecatch_def split: if_splits option.splits sum.splits)
      then show ?thesis using s1 by (intro exI [of _ "[q]"]) simp
    qed
  qed
qed

lemma run_without_fallback:
  assumes "run_with_fallback env provider p a contract requirement requested_mode selected_mode q st = (Inr (x, fallback), st')"
    and "automatic_fallback_mode p requested_mode (ga_response_format a) selected_mode = None"
  shows "execute_and_parse env provider p a contract q selected_mode st = (Inr x, st') \<and> fallback = []"
  using assms by (auto simp: run_with_fallback_def ebind_cases ecatch_cases split: if_splits)

text \<open>Everything that is decided before the secret is read.\<close>

definition planned ::
  "('p, 'w) sj_env \<Rightarrow> generate_args \<Rightarrow> generation_profile \<Rightarrow> (string \<times> json) list option \<Rightarrow> (string \<times> json) list option
     \<Rightarrow> string option \<Rightarrow> string \<Rightarrow> completion_request \<Rightarrow> bool" where
  "planned env a p contract requirement requested_mode selected_mode q \<longleftrightarrow>
     env_resolve env (ga_memory_space_id a) (ga_profile_slot a) = Inr p
     \<and> ga_max_output_tokens a \<le> gp_max_output_tokens p
     \<and> (\<exists>mode. normalize_contract_and_mode a = Inr (contract, mode)
         \<and> validated_requirement env a contract mode = Inr (requirement, requested_mode))
     \<and> select_mode env p requested_mode (ga_response_format a) = Inr selected_mode
     \<and> build_request p a contract requirement selected_mode = Inr q
     \<and> (\<exists>n. ensure_input_budget env p q = Inr n)"

definition strict_capable :: "('p, 'w) sj_env \<Rightarrow> generation_profile \<Rightarrow> string option \<Rightarrow> bool" where
  "strict_capable env p requested_mode = (case load_capabilities env p requested_mode of
     None \<Rightarrow> False
   | Some c \<Rightarrow> is_fresh c (generation_profile_fingerprint p requested_mode) \<and> supports c STRICT_JSON_SCHEMA_MODE)"

definition finished :: "(string \<times> json) list \<Rightarrow> string option \<Rightarrow> structured_result \<Rightarrow> structured_result" where
  "finished fallback route r =
     (let r = (if fallback = [] then r else add_metadata fallback r) in
      case route of None \<Rightarrow> r | Some x \<Rightarrow> add_metadata
        [(''forced_provider_fallback'', JBool True), (''forced_provider_route'', JStr x)] r)"

lemma elift_bind: "ebind (elift x) f s = (case x of Inl e \<Rightarrow> (Inl e, s) | Inr y \<Rightarrow> f y s)"
  by (simp add: ebind_def split: sum.split)

lemma generate_json_split:
  assumes "generate_json env a st = (r, st')"
  obtains (unresolved) "st' = st" "isl r"
  | (planned) p contract requirement requested_mode selected_mode q where
      "planned env a p contract requirement requested_mode selected_mode q"
      "generate_planned env a p contract requirement requested_mode selected_mode q st = (r, st')"
proof -
  have "(st' = st \<and> isl r) \<or> (\<exists>p contract requirement requested_mode selected_mode q.
      planned env a p contract requirement requested_mode selected_mode q
      \<and> generate_planned env a p contract requirement requested_mode selected_mode q st = (r, st'))"
    using assms by (cases "env_resolve env (ga_memory_space_id a) (ga_profile_slot a)")
      (auto simp: generate_json_def planned_def elift_bind not_less split: sum.splits if_splits prod.splits)
  then show thesis using unresolved planned by blast
qed

lemma generate_planned_cases:
  assumes "generate_planned env a p contract requirement requested_mode selected_mode q st = (r, st')"
  obtains (unopened) "isl r" "st' = st\<lparr>ss_secrets := ss_secrets st @ [gp_secret_ref p]\<rparr>"
  | (opened) transport route secret provider u out where
      "requested_mode = Some STRICT_JSON_SCHEMA_MODE \<or> requirement \<noteq> None \<Longrightarrow> strict_capable env p requested_mode"
      "(transport, route) = (if ga_force_provider_fallback a then forced_fallback_profile p else (p, None))"
      "env_factory env transport secret = Inr provider"
      "run_with_fallback env provider p a contract requirement requested_mode selected_mode q
        (st\<lparr>ss_secrets := ss_secrets st @ [gp_secret_ref p], ss_opened := ss_opened st + 1\<rparr>) = (out, u)"
      "st' = u\<lparr>ss_closed := ss_closed u + 1\<rparr>"
      "r = (case out of Inl e \<Rightarrow> Inl e | Inr (x, fallback) \<Rightarrow>
         if (requested_mode = Some STRICT_JSON_SCHEMA_MODE \<or> requirement \<noteq> None) \<and> \<not> native_schema_valid (finished fallback route x)
         then Inl (StructuredJsonSchemaError ''provider response violates the requested strict JSON Schema'')
         else Inr (finished fallback route x))"
proof -
  let ?s1 = "st\<lparr>ss_secrets := ss_secrets st @ [gp_secret_ref p]\<rparr>"
  let ?strict = "requested_mode = Some STRICT_JSON_SCHEMA_MODE \<or> requirement \<noteq> None"
  obtain transport route where tr: "(transport, route) = (if ga_force_provider_fallback a then forced_fallback_profile p else (p, None))"
    by (cases "if ga_force_provider_fallback a then forced_fallback_profile p else (p, None)") auto
  obtain x where secret: "read_secret env (gp_secret_ref p) st = (x, ?s1)" by (simp add: read_secret_def)
  show thesis
  proof (cases "\<exists>secret provider. x = Inr secret \<and> (?strict \<longrightarrow> strict_capable env p requested_mode) \<and> env_factory env transport secret = Inr provider")
    case False
    then have "isl r \<and> st' = ?s1"
      using assms secret tr [symmetric]
      by (cases x) (auto simp: generate_planned_def ebind_def Let_def strict_capable_def open_provider_def split: if_splits option.splits sum.splits)
    then show thesis using unopened by blast
  next
    case True
    then obtain secret provider where ok: "x = Inr secret" "?strict \<longrightarrow> strict_capable env p requested_mode"
      "env_factory env transport secret = Inr provider" by blast
    obtain out u where run: "run_with_fallback env provider p a contract requirement requested_mode selected_mode q
        (st\<lparr>ss_secrets := ss_secrets st @ [gp_secret_ref p], ss_opened := ss_opened st + 1\<rparr>) = (out, u)" by fastforce
    have fin: "efinally (run_with_fallback env provider p a contract requirement requested_mode selected_mode q) close_provider
        (st\<lparr>ss_secrets := ss_secrets st @ [gp_secret_ref p], ss_opened := ss_opened st + 1\<rparr>) = (out, u\<lparr>ss_closed := ss_closed u + 1\<rparr>)"
      using run by (simp add: efinally_cases)
    have capable: "\<not> (?strict \<and> (case load_capabilities env p requested_mode of None \<Rightarrow> True
        | Some c \<Rightarrow> \<not> is_fresh c (generation_profile_fingerprint p requested_mode) \<or> \<not> supports c STRICT_JSON_SCHEMA_MODE))"
      using ok(2) by (auto simp: strict_capable_def split: option.splits)
    have "st' = u\<lparr>ss_closed := ss_closed u + 1\<rparr> \<and> r = (case out of Inl e \<Rightarrow> Inl e | Inr (x, fallback) \<Rightarrow>
         if ?strict \<and> \<not> native_schema_valid (finished fallback route x)
         then Inl (StructuredJsonSchemaError ''provider response violates the requested strict JSON Schema'')
         else Inr (finished fallback route x))"
      using assms secret ok(1, 3) fin unfolding generate_planned_def Let_def if_not_P [OF capable] tr [symmetric]
      by (cases out) (auto simp: ebind_def open_provider_def finished_def Let_def split: if_splits)
    then show thesis using opened [OF _ tr ok(3) run] ok(2) by blast
  qed
qed

section \<open>Strict requests\<close>

lemma jget_merge: "k \<notin> set (map fst ps) \<Longrightarrow> jget (dict_merge d ps) k = jget d k"
proof (induction ps arbitrary: d)
  case (Cons x ps)
  obtain k' v where x: "x = (k', v)" by (cases x)
  show ?case using Cons.IH [of "AList.update k' v d"] Cons.prems x by (simp add: dict_merge_def jget_update)
qed (simp add: dict_merge_def)

lemma result_issues: "jget (result_metadata float_text r parsed raw issues) ''local_validation_issues'' = JArr (map issue_json issues)"
  by (simp add: result_metadata_def dict_merge_def Let_def jget_update)

lemma finished_keeps:
  assumes "\<And>k v. (k, v) \<in> set fallback \<Longrightarrow> k \<noteq> ''local_validation_issues''"
  shows "native_schema_valid (finished fallback route r) = native_schema_valid r" "sj_data (finished fallback route r) = sj_data r"
    "sj_structured_output_mode (finished fallback route r) = sj_structured_output_mode r"
proof -
  have "''local_validation_issues'' \<notin> set (map fst fallback)" using assms by fastforce
  then show "native_schema_valid (finished fallback route r) = native_schema_valid r"
    by (simp add: native_schema_valid_def finished_def add_metadata_def jget_merge Let_def split: option.split)
qed (simp_all add: finished_def add_metadata_def Let_def split: option.split)

lemma to_result_Inr:
  assumes "to_result env p response (Some c) mode tool = Inr x"
  shows "sj_structured_output_mode x = mode" (is ?mode)
    "native_schema_valid x \<Longrightarrow> advisory_schema_issues (env_feq env) (jget c ''json_schema'') (env_depth env) (JObj (sj_data x))
       (jget c ''json_schema'') ''$'' 16 = Some []" (is "_ \<Longrightarrow> ?issues x")
proof -
  obtain v where v: "decode_json_content (pa_content response) = Inr v"
    using assms by (cases "decode_json_content (pa_content response)") (auto simp: to_result_def res_simps)
  obtain parsed where parsed: "v = JObj parsed" using assms v by (cases v) (auto simp: to_result_def res_simps)
  obtain issues where issues: "advisory_schema_issues (env_feq env) (jget c ''json_schema'') (env_depth env) (JObj parsed)
      (jget c ''json_schema'') ''$'' 16 = Some issues"
    using assms v parsed
    by (cases "advisory_schema_issues (env_feq env) (jget c ''json_schema'') (env_depth env) (JObj parsed) (jget c ''json_schema'') ''$'' 16")
      (auto simp: to_result_def res_simps Let_def)
  obtain raw where "sj_structured_output_mode x = mode \<and> sj_data x = parsed
      \<and> sj_metadata x = result_metadata (env_float_text env) response parsed raw issues"
    using assms v parsed issues by (auto simp: to_result_def res_simps Let_def)
  then show ?mode "native_schema_valid x \<Longrightarrow> ?issues x"
    using issues by (auto simp: native_schema_valid_def result_issues)
qed

lemma text_or_cases: "text_or a b = Some m \<Longrightarrow> a = Some m \<or> b = Some m"
  by (auto simp: text_or_def split: option.splits list.splits)

text \<open>A request is strict when it brings a requirement, or asks for the strict mode and for no response format.\<close>

definition asks_strict :: "generate_args \<Rightarrow> bool" where
  "asks_strict a \<longleftrightarrow> ga_structured_output_requirement a \<noteq> None
     \<or> ga_response_format a = None \<and> text_or (ga_mode a) (ga_structured_output_mode a) = Some STRICT_JSON_SCHEMA_MODE"

lemma planned_strict:
  assumes "planned env a p contract requirement requested_mode selected_mode q" "asks_strict a"
  shows "requested_mode = Some STRICT_JSON_SCHEMA_MODE" "selected_mode = STRICT_JSON_SCHEMA_MODE" "ga_response_format a = None"
    "contract = ga_output_contract a"
    "\<exists>r. validate_strict_requirement (env_re_ok env) (opt_obj (ga_structured_output_requirement a)) (opt_obj contract) = Inr r
       \<and> requirement = (case requirement_json r of JObj d \<Rightarrow> Some d | _ \<Rightarrow> None)"
proof -
  obtain mode where mode: "normalize_contract_and_mode a = Inr (contract, mode)"
    "validated_requirement env a contract mode = Inr (requirement, requested_mode)"
    and select: "select_mode env p requested_mode (ga_response_format a) = Inr selected_mode"
    using assms(1) by (auto simp: planned_def)
  have legacy: "mode \<noteq> Some ''json_object'' \<and> mode \<noteq> Some ''json_schema''" if "ga_structured_output_requirement a \<noteq> None"
    using mode(2) that by (auto simp: validated_requirement_def res_simps STRICT_JSON_SCHEMA_MODE_def)
  show format: "ga_response_format a = None"
  proof (rule ccontr)
    assume "ga_response_format a \<noteq> None"
    then have "mode = Some ''json_object'' \<or> mode = Some ''json_schema''" "ga_structured_output_requirement a \<noteq> None"
      using mode(1) assms(2) by (auto simp: normalize_contract_and_mode_def asks_strict_def res_simps Let_def split: if_splits)
    then show False using legacy by blast
  qed
  have given: "contract = ga_output_contract a \<and> mode = text_or (ga_mode a) (ga_structured_output_mode a)"
    using mode(1) format by (simp add: normalize_contract_and_mode_def res_simps Let_def)
  then show "contract = ga_output_contract a" by simp
  have strict: "ga_structured_output_requirement a \<noteq> None \<or> mode = Some STRICT_JSON_SCHEMA_MODE"
    using given assms(2) by (auto simp: asks_strict_def)
  show requested: "requested_mode = Some STRICT_JSON_SCHEMA_MODE"
    and "\<exists>r. validate_strict_requirement (env_re_ok env) (opt_obj (ga_structured_output_requirement a)) (opt_obj contract) = Inr r
       \<and> requirement = (case requirement_json r of JObj d \<Rightarrow> Some d | _ \<Rightarrow> None)"
    using mode(2) strict by (auto simp: validated_requirement_def res_simps split: sum.splits)
  show "selected_mode = STRICT_JSON_SCHEMA_MODE"
    using select requested format by (simp add: select_mode_def STRICT_JSON_SCHEMA_MODE_def)
qed

lemma strict_run:
  assumes plan: "planned env a p contract requirement requested_mode selected_mode q" and strict: "asks_strict a"
    and run: "run_with_fallback env provider p a contract requirement requested_mode selected_mode q st = (Inr (x, fallback), u)"
    and valid: "native_schema_valid (finished fallback route x)"
  shows "\<exists>c schema. contract = Some c \<and> jget c ''json_schema'' = JObj schema \<and> ss_calls u = ss_calls st @ [q]
    \<and> sj_structured_output_mode (finished fallback route x) = STRICT_JSON_SCHEMA_MODE
    \<and> advisory_schema_issues (env_feq env) (JObj schema) (env_depth env) (JObj (sj_data (finished fallback route x))) (JObj schema) ''$'' 16 = Some []"
proof -
  note strict_plan = planned_strict [OF plan strict]
  have "automatic_fallback_mode p requested_mode (ga_response_format a) selected_mode = None"
    using strict_plan(1) by (simp add: automatic_fallback_mode_def STRICT_JSON_SCHEMA_MODE_def)
  from run_without_fallback [OF run this]
  have call: "execute_and_parse env provider p a contract q selected_mode st = (Inr x, u)" and "fallback = []" by auto
  then have kept: "native_schema_valid (finished fallback route x) = native_schema_valid x" "sj_data (finished fallback route x) = sj_data x"
    "sj_structured_output_mode (finished fallback route x) = sj_structured_output_mode x"
    using finished_keeps [of fallback route x] by auto
  have "build_request p a contract requirement selected_mode = Inr q" using plan by (simp add: planned_def)
  from build_request_fields(7) [OF this] obtain c schema where contract: "contract = Some c" "jget c ''json_schema'' = JObj schema"
    using strict_plan(2) by (auto simp: STRICT_JSON_SCHEMA_MODE_def)
  from execute_and_parse_cases(2) [OF call refl] obtain response
    where "to_result env p response (Some c) selected_mode (ga_tool_name a) = Inr x" using contract by auto
  from to_result_Inr [OF this] show ?thesis
    using contract execute_and_parse_cases(1) [OF call] kept valid strict_plan(2) by simp
qed

lemma silent_check_conforms:
  assumes "advisory_schema_issues feq root depth v root path 16 = Some []"
  shows "conforms feq root depth v root \<noteq> Some False"
    "guarded k root \<and> k * (height v + 1) \<le> depth \<Longrightarrow> conforms feq root depth v root = Some True"
proof -
  show verdict: "conforms feq root depth v root \<noteq> Some False"
  proof
    assume "conforms feq root depth v root = Some False"
    from conforms_agrees [OF this, of path] obtain issues
      where "advisory_schema_issues feq root depth v root path 16 = Some issues" "issues \<noteq> []"
      unfolding agrees_def by (metis zero_less_numeral)
    with assms show False by simp
  qed
  assume k: "guarded k root \<and> k * (height v + 1) \<le> depth"
  then have "conforms feq root depth v root \<noteq> None"
    by (intro conforms_defined [of k root k root v depth feq]) (auto simp: guarded_def list_all_iff)
  with verdict show "conforms feq root depth v root = Some True" by auto
qed

section \<open>The default transport behind the interface\<close>

text \<open>The forced retry narrows the routes of the provider and nothing else.\<close>

lemma forced_fallback_keeps:
  "fst (forced_fallback_profile p) = p\<lparr>gp_extra_body := gp_extra_body (fst (forced_fallback_profile p))\<rparr>"
  "gp_max_retries (fst (forced_fallback_profile p)) = gp_max_retries p"
  "k \<noteq> ''provider'' \<Longrightarrow> jget (gp_extra_body (fst (forced_fallback_profile p))) k = jget (gp_extra_body p) k"
  by (simp_all add: forced_fallback_profile_def Let_def jget_update split: json.split list.split)

lemma new_openai_provider_retries:
  "new_openai_provider url key t retries bytes delay specials tp sr ss eb st fp = Inr op \<Longrightarrow> op_max_retries op = nat retries"
  by (auto simp: new_openai_provider_def Let_def res_simps)

lemma map_sum_Inr: "map_sum id f x = Inr y \<longleftrightarrow> (\<exists>z. x = Inr z \<and> y = f z)"
  by (cases x) auto

definition transport_limit :: "transport_provider \<Rightarrow> nat" where
  "transport_limit provider = (case provider of GoogleTransport \<Rightarrow> 0 | OpenAITransport op \<Rightarrow> op_max_retries op + 1)"

interpretation http: bounded_transport "complete_json fl network token" "\<lambda>w. length (tl_posts w)" transport_limit
  for fl network token
proof
  fix provider q and w :: transport_log
  show "length (tl_posts (snd (complete_json fl network token provider q w))) \<le> length (tl_posts w) + transport_limit provider"
  proof (cases provider)
    case (OpenAITransport op)
    obtain r w' where run: "openai_request fl (\<lambda>i. network (length (tl_posts w) + i)) op token q w = (r, w')" by fastforce
    from openai_posts [OF run] show ?thesis using OpenAITransport run by (simp add: complete_json_def transport_limit_def)
  qed (simp add: complete_json_def)
qed

lemma default_provider_limit:
  assumes "default_provider_factory p secret = Inr provider"
  shows "transport_limit provider \<le> gp_max_retries p + 1"
  using assms by (auto simp: default_provider_factory_def map_sum_Inr transport_limit_def dest!: new_openai_provider_retries split: if_splits)

section \<open>The automatic choice\<close>

lemma supports_modes:
  "supports c ''strict_json_schema'' = (cap_structured_json_schema c \<and> cap_native_schema_strictness c)"
  "supports c ''json_schema'' = (cap_json_schema_supported c \<or> cap_structured_json_schema c)"
  "supports c ''tool_call'' = (cap_tool_call_supported c \<or> cap_tool_calling c)"
  "supports c ''json_object'' = (cap_json_object_supported c \<or> cap_structured_json_object c)"
  "supports c ''prompt_only'' = (cap_prompt_only_supported c \<or> cap_plain_json_prompt c)"
  by (simp_all add: supports_def)

lemma find_mode: "find P MODE_ORDER =
  (if P ''strict_json_schema'' then Some ''strict_json_schema'' else if P ''json_schema'' then Some ''json_schema''
   else if P ''tool_call'' then Some ''tool_call'' else if P ''json_object'' then Some ''json_object''
   else if P ''prompt_only'' then Some ''prompt_only'' else None)"
  by (simp add: MODE_ORDER_def STRICT_JSON_SCHEMA_MODE_def)

text \<open>The fields after each of the three fallbacks.\<close>

lemma fallback_fields:
  "after_successful_fallback ''json_schema'' ''json_object'' code c = Inr c' \<Longrightarrow>
     \<not> cap_json_schema_supported c' \<and> \<not> cap_structured_json_schema c' \<and> cap_json_object_supported c'
     \<and> cap_tool_call_supported c' = cap_tool_call_supported c \<and> cap_tool_calling c' = cap_tool_calling c
     \<and> cap_profile_fingerprint c' = cap_profile_fingerprint c \<and> cap_probe_result c' = cap_probe_result c \<and> cap_probe_status c' = cap_probe_status c"
  "after_successful_fallback ''tool_call'' ''json_object'' code c = Inr c' \<Longrightarrow>
     \<not> cap_tool_call_supported c' \<and> \<not> cap_tool_calling c' \<and> cap_json_object_supported c'
     \<and> cap_json_schema_supported c' = cap_json_schema_supported c \<and> cap_structured_json_schema c' = cap_structured_json_schema c \<and> cap_native_schema_strictness c' = cap_native_schema_strictness c
     \<and> cap_profile_fingerprint c' = cap_profile_fingerprint c \<and> cap_probe_result c' = cap_probe_result c \<and> cap_probe_status c' = cap_probe_status c"
  "after_successful_fallback ''json_object'' ''prompt_only'' code c = Inr c' \<Longrightarrow>
     \<not> cap_json_object_supported c' \<and> \<not> cap_structured_json_object c' \<and> cap_prompt_only_supported c'
     \<and> cap_json_schema_supported c' = cap_json_schema_supported c \<and> cap_structured_json_schema c' = cap_structured_json_schema c \<and> cap_native_schema_strictness c' = cap_native_schema_strictness c
     \<and> cap_tool_call_supported c' = cap_tool_call_supported c \<and> cap_tool_calling c' = cap_tool_calling c
     \<and> cap_profile_fingerprint c' = cap_profile_fingerprint c \<and> cap_probe_result c' = cap_probe_result c \<and> cap_probe_status c' = cap_probe_status c"
  by (auto simp: after_successful_fallback_def set_mode_fields_def Let_def)

text \<open>What one call of \<^verbatim>\<open>generate_json\<close> may have sent: nothing, one request, or a request and its fallback.\<close>

definition allowed_calls :: "('p, 'w) sj_env \<Rightarrow> generate_args \<Rightarrow> generation_profile \<Rightarrow> completion_request list \<Rightarrow> bool" where
  "allowed_calls env a p cs \<longleftrightarrow> length cs \<le> 2
     \<and> (\<forall>q\<in>set cs. cq_messages q = ga_messages a
         \<and> int (fst (estimate_request (env_max_chars env) (estimated_request q))) \<le> gp_max_input_tokens p)
     \<and> (\<forall>q q'. cs = [q, q'] \<longrightarrow> \<not> asks_strict a \<and> ga_response_format a = None \<and> gp_structured_output_preference p = ''auto''
         \<and> (cq_mode q, cq_mode q') \<in> {(''json_schema'', ''json_object''), (''tool_call'', ''json_object''), (''json_object'', ''prompt_only'')}
         \<and> cq_output_contract q' = cq_output_contract q \<and> estimated_request q' = estimated_request q)"

lemma opened_calls:
  assumes plan: "planned env a p contract requirement requested_mode selected_mode q"
    and run: "run_with_fallback env provider p a contract requirement requested_mode selected_mode q st = (out, u)"
  shows "\<exists>cs. cs \<noteq> [] \<and> allowed_calls env a p cs \<and> ss_calls u = ss_calls st @ cs \<and> ss_world u = after_calls (env_complete env) provider cs (ss_world st)
    \<and> ss_opened u = ss_opened st \<and> ss_closed u = ss_closed st \<and> ss_secrets u = ss_secrets st"
proof -
  obtain n where built: "build_request p a contract requirement selected_mode = Inr q" and budget: "ensure_input_budget env p q = Inr n"
    using plan by (auto simp: planned_def)
  note q = build_request_fields [OF built] ensure_input_budget_Inr [OF budget]
  from run_with_fallback_calls [OF run] obtain cs where cs: "ss_calls u = ss_calls st @ cs" "ss_world u = after_calls (env_complete env) provider cs (ss_world st)"
      "ss_opened u = ss_opened st" "ss_closed u = ss_closed st" "ss_secrets u = ss_secrets st"
    and shape: "cs = [q] \<or> (\<exists>q' m n. cs = [q, q'] \<and> automatic_fallback_mode p requested_mode (ga_response_format a) selected_mode = Some m
         \<and> build_request p a contract requirement m = Inr q' \<and> ensure_input_budget env p q' = Inr n)" by auto
  have "allowed_calls env a p cs \<and> cs \<noteq> []"
    using shape
  proof
    assume "cs = [q]"
    then show ?thesis using q by (simp add: allowed_calls_def)
  next
    assume "\<exists>q' m n. cs = [q, q'] \<and> automatic_fallback_mode p requested_mode (ga_response_format a) selected_mode = Some m
         \<and> build_request p a contract requirement m = Inr q' \<and> ensure_input_budget env p q' = Inr n"
    then obtain q' m n' where q': "cs = [q, q']" "automatic_fallback_mode p requested_mode (ga_response_format a) selected_mode = Some m"
      "build_request p a contract requirement m = Inr q'" "ensure_input_budget env p q' = Inr n'" by blast
    note fallback = automatic_fallback_mode_Some [OF q'(2)]
    have "\<not> asks_strict a"
    proof
      assume "asks_strict a"
      from planned_strict(1) [OF plan this] fallback show False by (auto simp: STRICT_JSON_SCHEMA_MODE_def)
    qed
    moreover have "estimated_request q' = estimated_request q" by (rule estimated_request_mode [OF built q'(3)])
    ultimately show ?thesis using q'(1) q build_request_fields [OF q'(3)] fallback by (simp add: allowed_calls_def)
  qed
  with cs show ?thesis by blast
qed

section \<open>An example\<close>

definition example_profile :: generation_profile where
  "example_profile = \<lparr>gp_profile_id = ''p'', gp_provider_kind = ''openai_compatible'', gp_base_url = ''https://api.example'',
     gp_model = ''m'', gp_secret_ref = ''ref'', gp_timeout_ms = 60000, gp_max_retries = 2, gp_max_input_tokens = 5000,
     gp_max_output_tokens = 100, gp_extra_body = [], gp_structured_output_preference = ''auto'', gp_token_parameter = ''max_tokens'',
     gp_supports_system_role = True, gp_supports_seed = False, gp_enabled = True\<rparr>"

definition example_capabilities :: provider_capabilities where
  "example_capabilities = \<lparr>cap_profile_id = ''p'', cap_profile_fingerprint = [], cap_structured_output_mode = ''auto'',
     cap_json_schema_supported = False, cap_tool_call_supported = True, cap_json_object_supported = False,
     cap_prompt_only_supported = False, cap_structured_json_schema = True, cap_structured_json_object = False,
     cap_tool_calling = False, cap_plain_json_prompt = False, cap_native_schema_strictness = True, cap_detected_capabilities = [],
     cap_probe_status = ''passed'', cap_last_error_code = None, cap_probe_result = ''passed'', cap_last_error = None\<rparr>"

definition example_answer :: completion_response where
  "example_answer = \<lparr>pa_content = [CHR ''{'', CHR 0x22] @ ''name'' @ [CHR 0x22, CHR '':'', CHR 0x22, CHR ''x'', CHR 0x22, CHR ''}''], pa_model = ''m'',
     pa_attempts = 1, pa_request_bytes = 10, pa_response_bytes = 20, pa_status_code = 200, pa_output_contract = None,
     pa_mode = ''strict_json_schema'', pa_tool_name = None, pa_metadata = [], pa_raw_text = None\<rparr>"

definition example_env :: "(unit, unit) sj_env" where
  "example_env = \<lparr>env_resolve = (\<lambda>_ _. Inr example_profile), env_secret = (\<lambda>_. Inr ''s''),
     env_stores = [\<lparr>cs_for_profile = Some (\<lambda>_. Some example_capabilities), cs_get = None\<rparr>], env_database = None,
     env_factory = (\<lambda>_ _. Inr ()), env_complete = (\<lambda>_ _ w. (Inr example_answer, w)), env_record = (\<lambda>_. None),
     env_max_output_bytes = 100, env_max_chars = 1000, env_re_ok = (\<lambda>_. True), env_feq = (=), env_float_text = (\<lambda>_. []),
     env_depth = 9\<rparr>"

definition example_contract :: "(string \<times> json) list" where
  "example_contract = [(''json_schema'', JObj example_schema)]"

definition example_args :: generate_args where
  "example_args = \<lparr>ga_memory_space_id = ''s'', ga_messages = [(''user'', ''hi'')], ga_max_output_tokens = 10, ga_profile_slot = ''operational'',
     ga_response_format = None, ga_output_contract = Some example_contract, ga_structured_output_requirement = None,
     ga_mode = Some ''strict_json_schema'', ga_structured_output_mode = None, ga_tool_name = None, ga_metadata = [], ga_seed = None,
     ga_force_provider_fallback = False\<rparr>"

definition fresh_state :: "'w \<Rightarrow> 'w sj_state" where
  "fresh_state w = \<lparr>ss_world = w, ss_secrets = [], ss_opened = 0, ss_closed = 0, ss_calls = [], ss_fallbacks = []\<rparr>"

lemma example_planned:
  "\<exists>requirement q. planned example_env example_args example_profile (Some example_contract) requirement
     (Some STRICT_JSON_SCHEMA_MODE) STRICT_JSON_SCHEMA_MODE q"
proof -
  obtain digest where d: "canonical_digest (JObj example_schema) = Inr digest"
    by (simp add: canonical_digest_def example_schema_def)
  have schema: "jget example_contract ''json_schema'' = JObj example_schema" "jget example_contract ''schema_digest'' = JNull"
    by (simp_all add: example_contract_def)
  obtain r where r: "validate_strict_requirement (\<lambda>_. True) JNull (JObj example_contract) = Inr r"
    by (simp add: validate_strict_requirement_def strict_requirement_for_contract_def schema example_schema_valid d)
  obtain e where e: "requirement_json r = JObj e" by (simp add: requirement_json_def)
  have normalized: "normalize_contract_and_mode example_args = Inr (Some example_contract, Some STRICT_JSON_SCHEMA_MODE)"
    by (simp add: normalize_contract_and_mode_def example_args_def text_or_def STRICT_JSON_SCHEMA_MODE_def)
  have validated: "validated_requirement example_env example_args (Some example_contract) (Some STRICT_JSON_SCHEMA_MODE)
      = Inr (Some e, Some STRICT_JSON_SCHEMA_MODE)"
    using r e by (simp add: validated_requirement_def example_args_def example_env_def opt_obj_def)
  have selected: "select_mode example_env example_profile (Some STRICT_JSON_SCHEMA_MODE) (ga_response_format example_args)
      = Inr STRICT_JSON_SCHEMA_MODE"
    by (simp add: select_mode_def example_args_def STRICT_JSON_SCHEMA_MODE_def)
  have counted: "char_count ''m'' = 1" "strip ''m'' = ''m''" by code_simp+
  obtain q where q: "build_request example_profile example_args (Some example_contract) (Some e) STRICT_JSON_SCHEMA_MODE = Inr q"
    by (simp add: build_request_def new_completion_request_def example_profile_def example_args_def schema is_obj_def
        STRICT_JSON_SCHEMA_MODE_def counted)
  note fields = build_request_fields [OF q]
  have "fst (estimate_request 1000 (estimated_request q)) \<le> 1000"
    using fields by (simp add: estimate_request_def estimated_request_def request_contract_def example_contract_def example_args_def Let_def)
  then have "\<exists>n. ensure_input_budget example_env example_profile q = Inr n"
    by (simp add: ensure_input_budget_def ensure_within_def example_env_def example_profile_def Let_def)
  then show ?thesis
    using normalized validated selected q unfolding planned_def
    by (intro exI [of _ "Some e"] exI [of _ q]) (auto simp: example_env_def example_args_def example_profile_def)
qed

lemma example_run: "\<exists>res st'. generate_json example_env example_args (fresh_state ()) = (Inr res, st')"
proof -
  obtain requirement q where plan: "planned example_env example_args example_profile (Some example_contract) requirement
     (Some STRICT_JSON_SCHEMA_MODE) STRICT_JSON_SCHEMA_MODE q" using example_planned by blast
  have fresh: "is_fresh example_capabilities (generation_profile_fingerprint example_profile (Some STRICT_JSON_SCHEMA_MODE))"
    "supports example_capabilities STRICT_JSON_SCHEMA_MODE" "load_capabilities example_env example_profile (Some STRICT_JSON_SCHEMA_MODE) = Some example_capabilities"
    by (simp_all add: is_fresh_def example_capabilities_def generation_profile_fingerprint_def supports_modes STRICT_JSON_SCHEMA_MODE_def
        load_capabilities_def example_env_def)
  have "decode_json_content (pa_content example_answer) = Inr (JObj [(''name'', JStr ''x'')])"
    "advisory_schema_issues (=) (JObj example_schema) 9 (JObj [(''name'', JStr ''x'')]) (JObj example_schema) ''$'' 16 = Some []"
    by code_simp+
  then have "\<exists>x. to_result example_env example_profile example_answer (Some example_contract) STRICT_JSON_SCHEMA_MODE None = Inr x
      \<and> native_schema_valid x"
    by (simp add: to_result_def example_env_def example_contract_def contract_digest_def Let_def native_schema_valid_def result_issues)
      (simp add: example_answer_def result_issues)
  then obtain x where x: "to_result example_env example_profile example_answer (Some example_contract) STRICT_JSON_SCHEMA_MODE None = Inr x"
    "native_schema_valid x" by blast
  have run: "run_with_fallback example_env () example_profile example_args (Some example_contract) requirement (Some STRICT_JSON_SCHEMA_MODE)
      STRICT_JSON_SCHEMA_MODE q st = (Inr (x, []), st\<lparr>ss_calls := ss_calls st @ [q]\<rparr>)" for st
    using x(1) by (simp add: run_with_fallback_def execute_and_parse_def call_provider_def ebind_def ecatch_def example_args_def)
      (simp add: example_env_def)
  have given: "env_secret example_env = (\<lambda>_. Inr ''s'')" "env_factory example_env = (\<lambda>_ _. Inr ())"
    "\<not> ga_force_provider_fallback example_args"
    by (simp_all add: example_env_def example_args_def)
  have "\<exists>res st'. generate_planned example_env example_args example_profile (Some example_contract) requirement
      (Some STRICT_JSON_SCHEMA_MODE) STRICT_JSON_SCHEMA_MODE q (fresh_state ()) = (Inr res, st')"
    using fresh x(2) given by (simp add: generate_planned_def read_secret_def open_provider_def ebind_def efinally_def ecatch_def close_provider_def Let_def run)
  then show ?thesis
    using plan by (auto simp: generate_json_def planned_def elift_bind not_less)
qed

section \<open>Theorems\<close>

text \<open>
  C6. A strict request is never downgraded. Whenever it returns a result, its requirement validated against the
  contract, the capability loaded for the profile is fresh for its fingerprint in the strict mode and was probed
  for that mode, exactly one call was made, in the strict mode, with the contract and the validated requirement;
  and the data of the result is not refuted by the reference check of the contract's schema: it conforms, for
  every schema whose references end within the recursion depth that is left.
\<close>

theorem strict_answer_conforms:
  assumes run: "generate_json env a st = (Inr res, st')" and strict: "asks_strict a"
  shows "\<exists>p c schema r q. env_resolve env (ga_memory_space_id a) (ga_profile_slot a) = Inr p
    \<and> ga_output_contract a = Some c \<and> jget c ''json_schema'' = JObj schema
    \<and> validate_strict_requirement (env_re_ok env) (opt_obj (ga_structured_output_requirement a)) (JObj c) = Inr r
    \<and> strict_capable env p (Some STRICT_JSON_SCHEMA_MODE)
    \<and> ss_calls st' = ss_calls st @ [q] \<and> cq_mode q = STRICT_JSON_SCHEMA_MODE \<and> cq_output_contract q = Some c
    \<and> opt_obj (cq_structured_output_requirement q) = requirement_json r
    \<and> sj_structured_output_mode res = STRICT_JSON_SCHEMA_MODE
    \<and> conforms (env_feq env) (JObj schema) (env_depth env) (JObj (sj_data res)) (JObj schema) \<noteq> Some False
    \<and> (\<forall>k. guarded k (JObj schema) \<and> k * (height (JObj (sj_data res)) + 1) \<le> env_depth env
        \<longrightarrow> conforms (env_feq env) (JObj schema) (env_depth env) (JObj (sj_data res)) (JObj schema) = Some True)"
  using run
proof (cases rule: generate_json_split)
  case (planned p contract requirement requested_mode selected_mode q)
  note strict_plan = planned_strict [OF planned(1) strict]
  note fields = build_request_fields [of p a contract requirement selected_mode q]
  show ?thesis
    using planned(2)
  proof (cases rule: generate_planned_cases)
    case (opened transport route secret provider u out)
    from opened(6) obtain x fallback where out: "out = Inr (x, fallback)" "res = finished fallback route x" "native_schema_valid res"
      using strict_plan(1) by (auto split: sum.splits prod.splits if_splits)
    note runs = strict_run [OF planned(1) strict opened(4) [unfolded out(1)] out(3) [unfolded out(2)]]
    from runs obtain c schema where c: "contract = Some c" "jget c ''json_schema'' = JObj schema" "ss_calls u = ss_calls st @ [q]"
      "sj_structured_output_mode res = STRICT_JSON_SCHEMA_MODE"
      "advisory_schema_issues (env_feq env) (JObj schema) (env_depth env) (JObj (sj_data res)) (JObj schema) ''$'' 16 = Some []"
      using out(2) by auto
    from strict_plan(5) obtain r where r: "validate_strict_requirement (env_re_ok env) (opt_obj (ga_structured_output_requirement a)) (JObj c) = Inr r"
      "requirement = (case requirement_json r of JObj d \<Rightarrow> Some d | _ \<Rightarrow> None)" using c(1) by (auto simp: opt_obj_def)
    have q: "cq_mode q = STRICT_JSON_SCHEMA_MODE" "cq_output_contract q = Some c" "opt_obj (cq_structured_output_requirement q) = requirement_json r"
      using fields planned(1) strict_plan(2) c(1) r(2) by (simp_all add: planned_def requirement_json_def opt_obj_def)
    have "env_resolve env (ga_memory_space_id a) (ga_profile_slot a) = Inr p" using planned(1) by (simp add: planned_def)
    moreover have "strict_capable env p (Some STRICT_JSON_SCHEMA_MODE)" using opened(1) strict_plan(1) by simp
    moreover have "ss_calls st' = ss_calls st @ [q]" using opened(5) c(3) by simp
    ultimately show ?thesis
      using c strict_plan(4) r(1) q silent_check_conforms [OF c(5)] by (intro exI [of _ p] exI [of _ c] exI [of _ schema] exI [of _ r] exI [of _ q]) auto
  qed simp
qed simp

lemma strict_answer_conforms_witness:
  "\<exists>res st' q. generate_json example_env example_args (fresh_state ()) = (Inr res, st')
    \<and> ss_calls st' = [q] \<and> cq_mode q = STRICT_JSON_SCHEMA_MODE \<and> sj_structured_output_mode res = STRICT_JSON_SCHEMA_MODE"
proof -
  obtain res st' where run: "generate_json example_env example_args (fresh_state ()) = (Inr res, st')" using example_run by blast
  have "asks_strict example_args" by (simp add: asks_strict_def example_args_def text_or_def STRICT_JSON_SCHEMA_MODE_def)
  from strict_answer_conforms [OF run this] run show ?thesis by (auto simp: fresh_state_def)
qed

text \<open>
  C29. One call of \<^verbatim>\<open>generate_json\<close>, whatever the provider answers, sends at most two requests, both with the messages
  of the caller and within the input budget of the profile; it closes each provider that it opened; and it reads
  the profile's secret at most once, after the budget of the first request was checked. The second request is made only when nobody asked
  for a mode: no strict request, no response format, no preference of the profile; it is in the next less
  specialised mode, with the same contract. Its estimate is that of the first request, so that the second budget
  check never fails, although in the prompt-only mode the transport appends an instruction to the last message.
\<close>

theorem provider_calls_bounded:
  assumes "generate_json env a st = (r, st')"
  shows "\<exists>cs opened. ss_calls st' = ss_calls st @ cs \<and> ss_opened st' = ss_opened st + opened \<and> ss_closed st' = ss_closed st + opened
    \<and> opened \<le> 1 \<and> (cs \<noteq> [] \<longleftrightarrow> opened = 1)
    \<and> (cs \<noteq> [] \<or> ss_secrets st' \<noteq> ss_secrets st \<longrightarrow>
        (\<exists>p. env_resolve env (ga_memory_space_id a) (ga_profile_slot a) = Inr p
          \<and> ga_max_output_tokens a \<le> gp_max_output_tokens p \<and> allowed_calls env a p cs
          \<and> ss_secrets st' = ss_secrets st @ [gp_secret_ref p]))"
  using assms
proof (cases rule: generate_json_split)
  case unresolved
  then show ?thesis by (intro exI [of _ "[]"] exI [of _ 0]) simp
next
  case (planned p contract requirement requested_mode selected_mode q)
  then have p: "env_resolve env (ga_memory_space_id a) (ga_profile_slot a) = Inr p" "ga_max_output_tokens a \<le> gp_max_output_tokens p"
    by (auto simp: planned_def)
  show ?thesis
    using planned(2)
  proof (cases rule: generate_planned_cases)
    case unopened
    then show ?thesis using p by (intro exI [of _ "[]"] exI [of _ 0]) (simp add: allowed_calls_def)
  next
    case (opened transport route secret provider u out)
    from opened_calls [OF planned(1) opened(4)] obtain cs where "cs \<noteq> []" "allowed_calls env a p cs" "ss_calls u = ss_calls st @ cs"
      "ss_opened u = ss_opened st + 1" "ss_closed u = ss_closed st" "ss_secrets u = ss_secrets st @ [gp_secret_ref p]" by auto
    with opened(5) p show ?thesis by (intro exI [of _ cs] exI [of _ 1]) simp
  qed
qed

lemma provider_calls_bounded_witness:
  "\<exists>r st' cs. generate_json example_env example_args (fresh_state ()) = (r, st') \<and> ss_calls st' = cs \<and> length cs \<le> 2
    \<and> ss_closed st' = ss_opened st'"
proof -
  obtain r st' where run: "generate_json example_env example_args (fresh_state ()) = (r, st')" by fastforce
  from provider_calls_bounded [OF run] run show ?thesis by (auto simp: fresh_state_def allowed_calls_def)
qed

text \<open>
  C36. The two bounds compose. With the default provider, one call of \<^verbatim>\<open>generate_json\<close> makes at most twice the
  attempts of one request: \<open>2 * (max_retries + 1)\<close> posts, whatever the network answers and whenever it is cancelled.
\<close>

theorem generate_json_posts_bounded:
  assumes run: "generate_json env a st = (r, st')"
    and provider: "env_factory env = default_provider_factory" "env_complete env = complete_json fl network token"
    and p: "env_resolve env (ga_memory_space_id a) (ga_profile_slot a) = Inr p"
  shows "length (tl_posts (ss_world st')) \<le> length (tl_posts (ss_world st)) + 2 * (gp_max_retries p + 1)"
  using run
proof (cases rule: generate_json_split)
  case (planned p' contract requirement requested_mode selected_mode q)
  then have "p' = p" using p by (simp add: planned_def)
  note plan = planned [unfolded this]
  show ?thesis
    using plan(2)
  proof (cases rule: generate_planned_cases)
    case (opened transport route secret provider u out)
    have "gp_max_retries transport = gp_max_retries p"
      using opened(2) forced_fallback_keeps(2) [of p] by (auto split: if_splits dest: arg_cong [of _ _ fst])
    then have limit: "transport_limit provider \<le> gp_max_retries p + 1"
      using default_provider_limit [of transport secret provider] opened(3) assms(2) by simp
    from opened_calls [OF plan(1) opened(4)] obtain cs where cs: "allowed_calls env a p cs"
      "ss_world u = after_calls (env_complete env) provider cs (ss_world st)" by auto
    have "length (tl_posts (ss_world u)) \<le> length (tl_posts (ss_world st)) + length cs * transport_limit provider"
      unfolding cs(2) assms(3) by (rule http.calls_cost)
    also have "\<dots> \<le> length (tl_posts (ss_world st)) + 2 * (gp_max_retries p + 1)"
      using cs(1) limit by (intro add_left_mono mult_le_mono) (simp_all add: allowed_calls_def)
    finally show ?thesis using opened(5) by simp
  qed simp
qed simp

definition default_env :: "(transport_provider, transport_log) sj_env" where
  "default_env = \<lparr>env_resolve = (\<lambda>_ _. Inr example_profile), env_secret = (\<lambda>_. Inr ''s''), env_stores = [], env_database = None,
     env_factory = default_provider_factory, env_complete = complete_json (\<lambda>_. []) (\<lambda>_. HttpTimeout) None, env_record = (\<lambda>_. None),
     env_max_output_bytes = 100, env_max_chars = 1000, env_re_ok = (\<lambda>_. True), env_feq = (=), env_float_text = (\<lambda>_. []),
     env_depth = 9\<rparr>"

lemma generate_json_posts_bounded_witness:
  "\<exists>r st'. generate_json default_env example_args (fresh_state \<lparr>tl_posts = [], tl_attempts = [], tl_waits = []\<rparr>) = (r, st')
    \<and> length (tl_posts (ss_world st')) \<le> 6"
proof -
  obtain r st' where run: "generate_json default_env example_args (fresh_state \<lparr>tl_posts = [], tl_attempts = [], tl_waits = []\<rparr>) = (r, st')"
    by fastforce
  have "env_factory default_env = default_provider_factory" "env_complete default_env = complete_json (\<lambda>_. []) (\<lambda>_. HttpTimeout) None"
    "env_resolve default_env (ga_memory_space_id example_args) (ga_profile_slot example_args) = Inr example_profile"
    by (simp_all add: default_env_def)
  from generate_json_posts_bounded [OF run this] run show ?thesis by (simp add: fresh_state_def example_profile_def)
qed

text \<open>
  C19. What a recorded fallback changes. When the automatic choice was \<open>failed_mode\<close> and the request succeeded in
  the fallback mode, the updated capabilities make the next automatic choice the mode that worked, with one
  exception: after a fallback from the schema mode, a provider for which tool calls were probed is asked for a
  tool call.
\<close>

theorem next_mode_after_fallback:
  assumes "find (supports c) MODE_ORDER = Some failed_mode"
    and "automatic_fallback_mode p requested_mode response_format failed_mode = Some successful_mode"
    and "after_successful_fallback failed_mode successful_mode code c = Inr c'"
  shows "find (supports c') MODE_ORDER =
    Some (if failed_mode = ''json_schema'' \<and> supports c ''tool_call'' then ''tool_call'' else successful_mode)
    \<and> is_fresh c' fingerprint = is_fresh c fingerprint"
proof -
  from automatic_fallback_mode_Some [OF assms(2)] consider
      "failed_mode = ''json_schema''" "successful_mode = ''json_object''"
    | "failed_mode = ''tool_call''" "successful_mode = ''json_object''"
    | "failed_mode = ''json_object''" "successful_mode = ''prompt_only''" by auto
  then show ?thesis
  proof cases
    case 1
    note fields = fallback_fields(1) [OF assms(3) [unfolded 1]]
    show ?thesis using assms(1) fields unfolding 1 find_mode supports_modes is_fresh_def by (simp split: if_split_asm)
  next
    case 2
    note fields = fallback_fields(2) [OF assms(3) [unfolded 2]]
    show ?thesis using assms(1) fields unfolding 2 find_mode supports_modes is_fresh_def by (simp split: if_split_asm)
  next
    case 3
    note fields = fallback_fields(3) [OF assms(3) [unfolded 3]]
    show ?thesis using assms(1) fields unfolding 3 find_mode supports_modes is_fresh_def by (simp split: if_split_asm)
  qed
qed

lemma next_mode_after_fallback_witness:
  "\<exists>c'. after_successful_fallback ''json_schema'' ''json_object'' ''e'' (example_capabilities\<lparr>cap_native_schema_strictness := False\<rparr>) = Inr c'
    \<and> find (supports c') MODE_ORDER = Some ''tool_call''"
proof -
  let ?c = "example_capabilities\<lparr>cap_native_schema_strictness := False\<rparr>"
  have found: "find (supports ?c) MODE_ORDER = Some ''json_schema''" "supports ?c ''tool_call''"
    by (simp_all add: find_mode supports_modes example_capabilities_def)
  have mode: "automatic_fallback_mode example_profile None None ''json_schema'' = Some ''json_object''"
    by (simp add: automatic_fallback_mode_def example_profile_def)
  obtain c' where c': "after_successful_fallback ''json_schema'' ''json_object'' ''e'' ?c = Inr c'"
    by (simp add: after_successful_fallback_def set_mode_fields_def Let_def)
  show ?thesis using next_mode_after_fallback [OF found(1) mode c'] found(2) c' by auto
qed

end
