(* ===== verification/Sandbox.thy ===== *)
theory Sandbox
  imports Json
begin

text \<open>
  The isolation of the Core process (\<^verbatim>\<open>core_gateway/isolation.py\<close>, \<^verbatim>\<open>security_policy.py\<close>, \<^verbatim>\<open>sandbox.py\<close>): what a
  launch requires, which command is launched, and which guarantees it is credited with.

  The host is a record: what the file system, the search path, the environment and the programs that
  are run answer while one plan is built. A path is whether it is absolute and its parts.
\<close>

section \<open>Guarantees\<close>

record isolation_capabilities =
  ik_network_isolated :: bool
  ik_rounds_database_hidden :: bool
  ik_filesystem_allowlisted :: bool
  ik_environment_sanitized :: bool
  ik_file_descriptors_closed :: bool
  ik_child_process_creation_blocked :: bool
  ik_binary_signature_verified :: bool
  ik_sandbox_backend :: string
  ik_detail :: string

definition no_capabilities :: "string \<Rightarrow> string \<Rightarrow> isolation_capabilities" where
  "no_capabilities backend detail =
     \<lparr>ik_network_isolated = False, ik_rounds_database_hidden = False, ik_filesystem_allowlisted = False,
      ik_environment_sanitized = False, ik_file_descriptors_closed = False,
      ik_child_process_creation_blocked = False, ik_binary_signature_verified = False,
      ik_sandbox_backend = backend, ik_detail = detail\<rparr>"

definition capabilities_as_dict :: "isolation_capabilities \<Rightarrow> (string \<times> json) list" where
  "capabilities_as_dict c =
     [(''network_isolated'', JBool (ik_network_isolated c)),
      (''rounds_database_hidden'', JBool (ik_rounds_database_hidden c)),
      (''filesystem_allowlisted'', JBool (ik_filesystem_allowlisted c)),
      (''environment_sanitized'', JBool (ik_environment_sanitized c)),
      (''file_descriptors_closed'', JBool (ik_file_descriptors_closed c)),
      (''child_process_creation_blocked'', JBool (ik_child_process_creation_blocked c)),
      (''binary_signature_verified'', JBool (ik_binary_signature_verified c)),
      (''sandbox_backend'', JStr (ik_sandbox_backend c)), (''detail'', JStr (ik_detail c))]"

record isolation_requirements =
  iq_network_isolation :: bool
  iq_rounds_database_hidden :: bool
  iq_filesystem_allowlist :: bool
  iq_environment_sanitized :: bool
  iq_signature :: bool

definition missing :: "isolation_requirements \<Rightarrow> isolation_capabilities \<Rightarrow> string list" where
  "missing q c = map fst (filter (\<lambda>(name, required, present). required \<and> \<not> present)
     [(''network_isolated'', iq_network_isolation q, ik_network_isolated c),
      (''rounds_database_hidden'', iq_rounds_database_hidden q, ik_rounds_database_hidden c),
      (''filesystem_allowlisted'', iq_filesystem_allowlist q, ik_filesystem_allowlisted c),
      (''environment_sanitized'', iq_environment_sanitized q, ik_environment_sanitized c),
      (''binary_signature_verified'', iq_signature q, ik_binary_signature_verified c)])"

definition requirements_as_dict :: "isolation_requirements \<Rightarrow> (string \<times> bool) list" where
  "requirements_as_dict q =
     [(''network_isolated'', iq_network_isolation q),
      (''rounds_database_hidden'', iq_rounds_database_hidden q),
      (''filesystem_allowlisted'', iq_filesystem_allowlist q),
      (''environment_sanitized'', iq_environment_sanitized q),
      (''binary_signature_verified'', iq_signature q)]"

datatype sandbox_level = FULL | PARTIAL | UNAVAILABLE

definition sandbox_level :: "isolation_capabilities \<Rightarrow> sandbox_level" where
  "sandbox_level c =
     (if ik_sandbox_backend c = ''unavailable'' then UNAVAILABLE
      else if ik_network_isolated c \<and> ik_rounds_database_hidden c \<and> ik_filesystem_allowlisted c
        \<and> ik_environment_sanitized c \<and> ik_file_descriptors_closed c then FULL
      else PARTIAL)"

section \<open>The policy\<close>

definition ALLOWED_STATIC_KEYS :: "string list" where
  "ALLOWED_STATIC_KEYS = [''LANG'', ''LC_ALL'', ''RUST_BACKTRACE'', ''LEDGERMIND_CORE_DATA_DIR'',
     ''LEDGERMIND_SEMANTIC_LANGUAGE'', ''PWD'']"

definition ALLOWED_RUNTIME_KEYS :: "string list" where
  "ALLOWED_RUNTIME_KEYS = [''LANGUAGE'', ''LC_CTYPE'', ''LC_NUMERIC'', ''LC_TIME'', ''LC_COLLATE'',
     ''LC_MONETARY'', ''LC_MESSAGES'', ''LC_PAPER'', ''LC_NAME'', ''LC_ADDRESS'', ''LC_TELEPHONE'',
     ''LC_MEASUREMENT'', ''LC_IDENTIFICATION'', ''TZ'']"

definition ALLOWED_KEYS :: "string list" where
  "ALLOWED_KEYS = ALLOWED_STATIC_KEYS @ ALLOWED_RUNTIME_KEYS"

definition SECRET_MARKERS :: "string list" where
  "SECRET_MARKERS = [''API_KEY'', ''AUTH'', ''CREDENTIAL'', ''PASSWORD'', ''PROXY'', ''SECRET'', ''TOKEN'']"

record core_security_config =
  sy_require_network_isolation :: bool
  sy_require_rounds_database_hidden :: bool
  sy_require_filesystem_allowlist :: bool
  sy_require_environment_sanitized :: bool
  sy_require_signature :: bool

definition build_core_isolation_requirements :: "core_security_config \<Rightarrow> bool \<Rightarrow> isolation_requirements" where
  "build_core_isolation_requirements s verify_core_signature =
     \<lparr>iq_network_isolation = sy_require_network_isolation s,
      iq_rounds_database_hidden = sy_require_rounds_database_hidden s,
      iq_filesystem_allowlist = sy_require_filesystem_allowlist s,
      iq_environment_sanitized = sy_require_environment_sanitized s,
      iq_signature = (sy_require_signature s \<or> verify_core_signature)\<rparr>"

definition is_secret_like_environment_name :: "string \<Rightarrow> bool" where
  "is_secret_like_environment_name name \<longleftrightarrow> list_ex (\<lambda>m. occurs_in m (upper name)) SECRET_MARKERS"

definition is_allowed_core_environment_name :: "string \<Rightarrow> bool" where
  "is_allowed_core_environment_name name \<longleftrightarrow> name \<in> set ALLOWED_KEYS"

definition classify_core_environment :: "string list \<Rightarrow> nat \<times> nat" where
  "classify_core_environment ks =
     (length (filter is_secret_like_environment_name ks),
      length (filter (\<lambda>k. \<not> is_allowed_core_environment_name k) ks))"

text \<open>No allowed name looks like a credential, so an environment within the policy counts nothing.\<close>

lemma allowed_not_secret: "is_allowed_core_environment_name k \<Longrightarrow> \<not> is_secret_like_environment_name k"
proof -
  have "list_all (\<lambda>k. \<not> is_secret_like_environment_name k) ALLOWED_KEYS"
    by code_simp
  then show "is_allowed_core_environment_name k \<Longrightarrow> \<not> is_secret_like_environment_name k"
    by (simp add: list_all_iff is_allowed_core_environment_name_def)
qed

lemma classify_allowed:
  "set ks \<subseteq> set ALLOWED_KEYS \<Longrightarrow> classify_core_environment ks = (0, 0)"
  using allowed_not_secret
  by (auto simp: classify_core_environment_def filter_empty_conv is_allowed_core_environment_name_def)

section \<open>Paths and the host\<close>

datatype path = Path (is_absolute: bool) (parts: "string list")

definition parse_path :: "string \<Rightarrow> path" where
  "parse_path s = Path (prefix ''/'' s) (filter (\<lambda>p. p \<noteq> [] \<and> p \<noteq> ''.'') (split_on CHR ''/'' s))"

definition path_str :: "path \<Rightarrow> string" where
  "path_str p = (if is_absolute p then CHR ''/'' # join ''/'' (parts p)
     else if parts p = [] then ''.'' else join ''/'' (parts p))"

definition parent :: "path \<Rightarrow> path" where
  "parent p = Path (is_absolute p) (butlast (parts p))"

definition parents :: "path \<Rightarrow> path list" where
  "parents p = map (\<lambda>k. Path (is_absolute p) (take k (parts p))) (rev [0..<length (parts p)])"

definition path_name :: "path \<Rightarrow> string" where
  "path_name p = (if parts p = [] then [] else last (parts p))"

definition join_path :: "path \<Rightarrow> path \<Rightarrow> path" where
  "join_path p q = (if is_absolute q then q else Path (is_absolute p) (parts p @ parts q))"

record host =
  h_expanduser :: "path \<Rightarrow> path"
  h_exists :: "path \<Rightarrow> bool"
  h_is_file :: "path \<Rightarrow> bool"
  h_is_dir :: "path \<Rightarrow> bool"
  h_resolve :: "path \<Rightarrow> path"
  h_resolve_strict :: "path \<Rightarrow> path option"
  h_which :: "string \<Rightarrow> string option"
  h_read :: "path \<Rightarrow> bytes option"
  h_text_lines :: "path \<Rightarrow> string list option"
  h_so_files :: "path \<Rightarrow> path list"
  h_ldd :: "path \<Rightarrow> string list option"
  h_executable :: string
  h_python_version :: string
  h_library_paths :: "string \<Rightarrow> string option"
  h_environ :: "string \<Rightarrow> string option"
  h_probe_script :: string
  h_run :: "string list \<Rightarrow> (int \<times> string) option"
  h_marker_written :: "path \<Rightarrow> bool"
  h_marker_name :: string
  h_write_marker_name :: string
  h_port :: nat
  h_sentinel_fd :: nat
  h_recursion :: nat

datatype sandbox_error = SandboxUnavailableError string | SandboxRaised exn

abbreviation recursion_error :: "sandbox_error + 'a" where
  "recursion_error \<equiv> Inl (SandboxRaised (RuntimeError ''maximum recursion depth exceeded''))"

section \<open>What the sandbox has to mount\<close>

text \<open>\<^verbatim>\<open>bytes.decode("utf-8")\<close> succeeds: no stray or missing continuation, overlong form, surrogate, or value
  beyond the last character.\<close>

fun utf8_valid :: "nat list \<Rightarrow> bool" where
  "utf8_valid [] = True"
| "utf8_valid (a # s) =
     (if a < 128 then utf8_valid s
      else if 194 \<le> a \<and> a < 224 then (case s of
         b # t \<Rightarrow> b div 64 = 2 \<and> utf8_valid t | _ \<Rightarrow> False)
      else if 224 \<le> a \<and> a < 240 then (case s of
         b # c # t \<Rightarrow> b div 64 = 2 \<and> c div 64 = 2 \<and> (a = 224 \<longrightarrow> 160 \<le> b) \<and> (a = 237 \<longrightarrow> b < 160)
           \<and> utf8_valid t | _ \<Rightarrow> False)
      else if 240 \<le> a \<and> a < 245 then (case s of
         b # c # d # t \<Rightarrow> b div 64 = 2 \<and> c div 64 = 2 \<and> d div 64 = 2 \<and> (a = 240 \<longrightarrow> 144 \<le> b)
           \<and> (a = 244 \<longrightarrow> b < 144) \<and> utf8_valid t | _ \<Rightarrow> False)
      else False)"

definition resolve_command :: "host \<Rightarrow> string \<Rightarrow> path" where
  "resolve_command h name =
     (let executable = h_expanduser h (parse_path name) in
      if is_absolute executable then executable
      else case h_which h (path_str executable) of
        Some resolved \<Rightarrow> parse_path resolved
      | None \<Rightarrow> executable)"

definition first_line :: "bytes \<Rightarrow> string option" where
  "first_line content =
     (let line = takeWhile (\<lambda>c. c \<noteq> CHR 0x0A \<and> c \<noteq> CHR 0x0D) content in
      if content = [] \<or> \<not> utf8_valid (map of_char line) then None else Some line)"

text \<open>A line with nothing after the marker is \<^verbatim>\<open>[][0]\<close>.\<close>

definition shebang_interpreter :: "host \<Rightarrow> path \<Rightarrow> sandbox_error + path option" where
  "shebang_interpreter h executable =
     (if \<not> h_is_file h executable then Inr None
      else case Option.bind (h_read h executable) first_line of
        None \<Rightarrow> Inr None
      | Some line \<Rightarrow>
          if \<not> prefix ''#!'' line then Inr None
          else raise_if (strip (drop 2 line) = []) (SandboxRaised IndexError)
            (let interpreter = takeWhile (\<lambda>c. \<not> ascii_space c) (strip (drop 2 line)) in
             if interpreter = ''/usr/bin/env'' then Inr None
             else let p = h_expanduser h (parse_path interpreter) in
               if is_absolute p then Inr (Some p)
               else Inr (map_option parse_path (h_which h interpreter))))"

text \<open>The library that a line of \<^verbatim>\<open>ldd\<close> names.\<close>

definition first_word :: "string \<Rightarrow> string" where
  "first_word s = takeWhile (\<lambda>c. c \<noteq> CHR '' '') s"

fun split_arrow :: "string \<Rightarrow> (string \<times> string) option" where
  "split_arrow [] = None"
| "split_arrow (c # s) =
     (if prefix ''=>'' (c # s) then Some ([], tl s)
      else map_option (\<lambda>(left, right). (c # left, right)) (split_arrow s))"

definition ldd_candidate :: "string \<Rightarrow> string option" where
  "ldd_candidate line = (case split_arrow line of
     Some (left, right) \<Rightarrow>
       Some (if prefix ''/'' (strip left) then strip left else first_word (strip right))
   | None \<Rightarrow> if prefix ''/'' (lstrip line) then Some (first_word (strip line)) else None)"

definition ldd_dependencies :: "host \<Rightarrow> path \<Rightarrow> path list" where
  "ldd_dependencies h executable =
     (if \<not> h_is_file h executable then []
      else case h_ldd h executable of
        None \<Rightarrow> []
      | Some lines \<Rightarrow>
          filter (h_is_file h) (map parse_path (filter (prefix ''/'') (List.map_filter ldd_candidate lines))))"

text \<open>The number is the depth of recursion that is left; scripts may name each other as interpreters.\<close>

fun runtime_paths_for_command :: "nat \<Rightarrow> host \<Rightarrow> string list \<Rightarrow> sandbox_error + path list" where
  "runtime_paths_for_command 0 h command = recursion_error"
| "runtime_paths_for_command (Suc n) h command = (case command of
     [] \<Rightarrow> Inr []
   | name # _ \<Rightarrow>
       let executable = resolve_command h name;
           config = join_path (parent (parent executable)) (parse_path ''pyvenv.cfg'');
           paths = executable # (if h_is_file h config then [config] else []) @ ldd_dependencies h executable
       in rbind (shebang_interpreter h executable) (\<lambda>interpreter. case interpreter of
            None \<Rightarrow> Inr paths
          | Some i \<Rightarrow> if i = executable then Inr paths
              else rbind (runtime_paths_for_command n h [path_str i]) (\<lambda>more. Inr (paths @ more))))"

text \<open>The \<^verbatim>\<open>home\<close> of a virtual environment.\<close>

fun config_home :: "host \<Rightarrow> path \<Rightarrow> string list \<Rightarrow> path option" where
  "config_home h config [] = None"
| "config_home h config (line # lines) =
     (if CHR ''='' \<in> set line \<and> strip (takeWhile (\<lambda>c. c \<noteq> CHR ''='') line) = ''home'' then
        let raw = tl (dropWhile (\<lambda>c. c \<noteq> CHR ''='') line);
            home = h_expanduser h (parse_path (strip raw))
        in Some (parent (h_resolve h
             (if is_absolute home then home else join_path (parent config) home)))
      else config_home h config lines)"

fun python_runtime_home :: "nat \<Rightarrow> host \<Rightarrow> string list \<Rightarrow> sandbox_error + path option" where
  "python_runtime_home 0 h command = recursion_error"
| "python_runtime_home (Suc n) h command = (case command of
     [] \<Rightarrow> Inr None
   | name # _ \<Rightarrow>
       let executable = resolve_command h name;
           config = join_path (parent (parent executable)) (parse_path ''pyvenv.cfg'');
           home = (if prefix ''python'' (path_name executable) \<and> h_is_file h config
             then config_home h config (case h_text_lines h config of None \<Rightarrow> [] | Some ls \<Rightarrow> ls) else None)
       in (case home of
            Some p \<Rightarrow> Inr (Some p)
          | None \<Rightarrow> rbind (shebang_interpreter h executable) (\<lambda>interpreter. case interpreter of
              None \<Rightarrow> Inr None
            | Some i \<Rightarrow> if i = executable then Inr None
                else python_runtime_home n h [path_str i])))"

definition so_dependencies :: "host \<Rightarrow> path \<Rightarrow> path list" where
  "so_dependencies h p = concat (map (ldd_dependencies h) (h_so_files h p))"

text \<open>The loop also visits the libraries it appends; they are files, with nothing below them.\<close>

definition python_runtime_paths :: "host \<Rightarrow> path \<Rightarrow> path list" where
  "python_runtime_paths h home =
     (let paths = filter (h_is_dir h)
        [join_path (join_path home (parse_path ''lib'')) (parse_path (h_python_version h)),
         join_path (join_path home (parse_path ''lib64'')) (parse_path (h_python_version h))]
      in paths @ concat (map (so_dependencies h) paths))"

definition probe_runtime_paths :: "host \<Rightarrow> sandbox_error + path list" where
  "probe_runtime_paths h =
     rbind (runtime_paths_for_command (h_recursion h) h [h_executable h]) (\<lambda>paths.
     Inr (paths @ [h_resolve h (h_expanduser h (parse_path (h_executable h)))]
       @ map parse_path (filter (\<lambda>v. v \<noteq> []) (List.map_filter (h_library_paths h) [''stdlib'', ''platstdlib'']))))"

definition is_path_within :: "host \<Rightarrow> path \<Rightarrow> path \<Rightarrow> bool" where
  "is_path_within h p q \<longleftrightarrow> prefix (parts (h_resolve h q)) (parts (h_resolve h p))"

definition allowed_runtime_paths :: "host \<Rightarrow> path list \<Rightarrow> path list \<Rightarrow> path list" where
  "allowed_runtime_paths h runtime_paths blocked =
     filter (\<lambda>p. is_absolute p \<and> h_exists h p \<and> \<not> list_ex (is_path_within h p) blocked)
       (map (h_expanduser h) runtime_paths)"

definition command_file_paths :: "host \<Rightarrow> string list \<Rightarrow> path list \<Rightarrow> path \<Rightarrow> path list" where
  "command_file_paths h command blocked core_data_dir =
     filter (\<lambda>p. is_absolute p \<and> h_is_file h p \<and> \<not> is_path_within h p core_data_dir
         \<and> \<not> list_ex (is_path_within h p) blocked)
       (map (\<lambda>a. h_expanduser h (parse_path a)) (tl command))"

section \<open>The command line of the sandbox\<close>

definition mount_source :: "host \<Rightarrow> path \<Rightarrow> path" where
  "mount_source h p = (case h_resolve_strict h p of Some q \<Rightarrow> q | None \<Rightarrow> p)"

definition destination_directories :: "host \<Rightarrow> path \<Rightarrow> string list" where
  "destination_directories h destination =
     (let p = (if h_is_dir h destination then destination else parent destination) in
      takeWhile (\<lambda>s. s \<noteq> ''/'') (map path_str (parents p)) @ (if path_str p \<noteq> ''/'' then [path_str p] else []))"

definition directory_args :: "host \<Rightarrow> path list \<Rightarrow> string list" where
  "directory_args h destinations =
     concat (map (\<lambda>d. [''--dir'', d])
       (sort_key (\<lambda>s. count_list s CHR ''/'')
         (sort (remdups (concat (map (destination_directories h) destinations))))))"

fun mount_args :: "host \<Rightarrow> bool \<Rightarrow> string list \<Rightarrow> path list \<Rightarrow> string list" where
  "mount_args h python_shim seen [] = []"
| "mount_args h python_shim seen (p # ps) =
     (if path_str p \<in> set seen \<or> \<not> h_exists h p \<or> (python_shim \<and> path_name p = ''pyvenv.cfg'')
      then mount_args h python_shim seen ps
      else [''--ro-bind'', path_str (mount_source h p), path_str p]
        @ mount_args h python_shim (path_str p # seen) ps)"

definition sanitized_environment :: "host \<Rightarrow> path \<Rightarrow> (string \<times> string) list" where
  "sanitized_environment h core_data_dir =
     (let fixed_values = [(''RUST_BACKTRACE'', ''0''), (''LEDGERMIND_CORE_DATA_DIR'', path_str core_data_dir),
            (''PWD'', path_str core_data_dir)];
          read = (\<lambda>name. case map_of fixed_values name of Some v \<Rightarrow> Some v | None \<Rightarrow> h_environ h name)
      in List.map_filter (\<lambda>name. case read name of
           Some v \<Rightarrow> if v = [] then None else Some (name, v) | None \<Rightarrow> None) (sort ALLOWED_KEYS))"

definition sandbox_environment ::
  "host \<Rightarrow> path \<Rightarrow> string list \<Rightarrow> string option \<Rightarrow> sandbox_error + (string \<times> string) list" where
  "sandbox_environment h core_data_dir command semantic_language =
     (let environment = sanitized_environment h core_data_dir;
          environment = (case semantic_language of
            Some l \<Rightarrow> if l = [] then environment else AList.update ''LEDGERMIND_SEMANTIC_LANGUAGE'' l environment
          | None \<Rightarrow> environment)
      in rbind (python_runtime_home (h_recursion h) h command) (\<lambda>home. Inr (case home of
           Some p \<Rightarrow> AList.update ''PYTHONHOME'' (path_str p) environment
         | None \<Rightarrow> environment)))"

definition bwrap_prefix ::
  "host \<Rightarrow> string \<Rightarrow> string list \<Rightarrow> path \<Rightarrow> path list \<Rightarrow> path list \<Rightarrow> path list \<Rightarrow> (string \<times> string) list
    \<Rightarrow> sandbox_error + string list" where
  "bwrap_prefix h bwrap command core_data_dir blocked runtime_paths extra_runtime_paths environment =
     rbind (runtime_paths_for_command (h_recursion h) h command) (\<lambda>command_paths.
     rbind (python_runtime_home (h_recursion h) h command) (\<lambda>python_home.
     let declared = allowed_runtime_paths h runtime_paths blocked;
         mount_paths = command_paths @ declared
           @ concat (map (\<lambda>p. if h_is_file h p then ldd_dependencies h p
               else if h_is_dir h p then so_dependencies h p else []) declared)
           @ extra_runtime_paths
           @ (case python_home of None \<Rightarrow> [] | Some home \<Rightarrow> python_runtime_paths h home)
           @ command_file_paths h command blocked core_data_dir;
         executable = h_expanduser h (parse_path (hd command));
         destinations = mount_paths @ [core_data_dir, parse_path ''/dev'', parse_path ''/proc'', parse_path ''/tmp'']
           @ blocked @ [executable]
     in Inr ([bwrap, ''--unshare-user'', ''--unshare-net'', ''--die-with-parent'', ''--new-session'', ''--clearenv'',
          ''--tmpfs'', ''/tmp'']
        @ directory_args h destinations
        @ mount_args h (python_home \<noteq> None) [] mount_paths
        @ [''--bind'', path_str core_data_dir, path_str core_data_dir, ''--dev'', ''/dev'', ''--proc'', ''/proc'']
        @ concat (map (\<lambda>b. [''--tmpfs'', path_str b]) blocked)
        @ [''--ro-bind'', path_str (mount_source h executable), path_str executable,
           ''--chdir'', path_str core_data_dir]
        @ concat (map (\<lambda>(name, value). [''--setenv'', name, value]) environment))))"

section \<open>Probes\<close>

record probe_result =
  pb_network_isolated :: bool
  pb_rounds_database_hidden :: bool
  pb_filesystem_allowlisted :: bool
  pb_environment_sanitized :: bool
  pb_file_descriptors_closed :: bool

text \<open>\<^verbatim>\<open>None\<close>, \<^verbatim>\<open>True\<close>, or a measurement.\<close>

datatype probe_answer = ProbeFailed | LegacyProbe | Measured probe_result

definition PROBE_MEMBERS :: "string list" where
  "PROBE_MEMBERS = [''network_isolated'', ''rounds_database_hidden'', ''filesystem_allowlisted'',
     ''environment_sanitized'', ''file_descriptors_closed'']"

definition probe_command :: "host \<Rightarrow> string list \<Rightarrow> probe_answer" where
  "probe_command h command = (case h_run h command of
     None \<Rightarrow> ProbeFailed
   | Some (returncode, stdout) \<Rightarrow>
       if returncode \<noteq> 0 then ProbeFailed
       else (case json_loads stdout of
          None \<Rightarrow> LegacyProbe
        | Some (JObj d) \<Rightarrow>
            if list_all (\<lambda>m. m \<in> set (jkeys d)) PROBE_MEMBERS then
              Measured \<lparr>pb_network_isolated = truthy (jget d ''network_isolated''),
                pb_rounds_database_hidden = truthy (jget d ''rounds_database_hidden''),
                pb_filesystem_allowlisted = truthy (jget d ''filesystem_allowlisted''),
                pb_environment_sanitized = truthy (jget d ''environment_sanitized''),
                pb_file_descriptors_closed = truthy (jget d ''file_descriptors_closed'')\<rparr>
            else ProbeFailed
        | Some _ \<Rightarrow> ProbeFailed))"

record sandbox_args =
  sa_command :: "string list"
  sa_core_data_dir :: path
  sa_blocked_data_dirs :: "path list"
  sa_rounds_database_path :: "path option"
  sa_runtime_paths :: "path list"
  sa_binary_signature_verified :: bool
  sa_required :: bool
  sa_requirements :: "isolation_requirements option"
  sa_strict :: "bool option"
  sa_semantic_language :: "string option"

definition marker_paths :: "host \<Rightarrow> path list \<Rightarrow> path list" where
  "marker_paths h blocked =
     filter (h_marker_written h)
       (map (\<lambda>d. join_path d (parse_path (h_marker_name h))) (filter (h_is_dir h) blocked))"

text \<open>\<^verbatim>\<open>json.dumps\<close> of a list of texts, for texts in ASCII.\<close>

definition dumps_texts :: "string list \<Rightarrow> string" where
  "dumps_texts xs = ''['' @ join '', '' (map dumps_str xs) @ '']''"

definition probe_invocation ::
  "host \<Rightarrow> path \<Rightarrow> path list \<Rightarrow> path option \<Rightarrow> string list \<Rightarrow> (string \<times> string) list \<Rightarrow> string list" where
  "probe_invocation h core_data_dir blocked rounds pre expected_environment =
     (let environment = (if expected_environment = [] then sanitized_environment h core_data_dir
            else expected_environment);
          probe = [path_str (h_resolve h (h_expanduser h (parse_path (h_executable h)))), ''-S'', ''-c'',
            h_probe_script h, path_str core_data_dir, dumps_texts (map path_str (marker_paths h blocked)),
            (case rounds of Some p \<Rightarrow> if h_is_file h p then path_str p else [] | None \<Rightarrow> []),
            show_nat (h_port h), dumps_texts (sort (map fst environment)), h_write_marker_name h,
            show_nat (h_sentinel_fd h)]
      in if pre \<noteq> [] then pre @ ''--'' # probe else probe)"

section \<open>The plan\<close>

definition capabilities_from_probe :: "probe_answer \<Rightarrow> string \<Rightarrow> string \<Rightarrow> bool \<Rightarrow> isolation_capabilities" where
  "capabilities_from_probe result backend detail signature_verified = (case result of
     Measured r \<Rightarrow> (no_capabilities backend detail)
       \<lparr>ik_network_isolated := pb_network_isolated r, ik_rounds_database_hidden := pb_rounds_database_hidden r,
        ik_filesystem_allowlisted := pb_filesystem_allowlisted r,
        ik_environment_sanitized := pb_environment_sanitized r,
        ik_file_descriptors_closed := pb_file_descriptors_closed r,
        ik_binary_signature_verified := signature_verified\<rparr>
   | _ \<Rightarrow> (no_capabilities backend (detail @ ''; detailed probe result unavailable''))
       \<lparr>ik_binary_signature_verified := signature_verified\<rparr>)"

record sandbox_plan =
  pl_command :: "string list"
  pl_capabilities :: isolation_capabilities

definition finish_plan :: "sandbox_plan \<Rightarrow> isolation_requirements \<Rightarrow> bool \<Rightarrow> sandbox_error + sandbox_plan" where
  "finish_plan plan requirements strict =
     (let absent = missing requirements (pl_capabilities plan) in
      raise_if (strict \<and> absent \<noteq> [])
        (SandboxUnavailableError (''required Core isolation guarantees missing: '' @ join '', '' absent))
        (Inr plan))"

definition bwrap_attempt :: "host \<Rightarrow> sandbox_args \<Rightarrow> path \<Rightarrow> path list \<Rightarrow> path option \<Rightarrow> string
    \<Rightarrow> sandbox_error + sandbox_plan option" where
  "bwrap_attempt h a core_dir blocked rounds bwrap =
     rbind (sandbox_environment h core_dir (sa_command a) (sa_semantic_language a)) (\<lambda>environment.
     rbind (probe_runtime_paths h) (\<lambda>extra.
     rbind (bwrap_prefix h bwrap (sa_command a) core_dir blocked (map (h_expanduser h) (sa_runtime_paths a)) extra
         environment) (\<lambda>pre.
     let answer = probe_command h (probe_invocation h core_dir blocked rounds pre environment) in
     Inr (if answer = ProbeFailed then None
       else Some \<lparr>pl_command = pre @ ''--'' # sa_command a,
         pl_capabilities = capabilities_from_probe answer ''bwrap''
           ''bwrap verified the available independent guarantees'' (sa_binary_signature_verified a)\<rparr>))))"

definition unshare_attempt :: "host \<Rightarrow> sandbox_args \<Rightarrow> path \<Rightarrow> path list \<Rightarrow> path option \<Rightarrow> string
    \<Rightarrow> sandbox_plan option" where
  "unshare_attempt h a core_dir blocked rounds unshare =
     (let pre = [unshare, ''--net''];
          answer = probe_command h (probe_invocation h core_dir blocked rounds pre [])
      in if answer = ProbeFailed then None
         else Some \<lparr>pl_command = pre @ ''--'' # sa_command a,
           pl_capabilities = capabilities_from_probe answer ''unshare''
             (''unshare verified network isolation; filesystem, rounds database, ''
               @ ''and child-process guarantees are not provided'') (sa_binary_signature_verified a)\<rparr>)"

definition direct_capabilities :: "host \<Rightarrow> sandbox_args \<Rightarrow> path \<Rightarrow> path list \<Rightarrow> path option \<Rightarrow> string list
    \<Rightarrow> isolation_capabilities" where
  "direct_capabilities h a core_dir blocked rounds attempts =
     (let answer = probe_command h (probe_invocation h core_dir blocked rounds [] []);
          capabilities = (if answer = ProbeFailed
            then no_capabilities ''none'' ''sandbox backend unavailable; isolation guarantees not established''
            else capabilities_from_probe answer ''none''
              ''sandbox backend unavailable; only directly measured properties apply''
              (sa_binary_signature_verified a))
      in if attempts = [] then capabilities
         else capabilities\<lparr>ik_detail := ik_detail capabilities @ '': '' @ join '', '' attempts\<rparr>)"

definition plan_requirements :: "sandbox_args \<Rightarrow> isolation_requirements" where
  "plan_requirements a = (case sa_requirements a of Some q \<Rightarrow> q | None \<Rightarrow>
     \<lparr>iq_network_isolation = sa_required a, iq_rounds_database_hidden = False,
      iq_filesystem_allowlist = False, iq_environment_sanitized = False, iq_signature = False\<rparr>)"

definition plan_strict :: "sandbox_args \<Rightarrow> bool" where
  "plan_strict a = (case sa_strict a of None \<Rightarrow> sa_required a | Some b \<Rightarrow> b)"

definition build_sandbox_plan :: "host \<Rightarrow> sandbox_args \<Rightarrow> sandbox_error + sandbox_plan" where
  "build_sandbox_plan h a =
     raise_if (sa_command a = [] \<or> [] \<in> set (sa_command a))
       (SandboxRaised (ValueError ''Core command must not be empty''))
     (let core_dir = h_expanduser h (sa_core_data_dir a);
          blocked = map (h_expanduser h) (sa_blocked_data_dirs a);
          rounds = map_option (h_expanduser h) (sa_rounds_database_path a)
      in rbind (case h_which h ''bwrap'' of
             None \<Rightarrow> Inr (None, [])
           | Some bwrap \<Rightarrow> rbind (bwrap_attempt h a core_dir blocked rounds bwrap) (\<lambda>plan.
               Inr (plan, [''bwrap probe failed'']))) (\<lambda>(plan, attempts).
         case plan of Some p \<Rightarrow> finish_plan p (plan_requirements a) (plan_strict a)
         | None \<Rightarrow>
             let (plan, attempts) = (case h_which h ''unshare'' of
                 None \<Rightarrow> (None, attempts)
               | Some unshare \<Rightarrow> (unshare_attempt h a core_dir blocked rounds unshare,
                   attempts @ [''unshare probe failed'']))
             in case plan of Some p \<Rightarrow> finish_plan p (plan_requirements a) (plan_strict a)
                | None \<Rightarrow> finish_plan \<lparr>pl_command = sa_command a,
                    pl_capabilities = direct_capabilities h a core_dir blocked rounds attempts\<rparr>
                    (plan_requirements a) (plan_strict a)))"

section \<open>What a plan is credited with\<close>

text \<open>The members of a probe and the guarantees they establish.\<close>

definition guarantees :: "isolation_capabilities \<Rightarrow> (string \<times> bool) list" where
  "guarantees c = zip PROBE_MEMBERS [ik_network_isolated c, ik_rounds_database_hidden c,
     ik_filesystem_allowlisted c, ik_environment_sanitized c, ik_file_descriptors_closed c]"

text \<open>A guarantee was measured by a probe that ran in front of which the same wrapper stood.\<close>

definition measured :: "host \<Rightarrow> sandbox_args \<Rightarrow> string list \<Rightarrow> string \<Rightarrow> bool" where
  "measured h a pre name \<longleftrightarrow> (\<exists>expected out d.
     h_run h (probe_invocation h (h_expanduser h (sa_core_data_dir a))
       (map (h_expanduser h) (sa_blocked_data_dirs a))
       (map_option (h_expanduser h) (sa_rounds_database_path a)) pre expected) = Some (0, out)
     \<and> json_loads out = Some (JObj d) \<and> truthy (jget d name))"

definition credited :: "host \<Rightarrow> sandbox_args \<Rightarrow> sandbox_plan \<Rightarrow> bool" where
  "credited h a p \<longleftrightarrow>
     (\<exists>pre. pl_command p = (if pre = [] then sa_command a else pre @ ''--'' # sa_command a)
        \<and> (\<forall>name. (name, True) \<in> set (guarantees (pl_capabilities p)) \<longrightarrow> measured h a pre name))
     \<and> (ik_binary_signature_verified (pl_capabilities p) \<longrightarrow> sa_binary_signature_verified a)
     \<and> \<not> ik_child_process_creation_blocked (pl_capabilities p)"

lemma probe_guarantee:
  assumes "probe_command h (probe_invocation h (h_expanduser h (sa_core_data_dir a))
       (map (h_expanduser h) (sa_blocked_data_dirs a))
       (map_option (h_expanduser h) (sa_rounds_database_path a)) pre expected) = answer"
    and "(name, True) \<in> set (guarantees (capabilities_from_probe answer backend detail v))"
  shows "measured h a pre name"
proof -
  from assms(2) obtain r where r: "answer = Measured r"
    by (cases answer) (auto simp: capabilities_from_probe_def guarantees_def PROBE_MEMBERS_def no_capabilities_def)
  with assms(1) obtain out d where run: "h_run h (probe_invocation h (h_expanduser h (sa_core_data_dir a))
       (map (h_expanduser h) (sa_blocked_data_dirs a))
       (map_option (h_expanduser h) (sa_rounds_database_path a)) pre expected) = Some (0, out)"
      and out: "json_loads out = Some (JObj d)"
    and "r = \<lparr>pb_network_isolated = truthy (jget d ''network_isolated''),
       pb_rounds_database_hidden = truthy (jget d ''rounds_database_hidden''),
       pb_filesystem_allowlisted = truthy (jget d ''filesystem_allowlisted''),
       pb_environment_sanitized = truthy (jget d ''environment_sanitized''),
       pb_file_descriptors_closed = truthy (jget d ''file_descriptors_closed'')\<rparr>"
    by (auto simp: probe_command_def split: option.splits prod.splits if_splits json.splits)
  with assms(2) r have "truthy (jget d name)"
    by (auto simp: capabilities_from_probe_def guarantees_def PROBE_MEMBERS_def no_capabilities_def)
  with run out show ?thesis unfolding measured_def by blast
qed

lemma probe_signature: "ik_binary_signature_verified (capabilities_from_probe answer backend detail v) = v"
  and probe_children: "\<not> ik_child_process_creation_blocked (capabilities_from_probe answer backend detail v)"
  by (simp_all add: capabilities_from_probe_def no_capabilities_def split: probe_answer.split)

lemma no_guarantees: "(name, True) \<notin> set (guarantees (no_capabilities backend detail))"
  by (auto simp: guarantees_def no_capabilities_def PROBE_MEMBERS_def)

lemma creditedI:
  assumes "pl_command p = (if pre = [] then sa_command a else pre @ ''--'' # sa_command a)"
    and "\<And>name. (name, True) \<in> set (guarantees (pl_capabilities p)) \<Longrightarrow> measured h a pre name"
    and "ik_binary_signature_verified (pl_capabilities p) \<Longrightarrow> sa_binary_signature_verified a"
    and "\<not> ik_child_process_creation_blocked (pl_capabilities p)"
  shows "credited h a p"
  using assms unfolding credited_def by blast

lemma finish_plan_Inr: "finish_plan p q s = Inr p' \<longleftrightarrow> p' = p \<and> (s \<longrightarrow> missing q (pl_capabilities p) = [])"
  by (auto simp: finish_plan_def Let_def res_simps)

abbreviation "here h a \<equiv> h_expanduser h (sa_core_data_dir a)"
abbreviation "hidden h a \<equiv> map (h_expanduser h) (sa_blocked_data_dirs a)"
abbreviation "rounds_file h a \<equiv> map_option (h_expanduser h) (sa_rounds_database_path a)"

lemma bwrap_credited:
  assumes "bwrap_attempt h a (here h a) (hidden h a) (rounds_file h a) bwrap = Inr (Some p)"
  shows "credited h a p"
proof -
  from assms obtain pre environment where pre: "pre \<noteq> []"
      and p: "p = \<lparr>pl_command = pre @ ''--'' # sa_command a, pl_capabilities = capabilities_from_probe
        (probe_command h (probe_invocation h (here h a) (hidden h a) (rounds_file h a) pre environment)) ''bwrap''
        ''bwrap verified the available independent guarantees'' (sa_binary_signature_verified a)\<rparr>"
    by (auto simp: bwrap_attempt_def bwrap_prefix_def Let_def res_simps split: if_splits)
  then show ?thesis
    by (intro creditedI [where pre = pre]) (auto simp: probe_signature probe_children intro: probe_guarantee [OF refl])
qed

lemma unshare_credited:
  assumes "unshare_attempt h a (here h a) (hidden h a) (rounds_file h a) unshare = Some p"
  shows "credited h a p"
  using assms
  by (intro creditedI [where pre = "[unshare, ''--net'']"])
    (auto simp: unshare_attempt_def Let_def probe_signature probe_children split: if_splits
      intro: probe_guarantee [OF refl])

lemma direct_credited:
  "credited h a \<lparr>pl_command = sa_command a,
     pl_capabilities = direct_capabilities h a (here h a) (hidden h a) (rounds_file h a) attempts\<rparr>"
proof (rule creditedI [where pre = "[]"])
  define answer where
    "answer = probe_command h (probe_invocation h (here h a) (hidden h a) (rounds_file h a) [] [])"
  have eq: "guarantees (direct_capabilities h a (here h a) (hidden h a) (rounds_file h a) attempts)
      = guarantees (if answer = ProbeFailed then no_capabilities ''none'' [] else
          capabilities_from_probe answer ''none'' [] (sa_binary_signature_verified a))"
    by (cases answer) (simp_all add: direct_capabilities_def answer_def [symmetric] guarantees_def
        no_capabilities_def capabilities_from_probe_def Let_def)
  show "measured h a [] name" if "(name, True) \<in> set (guarantees (pl_capabilities
      \<lparr>pl_command = sa_command a,
       pl_capabilities = direct_capabilities h a (here h a) (hidden h a) (rounds_file h a) attempts\<rparr>))" for name
  proof (cases "answer = ProbeFailed")
    case True
    with that show ?thesis by (simp add: eq no_guarantees)
  next
    case False
    with that have "(name, True) \<in> set (guarantees (capabilities_from_probe answer ''none'' []
        (sa_binary_signature_verified a)))" by (simp add: eq)
    then show ?thesis by (rule probe_guarantee [OF answer_def [symmetric]])
  qed
qed (auto simp: direct_capabilities_def Let_def no_capabilities_def capabilities_from_probe_def
    split: if_splits probe_answer.splits)

lemma build_sandbox_plan_credited:
  assumes "build_sandbox_plan h a = Inr plan"
  shows "credited h a plan \<and> (plan_strict a \<longrightarrow> missing (plan_requirements a) (pl_capabilities plan) = [])"
  using assms
  by (auto simp: build_sandbox_plan_def Let_def res_simps finish_plan_Inr
      split: option.splits prod.splits if_splits
      dest: bwrap_credited unshare_credited intro: direct_credited)

lemma missing_Nil_iff: "missing q c = [] \<longleftrightarrow>
   (iq_network_isolation q \<longrightarrow> ik_network_isolated c) \<and> (iq_rounds_database_hidden q \<longrightarrow> ik_rounds_database_hidden c)
   \<and> (iq_filesystem_allowlist q \<longrightarrow> ik_filesystem_allowlisted c)
   \<and> (iq_environment_sanitized q \<longrightarrow> ik_environment_sanitized c)
   \<and> (iq_signature q \<longrightarrow> ik_binary_signature_verified c)"
  by (auto simp: missing_def)

end
