(* ===== verification/CoreSupervisor.thy ===== *)
theory CoreSupervisor
  imports Sandbox Framing RuntimeSupervisor Effects
begin

text \<open>
  The owner of the Core process (\<^verbatim>\<open>core_gateway/supervisor.py\<close>): it launches Core under an isolation plan, shakes
  hands, exchanges one request frame for one response frame under a deadline, and ends the process when
  the exchange went wrong.

  Operations are programs over the state of the supervisor. The operating system answers as a function
  of everything that was asked and done before, which the state keeps as a log; so any process, any
  stream and any clock is an instance. A handle stands for a \<^verbatim>\<open>Popen\<close> object, counted in the order of
  creation. All operations run under one reentrant lock and are single steps. The envelopes
  (\<^verbatim>\<open>ledgermind_protocol\<close>) are arguments.
\<close>

section \<open>Errors\<close>

text \<open>
  \<open>StreamError\<close> is any \<^verbatim>\<open>OSError\<close>, with the broken pipe and the reset connection; \<open>Raised\<close> is an exception
  of the shared vocabulary.
\<close>

datatype supervisor_exn =
    CoreSupervisorError string
  | CoreSupervisorTimeout
  | CoreSupervisorBusy
  | CoreSupervisorCrashed string
  | CoreSupervisorRemoteError (code: string) (detail: string) (retryable: bool)
  | StreamError
  | AssertionError
  | TimeoutExpired
  | Raised exn

fun is_supervisor_error :: "supervisor_exn \<Rightarrow> bool" where
  "is_supervisor_error (CoreSupervisorError _) = True"
| "is_supervisor_error CoreSupervisorTimeout = True"
| "is_supervisor_error CoreSupervisorBusy = True"
| "is_supervisor_error (CoreSupervisorCrashed _) = True"
| "is_supervisor_error (CoreSupervisorRemoteError _ _ _) = True"
| "is_supervisor_error _ = False"

fun is_raised_value_error :: "supervisor_exn \<Rightarrow> bool" where
  "is_raised_value_error (Raised e) = is_value_error e"
| "is_raised_value_error _ = False"

text \<open>\<^verbatim>\<open>except (KeyError, TypeError, ValueError)\<close>; the frame errors are value errors.\<close>

fun is_invalid_response :: "supervisor_exn \<Rightarrow> bool" where
  "is_invalid_response (Raised e) = (case e of KeyError _ \<Rightarrow> True | TypeError _ \<Rightarrow> True | _ \<Rightarrow> is_value_error e)"
| "is_invalid_response _ = False"

section \<open>The operating system\<close>

datatype os_event =
    Planned
  | Spawned nat "string list" "(string \<times> string) list"
  | SpawnFailed
  | ThreadStarted nat bool
  | Polled nat bool
  | NewId string
  | Wrote nat bytes
  | WriteFailed nat
  | ClockRead int
  | Selected nat int bool
  | SelectFailed nat
  | Chunk nat bytes
  | ReadFailed nat
  | StreamsClosed nat
  | Terminated nat
  | Killed nat
  | Waited nat bool
  | LockTried bool

datatype io_fault = BrokenStream | ClosedFile

fun fault_exn :: "io_fault \<Rightarrow> supervisor_exn" where
  "fault_exn BrokenStream = StreamError"
| "fault_exn ClosedFile = Raised (ValueError ''I/O operation on closed file'')"

record core_os =
  os_host :: "os_event list \<Rightarrow> host"
  os_popen :: "os_event list \<Rightarrow> bool"
  os_thread :: "os_event list \<Rightarrow> bool"
  os_alive :: "os_event list \<Rightarrow> nat \<Rightarrow> bool"
  os_uuid :: "os_event list \<Rightarrow> string"
  os_write :: "os_event list \<Rightarrow> nat \<Rightarrow> io_fault option"
  os_clock :: "os_event list \<Rightarrow> int"
  os_select :: "os_event list \<Rightarrow> nat \<Rightarrow> int \<Rightarrow> io_fault + bool"
  os_read :: "os_event list \<Rightarrow> nat \<Rightarrow> io_fault + bytes"
  os_ended :: "os_event list \<Rightarrow> nat \<Rightarrow> bool"
  os_lock :: "os_event list \<Rightarrow> bool"

record core_request =
  rq_protocol_version :: int
  rq_request_id :: string
  rq_operation :: string
  rq_payload :: "(string \<times> json) list"

record core_error =
  ce_code :: string
  ce_message :: string
  ce_retryable :: bool

record core_response =
  rp_request_id :: string
  rp_status :: string
  rp_error :: "core_error option"
  rp_result :: "(string \<times> json) list option"

text \<open>
  The protocol package: the version, the operations, the texts of the envelopes with their validation,
  and \<^verbatim>\<open>int\<close> of a float, which here is its text.
\<close>

record core_ipc =
  ip_version :: int
  ip_operations :: "string list"
  ip_encode :: "core_request \<Rightarrow> exn + bytes"
  ip_decode :: "bytes \<Rightarrow> exn + core_response"
  ip_int_of_float :: "string \<Rightarrow> exn + int"

section \<open>State\<close>

record supervisor_args =
  ag_command :: "string list"
  ag_startup_timeout :: int
  ag_operation_timeout :: int
  ag_client_name :: string
  ag_client_version :: string
  ag_core_data_dir :: "path option"
  ag_blocked_data_dirs :: "path list"
  ag_require_network_isolation :: bool
  ag_rounds_database_path :: "path option"
  ag_runtime_paths :: "path list"
  ag_isolation_requirements :: "isolation_requirements option"
  ag_strict_isolation :: "bool option"
  ag_binary_signature_verified :: bool
  ag_semantic_language :: "string option"

record supervisor_setup =
  ss_command :: "string list"
  ss_startup_timeout :: int
  ss_operation_timeout :: int
  ss_client_name :: string
  ss_client_version :: string
  ss_core_data_dir :: path
  ss_blocked_data_dirs :: "path list"
  ss_requirements :: isolation_requirements
  ss_strict :: bool
  ss_rounds_database_path :: "path option"
  ss_runtime_paths :: "path list"
  ss_binary_signature_verified :: bool
  ss_semantic_language :: string

record core_supervisor =
  sv_log :: "os_event list"
  sv_process :: "nat option"
  sv_handshake :: "(string \<times> json) list option"
  sv_capabilities :: isolation_capabilities
  sv_missing :: "string list"
  sv_stderr_lines :: "string list"

definition new_core_supervisor ::
  "(path \<Rightarrow> path) \<Rightarrow> path \<Rightarrow> supervisor_args \<Rightarrow> (supervisor_setup \<times> core_supervisor) res" where
  "new_core_supervisor expanduser cwd ag =
     raise_if (ag_command ag = [] \<or> [] \<in> set (ag_command ag)) (ValueError ''Core command must not be empty'')
     (let requirements = (case ag_isolation_requirements ag of
            None \<Rightarrow> \<lparr>iq_network_isolation = ag_require_network_isolation ag, iq_rounds_database_hidden = False,
              iq_filesystem_allowlist = False, iq_environment_sanitized = False, iq_signature = False\<rparr>
          | Some q \<Rightarrow> if ag_require_network_isolation ag \<and> \<not> iq_network_isolation q
              then q\<lparr>iq_network_isolation := True\<rparr> else q);
          strict = (case ag_strict_isolation ag of
            Some b \<Rightarrow> b
          | None \<Rightarrow> iq_network_isolation requirements \<or> iq_rounds_database_hidden requirements
              \<or> iq_filesystem_allowlist requirements \<or> iq_environment_sanitized requirements
              \<or> iq_signature requirements);
          capabilities = no_capabilities ''unavailable'' ''Core has not been launched''
      in case ag_semantic_language ag of
        None \<Rightarrow> Inl (ValueError ''semantic_language must be supplied by LocalConfig'')
      | Some language \<Rightarrow>
          raise_if (blank language) (ValueError ''semantic_language must be supplied by LocalConfig'')
          (Inr (\<lparr>ss_command = ag_command ag, ss_startup_timeout = max (ag_startup_timeout ag) 10000,
              ss_operation_timeout = max (ag_operation_timeout ag) 10000, ss_client_name = ag_client_name ag,
              ss_client_version = ag_client_version ag,
              ss_core_data_dir = expanduser (case ag_core_data_dir ag of Some p \<Rightarrow> p | None \<Rightarrow> cwd),
              ss_blocked_data_dirs = map expanduser (ag_blocked_data_dirs ag), ss_requirements = requirements,
              ss_strict = strict, ss_rounds_database_path = map_option expanduser (ag_rounds_database_path ag),
              ss_runtime_paths = map expanduser (ag_runtime_paths ag),
              ss_binary_signature_verified = ag_binary_signature_verified ag, ss_semantic_language = language\<rparr>,
            \<lparr>sv_log = [], sv_process = None, sv_handshake = None, sv_capabilities = capabilities,
              sv_missing = missing requirements capabilities, sv_stderr_lines = []\<rparr>)))"

type_synonym 'a supervised = "(core_supervisor, supervisor_exn, 'a) eff"

definition note_event :: "os_event \<Rightarrow> core_supervisor \<Rightarrow> core_supervisor" where
  "note_event e s = s\<lparr>sv_log := sv_log s @ [e]\<rparr>"

definition act :: "os_event \<Rightarrow> unit supervised" where
  "act e s = (Inr (), note_event e s)"

definition ask :: "(os_event list \<Rightarrow> 'a) \<Rightarrow> ('a \<Rightarrow> os_event) \<Rightarrow> 'a supervised" where
  "ask answer event s = (Inr (answer (sv_log s)), note_event (event (answer (sv_log s))) s)"

definition poll :: "core_os \<Rightarrow> nat \<Rightarrow> bool supervised" where
  "poll os h = ask (\<lambda>l. os_alive os l h) (Polled h)"

definition wait_ended :: "core_os \<Rightarrow> nat \<Rightarrow> bool supervised" where
  "wait_ended os h = ask (\<lambda>l. os_ended os l h) (Waited h)"

definition is_running_locked :: "core_os \<Rightarrow> bool supervised" where
  "is_running_locked os s = (case sv_process s of None \<Rightarrow> (Inr False, s) | Some h \<Rightarrow> poll os h s)"

text \<open>Closing a stream that is already broken raises nothing here.\<close>

definition terminate_locked :: "core_os \<Rightarrow> unit supervised" where
  "terminate_locked os s = (case sv_process s of
     None \<Rightarrow> (Inr (), s)
   | Some h \<Rightarrow>
       ebind (act (StreamsClosed h)) (\<lambda>_.
       ebind (poll os h) (\<lambda>running.
       if \<not> running then ereturn ()
       else ebind (act (Terminated h)) (\<lambda>_.
         ebind (wait_ended os h) (\<lambda>ended.
         if ended then ereturn ()
         else ebind (act (Killed h)) (\<lambda>_.
           ebind (wait_ended os h) (\<lambda>ended.
           if ended then ereturn () else eraise TimeoutExpired))))))
       (s\<lparr>sv_process := None\<rparr>))"

section \<open>Launching\<close>

definition launch_environment :: "host \<Rightarrow> supervisor_setup \<Rightarrow> (string \<times> string) list" where
  "launch_environment host cfg =
     [(''RUST_BACKTRACE'', ''0''), (''LEDGERMIND_CORE_DATA_DIR'', path_str (ss_core_data_dir cfg)),
      (''LEDGERMIND_SEMANTIC_LANGUAGE'', ss_semantic_language cfg), (''PWD'', path_str (ss_core_data_dir cfg))]
     @ List.map_filter (\<lambda>name. case h_environ host name of
         Some v \<Rightarrow> if v = [] then None else Some (name, v) | None \<Rightarrow> None) [''LANG'', ''LC_ALL'']"

definition plan_args :: "supervisor_setup \<Rightarrow> sandbox_args" where
  "plan_args cfg = \<lparr>sa_command = ss_command cfg, sa_core_data_dir = ss_core_data_dir cfg,
     sa_blocked_data_dirs = ss_blocked_data_dirs cfg, sa_rounds_database_path = ss_rounds_database_path cfg,
     sa_runtime_paths = ss_runtime_paths cfg,
     sa_binary_signature_verified = ss_binary_signature_verified cfg, sa_required = ss_strict cfg,
     sa_requirements = Some (ss_requirements cfg), sa_strict = Some (ss_strict cfg),
     sa_semantic_language = Some (ss_semantic_language cfg)\<rparr>"

definition set_capabilities :: "supervisor_setup \<Rightarrow> isolation_capabilities \<Rightarrow> core_supervisor \<Rightarrow> core_supervisor" where
  "set_capabilities cfg c s = s\<lparr>sv_capabilities := c, sv_missing := missing (ss_requirements cfg) c\<rparr>"

fun is_spawn :: "os_event \<Rightarrow> bool" where
  "is_spawn (Spawned _ _ _) = True"
| "is_spawn _ = False"

definition spawn_count :: "os_event list \<Rightarrow> nat" where
  "spawn_count log = length (filter is_spawn log)"

definition popen :: "core_os \<Rightarrow> supervisor_setup \<Rightarrow> host \<Rightarrow> string list \<Rightarrow> unit supervised" where
  "popen os cfg host command s =
     (if \<not> os_popen os (sv_log s)
      then (Inl (CoreSupervisorCrashed ''failed to start Core process''), note_event SpawnFailed s)
      else let h = spawn_count (sv_log s) in
        (Inr (), (note_event (Spawned h command (launch_environment host cfg)) s)\<lparr>sv_process := Some h\<rparr>))"

definition start_drain :: "core_os \<Rightarrow> unit supervised" where
  "start_drain os s =
     ebind (ask (os_thread os) (ThreadStarted (the (sv_process s)))) (\<lambda>started.
     if started then ereturn () else eraise (Raised (RuntimeError ''can't start new thread''))) s"

definition spawn_locked :: "core_os \<Rightarrow> supervisor_setup \<Rightarrow> unit supervised" where
  "spawn_locked os cfg s =
     (let host = os_host os (sv_log s); s = note_event Planned s in
      case build_sandbox_plan host (plan_args cfg) of
        Inl (SandboxUnavailableError m) \<Rightarrow>
          (Inl (CoreSupervisorError m), set_capabilities cfg (no_capabilities ''unavailable'' m) s)
      | Inl (SandboxRaised e) \<Rightarrow> (Inl (Raised e), s)
      | Inr plan \<Rightarrow>
          ebind (popen os cfg host (pl_command plan)) (\<lambda>_. start_drain os)
            (set_capabilities cfg (pl_capabilities plan) s))"

section \<open>One exchange\<close>

text \<open>\<^verbatim>\<open>read(n)\<close> returns at most \<open>n\<close> bytes of what there is.\<close>

definition read_chunk :: "core_os \<Rightarrow> nat \<Rightarrow> int \<Rightarrow> nat \<Rightarrow> bytes supervised" where
  "read_chunk os h deadline n =
     ebind (ask (os_clock os) ClockRead) (\<lambda>now.
     let wait = deadline - now in
     if wait \<le> 0 then eraise CoreSupervisorTimeout
     else ebind (ask (\<lambda>l. os_select os l h wait) (\<lambda>r. case r of
         Inl _ \<Rightarrow> SelectFailed h | Inr ready \<Rightarrow> Selected h wait ready)) (\<lambda>r. case r of
         Inl f \<Rightarrow> eraise (fault_exn f)
       | Inr ready \<Rightarrow>
           if \<not> ready then eraise CoreSupervisorTimeout
           else ebind (ask (\<lambda>l. map_sum id (take n) (os_read os l h)) (\<lambda>r. case r of
               Inl _ \<Rightarrow> ReadFailed h | Inr chunk \<Rightarrow> Chunk h chunk)) (\<lambda>r. case r of
               Inl f \<Rightarrow> eraise (fault_exn f)
             | Inr chunk \<Rightarrow> ereturn chunk)))"

function read_exact_timed :: "core_os \<Rightarrow> nat \<Rightarrow> int \<Rightarrow> nat \<Rightarrow> bytes \<Rightarrow> bytes supervised" where
  "read_exact_timed os h deadline n acc s =
     (if n = 0 then (Inr acc, s)
      else case read_chunk os h deadline n s of
        (Inl e, t) \<Rightarrow> (Inl e, t)
      | (Inr chunk, t) \<Rightarrow>
          if chunk = [] then (Inl (CoreSupervisorCrashed ''Core process closed stdout''), t)
          else read_exact_timed os h deadline (n - length chunk) (acc @ chunk) t)"
  by pat_completeness auto
termination read_exact_timed
  by (relation "measure (\<lambda>(_, _, _, n, _). n)") auto

declare read_exact_timed.simps [simp del]

definition read_frame_timed :: "core_os \<Rightarrow> nat \<Rightarrow> int \<Rightarrow> bytes supervised" where
  "read_frame_timed os h timeout =
     ebind (ask (os_clock os) ClockRead) (\<lambda>now.
     let deadline = now + max timeout 10000 in
     ebind (read_exact_timed os h deadline 4 []) (\<lambda>header.
     let n = be_number header in
     if 8 * 1024 * 1024 < n then eraise (Raised (ValueError ''Core frame exceeds maximum size''))
     else read_exact_timed os h deadline n []))"

definition send_frame :: "core_os \<Rightarrow> nat \<Rightarrow> bytes \<Rightarrow> unit supervised" where
  "send_frame os h payload =
     (if MAX_FRAME_BYTES < length payload then eraise (Raised (frame_too_large (length payload)))
      else ebind (ask (\<lambda>l. os_write os l h) (\<lambda>r. case r of
          None \<Rightarrow> Wrote h (be_bytes FRAME_HEADER_BYTES (length payload) @ payload)
        | Some _ \<Rightarrow> WriteFailed h)) (\<lambda>r. case r of
          None \<Rightarrow> ereturn ()
        | Some f \<Rightarrow> eraise (fault_exn f)))"

definition check_response :: "string \<Rightarrow> core_response \<Rightarrow> supervisor_exn + (string \<times> json) list" where
  "check_response request_id response =
     (if rp_request_id response \<noteq> request_id
      then Inl (CoreSupervisorError ''Core response request_id does not match request'')
      else if rp_status response = ''error'' then
        (case rp_error response of
           None \<Rightarrow> Inl AssertionError
         | Some e \<Rightarrow> Inl (CoreSupervisorRemoteError (ce_code e) (ce_message e) (ce_retryable e)))
      else Inr (case rp_result response of Some d \<Rightarrow> d | None \<Rightarrow> []))"

definition exchange_with ::
  "core_os \<Rightarrow> core_ipc \<Rightarrow> nat \<Rightarrow> string \<Rightarrow> (string \<times> json) list \<Rightarrow> string option \<Rightarrow> int
    \<Rightarrow> (string \<times> json) list supervised" where
  "exchange_with os ip h operation payload request_id timeout =
     ebind (if request_id = None \<or> request_id = Some [] then ask (os_uuid os) NewId
       else ereturn (the request_id)) (\<lambda>rid.
     ebind (elift (map_sum Raised id (ip_encode ip \<lparr>rq_protocol_version = ip_version ip, rq_request_id = rid,
         rq_operation = operation, rq_payload = payload\<rparr>))) (\<lambda>encoded.
     ebind (send_frame os h encoded) (\<lambda>_.
     ebind (read_frame_timed os h timeout) (\<lambda>raw.
     ebind (elift (map_sum Raised id (ip_decode ip raw))) (\<lambda>response.
     elift (check_response rid response))))))"

definition exchange_locked ::
  "core_os \<Rightarrow> core_ipc \<Rightarrow> string \<Rightarrow> (string \<times> json) list \<Rightarrow> string option \<Rightarrow> int
    \<Rightarrow> (string \<times> json) list supervised" where
  "exchange_locked os ip operation payload request_id timeout s = (case sv_process s of
     None \<Rightarrow> (Inl (CoreSupervisorCrashed ''Core process is not running''), s)
   | Some h \<Rightarrow> exchange_with os ip h operation payload request_id timeout s)"

section \<open>Operations\<close>

definition int_of :: "core_ipc \<Rightarrow> json \<Rightarrow> exn + int" where
  "int_of ip v = (case v of
     JInt i \<Rightarrow> Inr i
   | JBool b \<Rightarrow> Inr (if b then 1 else 0)
   | JFloat t \<Rightarrow> ip_int_of_float ip t
   | JStr t \<Rightarrow> (case int_of_text t of
       Some i \<Rightarrow> Inr i
     | None \<Rightarrow> Inl (ValueError (''invalid literal for int() with base 10: '' @ repr_str t)))
   | _ \<Rightarrow> Inl (TypeError ''int() argument must be a string, a bytes-like object or a real number''))"

definition handshake_payload :: "core_ipc \<Rightarrow> supervisor_setup \<Rightarrow> (string \<times> json) list" where
  "handshake_payload ip cfg =
     [(''client_name'', JStr (ss_client_name cfg)), (''client_version'', JStr (ss_client_version cfg)),
      (''supported_operations'', JArr (map JStr (sort (ip_operations ip))))]"

definition shake_hands :: "core_os \<Rightarrow> core_ipc \<Rightarrow> supervisor_setup \<Rightarrow> unit supervised" where
  "shake_hands os ip cfg =
     ebind (exchange_locked os ip ''handshake'' (handshake_payload ip cfg) None (ss_startup_timeout cfg)) (\<lambda>result.
     ebind (elift (map_sum Raised id (int_of ip (jget_default result ''protocol_version'' (JInt 0))))) (\<lambda>version.
     if version \<noteq> ip_version ip
     then eraise (CoreSupervisorError ''Core handshake returned unsupported version'')
     else (\<lambda>s. (Inr (), s\<lparr>sv_handshake := Some result\<rparr>))))"

definition terminate_and_raise :: "core_os \<Rightarrow> supervisor_exn \<Rightarrow> 'a supervised" where
  "terminate_and_raise os e = ebind (terminate_locked os) (\<lambda>_. eraise e)"

definition start_core :: "core_os \<Rightarrow> core_ipc \<Rightarrow> supervisor_setup \<Rightarrow> unit supervised" where
  "start_core os ip cfg =
     ebind (is_running_locked os) (\<lambda>running.
     if running then ereturn ()
     else ebind (spawn_locked os cfg) (\<lambda>_.
       ecatch (shake_hands os ip cfg) (terminate_and_raise os)))"

definition handle_request_error :: "core_os \<Rightarrow> supervisor_exn \<Rightarrow> 'a supervised" where
  "handle_request_error os e =
     (if e = CoreSupervisorTimeout then terminate_and_raise os e
      else case e of
        CoreSupervisorRemoteError _ _ _ \<Rightarrow> eraise e
      | _ \<Rightarrow>
         if is_invalid_response e then terminate_and_raise os (CoreSupervisorError ''invalid Core response'')
         else if is_supervisor_error e then terminate_and_raise os e
         else if e = StreamError then terminate_and_raise os (CoreSupervisorCrashed ''Core protocol stream failed'')
         else eraise e)"

definition supervisor_request ::
  "core_os \<Rightarrow> core_ipc \<Rightarrow> supervisor_setup \<Rightarrow> string \<Rightarrow> (string \<times> json) list \<Rightarrow> string option \<Rightarrow> int option
    \<Rightarrow> (string \<times> json) list supervised" where
  "supervisor_request os ip cfg operation payload request_id timeout =
     ebind (start_core os ip cfg) (\<lambda>_.
     ecatch (exchange_locked os ip operation payload request_id
         (case timeout of Some t \<Rightarrow> if t = 0 then ss_operation_timeout cfg else t | None \<Rightarrow> ss_operation_timeout cfg))
       (handle_request_error os))"

definition try_request ::
  "core_os \<Rightarrow> core_ipc \<Rightarrow> supervisor_setup \<Rightarrow> string \<Rightarrow> (string \<times> json) list \<Rightarrow> string option \<Rightarrow> int option
    \<Rightarrow> (string \<times> json) list supervised" where
  "try_request os ip cfg operation payload request_id timeout =
     ebind (ask (os_lock os) LockTried) (\<lambda>acquired.
     if \<not> acquired then eraise CoreSupervisorBusy
     else supervisor_request os ip cfg operation payload request_id timeout)"

definition close_core :: "core_os \<Rightarrow> core_ipc \<Rightarrow> supervisor_setup \<Rightarrow> unit supervised" where
  "close_core os ip cfg =
     ebind (is_running_locked os) (\<lambda>running.
     ebind (if running then
         ecatch (ebind (exchange_locked os ip ''shutdown'' [] None (ss_operation_timeout cfg)) (\<lambda>_. ereturn ()))
           (\<lambda>e. if is_supervisor_error e \<or> is_raised_value_error e \<or> e = StreamError
             then terminate_locked os else eraise e)
       else ereturn ()) (\<lambda>_.
     terminate_locked os))"

definition restart_core :: "core_os \<Rightarrow> core_ipc \<Rightarrow> supervisor_setup \<Rightarrow> unit supervised" where
  "restart_core os ip cfg = ebind (terminate_locked os) (\<lambda>_. start_core os ip cfg)"

text \<open>A line that the thread drains from the standard error of Core; a hundred are kept.\<close>

definition drain_line :: "string \<Rightarrow> core_supervisor \<Rightarrow> core_supervisor" where
  "drain_line raw s =
     (let line = rstrip raw; ls = sv_stderr_lines s @ [line] in
      if line = [] then s else s\<lparr>sv_stderr_lines := drop (length ls - 100) ls\<rparr>)"

section \<open>Calls\<close>

datatype supervisor_call =
    Start
  | Request string "(string \<times> json) list" "string option" "int option"
  | TryRequest string "(string \<times> json) list" "string option" "int option"
  | Close
  | Restart
  | StderrLine string

fun perform :: "core_os \<Rightarrow> core_ipc \<Rightarrow> supervisor_setup \<Rightarrow> supervisor_call \<Rightarrow> core_supervisor \<Rightarrow> core_supervisor" where
  "perform os ip cfg Start s = snd (start_core os ip cfg s)"
| "perform os ip cfg (Request operation payload rid timeout) s =
     snd (supervisor_request os ip cfg operation payload rid timeout s)"
| "perform os ip cfg (TryRequest operation payload rid timeout) s =
     snd (try_request os ip cfg operation payload rid timeout s)"
| "perform os ip cfg Close s = snd (close_core os ip cfg s)"
| "perform os ip cfg Restart s = snd (restart_core os ip cfg s)"
| "perform os ip cfg (StderrLine raw) s = drain_line raw s"

definition performs :: "core_os \<Rightarrow> core_ipc \<Rightarrow> supervisor_setup \<Rightarrow> supervisor_call list \<Rightarrow> core_supervisor \<Rightarrow> core_supervisor" where
  "performs os ip cfg calls s = fold (perform os ip cfg) calls s"

section \<open>Conversations\<close>

text \<open>
  What was read from a process, what was sent to it, and that both are in step: one whole frame came back
  for each that went out, and it carries the identifier of that request whenever it decodes.
\<close>

fun chunk_from :: "nat \<Rightarrow> os_event \<Rightarrow> bytes" where
  "chunk_from h (Chunk k b) = (if k = h then b else [])"
| "chunk_from h _ = []"

definition stdout_of :: "nat \<Rightarrow> os_event list \<Rightarrow> bytes" where
  "stdout_of h log = concat (map (chunk_from h) log)"

fun frame_to :: "nat \<Rightarrow> os_event \<Rightarrow> bytes list" where
  "frame_to h (Wrote k b) = (if k = h then [b] else [])"
| "frame_to h _ = []"

definition requests_to :: "nat \<Rightarrow> os_event list \<Rightarrow> bytes list" where
  "requests_to h log = concat (map (frame_to h) log)"

definition framed :: "bytes \<Rightarrow> bool" where
  "framed b \<longleftrightarrow> 4 \<le> length b \<and> length b = 4 + be_number (take 4 b)"

definition answers :: "core_ipc \<Rightarrow> bytes \<Rightarrow> bytes \<Rightarrow> bool" where
  "answers ip w f \<longleftrightarrow> framed f \<and> (\<exists>rq encoded. ip_encode ip rq = Inr encoded
     \<and> w = be_bytes FRAME_HEADER_BYTES (length encoded) @ encoded
     \<and> (\<forall>response. ip_decode ip (drop 4 f) = Inr response \<longrightarrow> rp_request_id response = rq_request_id rq))"

definition conversation :: "core_ipc \<Rightarrow> nat \<Rightarrow> os_event list \<Rightarrow> bytes list \<Rightarrow> bool" where
  "conversation ip h log fs \<longleftrightarrow> stdout_of h log = concat fs \<and> list_all2 (answers ip) (requests_to h log) fs"

lemma log_append [simp]:
  "stdout_of h (a @ b) = stdout_of h a @ stdout_of h b" "stdout_of h [] = []" "stdout_of h [e] = chunk_from h e"
  "requests_to h (a @ b) = requests_to h a @ requests_to h b" "requests_to h [] = []"
  "requests_to h [e] = frame_to h e"
  "stdout_of h (e # a) = chunk_from h e @ stdout_of h a" "requests_to h (e # a) = frame_to h e @ requests_to h a"
  by (simp_all add: stdout_of_def requests_to_def)

text \<open>The events of the conversation with one process.\<close>

fun concerns :: "nat \<Rightarrow> os_event \<Rightarrow> bool" where
  "concerns h (Polled k _) = (k = h)"
| "concerns h (NewId _) = True"
| "concerns h (Wrote k _) = (k = h)"
| "concerns h (WriteFailed k) = (k = h)"
| "concerns h (ClockRead _) = True"
| "concerns h (Selected k _ _) = (k = h)"
| "concerns h (SelectFailed k) = (k = h)"
| "concerns h (Chunk k _) = (k = h)"
| "concerns h (ReadFailed k) = (k = h)"
| "concerns h (StreamsClosed k) = (k = h)"
| "concerns h (Terminated k) = (k = h)"
| "concerns h (Killed k) = (k = h)"
| "concerns h (Waited k _) = (k = h)"
| "concerns h _ = False"

definition says :: "nat \<Rightarrow> core_supervisor \<Rightarrow> os_event list \<Rightarrow> core_supervisor \<Rightarrow> bool" where
  "says h s es t \<longleftrightarrow> t = s\<lparr>sv_log := sv_log s @ es\<rparr> \<and> list_all (concerns h) es"

lemma says_trans: "says h s es t \<Longrightarrow> says h t fs u \<Longrightarrow> says h s (es @ fs) u"
  by (auto simp: says_def)

lemma says_refl: "says h s [] s"
  by (simp add: says_def)

text \<open>So far, the events since \<open>s0\<close> were these; the rules of a program that only talks to its process.\<close>

definition so_far :: "nat \<Rightarrow> core_supervisor \<Rightarrow> (os_event list \<Rightarrow> bool) \<Rightarrow> core_supervisor \<Rightarrow> bool" where
  "so_far h s0 A s \<longleftrightarrow> (\<exists>es. says h s0 es s \<and> A es)"

lemma so_far_event: "so_far h s0 A s \<Longrightarrow> concerns h e \<Longrightarrow> (\<And>es. A es \<Longrightarrow> B (es @ [e])) \<Longrightarrow> so_far h s0 B (note_event e s)"
  unfolding so_far_def note_event_def says_def by force

lemma so_far_mono: "so_far h s0 A s \<Longrightarrow> (\<And>es. A es \<Longrightarrow> B es) \<Longrightarrow> so_far h s0 B s"
  unfolding so_far_def by blast

lemma hoare_ask:
  "(\<And>a. concerns h (event a)) \<Longrightarrow> (\<And>a es. A es \<Longrightarrow> B a (es @ [event a]))
    \<Longrightarrow> hoare (so_far h s0 A) (ask answer event) (\<lambda>a. so_far h s0 (B a)) E"
  by (auto simp: hoare_def ask_def intro: so_far_event)

lemma hoare_raise: "(\<And>es. A es \<Longrightarrow> F e es) \<Longrightarrow> hoare (so_far h s0 A) (eraise e) Q (\<lambda>e. so_far h s0 (F e))"
  by (rule hoare_pure(2)) (blast intro: so_far_mono)

lemma hoare_return: "(\<And>es. A es \<Longrightarrow> B x es) \<Longrightarrow> hoare (so_far h s0 A) (ereturn x) (\<lambda>x. so_far h s0 (B x)) E"
  by (rule hoare_pure(1)) (blast intro: so_far_mono)

text \<open>Errors after which the stream may be out of step.\<close>

fun breaks :: "supervisor_exn \<Rightarrow> bool" where
  "breaks CoreSupervisorTimeout = True"
| "breaks (CoreSupervisorCrashed _) = True"
| "breaks (CoreSupervisorError _) = True"
| "breaks StreamError = True"
| "breaks (Raised e) = is_value_error e"
| "breaks _ = False"

lemma breaks_fault [simp]: "breaks (fault_exn f)"
  by (cases f) (simp_all add: is_value_error_def)

lemma read_chunk_hoare:
  "hoare (so_far h s0 (\<lambda>es. es = [])) (read_chunk os h deadline n)
     (\<lambda>c. so_far h s0 (\<lambda>es. requests_to h es = [] \<and> stdout_of h es = c \<and> length c \<le> n))
     (\<lambda>e. so_far h s0 (\<lambda>es. requests_to h es = [] \<and> breaks e))"
  unfolding read_chunk_def Let_def
proof (intro hoare_bind hoare_if)
  define quiet where "quiet = (\<lambda>es. requests_to h es = [] \<and> stdout_of h es = [])"
  show "hoare (so_far h s0 (\<lambda>es. es = [])) (ask (os_clock os) ClockRead) (\<lambda>_. so_far h s0 quiet)
      (\<lambda>e. so_far h s0 (\<lambda>es. requests_to h es = [] \<and> breaks e))"
    by (rule hoare_ask) (simp_all add: quiet_def)
  fix now
  show "hoare (so_far h s0 quiet) (eraise CoreSupervisorTimeout) Q
      (\<lambda>e. so_far h s0 (\<lambda>es. requests_to h es = [] \<and> breaks e))" for Q
    by (rule hoare_raise) (simp add: quiet_def)
  show "hoare (so_far h s0 quiet) (ask (\<lambda>l. os_select os l h (deadline - now))
        (\<lambda>r. case r of Inl x \<Rightarrow> SelectFailed h | Inr x \<Rightarrow> Selected h (deadline - now) x))
      (\<lambda>_. so_far h s0 quiet) (\<lambda>e. so_far h s0 (\<lambda>es. requests_to h es = [] \<and> breaks e))"
    by (rule hoare_ask) (simp_all add: quiet_def split: sum.split)
  fix r :: "io_fault + bool"
  have "hoare (so_far h s0 quiet) (ask (\<lambda>l. map_sum id (take n) (os_read os l h))
        (\<lambda>r. case r of Inl x \<Rightarrow> ReadFailed h | Inr x \<Rightarrow> Chunk h x))
      (\<lambda>r. so_far h s0 (\<lambda>es. requests_to h es = [] \<and> (case r of Inl _ \<Rightarrow> True | Inr c \<Rightarrow>
        stdout_of h es = c \<and> length c \<le> n))) E" for E
    unfolding hoare_def ask_def quiet_def
    by (auto simp: map_sum_def split: sum.split intro!: so_far_event)
  then show "hoare (so_far h s0 quiet) (case r of Inl f \<Rightarrow> eraise (fault_exn f) | Inr ready \<Rightarrow>
        if \<not> ready then eraise CoreSupervisorTimeout
        else ebind (ask (\<lambda>l. map_sum id (take n) (os_read os l h))
          (\<lambda>r. case r of Inl x \<Rightarrow> ReadFailed h | Inr x \<Rightarrow> Chunk h x))
          (\<lambda>r. case r of Inl f \<Rightarrow> eraise (fault_exn f) | Inr x \<Rightarrow> ereturn x))
      (\<lambda>c. so_far h s0 (\<lambda>es. requests_to h es = [] \<and> stdout_of h es = c \<and> length c \<le> n))
      (\<lambda>e. so_far h s0 (\<lambda>es. requests_to h es = [] \<and> breaks e))"
    by (cases r) (auto intro!: hoare_raise hoare_return hoare_bind split: sum.split simp: quiet_def)
qed

lemma read_chunk_says:
  assumes "read_chunk os h deadline n s = (r, t)"
  shows "\<exists>es. says h s es t \<and> requests_to h es = []
     \<and> (case r of Inl e \<Rightarrow> breaks e | Inr c \<Rightarrow> stdout_of h es = c \<and> length c \<le> n)"
proof -
  have "so_far h s (\<lambda>es. es = []) s" by (simp add: so_far_def says_refl)
  from hoareD [OF read_chunk_hoare this] assms show ?thesis
    by (cases r) (auto simp: so_far_def)
qed

lemma read_exact_timed_says:
  assumes "read_exact_timed os h deadline n acc s = (r, t)"
  shows "\<exists>es. says h s es t \<and> requests_to h es = []
     \<and> (case r of Inl e \<Rightarrow> breaks e | Inr b \<Rightarrow> b = acc @ stdout_of h es \<and> length (stdout_of h es) = n)"
  using assms
proof (induction n arbitrary: acc s rule: less_induct)
  case (less n)
  show ?case
  proof (cases "n = 0")
    case True
    with less.prems show ?thesis
      by (intro exI [of _ "[]"]) (auto simp: read_exact_timed.simps says_refl)
  next
    case False
    obtain q u where q: "read_chunk os h deadline n s = (q, u)" by fastforce
    from read_chunk_says [OF q] obtain es where es: "says h s es u" "requests_to h es = []"
      and res: "case q of Inl e \<Rightarrow> breaks e | Inr c \<Rightarrow> stdout_of h es = c \<and> length c \<le> n" by blast
    have unfold: "read_exact_timed os h deadline n acc s = (case q of Inl e \<Rightarrow> (Inl e, u) | Inr chunk \<Rightarrow>
        if chunk = [] then (Inl (CoreSupervisorCrashed ''Core process closed stdout''), u)
        else read_exact_timed os h deadline (n - length chunk) (acc @ chunk) u)"
      using False q by (subst read_exact_timed.simps) (simp split: sum.split)
    show ?thesis
    proof (cases q)
      case (Inl e)
      with unfold less.prems es res show ?thesis by auto
    next
      case (Inr c)
      show ?thesis
      proof (cases "c = []")
        case True
        with Inr unfold less.prems es show ?thesis by auto
      next
        case c: False
        with Inr unfold less.prems
        have "read_exact_timed os h deadline (n - length c) (acc @ c) u = (r, t)" by simp
        from less.IH [OF _ this] c False obtain fs where fs: "says h u fs t" "requests_to h fs = []"
          "case r of Inl e \<Rightarrow> breaks e | Inr b \<Rightarrow> b = (acc @ c) @ stdout_of h fs \<and> length (stdout_of h fs) = n - length c"
          by auto
        with says_trans [OF es(1) fs(1)] es(2) res Inr show ?thesis
          by (intro exI [of _ "es @ fs"]) (auto split: sum.splits)
      qed
    qed
  qed
qed

lemma says_hoare:
  assumes "\<And>s r t. m s = (r, t) \<Longrightarrow> \<exists>es. says h s es t \<and> (case r of Inl e \<Rightarrow> F e es | Inr x \<Rightarrow> G x es)"
    and "\<And>x es fs. A es \<Longrightarrow> G x fs \<Longrightarrow> B x (es @ fs)" "\<And>e es fs. A es \<Longrightarrow> F e fs \<Longrightarrow> C e (es @ fs)"
  shows "hoare (so_far h s0 A) m (\<lambda>x. so_far h s0 (B x)) (\<lambda>e. so_far h s0 (C e))"
  using assms unfolding so_far_def
  by (intro hoareI) (fastforce dest: says_trans split: sum.splits)+

lemma hoare_says:
  assumes "\<And>s0. hoare (so_far h s0 (\<lambda>es. es = [])) m (\<lambda>x. so_far h s0 (G x)) (\<lambda>e. so_far h s0 (F e))"
    and "m s = (r, t)"
  shows "\<exists>es. says h s es t \<and> (case r of Inl e \<Rightarrow> F e es | Inr x \<Rightarrow> G x es)"
proof -
  have "so_far h s (\<lambda>es. es = []) s" by (simp add: so_far_def says_refl)
  from hoareD [OF assms(1) this] assms(2) show ?thesis
    by (cases r) (auto simp: so_far_def)
qed

lemma read_frame_hoare:
  "hoare (so_far h s0 (\<lambda>es. es = [])) (read_frame_timed os h timeout)
     (\<lambda>b. so_far h s0 (\<lambda>es. requests_to h es = [] \<and> framed (stdout_of h es) \<and> drop 4 (stdout_of h es) = b))
     (\<lambda>e. so_far h s0 (\<lambda>es. requests_to h es = [] \<and> breaks e))"
  unfolding read_frame_timed_def Let_def
proof (intro hoare_bind hoare_if)
  show "hoare (so_far h s0 (\<lambda>es. es = [])) (ask (os_clock os) ClockRead)
      (\<lambda>_. so_far h s0 (\<lambda>es. requests_to h es = [] \<and> stdout_of h es = []))
      (\<lambda>e. so_far h s0 (\<lambda>es. requests_to h es = [] \<and> breaks e))"
    by (rule hoare_ask) simp_all
  have exact: "\<exists>es. says h s es t \<and> (case r of Inl e \<Rightarrow> requests_to h es = [] \<and> breaks e
      | Inr b \<Rightarrow> requests_to h es = [] \<and> b = stdout_of h es \<and> length b = n)"
    if "read_exact_timed os h deadline n [] s = (r, t)" for deadline n s r t
    using read_exact_timed_says [OF that] by (auto split: sum.splits)
  show "hoare (so_far h s0 (\<lambda>es. requests_to h es = [] \<and> stdout_of h es = []))
      (read_exact_timed os h (now + max timeout 10000) 4 [])
      (\<lambda>header. so_far h s0 (\<lambda>es. requests_to h es = [] \<and> stdout_of h es = header \<and> length header = 4))
      (\<lambda>e. so_far h s0 (\<lambda>es. requests_to h es = [] \<and> breaks e))" for now
    by (rule says_hoare [OF exact]) auto
  show "hoare (so_far h s0 (\<lambda>es. requests_to h es = [] \<and> stdout_of h es = header \<and> length header = 4))
      (eraise (Raised (ValueError ''Core frame exceeds maximum size''))) Q
      (\<lambda>e. so_far h s0 (\<lambda>es. requests_to h es = [] \<and> breaks e))" for header Q
    by (rule hoare_raise) (simp add: is_value_error_def)
  show "hoare (so_far h s0 (\<lambda>es. requests_to h es = [] \<and> stdout_of h es = header \<and> length header = 4))
      (read_exact_timed os h (now + max timeout 10000) (be_number header) [])
      (\<lambda>b. so_far h s0 (\<lambda>es. requests_to h es = [] \<and> framed (stdout_of h es) \<and> drop 4 (stdout_of h es) = b))
      (\<lambda>e. so_far h s0 (\<lambda>es. requests_to h es = [] \<and> breaks e))" for header now
    by (rule says_hoare [OF exact]) (auto simp: framed_def)
qed

text \<open>How one exchange ends: the stream broke, or nothing went out and nothing came back, or one frame
  went out and one came back, and the result is what the frame says.\<close>

definition exchanged :: "core_ipc \<Rightarrow> nat \<Rightarrow> string option \<Rightarrow> supervisor_exn + (string \<times> json) list \<Rightarrow> os_event list \<Rightarrow> bool" where
  "exchanged ip h request_id r es \<longleftrightarrow>
     (\<exists>e. r = Inl e \<and> breaks e)
     \<or> (\<exists>e. r = Inl (Raised e)) \<and> stdout_of h es = [] \<and> requests_to h es = []
     \<or> (\<exists>w rid. requests_to h es = [w] \<and> answers ip w (stdout_of h es)
        \<and> (request_id = None \<or> request_id = Some [] \<or> request_id = Some rid)
        \<and> r = rbind (map_sum Raised id (ip_decode ip (drop 4 (stdout_of h es)))) (check_response rid))"

lemma exchange_with_says:
  assumes "exchange_with os ip h operation payload request_id timeout s = (r, t)"
  shows "\<exists>es. says h s es t \<and> exchanged ip h request_id r es"
proof -
  let ?F = "\<lambda>e. so_far h s (exchanged ip h request_id (Inl e))"
  define named where "named = (\<lambda>rid :: string. request_id = None \<or> request_id = Some [] \<or> request_id = Some rid)"
  define sent where "sent = (\<lambda>rid es. \<exists>rq encoded. rq_request_id rq = rid \<and> ip_encode ip rq = Inr encoded
    \<and> requests_to h es = [be_bytes FRAME_HEADER_BYTES (length encoded) @ encoded])"
  define idle where "idle = (\<lambda>es. requests_to h es = [] \<and> stdout_of h es = [])"
  have start: "so_far h s idle s"
    by (auto simp: so_far_def idle_def intro!: exI [of _ "[]"] says_refl)
  have "hoare (so_far h s idle) (exchange_with os ip h operation payload request_id timeout)
     (\<lambda>d. so_far h s (exchanged ip h request_id (Inr d))) ?F"
    unfolding exchange_with_def
  proof (intro hoare_bind)
    have "hoare (so_far h s idle) (ask (os_uuid os) NewId) (\<lambda>rid. so_far h s idle) ?F"
      by (rule hoare_ask) (simp_all add: idle_def)
    moreover have "hoare (so_far h s idle) (ereturn rid) (\<lambda>rid. so_far h s idle) ?F" for rid :: string
      by (rule hoare_return)
    ultimately show "hoare (so_far h s idle) (if request_id = None \<or> request_id = Some [] then ask (os_uuid os) NewId
        else ereturn (the request_id)) (\<lambda>rid s'. named rid \<and> so_far h s idle s') ?F"
      by (auto simp: hoare_def named_def split: prod.splits sum.splits)
  next
    fix rid
    have "so_far h s idle u \<Longrightarrow> so_far h s (exchanged ip h request_id (Inl (Raised e))) u" for u e
      by (erule so_far_mono) (auto simp: exchanged_def idle_def)
    moreover have "\<exists>rq. rq_request_id rq = rid \<and> ip_encode ip rq = Inr x"
      if "ip_encode ip \<lparr>rq_protocol_version = ip_version ip, rq_request_id = rid, rq_operation = operation,
        rq_payload = payload\<rparr> = Inr x" for x
      by (rule exI [of _ "\<lparr>rq_protocol_version = ip_version ip, rq_request_id = rid, rq_operation = operation,
        rq_payload = payload\<rparr>"]) (simp add: that)
    ultimately show "hoare (\<lambda>s'. named rid \<and> so_far h s idle s') (elift (map_sum Raised id (ip_encode ip
          \<lparr>rq_protocol_version = ip_version ip, rq_request_id = rid, rq_operation = operation, rq_payload = payload\<rparr>)))
        (\<lambda>encoded s'. (named rid \<and> (\<exists>rq. rq_request_id rq = rid \<and> ip_encode ip rq = Inr encoded)) \<and> so_far h s idle s') ?F"
      by (simp add: hoare_def map_sum_def split: sum.splits)
  next
    fix rid encoded
    have "\<exists>es. says h u es v \<and> (case q of Inl e \<Rightarrow> breaks e | Inr _ \<Rightarrow> stdout_of h es = []
        \<and> requests_to h es = [be_bytes FRAME_HEADER_BYTES (length encoded) @ encoded])"
      if "send_frame os h encoded u = (q, v)" for u q v
      using that by (cases "os_write os (sv_log u) h")
        (auto simp: send_frame_def ask_def ebind_def says_def note_event_def frame_too_large_def is_value_error_def
          intro: exI [of _ "[]"] split: if_splits)
    then have "hoare (so_far h s idle) (send_frame os h encoded)
        (\<lambda>_. so_far h s (\<lambda>es. stdout_of h es = []
          \<and> requests_to h es = [be_bytes FRAME_HEADER_BYTES (length encoded) @ encoded])) ?F"
      by (rule says_hoare) (auto simp: idle_def exchanged_def)
    then show "hoare (\<lambda>s'. (named rid \<and> (\<exists>rq. rq_request_id rq = rid \<and> ip_encode ip rq = Inr encoded)) \<and> so_far h s idle s')
        (send_frame os h encoded)
        (\<lambda>_ s'. named rid \<and> so_far h s (\<lambda>es. stdout_of h es = [] \<and> sent rid es) s') ?F"
      by (fastforce simp: hoare_def sent_def split: sum.splits prod.splits elim!: so_far_mono)
  next
    fix rid
    have "hoare (so_far h s (\<lambda>es. stdout_of h es = [] \<and> sent rid es)) (read_frame_timed os h timeout)
        (\<lambda>raw. so_far h s (\<lambda>es. framed (stdout_of h es) \<and> drop 4 (stdout_of h es) = raw \<and> sent rid es)) ?F"
      by (rule says_hoare [OF hoare_says [OF read_frame_hoare]]) (auto simp: exchanged_def sent_def)
    then show "hoare (\<lambda>s'. named rid \<and> so_far h s (\<lambda>es. stdout_of h es = [] \<and> sent rid es) s')
        (read_frame_timed os h timeout)
        (\<lambda>raw s'. named rid \<and> so_far h s (\<lambda>es. framed (stdout_of h es) \<and> drop 4 (stdout_of h es) = raw
          \<and> sent rid es) s') ?F"
      by (auto simp: hoare_def split: sum.splits prod.splits)
  next
    fix rid raw
    have bad: "exchanged ip h request_id (Inl (Raised e)) es"
      if "named rid" "framed (stdout_of h es)" "sent rid es" "ip_decode ip (drop 4 (stdout_of h es)) = Inl e" for e es
    proof -
      from that(3) obtain rq encoded where "ip_encode ip rq = Inr encoded"
        "requests_to h es = [be_bytes FRAME_HEADER_BYTES (length encoded) @ encoded]" by (auto simp: sent_def)
      with that(1,2,4) show ?thesis by (auto simp: exchanged_def answers_def named_def intro!: exI [of _ rid])
    qed
    show "hoare (\<lambda>s'. named rid \<and> so_far h s (\<lambda>es. framed (stdout_of h es) \<and> drop 4 (stdout_of h es) = raw
          \<and> sent rid es) s') (elift (map_sum Raised id (ip_decode ip raw)))
        (\<lambda>response s'. named rid \<and> so_far h s (\<lambda>es. framed (stdout_of h es)
          \<and> ip_decode ip (drop 4 (stdout_of h es)) = Inr response \<and> sent rid es) s') ?F"
      by (cases "ip_decode ip raw") (auto simp: hoare_def intro: so_far_mono bad)
  next
    fix rid response
    have "exchanged ip h request_id (check_response rid response) es"
      if "named rid" "framed (stdout_of h es)" "sent rid es"
        "ip_decode ip (drop 4 (stdout_of h es)) = Inr response" for es
    proof (cases "rp_request_id response = rid")
      case True
      from that(3) obtain rq encoded where "rq_request_id rq = rid" "ip_encode ip rq = Inr encoded"
        "requests_to h es = [be_bytes FRAME_HEADER_BYTES (length encoded) @ encoded]" by (auto simp: sent_def)
      with True that(1,2,4) show ?thesis by (auto simp: exchanged_def answers_def named_def intro!: exI [of _ rid])
    next
      case False
      then show ?thesis by (simp add: exchanged_def check_response_def)
    qed
    then have "so_far h s (exchanged ip h request_id (check_response rid response)) s'"
      if "named rid" "so_far h s (\<lambda>es. framed (stdout_of h es)
          \<and> ip_decode ip (drop 4 (stdout_of h es)) = Inr response \<and> sent rid es) s'" for s'
      using that by (blast intro: so_far_mono)
    then show "hoare (\<lambda>s'. named rid \<and> so_far h s (\<lambda>es. framed (stdout_of h es)
          \<and> ip_decode ip (drop 4 (stdout_of h es)) = Inr response \<and> sent rid es) s')
        (elift (check_response rid response)) (\<lambda>d. so_far h s (exchanged ip h request_id (Inr d))) ?F"
      by (auto simp: hoare_def split: sum.splits)
  qed
  from hoareD [OF this start] assms show ?thesis
    by (cases r) (auto simp: so_far_def)
qed

section \<open>What the supervisor keeps\<close>

text \<open>A process was found dead or told to terminate.\<close>

definition gone :: "nat \<Rightarrow> os_event list \<Rightarrow> bool" where
  "gone h log \<longleftrightarrow> Polled h False \<in> set log \<or> Terminated h \<in> set log"

text \<open>
  A launch after the events \<open>pre\<close>: a plan was made on the host of that moment, the command is the one of the
  set-up behind a wrapper, or without one; for a strict supervisor a probe has measured every required
  guarantee behind the same wrapper, and the signature was verified when it is required; and the
  environment is within the policy.
\<close>

definition isolated :: "core_os \<Rightarrow> supervisor_setup \<Rightarrow> os_event list \<Rightarrow> string list \<Rightarrow> (string \<times> string) list \<Rightarrow> bool" where
  "isolated os cfg pre command environment \<longleftrightarrow>
     (\<exists>before wrapper. pre = before @ [Planned]
        \<and> command = (if wrapper = [] then ss_command cfg else wrapper @ ''--'' # ss_command cfg)
        \<and> (ss_strict cfg \<longrightarrow>
             (\<forall>name. (name, True) \<in> set (butlast (requirements_as_dict (ss_requirements cfg)))
                \<longrightarrow> measured (os_host os before) (plan_args cfg) wrapper name)
             \<and> (iq_signature (ss_requirements cfg) \<longrightarrow> ss_binary_signature_verified cfg)))
     \<and> classify_core_environment (map fst environment) = (0, 0)"

lemma isolated_plan:
  assumes "build_sandbox_plan (os_host os before) (plan_args cfg) = Inr plan"
    and "classify_core_environment (map fst environment) = (0, 0)"
  shows "isolated os cfg (before @ [Planned]) (pl_command plan) environment"
proof -
  from build_sandbox_plan_credited [OF assms(1)] have cr: "credited (os_host os before) (plan_args cfg) plan"
    and m: "ss_strict cfg \<Longrightarrow> missing (ss_requirements cfg) (pl_capabilities plan) = []"
    by (simp_all add: plan_strict_def plan_requirements_def plan_args_def)
  have args: "sa_command (plan_args cfg) = ss_command cfg"
    "sa_binary_signature_verified (plan_args cfg) = ss_binary_signature_verified cfg" by (simp_all add: plan_args_def)
  from cr obtain wrapper where w: "pl_command plan = (if wrapper = [] then ss_command cfg else wrapper @ ''--'' # ss_command cfg)"
    "\<And>name. (name, True) \<in> set (guarantees (pl_capabilities plan)) \<Longrightarrow> measured (os_host os before) (plan_args cfg) wrapper name"
    and v: "ik_binary_signature_verified (pl_capabilities plan) \<Longrightarrow> ss_binary_signature_verified cfg"
    unfolding credited_def args by blast
  have "(name, True) \<in> set (guarantees (pl_capabilities plan))"
    if "ss_strict cfg" "(name, True) \<in> set (butlast (requirements_as_dict (ss_requirements cfg)))" for name
    using m [OF that(1)] that(2) by (auto simp: missing_Nil_iff requirements_as_dict_def guarantees_def PROBE_MEMBERS_def)
  moreover have "ss_binary_signature_verified cfg" if "ss_strict cfg" "iq_signature (ss_requirements cfg)"
    using m [OF that(1)] that(2) v by (simp add: missing_Nil_iff)
  ultimately show ?thesis using w assms(2) unfolding isolated_def by blast
qed

lemma spawned_append:
  assumes "list_all (\<lambda>e. \<not> is_spawn e) es" and "log @ es = pre @ Spawned h command environment # post"
  shows "\<exists>post'. log = pre @ Spawned h command environment # post'"
proof -
  from assms(2) consider us where "log = pre @ us" "us @ es = Spawned h command environment # post"
    | us where "es = us @ Spawned h command environment # post"
    by (auto simp: append_eq_append_conv2)
  then show ?thesis
  proof cases
    case 1
    with assms(1) show ?thesis by (cases us) auto
  next
    case 2
    with assms(1) show ?thesis by simp
  qed
qed

definition tidy :: "core_os \<Rightarrow> supervisor_setup \<Rightarrow> core_supervisor \<Rightarrow> bool" where
  "tidy os cfg s \<longleftrightarrow>
     (\<forall>h < spawn_count (sv_log s). sv_process s = Some h \<or> gone h (sv_log s))
     \<and> (\<forall>h. sv_process s = Some h \<longrightarrow> h < spawn_count (sv_log s))
     \<and> (\<forall>h \<ge> spawn_count (sv_log s). stdout_of h (sv_log s) = [] \<and> requests_to h (sv_log s) = [])
     \<and> (\<forall>pre h command environment post. sv_log s = pre @ Spawned h command environment # post
         \<longrightarrow> isolated os cfg pre command environment)
     \<and> sv_missing s = missing (ss_requirements cfg) (sv_capabilities s)"

lemma gone_append [simp]: "gone h (a @ b) \<longleftrightarrow> gone h a \<or> gone h b"
  by (auto simp: gone_def)

lemma spawn_count_append [simp]: "spawn_count (a @ b) = spawn_count a + spawn_count b"
  by (simp add: spawn_count_def)

lemma concerns_quiet:
  assumes "list_all (concerns h) es"
  shows "spawn_count es = 0" "k \<noteq> h \<Longrightarrow> stdout_of k es = []" "k \<noteq> h \<Longrightarrow> requests_to k es = []"
    "list_all (\<lambda>e. \<not> is_spawn e) es"
proof -
  have e: "\<not> is_spawn e \<and> (k \<noteq> h \<longrightarrow> chunk_from k e = [] \<and> frame_to k e = [])" if "concerns h e" for e k
    using that by (cases e) auto
  show "spawn_count es = 0"
    using assms e by (auto simp: spawn_count_def list_all_iff filter_empty_conv)
  show "k \<noteq> h \<Longrightarrow> stdout_of k es = []" "k \<noteq> h \<Longrightarrow> requests_to k es = []"
    using assms e by (auto simp: stdout_of_def requests_to_def list_all_iff)
  show "list_all (\<lambda>e. \<not> is_spawn e) es"
    using assms e by (auto simp: list_all_iff)
qed

text \<open>Talking to the current process, or letting it go, keeps everything tidy.\<close>

lemma tidy_talk:
  assumes "tidy os cfg s" and "sv_process s = Some h" and "sv_log t = sv_log s @ es" and "list_all (concerns h) es"
    and "sv_process t = Some h \<or> sv_process t = None \<and> gone h (sv_log t)"
    and "sv_missing t = sv_missing s" "sv_capabilities t = sv_capabilities s"
  shows "tidy os cfg t"
proof -
  note quiet = concerns_quiet [OF assms(4)]
  have "isolated os cfg pre command environment" if "sv_log t = pre @ Spawned k command environment # post"
    for pre k command environment post
    using spawned_append [OF quiet(4)] that assms(1,3) unfolding tidy_def by metis
  then show ?thesis
    using assms quiet(1-3) unfolding tidy_def by auto
qed

lemma tidy_says: "tidy os cfg s \<Longrightarrow> sv_process s = Some h \<Longrightarrow> says h s es t \<Longrightarrow> tidy os cfg t"
  by (rule tidy_talk [of os cfg s h t es]) (auto simp: says_def)

lemma terminate_spec:
  assumes "terminate_locked os s = (r, t)"
  shows "sv_process t = None" "sv_process s = None \<Longrightarrow> t = s"
    "sv_process s = Some h \<Longrightarrow> \<exists>es. t = s\<lparr>sv_process := None, sv_log := sv_log s @ es\<rparr> \<and> list_all (concerns h) es
       \<and> (Polled h False \<in> set es \<or> Terminated h \<in> set es)"
  using assms
  by (auto simp: terminate_locked_def act_def ask_def ebind_def poll_def wait_ended_def note_event_def
      split: option.splits if_splits)

lemma tidy_terminate: "tidy os cfg s \<Longrightarrow> terminate_locked os s = (r, t) \<Longrightarrow> tidy os cfg t"
proof (cases "sv_process s")
  case None
  then show "tidy os cfg s \<Longrightarrow> terminate_locked os s = (r, t) \<Longrightarrow> tidy os cfg t"
    using terminate_spec(2) by metis
next
  case (Some h)
  assume "tidy os cfg s" and run: "terminate_locked os s = (r, t)"
  from terminate_spec(3) [OF run Some] obtain es
    where "t = s\<lparr>sv_process := None, sv_log := sv_log s @ es\<rparr>" "list_all (concerns h) es"
      "Polled h False \<in> set es \<or> Terminated h \<in> set es" by blast
  with \<open>tidy os cfg s\<close> Some show "tidy os cfg t"
    by (intro tidy_talk [of os cfg s h t es]) (auto simp: gone_def)
qed

lemma terminate_and_raise_spec:
  assumes "terminate_and_raise os e s = (r, t)"
  shows "\<exists>q. terminate_locked os s = (q, t) \<and> (\<exists>e'. r = Inl e' \<and> (e' = e \<or> e' = TimeoutExpired))"
proof -
  have "r' = Inl TimeoutExpired" if "terminate_locked os s = (r', u)" "r' \<noteq> Inr ()" for r' u
    using that by (auto simp: terminate_locked_def act_def ask_def ebind_def poll_def wait_ended_def note_event_def
      split: option.splits if_splits)
  with assms show ?thesis
    by (cases "terminate_locked os s") (auto simp: terminate_and_raise_def ebind_def split: sum.splits)
qed

lemma is_running_spec:
  assumes "is_running_locked os s = (r, t)"
  shows "\<exists>b. r = Inr b \<and> (case sv_process s of None \<Rightarrow> t = s \<and> \<not> b | Some h \<Rightarrow> says h s [Polled h b] t)"
  using assms by (auto simp: is_running_locked_def poll_def ask_def says_def note_event_def split: option.splits)

lemma launch_environment_allowed:
  "classify_core_environment (map fst (launch_environment host cfg)) = (0, 0)"
  by (rule classify_allowed)
    (auto simp: launch_environment_def ALLOWED_KEYS_def ALLOWED_STATIC_KEYS_def map_filter_def
      split: option.splits if_splits)

text \<open>Events that belong to no process.\<close>

lemma tidy_aside:
  assumes "tidy os cfg s" and "sv_log t = sv_log s @ es" and "sv_process t = sv_process s"
    and "list_all (\<lambda>e. \<not> is_spawn e \<and> (\<forall>k. chunk_from k e = [] \<and> frame_to k e = [])) es"
    and "sv_missing t = missing (ss_requirements cfg) (sv_capabilities t)"
  shows "tidy os cfg t"
proof -
  from assms(4) have "spawn_count es = 0" "stdout_of k es = []" "requests_to k es = []"
    and quiet: "list_all (\<lambda>e. \<not> is_spawn e) es" for k
    by (auto simp: spawn_count_def stdout_of_def requests_to_def list_all_iff filter_empty_conv)
  moreover have "isolated os cfg pre command environment" if "sv_log t = pre @ Spawned k command environment # post"
    for pre k command environment post
    using spawned_append [OF quiet] that assms(1,2) unfolding tidy_def by metis
  ultimately show ?thesis using assms unfolding tidy_def by auto
qed

lemma tidy_missing: "tidy os cfg s \<Longrightarrow> sv_missing s = missing (ss_requirements cfg) (sv_capabilities s)"
  by (simp add: tidy_def)

text \<open>One event that is neither a launch nor part of a conversation.\<close>

lemma tidy_note:
  assumes "tidy os cfg s" and "\<not> is_spawn e" and "\<And>k. chunk_from k e = [] \<and> frame_to k e = []"
  shows "tidy os cfg (note_event e s)"
  by (rule tidy_aside [OF assms(1), of _ "[e]"]) (use assms tidy_missing in \<open>auto simp: note_event_def\<close>)

lemma tidy_spawned:
  assumes "tidy os cfg s" and "\<And>h. sv_process s = Some h \<Longrightarrow> gone h (sv_log s)"
    and "isolated os cfg (sv_log s) command environment" and h: "h = spawn_count (sv_log s)"
  shows "tidy os cfg ((note_event (Spawned h command environment) s)\<lparr>sv_process := Some h\<rparr>)"
proof -
  have "spawn_count [Spawned h command environment] = 1" by (simp add: spawn_count_def)
  moreover have "isolated os cfg pre c e" if "sv_log s @ [Spawned h command environment] = pre @ Spawned k c e # post"
    for pre k c e post
  proof (cases post rule: rev_exhaust)
    case Nil
    with that assms(3) show ?thesis by simp
  next
    case (snoc ys y)
    with that have "sv_log s = pre @ Spawned k c e # ys" by simp
    with assms(1) show ?thesis by (simp add: tidy_def)
  qed
  ultimately show ?thesis
    using assms
    unfolding tidy_def note_event_def by (auto simp: less_Suc_eq)
qed

text \<open>A launch, when the process of before is known to be gone.\<close>

lemma spawn_spec:
  assumes tidy: "tidy os cfg s" and gone: "\<And>h. sv_process s = Some h \<Longrightarrow> gone h (sv_log s)"
    and run: "spawn_locked os cfg s = (r, t)"
  shows "tidy os cfg t \<and> (if r = Inr () then \<exists>h. sv_process t = Some h \<and> conversation ip h (sv_log t) []
     else sv_process t = sv_process s \<and> sv_handshake t = sv_handshake s
        \<and> (\<exists>es. sv_log t = sv_log s @ es \<and> (\<forall>k. stdout_of k es = [] \<and> requests_to k es = []))
       \<or> \<not> (\<forall>l. os_thread os l))"
proof -
  define host where "host = os_host os (sv_log s)"
  define s1 where "s1 = note_event Planned s"
  have s1: "tidy os cfg s1" "sv_process s1 = sv_process s" "sv_handshake s1 = sv_handshake s" "sv_log s1 = sv_log s @ [Planned]"
    using tidy_note [OF tidy, of Planned] by (simp_all add: s1_def) (simp_all add: note_event_def)
  have caps: "tidy os cfg (set_capabilities cfg c s1)" for c
    by (rule tidy_aside [OF s1(1), of _ "[]"]) (simp_all add: set_capabilities_def)
  show ?thesis
  proof (cases "build_sandbox_plan host (plan_args cfg)")
    case (Inl e)
    with run obtain c where "t = s1 \<or> t = set_capabilities cfg c s1" "r \<noteq> Inr ()"
      by (cases e) (auto simp: spawn_locked_def Let_def host_def s1_def)
    with s1 caps [of c] have "tidy os cfg t" "sv_process t = sv_process s" "sv_handshake t = sv_handshake s"
      "sv_log t = sv_log s @ [Planned]"
      by (auto simp: set_capabilities_def)
    with \<open>r \<noteq> Inr ()\<close> show ?thesis by simp
  next
    case (Inr plan)
    define s2 where "s2 = set_capabilities cfg (pl_capabilities plan) s1"
    have s2: "tidy os cfg s2" "sv_process s2 = sv_process s" "sv_handshake s2 = sv_handshake s" "sv_log s2 = sv_log s @ [Planned]"
      using s1 caps by (simp_all add: s2_def set_capabilities_def)
    from run Inr have run: "ebind (popen os cfg host (pl_command plan)) (\<lambda>_. start_drain os) s2 = (r, t)"
      by (simp add: spawn_locked_def Let_def host_def [symmetric] s1_def [symmetric] s2_def)
    show ?thesis
    proof (cases "os_popen os (sv_log s2)")
      case False
      with run s2 have t: "t = note_event SpawnFailed s2" and "r \<noteq> Inr ()" by (auto simp: popen_def ebind_def)
      moreover have "tidy os cfg t"
        using tidy_note [OF s2(1), of SpawnFailed] t by simp
      ultimately show ?thesis
        using s2 by (auto simp: note_event_def intro!: exI [of _ "[Planned, SpawnFailed]"])
    next
      case True
      define h where "h = spawn_count (sv_log s2)"
      define u where "u = (note_event (Spawned h (pl_command plan) (launch_environment host cfg)) s2)\<lparr>sv_process := Some h\<rparr>"
      define b where "b = os_thread os (sv_log u)"
      have "isolated os cfg (sv_log s2) (pl_command plan) (launch_environment host cfg)"
        using isolated_plan [OF _ launch_environment_allowed] Inr unfolding host_def s2(4) by blast
      with s2 gone have u: "tidy os cfg u"
        unfolding u_def h_def by (intro tidy_spawned) auto
      have t: "t = note_event (ThreadStarted h b) u" and r: "r = Inr () \<longleftrightarrow> b"
        using run True by (auto simp: popen_def ebind_def start_drain_def ask_def Let_def u_def h_def b_def split: if_splits)
      have "tidy os cfg t"
        using tidy_note [OF u, of "ThreadStarted h b"] t by simp
      moreover have "conversation ip h (sv_log t) []"
        using s2(1) by (simp add: t u_def note_event_def tidy_def conversation_def h_def)
      moreover have "sv_process t = Some h" by (simp add: t u_def note_event_def)
      ultimately show ?thesis
        using r by (auto simp: b_def)
    qed
  qed
qed

section \<open>In step\<close>

text \<open>The first frame of a process is its handshake, with the one supported version.\<close>

definition handshaken :: "core_ipc \<Rightarrow> (string \<times> json) list \<Rightarrow> bytes \<Rightarrow> bool" where
  "handshaken ip d f \<longleftrightarrow> (\<exists>response rid. ip_decode ip (drop 4 f) = Inr response \<and> check_response rid response = Inr d
     \<and> int_of ip (jget_default d ''protocol_version'' (JInt 0)) = Inr (ip_version ip))"

definition engaged :: "core_ipc \<Rightarrow> core_supervisor \<Rightarrow> bool" where
  "engaged ip s \<longleftrightarrow> (case sv_process s of None \<Rightarrow> True
     | Some h \<Rightarrow> \<exists>fs d. conversation ip h (sv_log s) fs \<and> fs \<noteq> [] \<and> sv_handshake s = Some d \<and> handshaken ip d (hd fs))"

definition sound :: "core_os \<Rightarrow> core_ipc \<Rightarrow> supervisor_setup \<Rightarrow> core_supervisor \<Rightarrow> bool" where
  "sound os ip cfg s \<longleftrightarrow> tidy os cfg s \<and> ((\<forall>l. os_thread os l) \<longrightarrow> engaged ip s)"

lemma conversation_snoc:
  "conversation ip h log fs \<Longrightarrow> answers ip w (stdout_of h es) \<Longrightarrow> requests_to h es = [w]
    \<Longrightarrow> conversation ip h (log @ es) (fs @ [stdout_of h es])"
  by (simp add: conversation_def list_all2_appendI)

lemma conversation_same:
  "conversation ip h log fs \<Longrightarrow> stdout_of h es = [] \<Longrightarrow> requests_to h es = [] \<Longrightarrow> conversation ip h (log @ es) fs"
  by (simp add: conversation_def)

text \<open>An exchange whose error does not break the stream leaves it in step.\<close>

lemma engaged_exchanged:
  assumes "engaged ip s" and "sv_process s = Some h" and "says h s es t" and "exchanged ip h rid r es"
    and "\<And>e. r = Inl e \<Longrightarrow> \<not> breaks e"
  shows "engaged ip t"
  using assms conversation_snoc conversation_same
  unfolding engaged_def exchanged_def says_def by (fastforce simp: hd_append)

lemma sound_terminate: "sound os ip cfg s \<Longrightarrow> terminate_locked os s = (r, t) \<Longrightarrow> sound os ip cfg t"
  using tidy_terminate terminate_spec(1) by (fastforce simp: sound_def engaged_def)

lemma tidy_terminate_sound: "tidy os cfg s \<Longrightarrow> terminate_locked os s = (r, t) \<Longrightarrow> sound os ip cfg t"
  using tidy_terminate terminate_spec(1) by (fastforce simp: sound_def engaged_def)

lemma exchange_locked_says:
  assumes "exchange_locked os ip operation payload rid timeout s = (r, t)" and "sv_process s = Some h"
  shows "\<exists>es. says h s es t \<and> exchanged ip h rid r es"
  using assms exchange_with_says by (simp add: exchange_locked_def)

lemma sound_gone:
  assumes "sound os ip cfg s" and "is_running_locked os s = (Inr b, t)"
  shows "sound os ip cfg t" and "sv_process t = sv_process s"
    and "\<not> b \<Longrightarrow> sv_process t = Some h \<Longrightarrow> gone h (sv_log t)" and "b \<Longrightarrow> \<exists>h. sv_process t = Some h"
proof -
  have "sound os ip cfg t \<and> sv_process t = sv_process s \<and> (\<not> b \<longrightarrow> sv_process t = Some h \<longrightarrow> gone h (sv_log t))
    \<and> (b \<longrightarrow> (\<exists>h. sv_process t = Some h))"
  proof (cases "sv_process s")
    case None
    with assms is_running_spec [OF assms(2)] show ?thesis by simp
  next
    case (Some k)
    with is_running_spec [OF assms(2)] have t: "says k s [Polled k b] t" by simp
    then have "sv_log t = sv_log s @ [Polled k b]" "sv_process t = Some k" "sv_handshake t = sv_handshake s"
      using Some by (simp_all add: says_def)
    moreover from this have "engaged ip t" if "engaged ip s"
      using that Some unfolding engaged_def by (simp add: conversation_def)
    ultimately show ?thesis
      using assms(1) tidy_says [OF _ Some t] Some unfolding sound_def by (simp add: gone_def)
  qed
  then show "sound os ip cfg t" "sv_process t = sv_process s"
    "\<not> b \<Longrightarrow> sv_process t = Some h \<Longrightarrow> gone h (sv_log t)" "b \<Longrightarrow> \<exists>h. sv_process t = Some h" by blast+
qed

text \<open>A handshake ends with a process whose first frame it was, or with none.\<close>

lemma shake_hands_sound:
  assumes "tidy os cfg s" and h: "sv_process s = Some h" and conv: "conversation ip h (sv_log s) []"
    and run: "ecatch (shake_hands os ip cfg) (terminate_and_raise os) s = (r, t)"
  shows "sound os ip cfg t \<and> (r = Inr () \<longrightarrow> engaged ip t \<and> sv_process t = Some h)"
proof -
  obtain q u where q: "exchange_locked os ip ''handshake'' (handshake_payload ip cfg) None (ss_startup_timeout cfg) s = (q, u)"
    by fastforce
  from exchange_locked_says [OF q h] obtain es where es: "says h s es u" "exchanged ip h None q es" by blast
  have u: "tidy os cfg u" "sv_process u = Some h" "sv_log u = sv_log s @ es"
    using tidy_says [OF assms(1) h es(1)] es(1) h by (simp_all add: says_def)
  define v where "v = (\<lambda>d. int_of ip (jget_default d ''protocol_version'' (JInt 0)))"
  consider (ok) d where "q = Inr d" "v d = Inr (ip_version ip)" | (bad) e where "shake_hands os ip cfg s = (Inl e, u)"
  proof (cases q)
    case (Inl e)
    with q bad show ?thesis by (simp add: shake_hands_def ebind_def)
  next
    case (Inr d)
    show ?thesis
    proof (cases "v d = Inr (ip_version ip)")
      case True
      with Inr ok show ?thesis by blast
    next
      case False
      with q Inr show ?thesis
        by (cases "v d") (auto simp: shake_hands_def ebind_def v_def intro: bad)
    qed
  qed
  then show ?thesis
  proof cases
    case bad
    with run have "terminate_and_raise os e u = (r, t)" by (simp add: ecatch_def)
    from terminate_and_raise_spec [OF this] tidy_terminate_sound [OF u(1)] show ?thesis by auto
  next
    case ok
    with q run have t: "t = u\<lparr>sv_handshake := Some d\<rparr>" "r = Inr ()"
      by (auto simp: shake_hands_def ebind_def ecatch_def v_def)
    from ok es(2) obtain w rid response where f: "answers ip w (stdout_of h es)" "requests_to h es = [w]"
      "ip_decode ip (drop 4 (stdout_of h es)) = Inr response" "check_response rid response = Inr d"
      by (auto simp: exchanged_def map_sum_def split: sum.splits)
    then have "engaged ip t"
      using conversation_snoc [OF conv f(1,2)] ok(2) u t
      by (auto simp: engaged_def handshaken_def v_def intro!: exI [of _ "[stdout_of h es]"])
    moreover have "tidy os cfg t" using u(1) t by (simp add: tidy_def)
    ultimately show ?thesis using t u by (simp add: sound_def)
  qed
qed

lemma start_core_sound:
  assumes "sound os ip cfg s" and run: "start_core os ip cfg s = (r, t)"
  shows "sound os ip cfg t \<and> (r = Inr () \<longrightarrow> (\<exists>h. sv_process t = Some h))"
proof -
  obtain b u where b: "is_running_locked os s = (Inr b, u)"
    using is_running_spec by (metis surj_pair)
  note u = sound_gone [OF assms(1) b]
  show ?thesis
  proof (cases b)
    case True
    with run b u show ?thesis by (simp add: start_core_def ebind_def)
  next
    case False
    obtain q w where q: "spawn_locked os cfg u = (q, w)" by fastforce
    have "tidy os cfg u" using u(1) by (simp add: sound_def)
    note spawned = spawn_spec [OF this u(3) [OF False] q]
    show ?thesis
    proof (cases q)
      case (Inl e)
      with run b q False have "t = w" "r = Inl e" by (simp_all add: start_core_def ebind_def)
      moreover have "engaged ip w" if "\<forall>l. os_thread os l"
        using spawned Inl that u(1) unfolding sound_def engaged_def
        by (auto simp: conversation_def split: option.splits)
      ultimately show ?thesis using spawned by (simp add: sound_def)
    next
      case (Inr x)
      with spawned obtain h where "sv_process w = Some h" "conversation ip h (sv_log w) []" "tidy os cfg w"
        by auto
      moreover have "ecatch (shake_hands os ip cfg) (terminate_and_raise os) w = (r, t)"
        using run b q False Inr by (simp add: start_core_def ebind_def)
      ultimately show ?thesis using shake_hands_sound by blast
    qed
  qed
qed

lemma handle_request_error_cases:
  "(\<exists>e'. handle_request_error os e = terminate_and_raise os e') \<or> handle_request_error os e = eraise e \<and> \<not> breaks e"
  by (cases e) (auto simp: handle_request_error_def split: exn.splits)

lemma handled_request_sound:
  assumes "tidy os cfg s" and "\<not> breaks e \<Longrightarrow> sound os ip cfg s" and "handle_request_error os e s = (r, t)"
  shows "sound os ip cfg t"
proof -
  consider e' where "terminate_and_raise os e' s = (r, t)" | "\<not> breaks e" "t = s"
    using assms(3) handle_request_error_cases [of os e] by (metis eff_run(2) prod.inject)
  then show ?thesis
  proof cases
    case 1
    from terminate_and_raise_spec [OF this] show ?thesis
      using tidy_terminate_sound [OF assms(1)] by auto
  qed (use assms in simp)
qed

text \<open>An exchange with the current process: sound again unless it broke the stream.\<close>

lemma exchange_sound:
  assumes "sound os ip cfg s" and h: "sv_process s = Some h"
    and run: "exchange_locked os ip operation payload rid timeout s = (r, t)"
  shows "tidy os cfg t \<and> (\<forall>e. r = Inl e \<longrightarrow> \<not> breaks e) \<longrightarrow> sound os ip cfg t" and "tidy os cfg t"
proof -
  from exchange_locked_says [OF run h] obtain es where es: "says h s es t" "exchanged ip h rid r es" by blast
  show "tidy os cfg t" using tidy_says [OF _ h es(1)] assms(1) by (simp add: sound_def)
  with engaged_exchanged [OF _ h es] assms(1)
  show "tidy os cfg t \<and> (\<forall>e. r = Inl e \<longrightarrow> \<not> breaks e) \<longrightarrow> sound os ip cfg t" by (auto simp: sound_def)
qed

lemma request_sound:
  assumes "sound os ip cfg s" and run: "supervisor_request os ip cfg operation payload rid timeout s = (r, t)"
  shows "sound os ip cfg t"
proof -
  obtain q u where q: "start_core os ip cfg s = (q, u)" by fastforce
  note u = start_core_sound [OF assms(1) q]
  show ?thesis
  proof (cases q)
    case (Inl e)
    with run q u show ?thesis by (simp add: supervisor_request_def ebind_def)
  next
    case (Inr x)
    with u obtain h where h: "sv_process u = Some h" by auto
    obtain to p v where p: "exchange_locked os ip operation payload rid to u = (p, v)"
      and run': "ecatch (\<lambda>_. (p, v)) (handle_request_error os) u = (r, t)"
      using run q Inr by (auto simp: supervisor_request_def ebind_def ecatch_def split: prod.splits sum.splits)
    note v = exchange_sound [OF _ h p]
    from u have "sound os ip cfg u" by simp
    note v = v [OF this]
    show ?thesis
    proof (cases p)
      case (Inl e)
      with run' have "handle_request_error os e v = (r, t)" by (simp add: ecatch_def)
      from handled_request_sound [OF v(2) _ this] v Inl show ?thesis by auto
    next
      case (Inr d)
      with run' v show ?thesis by (auto simp: ecatch_def)
    qed
  qed
qed

lemma try_request_sound:
  assumes "sound os ip cfg s" and run: "try_request os ip cfg operation payload rid timeout s = (r, t)"
  shows "sound os ip cfg t"
proof -
  let ?u = "note_event (LockTried (os_lock os (sv_log s))) s"
  have "tidy os cfg ?u" using assms(1) by (auto simp: sound_def intro: tidy_note)
  moreover have "engaged ip ?u" if "engaged ip s"
    using that by (auto simp: engaged_def note_event_def conversation_def split: option.splits)
  ultimately have "sound os ip cfg ?u" using assms(1) by (simp add: sound_def)
  with run request_sound show ?thesis
    by (auto simp: try_request_def ebind_def ask_def split: if_splits)
qed

lemma close_sound:
  assumes "sound os ip cfg s" and run: "close_core os ip cfg s = (r, t)"
  shows "sound os ip cfg t"
proof -
  obtain b u where b: "is_running_locked os s = (Inr b, u)"
    using is_running_spec by (metis surj_pair)
  note u = sound_gone [OF assms(1) b]
  show ?thesis
  proof (cases b)
    case False
    with run b have "terminate_locked os u = (r, t)" by (simp add: close_core_def ebind_def)
    then show ?thesis using u(1) sound_terminate by blast
  next
    case True
    then obtain h where h: "sv_process u = Some h" using u(4) by blast
    obtain p v where p: "exchange_locked os ip ''shutdown'' [] None (ss_operation_timeout cfg) u = (p, v)" by fastforce
    note v = exchange_sound [OF u(1) h p]
    show ?thesis
    proof (cases p)
      case (Inr d)
      with run b True p have "terminate_locked os v = (r, t)"
        by (simp add: close_core_def ebind_def ecatch_def)
      then show ?thesis using tidy_terminate_sound [OF v(2)] by blast
    next
      case (Inl e)
      show ?thesis
      proof (cases "is_supervisor_error e \<or> is_raised_value_error e \<or> e = StreamError")
        case caught: True
        obtain q w where q: "terminate_locked os v = (q, w)" by fastforce
        from run b True p Inl caught q have "t = w \<or> terminate_locked os w = (r, t)"
          by (cases q) (auto simp: close_core_def ebind_def ecatch_def)
        then show ?thesis
          using tidy_terminate_sound [OF v(2) q] sound_terminate by blast
      next
        case False
        then have "\<not> breaks e" by (cases e) auto
        moreover from run b True p Inl False have "t = v" by (auto simp: close_core_def ebind_def ecatch_def)
        ultimately show ?thesis using v Inl by simp
      qed
    qed
  qed
qed

lemma restart_sound:
  assumes "sound os ip cfg s" and "restart_core os ip cfg s = (r, t)"
  shows "sound os ip cfg t"
proof -
  obtain q u where q: "terminate_locked os s = (q, u)" by fastforce
  have u: "sound os ip cfg u" using sound_terminate [OF assms(1) q] .
  show ?thesis
  proof (cases q)
    case (Inl e)
    with assms(2) q u show ?thesis by (simp add: restart_core_def ebind_def)
  next
    case (Inr x)
    with assms(2) q have "start_core os ip cfg u = (r, t)" by (simp add: restart_core_def ebind_def)
    then show ?thesis using start_core_sound [OF u] by blast
  qed
qed

lemma perform_sound: "sound os ip cfg s \<Longrightarrow> sound os ip cfg (perform os ip cfg call s)"
proof (cases call)
  case (StderrLine raw)
  have "sv_process (drain_line raw s) = sv_process s \<and> sv_log (drain_line raw s) = sv_log s
      \<and> sv_handshake (drain_line raw s) = sv_handshake s \<and> sv_missing (drain_line raw s) = sv_missing s
      \<and> sv_capabilities (drain_line raw s) = sv_capabilities s"
    by (simp add: drain_line_def Let_def)
  then show "sound os ip cfg s \<Longrightarrow> sound os ip cfg (perform os ip cfg call s)"
    using StderrLine by (cases "sv_process s") (simp_all add: sound_def tidy_def engaged_def)
qed (simp_all, (metis start_core_sound request_sound try_request_sound close_sound restart_sound prod.collapse)+)

lemma performs_sound: "sound os ip cfg s \<Longrightarrow> sound os ip cfg (performs os ip cfg calls s)"
  unfolding performs_def by (induction calls arbitrary: s) (auto intro: perform_sound)

lemma new_supervisor_sound:
  assumes "new_core_supervisor expanduser cwd ag = Inr (cfg, s)"
  shows "sound os ip cfg s"
proof -
  from assms have "s = \<lparr>sv_log = [], sv_process = None, sv_handshake = None,
      sv_capabilities = no_capabilities ''unavailable'' ''Core has not been launched'',
      sv_missing = missing (ss_requirements cfg) (no_capabilities ''unavailable'' ''Core has not been launched''),
      sv_stderr_lines = []\<rparr>"
    by (auto simp: new_core_supervisor_def Let_def res_simps split: option.splits)
  then show ?thesis by (simp add: sound_def tidy_def engaged_def spawn_count_def)
qed

section \<open>An example\<close>

text \<open>
  A host with \<^verbatim>\<open>unshare\<close> and a probe that finds no network behind it, a Core that answers each request with
  the frame it received, and a supervisor that requires network isolation.
\<close>

definition demo_host :: host where
  "demo_host = \<lparr>h_expanduser = id, h_exists = (\<lambda>_. False), h_is_file = (\<lambda>_. False), h_is_dir = (\<lambda>_. False),
     h_resolve = id, h_resolve_strict = (\<lambda>_. None),
     h_which = (\<lambda>name. if name = ''unshare'' then Some ''/unshare'' else None), h_read = (\<lambda>_. None),
     h_text_lines = (\<lambda>_. None), h_so_files = (\<lambda>_. []), h_ldd = (\<lambda>_. None), h_executable = ''/py'',
     h_python_version = ''3'', h_library_paths = (\<lambda>_. None), h_environ = (\<lambda>_. None), h_probe_script = ''p'',
     h_run = (\<lambda>command. if prefix [''/unshare'', ''--net''] command
       then Some (0, json_dumps (JObj (map (\<lambda>m. (m, JBool (m = ''network_isolated''))) PROBE_MEMBERS))) else None),
     h_marker_written = (\<lambda>_. False), h_marker_name = ''m'', h_write_marker_name = ''w'', h_port = 1,
     h_sentinel_fd = 3, h_recursion = 10\<rparr>"

definition demo_os :: core_os where
  "demo_os = \<lparr>os_host = (\<lambda>_. demo_host), os_popen = (\<lambda>_. True), os_thread = (\<lambda>_. True), os_alive = (\<lambda>_ _. True),
     os_uuid = (\<lambda>_. ''r''), os_write = (\<lambda>_ _. None), os_clock = (\<lambda>_. 0),
     os_select = (\<lambda>_ _ _. Inr True),
     os_read = (\<lambda>l h. Inr (drop (length (stdout_of h l)) (concat (requests_to h l)))),
     os_ended = (\<lambda>_ _. True), os_lock = (\<lambda>_. True)\<rparr>"

definition demo_ipc :: core_ipc where
  "demo_ipc = \<lparr>ip_version = 1, ip_operations = [''ingest''],
     ip_encode = (\<lambda>rq. Inr (rq_request_id rq @ CHR '':'' # rq_operation rq)),
     ip_decode = (\<lambda>b. Inr \<lparr>rp_request_id = takeWhile (\<lambda>c. c \<noteq> CHR '':'') b, rp_status = ''ok'', rp_error = None,
       rp_result = Some [(''protocol_version'', JInt 1)]\<rparr>),
     ip_int_of_float = (\<lambda>_. Inr 0)\<rparr>"

definition demo_args :: supervisor_args where
  "demo_args = \<lparr>ag_command = [''/core''], ag_startup_timeout = 0, ag_operation_timeout = 0, ag_client_name = ''c'',
     ag_client_version = ''1'', ag_core_data_dir = None, ag_blocked_data_dirs = [],
     ag_require_network_isolation = True, ag_rounds_database_path = None, ag_runtime_paths = [],
     ag_isolation_requirements = None, ag_strict_isolation = None, ag_binary_signature_verified = False,
     ag_semantic_language = Some ''en''\<rparr>"

definition demo_new :: "supervisor_setup \<times> core_supervisor" where
  "demo_new = projr (new_core_supervisor id (Path True []) demo_args)"

definition demo_session :: core_supervisor where
  "demo_session = performs demo_os demo_ipc (fst demo_new) [Start, Request ''ingest'' [] None None] (snd demo_new)"

lemma demo_new_Inr: "new_core_supervisor id (Path True []) demo_args = Inr (fst demo_new, snd demo_new)"
  unfolding demo_new_def by (simp add: new_core_supervisor_def demo_args_def raise_if_def Let_def blank_iff ascii_space_def)

lemma demo_read:
  assumes "0 < deadline" and "0 < n" and "n \<le> length rest"
    and "concat (requests_to h (sv_log s)) = stdout_of h (sv_log s) @ rest"
  shows "read_exact_timed demo_os h deadline n acc s = (Inr (acc @ take n rest),
    s\<lparr>sv_log := sv_log s @ [ClockRead 0, Selected h deadline True, Chunk h (take n rest)]\<rparr>)"
proof -
  have "read_chunk demo_os h deadline n s = (Inr (take n rest),
      s\<lparr>sv_log := sv_log s @ [ClockRead 0, Selected h deadline True, Chunk h (take n rest)]\<rparr>)"
    using assms by (simp add: read_chunk_def ebind_def ask_def note_event_def demo_os_def)
  moreover have "take n rest \<noteq> []" using assms(2,3) by auto
  ultimately show ?thesis
    using assms(2,3) by (simp add: read_exact_timed.simps [of _ _ _ n] read_exact_timed.simps [of _ _ _ 0] min_def)
qed

lemma demo_answers: "os_uuid demo_os l = ''r''" "os_write demo_os l h = None" "os_alive demo_os l h"
  "os_host demo_os l = demo_host" "os_popen demo_os l" "os_thread demo_os l"
  by (simp_all add: demo_os_def)

lemma demo_exchange:
  assumes "sv_process s = Some h" and "stdout_of h (sv_log s) = concat (requests_to h (sv_log s))"
    and "length op < 1000"
  shows "\<exists>es. exchange_locked demo_os demo_ipc op payload None timeout s
      = (Inr [(''protocol_version'', JInt 1)], s\<lparr>sv_log := sv_log s @ es\<rparr>)
    \<and> stdout_of h es = concat (requests_to h es) \<and> length (requests_to h es) = 1"
proof -
  define enc where "enc = ''r'' @ CHR '':'' # op"
  define frame where "frame = be_bytes 4 (length enc) @ enc"
  define s1 where "s1 = s\<lparr>sv_log := sv_log s @ [NewId ''r'', Wrote h frame, ClockRead 0]\<rparr>"
  define deadline where "deadline = max timeout 10000"
  define s2 where "s2 = s1\<lparr>sv_log := sv_log s1 @ [ClockRead 0, Selected h deadline True, Chunk h (take 4 frame)]\<rparr>"
  have len: "length enc < 256 ^ 4" "0 < length enc" "length enc \<le> MAX_FRAME_BYTES" "length enc \<le> 8 * 1024 * 1024"
    using assms(3) by (simp_all add: enc_def MAX_FRAME_BYTES_def)
  have head: "take 4 frame = be_bytes 4 (length enc)" "drop 4 frame = enc" by (simp_all add: frame_def)
  have d: "0 < deadline" by (simp add: deadline_def)
  have r1: "read_exact_timed demo_os h deadline 4 [] s1 = (Inr (take 4 frame), s2)"
    using demo_read [OF d, of 4 frame h s1 "[]"] assms(2) by (simp add: s1_def s2_def frame_def)
  have r2: "read_exact_timed demo_os h deadline (length enc) [] s2 = (Inr enc,
      s2\<lparr>sv_log := sv_log s2 @ [ClockRead 0, Selected h deadline True, Chunk h enc]\<rparr>)"
    using demo_read [OF d len(2), of enc h s2 "[]"] assms(2) head
    by (simp add: s1_def s2_def) (metis append_take_drop_id)
  have "read_frame_timed demo_os h timeout (s\<lparr>sv_log := sv_log s @ [NewId ''r'', Wrote h frame]\<rparr>) = (Inr enc,
      s2\<lparr>sv_log := sv_log s2 @ [ClockRead 0, Selected h deadline True, Chunk h enc]\<rparr>)"
    using r1 r2 be_number_be_bytes [OF len(1)] len(4) head
    by (simp add: read_frame_timed_def ebind_def ask_def note_event_def demo_os_def s1_def [symmetric] deadline_def [symmetric])
  then have "exchange_locked demo_os demo_ipc op payload None timeout s = (Inr [(''protocol_version'', JInt 1)],
      s2\<lparr>sv_log := sv_log s2 @ [ClockRead 0, Selected h deadline True, Chunk h enc]\<rparr>)"
    using assms(1) len(3)
    by (simp add: exchange_locked_def exchange_with_def ebind_def ask_def note_event_def elift_def demo_ipc_def
        send_frame_def enc_def frame_def FRAME_HEADER_BYTES_def check_response_def demo_answers)
  then show ?thesis
    using head by (intro exI [of _ "[NewId ''r'', Wrote h frame, ClockRead 0, ClockRead 0, Selected h deadline True,
      Chunk h (take 4 frame), ClockRead 0, Selected h deadline True, Chunk h enc]"]) (simp add: s1_def s2_def frame_def)
qed

lemma demo_plan: "\<exists>plan. build_sandbox_plan demo_host (plan_args (fst demo_new)) = Inr plan"
proof -
  have "\<not> isl (build_sandbox_plan demo_host (plan_args (fst demo_new)))" by code_simp
  then show ?thesis by (cases "build_sandbox_plan demo_host (plan_args (fst demo_new))") simp_all
qed

text \<open>After the start and one request, two requests were sent and two frames came back.\<close>

definition in_sync :: "nat \<Rightarrow> core_supervisor \<Rightarrow> bool" where
  "in_sync n s \<longleftrightarrow> sv_process s = Some 0 \<and> stdout_of 0 (sv_log s) = concat (requests_to 0 (sv_log s))
     \<and> length (requests_to 0 (sv_log s)) = n"

lemma demo_started:
  "\<exists>t. start_core demo_os demo_ipc (fst demo_new) (snd demo_new) = (Inr (), t) \<and> in_sync 1 t"
proof -
  have new: "sv_process (snd demo_new) = None" "sv_log (snd demo_new) = []" by code_simp+
  obtain plan where plan: "build_sandbox_plan demo_host (plan_args (fst demo_new)) = Inr plan" using demo_plan by blast
  obtain s where s: "spawn_locked demo_os (fst demo_new) (snd demo_new) = (Inr (), s)" "in_sync 0 s"
    using plan new
    by (simp add: spawn_locked_def Let_def popen_def start_drain_def ebind_def ask_def ereturn_def note_event_def demo_answers
        set_capabilities_def spawn_count_def in_sync_def)
  then obtain es where es: "exchange_locked demo_os demo_ipc ''handshake'' (handshake_payload demo_ipc (fst demo_new)) None
        (ss_startup_timeout (fst demo_new)) s = (Inr [(''protocol_version'', JInt 1)], s\<lparr>sv_log := sv_log s @ es\<rparr>)"
      "stdout_of 0 es = concat (requests_to 0 es)" "length (requests_to 0 es) = 1"
    using demo_exchange [of s 0 "''handshake''"] by (auto simp: in_sync_def)
  have version: "int_of demo_ipc (jget_default [(''protocol_version'', JInt 1)] ''protocol_version'' (JInt 0)) = Inr 1"
    "ip_version demo_ipc = 1" by (simp_all add: demo_ipc_def int_of_def jget_default_def)
  have "start_core demo_os demo_ipc (fst demo_new) (snd demo_new)
      = (Inr (), s\<lparr>sv_log := sv_log s @ es, sv_handshake := Some [(''protocol_version'', JInt 1)]\<rparr>)"
    using new s(1) es(1) version by (simp add: start_core_def is_running_locked_def ebind_def ecatch_def shake_hands_def elift_def)
  with s(2) es(2,3) show ?thesis by (auto simp: in_sync_def)
qed

lemma demo_sync: "in_sync 2 demo_session"
proof -
  obtain t where t: "start_core demo_os demo_ipc (fst demo_new) (snd demo_new) = (Inr (), t)" "in_sync 1 t"
    using demo_started by blast
  define u where "u = note_event (Polled 0 True) t"
  have u: "in_sync 1 u" using t(2) by (simp add: u_def in_sync_def note_event_def)
  have running: "start_core demo_os demo_ipc (fst demo_new) t = (Inr (), u)"
    using t(2) by (simp add: start_core_def is_running_locked_def poll_def ebind_def ereturn_def ask_def demo_answers in_sync_def u_def)
  obtain es where es: "exchange_locked demo_os demo_ipc ''ingest'' [] None (ss_operation_timeout (fst demo_new)) u
      = (Inr [(''protocol_version'', JInt 1)], u\<lparr>sv_log := sv_log u @ es\<rparr>)"
      "stdout_of 0 es = concat (requests_to 0 es)" "length (requests_to 0 es) = 1"
    using demo_exchange [of u 0 "''ingest''"] u by (auto simp: in_sync_def)
  have "demo_session = u\<lparr>sv_log := sv_log u @ es\<rparr>"
    using t(1) running es(1) by (simp add: demo_session_def performs_def supervisor_request_def ebind_def ecatch_def)
  moreover have "in_sync 2 (u\<lparr>sv_log := sv_log u @ es\<rparr>)" using u es(2,3) by (auto simp: in_sync_def)
  ultimately show ?thesis by simp
qed

lemma demo_launched:
  "\<exists>pre h command environment post. sv_log demo_session = pre @ Spawned h command environment # post"
proof -
  have "sound demo_os demo_ipc (fst demo_new) demo_session"
    unfolding demo_session_def by (rule performs_sound [OF new_supervisor_sound [OF demo_new_Inr]])
  then have "0 < length (filter is_spawn (sv_log demo_session))"
    using demo_sync by (auto simp: sound_def tidy_def spawn_count_def in_sync_def)
  then obtain e where "e \<in> set (sv_log demo_session)" "is_spawn e" by (auto simp: filter_empty_conv)
  moreover from \<open>is_spawn e\<close> obtain h command environment where "e = Spawned h command environment" by (cases e) auto
  ultimately show ?thesis by (metis split_list)
qed

section \<open>Properties\<close>

text \<open>
  C23. The conversation with Core stays in step. Whatever Core and the operating system do (late, short,
  wrong or missing answers, broken streams, deaths at any point), after any sequence of starts, requests,
  closes and restarts on a system whose threads can be started, a process that the supervisor still
  holds has answered every frame that was sent to it with exactly one whole frame; nothing else was read
  from it; each answer carries the identifier of the request at its place whenever it decodes; and the
  first one is the handshake that the supervisor reports, with the supported version. So no answer is
  ever taken for the answer to another request: after anything else the process was let go.
\<close>

theorem core_in_step:
  assumes "new_core_supervisor expanduser cwd ag = Inr (cfg, s0)" and "\<And>log. os_thread os log"
    and "s = performs os ip cfg calls s0" and "sv_process s = Some h"
  shows "\<exists>fs d. stdout_of h (sv_log s) = concat fs \<and> fs \<noteq> []
     \<and> list_all2 (\<lambda>w f. 4 \<le> length f \<and> length f = 4 + be_number (take 4 f)
         \<and> (\<exists>rq encoded. ip_encode ip rq = Inr encoded \<and> w = be_bytes 4 (length encoded) @ encoded
            \<and> (\<forall>response. ip_decode ip (drop 4 f) = Inr response \<longrightarrow> rp_request_id response = rq_request_id rq)))
       (requests_to h (sv_log s)) fs
     \<and> sv_handshake s = Some d
     \<and> (\<exists>response rid. ip_decode ip (drop 4 (hd fs)) = Inr response \<and> check_response rid response = Inr d)
     \<and> int_of ip (jget_default d ''protocol_version'' (JInt 0)) = Inr (ip_version ip)"
proof -
  have "sound os ip cfg s" unfolding assms(3) by (rule performs_sound [OF new_supervisor_sound [OF assms(1)]])
  then have "engaged ip s" using assms(2) by (simp add: sound_def)
  then obtain fs d where c: "stdout_of h (sv_log s) = concat fs" "list_all2 (answers ip) (requests_to h (sv_log s)) fs"
    "fs \<noteq> []" "sv_handshake s = Some d" "handshaken ip d (hd fs)"
    using assms(4) by (auto simp: engaged_def conversation_def)
  have "list_all2 (\<lambda>w f. 4 \<le> length f \<and> length f = 4 + be_number (take 4 f)
         \<and> (\<exists>rq encoded. ip_encode ip rq = Inr encoded \<and> w = be_bytes 4 (length encoded) @ encoded
            \<and> (\<forall>response. ip_decode ip (drop 4 f) = Inr response \<longrightarrow> rp_request_id response = rq_request_id rq)))
       (requests_to h (sv_log s)) fs"
    using c(2) by (rule list_all2_mono) (simp add: answers_def framed_def FRAME_HEADER_BYTES_def)
  with c show ?thesis unfolding handshaken_def by blast
qed

theorem core_in_step_witness:
  "\<exists>fs. stdout_of 0 (sv_log demo_session) = concat fs \<and> length fs = 2
     \<and> sv_handshake demo_session \<noteq> None"
proof -
  have "os_thread demo_os log" for log by (simp add: demo_answers)
  from core_in_step [OF demo_new_Inr this demo_session_def, of 0] demo_sync
  obtain fs d where "stdout_of 0 (sv_log demo_session) = concat fs" "sv_handshake demo_session = Some d"
    "length (requests_to 0 (sv_log demo_session)) = length fs"
    by (auto simp: in_sync_def dest: list_all2_lengthD)
  with demo_sync show ?thesis by (auto simp: in_sync_def)
qed



end
