(* ===== verification/Spec2Isabelle.thy ===== *)
theory Spec2Isabelle
  imports Outbox Framing TokenBudget RuntimeSupervisor CoreExecutionTaskWorker RestoreSafety Migrations
    StructuredJsonProvider CoreSupervisor
begin

text \<open>
  \<^bold>\<open>LedgerMind Local: a verification library.\<close>

  LedgerMind Local captures the rounds of an agent's conversation in SQLite, hands them to a separate
  program, Core, through a durable command queue, and executes model tasks for Core. The paths below
  are under \<^verbatim>\<open>src/src/ledgermind_local/\<close>. The parts and how they interact:

  \<^item> An HTTP request brings a round (\<^verbatim>\<open>api/rounds.py\<close>); the capture service (\<^verbatim>\<open>raw_rounds.py\<close>) validates it,
    computes its digest and writes round, payload, command and delivery in one unit of work
    (\<^verbatim>\<open>persistence/sqlite_uow.py\<close>) over two repositories (\<^verbatim>\<open>persistence/*_repository.py\<close>). The schema is brought
    up to date by numbered scripts (\<^verbatim>\<open>persistence/migrations.py\<close>).
  \<^item> The delivery worker (\<^verbatim>\<open>scheduler/core_command_worker.py\<close>) claims a command under a lease, delivers it
    through the gateway and records the outcome; the retention worker drops payloads that are no longer
    needed. Each runs in a guarded polling loop (\<^verbatim>\<open>scheduler/guarded_loop.py\<close>, \<^verbatim>\<open>worker_state.py\<close>,
    \<^verbatim>\<open>shutdown.py\<close>). A maintenance request may put rejected commands back (\<^verbatim>\<open>bootstrap.py\<close>).
  \<^item> The Core supervisor (\<^verbatim>\<open>core_gateway/supervisor.py\<close>) runs the Core process behind a sandbox (\<^verbatim>\<open>sandbox.py\<close>,
    \<^verbatim>\<open>isolation.py\<close>, \<^verbatim>\<open>security_policy.py\<close>) and exchanges one frame at a time with it.
  \<^item> Local and Core exchange frames (\<^verbatim>\<open>core_gateway/framing.py\<close>) that carry the envelopes of
    \<^verbatim>\<open>core_gateway/contracts.py\<close>; semantic tasks are bound to a strict JSON schema (\<^verbatim>\<open>inference/strict.py\<close>)
    and requests to a token budget (\<^verbatim>\<open>inference/token_budget.py\<close>). The executor
    (\<^verbatim>\<open>inference/core_task_executor.py\<close>) runs a task on a provider and turns every outcome into a result;
    its worker (\<^verbatim>\<open>scheduler/core_execution_task_worker.py\<close>) leases the tasks from Core, converts them, delivers
    the results and reports the failures. The worker imports the executor and the errors of the providers from
    the package \<^verbatim>\<open>ledgermind_inference\<close> (a dependency in \<^verbatim>\<open>pyproject.toml\<close>), which is not in the repository;
    here it is composed with the repository's module of the same name, which the repository's own tests use.
  \<^item> The structured provider (\<^verbatim>\<open>inference/structured_json_provider.py\<close>) stands behind the executor: it picks a mode
    from the profile and the probed capabilities (\<^verbatim>\<open>inference/profiles.py\<close>), sends one request, falls back once, and
    checks the answer against its schema. Its transport (\<^verbatim>\<open>inference/providers/openai_compatible.py\<close>) turns a request
    into a payload, posts it with bounded retries and parses the response.
  \<^item> Agents keep the runtime alive with leases (\<^verbatim>\<open>runtime/leases.py\<close>); the supervisor (\<^verbatim>\<open>runtime/supervisor.py\<close>)
    starts it on demand and stops it when it is idle (\<^verbatim>\<open>runtime/shutdown.py\<close>).
  \<^item> A backup is restored on both sides at once (\<^verbatim>\<open>maintenance/coordinated_restore.py\<close>): a journal records how
    far the restore came, a failure is compensated, and a restart recovers what a crash left.

  \<^bold>\<open>Theories.\<close> Each theory opens with what it holds.

  \<^item> \<open>Prelude\<close>: exceptions as values and the combinators \<open>rbind\<close>, \<open>raise_if\<close>, \<open>rmap\<close>; Python texts (as UTF-8
    bytes), bytes, SQL over tables as lists of rows; the locale \<open>step_invariant\<close>.
  \<^item> \<open>Json\<close>: documents, Python's writer and parser, and that reading inverts writing.
  \<^item> \<open>Clock\<close>: timestamps and their texts, and that the order of the texts is the order of the times.
  \<^item> \<open>Sha256\<close>: the digest function, on 32-bit words.
  \<^item> \<open>Rounds_Db\<close>: the tables and every repository operation; well-formedness is an invariant, the queue
    hands a command to one worker at a time, oldest first, and does not lose it (C1 to C3).
  \<^item> \<open>Requeue\<close>: the requeue of rejected commands, and what may become of a terminal command (C5).
  \<^item> \<open>Uow\<close>: the unit of work; the locale \<open>transaction_scope\<close> states what a scope promises, and its
    interpretation gives atomicity for the code (C9).
  \<^item> \<open>RawRounds\<close>: capture, digests, idempotency and the endpoint (C10, C11).
  \<^item> \<open>Redact\<close>: the redaction of error texts (C15, C16).
  \<^item> \<open>WorkerLoop\<close>: worker state, loop, backoff, shutdown.
  \<^item> \<open>CoreCommandWorker\<close>: delivery with every error path (C17).
  \<^item> \<open>Outbox\<close>: capture, delivery, retention and requeue together, as a step relation over arbitrary
    interleavings, with the invariants that span them (C20, C21) and what a capture leaves behind (C13).
  \<^item> \<open>Framing\<close>: frames over a stream that cuts them anywhere; the locale \<open>byte_reader\<close> is the contract of the
    stream (C25).
  \<^item> \<open>Sandbox\<close>: guarantees and requirements, the command line of the sandbox, the probe and what it is worth.
  \<^item> \<open>CoreSupervisor\<close>: the process of Core over an operating system that answers as it likes; the conversation stays
    in step (C23) and every launch is isolated as required (C24).
  \<^item> \<open>Leases\<close>: the lease directory and the shutdown predicate (C27).
  \<^item> \<open>RuntimeSupervisor\<close>: start, idle boundary and stop on top of \<open>Leases\<close> (C37, C38).
  \<^item> \<open>Strict\<close>: the schema profile and the strict requirement (C30).
  \<^item> \<open>Contracts\<close>, \<open>ControlContracts\<close>: validation and wire form of the envelopes (C32, C35).
  \<^item> \<open>TokenBudget\<close>: the estimate and its reference.
  \<^item> \<open>CoreTaskExecutor\<close>: dispatch, failures, audit records and batches (C39, C40).
  \<^item> \<open>ExecutionTaskWire\<close>: from a leased task to the task of the executor and from its result to the
    envelope, and the classification of failures (C28, C34).
  \<^item> \<open>Effects\<close>: programs that change a state and may raise; the locale \<open>progress\<close> for what a program keeps,
    and rules for pre- and postconditions.
  \<^item> \<open>CoreExecutionTaskWorker\<close>: the worker with all its calls, as a log; every task is settled once, the work
    of a poll is bounded, and reports carry no content (C4, C7, C18).
  \<^item> \<open>CoordinatedRestore\<close>, \<open>RestoreSafety\<close>: the restore as a program whose steps may fail or be the last, and
    that it never splits the two sides (C22); \<open>restore_gaps\<close> runs the examples in which it ends wrongly.
  \<^item> \<open>Migrations\<close>: the packaged migrations of the database and their application (C33).
  \<^item> \<open>Profiles\<close>: URLs, generation profiles, their fingerprint, and capabilities.
  \<^item> \<open>OpenAICompatible\<close>: requests, payloads, parsers, and the attempts of a request as a program over a log of
    posts, telemetry entries and waits; the loop equals its reference (C14), the contract is authoritative on the
    wire (C31), and fences come off with one exception (C26).
  \<^item> \<open>SchemaIssues\<close>: the bounded check of an answer agrees with a reference without limits and paths (C8), and when
    it ends (C12).
  \<^item> \<open>StructuredJsonProvider\<close>: the call from profile to result; strict requests are never downgraded (C6), calls and
    posts are bounded (C29, C36), and what a recorded fallback changes (C19). The locale \<open>bounded_transport\<close> is
    what a client may rely on in a transport; its interpretation is the default one.

  \<^bold>\<open>Conventions.\<close> A dataclass or table row is a record whose fields carry a two-letter prefix, an
  operation keeps the name of the function it models, a raise is \<open>Inl\<close> with the exception and its message,
  and state is passed explicitly; where a raise leaves changes behind, the state is returned beside the
  result. Operations that run under a lock or in a transaction are single functions; what may happen
  between them is a step relation or an explicit argument. The execution task worker, the Core supervisor, the
  restore, the migrations and the structured provider are programs in the sense of \<open>Effects\<close>; in the restore an argument decides at every step whether it happens,
  raises, or kills the process. Clocks, random identifiers, processes,
  streams, the gateway, \<^verbatim>\<open>datetime.fromisoformat\<close> and \<^verbatim>\<open>re.compile\<close> are arguments. Times and durations are
  whole microseconds; texts are UTF-8 byte strings with the ASCII part of Python's case and space tables.

  \<^bold>\<open>Bounds and fuel.\<close> The JSON parser has twice the length of the text plus one as fuel;
  \<open>json_loads_dumps\<close> shows it suffices for every written document. The schema check has the recursion depth that
  the interpreter has left; \<open>schema_check_ends\<close> says how much is enough and for which schemas none is, and running out
  is the code's \<^verbatim>\<open>RecursionError\<close>. All other recursion is structural or
  has a measure. Loops that may run for ever (the polling loop, the idle watcher) consume the list of
  turns the environment provides and say whether they ended.

  \<^bold>\<open>Findings.\<close> \<open>redact_text_keeps_bearer_token\<close> (an authorization header leaves its token in the text),
  \<open>maintenance_result_payload_loses_counts\<close> (two counters are not written),
  \<open>batch_one_result_per_task\<close> (a batch with one missing profile after a found one raises),
  \<open>stale_requeue_splits\<close> (two requeues at once may queue a delivered round again), \<open>poll_work_bounded\<close> (a third
  generation after a refused failure report), \<open>restore_gaps\<close> (three ways in which a restore ends wrongly),
  \<open>schema_check_ends\<close> (an accepted schema for which the check never returns), \<open>fenced_json\<close> (a valid fenced
  answer that is refused), \<open>provider_calls_bounded\<close> (a budget check that cannot fail) and \<open>next_mode_after_fallback\<close>
  (a recorded fallback after which another mode is tried) are theorems about the code as it is.

  \<^bold>\<open>Not modelled.\<close> The contract migration and the retrieval API. Of the providers, the HTTP client and the remote
  service are parameters, and of the telemetry only the entries of the attempts are kept; the rows of the profile
  store, the secrets file and the probes are seen through the environment of the structured provider. Embedders and
  rerankers are calls to numerical libraries; the gateway adapter, signature checks, backup archives, installer, command
  line and diagnostics are file-system, process and network operations around the parts above. Of the runtime
  supervisor, spawning and killing processes and PID bookkeeping are left out; of the sandbox, the script of the probe
  and the files and sockets it is given.
\<close>

end
